(* ===== verification/Prelude.thy ===== *)
theory Prelude
  imports Complex_Main "HOL-Library.Char_ord" "HOL-Library.Sublist"
begin

text \<open>
  What every component shares: the collections of rewrite rules the component proofs use,
  Python's insertion-ordered dictionary as an association list, the ordered
  de-duplication \<open>list(dict.fromkeys(xs))\<close>, a stable \<open>ORDER BY\<close>, the string methods the
  code calls, and the interface locale of a keyed store together with its one generic client,
  grouping by key. Strings are lists of characters and the model covers ASCII text: where the
  code writes human-readable messages in other scripts the model has an error constructor.
\<close>

named_theorems dict_simps "rewrite rules of the ordered dictionary"
named_theorems row_simps "rewrite rules of table rows and row updates"
named_theorems frame_simps "what an operation leaves unchanged"

subsection \<open>Exceptions\<close>

text \<open>The exceptions the modelled code raises; the argument names the cause, not the rendered text.\<close>

datatype py_error =
    ValueError string
  | KeyError string
  | RuntimeError string
  | IntegrityError string
  | TypeError string
  | AttributeError string
  | AssertionError string
  | ZeroDivisionError string
  | IndexError string

text \<open>
  Sequencing of computations that may raise: the first exception leaves the sequence. A list
  comprehension whose element expression may raise is \<open>make_all\<close>.
\<close>

definition bind_e :: "'e + 'a \<Rightarrow> ('a \<Rightarrow> 'e + 'b) \<Rightarrow> 'e + 'b" where
  "bind_e m f = (case m of Inl e \<Rightarrow> Inl e | Inr x \<Rightarrow> f x)"

fun make_all :: "('a \<Rightarrow> 'e + 'b) \<Rightarrow> 'a list \<Rightarrow> 'e + 'b list" where
  "make_all f [] = Inr []"
| "make_all f (x # xs) =
     (case f x of Inl e \<Rightarrow> Inl e | Inr y \<Rightarrow> (case make_all f xs of Inl e \<Rightarrow> Inl e | Inr ys \<Rightarrow> Inr (y # ys)))"

fun each :: "('a \<Rightarrow> 'b \<Rightarrow> 'e + 'b) \<Rightarrow> 'a list \<Rightarrow> 'b \<Rightarrow> 'e + 'b" where
  "each f [] b = Inr b"
| "each f (x # xs) b = (case f x b of Inl e \<Rightarrow> Inl e | Inr b' \<Rightarrow> each f xs b')"

named_theorems raise_simps "rewrite rules of computations that may raise"

lemma bind_e_simps [simp, raise_simps]: "bind_e (Inl e) f = Inl e" "bind_e (Inr x) f = f x"
  by (simp_all add: bind_e_def)

lemma bind_e_Inr_iff [raise_simps]: "bind_e m f = Inr y \<longleftrightarrow> (\<exists>x. m = Inr x \<and> f x = Inr y)"
  by (cases m) simp_all

lemma bind_e_Inl_iff: "bind_e m f = Inl e \<longleftrightarrow> m = Inl e \<or> (\<exists>x. m = Inr x \<and> f x = Inl e)"
  by (cases m) simp_all

lemma map_sum_Inr_iff: "map_sum f g m = Inr y \<longleftrightarrow> (\<exists>x. m = Inr x \<and> g x = y)"
  by (cases m) simp_all

lemma bind_e_cong [fundef_cong]: "m = m' \<Longrightarrow> (\<And>x. m' = Inr x \<Longrightarrow> f x = f' x) \<Longrightarrow> bind_e m f = bind_e m' f'"
  by (cases m') simp_all

lemma make_all_items: "make_all f xs = Inr ys \<Longrightarrow> list_all2 (\<lambda>x y. f x = Inr y) xs ys"
  by (induction f xs arbitrary: ys rule: make_all.induct) (auto split: sum.splits)

lemma make_all_total: "(\<And>x. x \<in> set xs \<Longrightarrow> f x \<noteq> Inl e) \<Longrightarrow> make_all f xs \<noteq> Inl e"
  by (induction f xs rule: make_all.induct) (auto split: sum.splits)

lemma each_inv:
  assumes "\<And>x b b'. P b \<Longrightarrow> f x b = Inr b' \<Longrightarrow> P b'" and "P b" and "each f xs b = Inr b'"
  shows "P b'"
  using assms(2,3)
proof (induction xs arbitrary: b)
  case (Cons x xs)
  then obtain b1 where "f x b = Inr b1" "each f xs b1 = Inr b'" by (auto split: sum.splits)
  with Cons assms(1) show ?case by blast
qed simp

subsection \<open>Ordered dictionaries\<close>

type_synonym ('k, 'v) dict = "('k \<times> 'v) list"

abbreviation dict_get :: "('k, 'v) dict \<Rightarrow> 'k \<Rightarrow> 'v option" where
  "dict_get d k \<equiv> map_of d k"

abbreviation dict_keys :: "('k, 'v) dict \<Rightarrow> 'k list" where
  "dict_keys d \<equiv> map fst d"

text \<open>Assignment \<open>d[k] = v\<close>: an existing key keeps its position, a new key goes last.\<close>

fun dict_set :: "('k, 'v) dict \<Rightarrow> 'k \<Rightarrow> 'v \<Rightarrow> ('k, 'v) dict" where
  "dict_set [] k v = [(k, v)]"
| "dict_set ((k', v') # d) k v = (if k' = k then (k, v) # d else (k', v') # dict_set d k v)"

definition dict_del :: "('k, 'v) dict \<Rightarrow> 'k \<Rightarrow> ('k, 'v) dict" where
  "dict_del d k = filter (\<lambda>p. fst p \<noteq> k) d"

definition dict_get_or :: "('k, 'v) dict \<Rightarrow> 'k \<Rightarrow> 'v \<Rightarrow> 'v" where
  "dict_get_or d k v = (case dict_get d k of None \<Rightarrow> v | Some w \<Rightarrow> w)"

lemma dict_get_set [simp, dict_simps]: "dict_get (dict_set d k v) = (dict_get d)(k \<mapsto> v)"
  by (induction d k v rule: dict_set.induct) (auto simp: fun_eq_iff)

lemma dict_get_del [simp, dict_simps]: "dict_get (dict_del d k) = (dict_get d)(k := None)"
  by (induction d) (auto simp: dict_del_def fun_eq_iff)

lemma set_dict_keys_set [simp, dict_simps]: "set (dict_keys (dict_set d k v)) = insert k (set (dict_keys d))"
  by (induction d k v rule: dict_set.induct) auto

lemma distinct_dict_set [simp, dict_simps]:
  "distinct (dict_keys d) \<Longrightarrow> distinct (dict_keys (dict_set d k v))"
proof (induction d k v rule: dict_set.induct)
  case (2 k' v' d k v)
  then show ?case
    by (cases "k' = k") (auto simp del: set_map simp: set_dict_keys_set)
qed simp

lemma dict_keys_set_known:
  "k \<in> set (dict_keys d) \<Longrightarrow> dict_keys (dict_set d k v) = dict_keys d"
  by (induction d k v rule: dict_set.induct) auto

lemma dict_keys_set_new:
  "k \<notin> set (dict_keys d) \<Longrightarrow> dict_keys (dict_set d k v) = dict_keys d @ [k]"
  by (induction d k v rule: dict_set.induct) auto

subsection \<open>The keyed-store interface and grouping\<close>

text \<open>
  A store is read by key and written by key. The laws are the two equations of a map; grouping
  the elements of a list under a key needs nothing else.
\<close>

locale keyed_store =
  fixes empty_store :: "'m"
    and get :: "'m \<Rightarrow> 'k \<Rightarrow> 'v list option"
    and put :: "'m \<Rightarrow> 'k \<Rightarrow> 'v list \<Rightarrow> 'm"
  assumes get_empty: "get empty_store k = None"
    and get_put: "get (put m k v) k' = (if k' = k then Some v else get m k')"
begin

text \<open>\<open>m.setdefault(k, []).append(v)\<close>.\<close>

definition append_at :: "'m \<Rightarrow> 'k \<Rightarrow> 'v \<Rightarrow> 'm" where
  "append_at m k v = put m k ((case get m k of None \<Rightarrow> [] | Some vs \<Rightarrow> vs) @ [v])"

lemma get_append_at:
  "get (append_at m k v) k' =
     (if k' = k then Some ((case get m k of None \<Rightarrow> [] | Some vs \<Rightarrow> vs) @ [v]) else get m k')"
  by (simp add: append_at_def get_put)

lemma get_group:
  "get (foldl (\<lambda>m x. append_at m (key x) (val x)) m xs) k =
     (if \<exists>x \<in> set xs. key x = k
      then Some ((case get m k of None \<Rightarrow> [] | Some vs \<Rightarrow> vs) @ map val (filter (\<lambda>x. key x = k) xs))
      else get m k)"
proof (induction xs arbitrary: m)
  case Nil
  then show ?case by simp
next
  case (Cons x xs)
  show ?case
    by (auto simp: Cons.IH get_append_at split: option.splits)
qed

lemma get_group_empty:
  "get (foldl (\<lambda>m x. append_at m (key x) (val x)) empty_store xs) k =
     (if \<exists>x \<in> set xs. key x = k then Some (map val (filter (\<lambda>x. key x = k) xs)) else None)"
  by (simp add: get_group get_empty)

end

text \<open>\<open>d.setdefault(k, []).append(v)\<close> on the dictionaries the code uses.\<close>

definition dict_append :: "('k, 'v list) dict \<Rightarrow> 'k \<Rightarrow> 'v \<Rightarrow> ('k, 'v list) dict" where
  "dict_append d k v = dict_set d k (dict_get_or d k [] @ [v])"

interpretation dict_store: keyed_store "[] :: ('k, 'v list) dict" dict_get dict_set
  by unfold_locales auto

lemma dict_append_at: "dict_append = dict_store.append_at"
  by (intro ext) (simp add: dict_append_def dict_store.append_at_def dict_get_or_def)

definition group_by :: "('a \<Rightarrow> 'k) \<Rightarrow> ('a \<Rightarrow> 'v) \<Rightarrow> 'a list \<Rightarrow> ('k, 'v list) dict" where
  "group_by key val xs = foldl (\<lambda>m x. dict_append m (key x) (val x)) [] xs"

lemma dict_get_group_by:
  "dict_get (group_by key val xs) k =
     (if \<exists>x \<in> set xs. key x = k then Some (map val (filter (\<lambda>x. key x = k) xs)) else None)"
  by (simp add: group_by_def dict_append_at dict_store.get_group_empty)

lemma distinct_group_by_aux:
  "distinct (dict_keys m) \<Longrightarrow> distinct (dict_keys (foldl (\<lambda>m x. dict_append m (key x) (val x)) m xs))"
  by (induction xs arbitrary: m) (simp_all add: dict_append_def)

lemma distinct_group_by: "distinct (dict_keys (group_by key val xs))"
  unfolding group_by_def by (rule distinct_group_by_aux) simp

lemma group_by_member:
  assumes "(k, vs) \<in> set (group_by key val xs)"
  shows "vs = map val (filter (\<lambda>x. key x = k) xs)" and "vs \<noteq> []"
proof -
  have "dict_get (group_by key val xs) k = Some vs"
    using assms by (simp add: distinct_group_by)
  then show "vs = map val (filter (\<lambda>x. key x = k) xs)" and "vs \<noteq> []"
    by (auto simp: dict_get_group_by filter_empty_conv split: if_splits)
qed

lemma set_keys_group_by: "set (dict_keys (group_by key val xs)) = key ` set xs"
proof -
  have "k \<in> set (dict_keys (group_by key val xs)) \<longleftrightarrow> k \<in> key ` set xs" for k
  proof -
    have "k \<in> set (dict_keys (group_by key val xs)) \<longleftrightarrow> dict_get (group_by key val xs) k \<noteq> None"
      by (metis map_of_eq_None_iff set_map)
    then show ?thesis by (auto simp: dict_get_group_by)
  qed
  then show ?thesis by blast
qed

subsection \<open>Ordered de-duplication\<close>

text \<open>\<open>list(dict.fromkeys(xs))\<close> keeps the first occurrence of each element.\<close>

fun fromkeys_acc :: "'a list \<Rightarrow> 'a list \<Rightarrow> 'a list" where
  "fromkeys_acc seen [] = seen"
| "fromkeys_acc seen (x # xs) = fromkeys_acc (if x \<in> set seen then seen else seen @ [x]) xs"

definition fromkeys :: "'a list \<Rightarrow> 'a list" where
  "fromkeys xs = fromkeys_acc [] xs"

lemma set_fromkeys_acc: "set (fromkeys_acc seen xs) = set seen \<union> set xs"
  by (induction seen xs rule: fromkeys_acc.induct) auto

lemma distinct_fromkeys_acc: "distinct seen \<Longrightarrow> distinct (fromkeys_acc seen xs)"
  by (induction seen xs rule: fromkeys_acc.induct) auto

lemma set_fromkeys [simp]: "set (fromkeys xs) = set xs"
  by (simp add: fromkeys_def set_fromkeys_acc)

lemma distinct_fromkeys [simp]: "distinct (fromkeys xs)"
  by (simp add: fromkeys_def distinct_fromkeys_acc)

lemma fromkeys_acc_distinct:
  "distinct (seen @ xs) \<Longrightarrow> fromkeys_acc seen xs = seen @ xs"
proof (induction xs arbitrary: seen)
  case (Cons x xs)
  then have "fromkeys_acc (seen @ [x]) xs = (seen @ [x]) @ xs" by (intro Cons.IH) simp
  with Cons.prems show ?case by auto
qed simp

lemma fromkeys_distinct: "distinct xs \<Longrightarrow> fromkeys xs = xs"
  by (simp add: fromkeys_def fromkeys_acc_distinct)

lemma fromkeys_Nil [simp]: "fromkeys xs = [] \<longleftrightarrow> xs = []"
  by (metis set_empty set_fromkeys)

subsection \<open>Truthiness and optional strings\<close>

text \<open>\<open>x or d\<close> for an optional string: both \<open>None\<close> and the empty string give the default.\<close>

definition or_str :: "string option \<Rightarrow> string \<Rightarrow> string" where
  "or_str x d = (case x of None \<Rightarrow> d | Some s \<Rightarrow> if s = [] then d else s)"

lemma or_str_simps [simp]:
  "or_str None d = d" "or_str (Some []) d = d" "or_str (Some (c # s)) d = c # s"
  by (simp_all add: or_str_def)

text \<open>\<open>if filter: ...\<close> for an optional string filter: absent and empty do not filter.\<close>

definition truthy_str :: "string option \<Rightarrow> bool" where
  "truthy_str x = (case x of None \<Rightarrow> False | Some s \<Rightarrow> s \<noteq> [])"

subsection \<open>String methods\<close>

definition is_py_space :: "char \<Rightarrow> bool" where
  "is_py_space c = (let n = (of_char c :: nat) in (9 \<le> n \<and> n \<le> 13) \<or> (28 \<le> n \<and> n \<le> 32))"

definition str_strip :: "string \<Rightarrow> string" where
  "str_strip s = rev (dropWhile is_py_space (rev (dropWhile is_py_space s)))"

definition char_lower :: "char \<Rightarrow> char" where
  "char_lower c = (let n = (of_char c :: nat) in if 65 \<le> n \<and> n \<le> 90 then char_of (n + 32) else c)"

definition char_upper :: "char \<Rightarrow> char" where
  "char_upper c = (let n = (of_char c :: nat) in if 97 \<le> n \<and> n \<le> 122 then char_of (n - 32) else c)"

definition str_lower :: "string \<Rightarrow> string" where
  "str_lower s = map char_lower s"

definition str_upper :: "string \<Rightarrow> string" where
  "str_upper s = map char_upper s"

text \<open>\<open>s.split(sep)\<close> with a separator of one character, and its inverse \<open>sep.join(parts)\<close>.\<close>

fun split_on :: "char \<Rightarrow> string \<Rightarrow> string list" where
  "split_on sep [] = [[]]"
| "split_on sep (c # s) =
     (if c = sep then [] # split_on sep s
      else (case split_on sep s of [] \<Rightarrow> [[c]] | p # ps \<Rightarrow> (c # p) # ps))"

fun join_with :: "string \<Rightarrow> string list \<Rightarrow> string" where
  "join_with sep [] = []"
| "join_with sep [p] = p"
| "join_with sep (p # q # ps) = p @ sep @ join_with sep (q # ps)"

text \<open>\<open>s.rstrip(chars)\<close>.\<close>

definition str_rstrip :: "(char \<Rightarrow> bool) \<Rightarrow> string \<Rightarrow> string" where
  "str_rstrip p s = rev (dropWhile p (rev s))"

definition is_ascii :: "string \<Rightarrow> bool" where
  "is_ascii s \<longleftrightarrow> list_all (\<lambda>c. (of_char c :: nat) < 128) s"

lemma split_on_nonempty [simp]: "split_on sep s \<noteq> []"
  by (induction s) (auto split: list.splits)

lemma join_split [simp]: "join_with [sep] (split_on sep s) = s"
proof (induction s)
  case (Cons c s)
  then show ?case by (cases "split_on sep s"; cases "tl (split_on sep s)") auto
qed simp

lemma str_rstrip_append: "list_all p ys \<Longrightarrow> xs = [] \<or> \<not> p (last xs) \<Longrightarrow> str_rstrip p (xs @ ys) = xs"
  by (cases xs rule: rev_cases) (auto simp: str_rstrip_def list_all_iff dropWhile_append)

lemma hd_dropWhile_not: "dropWhile p xs = [] \<or> \<not> p (hd (dropWhile p xs))"
  by (induction xs) auto

lemma str_strip_ends:
  "str_strip s = [] \<or> (\<not> is_py_space (hd (str_strip s)) \<and> \<not> is_py_space (last (str_strip s)))"
proof -
  define t where "t = dropWhile is_py_space s"
  define u where "u = dropWhile is_py_space (rev t)"
  have t: "t = [] \<or> \<not> is_py_space (hd t)" unfolding t_def by (rule hd_dropWhile_not)
  have u: "u = [] \<or> \<not> is_py_space (hd u)" unfolding u_def by (rule hd_dropWhile_not)
  have eq: "str_strip s = rev u" by (simp add: str_strip_def t_def u_def)
  have "t = rev u @ rev (takeWhile is_py_space (rev t))"
    unfolding u_def by (metis rev_append rev_rev_ident takeWhile_dropWhile_id)
  then have "u \<noteq> [] \<Longrightarrow> hd (rev u) = hd t \<and> t \<noteq> []"
    by (metis append_is_Nil_conv hd_append2 rev_is_Nil_conv)
  with t u eq show ?thesis by (cases "u = []") (auto simp: last_rev)
qed

lemma str_strip_id:
  assumes "s = [] \<or> (\<not> is_py_space (hd s) \<and> \<not> is_py_space (last s))"
  shows "str_strip s = s"
proof -
  have "dropWhile is_py_space s = s" using assms by (cases s) auto
  moreover have "dropWhile is_py_space (rev s) = rev s" using assms by (cases s rule: rev_cases) auto
  ultimately show ?thesis by (simp add: str_strip_def)
qed

lemma str_strip_idem [simp]: "str_strip (str_strip s) = str_strip s"
  by (rule str_strip_id) (rule str_strip_ends)

lemma of_char_less_256: "(of_char c :: nat) < 256"
  by (metis nat_of_char_less_256)

lemma char_lower_idem [simp]: "char_lower (char_lower c) = char_lower c"
  using of_char_less_256 [of c] by (auto simp: char_lower_def Let_def)

lemma str_lower_idem [simp]: "str_lower (str_lower s) = str_lower s"
  by (simp add: str_lower_def comp_def)

text \<open>\<open>pattern in text\<close> for strings is containment as a contiguous block.\<close>

definition str_contains :: "string \<Rightarrow> string \<Rightarrow> bool" where
  "str_contains pat s = sublist pat s"

subsection \<open>Lists\<close>

lemma find_memD: "find P xs = Some x \<Longrightarrow> x \<in> set xs \<and> P x"
  by (induction xs) (auto split: if_splits)

lemma dict_get_fold_set:
  "dict_get (foldl (\<lambda>d t. dict_set d (g t) t) d ts) k = (case find (\<lambda>t. g t = k) (rev ts) of None \<Rightarrow> dict_get d k | Some t \<Rightarrow> Some t)"
  by (induction ts rule: rev_induct) (auto split: option.splits)

lemma length_filter_mono: "(\<And>x. x \<in> set xs \<Longrightarrow> P x \<Longrightarrow> Q x) \<Longrightarrow> length (filter P xs) \<le> length (filter Q xs)"
  by (induction xs) (auto intro: le_SucI)

lemma length_filter_strict:
  assumes "\<And>x. x \<in> set xs \<Longrightarrow> P x \<Longrightarrow> Q x" and "y \<in> set xs" and "Q y" and "\<not> P y"
  shows "length (filter P xs) < length (filter Q xs)"
  using assms
proof (induction xs)
  case (Cons x xs)
  have le: "length (filter P xs) \<le> length (filter Q xs)"
    using Cons.prems(1) by (intro length_filter_mono) auto
  show ?case
  proof (cases "y = x")
    case True
    with le Cons.prems(3,4) show ?thesis by simp
  next
    case False
    with Cons have "length (filter P xs) < length (filter Q xs)" by auto
    with Cons.prems(1) [of x] show ?thesis by auto
  qed
qed simp

lemma filter_eq_single: "distinct xs \<Longrightarrow> r \<in> set xs \<Longrightarrow> filter (\<lambda>x. x = r) xs = [r]"
  by (induction xs) (auto simp: filter_empty_conv)

lemma take_drop_pages:
  "0 < n \<Longrightarrow> concat (map (\<lambda>i. take n (drop (i * n) xs)) [0..<k]) = take (k * n) xs"
proof (induction k)
  case (Suc k)
  then show ?case by (simp add: take_add [of "k * n" n] add.commute [of n] del: add_mult_distrib)
qed simp

end
