(* ===== verification/Json_Roundtrip.thy ===== *)
theory Json_Roundtrip
  imports Json_Text "HOL-Library.Multiset"
begin

text \<open>The round trip of the JSON texts of \<open>Json_Text\<close>.\<close>

subsection \<open>Numbers\<close>

lemma of_char_digit: "n < 10 \<Longrightarrow> (of_char (digit_char n) :: nat) = 48 + n"
  by (simp add: digit_char_def of_char_of)

lemma is_digit_digit_char [simp]: "n < 10 \<Longrightarrow> is_digit (digit_char n)"
  by (simp add: is_digit_def of_char_digit)

lemma digit_val_digit_char [simp]: "n < 10 \<Longrightarrow> digit_val (digit_char n) = n"
  by (simp add: digit_val_def of_char_digit)

lemma nat_str_digits: "list_all is_digit (nat_str n)"
proof (induction n rule: nat_str.induct)
  case (1 n)
  then show ?case
    by (subst nat_str.simps) auto
qed

lemma nat_str_nonempty [simp]: "nat_str n \<noteq> []"
  by (subst nat_str.simps) simp

lemma str_nat_snoc [simp]: "str_nat (s @ [c]) = 10 * str_nat s + digit_val c"
  by (simp add: str_nat_def)

lemma str_nat_nat_str [simp]: "str_nat (nat_str n) = n"
proof (induction n rule: nat_str.induct)
  case (1 n)
  show ?case
  proof (cases "n < 10")
    case True
    then show ?thesis by (subst nat_str.simps) (simp add: str_nat_def)
  next
    case False
    with 1 show ?thesis by (subst nat_str.simps) simp
  qed
qed

lemma hd_nat_str_zero: "hd (nat_str n) = CHR ''0'' \<Longrightarrow> n = 0"
proof (induction n rule: nat_str.induct)
  case (1 n)
  show ?case
  proof (cases "n < 10")
    case True
    with "1.prems" have "digit_char n = CHR ''0''" by (subst (asm) nat_str.simps) simp
    then have "(of_char (digit_char n) :: nat) = 48" by simp
    with True show ?thesis by (simp add: of_char_digit)
  next
    case False
    have hd_eq: "hd (nat_str n) = hd (nat_str (n div 10))"
      using False by (subst nat_str.simps) simp
    with 1 False have "n div 10 = 0" by metis
    with False show ?thesis by simp
  qed
qed

lemma digit_char_zero: "digit_char 0 = CHR ''0''"
proof -
  have "char_of (of_char CHR ''0'' :: nat) = CHR ''0''" by (rule char_of_char)
  then show ?thesis by (simp add: digit_char_def)
qed

lemma nat_str_zero: "nat_str 0 = ''0''"
  by (subst nat_str.simps) (simp add: digit_char_zero)

lemma int_part_ok_nat_str: "int_part_ok (nat_str n)"
proof (cases "n = 0")
  case True
  then show ?thesis by (simp add: nat_str_zero int_part_ok_def is_digit_def)
next
  case False
  then show ?thesis using hd_nat_str_zero [of n] nat_str_digits [of n] by (auto simp: int_part_ok_def)
qed

definition stops_number :: "string \<Rightarrow> bool" where
  "stops_number rest \<longleftrightarrow> (case rest of [] \<Rightarrow> True | c # _ \<Rightarrow> \<not> is_num_tail c)"

lemma digit_num_tail: "is_digit c \<Longrightarrow> is_num_tail c"
  by (simp add: is_num_tail_def)

lemma stops_take: "stops_number rest \<Longrightarrow> list_all is_num_tail xs \<Longrightarrow> takeWhile is_num_tail (xs @ rest) = xs"
  by (cases rest) (auto simp: stops_number_def list_all_iff takeWhile_append2)

lemma stops_drop: "stops_number rest \<Longrightarrow> list_all is_num_tail xs \<Longrightarrow> dropWhile is_num_tail (xs @ rest) = rest"
  by (cases rest) (auto simp: stops_number_def list_all_iff dropWhile_append2)

lemma nat_str_num_tail: "list_all is_num_tail (nat_str n)"
  using nat_str_digits [of n] by (auto simp: list_all_iff digit_num_tail)

lemma nat_str_take_digits [simp]: "takeWhile is_digit (nat_str n) = nat_str n"
  using nat_str_digits [of n] by (simp add: list_all_iff)

lemma nat_str_drop_digits [simp]: "dropWhile is_digit (nat_str n) = []"
  using nat_str_digits [of n] by (simp add: list_all_iff)

lemma nat_str_Cons: obtains c cs where "nat_str n = c # cs" and "is_digit c"
  using nat_str_digits [of n] by (cases "nat_str n") auto

lemma not_digit_minus [simp]: "\<not> is_digit CHR ''-''"
  by (simp add: is_digit_def)

lemma parse_number_int:
  assumes "stops_number rest"
  shows "parse_number (int_str i @ rest) = Some (PInt i, rest)"
proof (cases "i < 0")
  case True
  then show ?thesis
    using assms
    by (simp add: int_str_def parse_number_def stops_take stops_drop nat_str_num_tail int_part_ok_nat_str Let_def)
next
  case False
  obtain c cs where c: "nat_str (nat i) = c # cs" "is_digit c" by (rule nat_str_Cons)
  then have "c \<noteq> CHR ''-''" by auto
  with c have nm: "(case nat_str (nat i) @ rest of [] \<Rightarrow> False | c # _ \<Rightarrow> c = CHR ''-'') = False" by simp
  show ?thesis
    using False assms
    by (simp add: int_str_def parse_number_def nm stops_take stops_drop nat_str_num_tail int_part_ok_nat_str Let_def)
qed

subsection \<open>Literals\<close>

lemma strip_prefix_append [simp]: "strip_prefix p (p @ s) = Some s"
  by (induction p) auto

definition number_start :: "string \<Rightarrow> bool" where
  "number_start s \<longleftrightarrow> (case s of
     [] \<Rightarrow> False
   | c # r \<Rightarrow> is_digit c \<or> (c = CHR ''-'' \<and> (case r of [] \<Rightarrow> False | d # _ \<Rightarrow> is_digit d)))"

lemma digit_not:
  assumes "is_digit c"
  shows "c \<noteq> CHR ''n''" "c \<noteq> CHR ''t''" "c \<noteq> CHR ''f''" "c \<noteq> CHR ''N''" "c \<noteq> CHR ''I''" "c \<noteq> CHR ''-''"
    "c \<noteq> CHR ''[''" "c \<noteq> CHR '']''" "c \<noteq> CHR ''{''" "c \<noteq> CHR 0x22" "\<not> is_ws c"
  using assms by (auto simp: is_digit_def is_ws_def)

lemma number_start_literal:
  assumes "number_start s"
  shows "parse_literal s = parse_number s"
proof (cases s)
  case (Cons c r)
  show ?thesis
  proof (cases "is_digit c")
    case True
    show ?thesis
      unfolding Cons parse_literal_def using digit_not [OF True] by (simp add: eq_commute [of _ c])
  next
    case False
    with assms Cons obtain d r' where "c = CHR ''-''" "r = d # r'" "is_digit d"
      by (auto simp: number_start_def split: list.splits)
    then show ?thesis
      unfolding Cons parse_literal_def using digit_not [of d] by (simp add: eq_commute [of _ d])
  qed
qed (use assms in \<open>simp add: number_start_def\<close>)

lemma number_start_int_str: "number_start (int_str i @ rest)"
proof -
  obtain c cs where c: "nat_str (nat (- i)) = c # cs" "is_digit c" by (rule nat_str_Cons)
  obtain d ds where d: "nat_str (nat i) = d # ds" "is_digit d" by (rule nat_str_Cons)
  from c d show ?thesis by (auto simp: number_start_def int_str_def)
qed

text \<open>A text is a float literal when the number scanner takes all of it, whatever stops it.\<close>

definition float_literal :: "string \<Rightarrow> bool" where
  "float_literal t \<longleftrightarrow>
     (let neg = (case t of c # _ \<Rightarrow> c = CHR ''-'' | [] \<Rightarrow> False); body = (if neg then tl t else t)
      in list_all is_num_tail body \<and> int_part_ok (takeWhile is_digit body) \<and> float_tail (dropWhile is_digit body))"

lemma float_literal_cases:
  assumes "float_literal t"
  obtains (pos) c cs where "t = c # cs" "is_digit c" "list_all is_num_tail t"
      "int_part_ok (takeWhile is_digit t)" "float_tail (dropWhile is_digit t)"
    | (neg) b c cs where "t = CHR ''-'' # b" "b = c # cs" "is_digit c" "list_all is_num_tail b"
      "int_part_ok (takeWhile is_digit b)" "float_tail (dropWhile is_digit b)"
proof (cases t)
  case Nil
  with assms show ?thesis by (simp add: float_literal_def int_part_ok_def)
next
  case (Cons c cs)
  show ?thesis
  proof (cases "c = CHR ''-''")
    case True
    with assms Cons have b: "list_all is_num_tail cs" "int_part_ok (takeWhile is_digit cs)"
      "float_tail (dropWhile is_digit cs)" by (auto simp: float_literal_def)
    from b(2) obtain d ds where "cs = d # ds" "is_digit d"
      by (cases cs) (auto simp: int_part_ok_def split: if_splits)
    with True Cons b neg [of cs d ds] show ?thesis by simp
  next
    case False
    with assms Cons have b: "list_all is_num_tail t" "int_part_ok (takeWhile is_digit t)"
      "float_tail (dropWhile is_digit t)" by (auto simp: float_literal_def)
    from b(2) Cons have "is_digit c" by (auto simp: int_part_ok_def split: if_splits)
    with Cons b pos show ?thesis by blast
  qed
qed

lemma float_tail_nonempty: "float_tail s \<Longrightarrow> s \<noteq> []"
  by (auto simp: float_tail_def)

lemma parse_number_float:
  assumes "float_literal t" and "stops_number rest"
  shows "parse_number (t @ rest) = Some (PFloat t, rest)"
  using assms(1)
proof (cases rule: float_literal_cases)
  case (pos c cs)
  then have "c \<noteq> CHR ''-''" by auto
  with pos(1) have nm: "(case t @ rest of [] \<Rightarrow> False | c # _ \<Rightarrow> c = CHR ''-'') = False" by simp
  show ?thesis
    unfolding parse_number_def nm Let_def
    using assms(2) pos(3-) float_tail_nonempty [OF pos(5)] by (simp add: stops_take stops_drop)
next
  case (neg b c cs)
  then show ?thesis
    using assms(2) float_tail_nonempty [OF neg(6)]
    by (simp add: parse_number_def stops_take stops_drop Let_def)
qed

lemma number_start_float: "float_literal t \<Longrightarrow> number_start (t @ rest)"
  by (erule float_literal_cases) (auto simp: number_start_def)

subsection \<open>Strings\<close>

lemma hex_val_hex_char: "n < 16 \<Longrightarrow> hex_val (hex_char n) = Some n"
  by (auto simp: hex_val_def hex_char_def of_char_of Let_def)

lemma hex_val_zero [simp]: "hex_val CHR ''0'' = Some 0"
  by (simp add: hex_val_def)

lemma parse_string_escape:
  "parse_string (json_escape c @ s) = map_option (\<lambda>(t, r). (c # t, r)) (parse_string s)"
proof -
  consider "c \<in> {CHR 0x22, CHR 0x5C, CHR 0x0A, CHR 0x0D, CHR 0x09, CHR 0x0C, CHR 0x08}"
    | "c \<notin> {CHR 0x22, CHR 0x5C, CHR 0x0A, CHR 0x0D, CHR 0x09, CHR 0x0C, CHR 0x08}" "(of_char c :: nat) < 32"
    | "c \<notin> {CHR 0x22, CHR 0x5C, CHR 0x0A, CHR 0x0D, CHR 0x09, CHR 0x0C, CHR 0x08}" "\<not> (of_char c :: nat) < 32"
    by blast
  then show ?thesis
  proof cases
    case 1
    then show ?thesis by (auto simp: json_escape_def simple_escape_def)
  next
    case 2
    then have "16 * (of_char c div 16) + of_char c mod 16 = (of_char c :: nat)" by simp
    then have cback: "char_of (16 * (of_char c div 16) + of_char c mod (16 :: nat)) = c" by (metis char_of_char)
    have "(of_char c :: nat) div 16 < 16" using 2 by simp
    then show ?thesis
      using 2 cback by (simp add: json_escape_def hex_val_hex_char)
  next
    case 3
    then show ?thesis by (simp add: json_escape_def)
  qed
qed

lemma parse_string_escaped:
  "parse_string (concat (map json_escape s) @ CHR 0x22 # rest) = Some (s, rest)"
  by (induction s) (simp_all add: parse_string_escape)

subsection \<open>The round trip\<close>

text \<open>The three non-finite floats, which both library functions write and read as names.\<close>

definition special_float :: "string \<Rightarrow> bool" where
  "special_float t \<longleftrightarrow> t = ''NaN'' \<or> t = ''Infinity'' \<or> t = ''-Infinity''"

lemma parse_literal_special: "special_float t \<Longrightarrow> parse_literal (t @ rest) = Some (PFloat t, rest)"
  by (auto simp: special_float_def parse_literal_def)

fun json_ok :: "pyval \<Rightarrow> bool" where
  "json_ok (PFloat t) = (float_literal t \<or> special_float t)"
| "json_ok (PList vs) = list_all json_ok vs"
| "json_ok (PDict kvs) = (distinct (map fst kvs) \<and> list_all (\<lambda>kv. json_ok (snd kv)) kvs)"
| "json_ok v = True"

lemma number_start_hd:
  assumes "number_start s"
  obtains c r where "s = c # r" "\<not> is_ws c" "c \<noteq> CHR ''[''" "c \<noteq> CHR '']''" "c \<noteq> CHR ''{''" "c \<noteq> CHR 0x22"
proof (cases s)
  case (Cons c r)
  with assms have "is_digit c \<or> c = CHR ''-''" by (auto simp: number_start_def)
  then show ?thesis
  proof
    assume "is_digit c"
    then show ?thesis by (intro that [OF Cons]) (rule digit_not; assumption)+
  next
    assume "c = CHR ''-''"
    then show ?thesis using that [OF Cons] by (simp add: is_ws_def)
  qed
qed (use assms in \<open>simp add: number_start_def\<close>)

lemma dumps_hd:
  assumes "json_ok v"
  obtains c r where "json_dumps v = c # r" "\<not> is_ws c" "c \<noteq> CHR '']''"
proof (cases v)
  case (PInt i)
  show ?thesis by (rule number_start_hd [OF number_start_int_str [of i "[]"]]) (use that PInt in auto)
next
  case (PFloat t)
  show ?thesis
  proof (cases "special_float t")
    case True
    then show ?thesis using that PFloat by (auto simp: special_float_def is_ws_def)
  next
    case False
    with PFloat assms have "number_start (t @ [])" by (intro number_start_float) simp
    then show ?thesis by (rule number_start_hd) (use that PFloat in auto)
  qed
next
  case (PBool b)
  then show ?thesis using that by (cases b) (auto simp: is_ws_def)
qed (use that in \<open>auto simp: is_ws_def json_string_def\<close>)

lemma skip_ws_dumps: "json_ok v \<Longrightarrow> skip_ws (json_dumps v @ s) = json_dumps v @ s"
  by (rule dumps_hd) (auto simp: skip_ws_def)

lemma join_items_Cons2: "join_items (x # y # ys) = x @ '', '' @ join_items (y # ys)"
  by (simp add: join_items_def)

lemma join_items_single [simp]: "join_items [x] = x"
  by (simp add: join_items_def)

lemma skip_ws_skips [simp]:
  "skip_ws (CHR '' '' # s) = skip_ws s"
  "skip_ws (CHR '','' # s) = CHR '','' # s"
  "skip_ws (CHR '']'' # s) = CHR '']'' # s"
  "skip_ws (CHR ''}'' # s) = CHR ''}'' # s"
  "skip_ws (CHR '':'' # s) = CHR '':'' # s"
  "skip_ws (CHR 0x22 # s) = CHR 0x22 # s"
  by (simp_all add: skip_ws_def is_ws_def)

lemma stops_number_simps [simp]:
  "stops_number []" "stops_number (CHR '','' # s)" "stops_number (CHR '']'' # s)" "stops_number (CHR ''}'' # s)"
  by (simp_all add: stops_number_def is_num_tail_def is_digit_def)

definition reads_back :: "pyval \<Rightarrow> bool" where
  "reads_back v \<longleftrightarrow> (\<forall>n rest. length (json_dumps v) < n \<longrightarrow> stops_number rest \<longrightarrow>
     parse_value n (json_dumps v @ rest) = Some (v, rest))"

lemma parse_items_dumps:
  assumes "vs \<noteq> []" and "\<And>v. v \<in> set vs \<Longrightarrow> reads_back v \<and> json_ok v"
    and "Suc (length (join_items (map json_dumps vs))) < n"
  shows "parse_items n acc (join_items (map json_dumps vs) @ CHR '']'' # rest) = Some (PList (acc @ vs), rest)"
  using assms
proof (induction vs arbitrary: n acc)
  case (Cons v vs)
  then obtain m where n: "n = Suc m" by (cases n) auto
  have rb: "reads_back v" using Cons.prems(2) by simp
  show ?case
  proof (cases vs)
    case Nil
    with Cons.prems n have "parse_value m (json_dumps v @ CHR '']'' # rest) = Some (v, CHR '']'' # rest)"
      using rb by (simp add: reads_back_def)
    with Nil n show ?thesis by simp
  next
    case (Cons w ws)
    let ?t = "join_items (map json_dumps vs)"
    have split: "join_items (map json_dumps (v # vs)) = json_dumps v @ CHR '','' # CHR '' '' # ?t"
      using Cons by (simp add: join_items_Cons2)
    have pv: "parse_value m (json_dumps v @ CHR '','' # CHR '' '' # ?t @ CHR '']'' # rest)
        = Some (v, CHR '','' # CHR '' '' # ?t @ CHR '']'' # rest)"
      using rb Cons.prems(3) n split by (simp add: reads_back_def)
    have "skip_ws (?t @ CHR '']'' # rest) = ?t @ CHR '']'' # rest"
    proof -
      have "json_ok w" using Cons.prems(2) Cons by simp
      then obtain c r where "json_dumps w = c # r" "\<not> is_ws c" by (rule dumps_hd)
      then show ?thesis using Cons by (cases ws) (simp_all add: skip_ws_def join_items_def)
    qed
    moreover have "parse_items m (acc @ [v]) (?t @ CHR '']'' # rest) = Some (PList ((acc @ [v]) @ vs), rest)"
      using Cons.prems Cons n split by (intro Cons.IH) auto
    ultimately show ?thesis using pv n split by simp
  qed
qed simp

abbreviation member_text :: "string \<times> pyval \<Rightarrow> string" where
  "member_text kv \<equiv> json_string (fst kv) @ '': '' @ json_dumps (snd kv)"

lemma dict_set_fresh: "k \<notin> fst ` set d \<Longrightarrow> dict_set d k v = d @ [(k, v)]"
  by (induction d k v rule: dict_set.induct) auto

lemma parse_members_dumps:
  assumes "kvs \<noteq> []" and "\<And>kv. kv \<in> set kvs \<Longrightarrow> reads_back (snd kv) \<and> json_ok (snd kv)"
    and "distinct (map fst (acc @ kvs))"
    and "Suc (length (join_items (map member_text kvs))) < n"
  shows "parse_members n acc (join_items (map member_text kvs) @ CHR ''}'' # rest) = Some (PDict (acc @ kvs), rest)"
  using assms
proof (induction kvs arbitrary: n acc)
  case (Cons kv kvs)
  obtain k v where kv: "kv = (k, v)" by (cases kv)
  from Cons.prems obtain m where n: "n = Suc m" by (cases n) auto
  have rb: "reads_back v" and ok: "json_ok v" using Cons.prems(2) [of kv] kv by auto
  have set: "dict_set acc k v = acc @ [(k, v)]"
    using Cons.prems(3) kv by (intro dict_set_fresh) auto
  have ps: "parse_string (concat (map json_escape k) @ CHR 0x22 # s) = Some (k, s)" for s
    by (rule parse_string_escaped)
  show ?case
  proof (cases kvs)
    case Nil
    have "parse_value m (json_dumps v @ CHR ''}'' # rest) = Some (v, CHR ''}'' # rest)"
      using rb Cons.prems(4) n Nil kv by (simp add: reads_back_def json_string_def)
    with Nil n kv ok show ?thesis
      by (simp add: json_string_def ps set skip_ws_dumps)
  next
    case (Cons w ws)
    let ?t = "join_items (map member_text kvs)"
    have split: "join_items (map member_text (kv # kvs)) = member_text kv @ CHR '','' # CHR '' '' # ?t"
      using Cons by (simp add: join_items_Cons2)
    have pv: "parse_value m (json_dumps v @ CHR '','' # CHR '' '' # ?t @ CHR ''}'' # rest)
        = Some (v, CHR '','' # CHR '' '' # ?t @ CHR ''}'' # rest)"
      using rb Cons.prems(4) n split kv by (simp add: reads_back_def json_string_def)
    have sk: "skip_ws (?t @ CHR ''}'' # rest) = ?t @ CHR ''}'' # rest"
      using Cons by (cases ws) (simp_all add: skip_ws_def join_items_def json_string_def is_ws_def)
    have ih: "parse_members m (acc @ [(k, v)]) (?t @ CHR ''}'' # rest) = Some (PDict ((acc @ [(k, v)]) @ kvs), rest)"
      using Cons.prems Cons n split kv by (intro Cons.IH) (auto simp: json_string_def)
    have sd: "skip_ws (json_dumps v @ s) = json_dumps v @ s" for s
      using ok by (rule skip_ws_dumps)
    show ?thesis
      unfolding split n using pv sk ih kv
      by (simp add: json_string_def ps set sd)
  qed
qed simp

lemma json_dumps_reads_back: "json_ok v \<Longrightarrow> reads_back v"
proof (induction v)
  case PNone
  show ?case
    unfolding reads_back_def
  proof (intro allI impI)
    fix n rest
    assume "length (json_dumps PNone) < n"
    then obtain m where "n = Suc m" by (cases n) auto
    then show "parse_value n (json_dumps PNone @ rest) = Some (PNone, rest)"
      using strip_prefix_append [of "''null''" rest] by (simp add: parse_literal_def)
  qed
next
  case (PBool b)
  show ?case
    unfolding reads_back_def
  proof (intro allI impI)
    fix n rest
    assume "length (json_dumps (PBool b)) < n"
    then obtain m where "n = Suc m" by (cases n) auto
    then show "parse_value n (json_dumps (PBool b) @ rest) = Some (PBool b, rest)"
      by (cases b) (simp_all add: parse_literal_def)
  qed
next
  case (PInt i)
  show ?case
    unfolding reads_back_def
  proof (intro allI impI)
    fix n rest
    assume "length (json_dumps (PInt i)) < n" and st: "stops_number rest"
    then obtain m where n: "n = Suc m" by (cases n) auto
    have ns: "number_start (int_str i @ rest)" by (rule number_start_int_str)
    obtain c r where c: "int_str i @ rest = c # r" "c \<noteq> CHR ''[''" "c \<noteq> CHR ''{''" "c \<noteq> CHR 0x22"
      using ns by (rule number_start_hd)
    have "parse_value n (int_str i @ rest) = parse_literal (int_str i @ rest)"
      unfolding n c(1) using c(2-) by simp
    with st ns show "parse_value n (json_dumps (PInt i) @ rest) = Some (PInt i, rest)"
      by (simp add: number_start_literal parse_number_int)
  qed
next
  case (PFloat t)
  show ?case
    unfolding reads_back_def
  proof (intro allI impI)
    fix n rest
    assume "length (json_dumps (PFloat t)) < n" and st: "stops_number rest"
    then obtain m where n: "n = Suc m" by (cases n) auto
    show "parse_value n (json_dumps (PFloat t) @ rest) = Some (PFloat t, rest)"
    proof (cases "special_float t")
      case True
      then have "parse_value n (t @ rest) = parse_literal (t @ rest)"
        unfolding n by (auto simp: special_float_def)
      with True show ?thesis by (simp add: parse_literal_special)
    next
      case False
      then have fl: "float_literal t" using PFloat by simp
      then have ns: "number_start (t @ rest)" by (rule number_start_float)
      obtain c r where c: "t @ rest = c # r" "c \<noteq> CHR ''[''" "c \<noteq> CHR ''{''" "c \<noteq> CHR 0x22"
        using ns by (rule number_start_hd)
      have "parse_value n (t @ rest) = parse_literal (t @ rest)"
        unfolding n c(1) using c(2-) by simp
      with st ns fl show ?thesis by (simp add: number_start_literal parse_number_float)
    qed
  qed
next
  case (PStr s)
  show ?case
    unfolding reads_back_def
  proof (intro allI impI)
    fix n rest
    assume "length (json_dumps (PStr s)) < n"
    then obtain m where "n = Suc m" by (cases n) auto
    then show "parse_value n (json_dumps (PStr s) @ rest) = Some (PStr s, rest)"
      by (simp add: json_string_def parse_string_escaped)
  qed
next
  case (PList vs)
  have all: "\<And>v. v \<in> set vs \<Longrightarrow> reads_back v \<and> json_ok v"
    using PList by (auto simp: list_all_iff)
  show ?case
    unfolding reads_back_def
  proof (intro allI impI)
    fix n rest
    assume len: "length (json_dumps (PList vs)) < n"
    then obtain m where n: "n = Suc m" by (cases n) auto
    show "parse_value n (json_dumps (PList vs) @ rest) = Some (PList vs, rest)"
    proof (cases vs)
      case Nil
      with n show ?thesis by (simp add: join_items_def)
    next
      case (Cons w ws)
      then have "json_ok w" using all by simp
      then obtain c r where c: "json_dumps w = c # r" "\<not> is_ws c" "c \<noteq> CHR '']''" by (rule dumps_hd)
      then obtain r' where r': "join_items (map json_dumps vs) = c # r'"
        using Cons by (cases ws) (auto simp: join_items_def)
      have "parse_items m [] (join_items (map json_dumps vs) @ CHR '']'' # rest) = Some (PList ([] @ vs), rest)"
        using Cons all len n by (intro parse_items_dumps) auto
      with c n r' show ?thesis by (simp add: skip_ws_def)
    qed
  qed
next
  case (PDict kvs)
  have all: "\<And>kv. kv \<in> set kvs \<Longrightarrow> reads_back (snd kv) \<and> json_ok (snd kv)"
    using PDict by (force simp: list_all_iff)
  show ?case
    unfolding reads_back_def
  proof (intro allI impI)
    fix n rest
    assume len: "length (json_dumps (PDict kvs)) < n"
    then obtain m where n: "n = Suc m" by (cases n) auto
    show "parse_value n (json_dumps (PDict kvs) @ rest) = Some (PDict kvs, rest)"
    proof (cases kvs)
      case Nil
      with n show ?thesis by (simp add: join_items_def)
    next
      case (Cons w ws)
      then obtain r' where r': "join_items (map member_text kvs) = CHR 0x22 # r'"
        by (cases ws) (auto simp: join_items_def json_string_def)
      have "parse_members m [] (join_items (map member_text kvs) @ CHR ''}'' # rest) = Some (PDict ([] @ kvs), rest)"
        using Cons all len n PDict.prems by (intro parse_members_dumps) auto
      with n r' show ?thesis by simp
    qed
  qed
qed

lemma json_loads_dumps: "json_ok v \<Longrightarrow> json_loads (json_dumps v) = Some v"
proof -
  assume ok: "json_ok v"
  then have "reads_back v" by (rule json_dumps_reads_back)
  then have "parse_value (Suc (length (json_dumps v))) (json_dumps v @ []) = Some (v, [])"
    unfolding reads_back_def by (metis lessI stops_number_simps(1))
  moreover have "skip_ws (json_dumps v) = json_dumps v" using skip_ws_dumps [OF ok, of "[]"] by simp
  ultimately show ?thesis by (simp add: json_loads_def skip_ws_def)
qed

subsection \<open>What the decoder returns\<close>

lemma parse_number_ok: "parse_number s = Some (v, r) \<Longrightarrow> json_ok v"
proof -
  assume pn: "parse_number s = Some (v, r)"
  define neg where "neg = (case s of c # _ \<Rightarrow> c = CHR ''-'' | [] \<Rightarrow> False)"
  define lit where "lit = takeWhile is_num_tail (if neg then tl s else s)"
  have lit: "list_all is_num_tail lit" by (auto simp: lit_def list_all_iff dest: set_takeWhileD)
  have cases: "int_part_ok (takeWhile is_digit lit)"
    "(\<exists>i. v = PInt i) \<or> (v = PFloat ((if neg then ''-'' else []) @ lit) \<and> float_tail (dropWhile is_digit lit))"
    using pn unfolding parse_number_def neg_def [symmetric] Let_def lit_def [symmetric]
    by (auto split: if_splits)
  have "\<not> (case lit of c # _ \<Rightarrow> c = CHR ''-'' | [] \<Rightarrow> False)"
    using cases(1) by (auto simp: int_part_ok_def split: list.splits if_splits)
  then have "float_tail (dropWhile is_digit lit) \<Longrightarrow> float_literal ((if neg then ''-'' else []) @ lit)"
    using lit cases(1) by (auto simp: float_literal_def)
  with cases(2) show ?thesis by auto
qed

lemma parse_literal_ok: "parse_literal s = Some (v, r) \<Longrightarrow> json_ok v"
  by (auto simp: parse_literal_def special_float_def dest: parse_number_ok split: option.splits)

lemma list_all_dict_set:
  "list_all P d \<Longrightarrow> P (k, v) \<Longrightarrow> list_all P (dict_set d k v)"
  by (induction d k v rule: dict_set.induct) auto

lemma length_skip_ws: "length (skip_ws s) \<le> length s"
  by (simp add: skip_ws_def length_dropWhile_le)

lemma length_skip_ws_Cons: "skip_ws s = c # r \<Longrightarrow> length r < length s"
  using length_skip_ws [of s] by simp

lemma parse_string_len: "parse_string s = Some (t, r) \<Longrightarrow> length t + length r < length s"
proof (induction s arbitrary: t r rule: length_induct)
  case (1 s)
  then have IH: "length s' < length s \<Longrightarrow> parse_string s' = Some (t', r') \<Longrightarrow> length t' + length r' < length s'"
    for s' t' r' by blast
  show ?case
  proof (cases s)
    case (Cons c s1)
    consider "c = CHR 0x22" | "c = CHR 0x5C" | "c \<noteq> CHR 0x22" "c \<noteq> CHR 0x5C" by blast
    then show ?thesis
    proof cases
      case 1
      with "1.prems" Cons show ?thesis by auto
    next
      case 2
      with "1.prems" Cons obtain e s2 where s1: "s1 = e # s2" by (cases s1) auto
      show ?thesis
      proof (cases "e = CHR ''u''")
        case True
        with 2 "1.prems" Cons s1 obtain a b h l s3 t'
          where "s2 = a # b # h # l # s3" "parse_string s3 = Some (t', r)" "length t = Suc (length t')"
          by (auto split: list.splits option.splits nat.splits)
        with Cons s1 IH [of s3 t' r] show ?thesis by simp
      next
        case False
        with 2 "1.prems" Cons s1 show ?thesis
          using IH [of s2] by (fastforce split: option.splits)
      qed
    next
      case 3
      with "1.prems" Cons show ?thesis using IH [of s1] by (fastforce split: if_splits)
    qed
  qed (use "1.prems" in simp)
qed

lemma strip_prefix_len: "strip_prefix p s = Some r \<Longrightarrow> length r \<le> length s"
  by (induction p s rule: strip_prefix.induct) (auto split: if_splits)

lemma parse_number_len: "parse_number s = Some (v, r) \<Longrightarrow> length r \<le> length s"
  by (auto simp: parse_number_def Let_def split: if_splits list.splits
      intro: le_trans [OF length_dropWhile_le])

lemma parse_literal_len: "parse_literal s = Some (v, r) \<Longrightarrow> length r \<le> length s"
  by (auto simp: parse_literal_def dest: strip_prefix_len parse_number_len split: option.splits)

lemma parse_number_no_str: "parse_number s \<noteq> Some (PStr t, r)"
  by (auto simp: parse_number_def Let_def)

lemma parse_literal_no_str: "parse_literal s \<noteq> Some (PStr t, r)"
  by (auto simp: parse_literal_def parse_number_no_str split: option.splits)

lemma parse_items_cases:
  assumes "parse_items (Suc n) acc s = Some (v, r)"
  obtains v1 r1 where "parse_value n s = Some (v1, r1)" "v = PList (acc @ [v1])" "length r \<le> length r1"
    | v1 r1 r2 where "parse_value n s = Some (v1, r1)" "parse_items n (acc @ [v1]) (skip_ws r2) = Some (v, r)"
        "length r2 \<le> length r1"
proof (cases "parse_value n s")
  case None
  with assms show ?thesis by simp
next
  case (Some p)
  obtain v1 r1 where p: "p = (v1, r1)" by (cases p)
  show ?thesis
  proof (cases "skip_ws r1")
    case Nil
    with assms Some p show ?thesis by simp
  next
    case (Cons c r2)
    then have len: "length r2 \<le> length r1" using length_skip_ws_Cons less_imp_le by blast
    show ?thesis
      using assms Some p that Cons len by (cases "c = CHR '']''"; cases "c = CHR '',''") simp_all
  qed
qed

lemma parse_members_cases:
  assumes "parse_members (Suc n) acc s = Some (v, r)"
  obtains k v1 r1 r2 where "parse_value n r1 = Some (v1, r2)" "v = PDict (dict_set acc k v1)"
        "length r1 < length s" "length r \<le> length r2"
    | k v1 r1 r2 r3 where "parse_value n r1 = Some (v1, r2)"
        "parse_members n (dict_set acc k v1) (skip_ws r3) = Some (v, r)"
        "length r1 < length s" "length r3 \<le> length r2"
proof (cases s)
  case Nil
  with assms show ?thesis by simp
next
  case (Cons q s')
  with assms have q: "q = CHR 0x22" by (cases "q = CHR 0x22") simp_all
  show ?thesis
  proof (cases "parse_string s'")
    case None
    with assms Cons q show ?thesis by simp
  next
    case (Some p)
    obtain k r0 where p: "p = (k, r0)" by (cases p)
    show ?thesis
    proof (cases "skip_ws r0")
      case Nil
      with assms Cons q Some p show ?thesis by simp
    next
      case (Cons c r')
      note c = Cons
      with assms \<open>s = q # s'\<close> q Some p have c': "c = CHR '':''" by (cases "c = CHR '':''") simp_all
      show ?thesis
      proof (cases "parse_value n (skip_ws r')")
        case None
        with assms \<open>s = q # s'\<close> q Some p c c' show ?thesis by simp
      next
        case (Some p2)
        obtain v1 r2 where p2: "p2 = (v1, r2)" by (cases p2)
        note pv = Some
        show ?thesis
        proof (cases "skip_ws r2")
          case Nil
          with assms \<open>s = q # s'\<close> q \<open>parse_string s' = Some p\<close> p c c' pv p2 show ?thesis by simp
        next
          case (Cons c2 r3)
          have l1: "length (skip_ws r') < length s"
            using length_skip_ws [of r'] length_skip_ws_Cons [OF c] parse_string_len [of s' k r0]
              \<open>s = q # s'\<close> \<open>parse_string s' = Some p\<close> p by simp
          have l3: "length r3 \<le> length r2" using length_skip_ws_Cons [OF Cons] by simp
          note unfolded = assms \<open>s = q # s'\<close> q \<open>parse_string s' = Some p\<close> p c c' pv p2 Cons
          show ?thesis
          proof (cases "c2 = CHR ''}''")
            case True
            with unfolded have "v = PDict (dict_set acc k v1)" "r = r3" by simp_all
            with pv p2 that(1) l1 l3 show ?thesis by blast
          next
            case False
            with unfolded have "parse_members n (dict_set acc k v1) (skip_ws r3) = Some (v, r)"
              by (cases "c2 = CHR '',''") simp_all
            with pv p2 that(2) l1 l3 show ?thesis by blast
          qed
        qed
      qed
    qed
  qed
qed

lemma parse_value_cases:
  assumes "parse_value (Suc n) s = Some (v, r)"
  obtains t where "v = PStr t" "length t + length r < length s"
    | "v = PList []" "length r < length s" | "v = PDict []" "length r < length s" | "parse_literal s = Some (v, r)"
    | c r1 where "parse_items n [] r1 = Some (v, r)" "s = c # tl s" "r1 = skip_ws (tl s)"
    | c r1 where "parse_members n [] r1 = Some (v, r)" "s = c # tl s" "r1 = skip_ws (tl s)"
proof (cases s)
  case Nil
  with assms show ?thesis by simp
next
  case (Cons c r0)
  consider "c = CHR 0x22" | "c = CHR ''[''" | "c = CHR ''{''" | "c \<noteq> CHR 0x22" "c \<noteq> CHR ''[''" "c \<noteq> CHR ''{''"
    by blast
  then show ?thesis
  proof cases
    case 1
    with assms Cons obtain t where "v = PStr t" "parse_string r0 = Some (t, r)" by auto
    with that(1) Cons parse_string_len show ?thesis by fastforce
  next
    case 2
    show ?thesis
    proof (cases "skip_ws r0")
      case Nil
      with 2 assms Cons show ?thesis by simp
    next
      case (Cons d r')
      with 2 assms \<open>s = c # r0\<close> that(2,5) show ?thesis
        using length_skip_ws_Cons [OF Cons] by (cases "d = CHR '']''") simp_all
    qed
  next
    case 3
    show ?thesis
    proof (cases "skip_ws r0")
      case Nil
      with 3 assms Cons show ?thesis by simp
    next
      case (Cons d r')
      with 3 assms \<open>s = c # r0\<close> that(3,6) show ?thesis
        using length_skip_ws_Cons [OF Cons] by (cases "d = CHR ''}''") simp_all
    qed
  next
    case 4
    with assms Cons that(4) show ?thesis by simp
  qed
qed

lemma parse_ok:
  "parse_value n s = Some (v, r) \<Longrightarrow> json_ok v"
  "list_all json_ok acc \<Longrightarrow> parse_items n acc s = Some (v, r) \<Longrightarrow> json_ok v"
  "distinct (map fst macc) \<Longrightarrow> list_all (\<lambda>kv. json_ok (snd kv)) macc \<Longrightarrow>
     parse_members n macc s = Some (v, r) \<Longrightarrow> json_ok v"
proof (induction n arbitrary: s v r acc macc)
  case (Suc n)
  {
    case 1
    then show ?case
      by (cases rule: parse_value_cases)
        (auto dest: parse_literal_ok Suc.IH(2) [where acc = "[]", simplified] Suc.IH(3) [where macc = "[]", simplified])
  next
    case 2
    from 2(2) show ?case
    proof (cases rule: parse_items_cases)
      case (1 v1 r1)
      then show ?thesis using 2(1) Suc.IH(1) by simp
    next
      case (2 v1 r1 r2)
      have "list_all json_ok (acc @ [v1])" using \<open>list_all json_ok acc\<close> Suc.IH(1) [OF 2(1)] by simp
      from Suc.IH(2) [OF this 2(2)] show ?thesis .
    qed
  next
    case 3
    from 3(3) show ?case
    proof (cases rule: parse_members_cases)
      case (1 k v1 r1 r2)
      then show ?thesis using 3(1,2) Suc.IH(1) by (simp add: list_all_dict_set)
    next
      case (2 k v1 r1 r2 r3)
      have "distinct (map fst (dict_set macc k v1))" "list_all (\<lambda>kv. json_ok (snd kv)) (dict_set macc k v1)"
        using 3(1,2) Suc.IH(1) [OF 2(1)] by (simp_all add: list_all_dict_set)
      from Suc.IH(3) [OF this 2(2)] show ?thesis .
    qed
  }
qed simp_all

text \<open>A string found in a decoded value is no longer than the text it was read from.\<close>

fun str_len :: "pyval \<Rightarrow> nat" where
  "str_len (PStr s) = length s"
| "str_len _ = 0"

definition member_len :: "pyval \<Rightarrow> nat \<Rightarrow> bool" where
  "member_len v n \<longleftrightarrow> (case v of PDict d \<Rightarrow> \<forall>kv \<in> set d. str_len (snd kv) \<le> n | _ \<Rightarrow> True)"

lemma str_len_literal: "parse_literal s = Some (v, r) \<Longrightarrow> str_len v = 0"
  by (cases v) (auto simp: parse_literal_no_str)

lemma dict_set_mem: "kv \<in> set (dict_set d k v) \<Longrightarrow> kv \<in> set d \<or> kv = (k, v)"
  by (induction d k v rule: dict_set.induct) (auto split: if_splits)

lemma parse_len:
  "parse_value n s = Some (v, r) \<Longrightarrow> str_len v + length r \<le> length s"
  "parse_items n acc s = Some (v, r) \<Longrightarrow> str_len v + length r \<le> length s"
  "parse_members n macc s = Some (v, r) \<Longrightarrow> str_len v + length r \<le> length s"
proof (induction n arbitrary: s v r acc macc)
  case (Suc n)
  {
    case 1
    then show ?case
    proof (cases rule: parse_value_cases)
      case (5 c r1)
      then show ?thesis
        using Suc.IH(2) [OF 5(1)] length_skip_ws [of "tl s"] by (metis diff_le_self le_trans length_tl)
    next
      case (6 c r1)
      then show ?thesis
        using Suc.IH(3) [OF 6(1)] length_skip_ws [of "tl s"] by (metis diff_le_self le_trans length_tl)
    next
      case 4
      then show ?thesis using str_len_literal [OF 4] parse_literal_len [OF 4] by simp
    qed simp_all
  next
    case 2
    then show ?case
    proof (cases rule: parse_items_cases)
      case (1 v1 r1)
      then show ?thesis using Suc.IH(1) [OF 1(1)] by simp
    next
      case (2 v1 r1 r2)
      then show ?thesis
        using Suc.IH(1) [OF 2(1)] Suc.IH(2) [OF 2(2)] length_skip_ws [of r2] by linarith
    qed
  next
    case 3
    then show ?case
    proof (cases rule: parse_members_cases)
      case (1 k v1 r1 r2)
      then show ?thesis using Suc.IH(1) [OF 1(1)] by simp
    next
      case (2 k v1 r1 r2 r3)
      then show ?thesis
        using Suc.IH(1) [OF 2(1)] Suc.IH(3) [OF 2(2)] length_skip_ws [of r3] by linarith
    qed
  }
qed simp_all

lemma parse_items_list: "parse_items n acc s = Some (v, r) \<Longrightarrow> \<exists>vs. v = PList vs"
proof (induction n arbitrary: acc s)
  case (Suc n)
  from Suc.prems show ?case by (cases rule: parse_items_cases) (auto dest: Suc.IH)
qed simp

lemma parse_members_len:
  "parse_members n acc s = Some (v, r) \<Longrightarrow> \<forall>kv \<in> set acc. str_len (snd kv) \<le> m \<Longrightarrow> length s \<le> m \<Longrightarrow>
   member_len v m"
proof (induction n arbitrary: acc s)
  case (Suc n)
  have set: "\<forall>kv \<in> set (dict_set acc k v1). str_len (snd kv) \<le> m" if "str_len v1 \<le> m" for k v1
    using that Suc.prems(2) dict_set_mem by fastforce
  from Suc.prems(1) show ?case
  proof (cases rule: parse_members_cases)
    case (1 k v1 r1 r2)
    then show ?thesis using set [of v1 k] parse_len(1) [OF 1(1)] Suc.prems(3) by (simp add: member_len_def)
  next
    case (2 k v1 r1 r2 r3)
    have "length (skip_ws r3) \<le> m" and "str_len v1 \<le> m"
      using 2(3,4) parse_len(1) [OF 2(1)] Suc.prems(3) length_skip_ws [of r3] by simp_all
    with Suc.IH [OF 2(2) set] show ?thesis by blast
  qed
qed simp

lemma parse_value_member_len: "parse_value n s = Some (v, r) \<Longrightarrow> member_len v (length s)"
proof (cases n)
  case (Suc m)
  assume "parse_value n s = Some (v, r)"
  then have "parse_value (Suc m) s = Some (v, r)" using Suc by simp
  then show ?thesis
  proof (cases rule: parse_value_cases)
    case (5 c r1)
    then show ?thesis by (auto dest: parse_items_list simp: member_len_def)
  next
    case (6 c r1)
    then have "length r1 \<le> length s" using length_skip_ws [of "tl s"] by (metis diff_le_self le_trans length_tl)
    then show ?thesis using 6(1) by (intro parse_members_len) auto
  next
    case 4
    then show ?thesis
      by (auto simp: parse_literal_def parse_number_def member_len_def Let_def split: option.splits if_splits)
  qed (auto simp: member_len_def)
qed simp

lemma json_loads_member_len:
  "json_loads s = Some (PDict d) \<Longrightarrow> (k, PStr t) \<in> set d \<Longrightarrow> length t \<le> length s"
  using parse_value_member_len [of "Suc (length s)" "skip_ws s"] length_skip_ws [of s]
  by (fastforce simp del: parse_value.simps simp: json_loads_def member_len_def split: option.splits if_splits)

lemma json_loads_ok: "json_loads s = Some v \<Longrightarrow> json_ok v"
  by (auto simp del: parse_value.simps simp: json_loads_def dest: parse_ok(1) split: option.splits if_splits)

lemma json_ok_sort_keys: "json_ok v \<Longrightarrow> json_ok (sort_keys v)"
proof (induction v)
  case (PDict kvs)
  let ?f = "\<lambda>kv. (fst kv, sort_keys (snd kv))"
  have keys: "mset (map fst (sort_key fst (map ?f kvs))) = mset (map fst kvs)"
    by (simp add: image_mset.compositionality comp_def)
  then have "distinct (map fst (sort_key fst (map ?f kvs)))"
    using PDict.prems by (metis json_ok.simps(3) mset_eq_imp_distinct_iff)
  moreover have "\<forall>kv \<in> set (map ?f kvs). json_ok (snd kv)"
    using PDict by (fastforce simp: list_all_iff)
  ultimately show ?case by (simp add: list_all_iff)
qed (auto simp: list_all_iff)

end
