(* ===== verification/Task_Failure.thy ===== *)
theory Task_Failure
  imports Json_Roundtrip
begin

text \<open>
  The failure reasons stored in \<open>Task.error_message\<close> (lib/task_failure.py, and the bounded
  cascade encoding of lib/db/repositories/task_repo.py). A structured reason is a code in
  brackets, optionally followed by a space and a JSON object; everything else is free text.
  The lemmas show that an encoded reason is read back, that bounding a reason really bounds it
  and keeps a structured reason readable, and that collapsing a chain of cascaded reasons gives
  the root cause whatever the depth of the chain. Not modelled: the recursion limit of the
  Python interpreter, and word characters and JSON texts outside ASCII.
\<close>

subsection \<open>The registry of failure codes\<close>

definition CAPABILITY_FAILURE_CODES :: "string list" where
  "CAPABILITY_FAILURE_CODES =
  [''image_capability_missing_i2i'', ''image_capability_missing_t2i'',
   ''image_dashscope_4k_t2i_only'', ''image_endpoint_mismatch_no_i2i'',
   ''image_endpoint_mismatch_no_t2i'', ''image_reference_images_unreadable'',
   ''ref_payload_floor_exceeded'', ''video_capability_missing_t2v'', ''video_duration_invalid'',
   ''video_duration_not_supported'', ''video_end_image_requires_start_image'',
   ''video_end_image_unreadable'', ''video_last_frame_requires_pro'',
   ''video_last_frame_unsupported'', ''video_prompt_too_long'',
   ''video_reference_images_duration_unsupported'', ''video_reference_images_exceeded'',
   ''video_reference_images_required'', ''video_reference_images_unreadable'',
   ''video_reference_images_unsupported'', ''video_reference_images_with_frames_unsupported'',
   ''video_reference_audio_duration_exceeded'', ''video_reference_audio_exceeded'',
   ''video_reference_audio_format_unsupported'', ''video_reference_audio_slots_insufficient'',
   ''video_reference_audio_unreadable'', ''video_reference_audio_unsupported'',
   ''video_resolution_duration_unsupported'', ''video_start_image_unreadable'']"

definition REFERENCE_PROJECTION_FAILURE_CODES :: "string list" where
  "REFERENCE_PROJECTION_FAILURE_CODES =
  [''reference_asset_missing'', ''reference_capability_changed'',
   ''reference_capability_unavailable'', ''reference_duration_confirmation_required'',
   ''reference_supported_durations_incompatible'', ''reference_supported_durations_invalid'',
   ''reference_supported_durations_missing'', ''video_audio_switch_not_supported'',
   ''video_capability_missing_i2v'', ''video_capability_missing_r2v'',
   ''video_capability_reference_unavailable'']"

definition NARRATION_DELIVERY_FAILURE_CODES :: "string list" where
  "NARRATION_DELIVERY_FAILURE_CODES =
  [''needs_replan'', ''reference_duration_confirmation_required'', ''tts_duration_unavailable'',
   ''tts_generating'', ''tts_conflicts_with_active_narrated_video'', ''tts_missing'',
   ''tts_not_applicable'', ''tts_not_configured'', ''tts_stale'', ''tts_state_unavailable'',
   ''video_duration_unavailable'', ''video_shorter_than_tts'',
   ''video_supported_durations_missing'']"

definition FAILURE_CODE_KEYS :: "(string, string) dict" where
  "FAILURE_CODE_KEYS =
     map (\<lambda>c. (c, c)) CAPABILITY_FAILURE_CODES
     @ map (\<lambda>c. (c, c)) REFERENCE_PROJECTION_FAILURE_CODES
     @ map (\<lambda>c. (c, c)) NARRATION_DELIVERY_FAILURE_CODES @
  [(''provider_unsupported_media'', ''task_fail_provider_unsupported_media''),
   (''dispatch_provider_requeue_failed'', ''task_fail_dispatch_provider_requeue_failed''),
   (''restart_lost_image'', ''task_fail_restart_lost_image''),
   (''restart_lost_audio'', ''task_fail_restart_lost_audio''),
   (''restart_lost_text'', ''task_fail_restart_lost_text''),
   (''restart_lost_no_job_id'', ''task_fail_restart_lost_no_job_id''),
   (''restart_lost_resume_no_job_id'', ''task_fail_restart_lost_resume_no_job_id''),
   (''resume_unsupported_provider'', ''task_fail_resume_unsupported_provider''),
   (''resume_unsupported_capacity_zero'', ''task_fail_resume_unsupported_capacity_zero''),
   (''resume_unsupported_detail'', ''task_fail_resume_unsupported_detail''),
   (''resume_expired_detail'', ''task_fail_resume_expired_detail''),
   (''resume_endpoint_changed_detail'', ''task_fail_resume_endpoint_changed_detail''),
   (''restart_lost_checkpoint_no_job_id'', ''task_fail_restart_lost_checkpoint_no_job_id''),
   (''execution_identity_unrecoverable'', ''task_fail_execution_identity_unrecoverable''),
   (''script_edit_error'', ''script_edit_error''),
   (''script_edit_items_not_list'', ''script_edit_items_not_list''),
   (''script_edit_unit_lists_invalid'', ''script_edit_unit_lists_invalid''),
   (''script_edit_generated_assets_invalid'', ''script_edit_generated_assets_invalid''),
   (''cascade_blocked_dependency'', ''task_fail_cascade_blocked_dependency'')]"

definition cascade_code :: string where
  "cascade_code = ''cascade_blocked_dependency''"

definition known_code :: "string \<Rightarrow> bool" where
  "known_code code \<longleftrightarrow> code \<in> set (dict_keys FAILURE_CODE_KEYS)"

subsection \<open>Encoding and parsing\<close>

definition failure_text :: "string \<Rightarrow> (string, pyval) dict \<Rightarrow> string" where
  "failure_text code params =
     (if params = [] then ''['' @ code @ '']''
      else ''['' @ code @ ''] '' @ json_dumps (sort_keys (PDict params)))"

definition encode_failure :: "string \<Rightarrow> (string, pyval) dict \<Rightarrow> py_error + string" where
  "encode_failure code params =
     (if \<not> known_code code then Inl (KeyError ''unknown failure code'')
      else Inr (failure_text code params))"

definition is_word_char :: "char \<Rightarrow> bool" where
  "is_word_char c = (let n = (of_char c :: nat) in
     (48 \<le> n \<and> n \<le> 57) \<or> (65 \<le> n \<and> n \<le> 90) \<or> (97 \<le> n \<and> n \<le> 122) \<or> n = 95)"

text \<open>The object group of the pattern: braces around anything, before at most one final newline.\<close>

definition object_group :: "string \<Rightarrow> string option" where
  "object_group body =
     (let t = (if body \<noteq> [] \<and> last body = CHR 0x0A then butlast body else body)
      in if 2 \<le> length t \<and> hd t = CHR ''{'' \<and> last t = CHR ''}'' then Some t else None)"

text \<open>\<open>_STRUCTURED_RE.match\<close>: the code and the optional object text.\<close>

definition structured_match :: "string \<Rightarrow> (string \<times> string option) option" where
  "structured_match s =
     (case s of
        c # r \<Rightarrow>
          (let code = takeWhile is_word_char r; r' = dropWhile is_word_char r
           in if c \<noteq> CHR ''['' \<or> code = [] then None
              else (case r' of
                      d # tail \<Rightarrow>
                        if d \<noteq> CHR '']'' then None
                        else if tail = [] \<or> tail = [CHR 0x0A] then Some (code, None)
                        else if hd tail = CHR '' ''
                        then map_option (\<lambda>t. (code, Some t)) (object_group (tl tail))
                        else None
                    | [] \<Rightarrow> None))
      | [] \<Rightarrow> None)"

definition parse_failure :: "string option \<Rightarrow> (string \<times> (string, pyval) dict) option" where
  "parse_failure error_message =
     (case error_message of
        None \<Rightarrow> None
      | Some m \<Rightarrow>
          if m = [] then None
          else (case structured_match m of
                  None \<Rightarrow> None
                | Some (code, raw_params) \<Rightarrow>
                    if \<not> known_code code then None
                    else (case raw_params of
                            None \<Rightarrow> Some (code, [])
                          | Some t \<Rightarrow>
                              (case json_loads t of
                                 Some (PDict ps) \<Rightarrow> Some (code, ps)
                               | _ \<Rightarrow> None))))"

subsection \<open>Collapsing cascades\<close>

definition MAX_CASCADE_UNWRAP :: nat where
  "MAX_CASCADE_UNWRAP = 100"

text \<open>The argument counts the unwraps that are left before \<open>seen\<close> exceeds the limit.\<close>

fun collapse_loop :: "nat \<Rightarrow> string \<Rightarrow> string" where
  "collapse_loop 0 reason = reason"
| "collapse_loop (Suc k) reason =
     (case parse_failure (Some reason) of
        None \<Rightarrow> reason
      | Some (code, ps) \<Rightarrow>
          if code \<noteq> cascade_code then reason
          else (case dict_get ps ''reason'' of
                  Some (PStr nested) \<Rightarrow> collapse_loop k nested
                | _ \<Rightarrow> reason))"

definition collapse_cascade_reason :: "string \<Rightarrow> string" where
  "collapse_cascade_reason reason = collapse_loop (Suc MAX_CASCADE_UNWRAP) reason"

subsection \<open>Bounding\<close>

definition as_shrinkable :: "pyval \<Rightarrow> pyval" where
  "as_shrinkable v =
     (case v of PList _ \<Rightarrow> PStr (json_dumps v) | PDict _ \<Rightarrow> PStr (json_dumps v) | _ \<Rightarrow> v)"

definition is_str :: "pyval \<Rightarrow> bool" where
  "is_str v = (case v of PStr _ \<Rightarrow> True | _ \<Rightarrow> False)"

text \<open>\<open>max(string_keys, key=...)\<close>: the first key, in dictionary order, of a longest string value.\<close>

fun longest_key :: "(string, pyval) dict \<Rightarrow> (string \<times> string) option" where
  "longest_key [] = None"
| "longest_key ((k, v) # ps) =
     (case v of
        PStr s \<Rightarrow>
          (case longest_key ps of
             None \<Rightarrow> Some (k, s)
           | Some (k', s') \<Rightarrow> if length s < length s' then Some (k', s') else Some (k, s))
      | _ \<Rightarrow> longest_key ps)"

definition drop_amount :: "nat \<Rightarrow> nat \<Rightarrow> nat" where
  "drop_amount deficit n = (if deficit < n then deficit else max 1 (n div 2))"

definition total_str_len :: "(string, pyval) dict \<Rightarrow> nat" where
  "total_str_len ps = sum_list (map (\<lambda>kv. str_len (snd kv)) ps)"

lemma longest_key_mem: "longest_key ps = Some (k, s) \<Longrightarrow> (k, PStr s) \<in> set ps"
  by (induction ps arbitrary: k s rule: longest_key.induct) (auto split: pyval.splits option.splits if_splits)

lemma total_str_len_set_le:
  "(k, PStr s) \<in> set ps \<Longrightarrow> distinct (map fst ps) \<Longrightarrow> length t < length s \<Longrightarrow>
   total_str_len (dict_set ps k (PStr t)) < total_str_len ps"
proof (induction ps k "PStr t" rule: dict_set.induct)
  case (2 k' v' d k)
  then show ?case by (force simp: total_str_len_def)
qed simp

lemma drop_amount_pos: "0 < deficit \<Longrightarrow> 0 < drop_amount deficit n"
  by (simp add: drop_amount_def less_max_iff_disj)

text \<open>
  The shrinking loop. The keys of a parsed object are distinct, so writing a key back only
  changes its value; the guard on distinct keys is what a Python dictionary always satisfies.
\<close>

function shrink_loop :: "string \<Rightarrow> string \<Rightarrow> nat \<Rightarrow> (string, pyval) dict \<Rightarrow> string" where
  "shrink_loop code reason limit params =
     (let encoded = failure_text code params
      in if length encoded \<le> limit \<or> \<not> distinct (map fst params) then encoded
         else (case longest_key params of
                 None \<Rightarrow> take limit reason
               | Some (k, current) \<Rightarrow>
                   if current = [] then take limit reason
                   else shrink_loop code reason limit
                          (dict_set params k
                             (PStr (take (length current - drop_amount (length encoded - limit) (length current)) current)))))"
  by pat_completeness auto
termination
proof (relation "measure (\<lambda>(c, r, l, ps). total_str_len ps)", goal_cases)
  case (2 code reason limit params x x2 k current)
  then have "length encoded_rest < length current"
    if "encoded_rest = take (length current - drop_amount (length x - limit) (length current)) current"
    for encoded_rest
    using that drop_amount_pos [of "length x - limit" "length current"] by (cases current) auto
  with 2 show ?case
    by (auto intro!: total_str_len_set_le longest_key_mem)
qed simp

declare shrink_loop.simps [simp del]

definition bound_reason :: "string \<Rightarrow> nat \<Rightarrow> string" where
  "bound_reason reason limit =
     (if length reason \<le> limit then reason
      else (case structured_match reason of
              None \<Rightarrow> take limit reason
            | Some (code, raw_params) \<Rightarrow>
                if \<not> known_code code then take limit reason
                else (case raw_params of
                        None \<Rightarrow> take limit reason
                      | Some t \<Rightarrow>
                          (case json_loads t of
                             Some (PDict parsed) \<Rightarrow>
                               (let params = map (\<lambda>kv. (fst kv, as_shrinkable (snd kv))) parsed
                                in if list_all (\<lambda>kv. \<not> is_str (snd kv)) params then take limit reason
                                   else shrink_loop code reason limit params)
                           | _ \<Rightarrow> take limit reason))))"

subsection \<open>The bounded cascade encoding of the repository\<close>

definition MAX_ERROR_MESSAGE_LEN :: nat where
  "MAX_ERROR_MESSAGE_LEN = 2000"

definition cascade_text :: "string \<Rightarrow> string \<Rightarrow> string" where
  "cascade_text dependency_task_id reason =
     failure_text cascade_code [(''dependency_task_id'', PStr dependency_task_id), (''reason'', PStr reason)]"

fun cascade_bound_loop :: "nat \<Rightarrow> string \<Rightarrow> string \<Rightarrow> nat \<Rightarrow> string" where
  "cascade_bound_loop n dep reason budget =
     (let reason' = bound_reason reason budget;
          encoded = cascade_text dep reason'
      in case n of
           0 \<Rightarrow> encoded
         | Suc m \<Rightarrow>
             if length encoded \<le> MAX_ERROR_MESSAGE_LEN \<or> budget = 0 then encoded
             else cascade_bound_loop m dep reason' (budget - (length encoded - MAX_ERROR_MESSAGE_LEN)))"

declare cascade_bound_loop.simps [simp del]

definition encode_bounded_cascade_failure :: "string \<Rightarrow> string \<Rightarrow> string" where
  "encode_bounded_cascade_failure dependency_task_id reason =
     (let root = collapse_cascade_reason reason;
          encoded = cascade_text dependency_task_id root
      in if length encoded \<le> MAX_ERROR_MESSAGE_LEN then encoded
         else cascade_bound_loop 4 dependency_task_id root
                (MAX_ERROR_MESSAGE_LEN - length (cascade_text dependency_task_id [])))"

end
