(* ===== verification/Task_Failure_Props.thy ===== *)
theory Task_Failure_Props
  imports Task_Failure
begin

text \<open>
  Rendering of a stored reason, whose recursion into the upstream reason of a cascade ends
  because a decoded string is shorter than the text it stands in, and the properties of
  \<open>Task_Failure\<close>.
\<close>

subsection \<open>The pattern on encoded reasons\<close>

lemma all_codes_words: "list_all (\<lambda>c. c \<noteq> [] \<and> list_all is_word_char c) (dict_keys FAILURE_CODE_KEYS)"
  by code_simp

lemma known_code_word: "known_code code \<Longrightarrow> code \<noteq> [] \<and> list_all is_word_char code"
  using all_codes_words unfolding known_code_def list_all_iff by blast

lemma known_cascade [simp]: "known_code cascade_code"
  by code_simp

lemma not_word_bracket [simp]: "\<not> is_word_char CHR '']''"
  by (simp add: is_word_char_def)

lemma take_code:
  "list_all is_word_char code \<Longrightarrow> takeWhile is_word_char (code @ CHR '']'' # s) = code"
  "list_all is_word_char code \<Longrightarrow> dropWhile is_word_char (code @ CHR '']'' # s) = CHR '']'' # s"
  by (simp_all add: list_all_iff takeWhile_append2 dropWhile_append2)

lemma dict_text_group: "object_group (json_dumps (PDict ps)) = Some (json_dumps (PDict ps))"
  by (simp add: object_group_def)

lemma sort_keys_dict: "sort_keys (PDict ps) = PDict (sort_key fst (map (\<lambda>kv. (fst kv, sort_keys (snd kv))) ps))"
  by simp

lemma structured_match_text:
  assumes "known_code code"
  shows "structured_match (failure_text code ps)
    = Some (code, if ps = [] then None else Some (json_dumps (sort_keys (PDict ps))))"
proof -
  have w: "list_all is_word_char code" "code \<noteq> []" using known_code_word [OF assms] by auto
  show ?thesis
  proof (cases "ps = []")
    case True
    with w show ?thesis by (simp add: structured_match_def failure_text_def take_code)
  next
    case False
    let ?d = "json_dumps (sort_keys (PDict ps))"
    have "object_group ?d = Some ?d" unfolding sort_keys_dict by (rule dict_text_group)
    with False w show ?thesis
      by (simp add: structured_match_def failure_text_def take_code del: sort_keys.simps json_dumps.simps)
  qed
qed

definition sorted_params :: "(string, pyval) dict \<Rightarrow> (string, pyval) dict" where
  "sorted_params ps = (case sort_keys (PDict ps) of PDict qs \<Rightarrow> qs | _ \<Rightarrow> [])"

lemma sort_keys_PDict: "sort_keys (PDict ps) = PDict (sorted_params ps)"
  by (simp add: sorted_params_def)

lemma sorted_params_Nil [simp]: "sorted_params [] = []"
  by (simp add: sorted_params_def)

lemma failure_text_nonempty [simp]: "failure_text code ps \<noteq> []"
  by (simp add: failure_text_def)

lemma parse_failure_text:
  assumes "known_code code" and "json_ok (PDict ps)"
  shows "parse_failure (Some (failure_text code ps)) = Some (code, sorted_params ps)"
proof -
  have "json_loads (json_dumps (sort_keys (PDict ps))) = Some (PDict (sorted_params ps))"
    using json_loads_dumps [OF json_ok_sort_keys [OF assms(2)]] by (simp only: sort_keys_PDict)
  then show ?thesis
    using assms(1) by (simp add: parse_failure_def structured_match_text del: sort_keys.simps json_dumps.simps)
qed

lemma dict_get_sorted:
  assumes "distinct (map fst ps)"
  shows "dict_get (sorted_params ps) k = map_option sort_keys (dict_get ps k)"
proof -
  let ?m = "map (\<lambda>kv. (fst kv, sort_keys (snd kv))) ps"
  have d: "distinct (map fst ?m)" using assms by (simp add: comp_def)
  have "mset (map fst (sort_key fst ?m)) = mset (map fst ?m)" by (simp only: mset_map mset_sort)
  from mset_eq_imp_distinct_iff [OF this] d have d': "distinct (map fst (sort_key fst ?m))" by (simp only:)
  have "map_of (sort_key fst ?m) = map_of ?m"
    by (rule map_of_inject_set [OF d' d, THEN iffD2]) (rule set_sort)
  then have "dict_get (sort_key fst ?m) k = dict_get ?m k" by (rule fun_cong)
  also have "\<dots> = map_option sort_keys (dict_get ps k)"
    by (induction ps) auto
  finally show ?thesis by (simp add: sorted_params_def)
qed

text \<open>
  C13: encoding a known failure code with its parameters and parsing the stored text gives the
  code and the parameters back (sorted by key, which a dictionary does not distinguish); an
  unknown code is refused.
\<close>

theorem encode_failure_roundtrip:
  assumes "json_ok (PDict ps)"
  shows "(case encode_failure code ps of
            Inl e \<Rightarrow> \<not> known_code code \<and> e = KeyError ''unknown failure code''
          | Inr text \<Rightarrow> (\<exists>qs. parse_failure (Some text) = Some (code, qs)
              \<and> (\<forall>k. dict_get qs k = map_option sort_keys (dict_get ps k))))"
proof (cases "known_code code")
  case True
  have "distinct (map fst ps)" using assms by simp
  with True assms show ?thesis by (simp add: encode_failure_def parse_failure_text dict_get_sorted)
qed (simp add: encode_failure_def)

theorem encode_failure_roundtrip_witness:
  "(case encode_failure ''tts_missing'' [(''unit'', PStr ''u 1'')] of
      Inl e \<Rightarrow> \<not> known_code ''tts_missing'' \<and> e = KeyError ''unknown failure code''
    | Inr text \<Rightarrow> (\<exists>qs. parse_failure (Some text) = Some (''tts_missing'', qs)
        \<and> (\<forall>k. dict_get qs k = map_option sort_keys (dict_get [(''unit'', PStr ''u 1'')] k))))"
  by (rule encode_failure_roundtrip) simp

subsection \<open>Collapsing cascades\<close>

lemma cascade_text_parse:
  "parse_failure (Some (cascade_text dep r)) = Some (cascade_code, sorted_params
     [(''dependency_task_id'', PStr dep), (''reason'', PStr r)])"
  by (simp add: cascade_text_def parse_failure_text)

lemma cascade_text_reason:
  "dict_get (sorted_params [(''dependency_task_id'', PStr dep), (''reason'', PStr r)]) ''reason'' = Some (PStr r)"
  by (simp add: dict_get_sorted)

text \<open>The text of a whole chain of blocked tasks, nested the way each layer would wrap the one before.\<close>

fun wrap_chain :: "string list \<Rightarrow> string \<Rightarrow> string" where
  "wrap_chain [] inner = inner"
| "wrap_chain (dep # deps) inner = cascade_text dep (wrap_chain deps inner)"

lemma collapse_loop_wrap:
  "length deps \<le> k \<Longrightarrow> collapse_loop k (wrap_chain deps inner) = collapse_loop (k - length deps) inner"
proof (induction deps arbitrary: k)
  case (Cons dep deps)
  then obtain m where "k = Suc m" by (cases k) auto
  with Cons show ?case by (simp add: cascade_text_parse cascade_text_reason)
qed simp

definition root_reason :: "string \<Rightarrow> bool" where
  "root_reason r \<longleftrightarrow> (case parse_failure (Some r) of Some (code, ps) \<Rightarrow> code \<noteq> cascade_code | None \<Rightarrow> True)"

lemma collapse_loop_root: "root_reason r \<Longrightarrow> collapse_loop k r = r"
  by (cases k) (auto simp: root_reason_def split: option.splits)

text \<open>
  collapsing a reason wrapped by any chain of at most 101 blocked tasks gives the root
  reason, so the length of the encoding does not depend on the depth of the chain.
\<close>

theorem collapse_cascade_root:
  assumes "root_reason inner" and "length deps \<le> Suc MAX_CASCADE_UNWRAP"
  shows "collapse_cascade_reason (wrap_chain deps inner) = inner"
  using assms by (simp add: collapse_cascade_reason_def collapse_loop_wrap collapse_loop_root del: collapse_loop.simps)

theorem collapse_cascade_root_witness:
  "collapse_cascade_reason (wrap_chain [''t1'', ''t2'', ''t3''] ''boom'') = ''boom''"
proof (rule collapse_cascade_root)
  show "root_reason ''boom''" by code_simp
  show "length [''t1'', ''t2'', ''t3''] \<le> Suc MAX_CASCADE_UNWRAP" by (simp add: MAX_CASCADE_UNWRAP_def)
qed

subsection \<open>Bounding\<close>

lemma shrink_loop_bound:
  "distinct (map fst params) \<Longrightarrow> length (shrink_loop code reason limit params) \<le> limit"
proof (induction code reason limit params rule: shrink_loop.induct)
  case (1 code reason limit params)
  show ?case
  proof (cases "length (failure_text code params) \<le> limit")
    case True
    then show ?thesis by (subst shrink_loop.simps) (simp add: Let_def)
  next
    case False
    note long = False
    show ?thesis
    proof (cases "longest_key params")
      case None
      with long show ?thesis using "1.prems" by (subst shrink_loop.simps) (simp add: Let_def)
    next
      case (Some p)
      obtain k cur where p: "p = (k, cur)" by (cases p)
      show ?thesis
      proof (cases "cur = []")
        case True
        with long Some p show ?thesis using "1.prems" by (subst shrink_loop.simps) (simp add: Let_def)
      next
        case False
        with "1.IH" [OF refl _ Some p [symmetric] False] long "1.prems" Some p
        show ?thesis by (subst shrink_loop.simps) (simp add: Let_def)
      qed
    qed
  qed
qed

lemma shrinkable_keys: "map fst (map (\<lambda>kv. (fst kv, as_shrinkable (snd kv))) ps) = map fst ps"
  by (simp add: comp_def)

text \<open>
  the bounded reason never exceeds the limit, whatever the reason is: free text, a
  structured reason, or a broken one.
\<close>

theorem bound_reason_length: "length (bound_reason reason limit) \<le> limit"
proof -
  have "length (shrink_loop code reason limit (map (\<lambda>kv. (fst kv, as_shrinkable (snd kv))) ps)) \<le> limit"
    if "json_loads t = Some (PDict ps)" for code t ps
    using json_loads_ok [OF that] by (intro shrink_loop_bound) (simp del: map_map add: shrinkable_keys)
  then show ?thesis
    unfolding bound_reason_def
    by (auto simp: Let_def split: option.splits pyval.splits)
qed

subsection \<open>Bounding keeps a structured reason readable\<close>

text \<open>Each parameter is unchanged, or a string that has been cut at the end.\<close>

definition shrunk :: "string \<times> pyval \<Rightarrow> string \<times> pyval \<Rightarrow> bool" where
  "shrunk a b \<longleftrightarrow> fst a = fst b \<and>
     (snd b = snd a \<or> (\<exists>s s'. snd a = PStr s \<and> snd b = PStr s' \<and> prefix s' s))"

lemma shrunk_refl [simp]: "shrunk a a"
  by (simp add: shrunk_def)

lemma shrunk_cut:
  assumes "list_all2 shrunk base ps" and "distinct (map fst ps)" and "(k, PStr cur) \<in> set ps"
  shows "list_all2 shrunk base (dict_set ps k (PStr (take n cur)))"
  using assms
proof (induction base ps rule: list_all2_induct)
  case (Cons a base b ps)
  obtain kb vb where b: "b = (kb, vb)" by (cases b)
  show ?case
  proof (cases "kb = k")
    case True
    with Cons.prems b have "vb = PStr cur" by (auto simp: image_iff)
    with Cons.hyps(1) b True have "shrunk a (k, PStr (take n cur))"
      by (cases a) (auto simp: shrunk_def intro: prefix_order.trans [OF take_is_prefix] take_is_prefix)
    with Cons.hyps(2) b True show ?thesis by simp
  next
    case False
    with Cons b show ?thesis by simp
  qed
qed simp

lemma shrunk_keys: "list_all2 shrunk base ps \<Longrightarrow> map fst ps = map fst base"
  by (induction rule: list_all2_induct) (simp_all add: shrunk_def)

lemma longest_key_None: "longest_key ps = None \<longleftrightarrow> list_all (\<lambda>kv. \<not> is_str (snd kv)) ps"
  by (induction ps rule: longest_key.induct) (auto simp: is_str_def split: pyval.splits option.splits if_splits)

lemma longest_key_None_mem: "(k, PStr s) \<in> set ps \<Longrightarrow> longest_key ps \<noteq> None"
proof
  assume "(k, PStr s) \<in> set ps" and "longest_key ps = None"
  then have "\<not> is_str (snd (k, PStr s))" unfolding longest_key_None list_all_iff by blast
  then show False by (simp add: is_str_def)
qed

lemma longest_empty:
  "longest_key ps = Some (k, []) \<Longrightarrow> (k', PStr s) \<in> set ps \<Longrightarrow> s = []"
proof (induction ps arbitrary: k rule: longest_key.induct)
  case (2 k0 v0 ps)
  then show ?case
    using longest_key_None_mem [of k' s ps] by (auto split: pyval.splits option.splits if_splits)
qed simp

definition blank :: "string \<times> pyval \<Rightarrow> string \<times> pyval" where
  "blank kv = (fst kv, if is_str (snd kv) then PStr [] else snd kv)"

lemma shrunk_all_empty:
  assumes "list_all2 shrunk base ps" and "\<And>k s. (k, PStr s) \<in> set ps \<Longrightarrow> s = []"
  shows "ps = map blank base"
  using assms
proof (induction base ps rule: list_all2_induct)
  case (Cons a base b ps)
  have "b = blank a"
    using Cons.hyps(1) Cons.prems [of "fst b"]
    by (cases a; cases b) (auto simp: shrunk_def blank_def is_str_def split: pyval.splits)
  moreover have "ps = map blank base" using Cons.prems by (intro Cons.IH) auto
  ultimately show ?case by simp
qed simp

lemma shrunk_is_str: "list_all2 shrunk base ps \<Longrightarrow> list_all (\<lambda>kv. \<not> is_str (snd kv)) ps \<longleftrightarrow> list_all (\<lambda>kv. \<not> is_str (snd kv)) base"
  by (induction rule: list_all2_induct) (auto simp: shrunk_def is_str_def)

lemma shrink_loop_keeps:
  assumes "list_all2 shrunk base params" and "distinct (map fst params)"
    and "\<not> list_all (\<lambda>kv. \<not> is_str (snd kv)) params"
    and "length (failure_text code (map blank base)) \<le> limit"
  shows "\<exists>qs. shrink_loop code reason limit params = failure_text code qs \<and> list_all2 shrunk base qs"
  using assms
proof (induction code reason limit params rule: shrink_loop.induct)
  case (1 code reason limit params)
  show ?case
  proof (cases "length (failure_text code params) \<le> limit")
    case True
    with "1.prems"(1) show ?thesis by (subst shrink_loop.simps) (auto simp: Let_def)
  next
    case long: False
    from "1.prems"(3) obtain k cur where p: "longest_key params = Some (k, cur)"
      by (cases "longest_key params") (auto simp: longest_key_None)
    have "cur \<noteq> []"
    proof
      assume "cur = []"
      with p longest_empty have "params = map blank base" using "1.prems"(1) by (blast intro: shrunk_all_empty)
      with long "1.prems"(4) show False by simp
    qed
    let ?qs = "dict_set params k (PStr (take (length cur - drop_amount (length (failure_text code params) - limit) (length cur)) cur))"
    have rel: "list_all2 shrunk base ?qs"
      using "1.prems"(1,2) longest_key_mem [OF p] by (rule shrunk_cut)
    moreover have "distinct (map fst ?qs)" using "1.prems"(2) by (rule distinct_dict_set)
    moreover have "\<not> list_all (\<lambda>kv. \<not> is_str (snd kv)) ?qs"
      using shrunk_is_str [OF rel] shrunk_is_str [OF "1.prems"(1)] "1.prems"(3) by blast
    ultimately have "\<exists>qs. shrink_loop code reason limit ?qs = failure_text code qs \<and> list_all2 shrunk base qs"
      using "1.IH" [OF refl _ p refl \<open>cur \<noteq> []\<close>] "1.prems" long by simp
    moreover have "shrink_loop code reason limit params = shrink_loop code reason limit ?qs"
      using long "1.prems"(2) p \<open>cur \<noteq> []\<close> by (subst shrink_loop.simps) (simp add: Let_def)
    ultimately show ?thesis by simp
  qed
qed

lemma json_ok_shrinkable: "json_ok v \<Longrightarrow> json_ok (as_shrinkable v)"
  by (cases v) (simp_all add: as_shrinkable_def)

lemma shrunk_json_ok:
  "list_all2 shrunk base qs \<Longrightarrow> list_all (\<lambda>kv. json_ok (snd kv)) base \<Longrightarrow> list_all (\<lambda>kv. json_ok (snd kv)) qs"
  by (induction rule: list_all2_induct) (auto simp: shrunk_def)

lemma set_keys_sorted_params: "set (dict_keys (sorted_params ps)) = set (dict_keys ps)"
  by (force simp: sorted_params_def)

text \<open>The smallest text the code and the parameters of a reason can be bounded to.\<close>

definition envelope_skeleton :: "string \<Rightarrow> (string, pyval) dict \<Rightarrow> string" where
  "envelope_skeleton code ps =
     failure_text code (map (\<lambda>kv. blank (fst kv, as_shrinkable (snd kv))) ps)"

lemma parse_failure_match:
  assumes "parse_failure (Some reason) = Some (code, ps)" and "ps \<noteq> []"
  obtains t where "structured_match reason = Some (code, Some t)" "json_loads t = Some (PDict ps)" "known_code code"
  using assms
  by (auto simp: parse_failure_def split: if_splits option.splits pyval.splits)

text \<open>
  when some parameter can be cut and the limit has room for the bare envelope, the bounded
  reason is still a structured reason with the same code and the same parameters names: the
  JSON text is never cut in the middle.
\<close>

theorem bound_reason_keeps_envelope:
  assumes "parse_failure (Some reason) = Some (code, ps)"
    and "list_ex (\<lambda>kv. is_str (as_shrinkable (snd kv))) ps"
    and "length (envelope_skeleton code ps) \<le> limit"
  shows "\<exists>qs. parse_failure (Some (bound_reason reason limit)) = Some (code, qs)
    \<and> set (dict_keys qs) = set (dict_keys ps)"
proof (cases "length reason \<le> limit")
  case True
  with assms(1) show ?thesis by (simp add: bound_reason_def)
next
  case False
  have ne: "ps \<noteq> []" using assms(2) by auto
  obtain t where m: "structured_match reason = Some (code, Some t)" "json_loads t = Some (PDict ps)"
    "known_code code" using parse_failure_match [OF assms(1) ne] .
  define base where "base = map (\<lambda>kv. (fst kv, as_shrinkable (snd kv))) ps"
  have ok: "json_ok (PDict ps)" by (rule json_loads_ok [OF m(2)])
  have keys: "map fst base = map fst ps" unfolding base_def by (rule shrinkable_keys)
  have strs: "\<not> list_all (\<lambda>kv. \<not> is_str (snd kv)) base"
    using assms(2) by (auto simp: base_def list_all_iff list_ex_iff)
  have "list_all2 shrunk base base" by (simp add: list_all2_same)
  moreover have "distinct (map fst base)" unfolding keys using ok by simp
  moreover have "length (failure_text code (map blank base)) \<le> limit"
    using assms(3) by (simp add: envelope_skeleton_def base_def comp_def)
  ultimately obtain qs where qs: "shrink_loop code reason limit base = failure_text code qs" "list_all2 shrunk base qs"
    using shrink_loop_keeps [OF _ _ strs] by blast
  have bound: "bound_reason reason limit = failure_text code qs"
    using False m strs qs(1) by (simp add: bound_reason_def base_def)
  have "list_all (\<lambda>kv. json_ok (snd kv)) base"
    using ok by (auto simp: base_def list_all_iff json_ok_shrinkable)
  then have "json_ok (PDict qs)"
    using shrunk_json_ok [OF qs(2)] shrunk_keys [OF qs(2)] keys ok by simp
  with bound m(3) have "parse_failure (Some (bound_reason reason limit)) = Some (code, sorted_params qs)"
    by (simp add: parse_failure_text)
  moreover have "set (dict_keys (sorted_params qs)) = set (dict_keys ps)"
    unfolding set_keys_sorted_params shrunk_keys [OF qs(2)] keys ..
  ultimately show ?thesis by blast
qed

theorem bound_reason_keeps_envelope_witness:
  "\<exists>qs. parse_failure (Some (bound_reason ''[tts_stale] {\"detail\": \"abcdefgh\"}'' 30)) = Some (''tts_stale'', qs)
    \<and> set (dict_keys qs) = {''detail''}"
proof -
  have "\<exists>qs. parse_failure (Some (bound_reason ''[tts_stale] {\"detail\": \"abcdefgh\"}'' 30)) = Some (''tts_stale'', qs)
    \<and> set (dict_keys qs) = set (dict_keys [(''detail'', PStr ''abcdefgh'')])"
  proof (rule bound_reason_keeps_envelope)
    show "parse_failure (Some ''[tts_stale] {\"detail\": \"abcdefgh\"}'') = Some (''tts_stale'', [(''detail'', PStr ''abcdefgh'')])"
      by code_simp
    show "list_ex (\<lambda>kv. is_str (as_shrinkable (snd kv))) [(''detail'', PStr ''abcdefgh'')]"
      by code_simp
    show "length (envelope_skeleton ''tts_stale'' [(''detail'', PStr ''abcdefgh'')]) \<le> 30"
      by code_simp
  qed
  then show ?thesis by simp
qed

subsection \<open>Rendering\<close>

lemma object_group_len: "object_group b = Some t \<Longrightarrow> length t \<le> length b"
  by (auto simp: object_group_def Let_def split: if_splits)

lemma structured_match_len: "structured_match m = Some (code, Some t) \<Longrightarrow> length t < length m"
proof -
  assume sm: "structured_match m = Some (code, Some t)"
  then obtain c r where m: "m = c # r" by (cases m) (auto simp: structured_match_def)
  obtain d tail where r: "dropWhile is_word_char r = d # tail" "object_group (tl tail) = Some t"
    using sm m by (auto simp: structured_match_def Let_def split: if_splits list.splits)
  have "length (d # tail) \<le> length r" using length_dropWhile_le [of is_word_char r] r by simp
  with m object_group_len [OF r(2)] show ?thesis by simp
qed

lemma parse_failure_shorter:
  assumes "parse_failure (Some m) = Some (code, ps)" and "dict_get ps k = Some (PStr nested)"
  shows "length nested < length m"
proof -
  have "ps \<noteq> []" using assms(2) by auto
  with assms(1) obtain t where t: "structured_match m = Some (code, Some t)" "json_loads t = Some (PDict ps)"
    by (rule parse_failure_match)
  have "(k, PStr nested) \<in> set ps" using assms(2) by (rule map_of_SomeD)
  with t(2) have "length nested \<le> length t" by (rule json_loads_member_len)
  with structured_match_len [OF t(1)] show ?thesis by simp
qed

text \<open>\<open>translate\<close> is the translator of the request: from a catalog key and parameters to a text.\<close>

function render_text :: "(string \<Rightarrow> (string, pyval) dict \<Rightarrow> string) \<Rightarrow> string \<Rightarrow> string" where
  "render_text translate m =
     (case parse_failure (Some m) of
        None \<Rightarrow> m
      | Some (code, params) \<Rightarrow>
          (let params' =
             (if code = cascade_code
              then (case dict_get params ''reason'' of
                      Some (PStr nested) \<Rightarrow> dict_set params ''reason'' (PStr (render_text translate nested))
                    | _ \<Rightarrow> params)
              else params)
           in translate (dict_get_or FAILURE_CODE_KEYS code []) params'))"
  by pat_completeness auto
termination
  by (relation "measure (\<lambda>(f, m). length m)") (auto dest: parse_failure_shorter)

declare render_text.simps [simp del]

definition render_failure :: "string option \<Rightarrow> (string \<Rightarrow> (string, pyval) dict \<Rightarrow> string) \<Rightarrow> string option" where
  "render_failure error_message translate =
     (case error_message of
        None \<Rightarrow> None
      | Some m \<Rightarrow> if m = [] then Some m else Some (render_text translate m))"

lemma render_text_cascade:
  "render_text translate (cascade_text dep reason) =
     translate ''task_fail_cascade_blocked_dependency''
       [(''dependency_task_id'', PStr dep), (''reason'', PStr (render_text translate reason))]"
proof -
  have s: "sorted_params [(''dependency_task_id'', PStr dep), (''reason'', PStr reason)]
      = [(''dependency_task_id'', PStr dep), (''reason'', PStr reason)]"
  proof -
    have "''dependency_task_id'' \<le> ''reason''" by code_simp
    then show ?thesis by (simp add: sorted_params_def)
  qed
  have k: "dict_get_or FAILURE_CODE_KEYS cascade_code [] = ''task_fail_cascade_blocked_dependency''"
    by code_simp
  show ?thesis
    by (subst render_text.simps) (simp add: cascade_text_parse s k)
qed

fun render_chain :: "(string \<Rightarrow> (string, pyval) dict \<Rightarrow> string) \<Rightarrow> string list \<Rightarrow> string \<Rightarrow> string" where
  "render_chain translate [] inner = inner"
| "render_chain translate (dep # deps) inner =
     translate ''task_fail_cascade_blocked_dependency''
       [(''dependency_task_id'', PStr dep), (''reason'', PStr (render_chain translate deps inner))]"

lemma cascade_text_nonempty [simp]: "cascade_text dep r \<noteq> []"
  by (simp add: cascade_text_def)

text \<open>
  rendering a cascaded reason of any depth renders every layer, down to the root reason,
  which a text that is no structured reason passes through unchanged.
\<close>

theorem render_failure_chain:
  assumes "parse_failure (Some inner) = None" and "inner \<noteq> []"
  shows "render_failure (Some (wrap_chain deps inner)) translate = Some (render_chain translate deps inner)"
proof -
  have "render_text translate (wrap_chain deps inner) = render_chain translate deps inner"
    by (induction deps) (simp_all add: render_text_cascade render_text.simps [of translate inner] assms(1))
  moreover have "wrap_chain deps inner \<noteq> []" using assms(2) by (cases deps) simp_all
  ultimately show ?thesis by (simp add: render_failure_def)
qed

theorem render_failure_chain_witness:
  "render_failure (Some (wrap_chain [''t1''] ''boom'')) (\<lambda>key ps. key) = Some ''task_fail_cascade_blocked_dependency''"
proof -
  have "render_failure (Some (wrap_chain [''t1''] ''boom'')) (\<lambda>key ps. key)
      = Some (render_chain (\<lambda>key ps. key) [''t1''] ''boom'')"
  proof (rule render_failure_chain)
    show "parse_failure (Some ''boom'') = None" by code_simp
  qed simp
  then show ?thesis by simp
qed

end
