(* ===== verification/Task_Model.thy ===== *)
theory Task_Model
  imports Task_Failure "HOL-Library.Product_Lexorder"
begin

text \<open>
  The tables of the task queue (lib/db/models/task.py) as records, and the few SQL operations
  the repository uses on them: a guarded update with its row count, a lookup by primary key and
  a stable ORDER BY. A table is the list of its rows in insertion order, which is also how ties
  of an ORDER BY are broken here. Times are integers (microseconds); an ISO string built from
  one is represented by the integer itself. The \<open>status\<close> column only ever holds the six values
  of the datatype. The interface \<open>row_store\<close> states what a guarded update promises; from it
  follows that of two compare-and-swap updates with the same guard at most one succeeds.
\<close>

datatype task_status = Queued | Running | Cancelling | Succeeded | Failed | Cancelled

fun status_name :: "task_status \<Rightarrow> string" where
  "status_name Queued = ''queued''"
| "status_name Running = ''running''"
| "status_name Cancelling = ''cancelling''"
| "status_name Succeeded = ''succeeded''"
| "status_name Failed = ''failed''"
| "status_name Cancelled = ''cancelled''"

lemma status_name_inject [simp]: "status_name s = status_name t \<longleftrightarrow> s = t"
  by (cases s; cases t) simp_all

record task =
  task_id :: string
  batch_id :: "string option"
  project_name :: string
  task_type :: string
  media_type :: string
  resource_id :: string
  resource_type :: "string option"
  script_file :: "string option"
  payload_json :: "string option"
  status :: task_status
  result_json :: "string option"
  error_message :: "string option"
  source :: string
  dependency_task_id :: "string option"
  dependency_group :: "string option"
  dependency_index :: "int option"
  cancelled_by :: "string option"
  provider_id :: "string option"
  provider_job_id :: "string option"
  provider_endpoint :: "string option"
  submitted_base_url :: "string option"
  execution_checkpoint_json :: "string option"
  queued_at :: int
  started_at :: "int option"
  finished_at :: "int option"
  updated_at :: int
  user_id :: string

record generation_batch =
  gb_batch_id :: string
  gb_project_name :: string
  gb_operation :: string
  gb_requested_json :: string
  gb_blocked_json :: string
  gb_source :: string
  gb_user_id :: string
  gb_created_at :: int

record batch_task =
  bt_batch_id :: string
  bt_task_id :: string
  bt_unit_id :: string
  bt_deduped :: bool

text \<open>The lease times are points of \<open>time.time()\<close>, kept exactly as rationals.\<close>

record worker_lease =
  wl_name :: string
  wl_owner_id :: string
  wl_lease_until :: rat
  wl_updated_at :: int

record terminal_event =
  te_task_id :: string
  te_project_name :: string
  te_status :: task_status
  te_task_type :: "string option"

text \<open>\<open>terminal_events\<close> is the list the repository object collects for its caller to publish.\<close>

record queue_db =
  tasks :: "task list"
  batches :: "generation_batch list"
  batch_tasks :: "batch_task list"
  leases :: "worker_lease list"
  terminal_events :: "terminal_event list"

definition ACTIVE_TASK_STATUSES :: "task_status list" where
  "ACTIVE_TASK_STATUSES = [Queued, Running, Cancelling]"

definition TERMINAL_TASK_STATUSES :: "task_status list" where
  "TERMINAL_TASK_STATUSES = [Succeeded, Failed, Cancelled]"

definition active :: "task \<Rightarrow> bool" where
  "active r \<longleftrightarrow> status r \<in> set ACTIVE_TASK_STATUSES"

definition terminal :: "task_status \<Rightarrow> bool" where
  "terminal s \<longleftrightarrow> s \<in> set TERMINAL_TASK_STATUSES"

lemma terminal_simps [simp]:
  "\<not> terminal Queued" "\<not> terminal Running" "\<not> terminal Cancelling"
  "terminal Succeeded" "terminal Failed" "terminal Cancelled"
  by (simp_all add: terminal_def TERMINAL_TASK_STATUSES_def)

lemma active_terminal: "active r \<longleftrightarrow> \<not> terminal (status r)"
  by (cases "status r") (simp_all add: active_def ACTIVE_TASK_STATUSES_def)

lemma terminal_cases: "terminal s \<longleftrightarrow> s = Succeeded \<or> s = Failed \<or> s = Cancelled"
  by (cases s) simp_all

text \<open>The columns of the unique partial index \<open>idx_tasks_dedupe_active\<close>.\<close>

definition coalesce :: "'a option \<Rightarrow> 'a \<Rightarrow> 'a" where
  "coalesce x d = (case x of None \<Rightarrow> d | Some v \<Rightarrow> v)"

type_synonym dedupe_key = "string \<times> string \<times> string \<times> string \<times> string \<times> string"

definition dedupe_key :: "task \<Rightarrow> dedupe_key" where
  "dedupe_key r = (project_name r, user_id r, task_type r, resource_id r,
     coalesce (script_file r) [], coalesce (resource_type r) [])"

subsection \<open>SQL on a table\<close>

definition find_task :: "task list \<Rightarrow> string \<Rightarrow> task option" where
  "find_task ts i = find (\<lambda>r. task_id r = i) ts"

definition update_rows :: "'r list \<Rightarrow> ('r \<Rightarrow> bool) \<Rightarrow> ('r \<Rightarrow> 'r) \<Rightarrow> 'r list" where
  "update_rows rs p f = map (\<lambda>r. if p r then f r else r) rs"

definition count_rows :: "'r list \<Rightarrow> ('r \<Rightarrow> bool) \<Rightarrow> nat" where
  "count_rows rs p = length (filter p rs)"

definition order_by :: "('r \<Rightarrow> 'k :: linorder) \<Rightarrow> 'r list \<Rightarrow> 'r list" where
  "order_by k rs = sort_key k rs"

lemma set_order_by [simp]: "set (order_by k rs) = set rs"
  by (simp add: order_by_def)

lemma order_by_Nil [simp]: "order_by k rs = [] \<longleftrightarrow> rs = []"
  by (metis set_empty set_order_by)

lemma hd_order_by_least:
  assumes "r \<in> set rs"
  shows "k (hd (order_by k rs)) \<le> k r"
proof -
  have s: "sorted (map k (sort_key k rs))" by simp
  have "r \<in> set (sort_key k rs)" using assms by simp
  then show ?thesis
    using s unfolding order_by_def by (cases "sort_key k rs") auto
qed

lemma find_task_id: "find_task ts i = Some r \<Longrightarrow> task_id r = i"
  by (auto simp: find_task_def find_Some_iff)

lemma find_task_mem: "find_task ts i = Some r \<Longrightarrow> r \<in> set ts"
  by (auto simp: find_task_def find_Some_iff)

lemma find_task_None: "find_task ts i = None \<longleftrightarrow> i \<notin> task_id ` set ts"
  by (auto simp: find_task_def find_None_iff)

lemma find_task_in: "distinct (map task_id ts) \<Longrightarrow> r \<in> set ts \<Longrightarrow> find_task ts (task_id r) = Some r"
proof (induction ts)
  case (Cons t ts)
  then show ?case by (auto simp: find_task_def)
qed simp

lemma find_task_unique:
  "distinct (map task_id ts) \<Longrightarrow> x \<in> set ts \<Longrightarrow> r \<in> set ts \<Longrightarrow> task_id x = task_id r \<Longrightarrow> x = r"
  by (auto simp: distinct_map inj_on_def)

lemma find_task_update:
  assumes "\<And>r. task_id (f r) = task_id r"
  shows "find_task (update_rows ts p f) i = map_option (\<lambda>r. if p r then f r else r) (find_task ts i)"
  by (induction ts) (auto simp: find_task_def update_rows_def assms)

lemma map_update_rows: "(\<And>r. k (f r) = k r) \<Longrightarrow> map k (update_rows rs p f) = map k rs"
  by (simp add: update_rows_def)

lemma count_rows_zero: "count_rows rs p = 0 \<longleftrightarrow> (\<forall>r \<in> set rs. \<not> p r)"
  by (auto simp: count_rows_def filter_empty_conv)

lemma update_rows_none: "(\<forall>r \<in> set rs. \<not> p r) \<Longrightarrow> update_rows rs p f = rs"
  by (simp add: update_rows_def map_idI)

subsection \<open>The guarded row store\<close>

locale row_store =
  fixes lookup :: "'s \<Rightarrow> 'i \<Rightarrow> 'r option"
    and upd :: "'s \<Rightarrow> ('r \<Rightarrow> bool) \<Rightarrow> ('r \<Rightarrow> 'r) \<Rightarrow> 's"
    and rid :: "'r \<Rightarrow> 'i"
  assumes lookup_rid: "lookup s i = Some r \<Longrightarrow> rid r = i"
    and lookup_upd: "(\<And>r. rid (f r) = rid r) \<Longrightarrow>
      lookup (upd s p f) i = map_option (\<lambda>r. if p r then f r else r) (lookup s i)"
begin

text \<open>\<open>UPDATE ... WHERE id = i AND guard\<close>, successful when it hits a row.\<close>

definition cas :: "'s \<Rightarrow> 'i \<Rightarrow> ('r \<Rightarrow> bool) \<Rightarrow> ('r \<Rightarrow> 'r) \<Rightarrow> 's option" where
  "cas s i g f =
     (case lookup s i of
        None \<Rightarrow> None
      | Some r \<Rightarrow> if g r then Some (upd s (\<lambda>x. rid x = i \<and> g x) f) else None)"

lemma cas_row:
  assumes "\<And>r. rid (f r) = rid r" and "cas s i g f = Some s'"
  obtains r where "lookup s i = Some r" "g r" "lookup s' i = Some (f r)"
    "\<And>j. j \<noteq> i \<Longrightarrow> lookup s' j = lookup s j"
proof -
  from assms(2) obtain r where r: "lookup s i = Some r" "g r" "s' = upd s (\<lambda>x. rid x = i \<and> g x) f"
    by (auto simp: cas_def split: option.splits if_splits)
  have "lookup s' j = map_option (\<lambda>x. if rid x = i \<and> g x then f x else x) (lookup s j)" for j
    unfolding r(3) using assms(1) by (rule lookup_upd)
  note new = this
  from r(1) have "rid r = i" by (rule lookup_rid)
  with new [of i] r have "lookup s' i = Some (f r)" by simp
  moreover have "lookup s' j = lookup s j" if "j \<noteq> i" for j
    using new [of j] lookup_rid [of s j] that by (cases "lookup s j") auto
  ultimately show ?thesis using that r by blast
qed

lemma cas_once:
  assumes "\<And>r. rid (f r) = rid r" and "\<And>r. \<not> g (f r)" and "cas s i g f = Some s'"
  shows "cas s' i g f' = None"
proof -
  from assms(1,3) obtain r where "lookup s' i = Some (f r)" by (rule cas_row)
  with assms(2) show ?thesis by (simp add: cas_def)
qed

lemma cas_guard: "cas s i g f = None \<longleftrightarrow> (case lookup s i of None \<Rightarrow> True | Some r \<Rightarrow> \<not> g r)"
  by (auto simp: cas_def split: option.splits)

end

interpretation task_table: row_store find_task update_rows task_id
  by unfold_locales (auto intro: find_task_id find_task_update)

text \<open>The guarded update of one task row: the row count and the new table.\<close>

definition update_task :: "string \<Rightarrow> (task \<Rightarrow> bool) \<Rightarrow> (task \<Rightarrow> task) \<Rightarrow> queue_db \<Rightarrow> nat \<times> queue_db" where
  "update_task i g f db =
     (count_rows (tasks db) (\<lambda>r. task_id r = i \<and> g r),
      db\<lparr>tasks := update_rows (tasks db) (\<lambda>r. task_id r = i \<and> g r) f\<rparr>)"

lemma update_task_tables [simp]:
  "batches (snd (update_task i g f db)) = batches db"
  "batch_tasks (snd (update_task i g f db)) = batch_tasks db"
  "leases (snd (update_task i g f db)) = leases db"
  "terminal_events (snd (update_task i g f db)) = terminal_events db"
  by (simp_all add: update_task_def)

lemma update_task_count_zero:
  "fst (update_task i g f db) = 0 \<longleftrightarrow> (\<forall>r \<in> set (tasks db). task_id r = i \<longrightarrow> \<not> g r)"
  by (auto simp: update_task_def count_rows_zero)

lemma update_task_zero:
  "fst (update_task i g f db) = 0 \<Longrightarrow> snd (update_task i g f db) = db"
  by (simp add: update_task_def count_rows_zero update_rows_none)

lemma update_task_cas:
  assumes "distinct (map task_id (tasks db))"
  shows "update_task i g f db =
    (case task_table.cas (tasks db) i g f of None \<Rightarrow> (0, db) | Some ts \<Rightarrow> (1, db\<lparr>tasks := ts\<rparr>))"
proof (cases "task_table.cas (tasks db) i g f")
  case None
  then have "\<forall>r \<in> set (tasks db). \<not> (task_id r = i \<and> g r)"
    unfolding task_table.cas_guard using find_task_in [OF assms] by (auto split: option.splits)
  with None show ?thesis
    by (simp add: update_task_def update_rows_none count_rows_def filter_empty_conv)
next
  case (Some ts)
  then obtain r where r: "find_task (tasks db) i = Some r" "g r"
    "ts = update_rows (tasks db) (\<lambda>x. task_id x = i \<and> g x) f"
    by (auto simp: task_table.cas_def split: option.splits if_splits)
  have "filter (\<lambda>x. task_id x = i \<and> g x) (tasks db) = [r]"
  proof -
    have r': "r \<in> set (tasks db)" "task_id r = i" using r(1) by (auto dest: find_task_mem find_task_id)
    have eq: "task_id x = i \<and> g x \<longleftrightarrow> x = r" if "x \<in> set (tasks db)" for x
    proof
      assume "task_id x = i \<and> g x"
      with find_task_in [OF assms that] r(1) show "x = r" by simp
    next
      assume "x = r"
      with r(2) r'(2) show "task_id x = i \<and> g x" by simp
    qed
    have "filter (\<lambda>x. task_id x = i \<and> g x) (tasks db) = filter (\<lambda>x. x = r) (tasks db)"
      using eq by (rule filter_cong [OF refl])
    also have "\<dots> = [r]"
      using assms r'(1) by (intro filter_eq_single) (auto simp: distinct_map)
    finally show ?thesis .
  qed
  with Some r show ?thesis by (simp add: update_task_def count_rows_def)
qed

end
