(* ===== verification/Task_Repo.thy ===== *)
theory Task_Repo
  imports Task_Model
begin

text \<open>
  The operations of \<open>TaskRepository\<close> (lib/db/repositories/task_repo.py), each as a function
  from the database to its result and the new database. The clock (\<open>now\<close>) and the fresh
  identifier are arguments; one call reads the clock once. An exception is \<open>Inl\<close> and leaves the
  database as it was, since the session is rolled back. The two cascades recurse along the
  dependency edges with a fuel that bounds the depth; \<open>Task_Cascade\<close> proves that the fuel the
  entry points pass, one more than the number of tasks, is never exhausted.
\<close>

subsection \<open>JSON columns and the task dictionary\<close>

definition json_loads_default :: "string option \<Rightarrow> pyval \<Rightarrow> pyval" where
  "json_loads_default value dflt =
     (case value of
        None \<Rightarrow> dflt
      | Some t \<Rightarrow> if t = [] then dflt else (case json_loads t of None \<Rightarrow> dflt | Some v \<Rightarrow> v))"

definition opt_str :: "string option \<Rightarrow> pyval" where
  "opt_str x = (case x of None \<Rightarrow> PNone | Some s \<Rightarrow> PStr s)"

definition opt_int :: "int option \<Rightarrow> pyval" where
  "opt_int x = (case x of None \<Rightarrow> PNone | Some i \<Rightarrow> PInt i)"

definition task_to_dict :: "task \<Rightarrow> (string, pyval) dict" where
  "task_to_dict row =
     [(''task_id'', PStr (task_id row)),
      (''batch_id'', opt_str (batch_id row)),
      (''project_name'', PStr (project_name row)),
      (''task_type'', PStr (task_type row)),
      (''media_type'', PStr (media_type row)),
      (''resource_id'', PStr (resource_id row)),
      (''resource_type'', opt_str (resource_type row)),
      (''script_file'', opt_str (script_file row)),
      (''payload'', json_loads_default (payload_json row) (PDict [])),
      (''status'', PStr (status_name (status row))),
      (''result'', json_loads_default (result_json row) (PDict [])),
      (''error_message'', opt_str (error_message row)),
      (''source'', PStr (source row)),
      (''dependency_task_id'', opt_str (dependency_task_id row)),
      (''dependency_group'', opt_str (dependency_group row)),
      (''dependency_index'', opt_int (dependency_index row)),
      (''cancelled_by'', opt_str (cancelled_by row)),
      (''provider_id'', opt_str (provider_id row)),
      (''provider_job_id'', opt_str (provider_job_id row)),
      (''provider_endpoint'', opt_str (provider_endpoint row)),
      (''submitted_base_url'', opt_str (submitted_base_url row)),
      (''execution_checkpoint_json'', opt_str (execution_checkpoint_json row)),
      (''queued_at'', PInt (queued_at row)),
      (''started_at'', opt_int (started_at row)),
      (''finished_at'', opt_int (finished_at row)),
      (''updated_at'', PInt (updated_at row)),
      (''user_id'', PStr (user_id row))]"

definition record_terminal_event ::
  "string \<Rightarrow> string \<Rightarrow> task_status \<Rightarrow> string option \<Rightarrow> queue_db \<Rightarrow> queue_db" where
  "record_terminal_event tid project st ttype db =
     (if terminal st
      then db\<lparr>terminal_events := terminal_events db @
             [\<lparr>te_task_id = tid, te_project_name = project, te_status = st, te_task_type = ttype\<rparr>]\<rparr>
      else db)"

text \<open>The reload after a guarded update, and the event of the row it finds.\<close>

definition event_of_row :: "string \<Rightarrow> task_status \<Rightarrow> queue_db \<Rightarrow> queue_db" where
  "event_of_row tid st db =
     (case find_task (tasks db) tid of
        None \<Rightarrow> db
      | Some r \<Rightarrow> record_terminal_event tid (project_name r) st (Some (task_type r)) db)"

subsection \<open>Batches\<close>

definition dict_items :: "pyval \<Rightarrow> string \<Rightarrow> pyval list" where
  "dict_items v k =
     (case v of PDict d \<Rightarrow> (case dict_get d k of Some (PList xs) \<Rightarrow> xs | _ \<Rightarrow> []) | _ \<Rightarrow> [])"

definition requested_unit_ids :: "pyval \<Rightarrow> pyval list" where
  "requested_unit_ids requested =
     concat (map (\<lambda>item. case item of PDict d \<Rightarrow> [dict_get_or d ''unit_id'' PNone] | _ \<Rightarrow> [])
       (dict_items requested ''requested''))"

definition blocked_unit_ids :: "pyval \<Rightarrow> pyval list" where
  "blocked_unit_ids blocked =
     concat (map (\<lambda>item. case item of
         PDict d \<Rightarrow> (case dict_get d ''item'' of Some (PDict i) \<Rightarrow> [dict_get_or i ''unit_id'' PNone] | _ \<Rightarrow> [])
       | _ \<Rightarrow> [])
       (case blocked of PList xs \<Rightarrow> xs | _ \<Rightarrow> []))"

definition find_batch :: "string \<Rightarrow> string \<Rightarrow> string \<Rightarrow> queue_db \<Rightarrow> generation_batch option" where
  "find_batch project bid user db =
     find (\<lambda>b. gb_batch_id b = bid \<and> gb_project_name b = project \<and> gb_user_id b = user) (batches db)"

definition require_batch_units ::
  "string \<Rightarrow> string \<Rightarrow> string list \<Rightarrow> string \<Rightarrow> queue_db \<Rightarrow> py_error + unit" where
  "require_batch_units project bid unit_ids user db =
     (let batch = find_batch project bid user db;
          requested_ids = (case batch of
              None \<Rightarrow> []
            | Some b \<Rightarrow> requested_unit_ids (json_loads_default (Some (gb_requested_json b)) (PDict [])));
          blocked_ids = (case batch of
              None \<Rightarrow> []
            | Some b \<Rightarrow> blocked_unit_ids (json_loads_default (Some (gb_blocked_json b)) (PList [])));
          invalid = find (\<lambda>u. PStr u \<notin> set requested_ids \<or> PStr u \<in> set blocked_ids) unit_ids
      in if batch = None \<or> invalid \<noteq> None then Inl (ValueError ''batch does not own unit'') else Inr ())"

text \<open>Adding membership rows: the flush fails on a repeated primary key or a repeated unit of the batch.\<close>

fun add_members :: "batch_task list \<Rightarrow> batch_task list \<Rightarrow> batch_task list option" where
  "add_members [] ms = Some ms"
| "add_members (m # new) ms =
     (if \<exists>x \<in> set ms. bt_batch_id x = bt_batch_id m \<and> bt_unit_id x = bt_unit_id m then None
      else add_members new (ms @ [m]))"

definition create_batch :: "generation_batch \<Rightarrow> queue_db \<Rightarrow> py_error + queue_db" where
  "create_batch b db =
     (if gb_batch_id b \<in> gb_batch_id ` set (batches db) then Inl (IntegrityError ''batches'')
      else Inr (db\<lparr>batches := batches db @ [b]\<rparr>))"

definition attach_batch_task ::
  "string \<Rightarrow> string \<Rightarrow> string \<Rightarrow> string \<Rightarrow> bool \<Rightarrow> string \<Rightarrow> queue_db \<Rightarrow> py_error + queue_db" where
  "attach_batch_task project bid tid uid deduped user db =
     (case require_batch_units project bid [uid] user db of
        Inl e \<Rightarrow> Inl e
      | Inr _ \<Rightarrow>
          (case find (\<lambda>r. task_id r = tid \<and> project_name r = project \<and> user_id r = user) (tasks db) of
             None \<Rightarrow> Inl (ValueError ''batch does not own unit'')
           | Some _ \<Rightarrow>
               (case add_members [\<lparr>bt_batch_id = bid, bt_task_id = tid, bt_unit_id = uid, bt_deduped = deduped\<rparr>]
                       (batch_tasks db) of
                  None \<Rightarrow> Inl (IntegrityError ''batch_tasks'')
                | Some ms \<Rightarrow> Inr (db\<lparr>batch_tasks := ms\<rparr>))))"

text \<open>\<open>get_batch\<close>: the batch, its member tasks with unit and deduplication flag, and the queue depth per task type.\<close>

record batch_view =
  bv_batch :: generation_batch
  bv_requested :: "pyval option"
  bv_blocked :: "pyval option"
  bv_memberships :: "(string, pyval) dict list"
  bv_queue_depth :: "(string, nat) dict"

definition batch_memberships :: "generation_batch \<Rightarrow> queue_db \<Rightarrow> (batch_task \<times> task) list" where
  "batch_memberships b db =
     concat (map (\<lambda>m. map (Pair m)
        (filter (\<lambda>r. task_id r = bt_task_id m \<and> project_name r = gb_project_name b \<and> user_id r = gb_user_id b)
           (tasks db)))
       (filter (\<lambda>m. bt_batch_id m = gb_batch_id b) (batch_tasks db)))"

definition queue_depth :: "generation_batch \<Rightarrow> string list \<Rightarrow> queue_db \<Rightarrow> (string, nat) dict" where
  "queue_depth b types db =
     (let rows = filter (\<lambda>r. project_name r = gb_project_name b \<and> user_id r = gb_user_id b
                   \<and> task_type r \<in> set types \<and> status r = Queued) (tasks db)
      in map (\<lambda>t. (t, count_rows rows (\<lambda>r. task_type r = t))) (fromkeys (map task_type rows)))"

definition get_batch :: "string \<Rightarrow> string \<Rightarrow> string \<Rightarrow> queue_db \<Rightarrow> batch_view option" where
  "get_batch project bid user db =
     (case find_batch project bid user db of
        None \<Rightarrow> None
      | Some b \<Rightarrow>
          (let rows = batch_memberships b db
           in Some \<lparr>bv_batch = b,
                    bv_requested = json_loads (gb_requested_json b),
                    bv_blocked = json_loads (gb_blocked_json b),
                    bv_memberships = map (\<lambda>(m, r). dict_set (dict_set (task_to_dict r) ''unit_id'' (PStr (bt_unit_id m)))
                                           ''deduped'' (PBool (bt_deduped m))) rows,
                    bv_queue_depth = queue_depth b (map (task_type \<circ> snd) rows) db\<rparr>))"

definition delete_fresh_batch :: "string \<Rightarrow> string \<Rightarrow> string \<Rightarrow> queue_db \<Rightarrow> nat \<times> queue_db" where
  "delete_fresh_batch project bid user db =
     (let doomed = (\<lambda>b. gb_batch_id b = bid \<and> gb_project_name b = project \<and> gb_user_id b = user
              \<and> (\<forall>r \<in> set (tasks db). batch_id r \<noteq> Some (gb_batch_id b))
              \<and> (\<forall>m \<in> set (batch_tasks db). bt_batch_id m \<noteq> gb_batch_id b))
      in (count_rows (batches db) doomed, db\<lparr>batches := filter (\<lambda>b. \<not> doomed b) (batches db)\<rparr>))"

subsection \<open>Enqueueing\<close>

record enqueue_args =
  ea_project_name :: string
  ea_task_type :: string
  ea_media_type :: string
  ea_resource_id :: string
  ea_payload :: "(string, pyval) dict option"
  ea_script_file :: "string option"
  ea_resource_type :: "string option"
  ea_source :: string
  ea_dependency_task_id :: "string option"
  ea_dependency_group :: "string option"
  ea_dependency_index :: "int option"
  ea_user_id :: string
  ea_provider_id :: "string option"
  ea_batch_id :: "string option"
  ea_batch_unit_id :: "string option"
  ea_batch_unit_ids :: "string list"

record enqueue_result =
  er_task_id :: string
  er_status :: task_status
  er_deduped :: bool
  er_existing_task_id :: "string option"
  er_existing_payload :: "pyval option"

definition enqueue_unit_ids :: "enqueue_args \<Rightarrow> string list" where
  "enqueue_unit_ids a =
     fromkeys (ea_batch_unit_ids a @
       (case ea_batch_unit_id a of None \<Rightarrow> [] | Some u \<Rightarrow> if u = [] then [] else [u]))"

definition enqueue_key :: "enqueue_args \<Rightarrow> dedupe_key" where
  "enqueue_key a = (ea_project_name a, ea_user_id a, ea_task_type a, ea_resource_id a,
     coalesce (ea_script_file a) [], coalesce (ea_resource_type a) [])"

definition new_task :: "string \<Rightarrow> int \<Rightarrow> enqueue_args \<Rightarrow> task" where
  "new_task tid now a =
     \<lparr>task_id = tid, batch_id = ea_batch_id a, project_name = ea_project_name a, task_type = ea_task_type a,
      media_type = ea_media_type a, resource_id = ea_resource_id a, resource_type = ea_resource_type a,
      script_file = ea_script_file a,
      payload_json = Some (json_dumps (PDict (coalesce (ea_payload a) []))), status = Queued,
      result_json = None, error_message = None, source = ea_source a,
      dependency_task_id = ea_dependency_task_id a, dependency_group = ea_dependency_group a,
      dependency_index = ea_dependency_index a, cancelled_by = None, provider_id = ea_provider_id a,
      provider_job_id = None, provider_endpoint = None, submitted_base_url = None,
      execution_checkpoint_json = None, queued_at = now, started_at = None, finished_at = None,
      updated_at = now, user_id = ea_user_id a\<rparr>"

text \<open>
  The match of \<open>_active_dedupe_clauses\<close>: \<open>(script_file or "")\<close> on the request against
  \<open>COALESCE(script_file, '')\<close> on the row.
\<close>

definition active_dedupe_match ::
  "string \<Rightarrow> string \<Rightarrow> string \<Rightarrow> string option \<Rightarrow> string option \<Rightarrow> task \<Rightarrow> bool" where
  "active_dedupe_match project user ttype script rtype r \<longleftrightarrow>
     project_name r = project \<and> user_id r = user \<and> task_type r = ttype
     \<and> coalesce (script_file r) [] = or_str script [] \<and> coalesce (resource_type r) [] = or_str rtype []
     \<and> active r"

definition enqueue_conflict :: "string \<Rightarrow> enqueue_args \<Rightarrow> queue_db \<Rightarrow> bool" where
  "enqueue_conflict tid a db \<longleftrightarrow>
     tid \<in> task_id ` set (tasks db) \<or> (\<exists>r \<in> set (tasks db). active r \<and> dedupe_key r = enqueue_key a)"

definition enqueue_existing :: "enqueue_args \<Rightarrow> queue_db \<Rightarrow> task option" where
  "enqueue_existing a db =
     (case order_by (\<lambda>r. - queued_at r)
        (filter (\<lambda>r. active_dedupe_match (ea_project_name a) (ea_user_id a) (ea_task_type a)
                       (ea_script_file a) (ea_resource_type a) r \<and> resource_id r = ea_resource_id a) (tasks db)) of
        [] \<Rightarrow> None
      | r # _ \<Rightarrow> Some r)"

type_synonym dedupe_guard = "pyval \<Rightarrow> string \<Rightarrow> py_error option"

definition enqueue_task ::
  "string \<Rightarrow> int \<Rightarrow> enqueue_args \<Rightarrow> dedupe_guard option \<Rightarrow> queue_db \<Rightarrow> py_error + (enqueue_result \<times> queue_db)" where
  "enqueue_task tid now a guard db =
     (if \<not> enqueue_conflict tid a db
      then Inr (\<lparr>er_task_id = tid, er_status = Queued, er_deduped = False,
                 er_existing_task_id = None, er_existing_payload = None\<rparr>,
                db\<lparr>tasks := tasks db @ [new_task tid now a]\<rparr>)
      else (case enqueue_existing a db of
              None \<Rightarrow> Inl (IntegrityError ''tasks'')
            | Some existing \<Rightarrow>
                (let payload = json_loads_default (payload_json existing) (PDict []);
                     refusal = (case guard of None \<Rightarrow> None | Some g \<Rightarrow> g payload (task_id existing))
                 in case refusal of
                      Some e \<Rightarrow> Inl e
                    | None \<Rightarrow>
                        Inr (\<lparr>er_task_id = task_id existing, er_status = status existing, er_deduped = True,
                              er_existing_task_id = Some (task_id existing), er_existing_payload = Some payload\<rparr>, db))))"

definition enqueue ::
  "string \<Rightarrow> int \<Rightarrow> enqueue_args \<Rightarrow> dedupe_guard option \<Rightarrow> queue_db \<Rightarrow> py_error + (enqueue_result \<times> queue_db)" where
  "enqueue tid now a guard db =
     (let unit_ids = enqueue_unit_ids a;
          admitted = (case ea_batch_id a of
              None \<Rightarrow> if unit_ids \<noteq> [] then Inl (ValueError ''batch_id and unit ids go together'') else Inr ()
            | Some bid \<Rightarrow>
                if unit_ids = [] then Inl (ValueError ''batch_id and unit ids go together'')
                else require_batch_units (ea_project_name a) bid unit_ids (ea_user_id a) db)
      in case admitted of
           Inl e \<Rightarrow> Inl e
         | Inr _ \<Rightarrow>
             (case enqueue_task tid now a guard db of
                Inl e \<Rightarrow> Inl e
              | Inr (res, db1) \<Rightarrow>
                  (case ea_batch_id a of
                     None \<Rightarrow> Inr (res, db1)
                   | Some bid \<Rightarrow>
                       (case add_members (map (\<lambda>u. \<lparr>bt_batch_id = bid, bt_task_id = er_task_id res,
                                                   bt_unit_id = u, bt_deduped = er_deduped res\<rparr>) unit_ids)
                               (batch_tasks db1) of
                          None \<Rightarrow> Inl (IntegrityError ''batch_tasks'')
                        | Some ms \<Rightarrow> Inr (res, db1\<lparr>batch_tasks := ms\<rparr>)))))"

definition get_active_tasks_for_resources ::
  "string \<Rightarrow> string \<Rightarrow> string list \<Rightarrow> string option \<Rightarrow> string option \<Rightarrow> string \<Rightarrow> queue_db \<Rightarrow> (string, pyval) dict list" where
  "get_active_tasks_for_resources project ttype resource_ids script rtype user db =
     (if resource_ids = [] then []
      else map task_to_dict
        (order_by (\<lambda>r. (queued_at r, task_id r))
          (filter (\<lambda>r. active_dedupe_match project user ttype script rtype r \<and> resource_id r \<in> set resource_ids)
            (tasks db))))"

subsection \<open>Claiming\<close>

definition provider_allowed :: "string list option \<Rightarrow> task \<Rightarrow> bool" where
  "provider_allowed pool_full r \<longleftrightarrow>
     (case pool_full of
        None \<Rightarrow> True
      | Some ps \<Rightarrow> ps = [] \<or> task_type r = ''reference_video''
          \<or> (case provider_id r of None \<Rightarrow> True | Some p \<Rightarrow> p \<notin> set ps))"

definition not_excluded :: "string list option \<Rightarrow> task \<Rightarrow> bool" where
  "not_excluded excl r \<longleftrightarrow> (case excl of None \<Rightarrow> True | Some xs \<Rightarrow> task_id r \<notin> set xs)"

definition dependency_ready :: "queue_db \<Rightarrow> task \<Rightarrow> bool" where
  "dependency_ready db r \<longleftrightarrow>
     (case dependency_task_id r of
        None \<Rightarrow> True
      | Some d \<Rightarrow> (case find_task (tasks db) d of None \<Rightarrow> False | Some p \<Rightarrow> status p = Succeeded))"

definition claimable :: "string \<Rightarrow> string list option \<Rightarrow> string list option \<Rightarrow> queue_db \<Rightarrow> task \<Rightarrow> bool" where
  "claimable media pool_full excl db r \<longleftrightarrow>
     status r = Queued \<and> media_type r = media \<and> provider_allowed pool_full r \<and> not_excluded excl r
     \<and> dependency_ready db r"

text \<open>The SELECT and the guarded UPDATE are separate, so that another worker can act between them.\<close>

definition claim_select :: "string \<Rightarrow> string list option \<Rightarrow> string list option \<Rightarrow> queue_db \<Rightarrow> string option" where
  "claim_select media pool_full excl db =
     (case order_by queued_at (filter (claimable media pool_full excl db) (tasks db)) of
        [] \<Rightarrow> None
      | r # _ \<Rightarrow> Some (task_id r))"

definition claim_update :: "string \<Rightarrow> int \<Rightarrow> queue_db \<Rightarrow> (string, pyval) dict option \<times> queue_db" where
  "claim_update tid now db =
     (case update_task tid (\<lambda>r. status r = Queued)
             (\<lambda>r. r\<lparr>status := Running, started_at := Some now, updated_at := now\<rparr>) db of
        (n, db1) \<Rightarrow>
          if n = 0 then (None, db)
          else (map_option task_to_dict (find_task (tasks db1) tid), db1))"

definition claim_next ::
  "string \<Rightarrow> string list option \<Rightarrow> string list option \<Rightarrow> int \<Rightarrow> queue_db \<Rightarrow> (string, pyval) dict option \<times> queue_db" where
  "claim_next media pool_full excl now db =
     (case claim_select media pool_full excl db of
        None \<Rightarrow> (None, db)
      | Some tid \<Rightarrow> claim_update tid now db)"

subsection \<open>Finishing\<close>

definition mark_succeeded :: "string \<Rightarrow> (string, pyval) dict option \<Rightarrow> int \<Rightarrow> queue_db \<Rightarrow> nat \<times> queue_db" where
  "mark_succeeded tid result now db =
     (case update_task tid (\<lambda>r. status r = Running)
             (\<lambda>r. r\<lparr>status := Succeeded, result_json := Some (json_dumps (PDict (coalesce result []))),
                    error_message := None, finished_at := Some now, updated_at := now\<rparr>) db of
        (n, db1) \<Rightarrow> if n = 0 then (0, db) else (n, event_of_row tid Succeeded db1))"

text \<open>The one update behind both ways a task fails; \<open>from\<close> is the status its guard asks for.\<close>

definition fail_task :: "task_status \<Rightarrow> string \<Rightarrow> string \<Rightarrow> int \<Rightarrow> queue_db \<Rightarrow> nat \<times> queue_db" where
  "fail_task from_status tid message now db =
     (case update_task tid (\<lambda>r. status r = from_status)
             (\<lambda>r. r\<lparr>status := Failed, error_message := Some (bound_reason message MAX_ERROR_MESSAGE_LEN),
                    finished_at := Some now, updated_at := now\<rparr>) db of
        (n, db1) \<Rightarrow> if n = 0 then (0, db) else (n, event_of_row tid Failed db1))"

definition mark_failed_running :: "string \<Rightarrow> string \<Rightarrow> int \<Rightarrow> queue_db \<Rightarrow> nat \<times> queue_db" where
  "mark_failed_running = fail_task Running"

definition mark_failed_queued_dep :: "string \<Rightarrow> string \<Rightarrow> int \<Rightarrow> queue_db \<Rightarrow> nat \<times> queue_db" where
  "mark_failed_queued_dep = fail_task Queued"

definition queued_dependents :: "string \<Rightarrow> queue_db \<Rightarrow> task list" where
  "queued_dependents tid db =
     order_by queued_at (filter (\<lambda>r. dependency_task_id r = Some tid \<and> status r = Queued) (tasks db))"

text \<open>A loop over a list that stops when its body runs out of fuel.\<close>

fun fold_opt :: "('a \<Rightarrow> 's \<Rightarrow> 's option) \<Rightarrow> 'a list \<Rightarrow> 's \<Rightarrow> 's option" where
  "fold_opt f [] s = Some s"
| "fold_opt f (x # xs) s = (case f x s of None \<Rightarrow> None | Some s' \<Rightarrow> fold_opt f xs s')"

primrec cascade_failed_queued ::
  "nat \<Rightarrow> string \<Rightarrow> string \<Rightarrow> int \<Rightarrow> queue_db \<Rightarrow> (nat \<times> queue_db) option" where
  "cascade_failed_queued 0 tid message now db = None"
| "cascade_failed_queued (Suc fuel) tid message now db =
     fold_opt
       (\<lambda>dep_id (cascaded, db1).
          case mark_failed_queued_dep dep_id (encode_bounded_cascade_failure tid message) now db1 of
            (affected, db2) \<Rightarrow>
              if affected = 0 then Some (cascaded, db1)
              else (case cascade_failed_queued fuel dep_id message now db2 of
                      None \<Rightarrow> None
                    | Some (below, db3) \<Rightarrow> Some (cascaded + affected + below, db3)))
       (map task_id (queued_dependents tid db)) (0, db)"

definition mark_failed :: "string \<Rightarrow> string \<Rightarrow> int \<Rightarrow> queue_db \<Rightarrow> py_error + (nat \<times> queue_db)" where
  "mark_failed tid message now db =
     (case mark_failed_running tid message now db of
        (affected, db1) \<Rightarrow>
          if affected = 0 then Inr (0, db)
          else (case cascade_failed_queued (Suc (length (tasks db1))) tid message now db1 of
                  None \<Rightarrow> Inl (RuntimeError ''maximum recursion depth exceeded'')
                | Some (_, db2) \<Rightarrow> Inr (affected, db2)))"

subsection \<open>Cancelling\<close>

definition cancellable :: "task \<Rightarrow> bool" where
  "cancellable r \<longleftrightarrow> status r \<in> {Queued, Cancelling, Running}"

text \<open>The three lists of the response, filled while the cascade runs.\<close>

record cancel_acc =
  ca_cancelled :: "(string, pyval) dict list"
  ca_cancelling :: "string list"
  ca_skipped_terminal :: "(string, pyval) dict list"

definition empty_acc :: cancel_acc where
  "empty_acc = \<lparr>ca_cancelled = [], ca_cancelling = [], ca_skipped_terminal = []\<rparr>"

definition mark_cancelling :: "string \<Rightarrow> string \<Rightarrow> int \<Rightarrow> queue_db \<Rightarrow> nat \<times> queue_db" where
  "mark_cancelling tid cancelled_by' now db =
     update_task tid (\<lambda>r. status r = Running)
       (\<lambda>r. r\<lparr>status := Cancelling, cancelled_by := Some cancelled_by', updated_at := now\<rparr>) db"

definition cancelled_row :: "string \<Rightarrow> int \<Rightarrow> task \<Rightarrow> task" where
  "cancelled_row cancelled_by' now r =
     r\<lparr>status := Cancelled,
       cancelled_by := Some (coalesce (cancelled_by r) cancelled_by'),
       finished_at := Some now, updated_at := now\<rparr>"

definition dependents :: "string \<Rightarrow> queue_db \<Rightarrow> task list" where
  "dependents tid db = order_by queued_at (filter (\<lambda>r. dependency_task_id r = Some tid) (tasks db))"

text \<open>
  Dispatch on the status the row was read with. The first argument is the cascading
  cancellation of a queued task, the recursive call. When the guarded update of a running task
  hits no row, the row is read again and reported by what it has become.
\<close>

definition dispatch_with ::
  "(string \<Rightarrow> cancel_acc \<times> queue_db \<Rightarrow> (cancel_acc \<times> queue_db) option)
    \<Rightarrow> string \<Rightarrow> int \<Rightarrow> task \<Rightarrow> cancel_acc \<times> queue_db \<Rightarrow> (cancel_acc \<times> queue_db) option" where
  "dispatch_with mark cancelled_by' now row s =
     (case s of (acc, db) \<Rightarrow>
        (if status row = Queued then mark (task_id row) (acc, db)
         else if status row = Running then
           (case mark_cancelling (task_id row) cancelled_by' now db of
              (affected, db1) \<Rightarrow>
                if 0 < affected
                then Some (acc\<lparr>ca_cancelling := ca_cancelling acc @ [task_id row]\<rparr>, db1)
                else (case find_task (tasks db) (task_id row) of
                        None \<Rightarrow> Some (acc, db)
                      | Some fresh \<Rightarrow>
                          if status fresh = Cancelling
                          then Some (acc\<lparr>ca_cancelling := ca_cancelling acc @ [task_id row]\<rparr>, db)
                          else if terminal (status fresh)
                          then Some (acc\<lparr>ca_skipped_terminal := ca_skipped_terminal acc @ [task_to_dict fresh]\<rparr>, db)
                          else Some (acc, db)))
         else if status row = Cancelling then Some (acc, db)
         else Some (acc\<lparr>ca_skipped_terminal := ca_skipped_terminal acc @ [task_to_dict row]\<rparr>, db)))"

text \<open>
  \<open>_mark_cancelled\<close> with its cascade over the direct dependents. Each dependent is looked at
  with the status it has when its turn comes, as the session's objects are.
\<close>

primrec mark_cancelled ::
  "nat \<Rightarrow> string \<Rightarrow> int \<Rightarrow> string \<Rightarrow> cancel_acc \<times> queue_db \<Rightarrow> (cancel_acc \<times> queue_db) option" where
  "mark_cancelled 0 cancelled_by' now tid s = None"
| "mark_cancelled (Suc fuel) cancelled_by' now tid s =
     (case s of (acc, db) \<Rightarrow>
        (case update_task tid cancellable (cancelled_row cancelled_by' now) db of
           (n, db1) \<Rightarrow>
             if n = 0 then Some (acc, db)
             else
               (let acc1 = (case find_task (tasks db1) tid of
                              None \<Rightarrow> acc
                            | Some r \<Rightarrow> acc\<lparr>ca_cancelled := ca_cancelled acc @ [task_to_dict r]\<rparr>);
                    db2 = event_of_row tid Cancelled db1
                in fold_opt
                     (\<lambda>dep s1.
                        case find_task (tasks (snd s1)) dep of
                          None \<Rightarrow> Some s1
                        | Some row \<Rightarrow> dispatch_with (mark_cancelled fuel ''cascade'' now) ''cascade'' now row s1)
                     (map task_id (dependents tid db2)) (acc1, db2))))"

definition cancel_fuel :: "queue_db \<Rightarrow> nat" where
  "cancel_fuel db = Suc (length (tasks db))"

definition cancel_task :: "string \<Rightarrow> int \<Rightarrow> queue_db \<Rightarrow> py_error + (cancel_acc \<times> queue_db)" where
  "cancel_task tid now db =
     (case find_task (tasks db) tid of
        None \<Rightarrow> Inl (ValueError ''task does not exist'')
      | Some row \<Rightarrow>
          (case dispatch_with (mark_cancelled (cancel_fuel db) ''user'' now) ''user'' now row (empty_acc, db) of
             None \<Rightarrow> Inl (RuntimeError ''maximum recursion depth exceeded'')
           | Some s \<Rightarrow> Inr s))"

text \<open>The worker's settlement: one row or none, and the running dependents that must be signalled.\<close>

definition finalize_cancelled ::
  "string \<Rightarrow> string \<Rightarrow> int \<Rightarrow> queue_db \<Rightarrow> py_error + ((nat \<times> string list) \<times> queue_db)" where
  "finalize_cancelled tid cancelled_by' now db =
     (case mark_cancelled (cancel_fuel db) cancelled_by' now tid (empty_acc, db) of
        None \<Rightarrow> Inl (RuntimeError ''maximum recursion depth exceeded'')
      | Some (acc, db1) \<Rightarrow>
          Inr ((if \<exists>r \<in> set (tasks db). task_id r = tid \<and> cancellable r then 1 else 0, ca_cancelling acc), db1))"

primrec collect_queued_dependents :: "nat \<Rightarrow> string \<Rightarrow> queue_db \<Rightarrow> task list option" where
  "collect_queued_dependents 0 tid db = None"
| "collect_queued_dependents (Suc fuel) tid db =
     fold_opt
       (\<lambda>row found. map_option (\<lambda>below. found @ row # below) (collect_queued_dependents fuel (task_id row) db))
       (queued_dependents tid db) []"

text \<open>The summaries of the preview are the task rows themselves, of which the code shows three columns.\<close>

definition get_cancel_preview :: "nat \<Rightarrow> string \<Rightarrow> queue_db \<Rightarrow> py_error + (task \<times> task list)" where
  "get_cancel_preview fuel tid db =
     (case find_task (tasks db) tid of
        None \<Rightarrow> Inl (ValueError ''task does not exist'')
      | Some row \<Rightarrow>
          (case collect_queued_dependents fuel tid db of
             None \<Rightarrow> Inl (RuntimeError ''maximum recursion depth exceeded'')
           | Some cascaded \<Rightarrow> Inr (row, cascaded)))"

definition get_cancel_all_preview :: "string \<Rightarrow> queue_db \<Rightarrow> nat" where
  "get_cancel_all_preview project db =
     count_rows (tasks db) (\<lambda>r. project_name r = project \<and> status r = Queued)"

definition cancel_all_queued :: "string \<Rightarrow> int \<Rightarrow> queue_db \<Rightarrow> (nat \<times> nat) \<times> queue_db" where
  "cancel_all_queued project now db =
     (let hit = (\<lambda>r. project_name r = project \<and> status r = Queued);
          queued_tasks = filter hit (tasks db);
          cancelled_count = count_rows (tasks db) hit;
          db1 = db\<lparr>tasks := update_rows (tasks db) hit
                   (\<lambda>r. r\<lparr>status := Cancelled, cancelled_by := Some ''user'', finished_at := Some now,
                          updated_at := now\<rparr>)\<rparr>;
          refreshed = filter (\<lambda>r. task_id r \<in> task_id ` set queued_tasks \<and> status r = Cancelled) (tasks db1);
          db2 = fold (\<lambda>r d. record_terminal_event (task_id r) project Cancelled (Some (task_type r)) d)
                  refreshed db1
      in ((cancelled_count, nat (max 0 (int (length queued_tasks) - int cancelled_count))), db2))"

subsection \<open>Requeueing and the facts of a submission\<close>

definition requeue_running :: "int \<Rightarrow> int \<Rightarrow> queue_db \<Rightarrow> nat \<times> queue_db" where
  "requeue_running limit now db =
     (let lim = nat (max 1 (min 5000 limit));
          task_ids = map task_id (take lim (order_by updated_at (filter (\<lambda>r. status r = Running) (tasks db))))
      in if task_ids = [] then (0, db)
         else
           (let db1 = db\<lparr>tasks := update_rows (tasks db) (\<lambda>r. task_id r \<in> set task_ids \<and> status r = Running)
                    (\<lambda>r. r\<lparr>status := Queued, started_at := None, finished_at := None, updated_at := now,
                           result_json := None, error_message := None\<rparr>)\<rparr>
            in (count_rows (tasks db1) (\<lambda>r. task_id r \<in> set task_ids \<and> status r = Queued), db1)))"

definition persist_provider_job_id ::
  "string \<Rightarrow> string \<Rightarrow> string option \<Rightarrow> string option \<Rightarrow> int \<Rightarrow> queue_db \<Rightarrow> queue_db" where
  "persist_provider_job_id tid job_id endpoint base_url now db =
     snd (update_task tid (\<lambda>r. True)
       (\<lambda>r. r\<lparr>provider_job_id := Some job_id, updated_at := now,
              provider_endpoint := (case endpoint of None \<Rightarrow> provider_endpoint r | Some e \<Rightarrow> Some e),
              submitted_base_url := (case base_url of None \<Rightarrow> submitted_base_url r | Some u \<Rightarrow> Some u)\<rparr>) db)"

definition checkpoint_guard :: "task \<Rightarrow> bool" where
  "checkpoint_guard r \<longleftrightarrow>
     task_type r \<in> {''video'', ''reference_video''} \<and> status r = Running
     \<and> execution_checkpoint_json r = None \<and> provider_job_id r = None"

definition persist_execution_checkpoint ::
  "string \<Rightarrow> string \<Rightarrow> string \<Rightarrow> int \<Rightarrow> queue_db \<Rightarrow> py_error + queue_db" where
  "persist_execution_checkpoint tid checkpoint_json provider now db =
     (case update_task tid checkpoint_guard
             (\<lambda>r. r\<lparr>execution_checkpoint_json := Some checkpoint_json, provider_id := Some provider,
                    updated_at := now\<rparr>) db of
        (n, db1) \<Rightarrow> if n \<noteq> 1 then Inl (ValueError ''execution checkpoint persistence guard'') else Inr db1)"

definition merge_payload_field :: "string \<Rightarrow> string \<Rightarrow> pyval \<Rightarrow> bool \<Rightarrow> int \<Rightarrow> queue_db \<Rightarrow> py_error + queue_db" where
  "merge_payload_field tid key value raise_if_missing now db =
     (case find_task (tasks db) tid of
        None \<Rightarrow> if raise_if_missing then Inl (ValueError ''task not found'') else Inr db
      | Some row \<Rightarrow>
          (let data = (case json_loads_default (payload_json row) (PDict []) of PDict d \<Rightarrow> d | _ \<Rightarrow> []);
               text = json_dumps (PDict (dict_set data key value))
           in case update_task tid (\<lambda>r. True) (\<lambda>r. r\<lparr>payload_json := Some text, updated_at := now\<rparr>) db of
                (n, db1) \<Rightarrow>
                  if raise_if_missing \<and> n = 0 then Inl (ValueError ''task not found'') else Inr db1))"

definition persist_api_call_id :: "string \<Rightarrow> int \<Rightarrow> int \<Rightarrow> queue_db \<Rightarrow> py_error + queue_db" where
  "persist_api_call_id tid call_id now db = merge_payload_field tid ''api_call_id'' (PInt call_id) True now db"

definition persist_execution_provider_id :: "string \<Rightarrow> string \<Rightarrow> int \<Rightarrow> queue_db \<Rightarrow> queue_db" where
  "persist_execution_provider_id tid provider now db =
     snd (update_task tid (\<lambda>r. True) (\<lambda>r. r\<lparr>provider_id := Some provider, updated_at := now\<rparr>) db)"

subsection \<open>Reading\<close>

definition list_orphan_tasks_on_start :: "queue_db \<Rightarrow> (string, pyval) dict list" where
  "list_orphan_tasks_on_start db =
     map task_to_dict (order_by updated_at (filter (\<lambda>r. status r \<in> {Running, Cancelling}) (tasks db)))"

definition get_task :: "string \<Rightarrow> queue_db \<Rightarrow> (string, pyval) dict option" where
  "get_task tid db = map_option task_to_dict (find_task (tasks db) tid)"

record task_filter =
  tf_project_name :: "string option"
  tf_status :: "string option"
  tf_task_type :: "string option"
  tf_source :: "string option"

text \<open>A filter is applied only when it is given and non-empty.\<close>

definition filter_on :: "string option \<Rightarrow> string \<Rightarrow> bool" where
  "filter_on f v \<longleftrightarrow> (truthy_str f \<longrightarrow> f = Some v)"

definition matches_filter :: "task_filter \<Rightarrow> task \<Rightarrow> bool" where
  "matches_filter f r \<longleftrightarrow>
     filter_on (tf_project_name f) (project_name r) \<and> filter_on (tf_status f) (status_name (status r))
     \<and> filter_on (tf_task_type f) (task_type r) \<and> filter_on (tf_source f) (source r)"

definition listed_tasks :: "task_filter \<Rightarrow> queue_db \<Rightarrow> task list" where
  "listed_tasks f db =
     order_by (\<lambda>r. (- updated_at r, - queued_at r)) (filter (matches_filter f) (tasks db))"

record task_page =
  tp_items :: "(string, pyval) dict list"
  tp_total :: nat
  tp_page :: int
  tp_page_size :: int

definition list_tasks :: "task_filter \<Rightarrow> int \<Rightarrow> int \<Rightarrow> queue_db \<Rightarrow> task_page" where
  "list_tasks f page page_size db =
     (let pg = max 1 page;
          size = max 1 (min 500 page_size);
          offset = (pg - 1) * size
      in \<lparr>tp_items = map task_to_dict (take (nat size) (drop (nat offset) (listed_tasks f db))),
          tp_total = count_rows (tasks db) (matches_filter f),
          tp_page = pg,
          tp_page_size = size\<rparr>)"

definition all_statuses :: "task_status list" where
  "all_statuses = [Queued, Running, Cancelling, Succeeded, Failed, Cancelled]"

definition get_stats :: "string option \<Rightarrow> queue_db \<Rightarrow> (string, nat) dict" where
  "get_stats project db =
     (let rows = filter (\<lambda>r. filter_on project (project_name r)) (tasks db)
      in map (\<lambda>s. (status_name s, count_rows rows (\<lambda>r. status r = s))) all_statuses
         @ [(''total'', length rows)])"

subsection \<open>Worker leases\<close>

definition acquire_or_renew_lease ::
  "string \<Rightarrow> string \<Rightarrow> rat \<Rightarrow> rat \<Rightarrow> int \<Rightarrow> queue_db \<Rightarrow> bool \<times> queue_db" where
  "acquire_or_renew_lease name owner ttl now_epoch now db =
     (let lease_until = now_epoch + max 1 ttl;
          renewable = (\<lambda>l. wl_name l = name \<and> (wl_owner_id l = owner \<or> wl_lease_until l \<le> now_epoch))
      in if 0 < count_rows (leases db) renewable
         then (True, db\<lparr>leases := update_rows (leases db) renewable
                 (\<lambda>l. l\<lparr>wl_owner_id := owner, wl_lease_until := lease_until, wl_updated_at := now\<rparr>)\<rparr>)
         else if name \<in> wl_name ` set (leases db) then (False, db)
         else (True, db\<lparr>leases := leases db @
                 [\<lparr>wl_name = name, wl_owner_id = owner, wl_lease_until = lease_until, wl_updated_at = now\<rparr>]\<rparr>))"

definition release_lease :: "string \<Rightarrow> string \<Rightarrow> queue_db \<Rightarrow> queue_db" where
  "release_lease name owner db =
     db\<lparr>leases := filter (\<lambda>l. \<not> (wl_name l = name \<and> wl_owner_id l = owner)) (leases db)\<rparr>"

definition get_worker_lease :: "string \<Rightarrow> queue_db \<Rightarrow> worker_lease option" where
  "get_worker_lease name db = find (\<lambda>l. wl_name l = name) (leases db)"

definition is_worker_online :: "string \<Rightarrow> rat \<Rightarrow> queue_db \<Rightarrow> bool" where
  "is_worker_online name now_epoch db =
     (case get_worker_lease name db of None \<Rightarrow> False | Some l \<Rightarrow> now_epoch < wl_lease_until l)"

end
