(* ===== verification/Task_Evolution.thy ===== *)
theory Task_Evolution
  imports Task_Repo
begin

text \<open>
  How one operation of the repository may change the rows of the task table: the identifying
  columns stay, the status follows the edges the operation is allowed, the outcome columns of
  a finished task stay, and the collected terminal events name exactly the tasks that finished.
  This relation (\<open>moves\<close>) is reflexive and transitive for edges that compose, so the cascades,
  which are folds of single steps, satisfy it by the lemma of the interface \<open>state_preorder\<close>.
\<close>

subsection \<open>Rows\<close>

type_synonym edges = "task_status \<Rightarrow> task_status \<Rightarrow> bool"

definition same_identity :: "task \<Rightarrow> task \<Rightarrow> bool" where
  "same_identity r r' \<longleftrightarrow>
     task_id r' = task_id r \<and> batch_id r' = batch_id r \<and> project_name r' = project_name r
     \<and> task_type r' = task_type r \<and> media_type r' = media_type r \<and> resource_id r' = resource_id r
     \<and> resource_type r' = resource_type r \<and> script_file r' = script_file r \<and> source r' = source r
     \<and> dependency_task_id r' = dependency_task_id r \<and> queued_at r' = queued_at r \<and> user_id r' = user_id r"

definition same_outcome :: "task \<Rightarrow> task \<Rightarrow> bool" where
  "same_outcome r r' \<longleftrightarrow>
     finished_at r' = finished_at r \<and> result_json r' = result_json r \<and> error_message r' = error_message r
     \<and> cancelled_by r' = cancelled_by r"

text \<open>Which columns are filled in which status.\<close>

definition row_ok :: "task \<Rightarrow> bool" where
  "row_ok r \<longleftrightarrow>
     (finished_at r \<noteq> None \<longleftrightarrow> terminal (status r))
     \<and> (result_json r \<noteq> None \<longleftrightarrow> status r = Succeeded)
     \<and> (error_message r \<noteq> None \<longleftrightarrow> status r = Failed)
     \<and> (cancelled_by r \<noteq> None \<longleftrightarrow> status r = Cancelling \<or> status r = Cancelled)
     \<and> (status r = Queued \<longrightarrow> started_at r = None)
     \<and> (status r \<in> {Running, Cancelling, Succeeded} \<longrightarrow> started_at r \<noteq> None)"

definition row_moves :: "edges \<Rightarrow> task \<Rightarrow> task \<Rightarrow> bool" where
  "row_moves E r r' \<longleftrightarrow>
     same_identity r r' \<and> (status r' = status r \<or> E (status r) (status r'))
     \<and> (terminal (status r) \<longrightarrow> status r' = status r \<and> same_outcome r r')
     \<and> (row_ok r \<longrightarrow> row_ok r')
     \<and> (execution_checkpoint_json r \<noteq> None \<longrightarrow> execution_checkpoint_json r' = execution_checkpoint_json r)"

lemma row_moves_refl [simp]: "row_moves E r r"
  by (simp add: row_moves_def same_identity_def same_outcome_def)

definition composes :: "edges \<Rightarrow> bool" where
  "composes E \<longleftrightarrow> (\<forall>s t u. E s t \<longrightarrow> E t u \<longrightarrow> E s u)"

lemma row_moves_trans:
  assumes "composes E" and "row_moves E r r'" and "row_moves E r' r''"
  shows "row_moves E r r''"
proof -
  have "same_identity r r''" using assms(2,3) by (simp add: row_moves_def same_identity_def)
  moreover have "status r'' = status r \<or> E (status r) (status r'')"
    using assms unfolding row_moves_def composes_def by metis
  moreover have "terminal (status r) \<longrightarrow> status r'' = status r \<and> same_outcome r r''"
    using assms(2,3) by (simp add: row_moves_def same_outcome_def)
  moreover have "row_ok r \<longrightarrow> row_ok r''" using assms(2,3) by (simp add: row_moves_def)
  moreover have "execution_checkpoint_json r \<noteq> None \<longrightarrow> execution_checkpoint_json r'' = execution_checkpoint_json r"
    using assms(2,3) by (simp add: row_moves_def)
  ultimately show ?thesis by (simp add: row_moves_def)
qed

lemma row_moves_id: "row_moves E r r' \<Longrightarrow> task_id r' = task_id r"
  by (simp add: row_moves_def same_identity_def)

lemma row_moves_weaken: "row_moves E r r' \<Longrightarrow> (\<And>s t. E s t \<Longrightarrow> F s t) \<Longrightarrow> row_moves F r r'"
  by (auto simp: row_moves_def)

subsection \<open>Tables\<close>

definition table_moves :: "edges \<Rightarrow> queue_db \<Rightarrow> queue_db \<Rightarrow> bool" where
  "table_moves E db db' \<longleftrightarrow>
     list_all2 (row_moves E) (tasks db) (tasks db') \<and> batches db' = batches db
     \<and> batch_tasks db' = batch_tasks db \<and> leases db' = leases db"

lemma table_moves_refl [simp]: "table_moves E db db"
  by (simp add: table_moves_def list_all2_same)

lemma table_moves_trans:
  assumes "composes E" and "table_moves E a b" and "table_moves E b c"
  shows "table_moves E a c"
proof -
  have "list_all2 (row_moves E) (tasks a) (tasks b)" "list_all2 (row_moves E) (tasks b) (tasks c)"
    using assms(2,3) by (simp_all add: table_moves_def)
  then have "list_all2 (row_moves E) (tasks a) (tasks c)"
    by (rule list_all2_trans [rotated]) (rule row_moves_trans [OF assms(1)])
  with assms(2,3) show ?thesis by (simp add: table_moves_def)
qed

lemma table_moves_ids: "table_moves E db db' \<Longrightarrow> map task_id (tasks db') = map task_id (tasks db)"
  unfolding table_moves_def
  by (rule nth_equalityI) (auto simp: list_all2_conv_all_nth row_moves_id)

lemma list_all2_find:
  assumes "list_all2 (row_moves E) ts ts'"
  shows "rel_option (row_moves E) (find_task ts i) (find_task ts' i)"
  using assms by (induction rule: list_all2_induct) (auto simp: find_task_def dest: row_moves_id)

lemma table_moves_find:
  assumes "table_moves E db db'"
  shows "rel_option (row_moves E) (find_task (tasks db) i) (find_task (tasks db') i)"
  using assms by (auto simp: table_moves_def intro: list_all2_find)

lemma table_moves_some:
  assumes "table_moves E db db'" and "find_task (tasks db) i = Some r"
  obtains r' where "find_task (tasks db') i = Some r'" "row_moves E r r'"
  using table_moves_find [OF assms(1), of i] assms(2) by (cases "find_task (tasks db') i") auto

lemma table_moves_back:
  assumes "table_moves E db db'" and "r' \<in> set (tasks db')"
  obtains r where "r \<in> set (tasks db)" "row_moves E r r'"
  using assms unfolding table_moves_def by (metis in_set_conv_nth list_all2_conv_all_nth)

lemma table_moves_forth:
  assumes "table_moves E db db'" and "r \<in> set (tasks db)"
  obtains r' where "r' \<in> set (tasks db')" "row_moves E r r'"
  using assms unfolding table_moves_def by (metis in_set_conv_nth list_all2_conv_all_nth)

subsection \<open>Terminal events\<close>

text \<open>Task \<open>i\<close> was not finished before and has ended in the terminal status \<open>s\<close>.\<close>

definition newly :: "queue_db \<Rightarrow> queue_db \<Rightarrow> string \<Rightarrow> task_status \<Rightarrow> bool" where
  "newly db db' i s \<longleftrightarrow>
     terminal s \<and>
     (case (find_task (tasks db) i, find_task (tasks db') i) of
        (Some r, Some r') \<Rightarrow> \<not> terminal (status r) \<and> status r' = s
      | _ \<Rightarrow> False)"

definition accounts :: "queue_db \<Rightarrow> queue_db \<Rightarrow> bool" where
  "accounts db db' \<longleftrightarrow>
     (\<exists>evs. terminal_events db' = terminal_events db @ evs \<and> distinct (map te_task_id evs)
        \<and> (\<forall>i s. (\<exists>e \<in> set evs. te_task_id e = i \<and> te_status e = s) \<longleftrightarrow> newly db db' i s))"

lemma newly_trans:
  assumes "table_moves E a b" and "table_moves F b c"
  shows "newly a c i s \<longleftrightarrow> newly a b i s \<or> newly b c i s"
proof (cases "find_task (tasks a) i")
  case None
  then show ?thesis
    using table_moves_find [OF assms(1), of i] by (auto simp: newly_def split: option.splits)
next
  case (Some r)
  with assms(1) obtain r' where r': "find_task (tasks b) i = Some r'" "row_moves E r r'"
    by (rule table_moves_some)
  with assms(2) obtain r'' where r'': "find_task (tasks c) i = Some r''" "row_moves F r' r''"
    by (metis table_moves_some)
  with Some r' show ?thesis by (auto simp: newly_def row_moves_def)
qed

lemma accounts_refl [simp]: "accounts db db"
  by (rule exI [of _ "[]", THEN accounts_def [THEN iffD2]]) (auto simp: newly_def split: option.splits)

lemma accounts_trans:
  assumes "table_moves E a b" and "table_moves F b c" and "accounts a b" and "accounts b c"
  shows "accounts a c"
proof -
  obtain es where es: "terminal_events b = terminal_events a @ es" "distinct (map te_task_id es)"
    "\<And>i s. (\<exists>e \<in> set es. te_task_id e = i \<and> te_status e = s) \<longleftrightarrow> newly a b i s"
    using assms(3) unfolding accounts_def by blast
  obtain fs where fs: "terminal_events c = terminal_events b @ fs" "distinct (map te_task_id fs)"
    "\<And>i s. (\<exists>e \<in> set fs. te_task_id e = i \<and> te_status e = s) \<longleftrightarrow> newly b c i s"
    using assms(4) unfolding accounts_def by blast
  have "te_task_id e \<noteq> te_task_id f" if "e \<in> set es" "f \<in> set fs" for e f
  proof
    assume eq: "te_task_id e = te_task_id f"
    have "newly a b (te_task_id f) (te_status e)" using es(3) that(1) eq by blast
    moreover have "newly b c (te_task_id f) (te_status f)" using fs(3) that(2) by blast
    ultimately show False by (auto simp: newly_def split: option.splits)
  qed
  then have "distinct (map te_task_id (es @ fs))"
    using es(2) fs(2) by (auto simp: distinct_map)
  moreover have "(\<exists>e \<in> set (es @ fs). te_task_id e = i \<and> te_status e = s) \<longleftrightarrow> newly a c i s" for i s
    using es(3) [of i s] fs(3) [of i s] newly_trans [OF assms(1,2), of i s] by auto
  moreover have "terminal_events c = terminal_events a @ es @ fs" using es(1) fs(1) by simp
  ultimately show ?thesis unfolding accounts_def by blast
qed

subsection \<open>Moves of the database\<close>

definition moves :: "edges \<Rightarrow> queue_db \<Rightarrow> queue_db \<Rightarrow> bool" where
  "moves E db db' \<longleftrightarrow> table_moves E db db' \<and> accounts db db'"

text \<open>The interface of a relation that the state of a loop satisfies step by step.\<close>

locale state_preorder =
  fixes R :: "'s \<Rightarrow> 's \<Rightarrow> bool"
  assumes R_refl: "R s s"
    and R_trans: "R s t \<Longrightarrow> R t u \<Longrightarrow> R s u"
begin

lemma fold_opt_R:
  assumes "\<And>x s s'. f x s = Some s' \<Longrightarrow> R s s'" and "fold_opt f xs s = Some s'"
  shows "R s s'"
  using assms(2)
proof (induction xs arbitrary: s)
  case (Cons x xs)
  then show ?case using assms(1) R_trans by (fastforce split: option.splits)
qed (simp add: R_refl)

end

lemma moves_refl [simp]: "moves E db db"
  by (simp add: moves_def)

lemma moves_trans: "composes E \<Longrightarrow> moves E a b \<Longrightarrow> moves E b c \<Longrightarrow> moves E a c"
  unfolding moves_def by (blast intro: table_moves_trans accounts_trans)

lemma moves_weaken: "moves E a b \<Longrightarrow> (\<And>s t. E s t \<Longrightarrow> F s t) \<Longrightarrow> moves F a b"
  unfolding moves_def table_moves_def by (auto elim!: list_all2_mono row_moves_weaken)

lemma moves_ids: "moves E db db' \<Longrightarrow> map task_id (tasks db') = map task_id (tasks db)"
  by (auto simp: moves_def dest: table_moves_ids)

lemma moves_some:
  assumes "moves E db db'" and "find_task (tasks db) i = Some r"
  obtains r' where "find_task (tasks db') i = Some r'" "row_moves E r r'"
  using assms by (auto simp: moves_def elim: table_moves_some)

lemma moves_back:
  assumes "moves E db db'" and "r' \<in> set (tasks db')"
  obtains r where "r \<in> set (tasks db)" "row_moves E r r'"
  using assms by (auto simp: moves_def elim: table_moves_back)

lemma moves_forth:
  assumes "moves E db db'" and "r \<in> set (tasks db)"
  obtains r' where "r' \<in> set (tasks db')" "row_moves E r r'"
  using assms by (auto simp: moves_def elim: table_moves_forth)

lemma moves_tables:
  "moves E db db' \<Longrightarrow> batches db' = batches db \<and> batch_tasks db' = batch_tasks db \<and> leases db' = leases db"
  by (simp add: moves_def table_moves_def)

subsection \<open>The edges of the operations\<close>

fun claim_edge :: edges where
  "claim_edge s t \<longleftrightarrow> s = Queued \<and> t = Running"

fun succeed_edge :: edges where
  "succeed_edge s t \<longleftrightarrow> s = Running \<and> t = Succeeded"

fun fail_edge :: edges where
  "fail_edge s t \<longleftrightarrow> (s = Running \<or> s = Queued) \<and> t = Failed"

fun cancel_edge :: edges where
  "cancel_edge s t \<longleftrightarrow> (s = Queued \<and> t = Cancelled) \<or> (s = Running \<and> t = Cancelling)"

fun settle_edge :: edges where
  "settle_edge s t \<longleftrightarrow>
     (s \<in> {Queued, Cancelling, Running} \<and> t = Cancelled) \<or> (s = Running \<and> t = Cancelling)"

fun requeue_edge :: edges where
  "requeue_edge s t \<longleftrightarrow> s = Running \<and> t = Queued"

fun no_edge :: edges where
  "no_edge s t \<longleftrightarrow> False"

text \<open>Every transition of the queue's state machine.\<close>

definition task_edge :: edges where
  "task_edge s t \<longleftrightarrow> claim_edge s t \<or> succeed_edge s t \<or> fail_edge s t \<or> settle_edge s t \<or> requeue_edge s t"

lemma composes_edges [simp]:
  "composes claim_edge" "composes succeed_edge" "composes fail_edge" "composes cancel_edge"
  "composes settle_edge" "composes requeue_edge" "composes no_edge"
  by (auto simp: composes_def)

lemma edge_task_edge:
  "claim_edge s t \<Longrightarrow> task_edge s t" "succeed_edge s t \<Longrightarrow> task_edge s t" "fail_edge s t \<Longrightarrow> task_edge s t"
  "cancel_edge s t \<Longrightarrow> task_edge s t" "settle_edge s t \<Longrightarrow> task_edge s t" "requeue_edge s t \<Longrightarrow> task_edge s t"
  "no_edge s t \<Longrightarrow> task_edge s t"
  by (auto simp: task_edge_def)

interpretation fail_moves: state_preorder "moves fail_edge"
  by unfold_locales (auto intro: moves_trans [OF composes_edges(3)])

interpretation settle_moves: state_preorder "moves settle_edge"
  by unfold_locales (auto intro: moves_trans [OF composes_edges(5)])

interpretation cancel_moves: state_preorder "moves cancel_edge"
  by unfold_locales (auto intro: moves_trans [OF composes_edges(4)])

subsection \<open>Single updates\<close>

lemma update_task_moves_table:
  assumes "\<And>r. g r \<Longrightarrow> row_moves E r (f r)"
  shows "table_moves E db (snd (update_task i g f db))"
  using assms by (auto simp: table_moves_def update_task_def update_rows_def list_all2_map2 list_all2_same)

lemma newly_update:
  assumes "distinct (map task_id (tasks db))" and "\<And>r. task_id (f r) = task_id r"
  shows "newly db (snd (update_task i g f db)) j s \<longleftrightarrow>
    terminal s \<and> (\<exists>r. find_task (tasks db) j = Some r \<and> \<not> terminal (status r)
      \<and> (if j = i \<and> g r then status (f r) = s else status r = s))"
  by (auto simp: newly_def update_task_def find_task_update [OF assms(2)] dest: find_task_id split: option.splits)

text \<open>An update that leaves the unfinished unfinished needs no event.\<close>

lemma update_task_moves_silent:
  assumes ids: "distinct (map task_id (tasks db))"
    and rows: "\<And>r. g r \<Longrightarrow> row_moves E r (f r)"
    and quiet: "\<And>r. g r \<Longrightarrow> \<not> terminal (status r) \<Longrightarrow> \<not> terminal (status (f r))"
    and keep: "\<And>r. task_id (f r) = task_id r"
  shows "moves E db (snd (update_task i g f db))"
proof -
  have "accounts db (snd (update_task i g f db))"
    unfolding accounts_def
    using quiet by (intro exI [of _ "[]"]) (auto simp: newly_update [OF ids keep])
  with update_task_moves_table [of g E f, OF rows] show ?thesis by (simp add: moves_def)
qed

lemma tasks_record_event [simp]:
  "tasks (record_terminal_event i p s t db) = tasks db"
  "batches (record_terminal_event i p s t db) = batches db"
  "batch_tasks (record_terminal_event i p s t db) = batch_tasks db"
  "leases (record_terminal_event i p s t db) = leases db"
  by (simp_all add: record_terminal_event_def)

lemma tasks_event_of_row [simp]:
  "tasks (event_of_row i s db) = tasks db" "batches (event_of_row i s db) = batches db"
  "batch_tasks (event_of_row i s db) = batch_tasks db" "leases (event_of_row i s db) = leases db"
  by (simp_all add: event_of_row_def split: option.splits)

text \<open>An update that finishes one task, followed by the event of that task.\<close>

lemma update_task_moves_event:
  assumes ids: "distinct (map task_id (tasks db))"
    and rows: "\<And>r. g r \<Longrightarrow> row_moves E r (f r) \<and> \<not> terminal (status r) \<and> status (f r) = s"
    and "terminal s" and keep: "\<And>r. task_id (f r) = task_id r"
    and hit: "find_task (tasks db) i = Some r" "g r"
  shows "moves E db (event_of_row i s (snd (update_task i g f db)))"
proof -
  let ?db = "snd (update_task i g f db)"
  have found: "find_task (tasks ?db) i = Some (f r)"
    using hit find_task_id [OF hit(1)] by (simp add: update_task_def find_task_update [OF keep])
  let ?e = "\<lparr>te_task_id = i, te_project_name = project_name (f r), te_status = s, te_task_type = Some (task_type (f r))\<rparr>"
  have evs: "terminal_events (event_of_row i s ?db) = terminal_events db @ [?e]"
    using found \<open>terminal s\<close> by (simp add: event_of_row_def record_terminal_event_def)
  have "newly db (event_of_row i s ?db) j t \<longleftrightarrow> newly db ?db j t" for j t
    by (simp add: newly_def)
  moreover have "newly db ?db j t \<longleftrightarrow> j = i \<and> t = s" for j t
    using rows hit \<open>terminal s\<close> by (auto simp: newly_update [OF ids keep])
  ultimately have "accounts db (event_of_row i s ?db)"
    unfolding accounts_def using evs by (intro exI [of _ "[?e]"]) auto
  moreover have "table_moves E db (event_of_row i s ?db)"
    using update_task_moves_table [of g E f db i] rows by (simp add: table_moves_def)
  ultimately show ?thesis by (simp add: moves_def)
qed

lemma update_task_hit:
  assumes "distinct (map task_id (tasks db))" and "fst (update_task i g f db) \<noteq> 0"
  obtains r where "find_task (tasks db) i = Some r" "g r"
proof -
  obtain r where "r \<in> set (tasks db)" "task_id r = i" "g r"
    using assms(2) by (auto simp: update_task_count_zero)
  with find_task_in [OF assms(1)] that show ?thesis by blast
qed

end
