(* ===== verification/Task_Cascade.thy ===== *)
theory Task_Cascade
  imports Task_Evolution
begin

text \<open>
  Each operation of the repository as a move of the database, the fuel of the two cascades, and
  what the cascades achieve: no queued task is left waiting for a task they have ended.
\<close>

subsection \<open>Single-row operations\<close>

abbreviation ids_distinct :: "queue_db \<Rightarrow> bool" where
  "ids_distinct db \<equiv> distinct (map task_id (tasks db))"

lemma claim_update_moves:
  assumes "ids_distinct db"
  shows "moves claim_edge db (snd (claim_update tid now db))"
proof -
  have "moves claim_edge db (snd (update_task tid (\<lambda>r. status r = Queued)
      (\<lambda>r. r\<lparr>status := Running, started_at := Some now, updated_at := now\<rparr>) db))"
    using assms by (rule update_task_moves_silent) (auto simp: row_moves_def same_identity_def row_ok_def)
  then show ?thesis by (auto simp: claim_update_def split: prod.splits)
qed

lemma claim_next_moves: "ids_distinct db \<Longrightarrow> moves claim_edge db (snd (claim_next media pool excl now db))"
  by (auto simp: claim_next_def split: option.splits intro: claim_update_moves)

lemma mark_succeeded_moves:
  assumes "ids_distinct db"
  shows "moves succeed_edge db (snd (mark_succeeded tid res now db))"
proof -
  let ?f = "\<lambda>r. r\<lparr>status := Succeeded, result_json := Some (json_dumps (PDict (coalesce res []))),
                 error_message := None, finished_at := Some now, updated_at := now\<rparr>"
  obtain n db1 where u: "update_task tid (\<lambda>r. status r = Running) ?f db = (n, db1)" by (rule prod.exhaust)
  show ?thesis
  proof (cases "n = 0")
    case False
    then have "fst (update_task tid (\<lambda>r. status r = Running) ?f db) \<noteq> 0" using u by simp
    then obtain r where r: "find_task (tasks db) tid = Some r" "status r = Running"
      by (rule update_task_hit [OF assms])
    have "moves succeed_edge db (event_of_row tid Succeeded (snd (update_task tid (\<lambda>r. status r = Running) ?f db)))"
      by (rule update_task_moves_event [where r = r and g = "\<lambda>r. status r = Running", OF assms])
        (use r in \<open>auto simp: row_moves_def same_identity_def row_ok_def\<close>)
    with u False show ?thesis by (simp add: mark_succeeded_def)
  qed (use u in \<open>simp add: mark_succeeded_def\<close>)
qed

lemma fail_task_moves:
  assumes "ids_distinct db" and "s = Running \<or> s = Queued"
  shows "moves fail_edge db (snd (fail_task s tid msg now db))"
proof -
  let ?f = "\<lambda>r. r\<lparr>status := Failed, error_message := Some (bound_reason msg MAX_ERROR_MESSAGE_LEN),
                 finished_at := Some now, updated_at := now\<rparr>"
  obtain n db1 where u: "update_task tid (\<lambda>r. status r = s) ?f db = (n, db1)" by (rule prod.exhaust)
  show ?thesis
  proof (cases "n = 0")
    case False
    then have "fst (update_task tid (\<lambda>r. status r = s) ?f db) \<noteq> 0" using u by simp
    then obtain r where r: "find_task (tasks db) tid = Some r" "status r = s"
      by (rule update_task_hit [OF assms(1)])
    have "moves fail_edge db (event_of_row tid Failed (snd (update_task tid (\<lambda>r. status r = s) ?f db)))"
      by (rule update_task_moves_event [where r = r and g = "\<lambda>r. status r = s", OF assms(1)])
        (use assms(2) r in \<open>auto simp: row_moves_def same_identity_def row_ok_def\<close>)
    with u False show ?thesis by (simp add: fail_task_def)
  qed (use u in \<open>simp add: fail_task_def\<close>)
qed

lemma fail_task_hit:
  assumes "ids_distinct db" and "fail_task s tid msg now db = (n, db')" and "n \<noteq> 0"
  obtains r r' where "find_task (tasks db) tid = Some r" "status r = s"
    "find_task (tasks db') tid = Some r'" "status r' = Failed"
proof -
  let ?f = "\<lambda>r. r\<lparr>status := Failed, error_message := Some (bound_reason msg MAX_ERROR_MESSAGE_LEN),
                 finished_at := Some now, updated_at := now\<rparr>"
  obtain m db1 where u: "update_task tid (\<lambda>r. status r = s) ?f db = (m, db1)" by (rule prod.exhaust)
  with assms(2,3) have m: "m \<noteq> 0" "db' = event_of_row tid Failed db1"
    by (auto simp: fail_task_def split: if_splits)
  then have "fst (update_task tid (\<lambda>r. status r = s) ?f db) \<noteq> 0" using u by simp
  then obtain r where r: "find_task (tasks db) tid = Some r" "status r = s"
    by (rule update_task_hit [OF assms(1)])
  have "tasks db1 = tasks (snd (update_task tid (\<lambda>r. status r = s) ?f db))" using u by simp
  then have "find_task (tasks db') tid = Some (?f r)"
    using r m(2) find_task_id [OF r(1)] by (simp add: update_task_def find_task_update)
  with r show ?thesis using that by simp
qed

lemma fail_task_miss:
  assumes "fail_task s tid msg now db = (0, db')"
  shows "\<forall>r \<in> set (tasks db). task_id r = tid \<longrightarrow> status r \<noteq> s"
proof -
  let ?f = "\<lambda>r. r\<lparr>status := Failed, error_message := Some (bound_reason msg MAX_ERROR_MESSAGE_LEN),
                 finished_at := Some now, updated_at := now\<rparr>"
  obtain m db1 where u: "update_task tid (\<lambda>r. status r = s) ?f db = (m, db1)" by (rule prod.exhaust)
  with assms have "m = 0" by (auto simp: fail_task_def split: if_splits)
  with u have "fst (update_task tid (\<lambda>r. status r = s) ?f db) = 0" by simp
  then show ?thesis by (simp only: update_task_count_zero)
qed

lemma fail_task_newly:
  assumes ids: "ids_distinct db" and f: "fail_task s tid msg now db = (n, db1)" and new: "newly db db1 i t"
  shows "i = tid"
proof (rule ccontr)
  assume ne: "i \<noteq> tid"
  have "find_task (tasks db1) i = find_task (tasks db) i"
  proof (cases "find_task (tasks db) i")
    case None
    have "map task_id (tasks db1) = map task_id (tasks db)"
      using f by (auto simp: fail_task_def update_task_def map_update_rows split: if_splits)
    then have "set (map task_id (tasks db1)) = set (map task_id (tasks db))" by simp
    with None show ?thesis by (simp add: find_task_None [symmetric]) (simp add: find_task_None)
  next
    case (Some r)
    with find_task_id [OF Some] ne f show ?thesis
      by (auto simp: fail_task_def update_task_def find_task_update split: if_splits)
  qed
  with new show False by (auto simp: newly_def split: option.splits)
qed

subsection \<open>The failure cascade\<close>

definition queued_count :: "queue_db \<Rightarrow> nat" where
  "queued_count db = count_rows (tasks db) (\<lambda>r. status r = Queued)"

text \<open>No edge leads into \<open>Queued\<close>, so a move never adds a queued task.\<close>

definition no_requeue :: "edges \<Rightarrow> bool" where
  "no_requeue E \<longleftrightarrow> (\<forall>s. \<not> E s Queued)"

lemma no_requeue_edges [simp]:
  "no_requeue fail_edge" "no_requeue cancel_edge" "no_requeue settle_edge" "no_requeue claim_edge"
  by (auto simp: no_requeue_def)

lemma moves_queued_back:
  assumes "moves E db db'" and "no_requeue E" and "r' \<in> set (tasks db')" and "status r' = Queued"
  obtains r where "r \<in> set (tasks db)" "row_moves E r r'" "status r = Queued"
proof -
  from moves_back [OF assms(1,3)] obtain r where r: "r \<in> set (tasks db)" "row_moves E r r'" by blast
  have "status r = Queued" using r(2) assms(2,4) by (simp add: no_requeue_def row_moves_def)
  with r that show ?thesis by blast
qed

lemma list_all2_count:
  assumes "list_all2 R xs ys" and "\<And>x y. R x y \<Longrightarrow> Q y \<Longrightarrow> P x"
  shows "count_rows ys Q \<le> count_rows xs P"
  using assms(1)
proof (induction rule: list_all2_induct)
  case (Cons x xs y ys)
  have "Q y \<Longrightarrow> P x" by (rule assms(2) [OF Cons.hyps(1)])
  with Cons.IH show ?case by (auto simp: count_rows_def)
qed (simp add: count_rows_def)

lemma list_all2_count_strict:
  assumes "list_all2 R xs ys" and "\<And>x y. R x y \<Longrightarrow> Q y \<Longrightarrow> P x"
    and "x \<in> set xs" and "\<And>y. y \<in> set ys \<Longrightarrow> R x y \<Longrightarrow> \<not> Q y" and "P x"
  shows "count_rows ys Q < count_rows xs P"
  using assms(1,3,4)
proof (induction rule: list_all2_induct)
  case (Cons a xs b ys)
  have le: "count_rows ys Q \<le> count_rows xs P" using Cons.hyps(2) assms(2) by (rule list_all2_count)
  show ?case
  proof (cases "x = a")
    case True
    with Cons.prems Cons.hyps(1) assms(5) le show ?thesis by (auto simp: count_rows_def)
  next
    case False
    with Cons have "count_rows ys Q < count_rows xs P" by auto
    with assms(2) [OF Cons.hyps(1)] show ?thesis by (auto simp: count_rows_def)
  qed
qed simp

lemma moves_queued_count: "moves E db db' \<Longrightarrow> no_requeue E \<Longrightarrow> queued_count db' \<le> queued_count db"
  unfolding queued_count_def moves_def table_moves_def
  by (rule list_all2_count [of "row_moves E"]) (auto simp: row_moves_def no_requeue_def)

lemma moves_queued_count_strict:
  assumes m: "moves E db db'" and "no_requeue E" and ids: "ids_distinct db"
    and r: "find_task (tasks db) i = Some r" "status r = Queued"
    and r': "find_task (tasks db') i = Some r'" "status r' \<noteq> Queued"
  shows "queued_count db' < queued_count db"
  unfolding queued_count_def
proof (rule list_all2_count_strict [of "row_moves E"])
  show "list_all2 (row_moves E) (tasks db) (tasks db')" using m by (simp add: moves_def table_moves_def)
  show "r \<in> set (tasks db)" using r(1) by (rule find_task_mem)
  show "status r = Queued" by (rule r(2))
  show "\<And>x y. row_moves E x y \<Longrightarrow> status y = Queued \<Longrightarrow> status x = Queued"
    using assms(2) by (auto simp: row_moves_def no_requeue_def)
  fix y assume y: "y \<in> set (tasks db')" "row_moves E r y"
  have "task_id y = i" using row_moves_id [OF y(2)] find_task_id [OF r(1)] by simp
  moreover have "ids_distinct db'" using ids moves_ids [OF m] by simp
  ultimately have "y = r'" using find_task_in [of "tasks db'" y] y(1) r'(1) by simp
  with r'(2) show "status y \<noteq> Queued" by simp
qed

lemma fold_opt_total:
  assumes "\<And>x s. P s \<Longrightarrow> \<exists>s'. f x s = Some s' \<and> P s'" and "P s"
  shows "\<exists>s'. fold_opt f xs s = Some s' \<and> P s'"
  using assms(2)
proof (induction xs arbitrary: s)
  case (Cons x xs)
  from assms(1) [OF Cons.prems] obtain s' where s': "f x s = Some s'" "P s'" by blast
  from Cons.IH [OF s'(2)] s'(1) show ?case by simp
qed simp

text \<open>The body of the loop over the direct dependents.\<close>

definition fail_body :: "nat \<Rightarrow> string \<Rightarrow> string \<Rightarrow> int \<Rightarrow> string \<Rightarrow> nat \<times> queue_db \<Rightarrow> (nat \<times> queue_db) option" where
  "fail_body fuel tid msg now dep_id s =
     (case s of (cascaded, db1) \<Rightarrow>
        (case mark_failed_queued_dep dep_id (encode_bounded_cascade_failure tid msg) now db1 of
           (affected, db2) \<Rightarrow>
             if affected = 0 then Some (cascaded, db1)
             else (case cascade_failed_queued fuel dep_id msg now db2 of
                     None \<Rightarrow> None
                   | Some (below, db3) \<Rightarrow> Some (cascaded + affected + below, db3))))"

lemma cascade_failed_Suc:
  "cascade_failed_queued (Suc fuel) tid msg now db =
     fold_opt (fail_body fuel tid msg now) (map task_id (queued_dependents tid db)) (0, db)"
  by (simp add: fail_body_def [abs_def])

declare cascade_failed_queued.simps(2) [simp del]

lemma fail_body_cases:
  assumes "fail_body fuel tid msg now dep (c, d) = Some (c', d')" and "ids_distinct d"
  obtains (skip) "d' = d" "\<forall>r \<in> set (tasks d). task_id r = dep \<longrightarrow> status r \<noteq> Queued"
    | (fail) d1 n r r' where "moves fail_edge d d1" "cascade_failed_queued fuel dep msg now d1 = Some (n, d')"
      "find_task (tasks d) dep = Some r" "status r = Queued"
      "find_task (tasks d1) dep = Some r'" "status r' = Failed" "\<And>i s. newly d d1 i s \<Longrightarrow> i = dep"
proof -
  let ?m = "encode_bounded_cascade_failure tid msg"
  obtain a d1 where f: "fail_task Queued dep ?m now d = (a, d1)" by (rule prod.exhaust)
  show ?thesis
  proof (cases "a = 0")
    case True
    with assms(1) f have "d' = d" by (simp add: fail_body_def mark_failed_queued_dep_def)
    moreover have "\<forall>r \<in> set (tasks d). task_id r = dep \<longrightarrow> status r \<noteq> Queued"
      using f True by (intro fail_task_miss) simp
    ultimately show ?thesis by (rule skip)
  next
    case False
    with assms(1) f obtain n where n: "cascade_failed_queued fuel dep msg now d1 = Some (n, d')"
      by (auto simp: fail_body_def mark_failed_queued_dep_def split: option.splits)
    obtain r r' where r: "find_task (tasks d) dep = Some r" "status r = Queued"
      "find_task (tasks d1) dep = Some r'" "status r' = Failed"
      using assms(2) f False by (rule fail_task_hit)
    have "moves fail_edge d d1"
      using fail_task_moves [OF assms(2), of Queued dep ?m now] f by simp
    moreover have "\<And>i s. newly d d1 i s \<Longrightarrow> i = dep" using fail_task_newly [OF assms(2) f] .
    ultimately show ?thesis using n r by (intro fail)
  qed
qed

text \<open>Moves as a relation on the state of the loop, which also keeps the row identifiers distinct.\<close>

definition loop_moves :: "edges \<Rightarrow> 'c \<times> queue_db \<Rightarrow> 'c \<times> queue_db \<Rightarrow> bool" where
  "loop_moves E s s' \<longleftrightarrow> (ids_distinct (snd s) \<longrightarrow> moves E (snd s) (snd s'))"

lemma loop_moves_preorder: "composes E \<Longrightarrow> state_preorder (loop_moves E)"
proof
  fix s t u :: "'c \<times> queue_db"
  assume "composes E" and "loop_moves E s t" and "loop_moves E t u"
  then show "loop_moves E s u"
    unfolding loop_moves_def using moves_trans [of E "snd s" "snd t" "snd u"] moves_ids [of E "snd s" "snd t"]
    by auto
qed (simp add: loop_moves_def)

interpretation fail_loop: state_preorder "loop_moves fail_edge :: nat \<times> queue_db \<Rightarrow> nat \<times> queue_db \<Rightarrow> bool"
  by (rule loop_moves_preorder) simp

lemma cascade_failed_loop_moves:
  "cascade_failed_queued fuel tid msg now db = Some s' \<Longrightarrow> loop_moves fail_edge (0, db) s'"
proof (induction fuel arbitrary: tid db s')
  case (Suc fuel)
  have "loop_moves fail_edge s t" if "fail_body fuel tid msg now dep s = Some t" for dep s t
    unfolding loop_moves_def
  proof
    assume ids: "ids_distinct (snd s)"
    obtain c d where s: "s = (c, d)" by (cases s)
    obtain c' d' where t: "t = (c', d')" by (cases t)
    have "ids_distinct d" using ids s by simp
    from that [unfolded s t] this show "moves fail_edge (snd s) (snd t)"
    proof (cases rule: fail_body_cases)
      case (fail d1 n r r')
      have "ids_distinct d1" using \<open>ids_distinct d\<close> moves_ids [OF fail(1)] by simp
      then have "moves fail_edge d1 d'" using Suc.IH [OF fail(2)] unfolding loop_moves_def by simp
      from moves_trans [OF composes_edges(3) fail(1) this] show ?thesis by (simp add: s t)
    qed (simp add: s t)
  qed
  with Suc.prems show ?case
    unfolding cascade_failed_Suc by (rule fail_loop.fold_opt_R [rotated])
qed simp

lemma cascade_failed_moves:
  "cascade_failed_queued fuel tid msg now db = Some (n, db') \<Longrightarrow> ids_distinct db \<Longrightarrow> moves fail_edge db db'"
  using cascade_failed_loop_moves by (fastforce simp: loop_moves_def)

text \<open>Fuel: every recursive call has failed one more queued task.\<close>

lemma cascade_failed_total:
  "queued_count db < fuel \<Longrightarrow> ids_distinct db \<Longrightarrow> \<exists>s'. cascade_failed_queued fuel tid msg now db = Some s'"
proof (induction fuel arbitrary: tid db)
  case (Suc fuel)
  define P where "P s \<longleftrightarrow> queued_count (snd s) \<le> fuel \<and> ids_distinct (snd s)" for s :: "nat \<times> queue_db"
  have "\<exists>t. fail_body fuel tid msg now dep s = Some t \<and> P t" if ps: "P s" for dep s
  proof -
    obtain c d where s: "s = (c, d)" by (cases s)
    let ?m = "encode_bounded_cascade_failure tid msg"
    have ids: "ids_distinct d" and le: "queued_count d \<le> fuel" using ps s by (auto simp: P_def)
    obtain a d1 where f: "fail_task Queued dep ?m now d = (a, d1)" by (rule prod.exhaust)
    show ?thesis
    proof (cases "a = 0")
      case True
      with f ps show ?thesis by (simp add: s fail_body_def mark_failed_queued_dep_def)
    next
      case False
      obtain r r' where r: "find_task (tasks d) dep = Some r" "status r = Queued"
        "find_task (tasks d1) dep = Some r'" "status r' = Failed"
        using ids f False by (rule fail_task_hit)
      have m: "moves fail_edge d d1" using fail_task_moves [OF ids, of Queued dep ?m now] f by simp
      have ids1: "ids_distinct d1" using ids moves_ids [OF m] by simp
      have lt: "queued_count d1 < fuel"
        using moves_queued_count_strict [OF m _ ids r(1,2,3)] r(4) le by simp
      from Suc.IH [OF lt ids1] obtain b d2 where c2: "cascade_failed_queued fuel dep msg now d1 = Some (b, d2)"
        by fast
      have m2: "moves fail_edge d1 d2" using cascade_failed_moves [OF c2 ids1] .
      have "P (c + a + b, d2)"
        using lt moves_queued_count [OF m2] ids1 moves_ids [OF m2] by (simp add: P_def)
      with f False c2 show ?thesis by (simp add: s fail_body_def mark_failed_queued_dep_def)
    qed
  qed
  moreover have "P (0, db)" using Suc.prems by (simp add: P_def)
  ultimately have "\<exists>t. fold_opt (fail_body fuel tid msg now) (map task_id (queued_dependents tid db)) (0, db) = Some t \<and> P t"
    by (intro fold_opt_total)
  then show ?case unfolding cascade_failed_Suc by blast
qed simp

lemma queued_count_le: "queued_count db \<le> length (tasks db)"
  by (simp add: queued_count_def count_rows_def)

lemma mark_failed_total:
  assumes "ids_distinct db"
  obtains n db' where "mark_failed tid msg now db = Inr (n, db')"
proof -
  obtain a d1 where f: "mark_failed_running tid msg now db = (a, d1)" by (rule prod.exhaust)
  have m: "moves fail_edge db d1"
    using fail_task_moves [OF assms, of Running tid msg now] f by (simp add: mark_failed_running_def)
  have "ids_distinct d1" using assms moves_ids [OF m] by simp
  moreover have "queued_count d1 < Suc (length (tasks d1))" using queued_count_le [of d1] by simp
  ultimately obtain s where "cascade_failed_queued (Suc (length (tasks d1))) tid msg now d1 = Some s"
    using cascade_failed_total by blast
  with f have "\<exists>n db'. mark_failed tid msg now db = Inr (n, db')"
    by (cases s) (simp add: mark_failed_def)
  with that show ?thesis by blast
qed

lemma mark_failed_moves:
  assumes "ids_distinct db" and "mark_failed tid msg now db = Inr (n, db')"
  shows "moves fail_edge db db'"
proof -
  obtain a d1 where f: "mark_failed_running tid msg now db = (a, d1)" by (rule prod.exhaust)
  have m: "moves fail_edge db d1"
    using fail_task_moves [OF assms(1), of Running tid msg now] f by (simp add: mark_failed_running_def)
  have ids: "ids_distinct d1" using assms(1) moves_ids [OF m] by simp
  show ?thesis
  proof (cases "a = 0")
    case True
    with f assms(2) show ?thesis by (simp add: mark_failed_def)
  next
    case False
    with f assms(2) obtain b where "cascade_failed_queued (Suc (length (tasks d1))) tid msg now d1 = Some (b, db')"
      by (auto simp: mark_failed_def split: option.splits)
    from cascade_failed_moves [OF this ids] have m2: "moves fail_edge d1 db'" .
    from moves_trans [OF composes_edges(3) m m2] show ?thesis .
  qed
qed

end
