(* ===== verification/Task_Settle.thy ===== *)
theory Task_Settle
  imports Task_Cascade
begin

text \<open>
  What the two cascades achieve. After a failure no queued task waits for a task the operation
  has failed; after a cancellation no dependent of a task it has cancelled is queued or running.
  The cancellation cascade is shown to be a move of the database along \<open>settle_edge\<close> and to
  return within the fuel the entry points pass.
\<close>

declare fail_edge.simps [simp del] settle_edge.simps [simp del] cancel_edge.simps [simp del]

lemmas edge_defs = claim_edge.simps succeed_edge.simps fail_edge.simps cancel_edge.simps settle_edge.simps
  requeue_edge.simps no_edge.simps

subsection \<open>Loops that leave their elements settled\<close>

definition no_entry :: "edges \<Rightarrow> task_status set \<Rightarrow> bool" where
  "no_entry E S \<longleftrightarrow> (\<forall>s t. E s t \<longrightarrow> t \<notin> S)"

lemma no_entry_edges [simp]:
  "no_entry fail_edge {Queued}" "no_entry settle_edge {Queued, Running}"
  by (auto simp: no_entry_def edge_defs)

text \<open>The row \<open>i\<close>, if there is one, has none of the statuses \<open>S\<close>.\<close>

definition row_out :: "task_status set \<Rightarrow> string \<Rightarrow> queue_db \<Rightarrow> bool" where
  "row_out S i db \<longleftrightarrow> (\<forall>r \<in> set (tasks db). task_id r = i \<longrightarrow> status r \<notin> S)"

text \<open>The dependents of the task \<open>i\<close> have none of the statuses \<open>S\<close>.\<close>

definition deps_out :: "task_status set \<Rightarrow> string \<Rightarrow> queue_db \<Rightarrow> bool" where
  "deps_out S i db \<longleftrightarrow> (\<forall>r \<in> set (tasks db). dependency_task_id r = Some i \<longrightarrow> status r \<notin> S)"

definition settled :: "task_status set \<Rightarrow> task_status \<Rightarrow> queue_db \<Rightarrow> queue_db \<Rightarrow> bool" where
  "settled S s db db' \<longleftrightarrow> (\<forall>i. newly db db' i s \<longrightarrow> deps_out S i db')"

lemma row_moves_out: "row_moves E r r' \<Longrightarrow> no_entry E S \<Longrightarrow> status r \<notin> S \<Longrightarrow> status r' \<notin> S"
  by (auto simp: row_moves_def no_entry_def)

lemma row_out_moves:
  assumes "moves E db db'" and "no_entry E S" and "row_out S i db"
  shows "row_out S i db'"
  unfolding row_out_def
proof (intro ballI impI)
  fix r' assume r': "r' \<in> set (tasks db')" "task_id r' = i"
  from moves_back [OF assms(1) r'(1)] obtain r where r: "r \<in> set (tasks db)" "row_moves E r r'" by blast
  with assms(3) row_moves_id [OF r(2)] r'(2) have "status r \<notin> S" by (simp add: row_out_def)
  with r(2) assms(2) show "status r' \<notin> S" by (rule row_moves_out)
qed

lemma deps_out_moves:
  assumes "moves E db db'" and "no_entry E S" and "deps_out S i db"
  shows "deps_out S i db'"
  unfolding deps_out_def
proof (intro ballI impI)
  fix r' assume r': "r' \<in> set (tasks db')" "dependency_task_id r' = Some i"
  from moves_back [OF assms(1) r'(1)] obtain r where r: "r \<in> set (tasks db)" "row_moves E r r'" by blast
  then have "dependency_task_id r = Some i" using r'(2) by (simp add: row_moves_def same_identity_def)
  with assms(3) r(1) have "status r \<notin> S" by (simp add: deps_out_def)
  with r(2) assms(2) show "status r' \<notin> S" by (rule row_moves_out)
qed

text \<open>If every dependent of \<open>i\<close> has been dealt with, the dependents of \<open>i\<close> are settled.\<close>

lemma deps_out_listed:
  assumes m: "moves E db db'" and e: "no_entry E S"
    and listed: "\<And>r. r \<in> set (tasks db) \<Longrightarrow> dependency_task_id r = Some i \<Longrightarrow> status r \<in> S \<Longrightarrow> row_out S (task_id r) db'"
  shows "deps_out S i db'"
  unfolding deps_out_def
proof (intro ballI impI)
  fix r' assume r': "r' \<in> set (tasks db')" "dependency_task_id r' = Some i"
  from moves_back [OF m r'(1)] obtain r where r: "r \<in> set (tasks db)" "row_moves E r r'" by blast
  have dep: "dependency_task_id r = Some i" using r(2) r'(2) by (simp add: row_moves_def same_identity_def)
  show "status r' \<notin> S"
  proof (cases "status r \<in> S")
    case True
    with listed [OF r(1) dep] r'(1) row_moves_id [OF r(2)] show ?thesis by (simp add: row_out_def)
  next
    case False
    with r(2) e show ?thesis by (rule row_moves_out)
  qed
qed

lemma settled_refl [simp]: "settled S s db db"
  by (auto simp: settled_def newly_def split: option.splits)

lemma settled_trans:
  assumes "moves E a b" and "moves E b c" and "no_entry E S" and "settled S s a b" and "settled S s b c"
  shows "settled S s a c"
  unfolding settled_def
proof (intro allI impI)
  fix i assume "newly a c i s"
  then have "newly a b i s \<or> newly b c i s"
    using newly_trans assms(1,2) unfolding moves_def by blast
  then show "deps_out S i c"
    using assms(4,5) deps_out_moves [OF assms(2,3)] unfolding settled_def by blast
qed

text \<open>Moves that settle what they finish, as a relation on the state of a loop.\<close>

definition settles :: "edges \<Rightarrow> task_status set \<Rightarrow> task_status \<Rightarrow> 'c \<times> queue_db \<Rightarrow> 'c \<times> queue_db \<Rightarrow> bool" where
  "settles E S s x y \<longleftrightarrow>
     (ids_distinct (snd x) \<longrightarrow> moves E (snd x) (snd y) \<and> settled S s (snd x) (snd y))"

lemma settles_preorder:
  assumes "composes E" and "no_entry E S"
  shows "state_preorder (settles E S s)"
proof
  fix x y z :: "'c \<times> queue_db"
  assume xy: "settles E S s x y" and yz: "settles E S s y z"
  show "settles E S s x z"
    unfolding settles_def
  proof
    assume ids: "ids_distinct (snd x)"
    then have 1: "moves E (snd x) (snd y)" "settled S s (snd x) (snd y)" using xy by (simp_all add: settles_def)
    have "ids_distinct (snd y)" using ids moves_ids [OF 1(1)] by simp
    then have 2: "moves E (snd y) (snd z)" "settled S s (snd y) (snd z)" using yz by (simp_all add: settles_def)
    show "moves E (snd x) (snd z) \<and> settled S s (snd x) (snd z)"
      using moves_trans [OF assms(1) 1(1) 2(1)] settled_trans [OF 1(1) 2(1) assms(2) 1(2) 2(2)] by blast
  qed
qed (simp add: settles_def)

lemma settles_step: "settles E S s x y \<Longrightarrow> ids_distinct (snd x) \<Longrightarrow> ids_distinct (snd y)"
  using moves_ids [of E "snd x" "snd y"] by (simp add: settles_def)

lemma fold_opt_rows_out:
  assumes step: "\<And>x s s'. f x s = Some s' \<Longrightarrow> settles E S t s s'"
    and out: "\<And>x s s'. f x s = Some s' \<Longrightarrow> ids_distinct (snd s) \<Longrightarrow> row_out S x (snd s')"
    and "no_entry E S" and run: "fold_opt f xs s = Some s'" and ids: "ids_distinct (snd s)"
  shows "\<forall>x \<in> set xs. row_out S x (snd s')"
  using run ids
proof (induction xs arbitrary: s)
  case (Cons x xs)
  from Cons.prems(1) obtain s1 where s1: "f x s = Some s1" "fold_opt f xs s1 = Some s'"
    by (auto split: option.splits)
  have ids1: "ids_distinct (snd s1)" using settles_step [OF step [OF s1(1)] Cons.prems(2)] .
  have keep: "row_out S x (snd a) \<longrightarrow> row_out S x (snd b)"
    if "ids_distinct (snd a)" "fold_opt f ys a = Some b" for a b ys
    using that
  proof (induction ys arbitrary: a)
    case (Cons y ys)
    from Cons.prems(2) obtain a1 where a1: "f y a = Some a1" "fold_opt f ys a1 = Some b"
      by (auto split: option.splits)
    have "moves E (snd a) (snd a1)" using step [OF a1(1)] Cons.prems(1) by (simp add: settles_def)
    then have "row_out S x (snd a) \<Longrightarrow> row_out S x (snd a1)" using assms(3) by (rule row_out_moves)
    with Cons.IH [OF settles_step [OF step [OF a1(1)] Cons.prems(1)] a1(2)] show ?case by blast
  qed simp
  from keep [OF ids1 s1(2)] out [OF s1(1) Cons.prems(2)] Cons.IH [OF s1(2) ids1] show ?case by simp
qed simp

subsection \<open>The failure cascade settles what it fails\<close>

lemma find_status_row_out:
  assumes "ids_distinct db" and "find_task (tasks db) i = Some r" and "status r \<notin> S"
  shows "row_out S i db"
  unfolding row_out_def
proof (intro ballI impI)
  fix x assume "x \<in> set (tasks db)" "task_id x = i"
  with find_task_in [OF assms(1)] assms(2) have "x = r" by fastforce
  with assms(3) show "status x \<notin> S" by simp
qed

lemma cascade_failed_settles:
  "cascade_failed_queued fuel tid msg now db = Some s' \<Longrightarrow>
     settles fail_edge {Queued} Failed (0, db) s' \<and> (ids_distinct db \<longrightarrow> deps_out {Queued} tid (snd s'))"
proof (induction fuel arbitrary: tid db s')
  case (Suc fuel)
  have body: "settles fail_edge {Queued} Failed s t \<and> (ids_distinct (snd s) \<longrightarrow> row_out {Queued} dep (snd t))"
    if b: "fail_body fuel tid msg now dep s = Some t" for dep s t
  proof (cases "ids_distinct (snd s)")
    case True
    obtain c d where s: "s = (c, d)" by (cases s)
    obtain c' d' where t: "t = (c', d')" by (cases t)
    have ids: "ids_distinct d" using True s by simp
    from b [unfolded s t] ids show ?thesis
    proof (cases rule: fail_body_cases)
      case skip
      then show ?thesis by (auto simp: s t settles_def row_out_def)
    next
      case (fail d1 n r r')
      have ids1: "ids_distinct d1" using ids moves_ids [OF fail(1)] by simp
      from Suc.IH [OF fail(2)] ids1
      have below: "moves fail_edge d1 d'" "settled {Queued} Failed d1 d'" "deps_out {Queued} dep d'"
        unfolding settles_def snd_conv by blast+
      have m: "moves fail_edge d d'" using moves_trans [OF composes_edges(3) fail(1) below(1)] .
      have "settled {Queued} Failed d d'"
        unfolding settled_def
      proof (intro allI impI)
        fix i assume "newly d d' i Failed"
        then have "newly d d1 i Failed \<or> newly d1 d' i Failed"
          using newly_trans fail(1) below(1) unfolding moves_def by blast
        then show "deps_out {Queued} i d'"
        proof
          assume "newly d d1 i Failed"
          then have "i = dep"
            by (rule fail(7))
          with below(3) show ?thesis by simp
        next
          assume "newly d1 d' i Failed"
          with below(2) show ?thesis by (simp add: settled_def)
        qed
      qed
      moreover have "row_out {Queued} dep d1"
        by (rule find_status_row_out [OF ids1 fail(5)]) (simp add: fail(6))
      then have "row_out {Queued} dep d'" using row_out_moves [OF below(1)] by simp
      ultimately show ?thesis using m by (simp add: s t settles_def)
    qed
  qed (simp add: settles_def)
  have run: "fold_opt (fail_body fuel tid msg now) (map task_id (queued_dependents tid db)) (0, db) = Some s'"
    using Suc.prems unfolding cascade_failed_Suc .
  have set: "settles fail_edge {Queued} Failed (0, db) s'"
    by (rule state_preorder.fold_opt_R [OF settles_preorder _ run]) (use body in auto)
  have "deps_out {Queued} tid (snd s')" if ids: "ids_distinct db"
  proof (rule deps_out_listed [of fail_edge db])
    have out: "\<forall>x \<in> set (map task_id (queued_dependents tid db)). row_out {Queued} x (snd s')"
      by (rule fold_opt_rows_out [where E = fail_edge and t = Failed, OF _ _ _ run]) (use body ids in auto)
    show "moves fail_edge db (snd s')" using set ids by (simp add: settles_def)
    fix r assume "r \<in> set (tasks db)" "dependency_task_id r = Some tid" "status r \<in> {Queued}"
    with out show "row_out {Queued} (task_id r) (snd s')" by (simp add: queued_dependents_def)
  qed simp
  with set show ?case by blast
qed simp

lemma mark_failed_settled:
  assumes ids: "ids_distinct db" and f: "mark_failed tid msg now db = Inr (n, db')"
  shows "settled {Queued} Failed db db'"
proof -
  obtain a d1 where r: "mark_failed_running tid msg now db = (a, d1)" by (rule prod.exhaust)
  have m: "moves fail_edge db d1"
    using fail_task_moves [OF ids, of Running tid msg now] r by (simp add: mark_failed_running_def)
  show ?thesis
  proof (cases "a = 0")
    case False
    with r f obtain b where c: "cascade_failed_queued (Suc (length (tasks d1))) tid msg now d1 = Some (b, db')"
      by (auto simp: mark_failed_def split: option.splits)
    have "ids_distinct d1" using ids moves_ids [OF m] by simp
    with cascade_failed_settles [OF c]
    have s: "moves fail_edge d1 db'" "settled {Queued} Failed d1 db'" "deps_out {Queued} tid db'"
      unfolding settles_def snd_conv by blast+
    show ?thesis
      unfolding settled_def
    proof (intro allI impI)
      fix i assume "newly db db' i Failed"
      then have "newly db d1 i Failed \<or> newly d1 db' i Failed"
        using newly_trans m s(1) unfolding moves_def by blast
      with s(2,3) fail_task_newly [OF ids r [unfolded mark_failed_running_def]] show "deps_out {Queued} i db'"
        by (auto simp: settled_def)
    qed
  qed (use r f in \<open>simp add: mark_failed_def\<close>)
qed

subsection \<open>The cancellation cascade\<close>

definition cancel_body ::
  "nat \<Rightarrow> int \<Rightarrow> string \<Rightarrow> cancel_acc \<times> queue_db \<Rightarrow> (cancel_acc \<times> queue_db) option" where
  "cancel_body fuel now dep s =
     (case find_task (tasks (snd s)) dep of
        None \<Rightarrow> Some s
      | Some row \<Rightarrow> dispatch_with (mark_cancelled fuel ''cascade'' now) ''cascade'' now row s)"

declare mark_cancelled.simps(2) [simp del]

text \<open>Only the row with the identifier matters to the guard.\<close>

lemma update_task_guard:
  assumes "ids_distinct db" and "find_task (tasks db) tid = Some r" and "g r \<longleftrightarrow> h r"
  shows "update_task tid g f db = update_task tid h f db"
proof -
  have eq: "(task_id x = tid \<and> g x) = (task_id x = tid \<and> h x)" if "x \<in> set (tasks db)" for x
    using find_task_in [OF assms(1) that] assms(2,3) by auto
  then have "filter (\<lambda>x. task_id x = tid \<and> g x) (tasks db) = filter (\<lambda>x. task_id x = tid \<and> h x) (tasks db)"
    by (rule filter_cong [OF refl])
  moreover have "update_rows (tasks db) (\<lambda>x. task_id x = tid \<and> g x) f = update_rows (tasks db) (\<lambda>x. task_id x = tid \<and> h x) f"
    using eq by (simp add: update_rows_def)
  ultimately show ?thesis by (simp add: update_task_def count_rows_def)
qed

lemma cancelled_row_moves:
  assumes "cancellable r"
  shows "row_moves settle_edge r (cancelled_row cb now r)"
proof -
  have "row_ok r \<longrightarrow> row_ok (cancelled_row cb now r)"
    using assms by (cases "status r") (simp_all add: cancellable_def cancelled_row_def row_ok_def)
  with assms show ?thesis
    by (auto simp: row_moves_def same_identity_def cancelled_row_def cancellable_def edge_defs)
qed

text \<open>A guarded cancellation either misses, or cancels its row and goes on with the dependents.\<close>

lemma mark_cancelled_cases:
  assumes ids: "ids_distinct db"
  obtains (miss) "mark_cancelled (Suc fuel) cb now tid (acc, db) = Some (acc, db)"
      "\<forall>r \<in> set (tasks db). task_id r = tid \<longrightarrow> \<not> cancellable r"
    | (hit) acc1 d1 r r' where "moves settle_edge db d1" "find_task (tasks db) tid = Some r" "cancellable r"
      "find_task (tasks d1) tid = Some r'" "status r' = Cancelled" "\<forall>i s. newly db d1 i s \<longrightarrow> i = tid"
      "mark_cancelled (Suc fuel) cb now tid (acc, db) =
         fold_opt (cancel_body fuel now) (map task_id (dependents tid d1)) (acc1, d1)"
      "status r = Queued \<longrightarrow> moves cancel_edge db d1"
proof -
  let ?f = "cancelled_row cb now"
  obtain n db1 where u: "update_task tid cancellable ?f db = (n, db1)" by (rule prod.exhaust)
  show ?thesis
  proof (cases "n = 0")
    case True
    then have "fst (update_task tid cancellable ?f db) = 0" using u by simp
    then have "\<forall>r \<in> set (tasks db). task_id r = tid \<longrightarrow> \<not> cancellable r" by (simp only: update_task_count_zero)
    with u True miss show ?thesis by (simp add: mark_cancelled.simps(2))
  next
    case False
    then have "fst (update_task tid cancellable ?f db) \<noteq> 0" using u by simp
    then obtain r where r: "find_task (tasks db) tid = Some r" "cancellable r"
      by (rule update_task_hit [OF ids])
    let ?d = "event_of_row tid Cancelled db1"
    have keep: "task_id (?f x) = task_id x" for x by (simp add: cancelled_row_def)
    have "moves settle_edge db (event_of_row tid Cancelled (snd (update_task tid cancellable ?f db)))"
      by (rule update_task_moves_event [where r = r, OF ids])
        (use r cancelled_row_moves in \<open>auto simp: cancelled_row_def cancellable_def\<close>)
    then have m: "moves settle_edge db ?d" using u by simp
    have t: "tasks ?d = tasks (snd (update_task tid cancellable ?f db))" using u by simp
    have found: "find_task (tasks ?d) i = map_option (\<lambda>x. if task_id x = tid \<and> cancellable x then ?f x else x)
      (find_task (tasks db) i)" for i
      unfolding t by (simp add: update_task_def find_task_update [OF keep])
    have new: "i = tid" if "newly db ?d i s" for i s
      using that found [of i] by (auto simp: newly_def dest: find_task_id split: option.splits if_splits)
    have row: "find_task (tasks ?d) tid = Some (?f r)" using found [of tid] r find_task_id [OF r(1)] by simp
    obtain acc1 where "mark_cancelled (Suc fuel) cb now tid (acc, db) =
      fold_opt (cancel_body fuel now) (map task_id (dependents tid ?d)) (acc1, ?d)"
      using u False unfolding mark_cancelled.simps(2) cancel_body_def [abs_def] by (simp add: Let_def)
    moreover have "moves cancel_edge db ?d" if q: "status r = Queued"
    proof -
      have "update_task tid (\<lambda>r. status r = Queued) ?f db = (n, db1)"
        using update_task_guard [OF ids r(1), of "\<lambda>r. status r = Queued" cancellable ?f] r(2) q u by simp
      moreover have "moves cancel_edge db
          (event_of_row tid Cancelled (snd (update_task tid (\<lambda>r. status r = Queued) ?f db)))"
        by (rule update_task_moves_event [where r = r, OF ids])
          (use r q in \<open>auto simp: row_moves_def same_identity_def row_ok_def cancelled_row_def edge_defs\<close>)
      ultimately show ?thesis by simp
    qed
    ultimately show ?thesis using m r row new hit [of ?d r "?f r"] by (simp add: cancelled_row_def)
  qed
qed

lemma mark_cancelling_moves:
  assumes "ids_distinct db"
  shows "moves cancel_edge db (snd (mark_cancelling tid cb now db))"
  unfolding mark_cancelling_def
  using assms by (rule update_task_moves_silent) (auto simp: row_moves_def same_identity_def row_ok_def edge_defs)

lemma dispatch_cases:
  assumes "dispatch_with mark cb now row (acc, db) = Some s'"
  obtains (queued) "status row = Queued" "mark (task_id row) (acc, db) = Some s'"
    | (signal) acc' where "status row = Running" "s' = (acc', snd (mark_cancelling (task_id row) cb now db))"
    | (same) acc' where "status row \<notin> {Queued, Running}" "s' = (acc', db)"
proof (cases "status row = Running")
  case True
  obtain n db1 where u: "mark_cancelling (task_id row) cb now db = (n, db1)" by (rule prod.exhaust)
  have "n = 0 \<Longrightarrow> db1 = db"
    using u update_task_zero [of "task_id row" "\<lambda>r. status r = Running" _ db] unfolding mark_cancelling_def
    by (metis fst_conv snd_conv)
  with assms u True have "\<exists>acc'. s' = (acc', db1)"
    by (auto simp: dispatch_with_def split: if_splits option.splits)
  with True u signal show ?thesis by auto
next
  case False
  show ?thesis
  proof (cases "status row = Queued")
    case True
    with assms queued show ?thesis by (simp add: dispatch_with_def)
  next
    case other: False
    with False assms have "\<exists>acc'. s' = (acc', db)" by (auto simp: dispatch_with_def split: if_splits)
    with False other same show ?thesis by auto
  qed
qed

lemma dispatch_total:
  assumes "status row = Queued \<Longrightarrow> \<exists>s'. mark (task_id row) s = Some s'"
  shows "\<exists>s'. dispatch_with mark cb now row s = Some s'"
proof -
  obtain acc db where s: "s = (acc, db)" by (rule prod.exhaust)
  show ?thesis
    using assms unfolding s dispatch_with_def by (auto split: prod.splits option.splits)
qed

lemma mark_cancelling_quiet: "\<not> newly db (snd (mark_cancelling tid cb now db)) i Cancelled"
  by (auto simp: newly_def mark_cancelling_def update_task_def find_task_update split: option.splits if_splits)

lemma mark_cancelling_out:
  assumes "ids_distinct db" and "find_task (tasks db) tid = Some r" and "status r = Running"
  shows "row_out {Queued, Running} tid (snd (mark_cancelling tid cb now db))"
proof -
  have "find_task (tasks (snd (mark_cancelling tid cb now db))) tid =
      Some (r\<lparr>status := Cancelling, cancelled_by := Some cb, updated_at := now\<rparr>)"
    using assms(2,3) find_task_id [OF assms(2)] by (simp add: mark_cancelling_def update_task_def find_task_update)
  moreover have "ids_distinct (snd (mark_cancelling tid cb now db))"
    using assms(1) moves_ids [OF mark_cancelling_moves [OF assms(1)]] by simp
  ultimately show ?thesis by (elim find_status_row_out [rotated]) simp_all
qed

lemma cancel_settle: "cancel_edge s t \<Longrightarrow> settle_edge s t"
  by (auto simp: edge_defs)

abbreviation cancel_settles :: "cancel_acc \<times> queue_db \<Rightarrow> cancel_acc \<times> queue_db \<Rightarrow> bool" where
  "cancel_settles \<equiv> settles settle_edge {Queued, Running} Cancelled"

interpretation cancel_loop: state_preorder cancel_settles
  by (rule settles_preorder) (simp_all)

lemma dispatch_settles:
  assumes d: "dispatch_with mark cb now row (acc, db) = Some s'"
    and found: "find_task (tasks db) (task_id row) = Some row"
    and mark: "\<And>s'. mark (task_id row) (acc, db) = Some s' \<Longrightarrow> status row = Queued \<Longrightarrow>
      cancel_settles (acc, db) s' \<and> (ids_distinct db \<longrightarrow> row_out {Queued, Running} (task_id row) (snd s'))"
  shows "cancel_settles (acc, db) s' \<and> (ids_distinct db \<longrightarrow> row_out {Queued, Running} (task_id row) (snd s'))"
proof (cases "ids_distinct db")
  case ids: True
  from d show ?thesis
  proof (cases rule: dispatch_cases)
    case queued
    with mark show ?thesis by blast
  next
    case (signal acc')
    have "moves settle_edge db (snd s')"
      using moves_weaken [OF mark_cancelling_moves [OF ids] cancel_settle] signal(2) by simp
    then have "cancel_settles (acc, db) s'"
      using mark_cancelling_quiet signal(2) unfolding settles_def settled_def by auto
    with mark_cancelling_out [OF ids found signal(1)] signal(2) show ?thesis by simp
  next
    case (same acc')
    with find_status_row_out [OF ids found] show ?thesis by (simp add: settles_def)
  qed
qed (simp add: settles_def)

text \<open>The body of the loop settles what it ends, if the recursive calls do.\<close>

definition mark_settles :: "nat \<Rightarrow> bool" where
  "mark_settles fuel \<longleftrightarrow>
     (\<forall>cb now tid s s'. mark_cancelled fuel cb now tid s = Some s' \<longrightarrow>
        cancel_settles s s' \<and> (ids_distinct (snd s) \<longrightarrow> (\<exists>r. find_task (tasks (snd s)) tid = Some r \<and> cancellable r)
          \<longrightarrow> row_out {Queued, Running} tid (snd s')))"

lemma mark_settlesD:
  assumes "mark_settles fuel" and "mark_cancelled fuel cb now tid (acc, db) = Some s'"
    and "find_task (tasks db) tid = Some r" and "cancellable r"
  shows "cancel_settles (acc, db) s' \<and> (ids_distinct db \<longrightarrow> row_out {Queued, Running} tid (snd s'))"
  using assms unfolding mark_settles_def by fastforce

lemma cancel_body_settles:
  assumes "mark_settles fuel" and b: "cancel_body fuel now dep s = Some t"
  shows "cancel_settles s t \<and> (ids_distinct (snd s) \<longrightarrow> row_out {Queued, Running} dep (snd t))"
proof (cases "find_task (tasks (snd s)) dep")
  case None
  then have "row_out {Queued, Running} dep (snd s)" by (auto simp: row_out_def find_task_None)
  with None b show ?thesis by (simp add: cancel_body_def settles_def)
next
  case (Some row)
  obtain acc d where s: "s = (acc, d)" by (rule prod.exhaust)
  have id: "task_id row = dep" using Some by (rule find_task_id)
  have "dispatch_with (mark_cancelled fuel ''cascade'' now) ''cascade'' now row (acc, d) = Some t"
    using b Some by (simp add: cancel_body_def s)
  then show ?thesis
    unfolding s id [symmetric] snd_conv
  proof (rule dispatch_settles)
    show row: "find_task (tasks d) (task_id row) = Some row" using Some id s by simp
    fix u assume u: "mark_cancelled fuel ''cascade'' now (task_id row) (acc, d) = Some u" "status row = Queued"
    have "cancellable row" using u(2) by (simp add: cancellable_def)
    with assms(1) u(1) row
    show "cancel_settles (acc, d) u \<and> (ids_distinct d \<longrightarrow> row_out {Queued, Running} (task_id row) (snd u))"
      by (rule mark_settlesD)
  qed
qed

text \<open>What one cancelled row and the loop over its dependents add up to.\<close>

lemma mark_cancelled_hit_settles:
  assumes ok: "mark_settles fuel" and ids: "ids_distinct db" and step: "moves settle_edge db d1"
    and row: "find_task (tasks d1) tid = Some r'" "status r' = Cancelled"
    and one: "\<forall>i s. newly db d1 i s \<longrightarrow> i = tid"
    and run: "fold_opt (cancel_body fuel now) (map task_id (dependents tid d1)) (acc1, d1) = Some s'"
  shows "moves settle_edge db (snd s')" and "settled {Queued, Running} Cancelled db (snd s')"
    and "row_out {Queued, Running} tid (snd s')"
proof -
  have ids1: "ids_distinct d1" using ids moves_ids [OF step] by simp
  have "cancel_settles (acc1, d1) s'"
    by (rule cancel_loop.fold_opt_R [OF _ run]) (use cancel_body_settles [OF ok] in blast)
  then have m1: "moves settle_edge d1 (snd s')" and st1: "settled {Queued, Running} Cancelled d1 (snd s')"
    using ids1 unfolding settles_def snd_conv by blast+
  show "moves settle_edge db (snd s')" using moves_trans [OF composes_edges(5) step m1] .
  have "\<forall>x \<in> set (map task_id (dependents tid d1)). row_out {Queued, Running} x (snd s')"
    by (rule fold_opt_rows_out [where E = settle_edge and t = Cancelled, OF _ _ _ run])
      (use cancel_body_settles [OF ok] ids1 in auto)
  then have deps: "deps_out {Queued, Running} tid (snd s')"
    by (intro deps_out_listed [OF m1]) (auto simp: dependents_def)
  show "settled {Queued, Running} Cancelled db (snd s')"
    unfolding settled_def
  proof (intro allI impI)
    fix i assume "newly db (snd s') i Cancelled"
    then have "newly db d1 i Cancelled \<or> newly d1 (snd s') i Cancelled"
      using newly_trans step m1 unfolding moves_def by blast
    with st1 one deps show "deps_out {Queued, Running} i (snd s')" by (auto simp: settled_def)
  qed
  have "row_out {Queued, Running} tid d1"
    by (rule find_status_row_out [OF ids1 row(1)]) (simp add: row(2))
  then show "row_out {Queued, Running} tid (snd s')" using row_out_moves [OF m1 no_entry_edges(2)] by blast
qed

lemma mark_settles: "mark_settles fuel"
proof (induction fuel)
  case (Suc fuel)
  show ?case
    unfolding mark_settles_def
  proof (intro allI impI)
    fix cb now tid s s' assume c: "mark_cancelled (Suc fuel) cb now tid s = Some s'"
    obtain acc db where s: "s = (acc, db)" by (rule prod.exhaust)
    show "cancel_settles s s' \<and> (ids_distinct (snd s) \<longrightarrow>
        (\<exists>r. find_task (tasks (snd s)) tid = Some r \<and> cancellable r) \<longrightarrow> row_out {Queued, Running} tid (snd s'))"
    proof (cases "ids_distinct db")
      case ids: True
      then show ?thesis
      proof (cases rule: mark_cancelled_cases [of db fuel cb now tid acc])
        case miss
        with c s have "s' = (acc, db)" by simp
        with miss(2) show ?thesis by (auto simp: s settles_def dest: find_task_id find_task_mem)
      next
        case (hit acc1 d1 r r')
        with c s have "fold_opt (cancel_body fuel now) (map task_id (dependents tid d1)) (acc1, d1) = Some s'"
          by simp
        from mark_cancelled_hit_settles [OF Suc.IH ids hit(1,4,5,6) this]
        show ?thesis unfolding settles_def s snd_conv by blast
      qed
    qed (simp add: s settles_def)
  qed
qed (simp add: mark_settles_def)

lemma mark_cancelled_settles:
  assumes "mark_cancelled fuel cb now tid (acc, db) = Some s'" and "ids_distinct db"
  shows "moves settle_edge db (snd s')" and "settled {Queued, Running} Cancelled db (snd s')"
  using mark_settles [of fuel] assms unfolding mark_settles_def settles_def by (metis snd_conv)+

lemma cancel_body_moves:
  assumes "cancel_body fuel now dep s = Some t" and "ids_distinct (snd s)"
  shows "moves settle_edge (snd s) (snd t)"
  using cancel_body_settles [OF mark_settles assms(1)] assms(2) by (simp add: settles_def)

text \<open>Fuel: the recursive calls are made on queued rows, each of which it cancels.\<close>

lemma mark_cancelled_total:
  "ids_distinct db \<Longrightarrow>
   queued_count db < fuel \<or> (queued_count db \<le> fuel \<and> (\<exists>r. find_task (tasks db) tid = Some r \<and> status r = Queued)) \<Longrightarrow>
   \<exists>s'. mark_cancelled fuel cb now tid (acc, db) = Some s'"
proof (induction fuel arbitrary: cb tid acc db)
  case 0
  then show ?case by (auto simp: queued_count_def count_rows_zero dest: find_task_mem)
next
  case (Suc fuel)
  define P where "P s \<longleftrightarrow> queued_count (snd s) \<le> fuel \<and> ids_distinct (snd s)" for s :: "cancel_acc \<times> queue_db"
  have body: "\<exists>t. cancel_body fuel now dep s = Some t \<and> P t" if ps: "P s" for dep s
  proof -
    have "\<exists>t. cancel_body fuel now dep s = Some t"
    proof (cases "find_task (tasks (snd s)) dep")
      case (Some row)
      have "\<exists>t. mark_cancelled fuel ''cascade'' now (task_id row) s = Some t" if "status row = Queued"
        using Suc.IH [of "snd s" "task_id row" "''cascade''" "fst s"] ps that Some find_task_id [OF Some]
        by (simp add: P_def)
      from dispatch_total [of row "mark_cancelled fuel ''cascade'' now" s, OF this] Some
      show ?thesis by (simp add: cancel_body_def)
    qed (simp add: cancel_body_def)
    then obtain t where t: "cancel_body fuel now dep s = Some t" by blast
    have m: "moves settle_edge (snd s) (snd t)" using cancel_body_moves [OF t] ps by (simp add: P_def)
    have "P t" using ps moves_queued_count [OF m] moves_ids [OF m] by (simp add: P_def)
    with t show ?thesis by blast
  qed
  from Suc.prems(1) show ?case
  proof (cases rule: mark_cancelled_cases [of db fuel cb now tid acc])
    case miss
    then show ?thesis by blast
  next
    case (hit acc1 d1 r r')
    have "queued_count d1 \<le> fuel"
    proof (cases "queued_count db < Suc fuel")
      case True
      with moves_queued_count [OF hit(1)] show ?thesis by simp
    next
      case False
      with Suc.prems(2) hit(2) have "status r = Queued" by auto
      from moves_queued_count_strict [OF hit(1) _ Suc.prems(1) hit(2) this hit(4)] hit(5) Suc.prems(2)
      show ?thesis by auto
    qed
    then have "P (acc1, d1)" using moves_ids [OF hit(1)] Suc.prems(1) by (simp add: P_def)
    with body have "\<exists>t. fold_opt (cancel_body fuel now) (map task_id (dependents tid d1)) (acc1, d1) = Some t \<and> P t"
      by (intro fold_opt_total)
    then show ?thesis unfolding hit(7) by blast
  qed
qed

text \<open>A cancellation that starts at a queued row never ends a running one.\<close>

interpretation cancel_only: state_preorder "loop_moves cancel_edge :: cancel_acc \<times> queue_db \<Rightarrow> cancel_acc \<times> queue_db \<Rightarrow> bool"
  by (rule loop_moves_preorder) simp

lemma mark_cancelled_queued_moves:
  "mark_cancelled fuel cb now tid (acc, db) = Some s' \<Longrightarrow> find_task (tasks db) tid = Some r \<Longrightarrow>
   status r = Queued \<Longrightarrow> loop_moves cancel_edge (acc, db) s'"
proof (induction fuel arbitrary: cb tid acc db s' r)
  case (Suc fuel)
  have body: "loop_moves cancel_edge s t" if b: "cancel_body fuel now dep s = Some t" for dep s t
  proof (cases "find_task (tasks (snd s)) dep")
    case None
    with b show ?thesis by (simp add: cancel_body_def loop_moves_def)
  next
    case (Some row)
    obtain a d where s: "s = (a, d)" by (rule prod.exhaust)
    from b Some have "dispatch_with (mark_cancelled fuel ''cascade'' now) ''cascade'' now row (a, d) = Some t"
      by (simp add: cancel_body_def s)
    then show ?thesis
    proof (cases rule: dispatch_cases)
      case queued
      with Suc.IH [of "''cascade''" "task_id row" a d t row] Some find_task_id [OF Some] show ?thesis by (simp add: s)
    next
      case (signal acc')
      with mark_cancelling_moves show ?thesis by (simp add: s loop_moves_def)
    qed (simp add: s loop_moves_def)
  qed
  show ?case
  proof (cases "ids_distinct db")
    case ids: True
    then show ?thesis
    proof (cases rule: mark_cancelled_cases [of db fuel cb now tid acc])
      case miss
      with Suc.prems(1) show ?thesis by (simp add: loop_moves_def)
    next
      case (hit acc1 d1 x r')
      with Suc.prems have m: "moves cancel_edge db d1"
        and run: "fold_opt (cancel_body fuel now) (map task_id (dependents tid d1)) (acc1, d1) = Some s'" by simp_all
      have "loop_moves cancel_edge (acc1, d1) s'" by (rule cancel_only.fold_opt_R [OF body run])
      then have "moves cancel_edge d1 (snd s')" using ids moves_ids [OF m] by (simp add: loop_moves_def)
      with m show ?thesis using moves_trans [OF composes_edges(4)] by (simp add: loop_moves_def)
    qed
  qed (simp add: loop_moves_def)
qed simp

lemma cancel_fuel_enough: "queued_count db < cancel_fuel db"
  using queued_count_le [of db] by (simp add: cancel_fuel_def)

lemma cancel_task_settles:
  assumes ids: "ids_distinct db" and c: "cancel_task tid now db = Inr (acc, db')"
  shows "moves cancel_edge db db'" and "settled {Queued, Running} Cancelled db db'"
    and "row_out {Queued, Running} tid db'"
proof -
  obtain row where row: "find_task (tasks db) tid = Some row"
    "dispatch_with (mark_cancelled (cancel_fuel db) ''user'' now) ''user'' now row (empty_acc, db) = Some (acc, db')"
    using c by (auto simp: cancel_task_def split: option.splits)
  have id: "task_id row = tid" using row(1) by (rule find_task_id)
  have "cancel_settles (empty_acc, db) (acc, db')
      \<and> (ids_distinct db \<longrightarrow> row_out {Queued, Running} (task_id row) (snd (acc, db')))"
  proof (rule dispatch_settles [OF row(2)])
    show "find_task (tasks db) (task_id row) = Some row" using row(1) id by simp
    fix u assume u: "mark_cancelled (cancel_fuel db) ''user'' now (task_id row) (empty_acc, db) = Some u"
      "status row = Queued"
    have "cancellable row" using u(2) by (simp add: cancellable_def)
    with mark_settlesD [OF mark_settles u(1)] row(1) id
    show "cancel_settles (empty_acc, db) u \<and> (ids_distinct db \<longrightarrow> row_out {Queued, Running} (task_id row) (snd u))"
      by simp
  qed
  with ids id show "settled {Queued, Running} Cancelled db db'" "row_out {Queued, Running} tid db'"
    by (simp_all add: settles_def)
  from row(2) show "moves cancel_edge db db'"
  proof (cases rule: dispatch_cases)
    case queued
    with mark_cancelled_queued_moves [OF queued(2)] row(1) id ids show ?thesis by (simp add: loop_moves_def)
  next
    case (signal acc')
    with mark_cancelling_moves [OF ids] show ?thesis by simp
  qed simp
qed

lemma cancel_task_total:
  assumes "ids_distinct db" and "find_task (tasks db) tid = Some row"
  obtains acc db' where "cancel_task tid now db = Inr (acc, db')"
proof -
  have "\<exists>s'. mark_cancelled (cancel_fuel db) ''user'' now (task_id row) (empty_acc, db) = Some s'"
    using mark_cancelled_total [OF assms(1)] cancel_fuel_enough by blast
  then have "\<exists>s. dispatch_with (mark_cancelled (cancel_fuel db) ''user'' now) ''user'' now row (empty_acc, db) = Some s"
    by (rule dispatch_total)
  then obtain s where "dispatch_with (mark_cancelled (cancel_fuel db) ''user'' now) ''user'' now row (empty_acc, db) = Some s" ..
  with assms(2) that show ?thesis by (cases s) (simp add: cancel_task_def)
qed

lemma finalize_cancelled_settles:
  assumes "ids_distinct db" and "finalize_cancelled tid cb now db = Inr (res, db')"
  shows "moves settle_edge db db'" and "settled {Queued, Running} Cancelled db db'"
proof -
  obtain acc where "mark_cancelled (cancel_fuel db) cb now tid (empty_acc, db) = Some (acc, db')"
    using assms(2) by (auto simp: finalize_cancelled_def split: option.splits)
  from mark_cancelled_settles [OF this assms(1)]
  show "moves settle_edge db db'" "settled {Queued, Running} Cancelled db db'" by simp_all
qed

lemma finalize_cancelled_total:
  assumes "ids_distinct db"
  obtains res db' where "finalize_cancelled tid cb now db = Inr (res, db')"
proof -
  obtain s where "mark_cancelled (cancel_fuel db) cb now tid (empty_acc, db) = Some s"
    using mark_cancelled_total [OF assms] cancel_fuel_enough by blast
  with that show ?thesis by (cases s) (simp add: finalize_cancelled_def)
qed

end
