(* ===== verification/Task_Steps.thy ===== *)
theory Task_Steps
  imports Task_Settle
begin

text \<open>
  The remaining operations as moves of the database, the queue as a transition system with one
  rule per operation of the repository, and its invariant: distinct identifiers, at most one
  active task per deduplication key, rows whose columns fit their status, dependencies that have
  succeeded before a task runs, and references between the tables that are never dangling.
\<close>

subsection \<open>Bulk updates\<close>

lemma bulk_moves_silent:
  assumes rows: "\<And>r. p r \<Longrightarrow> row_moves E r (f r)"
    and quiet: "\<And>r. p r \<Longrightarrow> \<not> terminal (status r) \<Longrightarrow> \<not> terminal (status (f r))"
    and keep: "\<And>r. task_id (f r) = task_id r"
  shows "moves E db (db\<lparr>tasks := update_rows (tasks db) p f\<rparr>)"
proof -
  let ?db = "db\<lparr>tasks := update_rows (tasks db) p f\<rparr>"
  have "table_moves E db ?db"
    using rows by (auto simp: table_moves_def update_rows_def list_all2_map2 list_all2_same)
  moreover have "\<not> newly db ?db i s" for i s
    using quiet by (auto simp: newly_def find_task_update [OF keep] split: option.splits if_splits)
  then have "accounts db ?db"
    unfolding accounts_def by (intro exI [of _ "[]"]) simp
  ultimately show ?thesis by (simp add: moves_def)
qed

lemma requeue_running_moves: "moves requeue_edge db (snd (requeue_running limit now db))"
proof -
  have "moves requeue_edge db (db\<lparr>tasks := update_rows (tasks db) (\<lambda>r. task_id r \<in> I \<and> status r = Running)
     (\<lambda>r. r\<lparr>status := Queued, started_at := None, finished_at := None, updated_at := now,
            result_json := None, error_message := None\<rparr>)\<rparr>)" for I
    by (rule bulk_moves_silent) (auto simp: row_moves_def same_identity_def row_ok_def)
  then show ?thesis by (simp add: requeue_running_def Let_def)
qed

lemma fold_record_events:
  "fold (\<lambda>r d. record_terminal_event (task_id r) project Cancelled (Some (task_type r)) d) rs db =
     db\<lparr>terminal_events := terminal_events db @
        map (\<lambda>r. \<lparr>te_task_id = task_id r, te_project_name = project, te_status = Cancelled,
                  te_task_type = Some (task_type r)\<rparr>) rs\<rparr>"
  by (induction rs arbitrary: db) (simp_all add: record_terminal_event_def)

lemma cancel_all_queued_moves:
  assumes ids: "ids_distinct db"
  shows "moves cancel_edge db (snd (cancel_all_queued project now db))"
proof -
  define hit :: "task \<Rightarrow> bool" where "hit = (\<lambda>r. project_name r = project \<and> status r = Queued)"
  let ?f = "\<lambda>r. r\<lparr>status := Cancelled, cancelled_by := Some ''user'', finished_at := Some now, updated_at := now\<rparr>"
  define db1 where "db1 = db\<lparr>tasks := update_rows (tasks db) hit ?f\<rparr>"
  define rs where "rs = filter (\<lambda>r. task_id r \<in> task_id ` set (filter hit (tasks db)) \<and> status r = Cancelled) (tasks db1)"
  let ?ev = "\<lambda>r :: task. \<lparr>te_task_id = task_id r, te_project_name = project, te_status = Cancelled,
                  te_task_type = Some (task_type r)\<rparr>"
  let ?db = "snd (cancel_all_queued project now db)"
  have res: "?db = db1\<lparr>terminal_events := terminal_events db @ map ?ev rs\<rparr>"
    by (simp add: cancel_all_queued_def Let_def fold_record_events rs_def db1_def hit_def)
  have keep: "task_id (?f r) = task_id r" for r by simp
  have mt: "table_moves cancel_edge db ?db"
    unfolding res db1_def
    by (auto simp: table_moves_def update_rows_def list_all2_map2 list_all2_same hit_def
        row_moves_def same_identity_def same_outcome_def row_ok_def edge_defs)
  have ids1: "distinct (map task_id (tasks db1))"
    using ids by (simp add: db1_def map_update_rows)
  then have dist: "distinct (map task_id rs)"
    unfolding rs_def by (simp add: distinct_map inj_on_def)
  have new: "newly db ?db i s \<longleftrightarrow> s = Cancelled \<and> (\<exists>r. find_task (tasks db) i = Some r \<and> hit r)" for i s
    unfolding res db1_def
    by (auto simp: newly_def find_task_update hit_def split: option.splits if_splits)
  have listed: "(\<exists>x \<in> set rs. task_id x = i) \<longleftrightarrow> (\<exists>r. find_task (tasks db) i = Some r \<and> hit r)" for i
  proof
    assume "\<exists>x \<in> set rs. task_id x = i"
    then obtain r where "r \<in> set (tasks db)" "hit r" "task_id r = i" by (auto simp: rs_def)
    with find_task_in [OF ids] show "\<exists>r. find_task (tasks db) i = Some r \<and> hit r" by blast
  next
    assume "\<exists>r. find_task (tasks db) i = Some r \<and> hit r"
    then obtain r where r: "find_task (tasks db) i = Some r" "hit r" by blast
    then have "r \<in> set (tasks db)" "task_id r = i" by (auto dest: find_task_mem find_task_id)
    with r(2) have "?f r \<in> set rs" by (force simp: rs_def db1_def update_rows_def)
    with \<open>task_id r = i\<close> show "\<exists>x \<in> set rs. task_id x = i" by (metis keep)
  qed
  have "accounts db ?db"
    unfolding accounts_def
  proof (intro exI conjI allI)
    show "terminal_events ?db = terminal_events db @ map ?ev rs" by (simp add: res)
    show "distinct (map te_task_id (map ?ev rs))" using dist by (simp add: comp_def)
    fix i s
    show "(\<exists>e \<in> set (map ?ev rs). te_task_id e = i \<and> te_status e = s) \<longleftrightarrow> newly db ?db i s"
      unfolding new listed [symmetric] by auto
  qed
  with mt show ?thesis by (simp add: moves_def)
qed

subsection \<open>Updates that leave the status alone\<close>

lemma persist_provider_job_id_moves:
  "ids_distinct db \<Longrightarrow> moves no_edge db (persist_provider_job_id tid job ep url now db)"
  unfolding persist_provider_job_id_def
  by (rule update_task_moves_silent) (auto simp: row_moves_def same_identity_def same_outcome_def row_ok_def)

lemma persist_execution_provider_id_moves:
  "ids_distinct db \<Longrightarrow> moves no_edge db (persist_execution_provider_id tid p now db)"
  unfolding persist_execution_provider_id_def
  by (rule update_task_moves_silent) (auto simp: row_moves_def same_identity_def same_outcome_def row_ok_def)

lemma persist_execution_checkpoint_moves:
  assumes "ids_distinct db" and "persist_execution_checkpoint tid c p now db = Inr db'"
  shows "moves no_edge db db'"
proof -
  let ?f = "\<lambda>r. r\<lparr>execution_checkpoint_json := Some c, provider_id := Some p, updated_at := now\<rparr>"
  have "moves no_edge db (snd (update_task tid checkpoint_guard ?f db))"
    using assms(1)
    by (rule update_task_moves_silent) (auto simp: row_moves_def same_identity_def same_outcome_def row_ok_def checkpoint_guard_def)
  with assms(2) show ?thesis
    by (cases "update_task tid checkpoint_guard ?f db") (auto simp: persist_execution_checkpoint_def split: if_splits)
qed

lemma merge_payload_field_moves:
  assumes "ids_distinct db" and "merge_payload_field tid key v b now db = Inr db'"
  shows "moves no_edge db db'"
proof -
  have m: "moves no_edge db (snd (update_task tid (\<lambda>r. True) (\<lambda>r. r\<lparr>payload_json := Some t, updated_at := now\<rparr>) db))" for t
    using assms(1)
    by (rule update_task_moves_silent) (auto simp: row_moves_def same_identity_def same_outcome_def row_ok_def)
  show ?thesis
  proof (cases "find_task (tasks db) tid")
    case None
    with assms(2) show ?thesis by (simp add: merge_payload_field_def split: if_splits)
  next
    case (Some r)
    define data where "data = (case json_loads_default (payload_json r) (PDict []) of PDict d \<Rightarrow> d | _ \<Rightarrow> [])"
    let ?t = "json_dumps (PDict (dict_set data key v))"
    obtain n d1 where u: "update_task tid (\<lambda>r. True) (\<lambda>r. r\<lparr>payload_json := Some ?t, updated_at := now\<rparr>) db = (n, d1)"
      by (rule prod.exhaust)
    have "db' = d1"
      using assms(2) Some u unfolding merge_payload_field_def Let_def data_def
      by (simp del: json_dumps.simps split: if_splits)
    with m [of ?t] u show ?thesis by simp
  qed
qed

subsection \<open>The operations as a transition system\<close>

inductive queue_step :: "queue_db \<Rightarrow> queue_db \<Rightarrow> bool" where
  s_enqueue: "enqueue tid now a guard db = Inr (res, db') \<Longrightarrow> queue_step db db'"
| s_claim: "queue_step db (snd (claim_next media pool excl now db))"
| s_succeed: "queue_step db (snd (mark_succeeded tid result now db))"
| s_fail: "mark_failed tid msg now db = Inr (n, db') \<Longrightarrow> queue_step db db'"
| s_cancel: "cancel_task tid now db = Inr (acc, db') \<Longrightarrow> queue_step db db'"
| s_cancelling: "queue_step db (snd (mark_cancelling tid cb now db))"
| s_finalize: "finalize_cancelled tid cb now db = Inr (res, db') \<Longrightarrow> queue_step db db'"
| s_cancel_all: "queue_step db (snd (cancel_all_queued project now db))"
| s_requeue: "queue_step db (snd (requeue_running limit now db))"
| s_job_id: "queue_step db (persist_provider_job_id tid job ep url now db)"
| s_checkpoint: "persist_execution_checkpoint tid c p now db = Inr db' \<Longrightarrow> queue_step db db'"
| s_payload: "merge_payload_field tid key v must now db = Inr db' \<Longrightarrow> queue_step db db'"
| s_provider: "queue_step db (persist_execution_provider_id tid p now db)"
| s_create_batch: "create_batch b db = Inr db' \<Longrightarrow> queue_step db db'"
| s_attach: "attach_batch_task project bid tid uid ded user db = Inr db' \<Longrightarrow> queue_step db db'"
| s_delete_batch: "queue_step db (snd (delete_fresh_batch project bid user db))"
| s_lease: "queue_step db (snd (acquire_or_renew_lease name owner ttl epoch now db))"
| s_release: "queue_step db (release_lease name owner db)"

inductive_cases queue_stepE: "queue_step db db'"

abbreviation queue_run :: "queue_db \<Rightarrow> queue_db \<Rightarrow> bool" where
  "queue_run \<equiv> queue_step\<^sup>*\<^sup>*"

definition empty_queue :: queue_db where
  "empty_queue = \<lparr>tasks = [], batches = [], batch_tasks = [], leases = [], terminal_events = []\<rparr>"

text \<open>
  Every step either moves the rows of the task table, or appends one new queued task, or leaves
  the task table as it is.
\<close>

definition appends_task :: "queue_db \<Rightarrow> queue_db \<Rightarrow> bool" where
  "appends_task db db' \<longleftrightarrow>
     (\<exists>tid now a. tasks db' = tasks db @ [new_task tid now a] \<and> \<not> enqueue_conflict tid a db
        \<and> terminal_events db' = terminal_events db \<and> batches db' = batches db
        \<and> (case ea_batch_id a of None \<Rightarrow> True | Some b \<Rightarrow> b \<in> gb_batch_id ` set (batches db)))"

definition same_tasks :: "queue_db \<Rightarrow> queue_db \<Rightarrow> bool" where
  "same_tasks db db' \<longleftrightarrow> tasks db' = tasks db \<and> terminal_events db' = terminal_events db"

definition started :: "task_status \<Rightarrow> bool" where
  "started s \<longleftrightarrow> s \<in> {Running, Cancelling, Succeeded}"

definition no_start :: "edges \<Rightarrow> bool" where
  "no_start E \<longleftrightarrow> (\<forall>s t. E s t \<longrightarrow> task_edge s t \<and> (started t \<longrightarrow> started s))"

lemma no_start_edges [simp]:
  "no_start succeed_edge" "no_start fail_edge" "no_start cancel_edge" "no_start settle_edge"
  "no_start requeue_edge" "no_start no_edge"
  by (auto simp: no_start_def started_def task_edge_def edge_defs)

lemma enqueue_task_cases:
  assumes "enqueue_task tid now a guard db = Inr (res, db')"
  obtains (new) "\<not> enqueue_conflict tid a db" "db' = db\<lparr>tasks := tasks db @ [new_task tid now a]\<rparr>"
      "er_task_id res = tid" "\<not> er_deduped res"
    | (dup) existing where "enqueue_conflict tid a db" "enqueue_existing a db = Some existing" "db' = db"
      "er_task_id res = task_id existing" "er_deduped res" "er_status res = status existing"
  using assms by (auto simp: enqueue_task_def Let_def split: if_splits option.splits)

lemma enqueue_cases:
  assumes "enqueue tid now a guard db = Inr (res, db')"
  obtains db1 where "enqueue_task tid now a guard db = Inr (res, db1)"
    "ea_batch_id a = None \<and> db' = db1 \<or>
     (\<exists>bid ms. ea_batch_id a = Some bid \<and> db' = db1\<lparr>batch_tasks := ms\<rparr> \<and> enqueue_unit_ids a \<noteq> []
        \<and> require_batch_units (ea_project_name a) bid (enqueue_unit_ids a) (ea_user_id a) db = Inr ()
        \<and> add_members (map (\<lambda>u. \<lparr>bt_batch_id = bid, bt_task_id = er_task_id res, bt_unit_id = u,
              bt_deduped = er_deduped res\<rparr>) (enqueue_unit_ids a)) (batch_tasks db1) = Some ms)"
  using assms by (auto simp: enqueue_def Let_def split: option.splits sum.splits if_splits prod.splits)

lemma require_batch_units_batch:
  "require_batch_units project bid us user db = Inr () \<Longrightarrow> bid \<in> gb_batch_id ` set (batches db)"
  by (auto simp: require_batch_units_def Let_def find_batch_def find_None_iff split: if_splits)

lemma enqueue_appends:
  assumes "enqueue tid now a guard db = Inr (res, db')"
  shows "appends_task db db' \<or> same_tasks db db'"
  using assms
proof (rule enqueue_cases)
  fix db1
  assume e: "enqueue_task tid now a guard db = Inr (res, db1)"
    and m: "ea_batch_id a = None \<and> db' = db1 \<or>
     (\<exists>bid ms. ea_batch_id a = Some bid \<and> db' = db1\<lparr>batch_tasks := ms\<rparr> \<and> enqueue_unit_ids a \<noteq> []
        \<and> require_batch_units (ea_project_name a) bid (enqueue_unit_ids a) (ea_user_id a) db = Inr ()
        \<and> add_members (map (\<lambda>u. \<lparr>bt_batch_id = bid, bt_task_id = er_task_id res, bt_unit_id = u,
              bt_deduped = er_deduped res\<rparr>) (enqueue_unit_ids a)) (batch_tasks db1) = Some ms)"
  from m have same: "tasks db' = tasks db1" "terminal_events db' = terminal_events db1" "batches db' = batches db1"
    and b: "case ea_batch_id a of None \<Rightarrow> True | Some b \<Rightarrow> b \<in> gb_batch_id ` set (batches db)"
    by (auto dest: require_batch_units_batch)
  from e show ?thesis
  proof (cases rule: enqueue_task_cases)
    case new
    with same b have "appends_task db db'"
      unfolding appends_task_def by (intro exI [of _ tid] exI [of _ now] exI [of _ a]) simp
    then show ?thesis ..
  next
    case (dup existing)
    with same show ?thesis by (simp add: same_tasks_def)
  qed
qed

lemma attach_batch_task_same:
  "attach_batch_task project bid tid uid ded user db = Inr db' \<Longrightarrow> same_tasks db db'"
  by (auto simp: attach_batch_task_def same_tasks_def split: sum.splits option.splits)

lemma lease_same: "same_tasks db (snd (acquire_or_renew_lease name owner ttl epoch now db))"
  by (simp add: acquire_or_renew_lease_def Let_def same_tasks_def)

lemma queue_step_kinds:
  assumes "queue_step db db'" and ids: "ids_distinct db"
  obtains (append) "appends_task db db'"
    | (claim) media pool excl now where "db' = snd (claim_next media pool excl now db)"
    | (move) E where "moves E db db'" "no_start E"
        "E Queued Failed \<longrightarrow> (\<exists>tid msg now n. mark_failed tid msg now db = Inr (n, db'))"
    | (same) "same_tasks db db'"
  using assms(1)
proof cases
  case (s_enqueue tid now a guard res)
  from enqueue_appends [OF this] append same show ?thesis by blast
next
  case (s_claim media pool excl now)
  with claim show ?thesis by blast
next
  case (s_succeed tid result now)
  with mark_succeeded_moves [OF ids] show ?thesis by (intro move [of succeed_edge]) (simp_all add: edge_defs)
next
  case (s_fail tid msg now n)
  then have "\<exists>tid msg now n. mark_failed tid msg now db = Inr (n, db')" by blast
  with mark_failed_moves [OF ids s_fail] show ?thesis by (intro move [of fail_edge]) simp_all
next
  case (s_cancel tid now acc)
  from cancel_task_settles(1) [OF ids this] show ?thesis by (intro move [of cancel_edge]) (simp_all add: edge_defs)
next
  case (s_cancelling tid cb now)
  with mark_cancelling_moves [OF ids] show ?thesis by (intro move [of cancel_edge]) (simp_all add: edge_defs)
next
  case (s_finalize tid cb now res)
  from finalize_cancelled_settles(1) [OF ids this] show ?thesis by (intro move [of settle_edge]) (simp_all add: edge_defs)
next
  case (s_cancel_all project now)
  with cancel_all_queued_moves [OF ids] show ?thesis by (intro move [of cancel_edge]) (simp_all add: edge_defs)
next
  case (s_requeue limit now)
  with requeue_running_moves show ?thesis by (intro move [of requeue_edge]) (simp_all add: edge_defs)
next
  case (s_job_id tid job ep url now)
  with persist_provider_job_id_moves [OF ids] show ?thesis by (intro move [of no_edge]) (simp_all add: edge_defs)
next
  case (s_checkpoint tid c p now)
  from persist_execution_checkpoint_moves [OF ids this] show ?thesis by (intro move [of no_edge]) (simp_all add: edge_defs)
next
  case (s_payload tid key v must now)
  from merge_payload_field_moves [OF ids this] show ?thesis by (intro move [of no_edge]) (simp_all add: edge_defs)
next
  case (s_provider tid p now)
  with persist_execution_provider_id_moves [OF ids] show ?thesis by (intro move [of no_edge]) (simp_all add: edge_defs)
next
  case (s_create_batch b)
  then show ?thesis by (intro same) (auto simp: create_batch_def same_tasks_def split: if_splits)
next
  case (s_attach project bid tid uid ded user)
  from attach_batch_task_same [OF this] show ?thesis by (rule same)
next
  case (s_delete_batch project bid user)
  then show ?thesis by (intro same) (simp add: delete_fresh_batch_def Let_def same_tasks_def)
next
  case (s_lease name owner ttl epoch now)
  with lease_same show ?thesis by (intro same) simp
next
  case (s_release name owner)
  then show ?thesis by (intro same) (simp add: release_lease_def same_tasks_def)
qed

end
