(* ===== verification/Task_Invariant.thy ===== *)
theory Task_Invariant
  imports Task_Steps
begin

text \<open>
  The invariant of the queue and its preservation by every step, the absorbing terminal rows,
  and the exact account the terminal events give of the tasks that have finished.
\<close>

subsection \<open>The task table\<close>

definition unique_active :: "queue_db \<Rightarrow> bool" where
  "unique_active db \<longleftrightarrow>
     (\<forall>r \<in> set (tasks db). \<forall>x \<in> set (tasks db).
        active r \<longrightarrow> active x \<longrightarrow> dedupe_key r = dedupe_key x \<longrightarrow> task_id r = task_id x)"

definition rows_ok :: "queue_db \<Rightarrow> bool" where
  "rows_ok db \<longleftrightarrow> (\<forall>r \<in> set (tasks db). row_ok r)"

text \<open>A task that runs, or has run, depends on nothing or on a task that has succeeded.\<close>

definition deps_ok :: "queue_db \<Rightarrow> bool" where
  "deps_ok db \<longleftrightarrow> (\<forall>r \<in> set (tasks db). started (status r) \<longrightarrow> dependency_ready db r)"

text \<open>The collected events are the finished tasks with their final status, each once.\<close>

definition events_ok :: "queue_db \<Rightarrow> bool" where
  "events_ok db \<longleftrightarrow>
     distinct (map te_task_id (terminal_events db))
     \<and> (\<forall>i s. (\<exists>e \<in> set (terminal_events db). te_task_id e = i \<and> te_status e = s)
          \<longleftrightarrow> terminal s \<and> (\<exists>r. find_task (tasks db) i = Some r \<and> status r = s))"

definition table_inv :: "queue_db \<Rightarrow> bool" where
  "table_inv db \<longleftrightarrow> ids_distinct db \<and> unique_active db \<and> rows_ok db \<and> deps_ok db \<and> events_ok db"

lemma table_invD:
  assumes "table_inv db"
  shows "ids_distinct db" "unique_active db" "rows_ok db" "deps_ok db" "events_ok db"
  using assms by (simp_all add: table_inv_def)

lemma row_moves_key: "row_moves E r r' \<Longrightarrow> dedupe_key r' = dedupe_key r"
  by (simp add: row_moves_def same_identity_def dedupe_key_def)

lemma row_moves_active: "row_moves E r r' \<Longrightarrow> active r' \<Longrightarrow> active r"
  by (auto simp: row_moves_def active_terminal)

lemma unique_active_moves:
  assumes m: "moves E db db'" and u: "unique_active db"
  shows "unique_active db'"
  unfolding unique_active_def
proof (intro ballI impI)
  fix r' x' assume h: "r' \<in> set (tasks db')" "x' \<in> set (tasks db')" "active r'" "active x'"
    "dedupe_key r' = dedupe_key x'"
  from moves_back [OF m h(1)] obtain r where r: "r \<in> set (tasks db)" "row_moves E r r'" by blast
  from moves_back [OF m h(2)] obtain x where x: "x \<in> set (tasks db)" "row_moves E x x'" by blast
  have "task_id r = task_id x"
    using u r x h row_moves_key [OF r(2)] row_moves_key [OF x(2)] row_moves_active [OF r(2)]
      row_moves_active [OF x(2)] unfolding unique_active_def by metis
  with row_moves_id [OF r(2)] row_moves_id [OF x(2)] show "task_id r' = task_id x'" by simp
qed

lemma rows_ok_moves:
  assumes m: "moves E db db'" and "rows_ok db"
  shows "rows_ok db'"
  unfolding rows_ok_def
proof
  fix r' assume "r' \<in> set (tasks db')"
  with m obtain r where "r \<in> set (tasks db)" "row_moves E r r'" by (rule moves_back)
  with assms(2) show "row_ok r'" by (simp add: rows_ok_def row_moves_def)
qed

lemma dependency_ready_moves:
  assumes m: "moves E db db'" and "dependency_task_id r' = dependency_task_id r" and "dependency_ready db r"
  shows "dependency_ready db' r'"
proof (cases "dependency_task_id r")
  case (Some d)
  with assms(3) obtain p where p: "find_task (tasks db) d = Some p" "status p = Succeeded"
    by (auto simp: dependency_ready_def split: option.splits)
  from moves_some [OF m p(1)] obtain p' where "find_task (tasks db') d = Some p'" "row_moves E p p'" by blast
  with p(2) Some assms(2) show ?thesis by (simp add: dependency_ready_def row_moves_def)
qed (use assms(2) in \<open>simp add: dependency_ready_def\<close>)

lemma deps_ok_moves:
  assumes m: "moves E db db'" and "no_start E" and "deps_ok db"
  shows "deps_ok db'"
  unfolding deps_ok_def
proof (intro ballI impI)
  fix r' assume r': "r' \<in> set (tasks db')" "started (status r')"
  from moves_back [OF m r'(1)] obtain r where r: "r \<in> set (tasks db)" "row_moves E r r'" by blast
  with r'(2) assms(2) have "started (status r)" by (auto simp: row_moves_def no_start_def)
  with assms(3) r(1) have "dependency_ready db r" by (simp add: deps_ok_def)
  with r(2) show "dependency_ready db' r'"
    by (intro dependency_ready_moves [OF m]) (simp_all add: row_moves_def same_identity_def)
qed

lemma events_ok_moves:
  assumes m: "moves E db db'" and e: "events_ok db"
  shows "events_ok db'"
proof -
  from m obtain evs where evs: "terminal_events db' = terminal_events db @ evs" "distinct (map te_task_id evs)"
    "\<And>i s. (\<exists>e \<in> set evs. te_task_id e = i \<and> te_status e = s) \<longleftrightarrow> newly db db' i s"
    unfolding moves_def accounts_def by blast
  have tm: "table_moves E db db'" using m by (simp add: moves_def)
  have old: "(\<exists>e \<in> set (terminal_events db). te_task_id e = i \<and> te_status e = s)
      \<longleftrightarrow> terminal s \<and> (\<exists>r. find_task (tasks db) i = Some r \<and> status r = s)" for i s
    using e by (simp add: events_ok_def)
  have "te_task_id a \<noteq> te_task_id b" if "a \<in> set (terminal_events db)" "b \<in> set evs" for a b
  proof
    assume eq: "te_task_id a = te_task_id b"
    have "terminal (te_status a)" "\<exists>r. find_task (tasks db) (te_task_id a) = Some r \<and> status r = te_status a"
      using old [of "te_task_id a" "te_status a"] that(1) by blast+
    moreover have "newly db db' (te_task_id a) (te_status b)" using evs(3) that(2) eq by metis
    ultimately show False by (auto simp: newly_def split: option.splits)
  qed
  then have "distinct (map te_task_id (terminal_events db'))"
    using e evs(1,2) by (auto simp: events_ok_def distinct_map inj_on_def)
  moreover have "(\<exists>e \<in> set (terminal_events db'). te_task_id e = i \<and> te_status e = s)
      \<longleftrightarrow> terminal s \<and> (\<exists>r. find_task (tasks db') i = Some r \<and> status r = s)" for i s
  proof -
    have "(\<exists>e \<in> set (terminal_events db'). te_task_id e = i \<and> te_status e = s)
      \<longleftrightarrow> (terminal s \<and> (\<exists>r. find_task (tasks db) i = Some r \<and> status r = s)) \<or> newly db db' i s"
      using old [of i s] evs(3) [of i s] by (auto simp: evs(1))
    also have "\<dots> \<longleftrightarrow> terminal s \<and> (\<exists>r. find_task (tasks db') i = Some r \<and> status r = s)"
      using table_moves_find [OF tm, of i]
      by (cases "find_task (tasks db) i"; cases "find_task (tasks db') i") (auto simp: newly_def row_moves_def)
    finally show ?thesis .
  qed
  ultimately show ?thesis by (simp add: events_ok_def)
qed

lemma table_inv_moves: "moves E db db' \<Longrightarrow> no_start E \<Longrightarrow> table_inv db \<Longrightarrow> table_inv db'"
  using moves_ids [of E db db'] unique_active_moves [of E db db'] rows_ok_moves [of E db db']
    deps_ok_moves [of E db db'] events_ok_moves [of E db db']
  by (simp add: table_inv_def)

lemma table_inv_same:
  assumes "same_tasks db db'" and "table_inv db"
  shows "table_inv db'"
proof -
  have eqs: "tasks db' = tasks db" "terminal_events db' = terminal_events db"
    using assms(1) by (simp_all add: same_tasks_def)
  show ?thesis
    using assms(2)
    unfolding table_inv_def unique_active_def rows_ok_def deps_ok_def dependency_ready_def events_ok_def eqs .
qed

subsection \<open>Claiming\<close>

lemma claim_select_least:
  assumes "claim_select media pool excl db = Some tid"
  obtains r where "r \<in> set (tasks db)" "claimable media pool excl db r" "task_id r = tid"
    "\<forall>x \<in> set (tasks db). claimable media pool excl db x \<longrightarrow> queued_at r \<le> queued_at x"
proof -
  let ?rs = "filter (claimable media pool excl db) (tasks db)"
  obtain r rest where o: "order_by queued_at ?rs = r # rest" and id: "task_id r = tid"
    using assms by (auto simp: claim_select_def split: list.splits)
  have "r \<in> set ?rs" using o set_order_by [of queued_at ?rs] by (metis list.set_intros(1))
  moreover have "queued_at r \<le> queued_at x" if "x \<in> set ?rs" for x
    using hd_order_by_least [OF that, of queued_at] o by simp
  ultimately show ?thesis using that id by auto
qed

lemma table_inv_claim:
  assumes inv: "table_inv db"
  shows "table_inv (snd (claim_next media pool excl now db))"
proof (cases "claim_select media pool excl db")
  case None
  with inv show ?thesis by (simp add: claim_next_def)
next
  case (Some tid)
  note ids = table_invD(1) [OF inv]
  let ?db = "snd (claim_next media pool excl now db)"
  from Some obtain c where c: "c \<in> set (tasks db)" "claimable media pool excl db c" "task_id c = tid"
    by (rule claim_select_least)
  have m: "moves claim_edge db ?db" using ids by (rule claim_next_moves)
  have tasks: "tasks ?db = update_rows (tasks db) (\<lambda>r. task_id r = tid \<and> status r = Queued)
      (\<lambda>r. r\<lparr>status := Running, started_at := Some now, updated_at := now\<rparr>)"
    using Some c by (auto simp: claim_next_def claim_update_def update_task_def count_rows_zero update_rows_none)
  have "deps_ok ?db"
    unfolding deps_ok_def
  proof (intro ballI impI)
    fix r' assume r': "r' \<in> set (tasks ?db)" "started (status r')"
    from r'(1) obtain r where r: "r \<in> set (tasks db)"
      "r' = (if task_id r = tid \<and> status r = Queued
             then r\<lparr>status := Running, started_at := Some now, updated_at := now\<rparr> else r)"
      unfolding tasks by (auto simp: update_rows_def)
    have "dependency_ready db r"
    proof (cases "task_id r = tid \<and> status r = Queued")
      case True
      with find_task_in [OF ids r(1)] find_task_in [OF ids c(1)] c(2,3) show ?thesis by (simp add: claimable_def)
    next
      case False
      with r r'(2) inv show ?thesis by (simp add: table_inv_def deps_ok_def)
    qed
    then show "dependency_ready ?db r'" using m by (rule dependency_ready_moves [rotated 2]) (simp add: r(2))
  qed
  with inv moves_ids [OF m] unique_active_moves [OF m] rows_ok_moves [OF m] events_ok_moves [OF m]
  show ?thesis by (simp add: table_inv_def)
qed

subsection \<open>Enqueueing\<close>

lemma new_task_simps [simp]:
  "task_id (new_task tid now a) = tid" "status (new_task tid now a) = Queued"
  "dependency_task_id (new_task tid now a) = ea_dependency_task_id a"
  "batch_id (new_task tid now a) = ea_batch_id a"
  "dedupe_key (new_task tid now a) = enqueue_key a" "active (new_task tid now a)" "row_ok (new_task tid now a)"
  by (simp_all add: new_task_def dedupe_key_def enqueue_key_def active_terminal row_ok_def)

lemma find_task_append:
  "find_task (ts @ [t]) i = (case find_task ts i of Some r \<Rightarrow> Some r | None \<Rightarrow> if task_id t = i then Some t else None)"
  by (induction ts) (auto simp: find_task_def)

lemma table_inv_append:
  assumes inv: "table_inv db" and "appends_task db db'"
  shows "table_inv db'"
proof -
  from assms(2) obtain tid now a where t: "tasks db' = tasks db @ [new_task tid now a]"
    and fresh: "tid \<notin> task_id ` set (tasks db)"
    and key: "\<And>r. r \<in> set (tasks db) \<Longrightarrow> active r \<Longrightarrow> dedupe_key r \<noteq> enqueue_key a"
    and ev: "terminal_events db' = terminal_events db"
    unfolding appends_task_def enqueue_conflict_def by blast
  have none: "find_task (tasks db) tid = None" using fresh by (simp add: find_task_None)
  have "ids_distinct db'" using table_invD(1) [OF inv] fresh by (simp add: t)
  moreover have "unique_active db'"
    unfolding unique_active_def
  proof (intro ballI impI)
    fix r x assume h: "r \<in> set (tasks db')" "x \<in> set (tasks db')" "active r" "active x"
      "dedupe_key r = dedupe_key x"
    from h(1,2) consider "r \<in> set (tasks db)" "x \<in> set (tasks db)"
      | "r \<in> set (tasks db)" "x = new_task tid now a" | "r = new_task tid now a" "x \<in> set (tasks db)"
      | "r = new_task tid now a" "x = new_task tid now a" by (auto simp: t)
    then show "task_id r = task_id x"
    proof cases
      case 1
      with h(3,4,5) table_invD(2) [OF inv] show ?thesis unfolding unique_active_def by blast
    next
      case 2
      with h(3,5) key [of r] show ?thesis by simp
    next
      case 3
      with h(4,5) key [of x] show ?thesis by simp
    qed simp
  qed
  moreover have "rows_ok db'" using table_invD(3) [OF inv] by (auto simp: rows_ok_def t)
  moreover have "deps_ok db'"
    unfolding deps_ok_def
  proof (intro ballI impI)
    fix r assume r: "r \<in> set (tasks db')" "started (status r)"
    then have "r \<in> set (tasks db)" by (auto simp: t started_def)
    with r(2) inv have "dependency_ready db r" by (simp add: table_inv_def deps_ok_def)
    then show "dependency_ready db' r"
      by (auto simp: dependency_ready_def t find_task_append split: option.splits)
  qed
  moreover have "events_ok db'"
    unfolding events_ok_def
  proof (intro conjI allI)
    show "distinct (map te_task_id (terminal_events db'))"
      using table_invD(5) [OF inv] by (simp add: events_ok_def ev)
    fix i s
    have "(\<exists>e \<in> set (terminal_events db). te_task_id e = i \<and> te_status e = s)
        \<longleftrightarrow> terminal s \<and> (\<exists>r. find_task (tasks db) i = Some r \<and> status r = s)"
      using table_invD(5) [OF inv] unfolding events_ok_def by blast
    also have "\<dots> \<longleftrightarrow> terminal s \<and> (\<exists>r. find_task (tasks db') i = Some r \<and> status r = s)"
      using none by (auto simp: t find_task_append split: option.splits)
    finally show "(\<exists>e \<in> set (terminal_events db'). te_task_id e = i \<and> te_status e = s)
        \<longleftrightarrow> terminal s \<and> (\<exists>r. find_task (tasks db') i = Some r \<and> status r = s)"
      by (simp add: ev)
  qed
  ultimately show ?thesis by (simp add: table_inv_def)
qed

lemma table_inv_step: "queue_step db db' \<Longrightarrow> table_inv db \<Longrightarrow> table_inv db'"
  by (erule queue_step_kinds [OF _ table_invD(1)])
    (auto intro: table_inv_append table_inv_claim table_inv_moves table_inv_same)

lemma table_inv_run:
  assumes "queue_run db db'" and "table_inv db"
  shows "table_inv db'"
  using assms by (induction rule: rtranclp_induct) (auto intro: table_inv_step)

lemma table_inv_empty: "table_inv empty_queue"
  by (simp add: table_inv_def empty_queue_def unique_active_def rows_ok_def deps_ok_def events_ok_def find_task_def)

subsection \<open>What a run keeps of a row\<close>

text \<open>Along any run a row keeps its identity, and keeps its outcome once it has finished.\<close>

lemma step_row:
  assumes "queue_step db db'" and ids: "ids_distinct db" and r: "find_task (tasks db) i = Some r"
  obtains r' where "find_task (tasks db') i = Some r'" "row_moves task_edge r r'"
  using assms(1) ids
proof (cases rule: queue_step_kinds)
  case append
  with r that show ?thesis by (auto simp: appends_task_def find_task_append)
next
  case (claim media pool excl now)
  from claim_next_moves [OF ids, of media pool excl now] r obtain r'
    where "find_task (tasks db') i = Some r'" "row_moves claim_edge r r'"
    unfolding claim by (rule moves_some)
  with that show ?thesis using row_moves_weaken edge_task_edge(1) by blast
next
  case (move E)
  from move(1) r obtain r' where "find_task (tasks db') i = Some r'" "row_moves E r r'" by (rule moves_some)
  with that move(2) show ?thesis using row_moves_weaken unfolding no_start_def by blast
next
  case same
  with r that show ?thesis by (simp add: same_tasks_def)
qed

lemma run_terminal_row:
  assumes "queue_run db db'" and "table_inv db" and "find_task (tasks db) i = Some r" and "terminal (status r)"
  shows "\<exists>r'. find_task (tasks db') i = Some r' \<and> same_identity r r' \<and> status r' = status r \<and> same_outcome r r'"
  using assms(1)
proof (induction rule: rtranclp_induct)
  case base
  then show ?case using assms(3) by (auto simp: same_identity_def same_outcome_def)
next
  case (step b c)
  from step.IH obtain r' where r': "find_task (tasks b) i = Some r'" "same_identity r r'" "status r' = status r"
    "same_outcome r r'" by blast
  have "ids_distinct b" using table_inv_run [OF step.hyps(1) assms(2)] by (rule table_invD(1))
  with step.hyps(2) obtain r'' where "find_task (tasks c) i = Some r''" "row_moves task_edge r' r''"
    using r'(1) by (rule step_row)
  with r' assms(4) show ?case by (auto simp: row_moves_def same_identity_def same_outcome_def)
qed

text \<open>A written checkpoint stays.\<close>

lemma run_row:
  assumes "queue_run db db'" and "table_inv db" and "find_task (tasks db) i = Some r"
  shows "\<exists>r'. find_task (tasks db') i = Some r' \<and> same_identity r r'
    \<and> (execution_checkpoint_json r \<noteq> None \<longrightarrow> execution_checkpoint_json r' = execution_checkpoint_json r)"
  using assms(1)
proof (induction rule: rtranclp_induct)
  case base
  then show ?case using assms(3) by (auto simp: same_identity_def)
next
  case (step b c)
  from step.IH obtain r' where r': "find_task (tasks b) i = Some r'" "same_identity r r'"
    "execution_checkpoint_json r \<noteq> None \<longrightarrow> execution_checkpoint_json r' = execution_checkpoint_json r" by blast
  have "ids_distinct b" using table_inv_run [OF step.hyps(1) assms(2)] by (rule table_invD(1))
  with step.hyps(2) obtain r'' where "find_task (tasks c) i = Some r''" "row_moves task_edge r' r''"
    using r'(1) by (rule step_row)
  with r' show ?case by (auto simp: row_moves_def same_identity_def)
qed

end
