(* ===== verification/Task_Cause.thy ===== *)
theory Task_Cause
  imports Task_Invariant
begin

text \<open>
  Every task the failure cascade fails has a cause: its dependency is the task the operation was
  called for, or has itself been failed by the operation. With \<open>Task_Settle\<close> this makes the set
  of failed tasks exactly the queued tasks reachable along the dependency edges.
\<close>

text \<open>The dependency column never changes, so it is fixed while the cascade runs.\<close>

definition dep_of :: "queue_db \<Rightarrow> string \<Rightarrow> string option option" where
  "dep_of db i = map_option dependency_task_id (find_task (tasks db) i)"

lemma dep_of_moves: "moves E db db' \<Longrightarrow> dep_of db' = dep_of db"
proof
  fix i assume "moves E db db'"
  then have "rel_option (row_moves E) (find_task (tasks db) i) (find_task (tasks db') i)"
    by (auto simp: moves_def intro: table_moves_find)
  then show "dep_of db' i = dep_of db i"
    by (cases "find_task (tasks db) i"; cases "find_task (tasks db') i")
      (auto simp: dep_of_def row_moves_def same_identity_def)
qed

lemma newly_refl: "\<not> newly db db i s"
  by (auto simp: newly_def split: option.splits)

definition caused ::
  "(string \<Rightarrow> string option option) \<Rightarrow> string \<Rightarrow> 'c \<times> queue_db \<Rightarrow> 'c \<times> queue_db \<Rightarrow> bool" where
  "caused D tid s s' \<longleftrightarrow>
     (ids_distinct (snd s) \<and> dep_of (snd s) = D \<longrightarrow>
        moves fail_edge (snd s) (snd s')
        \<and> (\<forall>i. newly (snd s) (snd s') i Failed \<longrightarrow>
             (\<exists>d. D i = Some (Some d) \<and> (d = tid \<or> newly (snd s) (snd s') d Failed))))"

interpretation caused_by: state_preorder "caused D tid :: nat \<times> queue_db \<Rightarrow> nat \<times> queue_db \<Rightarrow> bool" for D tid
proof
  fix s t u :: "nat \<times> queue_db"
  assume st: "caused D tid s t" and tu: "caused D tid t u"
  show "caused D tid s u"
    unfolding caused_def
  proof
    assume s: "ids_distinct (snd s) \<and> dep_of (snd s) = D"
    with st have 1: "moves fail_edge (snd s) (snd t)" by (simp add: caused_def del: fail_edge.simps)
    have t: "ids_distinct (snd t) \<and> dep_of (snd t) = D" using s moves_ids [OF 1] dep_of_moves [OF 1] by simp
    with tu have 2: "moves fail_edge (snd t) (snd u)" by (simp add: caused_def del: fail_edge.simps)
    have new: "newly (snd s) (snd u) i Failed \<longleftrightarrow> newly (snd s) (snd t) i Failed \<or> newly (snd t) (snd u) i Failed" for i
      using newly_trans 1 2 unfolding moves_def by blast
    show "moves fail_edge (snd s) (snd u)
        \<and> (\<forall>i. newly (snd s) (snd u) i Failed \<longrightarrow>
             (\<exists>d. D i = Some (Some d) \<and> (d = tid \<or> newly (snd s) (snd u) d Failed)))"
      using moves_trans [OF composes_edges(3) 1 2] s t st tu unfolding new caused_def by blast
  qed
qed (auto simp: caused_def newly_refl)

lemma fold_opt_R_mem:
  assumes "\<And>x s s'. x \<in> set xs \<Longrightarrow> f x s = Some s' \<Longrightarrow> caused D tid s s'" and "fold_opt f xs s = Some s'"
  shows "caused D tid s (s' :: nat \<times> queue_db)"
proof -
  define g where "g x s = (if x \<in> set xs then f x s else None)" for x s
  have "fold_opt g ys s = fold_opt f ys s" if "set ys \<subseteq> set xs" for ys s
    using that by (induction ys arbitrary: s) (auto simp: g_def split: option.splits)
  then have run: "fold_opt g xs s = Some s'" using assms(2) by simp
  show ?thesis
    by (rule caused_by.fold_opt_R [OF _ run]) (use assms(1) in \<open>auto simp: g_def split: if_splits\<close>)
qed

lemma cascade_failed_caused:
  "cascade_failed_queued fuel tid msg now db = Some s' \<Longrightarrow> ids_distinct db \<Longrightarrow> caused (dep_of db) tid (0, db) s'"
proof (induction fuel arbitrary: tid db s')
  case (Suc fuel)
  have run: "fold_opt (fail_body fuel tid msg now) (map task_id (queued_dependents tid db)) (0, db) = Some s'"
    using Suc.prems(1) unfolding cascade_failed_Suc .
  show ?case
  proof (rule fold_opt_R_mem [OF _ run])
    fix dep and s t :: "nat \<times> queue_db"
    assume dep: "dep \<in> set (map task_id (queued_dependents tid db))"
      and b: "fail_body fuel tid msg now dep s = Some t"
    have D: "dep_of db dep = Some (Some tid)"
      using dep find_task_in [OF Suc.prems(2)] by (auto simp: queued_dependents_def dep_of_def)
    obtain c d where s: "s = (c, d)" by (rule prod.exhaust)
    obtain c' d' where t: "t = (c', d')" by (rule prod.exhaust)
    show "caused (dep_of db) tid s t"
    proof (cases "ids_distinct d \<and> dep_of d = dep_of db")
      case True
      then have ids: "ids_distinct d" and same: "dep_of d = dep_of db" by simp_all
      from b [unfolded s t] ids show ?thesis
      proof (cases rule: fail_body_cases)
        case skip
        then show ?thesis by (auto simp: s t caused_def newly_def split: option.splits)
      next
        case (fail d1 n r r')
        have ids1: "ids_distinct d1" using ids moves_ids [OF fail(1)] by simp
        have same1: "dep_of d1 = dep_of db" using dep_of_moves [OF fail(1)] same by simp
        from Suc.IH [OF fail(2) ids1] ids1
        have m1: "moves fail_edge d1 d'" and c1: "\<And>i. newly d1 d' i Failed \<Longrightarrow>
            \<exists>e. dep_of db i = Some (Some e) \<and> (e = dep \<or> newly d1 d' e Failed)"
          unfolding caused_def snd_conv same1 by blast+
        have m: "moves fail_edge d d'" using moves_trans [OF composes_edges(3) fail(1) m1] .
        have new: "newly d d' i Failed \<longleftrightarrow> newly d d1 i Failed \<or> newly d1 d' i Failed" for i
          using newly_trans fail(1) m1 unfolding moves_def by blast
        have "newly d d1 dep Failed" using fail(3-6) by (simp add: newly_def)
        with c1 fail(7) D have "newly d d' i Failed \<Longrightarrow>
            \<exists>e. dep_of db i = Some (Some e) \<and> (e = tid \<or> newly d d' e Failed)" for i
          unfolding new by blast
        with m show ?thesis unfolding caused_def s t snd_conv by blast
      qed
    qed (auto simp: caused_def s)
  qed
qed simp

lemma mark_failed_caused:
  assumes ids: "ids_distinct db" and f: "mark_failed tid msg now db = Inr (n, db')" and new: "newly db db' i Failed"
  shows "i = tid \<or> (\<exists>d. dep_of db i = Some (Some d) \<and> (d = tid \<or> newly db db' d Failed))"
proof -
  obtain a d1 where r: "mark_failed_running tid msg now db = (a, d1)" by (rule prod.exhaust)
  have m: "moves fail_edge db d1"
    using fail_task_moves [OF ids, of Running tid msg now] r by (simp add: mark_failed_running_def)
  have ids1: "ids_distinct d1" using ids moves_ids [OF m] by simp
  show ?thesis
  proof (cases "a = 0")
    case True
    with r f new show ?thesis by (auto simp: mark_failed_def newly_def split: option.splits)
  next
    case False
    with r f obtain b where c: "cascade_failed_queued (Suc (length (tasks d1))) tid msg now d1 = Some (b, db')"
      by (auto simp: mark_failed_def split: option.splits)
    from cascade_failed_caused [OF c ids1] ids1
    have m1: "moves fail_edge d1 db'" and c1: "\<And>i. newly d1 db' i Failed \<Longrightarrow>
        \<exists>d. dep_of d1 i = Some (Some d) \<and> (d = tid \<or> newly d1 db' d Failed)"
      unfolding caused_def snd_conv by blast+
    have nw: "newly db db' j Failed \<longleftrightarrow> newly db d1 j Failed \<or> newly d1 db' j Failed" for j
      using newly_trans m m1 unfolding moves_def by blast
    show ?thesis
      using new c1 fail_task_newly [OF ids r [unfolded mark_failed_running_def]] dep_of_moves [OF m]
      unfolding nw by metis
  qed
qed

end
