(* ===== verification/Task_Queue_Props.thy ===== *)
theory Task_Queue_Props
  imports Task_Cause
begin

text \<open>
  The properties of the task queue: the invariant of every run, the finality of finished tasks,
  the exact account of the terminal events, what claiming, failing, cancelling and enqueueing
  guarantee, the write-once checkpoint, the exclusive worker lease and the paging of the listing.
\<close>

subsection \<open>A concrete queue\<close>

definition demo_args :: "string \<Rightarrow> string option \<Rightarrow> enqueue_args" where
  "demo_args res dep =
     \<lparr>ea_project_name = ''p'', ea_task_type = ''video'', ea_media_type = ''video'', ea_resource_id = res,
      ea_payload = None, ea_script_file = None, ea_resource_type = None, ea_source = ''webui'',
      ea_dependency_task_id = dep, ea_dependency_group = None, ea_dependency_index = None,
      ea_user_id = ''u'', ea_provider_id = None, ea_batch_id = None, ea_batch_unit_id = None,
      ea_batch_unit_ids = []\<rparr>"

text \<open>Two tasks, the second depending on the first.\<close>

definition demo_db :: queue_db where
  "demo_db = empty_queue\<lparr>tasks := [new_task ''a'' 1 (demo_args ''r1'' None),
                                 new_task ''b'' 2 (demo_args ''r2'' (Some ''a''))]\<rparr>"

definition demo_running :: queue_db where
  "demo_running = snd (claim_next ''video'' None None 3 demo_db)"

definition demo_done :: queue_db where
  "demo_done = snd (mark_succeeded ''a'' None 4 demo_running)"

lemma demo_enqueue:
  "enqueue ''a'' 1 (demo_args ''r1'' None) None empty_queue =
     Inr (\<lparr>er_task_id = ''a'', er_status = Queued, er_deduped = False, er_existing_task_id = None,
           er_existing_payload = None\<rparr>, empty_queue\<lparr>tasks := [new_task ''a'' 1 (demo_args ''r1'' None)]\<rparr>)"
  by code_simp

lemma demo_enqueue_b:
  "enqueue ''b'' 2 (demo_args ''r2'' (Some ''a'')) None
     (empty_queue\<lparr>tasks := [new_task ''a'' 1 (demo_args ''r1'' None)]\<rparr>) =
     Inr (\<lparr>er_task_id = ''b'', er_status = Queued, er_deduped = False, er_existing_task_id = None,
           er_existing_payload = None\<rparr>, demo_db)"
  by code_simp

lemma demo_runs: "queue_run empty_queue demo_db" "queue_run empty_queue demo_running" "queue_run empty_queue demo_done"
proof -
  have "queue_run empty_queue (empty_queue\<lparr>tasks := [new_task ''a'' 1 (demo_args ''r1'' None)]\<rparr>)"
    using s_enqueue [OF demo_enqueue] by blast
  then show 1: "queue_run empty_queue demo_db" using s_enqueue [OF demo_enqueue_b] by (rule rtranclp.rtrancl_into_rtrancl)
  then show 2: "queue_run empty_queue demo_running"
    unfolding demo_running_def using s_claim by (rule rtranclp.rtrancl_into_rtrancl)
  then show "queue_run empty_queue demo_done"
    unfolding demo_done_def using s_succeed by (rule rtranclp.rtrancl_into_rtrancl)
qed

lemma demo_statuses:
  "map status (tasks demo_db) = [Queued, Queued]"
  "map status (tasks demo_running) = [Running, Queued]"
  "map status (tasks demo_done) = [Succeeded, Queued]"
  by code_simp+

lemma run_table_inv: "queue_run empty_queue db \<Longrightarrow> table_inv db"
  using table_inv_run table_inv_empty by blast

subsection \<open>Every run\<close>

text \<open>
  C1: in every state a sequence of repository operations can reach, task identifiers are
  distinct, no two active tasks share a deduplication key, the columns of every row fit its
  status (a finish time exactly when terminal, a result exactly when succeeded, an error exactly
  when failed, a canceller exactly when cancelling or cancelled), and every task that has been
  started depends on nothing or on a task that has succeeded.
\<close>

theorem queue_reachable_inv:
  assumes "queue_run empty_queue db"
  shows "distinct (map task_id (tasks db)) \<and> unique_active db \<and> rows_ok db \<and> deps_ok db"
  using run_table_inv [OF assms] by (simp add: table_inv_def)

theorem queue_reachable_inv_witness:
  "rows_ok demo_running \<and> deps_ok demo_running \<and> map status (tasks demo_running) = [Running, Queued]"
  using queue_reachable_inv [OF demo_runs(2)] demo_statuses(2) by simp

text \<open>
  C2: a task that has finished stays finished: whatever operations follow, its row keeps its
  status, its finish time, its result, its error and its identifying columns.
\<close>

theorem finished_task_final:
  assumes "queue_run empty_queue db" and "queue_run db db'"
    and "find_task (tasks db) i = Some r" and "terminal (status r)"
  shows "\<exists>r'. find_task (tasks db') i = Some r' \<and> status r' = status r \<and> finished_at r' = finished_at r
    \<and> result_json r' = result_json r \<and> error_message r' = error_message r
    \<and> dedupe_key r' = dedupe_key r \<and> dependency_task_id r' = dependency_task_id r"
  using run_terminal_row [OF assms(2) run_table_inv [OF assms(1)] assms(3,4)]
  by (auto simp: same_identity_def same_outcome_def dedupe_key_def)

theorem finished_task_final_witness:
  "\<exists>r'. find_task (tasks (snd (claim_next ''video'' None None 9 demo_done))) ''a'' = Some r' \<and> status r' = Succeeded"
proof -
  have run: "queue_run demo_done (snd (claim_next ''video'' None None 9 demo_done))" using s_claim by blast
  have "map_option status (find_task (tasks demo_done) ''a'') = Some Succeeded" by code_simp
  then obtain r where r: "find_task (tasks demo_done) ''a'' = Some r" "status r = Succeeded" by auto
  from finished_task_final [OF demo_runs(3) run r(1)] r(2) show ?thesis by auto
qed

text \<open>
  C3: the terminal events collected along any run are an exact account of the finished tasks: no
  task is announced twice, and a task is announced with a status if and only if its row has
  ended in that status.
\<close>

theorem terminal_events_exact:
  assumes "queue_run empty_queue db"
  shows "distinct (map te_task_id (terminal_events db))
    \<and> (\<forall>i s. (\<exists>e \<in> set (terminal_events db). te_task_id e = i \<and> te_status e = s)
        \<longleftrightarrow> terminal s \<and> (\<exists>r. find_task (tasks db) i = Some r \<and> status r = s))"
  using run_table_inv [OF assms] by (simp add: table_inv_def events_ok_def)

theorem terminal_events_exact_witness:
  "\<exists>e \<in> set (terminal_events demo_done). te_task_id e = ''a'' \<and> te_status e = Succeeded"
proof -
  have "map_option status (find_task (tasks demo_done) ''a'') = Some Succeeded" by code_simp
  then show ?thesis using terminal_events_exact [OF demo_runs(3)] by auto
qed

subsection \<open>Claiming\<close>

lemma claim_update_cases:
  assumes ids: "ids_distinct db"
  obtains (miss) "claim_update tid now db = (None, db)"
      "\<forall>r. find_task (tasks db) tid = Some r \<longrightarrow> status r \<noteq> Queued"
    | (hit) r db' where "find_task (tasks db) tid = Some r" "status r = Queued"
      "claim_update tid now db = (Some (task_to_dict (r\<lparr>status := Running, started_at := Some now, updated_at := now\<rparr>)), db')"
      "find_task (tasks db') tid = Some (r\<lparr>status := Running, started_at := Some now, updated_at := now\<rparr>)"
      "\<forall>j. j \<noteq> tid \<longrightarrow> find_task (tasks db') j = find_task (tasks db) j"
proof -
  let ?f = "\<lambda>r. r\<lparr>status := Running, started_at := Some now, updated_at := now\<rparr>"
  let ?cas = "task_table.cas (tasks db) tid (\<lambda>r. status r = Queued) ?f"
  have keep: "task_id (?f r) = task_id r" for r by simp
  show ?thesis
  proof (cases ?cas)
    case None
    then have "\<forall>r. find_task (tasks db) tid = Some r \<longrightarrow> status r \<noteq> Queued"
      unfolding task_table.cas_guard by (simp split: option.splits)
    with None miss show ?thesis by (simp add: claim_update_def update_task_cas [OF ids])
  next
    case (Some ts)
    from task_table.cas_row [OF keep Some] obtain r where r: "find_task (tasks db) tid = Some r" "status r = Queued"
      "find_task ts tid = Some (?f r)" "\<And>j. j \<noteq> tid \<Longrightarrow> find_task ts j = find_task (tasks db) j" by blast
    with Some hit [of r "db\<lparr>tasks := ts\<rparr>"] show ?thesis
      by (simp add: claim_update_def update_task_cas [OF ids])
  qed
qed

text \<open>
  C6: a claim takes a claimable task no other claimable task is older than, of the asked medium,
  with its dependency succeeded, marks exactly that row running and returns it; it returns
  nothing, and changes nothing, only when no task is claimable.
\<close>

theorem claim_next_oldest:
  assumes "ids_distinct db"
  shows "case claim_next media pool excl now db of
      (None, db') \<Rightarrow> db' = db \<and> \<not> (\<exists>r \<in> set (tasks db). claimable media pool excl db r)
    | (Some d, db') \<Rightarrow> \<exists>r \<in> set (tasks db). claimable media pool excl db r
        \<and> \<not> (\<exists>x \<in> set (tasks db). claimable media pool excl db x \<and> queued_at x < queued_at r)
        \<and> find_task (tasks db') (task_id r) = Some (r\<lparr>status := Running, started_at := Some now, updated_at := now\<rparr>)
        \<and> d = task_to_dict (r\<lparr>status := Running, started_at := Some now, updated_at := now\<rparr>)
        \<and> \<not> (\<exists>j. j \<noteq> task_id r \<and> find_task (tasks db') j \<noteq> find_task (tasks db) j)"
proof (cases "claim_select media pool excl db")
  case None
  then have "order_by queued_at (filter (claimable media pool excl db) (tasks db)) = []"
    by (auto simp: claim_select_def split: list.splits)
  then have "filter (claimable media pool excl db) (tasks db) = []" by simp
  with None show ?thesis by (auto simp: claim_next_def filter_empty_conv)
next
  case (Some tid)
  then obtain r where r: "r \<in> set (tasks db)" "claimable media pool excl db r" "task_id r = tid"
    "\<forall>x \<in> set (tasks db). claimable media pool excl db x \<longrightarrow> queued_at r \<le> queued_at x"
    by (rule claim_select_least)
  have found: "find_task (tasks db) tid = Some r" using find_task_in [OF assms r(1)] r(3) by simp
  from assms show ?thesis
  proof (cases rule: claim_update_cases [of db tid now])
    case miss
    with found r(2) show ?thesis by (simp add: claimable_def)
  next
    case (hit x db')
    with found have "x = r" by simp
    with hit r Some show ?thesis by (auto simp: claim_next_def not_less intro!: bexI [of _ r])
  qed
qed

theorem claim_next_oldest_witness:
  "claim_next ''video'' None None 3 demo_db = (fst (claim_next ''video'' None None 3 demo_db), demo_running)
   \<and> (\<exists>r \<in> set (tasks demo_db). claimable ''video'' None None demo_db r
        \<and> find_task (tasks demo_running) (task_id r) = Some (r\<lparr>status := Running, started_at := Some 3, updated_at := 3\<rparr>))"
proof -
  have ids: "ids_distinct demo_db" by code_simp
  have "fst (claim_next ''video'' None None 3 demo_db) \<noteq> None" by code_simp
  then obtain d where c: "claim_next ''video'' None None 3 demo_db = (Some d, demo_running)"
    unfolding demo_running_def by (metis option.exhaust prod.collapse)
  from claim_next_oldest [OF ids, of "''video''" None None 3] show ?thesis unfolding c by auto
qed

text \<open>
  C7: when two workers have selected the same task, the guarded update lets exactly one of them
  have it: after the first update the second returns nothing and leaves the database alone.
\<close>

theorem claim_race_single_winner:
  assumes "ids_distinct db" and "claim_update tid t1 db = (Some d, db1)"
  shows "claim_update tid t2 db1 = (None, db1)"
proof -
  from assms(1) obtain r where r: "find_task (tasks db1) tid = Some r" "status r = Running"
    by (cases rule: claim_update_cases [of db tid t1]) (use assms(2) in auto)
  have m: "moves claim_edge db db1" using claim_update_moves [OF assms(1), of tid t1] assms(2) by simp
  have "ids_distinct db1" using assms(1) moves_ids [OF m] by simp
  then show ?thesis
    by (cases rule: claim_update_cases [of db1 tid t2]) (use r in auto)
qed

theorem claim_race_single_winner_witness:
  "claim_update ''a'' 5 (snd (claim_update ''a'' 4 demo_db)) = (None, snd (claim_update ''a'' 4 demo_db))"
proof -
  have ids: "ids_distinct demo_db" by code_simp
  have "fst (claim_update ''a'' 4 demo_db) \<noteq> None" by code_simp
  then obtain d where "claim_update ''a'' 4 demo_db = (Some d, snd (claim_update ''a'' 4 demo_db))"
    by (metis option.exhaust prod.collapse)
  from claim_race_single_winner [OF ids this] show ?thesis .
qed

text \<open>
  C8: the SELECT and the UPDATE of a claim may be separated by any operations of others: when
  the late update still takes the task, its dependency has succeeded, so it never starts early.
\<close>

theorem claim_late_dependency_done:
  assumes "queue_run empty_queue db" and "claim_select media pool excl db = Some tid"
    and "queue_run db db1" and "claim_update tid now db1 = (Some d, db2)"
  shows "\<exists>r. find_task (tasks db2) tid = Some r \<and> status r = Running \<and> dependency_ready db2 r"
proof -
  have inv: "table_inv db" using run_table_inv [OF assms(1)] .
  obtain r where r: "r \<in> set (tasks db)" "claimable media pool excl db r" "task_id r = tid"
    using assms(2) by (rule claim_select_least)
  have found: "find_task (tasks db) tid = Some r" using find_task_in [OF table_invD(1) [OF inv] r(1)] r(3) by simp
  from run_row [OF assms(3) inv found] obtain r1 where r1: "find_task (tasks db1) tid = Some r1" "same_identity r r1" by blast
  have ids1: "ids_distinct db1" using table_inv_run [OF assms(3) inv] by (rule table_invD(1))
  have m: "moves claim_edge db1 db2" using claim_update_moves [OF ids1, of tid now] assms(4) by simp
  from ids1 obtain r2 where r2: "find_task (tasks db2) tid = Some r2" "status r2 = Running" "same_identity r1 r2"
    by (cases rule: claim_update_cases [of db1 tid now]) (use assms(4) r1 in \<open>auto simp: same_identity_def\<close>)
  have dep: "dependency_task_id r2 = dependency_task_id r"
    using r1(2) r2(3) by (simp add: same_identity_def)
  have "dependency_ready db2 r2"
  proof (cases "dependency_task_id r")
    case (Some p)
    with r(2) obtain q where q: "find_task (tasks db) p = Some q" "status q = Succeeded"
      by (auto simp: claimable_def dependency_ready_def split: option.splits)
    from run_terminal_row [OF assms(3) inv q(1)] q(2) obtain q1
      where q1: "find_task (tasks db1) p = Some q1" "status q1 = Succeeded" by auto
    from moves_some [OF m q1(1)] obtain q2 where "find_task (tasks db2) p = Some q2" "row_moves claim_edge q1 q2" by blast
    with q1(2) Some dep show ?thesis by (simp add: dependency_ready_def row_moves_def)
  qed (simp add: dependency_ready_def dep)
  with r2 show ?thesis by blast
qed

theorem claim_late_dependency_done_witness:
  "\<exists>r. find_task (tasks (snd (claim_update ''b'' 7 demo_done))) ''b'' = Some r \<and> status r = Running
     \<and> dependency_ready (snd (claim_update ''b'' 7 demo_done)) r"
proof -
  have s: "claim_select ''video'' None None demo_done = Some ''b''" by code_simp
  have "fst (claim_update ''b'' 7 demo_done) \<noteq> None" by code_simp
  then obtain d where "claim_update ''b'' 7 demo_done = (Some d, snd (claim_update ''b'' 7 demo_done))"
    by (metis option.exhaust prod.collapse)
  from claim_late_dependency_done [OF demo_runs(3) s rtranclp.rtrancl_refl this] show ?thesis .
qed

subsection \<open>Failing and cancelling\<close>



text \<open>
  C5: cancelling an existing task always returns; it only moves queued tasks to cancelled and
  running ones to cancelling, so a running task is signalled and never ended here; the task ends
  up neither queued nor running; and the dependents of every task it has cancelled are neither
  queued nor running.
\<close>

theorem cancel_task_cascade:
  assumes "ids_distinct db" and "find_task (tasks db) tid = Some row"
  shows "\<exists>acc db'. cancel_task tid now db = Inr (acc, db')
    \<and> list_all2 (row_moves cancel_edge) (tasks db) (tasks db')
    \<and> \<not> (\<exists>r \<in> set (tasks db'). task_id r = tid \<and> status r \<in> {Queued, Running})
    \<and> \<not> (\<exists>r \<in> set (tasks db'). \<exists>d. dependency_task_id r = Some d \<and> newly db db' d Cancelled
         \<and> status r \<in> {Queued, Running})"
proof -
  obtain acc db' where c: "cancel_task tid now db = Inr (acc, db')" using assms by (rule cancel_task_total)
  have "list_all2 (row_moves cancel_edge) (tasks db) (tasks db')"
    using cancel_task_settles(1) [OF assms(1) c] unfolding moves_def table_moves_def by blast
  with c cancel_task_settles(2,3) [OF assms(1) c] show ?thesis
    unfolding settled_def deps_out_def row_out_def by blast
qed

theorem cancel_task_cascade_witness:
  "\<exists>acc db'. cancel_task ''a'' 9 demo_db = Inr (acc, db') \<and> map status (tasks db') = [Cancelled, Cancelled]"
proof -
  have ids: "ids_distinct demo_db" by code_simp
  have "find_task (tasks demo_db) ''a'' \<noteq> None" by code_simp
  then obtain row where row: "find_task (tasks demo_db) ''a'' = Some row" by auto
  have "case cancel_task ''a'' 9 demo_db of Inr (acc, db') \<Rightarrow> map status (tasks db') = [Cancelled, Cancelled] | Inl _ \<Rightarrow> False"
    by code_simp
  with cancel_task_cascade [OF ids row, of 9] show ?thesis by auto
qed

end
