(* ===== verification/Task_Store_Props.thy ===== *)
theory Task_Store_Props
  imports Task_Queue_Props
begin

text \<open>
  Properties of the single-row operations of the queue: deduplicated enqueueing, the checkpoint
  that is written once, the payload fields, the worker lease, the paged listing, and the fate of
  a task enqueued behind a dependency that has already ended badly.
\<close>

subsection \<open>Enqueueing\<close>

lemma enqueue_match_key:
  "active_dedupe_match (ea_project_name a) (ea_user_id a) (ea_task_type a) (ea_script_file a) (ea_resource_type a) r
     \<and> resource_id r = ea_resource_id a \<longleftrightarrow> active r \<and> dedupe_key r = enqueue_key a"
  by (auto simp: active_dedupe_match_def dedupe_key_def enqueue_key_def coalesce_def or_str_def split: option.splits)

lemma enqueue_existing_key:
  "enqueue_existing a db =
     (case order_by (\<lambda>r. - queued_at r) (filter (\<lambda>r. active r \<and> dedupe_key r = enqueue_key a) (tasks db)) of
        [] \<Rightarrow> None | r # _ \<Rightarrow> Some r)"
  unfolding enqueue_existing_def enqueue_match_key ..

lemma enqueue_existing_active:
  assumes u: "unique_active db" and ids: "ids_distinct db"
    and r: "r \<in> set (tasks db)" "active r" "dedupe_key r = enqueue_key a"
  shows "enqueue_existing a db = Some r"
proof -
  let ?rs = "filter (\<lambda>r. active r \<and> dedupe_key r = enqueue_key a) (tasks db)"
  have "?rs \<noteq> []" using r by (auto simp: filter_empty_conv)
  then obtain x xs where x: "order_by (\<lambda>r. - queued_at r) ?rs = x # xs"
    by (cases "order_by (\<lambda>r. - queued_at r) ?rs") simp_all
  have "x \<in> set (order_by (\<lambda>r. - queued_at r) ?rs)" unfolding x by simp
  then have "x \<in> set ?rs" unfolding set_order_by .
  then have x': "x \<in> set (tasks db)" "active x" "dedupe_key x = enqueue_key a" by auto
  have key: "dedupe_key x = dedupe_key r" using x'(3) r(3) by (rule trans [OF _ sym])
  have "task_id x = task_id r"
    by (rule u [unfolded unique_active_def, rule_format, OF x'(1) r(1) x'(2) r(2) key])
  with ids x'(1) r(1) have xr: "x = r" by (intro find_task_unique)
  show ?thesis unfolding enqueue_existing_key x list.case xr ..
qed



subsection \<open>A dependency that has already ended\<close>

lemma dead_dependency_step:
  assumes "queue_step db db'" and inv: "table_inv db"
    and r: "find_task (tasks db) i = Some r" "dependency_task_id r = Some d" "status r \<in> {Queued, Cancelled}"
    and p: "find_task (tasks db) d = Some p" "status p \<in> {Failed, Cancelled}"
  shows "\<exists>r'. find_task (tasks db') i = Some r' \<and> dependency_task_id r' = Some d \<and> status r' \<in> {Queued, Cancelled}"
proof -
  note ids = table_invD(1) [OF inv]
  from step_row [OF assms(1) ids r(1)] obtain r' where r': "find_task (tasks db') i = Some r'" "row_moves task_edge r r'"
    by blast
  from step_row [OF assms(1) ids p(1)] obtain p' where p': "find_task (tasks db') d = Some p'" "row_moves task_edge p p'"
    by blast
  have dep: "dependency_task_id r' = Some d" using r(2) r'(2) by (simp add: row_moves_def same_identity_def)
  have dead: "status p' \<in> {Failed, Cancelled}" using p(2) p'(2) by (auto simp: row_moves_def)
  have "table_inv db'" using assms(1) inv by (rule table_inv_step)
  then have "\<not> started (status r')"
    using find_task_mem [OF r'(1)] dep p'(1) dead
    by (auto simp: table_inv_def deps_ok_def dependency_ready_def split: option.splits)
  moreover have "status r' \<noteq> Failed"
  proof
    assume failed: "status r' = Failed"
    with r(3) r'(2) have queued: "status r = Queued" by (auto simp: row_moves_def)
    from assms(1) ids show False
    proof (cases rule: queue_step_kinds)
      case append
      with r(1) r'(1) queued failed show ?thesis by (auto simp: appends_task_def find_task_append)
    next
      case (claim media pool excl now)
      from moves_some [OF claim_next_moves [OF ids, of media pool excl now] r(1)] r'(1) queued failed
      show ?thesis unfolding claim by (auto simp: row_moves_def edge_defs)
    next
      case (move E)
      from moves_some [OF move(1) r(1)] r'(1) queued failed have "E Queued Failed" by (auto simp: row_moves_def)
      with move(3) obtain tid msg now n where f: "mark_failed tid msg now db = Inr (n, db')" by blast
      have "newly db db' i Failed" using r(1) r'(1) queued failed by (simp add: newly_def)
      from mark_failed_caused [OF ids f this] r(1,2) have cause: "i = tid \<or> d = tid \<or> newly db db' d Failed"
        by (auto simp: dep_of_def)
      moreover have "\<not> newly db db' d Failed" using p by (auto simp: newly_def split: option.splits)
      moreover have "tid \<noteq> i \<and> tid \<noteq> d"
      proof (rule ccontr)
        assume h: "\<not> (tid \<noteq> i \<and> tid \<noteq> d)"
        have "\<forall>x \<in> set (tasks db). \<not> (task_id x = tid \<and> status x = Running)"
          using h find_task_in [OF ids] r(1) p queued by fastforce
        then have "mark_failed tid msg now db = Inr (0, db)"
          by (simp add: mark_failed_def mark_failed_running_def fail_task_def update_task_def count_rows_zero [THEN iffD2])
        with f have "db' = db" by simp
        with r(1) r'(1) queued failed show False by simp
      qed
      ultimately show ?thesis by blast
    next
      case same
      with r(1) r'(1) queued failed show ?thesis by (simp add: same_tasks_def)
    qed
  qed
  ultimately have "status r' \<in> {Queued, Cancelled}" by (cases "status r'") (simp_all add: started_def)
  with r'(1) dep show ?thesis by blast
qed

text \<open>
  C10: a queued task whose dependency has already failed or been cancelled is never run and never
  failed: whatever operations follow it stays queued, or is cancelled. The enqueue accepts such
  a dependency, so a task submitted after its dependency has ended badly waits for ever.
\<close>

theorem dead_dependency_waits:
  assumes "queue_run empty_queue db" and "queue_run db db'"
    and "find_task (tasks db) i = Some r" and "dependency_task_id r = Some d" and "status r = Queued"
    and "find_task (tasks db) d = Some p" and "status p \<in> {Failed, Cancelled}"
  shows "\<exists>r'. find_task (tasks db') i = Some r' \<and> status r' \<in> {Queued, Cancelled}"
proof -
  have inv: "table_inv db" using run_table_inv [OF assms(1)] .
  have "\<exists>r'. find_task (tasks db') i = Some r' \<and> dependency_task_id r' = Some d \<and> status r' \<in> {Queued, Cancelled}"
    using assms(2)
  proof (induction rule: rtranclp_induct)
    case base
    then show ?case using assms(3-5) by simp
  next
    case (step b c)
    then obtain x where x: "find_task (tasks b) i = Some x" "dependency_task_id x = Some d" "status x \<in> {Queued, Cancelled}"
      by blast
    from run_terminal_row [OF step.hyps(1) inv assms(6)] assms(7) obtain q
      where q: "find_task (tasks b) d = Some q" "status q = status p" by auto
    have "status q \<in> {Failed, Cancelled}" using q(2) assms(7) by simp
    with dead_dependency_step [OF step.hyps(2) table_inv_run [OF step.hyps(1) inv] x q(1)] show ?case .
  qed
  then show ?thesis by blast
qed

text \<open>The history: the dependency runs and fails, and only then its dependent is enqueued.\<close>

definition dead_db :: queue_db where
  "dead_db =
     (let db1 = snd (claim_next ''video'' None None 2 (empty_queue\<lparr>tasks := [new_task ''a'' 1 (demo_args ''r1'' None)]\<rparr>));
          db2 = (case mark_failed ''a'' ''x'' 3 db1 of Inr (n, db) \<Rightarrow> db | Inl _ \<Rightarrow> db1)
      in case enqueue ''b'' 4 (demo_args ''r2'' (Some ''a'')) None db2 of Inr (res, db) \<Rightarrow> db | Inl _ \<Rightarrow> db2)"

lemma dead_db_run: "queue_run empty_queue dead_db"
proof -
  have 1: "queue_run empty_queue (snd (claim_next ''video'' None None 2 (empty_queue\<lparr>tasks := [new_task ''a'' 1 (demo_args ''r1'' None)]\<rparr>)))"
    by (rule rtranclp.rtrancl_into_rtrancl [OF r_into_rtranclp [of queue_step, OF s_enqueue [OF demo_enqueue]] s_claim])
  have f: "queue_run db (case mark_failed tid msg now db of Inr (n, db') \<Rightarrow> db' | Inl _ \<Rightarrow> db)" for tid msg now db
    by (cases "mark_failed tid msg now db") (auto intro: s_fail)
  have e: "queue_run db (case enqueue tid now a g db of Inr (res, db') \<Rightarrow> db' | Inl _ \<Rightarrow> db)" for tid now a g db
    by (cases "enqueue tid now a g db") (auto intro: s_enqueue)
  show ?thesis
    unfolding dead_db_def Let_def by (rule rtranclp_trans [OF rtranclp_trans [OF 1 f] e])
qed

theorem dead_dependency_waits_witness:
  "\<exists>r'. find_task (tasks (snd (claim_next ''video'' None None 9 dead_db))) ''b'' = Some r' \<and> status r' \<in> {Queued, Cancelled}"
proof -
  have run: "queue_run dead_db (snd (claim_next ''video'' None None 9 dead_db))" using s_claim by blast
  have s: "map (\<lambda>r. (task_id r, dependency_task_id r, status r)) (tasks dead_db)
      = [(''a'', None, Failed), (''b'', Some ''a'', Queued)]"
    by code_simp
  then obtain p r where "tasks dead_db = [p, r]" by (auto simp: map_eq_Cons_conv)
  with s have "find_task (tasks dead_db) ''b'' = Some r" "find_task (tasks dead_db) ''a'' = Some p"
    "dependency_task_id r = Some ''a''" "status r = Queued" "status p \<in> {Failed, Cancelled}"
    by (auto simp: find_task_def)
  with dead_dependency_waits [OF dead_db_run run] show ?thesis by blast
qed

subsection \<open>The facts of a submission\<close>

text \<open>
  C11: the execution checkpoint of a task is written at most once: whatever operations follow a
  successful write, the stored text is still that of the write and a second write is refused.
\<close>

theorem checkpoint_written_once:
  assumes "queue_run empty_queue db" and "persist_execution_checkpoint tid c p now db = Inr db1" and "queue_run db1 db2"
  shows "(\<exists>r. find_task (tasks db2) tid = Some r \<and> execution_checkpoint_json r = Some c)
    \<and> persist_execution_checkpoint tid c' p' now' db2 = Inl (ValueError ''execution checkpoint persistence guard'')"
proof -
  let ?f = "\<lambda>r. r\<lparr>execution_checkpoint_json := Some c, provider_id := Some p, updated_at := now\<rparr>"
  have inv: "table_inv db" using run_table_inv [OF assms(1)] .
  have "queue_step db db1" using assms(2) by (rule s_checkpoint)
  then have inv1: "table_inv db1" using inv by (rule table_inv_step)
  have keep: "task_id (?f r) = task_id r" for r by simp
  have "\<exists>r. find_task (tasks db1) tid = Some r \<and> execution_checkpoint_json r = Some c"
  proof (cases "task_table.cas (tasks db) tid checkpoint_guard ?f")
    case None
    with assms(2) show ?thesis
      by (simp add: persist_execution_checkpoint_def update_task_cas [OF table_invD(1) [OF inv]])
  next
    case (Some ts)
    then have "tasks db1 = ts"
      using assms(2) by (auto simp: persist_execution_checkpoint_def update_task_cas [OF table_invD(1) [OF inv]])
    moreover from task_table.cas_row [OF keep Some] obtain r where "find_task ts tid = Some (?f r)" by blast
    ultimately show ?thesis by simp
  qed
  then obtain r where "find_task (tasks db1) tid = Some r" "execution_checkpoint_json r = Some c" by blast
  with run_row [OF assms(3) inv1] obtain r2 where r2: "find_task (tasks db2) tid = Some r2"
    "execution_checkpoint_json r2 = Some c" by force
  note ids = table_invD(1) [OF table_inv_run [OF assms(3) inv1]]
  have "task_table.cas (tasks db2) tid checkpoint_guard f = None" for f
    using r2 by (simp add: task_table.cas_guard checkpoint_guard_def)
  with r2 show ?thesis by (simp add: persist_execution_checkpoint_def update_task_cas [OF ids])
qed

theorem checkpoint_written_once_witness:
  "persist_execution_checkpoint ''a'' ''y'' ''q'' 6
     (case persist_execution_checkpoint ''a'' ''x'' ''p'' 5 demo_running of Inr db \<Rightarrow> db | Inl _ \<Rightarrow> demo_running)
   = Inl (ValueError ''execution checkpoint persistence guard'')"
proof -
  have "\<not> (case persist_execution_checkpoint ''a'' ''x'' ''p'' 5 demo_running of Inr db \<Rightarrow> False | Inl _ \<Rightarrow> True)"
    by code_simp
  then obtain db1 where w: "persist_execution_checkpoint ''a'' ''x'' ''p'' 5 demo_running = Inr db1"
    by (cases "persist_execution_checkpoint ''a'' ''x'' ''p'' 5 demo_running") auto
  from checkpoint_written_once [OF demo_runs(2) w rtranclp.rtrancl_refl] show ?thesis by (simp add: w)
qed

lemma loads_default_dict_ok:
  assumes "json_loads_default t (PDict []) = PDict d"
  shows "json_ok (PDict d)"
proof -
  have "PDict d = PDict [] \<or> (\<exists>s. json_loads s = Some (PDict d))"
    using assms by (auto simp: json_loads_default_def split: option.splits if_splits)
  then show ?thesis by (auto simp del: json_ok.simps(3) intro: json_loads_ok) simp
qed

lemma json_ok_dict_set: "json_ok (PDict d) \<Longrightarrow> json_ok v \<Longrightarrow> json_ok (PDict (dict_set d k v))"
proof -
  assume ok: "json_ok (PDict d)" "json_ok v"
  then have "list_all (\<lambda>kv. json_ok (snd kv)) (dict_set d k v)"
    by (induction d k v rule: dict_set.induct) auto
  with ok(1) show ?thesis by simp
qed

text \<open>
  storing the API call identifier rewrites the payload through JSON: reading it back gives
  the stored number under its key and every other entry of the payload as it was.
\<close>

theorem api_call_id_roundtrip:
  assumes "ids_distinct db" and "find_task (tasks db) tid = Some r"
    and "json_loads_default (payload_json r) (PDict []) = PDict d"
  shows "\<exists>db' r'. persist_api_call_id tid call_id now db = Inr db' \<and> find_task (tasks db') tid = Some r'
    \<and> json_loads_default (payload_json r') (PDict []) = PDict (dict_set d ''api_call_id'' (PInt call_id))"
proof -
  let ?d = "dict_set d ''api_call_id'' (PInt call_id)"
  let ?t = "json_dumps (PDict ?d)"
  let ?f = "\<lambda>r. r\<lparr>payload_json := Some ?t, updated_at := now\<rparr>"
  have ok: "json_ok (PDict d)" using assms(3) by (rule loads_default_dict_ok)
  then have "json_ok (PDict ?d)" by (rule json_ok_dict_set) simp
  then have reread: "json_loads ?t = Some (PDict ?d)" by (rule json_loads_dumps)
  have keep: "task_id (?f r) = task_id r" for r by simp
  have "task_table.cas (tasks db) tid (\<lambda>r. True) ?f \<noteq> None"
    using assms(2) by (simp add: task_table.cas_guard)
  then obtain ts where ts: "task_table.cas (tasks db) tid (\<lambda>r. True) ?f = Some ts" by blast
  from task_table.cas_row [OF keep ts] assms(2) have "find_task ts tid = Some (?f r)" by (metis option.inject)
  moreover have "persist_api_call_id tid call_id now db = Inr (db\<lparr>tasks := ts\<rparr>)"
    using assms(2,3) ts
    by (simp add: persist_api_call_id_def merge_payload_field_def Let_def update_task_cas [OF assms(1)] del: json_dumps.simps)
  ultimately show ?thesis
    using reread by (intro exI [of _ "db\<lparr>tasks := ts\<rparr>"] exI [of _ "?f r"])
      (simp add: json_loads_default_def del: json_dumps.simps, simp)
qed

theorem api_call_id_roundtrip_witness:
  "\<exists>db' r'. persist_api_call_id ''a'' 7 5 demo_db = Inr db' \<and> find_task (tasks db') ''a'' = Some r'
    \<and> json_loads_default (payload_json r') (PDict []) = PDict [(''api_call_id'', PInt 7)]"
proof -
  have ids: "ids_distinct demo_db" by code_simp
  have f: "find_task (tasks demo_db) ''a'' = Some (new_task ''a'' 1 (demo_args ''r1'' None))" by code_simp
  have p: "json_loads_default (payload_json (new_task ''a'' 1 (demo_args ''r1'' None))) (PDict []) = PDict []" by code_simp
  from api_call_id_roundtrip [OF ids f p, of 7 5] show ?thesis by simp
qed

subsection \<open>The worker lease\<close>

lemma get_lease_unique:
  assumes "distinct (map wl_name (leases db))" and "l \<in> set (leases db)" and "wl_name l = name"
  shows "get_worker_lease name db = Some l"
proof -
  obtain x where x: "get_worker_lease name db = Some x"
    using assms(2,3) unfolding get_worker_lease_def by (cases "find (\<lambda>l. wl_name l = name) (leases db)") (auto simp: find_None_iff)
  then have "x \<in> set (leases db)" "wl_name x = name" by (auto simp: get_worker_lease_def find_Some_iff)
  with assms have "x = l" by (auto simp: distinct_map inj_on_def)
  with x show ?thesis by simp
qed

lemma acquire_lease_row:
  assumes "distinct (map wl_name (leases db))" and "acquire_or_renew_lease name owner ttl e now db = (True, db1)"
  shows "distinct (map wl_name (leases db1))"
    and "\<exists>l \<in> set (leases db1). wl_name l = name \<and> wl_owner_id l = owner \<and> wl_lease_until l = e + max 1 ttl"
proof -
  let ?p = "\<lambda>l. wl_name l = name \<and> (wl_owner_id l = owner \<or> wl_lease_until l \<le> e)"
  let ?f = "\<lambda>l. l\<lparr>wl_owner_id := owner, wl_lease_until := e + max 1 ttl, wl_updated_at := now\<rparr>"
  consider (renew) "0 < count_rows (leases db) ?p" "db1 = db\<lparr>leases := update_rows (leases db) ?p ?f\<rparr>"
    | (insert) "name \<notin> wl_name ` set (leases db)"
      "db1 = db\<lparr>leases := leases db @ [\<lparr>wl_name = name, wl_owner_id = owner, wl_lease_until = e + max 1 ttl, wl_updated_at = now\<rparr>]\<rparr>"
    using assms(2) by (auto simp: acquire_or_renew_lease_def Let_def split: if_splits)
  then have "distinct (map wl_name (leases db1)) \<and>
      (\<exists>l \<in> set (leases db1). wl_name l = name \<and> wl_owner_id l = owner \<and> wl_lease_until l = e + max 1 ttl)"
  proof cases
    case renew
    from renew(1) obtain l where l: "l \<in> set (leases db)" "?p l"
      using count_rows_zero [of "leases db" ?p] by auto
    then have "?f l \<in> set (leases db1)" unfolding renew(2) by (auto simp: update_rows_def intro!: image_eqI [of _ _ l])
    with l(2) assms(1) renew(2) show ?thesis by (auto simp: map_update_rows intro!: bexI [of _ "?f l"])
  next
    case insert
    with assms(1) show ?thesis by simp
  qed
  then show "distinct (map wl_name (leases db1))"
    "\<exists>l \<in> set (leases db1). wl_name l = name \<and> wl_owner_id l = owner \<and> wl_lease_until l = e + max 1 ttl" by simp_all
qed

text \<open>
  C12: a worker lease excludes every other owner until it runs out: before that time another
  owner's request is refused and its release has no effect, and the worker counts as online;
  from that time on another owner gets the lease.
\<close>

theorem lease_exclusive:
  assumes "distinct (map wl_name (leases db))" and "acquire_or_renew_lease name owner ttl e now db = (True, db1)"
    and "other \<noteq> owner"
  shows "acquire_or_renew_lease name other ttl' e' now' db1 =
      (if e' < e + max 1 ttl then (False, db1)
       else (True, snd (acquire_or_renew_lease name other ttl' e' now' db1)))
    \<and> release_lease name other db1 = db1
    \<and> (is_worker_online name e' db1 \<longleftrightarrow> e' < e + max 1 ttl)"
proof -
  note d1 = acquire_lease_row(1) [OF assms(1,2)]
  obtain l where l: "l \<in> set (leases db1)" "wl_name l = name" "wl_owner_id l = owner" "wl_lease_until l = e + max 1 ttl"
    using acquire_lease_row(2) [OF assms(1,2)] by blast
  have only: "x = l" if "x \<in> set (leases db1)" "wl_name x = name" for x
    using d1 that l(1,2) by (auto simp: distinct_map inj_on_def)
  let ?p = "\<lambda>x. wl_name x = name \<and> (wl_owner_id x = other \<or> wl_lease_until x \<le> e')"
  have count: "0 < count_rows (leases db1) ?p \<longleftrightarrow> \<not> e' < e + max 1 ttl"
  proof -
    have "(\<exists>x \<in> set (leases db1). ?p x) \<longleftrightarrow> ?p l" using only l(1,2) by blast
    also have "?p l \<longleftrightarrow> \<not> e' < e + max 1 ttl" using l(2-4) assms(3) by auto
    finally show ?thesis using count_rows_zero [of "leases db1" ?p] by auto
  qed
  have "name \<in> wl_name ` set (leases db1)" using l(1,2) by auto
  then have "acquire_or_renew_lease name other ttl' e' now' db1 =
      (if e' < e + max 1 ttl then (False, db1) else (True, snd (acquire_or_renew_lease name other ttl' e' now' db1)))"
    using count by (simp add: acquire_or_renew_lease_def Let_def)
  moreover have "filter (\<lambda>x. \<not> (wl_name x = name \<and> wl_owner_id x = other)) (leases db1) = leases db1"
    using only l(3) assms(3) by (intro filter_True) blast
  then have "release_lease name other db1 = db1" by (simp add: release_lease_def)
  moreover have "is_worker_online name e' db1 \<longleftrightarrow> e' < e + max 1 ttl"
    using get_lease_unique [OF d1 l(1,2)] l(4) by (simp add: is_worker_online_def)
  ultimately show ?thesis by blast
qed

theorem lease_exclusive_witness:
  "fst (acquire_or_renew_lease ''w'' ''B'' 30 20 0 (snd (acquire_or_renew_lease ''w'' ''A'' 30 0 0 empty_queue))) = False"
proof -
  have d: "distinct (map wl_name (leases empty_queue))" by (simp add: empty_queue_def)
  have a: "acquire_or_renew_lease ''w'' ''A'' 30 0 0 empty_queue
      = (True, snd (acquire_or_renew_lease ''w'' ''A'' 30 0 0 empty_queue))"
    by (simp add: acquire_or_renew_lease_def empty_queue_def count_rows_def Let_def)
  have n: "''B'' \<noteq> ''A''" by simp
  from lease_exclusive [OF d a n, of 30 20 0] show ?thesis by simp
qed

subsection \<open>The listing\<close>

text \<open>
  the pages of the listing, put one after the other, are the filtered tasks from the most
  recently updated on, without a gap or a repetition, and each page reports their total number.
\<close>

theorem list_tasks_pages:
  assumes "1 \<le> psize" and "psize \<le> 500"
  shows "concat (map (\<lambda>p. tp_items (list_tasks f (int p) psize db)) [1..<Suc n])
      = map task_to_dict (take (n * nat psize) (listed_tasks f db))
    \<and> tp_total (list_tasks f page psize db) = length (listed_tasks f db)
    \<and> sorted (map (\<lambda>r. (- updated_at r, - queued_at r)) (listed_tasks f db))"
proof -
  let ?k = "nat psize" and ?ls = "listed_tasks f db"
  have item: "tp_items (list_tasks f (int (Suc p)) psize db) = map task_to_dict (take ?k (drop (p * ?k) ?ls))" for p
    using assms by (simp add: list_tasks_def Let_def nat_mult_distrib)
  have "[1..<Suc n] = map Suc [0..<n]" by (simp add: map_Suc_upt)
  then have "concat (map (\<lambda>p. tp_items (list_tasks f (int p) psize db)) [1..<Suc n])
      = map task_to_dict (concat (map (\<lambda>p. take ?k (drop (p * ?k) ?ls)) [0..<n]))"
    by (simp add: item map_concat comp_def del: of_nat_Suc upt_Suc)
  also have "\<dots> = map task_to_dict (take (n * ?k) ?ls)"
    using assms(1) by (simp add: take_drop_pages)
  finally have "concat (map (\<lambda>p. tp_items (list_tasks f (int p) psize db)) [1..<Suc n])
      = map task_to_dict (take (n * ?k) ?ls)" .
  moreover have "tp_total (list_tasks f page psize db) = length ?ls"
    by (simp add: list_tasks_def Let_def listed_tasks_def count_rows_def order_by_def)
  moreover have "sorted (map (\<lambda>r. (- updated_at r, - queued_at r)) ?ls)"
    unfolding listed_tasks_def order_by_def by (rule sorted_sort_key)
  ultimately show ?thesis by blast
qed

theorem list_tasks_pages_witness:
  "tp_total (list_tasks \<lparr>tf_project_name = None, tf_status = None, tf_task_type = None, tf_source = None\<rparr> 1 1 demo_db) = 2"
  using list_tasks_pages [of 1 "\<lparr>tf_project_name = None, tf_status = None, tf_task_type = None, tf_source = None\<rparr>" demo_db 2 1]
  by (simp add: listed_tasks_def order_by_def demo_db_def matches_filter_def filter_on_def truthy_str_def)

end
