(* ===== verification/Pricing.thy ===== *)
theory Pricing
  imports Prelude "HOL-Library.List_Lexorder" "HOL-Library.Product_Lexorder"
begin

text \<open>
  The price declarations (lib/pricing/types.py), the charging strategy of each shape
  (lib/pricing/strategies.py, lib/vidu_shared.py), the lookup of the declaration that applies to
  a call (lib/pricing/lookup.py) and the cost calculator (lib/cost_calculator.py). Amounts and
  rates are exact rationals; the floats of the code are their decimal literals. The registry of
  models (data of lib/config/registry.py) is an argument.
\<close>

subsection \<open>Declarations\<close>

datatype dimensions = Resolution_Audio | Resolution_Only | Flat

type_synonym rate_table = "(string, (string, rat) dict) dict"

text \<open>One constructor per \<open>kind\<close>; the rate tables are keyed by the model.\<close>

datatype pricing =
    PerToken rate_table (default_model: string) (pricing_currency: string)
  | PerImageFlat "(string, rat) dict" (default_model: string) (pricing_currency: string)
  | PerImageByResolution rate_table (default_model: string) (pricing_currency: string)
  | PerImageOpenAIToken rate_table "(string, (string \<times> string, rat) dict) dict"
      (default_model: string) (pricing_currency: string)
  | PerSecondMatrix "(string, (string \<times> bool option, rat) dict) dict" (default_model: string)
      dimensions (pricing_currency: string) string
  | PerVideoBucket "(string, (string \<times> int, rat) dict) dict" (default_model: string) (pricing_currency: string)
  | PerSecondTiered "(string, (string \<times> bool, rat) dict) dict" (default_model: string) (pricing_currency: string)
  | PerTokenVideo "(string, (string \<times> bool, rat) dict) dict" (default_model: string) (pricing_currency: string)
  | PerCharacter "(string, rat) dict" (default_model: string) (pricing_currency: string)
  | ViduDelegate (pricing_currency: string)

definition CHARACTERS_PER_PRICING_UNIT :: int where
  "CHARACTERS_PER_PRICING_UNIT = 10000"

record pricing_params =
  pp_call_type :: string
  pp_model :: "string option"
  pp_resolution :: "string option"
  pp_aspect_ratio :: "string option"
  pp_duration_seconds :: "int option"
  pp_generate_audio :: bool
  pp_usage_tokens :: "int option"
  pp_service_tier :: string
  pp_input_tokens :: "int option"
  pp_output_tokens :: "int option"
  pp_quality :: "string option"
  pp_size :: "string option"
  pp_image_input_tokens :: "int option"
  pp_image_output_tokens :: "int option"
  pp_text_input_tokens :: "int option"
  pp_text_output_tokens :: "int option"
  pp_n :: int

text \<open>\<open>PricingParams(call_type=...)\<close> with the defaults of the dataclass.\<close>

definition default_params :: "string \<Rightarrow> pricing_params" where
  "default_params ct =
     \<lparr>pp_call_type = ct, pp_model = None, pp_resolution = None, pp_aspect_ratio = None,
      pp_duration_seconds = None, pp_generate_audio = True, pp_usage_tokens = None,
      pp_service_tier = ''default'', pp_input_tokens = None, pp_output_tokens = None,
      pp_quality = None, pp_size = None, pp_image_input_tokens = None, pp_image_output_tokens = None,
      pp_text_input_tokens = None, pp_text_output_tokens = None, pp_n = 1\<rparr>"

type_synonym charge = "rat \<times> string"

subsection \<open>Strategies\<close>

text \<open>\<open>x or d\<close> on an optional integer: both \<open>None\<close> and zero give the default.\<close>

definition or_int :: "int option \<Rightarrow> int \<Rightarrow> int" where
  "or_int x d = (case x of None \<Rightarrow> d | Some i \<Rightarrow> if i = 0 then d else i)"

text \<open>\<open>rates.get(model, rates[default])\<close>: the default is looked up first, and must be there.\<close>

definition rates_for :: "(string, 'r) dict \<Rightarrow> string \<Rightarrow> string \<Rightarrow> py_error + 'r" where
  "rates_for rates model dflt =
     (case dict_get rates dflt of
        None \<Rightarrow> Inl (KeyError dflt)
      | Some d \<Rightarrow> Inr (dict_get_or rates model d))"

definition subscript :: "(string, 'r) dict \<Rightarrow> string \<Rightarrow> py_error + 'r" where
  "subscript d k = (case dict_get d k of None \<Rightarrow> Inl (KeyError k) | Some v \<Rightarrow> Inr v)"

text \<open>The sum of token counts times their rates, for the given keys of a rate table.\<close>

fun token_sum :: "(string, rat) dict \<Rightarrow> (int option \<times> string) list \<Rightarrow> py_error + rat" where
  "token_sum rates [] = Inr 0"
| "token_sum rates ((t, k) # ts) =
     (case subscript rates k of
        Inl e \<Rightarrow> Inl e
      | Inr r \<Rightarrow>
          (case token_sum rates ts of
             Inl e \<Rightarrow> Inl e
           | Inr s \<Rightarrow> Inr (of_int (or_int t 0) * r + s)))"

definition per_token :: "rate_table \<Rightarrow> string \<Rightarrow> string \<Rightarrow> pricing_params \<Rightarrow> py_error + charge" where
  "per_token rates dflt cur p =
     (let model = or_str (pp_model p) dflt;
          rs = dict_get_or rates model (dict_get_or rates dflt [(''input'', 0), (''output'', 0)])
      in case token_sum rs [(pp_input_tokens p, ''input''), (pp_output_tokens p, ''output'')] of
           Inl e \<Rightarrow> Inl e
         | Inr s \<Rightarrow> Inr (s / 1000000, cur))"

definition per_image_flat :: "(string, rat) dict \<Rightarrow> string \<Rightarrow> string \<Rightarrow> pricing_params \<Rightarrow> py_error + charge" where
  "per_image_flat rates dflt cur p =
     (case rates_for rates (or_str (pp_model p) dflt) dflt of
        Inl e \<Rightarrow> Inl e
      | Inr per_image \<Rightarrow> Inr (per_image * of_int (pp_n p), cur))"

text \<open>A free tier of 0 is a declared price, so only a missing entry falls back.\<close>

definition per_image_by_resolution :: "rate_table \<Rightarrow> string \<Rightarrow> string \<Rightarrow> pricing_params \<Rightarrow> py_error + charge" where
  "per_image_by_resolution rates dflt cur p =
     (case rates_for rates (or_str (pp_model p) dflt) dflt of
        Inl e \<Rightarrow> Inl e
      | Inr costs \<Rightarrow>
          (let default_cost = (case dict_get costs ''1K'' of
                                 Some c \<Rightarrow> c
                               | None \<Rightarrow> dict_get_or (dict_get_or rates dflt []) ''1K'' 0);
               resolution = or_str (pp_resolution p) ''1K''
           in Inr (dict_get_or costs (str_upper resolution) default_cost * of_int (pp_n p), cur)))"

definition per_image_openai_token ::
  "rate_table \<Rightarrow> (string, (string \<times> string, rat) dict) dict \<Rightarrow> string \<Rightarrow> string \<Rightarrow> pricing_params \<Rightarrow> py_error + charge" where
  "per_image_openai_token token_rates fallback_rates dflt cur p =
     (let model = or_str (pp_model p) dflt;
          has_usage = pp_image_input_tokens p \<noteq> None \<or> pp_image_output_tokens p \<noteq> None
            \<or> pp_text_input_tokens p \<noteq> None \<or> pp_text_output_tokens p \<noteq> None
      in if has_usage
         then (case rates_for token_rates model dflt of
                 Inl e \<Rightarrow> Inl e
               | Inr rates \<Rightarrow>
                   (case token_sum rates
                          [(pp_image_input_tokens p, ''image_in''), (pp_image_output_tokens p, ''image_out''),
                           (pp_text_input_tokens p, ''text_in''), (pp_text_output_tokens p, ''text_out'')] of
                      Inl e \<Rightarrow> Inl e
                    | Inr s \<Rightarrow> Inr (s / 1000000, cur)))
         else (case rates_for fallback_rates model dflt of
                 Inl e \<Rightarrow> Inl e
               | Inr costs \<Rightarrow>
                   (let quality = or_str (pp_quality p) ''medium'';
                        img_size = or_str (pp_size p) ''1024x1024'';
                        per_image = dict_get_or costs (quality, img_size)
                          (dict_get_or costs (quality, ''1024x1024'')
                             (dict_get_or costs (''medium'', ''1024x1024'') (34 / 1000)))
                    in Inr (per_image * of_int (pp_n p), cur))))"

text \<open>A missing duration counts as eight seconds here, a zero duration stays zero.\<close>

definition matrix_rate ::
  "(string \<times> bool option, rat) dict \<Rightarrow> (string \<times> bool option, rat) dict \<Rightarrow> dimensions \<Rightarrow> string
    \<Rightarrow> pricing_params \<Rightarrow> rat" where
  "matrix_rate costs default_costs dims default_resolution p =
     (case dims of
        Resolution_Audio \<Rightarrow>
          (let resolution = str_lower (or_str (pp_resolution p) ''1080p'');
               fallback = (case dict_get costs (''1080p'', Some True) of
                             Some c \<Rightarrow> c
                           | None \<Rightarrow> dict_get_or default_costs (''1080p'', Some True) 0)
           in dict_get_or costs (resolution, Some (pp_generate_audio p)) fallback)
      | Resolution_Only \<Rightarrow>
          (let dr = str_lower default_resolution;
               resolution = str_lower (or_str (pp_resolution p) dr)
           in dict_get_or costs (resolution, None) (dict_get_or costs (dr, None) 0))
      | Flat \<Rightarrow> dict_get_or costs ([], None) 0)"

definition per_second_matrix ::
  "(string, (string \<times> bool option, rat) dict) dict \<Rightarrow> string \<Rightarrow> dimensions \<Rightarrow> string \<Rightarrow> string
    \<Rightarrow> pricing_params \<Rightarrow> py_error + charge" where
  "per_second_matrix rates dflt dims cur default_resolution p =
     (case rates_for rates (or_str (pp_model p) dflt) dflt of
        Inl e \<Rightarrow> Inl e
      | Inr costs \<Rightarrow>
          (let duration = (case pp_duration_seconds p of Some d \<Rightarrow> d | None \<Rightarrow> 8)
           in Inr (of_int duration * matrix_rate costs (dict_get_or rates dflt []) dims default_resolution p, cur)))"

definition tier_of :: "pricing_params \<Rightarrow> string" where
  "tier_of p =
     (if str_lower (or_str (pp_resolution p) []) = ''4k'' then ''4k''
      else (let tier = str_lower (pp_service_tier p)
            in if tier \<noteq> [] \<and> tier \<noteq> ''default'' then tier else ''std''))"

definition tiered_rate :: "(string \<times> bool, rat) dict \<Rightarrow> pricing_params \<Rightarrow> rat" where
  "tiered_rate rates p =
     (case dict_get rates (tier_of p, pp_generate_audio p) of
        Some r \<Rightarrow> r
      | None \<Rightarrow> dict_get_or rates (''std'', pp_generate_audio p) (dict_get_or rates (''std'', False) 0))"

definition per_second_tiered ::
  "(string, (string \<times> bool, rat) dict) dict \<Rightarrow> string \<Rightarrow> string \<Rightarrow> pricing_params \<Rightarrow> py_error + charge" where
  "per_second_tiered rates dflt cur p =
     (case rates_for rates (or_str (pp_model p) dflt) dflt of
        Inl e \<Rightarrow> Inl e
      | Inr model_rates \<Rightarrow>
          (let duration = (case pp_duration_seconds p of Some d \<Rightarrow> d | None \<Rightarrow> 8)
           in Inr (of_int duration * tiered_rate model_rates p, cur)))"

text \<open>
  The order in which buckets are near a duration: the distance, then the shorter, then the
  cheaper, then the key itself, so that the choice does not depend on the order of the table.
\<close>

definition bucket_order ::
  "(string \<times> int, rat) dict \<Rightarrow> int \<Rightarrow> string \<times> int \<Rightarrow> int \<times> int \<times> rat \<times> string \<times> int" where
  "bucket_order buckets duration k = (\<bar>snd k - duration\<bar>, snd k, dict_get_or buckets k 0, k)"

definition bucket_candidates :: "(string \<times> int, rat) dict \<Rightarrow> string \<Rightarrow> (string \<times> int) list" where
  "bucket_candidates buckets resolution =
     (let same = filter (\<lambda>k. fst k = resolution) (dict_keys buckets)
      in if same = [] then dict_keys buckets else same)"

definition per_video_bucket ::
  "(string, (string \<times> int, rat) dict) dict \<Rightarrow> string \<Rightarrow> string \<Rightarrow> pricing_params \<Rightarrow> py_error + charge" where
  "per_video_bucket rates dflt cur p =
     (case rates_for rates (or_str (pp_model p) dflt) dflt of
        Inl e \<Rightarrow> Inl e
      | Inr buckets \<Rightarrow>
          (let resolution = str_lower (or_str (pp_resolution p) ''768p'');
               duration = (case pp_duration_seconds p of Some d \<Rightarrow> d | None \<Rightarrow> 6)
           in case dict_get buckets (resolution, duration) of
                Some exact \<Rightarrow> Inr (exact, cur)
              | None \<Rightarrow>
                  (let candidates = bucket_candidates buckets resolution
                   in if candidates = [] then Inl (ValueError ''min() of an empty list'')
                      else (let nearest = arg_min_list (bucket_order buckets duration) candidates
                            in Inr (dict_get_or buckets nearest 0, cur)))))"

definition per_token_video ::
  "(string, (string \<times> bool, rat) dict) dict \<Rightarrow> string \<Rightarrow> string \<Rightarrow> pricing_params \<Rightarrow> py_error + charge" where
  "per_token_video rates dflt cur p =
     (case rates_for rates (or_str (pp_model p) dflt) dflt of
        Inl e \<Rightarrow> Inl e
      | Inr costs \<Rightarrow>
          Inr (of_int (or_int (pp_usage_tokens p) 0) / 1000000
               * dict_get_or costs (pp_service_tier p, pp_generate_audio p)
                   (dict_get_or costs (''default'', True) 16), cur))"

definition per_character :: "(string, rat) dict \<Rightarrow> string \<Rightarrow> string \<Rightarrow> pricing_params \<Rightarrow> py_error + charge" where
  "per_character rates dflt cur p =
     (let rate = dict_get_or rates (or_str (pp_model p) dflt) (dict_get_or rates dflt 0)
      in Inr (of_int (or_int (pp_usage_tokens p) 0) / of_int CHARACTERS_PER_PRICING_UNIT * rate, cur))"

subsection \<open>Vidu\<close>

definition VIDU_CREDIT_TO_CNY :: rat where
  "VIDU_CREDIT_TO_CNY = 1 / 32"

definition VIDU_VIDEO_CREDITS_PER_SECOND :: "(string, (string, int) dict) dict" where
  "VIDU_VIDEO_CREDITS_PER_SECOND =
     [(''viduq3-pro'', [(''540p'', 10), (''720p'', 25), (''1080p'', 30)]),
      (''viduq3-turbo'', [(''540p'', 8), (''720p'', 12), (''1080p'', 14)]),
      (''viduq3-pro-fast'', [(''540p'', 8), (''720p'', 12), (''1080p'', 14)]),
      (''viduq3'', [(''540p'', 10), (''720p'', 25), (''1080p'', 30)]),
      (''viduq3-mix'', [(''540p'', 10), (''720p'', 25), (''1080p'', 30)]),
      (''vidu2.0'', [(''360p'', 5), (''720p'', 10), (''1080p'', 25)])]"

definition DEFAULT_VIDU_VIDEO_MODEL :: string where
  "DEFAULT_VIDU_VIDEO_MODEL = ''viduq3-turbo''"

definition VIDU_IMAGE_CREDITS :: "(string, (string, int) dict) dict" where
  "VIDU_IMAGE_CREDITS =
     [(''viduq2'', [(''1080p'', 8), (''2k'', 12), (''4k'', 20)]), (''viduq1'', [(''1080p'', 20)])]"

definition DEFAULT_VIDU_IMAGE_MODEL :: string where
  "DEFAULT_VIDU_IMAGE_MODEL = ''viduq2''"

text \<open>\<open>res_key or d\<close> on the lowered resolution, which is empty when none was given.\<close>

definition vidu_resolution :: "string option \<Rightarrow> string \<Rightarrow> string" where
  "vidu_resolution resolution d =
     (let res_key = str_lower (or_str resolution []) in if res_key = [] then d else res_key)"

text \<open>The estimate from the tables, used when the response carried no credits.\<close>

definition vidu_estimate :: "string \<Rightarrow> string option \<Rightarrow> string option \<Rightarrow> int option \<Rightarrow> rat" where
  "vidu_estimate call_type model resolution duration =
     (if call_type = ''image'' then
        (let table = dict_get_or VIDU_IMAGE_CREDITS (or_str model DEFAULT_VIDU_IMAGE_MODEL)
               (dict_get_or VIDU_IMAGE_CREDITS DEFAULT_VIDU_IMAGE_MODEL [])
         in of_int (dict_get_or table (vidu_resolution resolution ''1080p'') (snd (hd table))) * VIDU_CREDIT_TO_CNY)
      else if call_type = ''video'' then
        (let table = dict_get_or VIDU_VIDEO_CREDITS_PER_SECOND (or_str model DEFAULT_VIDU_VIDEO_MODEL)
               (dict_get_or VIDU_VIDEO_CREDITS_PER_SECOND DEFAULT_VIDU_VIDEO_MODEL [])
         in of_int (or_int duration 5)
            * of_int (dict_get_or table (vidu_resolution resolution ''720p'') (dict_get_or table ''720p'' 25))
            * VIDU_CREDIT_TO_CNY)
      else 0)"

text \<open>Zero credits are a legal answer of the provider and are charged as zero.\<close>

definition calculate_vidu_cost ::
  "string \<Rightarrow> int option \<Rightarrow> string option \<Rightarrow> string option \<Rightarrow> int option \<Rightarrow> charge" where
  "calculate_vidu_cost call_type usage_tokens model resolution duration =
     (if \<exists>t \<in> set_option usage_tokens. 0 \<le> t
      then (of_int (or_int usage_tokens 0) * VIDU_CREDIT_TO_CNY, ''CNY'')
      else (vidu_estimate call_type model resolution duration, ''CNY''))"

subsection \<open>Dispatch\<close>

definition calculate_pricing :: "pricing \<Rightarrow> pricing_params \<Rightarrow> py_error + charge" where
  "calculate_pricing pricing p =
     (case pricing of
        PerToken rates dflt cur \<Rightarrow> per_token rates dflt cur p
      | PerImageFlat rates dflt cur \<Rightarrow> per_image_flat rates dflt cur p
      | PerImageByResolution rates dflt cur \<Rightarrow> per_image_by_resolution rates dflt cur p
      | PerImageOpenAIToken tr fr dflt cur \<Rightarrow> per_image_openai_token tr fr dflt cur p
      | PerSecondMatrix rates dflt dims cur dr \<Rightarrow> per_second_matrix rates dflt dims cur dr p
      | PerSecondTiered rates dflt cur \<Rightarrow> per_second_tiered rates dflt cur p
      | PerVideoBucket rates dflt cur \<Rightarrow> per_video_bucket rates dflt cur p
      | PerTokenVideo rates dflt cur \<Rightarrow> per_token_video rates dflt cur p
      | PerCharacter rates dflt cur \<Rightarrow> per_character rates dflt cur p
      | ViduDelegate cur \<Rightarrow>
          Inr (calculate_vidu_cost (pp_call_type p) (pp_usage_tokens p) (pp_model p) (pp_resolution p)
                 (pp_duration_seconds p)))"

subsection \<open>Looking up the declaration\<close>

record model_info =
  mi_media_type :: string
  mi_default :: bool
  mi_pricing :: "pricing option"

type_synonym registry = "(string, (string, model_info) dict) dict"

definition default_model_for_provider :: "registry \<Rightarrow> string \<Rightarrow> string \<Rightarrow> string option" where
  "default_model_for_provider reg pid media =
     (case dict_get reg pid of
        None \<Rightarrow> None
      | Some ms \<Rightarrow> map_option fst (find (\<lambda>(k, i). mi_media_type i = media \<and> mi_default i) ms))"

definition OWN_TABLE_PROVIDERS :: "string list" where
  "OWN_TABLE_PROVIDERS = [''ark'', ''grok'', ''openai'', ''dashscope'', ''minimax'', ''kling'', ''agnes'']"

definition anthropic_rates :: rate_table where
  "anthropic_rates =
     map (\<lambda>m. (m, [(''input'', 3), (''output'', 15)]))
       [''claude-sonnet-4'', ''claude-sonnet-4-20250514'', ''claude-sonnet-4.5'', ''claude-sonnet-4-5'',
        ''claude-sonnet-4-6'']
     @ map (\<lambda>m. (m, [(''input'', 1), (''output'', 5)]))
       [''claude-haiku-4-5'', ''claude-haiku-4-5-20251001'', ''claude-haiku-4-20250514'']
     @ map (\<lambda>m. (m, [(''input'', 15), (''output'', 75)]))
       [''claude-opus-4'', ''claude-opus-4-6'', ''claude-opus-4-7'']"

definition ANTHROPIC_PRICING :: pricing where
  "ANTHROPIC_PRICING = PerToken anthropic_rates ''claude-sonnet-4'' ''USD''"

text \<open>The declared price of a model, if it is of the asked medium.\<close>

definition priced_for :: "(string, model_info) dict \<Rightarrow> string \<Rightarrow> string \<Rightarrow> pricing option" where
  "priced_for ms media model =
     (case dict_get ms model of
        None \<Rightarrow> None
      | Some i \<Rightarrow> if mi_media_type i = media then mi_pricing i else None)"

text \<open>The declared price of the default model of a provider for a medium.\<close>

definition default_priced :: "registry \<Rightarrow> string \<Rightarrow> (string, model_info) dict \<Rightarrow> string \<Rightarrow> pricing option" where
  "default_priced reg pid ms media =
     (case default_model_for_provider reg pid media of
        None \<Rightarrow> None
      | Some m \<Rightarrow> (case dict_get ms m of None \<Rightarrow> None | Some i \<Rightarrow> mi_pricing i))"

definition gemini_default_pricing_for :: "registry \<Rightarrow> string \<Rightarrow> string option \<Rightarrow> py_error + pricing" where
  "gemini_default_pricing_for reg media model =
     (case subscript reg ''gemini-aistudio'' of
        Inl e \<Rightarrow> Inl e
      | Inr aistudio \<Rightarrow>
          (case (case model of
                   None \<Rightarrow> Inr None
                 | Some m \<Rightarrow>
                     (case priced_for aistudio media m of
                        Some p \<Rightarrow> Inr (Some p)
                      | None \<Rightarrow>
                          (case subscript reg ''gemini-vertex'' of
                             Inl e \<Rightarrow> Inl e
                           | Inr vertex \<Rightarrow> Inr (priced_for vertex media m)))) of
             Inl e \<Rightarrow> Inl e
           | Inr (Some p) \<Rightarrow> Inr p
           | Inr None \<Rightarrow>
               (case default_priced reg ''gemini-aistudio'' aistudio media of
                  Some p \<Rightarrow> Inr p
                | None \<Rightarrow>
                    (case default_priced reg ''gemini-aistudio'' aistudio ''text'' of
                       Some p \<Rightarrow> Inr p
                     | None \<Rightarrow> Inl (RuntimeError ''gemini-aistudio has no default pricing'')))))"

definition lookup_pricing :: "registry \<Rightarrow> string \<Rightarrow> string option \<Rightarrow> string \<Rightarrow> py_error + pricing" where
  "lookup_pricing reg provider model media =
     (if provider = ''anthropic'' then Inr ANTHROPIC_PRICING
      else if provider = ''vidu'' then Inr (ViduDelegate ''CNY'')
      else (case dict_get reg provider of
              None \<Rightarrow> gemini_default_pricing_for reg media model
            | Some ms \<Rightarrow>
                (case (case model of None \<Rightarrow> None | Some m \<Rightarrow> priced_for ms media m) of
                   Some p \<Rightarrow> Inr p
                 | None \<Rightarrow>
                     (case (if provider \<in> set OWN_TABLE_PROVIDERS then default_priced reg provider ms media else None) of
                        Some p \<Rightarrow> Inr p
                      | None \<Rightarrow> gemini_default_pricing_for reg media model))))"

subsection \<open>The calculator\<close>

definition is_custom_provider :: "string \<Rightarrow> bool" where
  "is_custom_provider pid \<longleftrightarrow> take 7 pid = ''custom-''"

definition ARK_TOKENS_PER_SECOND_ESTIMATE :: int where
  "ARK_TOKENS_PER_SECOND_ESTIMATE = 60000"

record custom_price =
  cp_price_input :: "rat option"
  cp_price_output :: "rat option"
  cp_currency :: "string option"

definition no_price :: custom_price where
  "no_price = \<lparr>cp_price_input = None, cp_price_output = None, cp_currency = None\<rparr>"

definition calculate_custom_cost :: "custom_price \<Rightarrow> pricing_params \<Rightarrow> charge" where
  "calculate_custom_cost cp p =
     (case cp_price_input cp of
        None \<Rightarrow> (0, ''USD'')
      | Some price_input \<Rightarrow>
          (let cur = or_str (cp_currency cp) ''USD''
           in if pp_call_type p = ''text''
              then ((of_int (or_int (pp_input_tokens p) 0) * price_input
                     + of_int (or_int (pp_output_tokens p) 0) * (case cp_price_output cp of None \<Rightarrow> 0 | Some v \<Rightarrow> v)) / 1000000, cur)
              else if pp_call_type p = ''image'' then (price_input, cur)
              else if pp_call_type p = ''video'' then (of_int (or_int (pp_duration_seconds p) 8) * price_input, cur)
              else if pp_call_type p = ''audio''
              then (of_int (or_int (pp_usage_tokens p) 0) / of_int CHARACTERS_PER_PRICING_UNIT * price_input, cur)
              else (0, cur)))"

fun is_per_second :: "pricing \<Rightarrow> bool" where
  "is_per_second (PerSecondMatrix _ _ _ _ _) = True"
| "is_per_second (PerSecondTiered _ _ _) = True"
| "is_per_second _ = False"

fun is_token_video :: "pricing \<Rightarrow> bool" where
  "is_token_video (PerTokenVideo _ _ _) = True"
| "is_token_video _ = False"

text \<open>The parameters as \<open>calculate_cost\<close> completes them for the declaration it found.\<close>

definition effective_params :: "pricing \<Rightarrow> bool \<Rightarrow> pricing_params \<Rightarrow> pricing_params" where
  "effective_params pricing estimate_only p =
     (let p1 = (if is_per_second pricing \<and> or_int (pp_duration_seconds p) 0 = 0
                then p\<lparr>pp_duration_seconds := Some 8\<rparr> else p)
      in if estimate_only \<and> is_token_video pricing \<and> pp_usage_tokens p1 = None \<and> or_int (pp_duration_seconds p1) 0 \<noteq> 0
         then p1\<lparr>pp_usage_tokens := Some (or_int (pp_duration_seconds p1) 0 * ARK_TOKENS_PER_SECOND_ESTIMATE)\<rparr>
         else p1)"

definition calculate_cost ::
  "registry \<Rightarrow> string \<Rightarrow> pricing_params \<Rightarrow> custom_price \<Rightarrow> bool \<Rightarrow> py_error + charge" where
  "calculate_cost reg provider p cp estimate_only =
     (if is_custom_provider provider then Inr (calculate_custom_cost cp p)
      else if pp_call_type p = ''text'' \<and> pp_input_tokens p = None then Inr (0, ''USD'')
      else (case lookup_pricing reg provider (pp_model p) (pp_call_type p) of
              Inl e \<Rightarrow> Inl e
            | Inr pricing \<Rightarrow> calculate_pricing pricing (effective_params pricing estimate_only p)))"

definition reference_params :: "pricing \<Rightarrow> int list \<Rightarrow> string option \<Rightarrow> string option \<Rightarrow> bool \<Rightarrow> string \<Rightarrow> pricing_params" where
  "reference_params pricing durations model resolution audio tier =
     (let total = sum_list (map (max 0) durations)
      in (default_params ''video'')\<lparr>pp_model := model, pp_resolution := resolution, pp_duration_seconds := Some total,
            pp_generate_audio := audio,
            pp_usage_tokens := (if is_token_video pricing then Some (total * ARK_TOKENS_PER_SECOND_ESTIMATE) else None),
            pp_service_tier := tier\<rparr>)"

definition estimate_reference_video_cost ::
  "registry \<Rightarrow> int list \<Rightarrow> string \<Rightarrow> string option \<Rightarrow> string option \<Rightarrow> bool \<Rightarrow> string \<Rightarrow> py_error + charge" where
  "estimate_reference_video_cost reg durations provider model resolution audio tier =
     (case lookup_pricing reg provider model ''video'' of
        Inl e \<Rightarrow> Inl e
      | Inr pricing \<Rightarrow>
          if durations = [] then Inr (0, pricing_currency pricing)
          else calculate_pricing pricing (reference_params pricing durations model resolution audio tier))"

end
