(* ===== verification/Pricing_Props.thy ===== *)
theory Pricing_Props
  imports Pricing
begin

text \<open>
  Properties of the price calculation: a well-formed declaration always gives a non-negative
  amount in its own currency; the bucket shape takes a nearest bucket, whatever the order of its
  table; the lookup only answers with a price of the asked medium; and the estimate for a list
  of units is the sum over the units for the linear shapes, but not for the bucket shape.
\<close>

subsection \<open>Well-formed declarations\<close>

definition nonneg_table :: "('k, rat) dict \<Rightarrow> bool" where
  "nonneg_table d \<longleftrightarrow> (\<forall>kv \<in> set d. 0 \<le> snd kv)"

definition token_table :: "string list \<Rightarrow> (string, rat) dict \<Rightarrow> bool" where
  "token_table ks d \<longleftrightarrow> nonneg_table d \<and> set ks \<subseteq> set (dict_keys d)"

definition model_tables :: "('r \<Rightarrow> bool) \<Rightarrow> (string, 'r) dict \<Rightarrow> bool" where
  "model_tables ok rates \<longleftrightarrow> (\<forall>kv \<in> set rates. ok (snd kv))"

definition with_default :: "('r \<Rightarrow> bool) \<Rightarrow> (string, 'r) dict \<Rightarrow> string \<Rightarrow> bool" where
  "with_default ok rates dflt \<longleftrightarrow> model_tables ok rates \<and> dflt \<in> set (dict_keys rates)"

fun pricing_ok :: "pricing \<Rightarrow> bool" where
  "pricing_ok (PerToken rates dflt cur) = model_tables (token_table [''input'', ''output'']) rates"
| "pricing_ok (PerImageFlat rates dflt cur) = with_default (\<lambda>r. 0 \<le> r) rates dflt"
| "pricing_ok (PerImageByResolution rates dflt cur) = with_default nonneg_table rates dflt"
| "pricing_ok (PerImageOpenAIToken tr fr dflt cur) =
     (with_default (token_table [''image_in'', ''image_out'', ''text_in'', ''text_out'']) tr dflt
      \<and> with_default nonneg_table fr dflt)"
| "pricing_ok (PerSecondMatrix rates dflt dims cur dr) = with_default nonneg_table rates dflt"
| "pricing_ok (PerVideoBucket rates dflt cur) = with_default (\<lambda>b. nonneg_table b \<and> b \<noteq> []) rates dflt"
| "pricing_ok (PerSecondTiered rates dflt cur) = with_default nonneg_table rates dflt"
| "pricing_ok (PerTokenVideo rates dflt cur) = with_default nonneg_table rates dflt"
| "pricing_ok (PerCharacter rates dflt cur) = nonneg_table rates"
| "pricing_ok (ViduDelegate cur) = (cur = ''CNY'')"

definition nonneg_count :: "int option \<Rightarrow> bool" where
  "nonneg_count x \<longleftrightarrow> (case x of None \<Rightarrow> True | Some i \<Rightarrow> 0 \<le> i)"

definition params_ok :: "pricing_params \<Rightarrow> bool" where
  "params_ok p \<longleftrightarrow>
     nonneg_count (pp_duration_seconds p) \<and> nonneg_count (pp_usage_tokens p)
     \<and> nonneg_count (pp_input_tokens p) \<and> nonneg_count (pp_output_tokens p)
     \<and> nonneg_count (pp_image_input_tokens p) \<and> nonneg_count (pp_image_output_tokens p)
     \<and> nonneg_count (pp_text_input_tokens p) \<and> nonneg_count (pp_text_output_tokens p) \<and> 0 \<le> pp_n p"

lemma or_int_nonneg: "nonneg_count x \<Longrightarrow> 0 \<le> d \<Longrightarrow> 0 \<le> or_int x d"
  by (auto simp: or_int_def nonneg_count_def split: option.splits)

lemma dict_get_prop:
  assumes "\<forall>kv \<in> set d. ok (snd kv)" and "dict_get d k = Some v"
  shows "ok v"
  using map_of_SomeD [OF assms(2)] assms(1) by (metis snd_conv)

lemma dict_get_or_prop:
  assumes "\<forall>kv \<in> set d. ok (snd kv)" and "ok v"
  shows "ok (dict_get_or d k v)"
proof (cases "dict_get d k")
  case (Some w)
  with dict_get_prop [OF assms(1)] show ?thesis by (simp add: dict_get_or_def)
qed (simp add: dict_get_or_def assms(2))

lemma nonneg_get: "nonneg_table d \<Longrightarrow> dict_get d k = Some v \<Longrightarrow> 0 \<le> v"
  unfolding nonneg_table_def by (rule dict_get_prop)

lemma nonneg_get_or: "nonneg_table d \<Longrightarrow> 0 \<le> v \<Longrightarrow> 0 \<le> dict_get_or d k v"
  unfolding nonneg_table_def by (rule dict_get_or_prop)

lemma rates_for_ok:
  assumes "with_default ok rates dflt"
  obtains r where "rates_for rates model dflt = Inr r" "ok r" "ok (dict_get_or rates dflt v)"
proof -
  obtain d where d: "dict_get rates dflt = Some d"
    using assms by (cases "dict_get rates dflt") (auto simp: with_default_def map_of_eq_None_iff)
  have tables: "\<forall>kv \<in> set rates. ok (snd kv)" using assms by (simp add: with_default_def model_tables_def)
  with d have "ok d" by (intro dict_get_prop [of rates ok])
  with tables have "ok (dict_get_or rates model d)" by (rule dict_get_or_prop)
  with d \<open>ok d\<close> that show ?thesis by (simp add: rates_for_def dict_get_or_def)
qed

lemma token_sum_ok:
  assumes "nonneg_table rates" and "\<forall>(t, k) \<in> set ts. nonneg_count t \<and> k \<in> set (dict_keys rates)"
  shows "\<exists>s. token_sum rates ts = Inr s \<and> 0 \<le> s"
  using assms(2)
proof (induction ts)
  case (Cons a ts)
  obtain t k where a: "a = (t, k)" by (rule prod.exhaust)
  with Cons.prems have t: "nonneg_count t" "k \<in> set (dict_keys rates)" by simp_all
  from Cons obtain s where s: "token_sum rates ts = Inr s" "0 \<le> s" by auto
  from t(2) obtain r where r: "dict_get rates k = Some r" by (cases "dict_get rates k") (auto simp: map_of_eq_None_iff)
  then have "0 \<le> r" using assms(1) by (intro nonneg_get)
  then have "0 \<le> of_int (or_int t 0) * r + s" using or_int_nonneg [OF t(1)] s(2) by simp
  with s(1) r show ?case by (simp add: a subscript_def)
qed simp

lemma matrix_rate_nonneg:
  "nonneg_table costs \<Longrightarrow> nonneg_table defaults \<Longrightarrow> 0 \<le> matrix_rate costs defaults dims dr p"
  by (cases dims)
    (auto simp: matrix_rate_def Let_def intro!: nonneg_get_or intro: nonneg_get split: option.splits)

lemma tiered_rate_nonneg: "nonneg_table rates \<Longrightarrow> 0 \<le> tiered_rate rates p"
  by (auto simp: tiered_rate_def intro!: nonneg_get_or intro: nonneg_get split: option.splits)

lemma vidu_table_nonneg:
  "\<forall>kv \<in> set VIDU_IMAGE_CREDITS. (\<forall>c \<in> set (snd kv). 0 \<le> snd c) \<and> 0 \<le> snd (hd (snd kv))"
  "\<forall>kv \<in> set VIDU_VIDEO_CREDITS_PER_SECOND. (\<forall>c \<in> set (snd kv). 0 \<le> snd c)"
  by (simp_all add: VIDU_IMAGE_CREDITS_def VIDU_VIDEO_CREDITS_PER_SECOND_def)

lemma vidu_estimate_nonneg:
  assumes "nonneg_count duration"
  shows "0 \<le> vidu_estimate ct model resolution duration"
proof -
  let ?it = "dict_get_or VIDU_IMAGE_CREDITS (or_str model DEFAULT_VIDU_IMAGE_MODEL)
    (dict_get_or VIDU_IMAGE_CREDITS DEFAULT_VIDU_IMAGE_MODEL [])"
  let ?vt = "dict_get_or VIDU_VIDEO_CREDITS_PER_SECOND (or_str model DEFAULT_VIDU_VIDEO_MODEL)
    (dict_get_or VIDU_VIDEO_CREDITS_PER_SECOND DEFAULT_VIDU_VIDEO_MODEL [])"
  have di: "dict_get_or VIDU_IMAGE_CREDITS DEFAULT_VIDU_IMAGE_MODEL [] \<in> snd ` set VIDU_IMAGE_CREDITS"
    by (simp add: VIDU_IMAGE_CREDITS_def DEFAULT_VIDU_IMAGE_MODEL_def dict_get_or_def)
  have it: "(\<forall>c \<in> set ?it. 0 \<le> snd c) \<and> 0 \<le> snd (hd ?it)"
    by (rule dict_get_or_prop [of VIDU_IMAGE_CREDITS "\<lambda>t. (\<forall>c \<in> set t. 0 \<le> snd c) \<and> 0 \<le> snd (hd t)"])
      (use vidu_table_nonneg(1) di in fastforce)+
  have dv: "dict_get_or VIDU_VIDEO_CREDITS_PER_SECOND DEFAULT_VIDU_VIDEO_MODEL [] \<in> snd ` set VIDU_VIDEO_CREDITS_PER_SECOND"
    by (simp add: VIDU_VIDEO_CREDITS_PER_SECOND_def DEFAULT_VIDU_VIDEO_MODEL_def dict_get_or_def)
  have vt: "\<forall>c \<in> set ?vt. 0 \<le> snd c"
    by (rule dict_get_or_prop [of VIDU_VIDEO_CREDITS_PER_SECOND "\<lambda>t. \<forall>c \<in> set t. 0 \<le> snd c"])
      (use vidu_table_nonneg(2) dv in fastforce)+
  have "0 \<le> dict_get_or ?it k (snd (hd ?it))" for k
    by (rule dict_get_or_prop [of _ "\<lambda>x. 0 \<le> x"]) (use it in auto)
  moreover have "0 \<le> dict_get_or ?vt k (dict_get_or ?vt ''720p'' 25)" for k
    by (intro dict_get_or_prop [of _ "\<lambda>x. 0 \<le> x"]) (use vt in auto)
  moreover have "0 \<le> or_int duration 5" using or_int_nonneg [OF assms] by simp
  ultimately show ?thesis by (simp add: vidu_estimate_def Let_def VIDU_CREDIT_TO_CNY_def)
qed

lemma bucket_candidates_sub: "set (bucket_candidates buckets res) \<subseteq> set (dict_keys buckets)"
  by (auto simp: bucket_candidates_def Let_def)

lemma bucket_candidates_Nil [simp]: "bucket_candidates buckets res = [] \<longleftrightarrow> buckets = []"
  by (auto simp: bucket_candidates_def Let_def)

text \<open>The result is an amount in the given currency, and not negative.\<close>

definition charges :: "string \<Rightarrow> py_error + charge \<Rightarrow> bool" where
  "charges cur res \<longleftrightarrow> (\<exists>a. res = Inr (a, cur) \<and> 0 \<le> a)"

lemma chargesI: "0 \<le> a \<Longrightarrow> charges cur (Inr (a, cur))"
  by (simp add: charges_def)

lemma per_token_charges:
  assumes "pricing_ok (PerToken rates dflt cur)" and "params_ok p"
  shows "charges cur (per_token rates dflt cur p)"
proof -
  let ?rs = "dict_get_or rates (or_str (pp_model p) dflt) (dict_get_or rates dflt [(''input'', 0), (''output'', 0)])"
  have "token_table [''input'', ''output''] ?rs"
    using assms(1) by (intro dict_get_or_prop [of _ "token_table [''input'', ''output'']"])
      (auto simp: model_tables_def token_table_def nonneg_table_def)
  then obtain s where "token_sum ?rs [(pp_input_tokens p, ''input''), (pp_output_tokens p, ''output'')] = Inr s" "0 \<le> s"
    using token_sum_ok [of ?rs "[(pp_input_tokens p, ''input''), (pp_output_tokens p, ''output'')]"] assms(2)
    by (auto simp: token_table_def params_ok_def)
  then show ?thesis by (simp add: per_token_def Let_def chargesI del: token_sum.simps)
qed

lemma per_image_flat_charges:
  assumes "pricing_ok (PerImageFlat rates dflt cur)" and "params_ok p"
  shows "charges cur (per_image_flat rates dflt cur p)"
proof -
  have "with_default (\<lambda>r. 0 \<le> r) rates dflt" using assms(1) by simp
  then obtain r where "rates_for rates (or_str (pp_model p) dflt) dflt = Inr r" "0 \<le> r" by (rule rates_for_ok)
  with assms(2) show ?thesis by (simp add: per_image_flat_def params_ok_def chargesI)
qed

lemma per_image_by_resolution_charges:
  assumes "pricing_ok (PerImageByResolution rates dflt cur)" and "params_ok p"
  shows "charges cur (per_image_by_resolution rates dflt cur p)"
proof -
  have "with_default nonneg_table rates dflt" using assms(1) by simp
  then obtain r where r: "rates_for rates (or_str (pp_model p) dflt) dflt = Inr r" "nonneg_table r"
    "nonneg_table (dict_get_or rates dflt [])" by (rule rates_for_ok)
  have "0 \<le> dict_get_or r k (case dict_get r ''1K'' of Some c \<Rightarrow> c | None \<Rightarrow> dict_get_or (dict_get_or rates dflt []) ''1K'' 0)" for k
    using r(2,3) by (auto intro!: nonneg_get_or intro: nonneg_get split: option.splits)
  with r(1) assms(2) show ?thesis
    by (simp add: per_image_by_resolution_def params_ok_def Let_def chargesI)
qed

lemma per_image_openai_token_charges:
  assumes "pricing_ok (PerImageOpenAIToken tr fr dflt cur)" and "params_ok p"
  shows "charges cur (per_image_openai_token tr fr dflt cur p)"
proof -
  let ?ts = "[(pp_image_input_tokens p, ''image_in''), (pp_image_output_tokens p, ''image_out''),
    (pp_text_input_tokens p, ''text_in''), (pp_text_output_tokens p, ''text_out'')]"
  have w: "with_default (token_table [''image_in'', ''image_out'', ''text_in'', ''text_out'']) tr dflt"
    "with_default nonneg_table fr dflt" using assms(1) by simp_all
  from w(1) obtain r where r: "rates_for tr (or_str (pp_model p) dflt) dflt = Inr r"
    "token_table [''image_in'', ''image_out'', ''text_in'', ''text_out''] r" by (rule rates_for_ok)
  from w(2) obtain f where f: "rates_for fr (or_str (pp_model p) dflt) dflt = Inr f" "nonneg_table f" by (rule rates_for_ok)
  obtain s where "token_sum r ?ts = Inr s" "0 \<le> s"
    using token_sum_ok [of r ?ts] r(2) assms(2) by (auto simp: token_table_def params_ok_def)
  moreover have "0 \<le> dict_get_or f k (dict_get_or f k' (dict_get_or f k'' (34 / 1000)))" for k k' k''
    using f(2) by (auto intro!: nonneg_get_or)
  ultimately show ?thesis using r(1) f(1) assms(2)
    by (simp add: per_image_openai_token_def params_ok_def Let_def chargesI del: token_sum.simps)
qed

text \<open>The duration a per-second shape multiplies with.\<close>

lemma duration_nonneg:
  "params_ok p \<Longrightarrow> 0 \<le> (case pp_duration_seconds p of Some d \<Rightarrow> d | None \<Rightarrow> 8)"
  by (auto simp: params_ok_def nonneg_count_def split: option.splits)

lemma per_second_matrix_charges:
  assumes "pricing_ok (PerSecondMatrix rates dflt dims cur dr)" and "params_ok p"
  shows "charges cur (per_second_matrix rates dflt dims cur dr p)"
proof -
  have "with_default nonneg_table rates dflt" using assms(1) by simp
  then obtain r where r: "rates_for rates (or_str (pp_model p) dflt) dflt = Inr r" "nonneg_table r"
    "nonneg_table (dict_get_or rates dflt [])" by (rule rates_for_ok)
  from matrix_rate_nonneg [OF r(2,3)] duration_nonneg [OF assms(2)] r(1) show ?thesis
    by (simp add: per_second_matrix_def Let_def chargesI)
qed

lemma per_second_tiered_charges:
  assumes "pricing_ok (PerSecondTiered rates dflt cur)" and "params_ok p"
  shows "charges cur (per_second_tiered rates dflt cur p)"
proof -
  have "with_default nonneg_table rates dflt" using assms(1) by simp
  then obtain r where r: "rates_for rates (or_str (pp_model p) dflt) dflt = Inr r" "nonneg_table r" by (rule rates_for_ok)
  from tiered_rate_nonneg [OF r(2)] duration_nonneg [OF assms(2)] r(1) show ?thesis
    by (simp add: per_second_tiered_def Let_def chargesI)
qed

lemma per_video_bucket_charges:
  assumes "pricing_ok (PerVideoBucket rates dflt cur)"
  shows "charges cur (per_video_bucket rates dflt cur p)"
proof -
  have "with_default (\<lambda>b. nonneg_table b \<and> b \<noteq> []) rates dflt" using assms by simp
  then obtain b where b: "rates_for rates (or_str (pp_model p) dflt) dflt = Inr b" "nonneg_table b \<and> b \<noteq> []"
    by (rule rates_for_ok)
  then show ?thesis
    by (auto simp: per_video_bucket_def Let_def intro: nonneg_get nonneg_get_or chargesI split: option.splits)
qed

lemma per_token_video_charges:
  assumes "pricing_ok (PerTokenVideo rates dflt cur)" and "params_ok p"
  shows "charges cur (per_token_video rates dflt cur p)"
proof -
  have "with_default nonneg_table rates dflt" using assms(1) by simp
  then obtain r where r: "rates_for rates (or_str (pp_model p) dflt) dflt = Inr r" "nonneg_table r" by (rule rates_for_ok)
  have "0 \<le> dict_get_or r k (dict_get_or r k' 16)" for k k' using r(2) by (auto intro!: nonneg_get_or)
  with r(1) assms(2) or_int_nonneg [of "pp_usage_tokens p" 0] show ?thesis
    by (simp add: per_token_video_def params_ok_def chargesI)
qed

lemma per_character_charges:
  assumes "pricing_ok (PerCharacter rates dflt cur)" and "params_ok p"
  shows "charges cur (per_character rates dflt cur p)"
proof -
  have "0 \<le> dict_get_or rates k (dict_get_or rates k' 0)" for k k' using assms(1) by (auto intro!: nonneg_get_or)
  with assms(2) or_int_nonneg [of "pp_usage_tokens p" 0] show ?thesis
    by (simp add: per_character_def params_ok_def CHARACTERS_PER_PRICING_UNIT_def Let_def chargesI)
qed

lemma vidu_charges:
  assumes "params_ok p"
  shows "charges ''CNY'' (Inr (calculate_vidu_cost ct (pp_usage_tokens p) model resolution (pp_duration_seconds p)))"
proof -
  have "nonneg_count (pp_duration_seconds p)" "0 \<le> or_int (pp_usage_tokens p) 0"
    using assms by (simp_all add: params_ok_def or_int_nonneg)
  with vidu_estimate_nonneg show ?thesis
    by (simp add: calculate_vidu_cost_def VIDU_CREDIT_TO_CNY_def chargesI)
qed

lemmas shape_charges = per_token_charges per_image_flat_charges per_image_by_resolution_charges
  per_image_openai_token_charges per_second_matrix_charges per_second_tiered_charges
  per_video_bucket_charges per_token_video_charges per_character_charges

text \<open>
  a well-formed declaration with non-negative counts always gives an amount, never an
  exception; the amount is not negative and is in the currency of the declaration.
\<close>

theorem charge_nonnegative:
  assumes "pricing_ok pricing" and "params_ok p"
  shows "\<exists>a. calculate_pricing pricing p = Inr (a, pricing_currency pricing) \<and> 0 \<le> a"
proof -
  have "charges (pricing_currency pricing) (calculate_pricing pricing p)"
    using assms shape_charges vidu_charges [OF assms(2)]
    by (cases pricing) (simp_all add: calculate_pricing_def del: pricing_ok.simps, simp)
  then show ?thesis by (simp add: charges_def)
qed

theorem charge_nonnegative_witness:
  "\<exists>a. calculate_pricing (PerVideoBucket [(''m'', [((''768p'', 6), 2), ((''768p'', 10), 4)])] ''m'' ''CNY'')
     ((default_params ''video'')\<lparr>pp_duration_seconds := Some 7\<rparr>) = Inr (a, ''CNY'') \<and> 0 \<le> a"
  using charge_nonnegative [of "PerVideoBucket [(''m'', [((''768p'', 6), 2), ((''768p'', 10), 4)])] ''m'' ''CNY''"
      "(default_params ''video'')\<lparr>pp_duration_seconds := Some 7\<rparr>"]
  by (simp add: params_ok_def nonneg_count_def default_params_def with_default_def model_tables_def nonneg_table_def)

subsection \<open>Buckets\<close>

lemma arg_min_list_least:
  "xs \<noteq> [] \<Longrightarrow> arg_min_list f xs \<in> set xs \<and> (\<forall>x \<in> set xs. f (arg_min_list f xs) \<le> f x)"
  using arg_min_list_in [of xs f] f_arg_min_list_f [of xs f] by simp

lemma bucket_order_inject: "bucket_order b d k = bucket_order b d k' \<Longrightarrow> k = k'"
  by (simp add: bucket_order_def)

lemma bucket_candidates_set:
  "set (bucket_candidates b res) =
    (if \<exists>k \<in> set (dict_keys b). fst k = res then {k \<in> set (dict_keys b). fst k = res} else set (dict_keys b))"
  by (auto simp: bucket_candidates_def Let_def filter_empty_conv)

text \<open>
  a duration without a bucket of its own is charged at a bucket of the asked resolution
  when there is one, at a smallest distance in duration, and the order in which the table lists
  its buckets makes no difference to the amount.
\<close>

theorem bucket_nearest_deterministic:
  assumes "distinct (dict_keys b)" and "distinct (dict_keys b')" and "set b = set b'" and "b \<noteq> []"
    and "dict_get b (str_lower res, d) = None" and "pp_resolution p = Some res" and "res \<noteq> []"
    and "pp_duration_seconds p = Some d" and "pp_model p = None"
  shows "per_video_bucket [(m, b)] m cur p = per_video_bucket [(m, b')] m cur p
    \<and> (\<exists>k a. per_video_bucket [(m, b)] m cur p = Inr (a, cur) \<and> dict_get b k = Some a
         \<and> \<not> (\<exists>k' \<in> set (dict_keys b). \<bar>snd k' - d\<bar> < \<bar>snd k - d\<bar>
                \<and> (fst k' = str_lower res \<or> fst k \<noteq> str_lower res))
         \<and> ((\<exists>k' \<in> set (dict_keys b). fst k' = str_lower res) \<longleftrightarrow> fst k = str_lower res))"
proof -
  have same: "dict_get b' = dict_get b"
    using map_of_inject_set [OF assms(1,2)] assms(3) by simp
  have keys: "set (dict_keys b') = set (dict_keys b)" using assms(3) by simp
  have ne': "b' \<noteq> []" using assms(3,4) by auto
  let ?C = "bucket_candidates b (str_lower res)" and ?C' = "bucket_candidates b' (str_lower res)"
  have C: "set ?C' = set ?C" unfolding bucket_candidates_set keys ..
  have ord: "bucket_order b' d = bucket_order b d" by (simp add: bucket_order_def [abs_def] dict_get_or_def same)
  let ?k = "arg_min_list (bucket_order b d) ?C" and ?k' = "arg_min_list (bucket_order b d) ?C'"
  have k: "?k \<in> set ?C" "\<forall>x \<in> set ?C. bucket_order b d ?k \<le> bucket_order b d x"
    using arg_min_list_least [of ?C "bucket_order b d"] assms(4) by simp_all
  have k': "?k' \<in> set ?C" "\<forall>x \<in> set ?C. bucket_order b d ?k' \<le> bucket_order b d x"
    using arg_min_list_least [of ?C' "bucket_order b d"] ne' C by simp_all
  have eq: "?k' = ?k"
    by (rule bucket_order_inject [of b d], rule order.antisym) (use k k' in auto)
  have res: "per_video_bucket [(m, b)] m cur p = Inr (dict_get_or b ?k 0, cur)"
    using assms(4-9) by (simp add: per_video_bucket_def rates_for_def dict_get_or_def Let_def or_str_def)
  have res': "per_video_bucket [(m, b')] m cur p = Inr (dict_get_or b' ?k' 0, cur)"
    using assms(5-9) ne' by (simp add: per_video_bucket_def rates_for_def dict_get_or_def Let_def or_str_def ord same)
  obtain a where a: "dict_get b ?k = Some a"
    using k(1) bucket_candidates_sub [of b "str_lower res"]
    by (cases "dict_get b ?k") (auto simp: map_of_eq_None_iff)
  have dist: "\<bar>snd ?k - d\<bar> \<le> \<bar>snd x - d\<bar>" if "x \<in> set ?C" for x
    using bspec [OF k(2) that] by (auto simp: bucket_order_def less_eq_prod_def)
  have near: "\<not> (\<exists>x \<in> set (dict_keys b). \<bar>snd x - d\<bar> < \<bar>snd ?k - d\<bar> \<and> (fst x = str_lower res \<or> fst ?k \<noteq> str_lower res))"
  proof
    assume "\<exists>x \<in> set (dict_keys b). \<bar>snd x - d\<bar> < \<bar>snd ?k - d\<bar> \<and> (fst x = str_lower res \<or> fst ?k \<noteq> str_lower res)"
    then obtain x where x: "x \<in> set (dict_keys b)" "\<bar>snd x - d\<bar> < \<bar>snd ?k - d\<bar>" "fst x = str_lower res \<or> fst ?k \<noteq> str_lower res"
      by blast
    have "x \<in> set ?C" using x(1,3) k(1) unfolding bucket_candidates_set by (auto split: if_splits)
    with dist x(2) show False by fastforce
  qed
  moreover have "(\<exists>x \<in> set (dict_keys b). fst x = str_lower res) \<longleftrightarrow> fst ?k = str_lower res"
    using k(1) unfolding bucket_candidates_set by (auto split: if_splits)
  moreover have "per_video_bucket [(m, b)] m cur p = per_video_bucket [(m, b')] m cur p"
    unfolding res res' eq by (simp add: dict_get_or_def same)
  moreover have "per_video_bucket [(m, b)] m cur p = Inr (a, cur)" unfolding res by (simp add: dict_get_or_def a)
  ultimately show ?thesis using a by blast
qed

theorem bucket_nearest_deterministic_witness:
  "per_video_bucket [(''m'', [((''768p'', 6), 2), ((''768p'', 10), 4)])] ''m'' ''CNY''
     ((default_params ''video'')\<lparr>pp_duration_seconds := Some 7, pp_resolution := Some ''768P''\<rparr>)
   = per_video_bucket [(''m'', [((''768p'', 10), 4), ((''768p'', 6), 2)])] ''m'' ''CNY''
     ((default_params ''video'')\<lparr>pp_duration_seconds := Some 7, pp_resolution := Some ''768P''\<rparr>)"
proof -
  let ?b = "[((''768p'', 6), 2), ((''768p'', 10), 4)] :: (string \<times> int, rat) dict"
  let ?b' = "[((''768p'', 10), 4), ((''768p'', 6), 2)] :: (string \<times> int, rat) dict"
  let ?p = "(default_params ''video'')\<lparr>pp_duration_seconds := Some 7, pp_resolution := Some ''768P''\<rparr>"
  have none: "dict_get ?b (str_lower ''768P'', 7) = None" by simp
  have "set ?b = set ?b'" by auto
  from bucket_nearest_deterministic [of ?b ?b' "''768P''" 7 ?p "''m''" "''CNY''", OF _ _ this _ none]
  show ?thesis by (simp add: default_params_def)
qed

subsection \<open>The estimate for a list of units\<close>

text \<open>The amount of a result, zero for an exception.\<close>

definition amount_of :: "py_error + charge \<Rightarrow> rat" where
  "amount_of res = (case res of Inl e \<Rightarrow> 0 | Inr c \<Rightarrow> fst c)"

fun linear_shape :: "pricing \<Rightarrow> bool" where
  "linear_shape (PerSecondMatrix _ _ _ _ _) = True"
| "linear_shape (PerSecondTiered _ _ _) = True"
| "linear_shape (PerTokenVideo _ _ _) = True"
| "linear_shape _ = False"

lemma or_int_zero [simp]: "or_int (Some i) 0 = i"
  by (simp add: or_int_def)

lemma reference_params_simps [simp]:
  "pp_model (reference_params pricing ds model res audio tier) = model"
  "pp_resolution (reference_params pricing ds model res audio tier) = res"
  "pp_generate_audio (reference_params pricing ds model res audio tier) = audio"
  "pp_service_tier (reference_params pricing ds model res audio tier) = tier"
  "pp_duration_seconds (reference_params pricing ds model res audio tier) = Some (sum_list (map (max 0) ds))"
  "pp_usage_tokens (reference_params pricing ds model res audio tier) =
     (if is_token_video pricing then Some (sum_list (map (max 0) ds) * ARK_TOKENS_PER_SECOND_ESTIMATE) else None)"
  by (simp_all add: reference_params_def Let_def)

lemma linear_amount:
  assumes "linear_shape pricing" and "pricing_ok pricing"
  shows "\<exists>c. \<forall>ds. calculate_pricing pricing (reference_params pricing ds model res audio tier)
    = Inr (c * of_int (sum_list (map (max 0) ds)), pricing_currency pricing)"
  using assms(1)
proof (cases pricing rule: linear_shape.cases)
  case (1 rates dflt dims cur dr)
  with assms(2) have "with_default nonneg_table rates dflt" by simp
  then obtain r where r: "rates_for rates (or_str model dflt) dflt = Inr r" by (rule rates_for_ok)
  have "matrix_rate r (dict_get_or rates dflt []) dims dr (reference_params pricing ds model res audio tier)
      = matrix_rate r (dict_get_or rates dflt []) dims dr (reference_params pricing [] model res audio tier)" for ds
    by (cases dims) (simp_all add: matrix_rate_def)
  with r 1 show ?thesis
    by (intro exI [of _ "matrix_rate r (dict_get_or rates dflt []) dims dr (reference_params pricing [] model res audio tier)"])
      (simp add: calculate_pricing_def per_second_matrix_def mult.commute)
next
  case (2 rates dflt cur)
  with assms(2) have "with_default nonneg_table rates dflt" by simp
  then obtain r where r: "rates_for rates (or_str model dflt) dflt = Inr r" by (rule rates_for_ok)
  have "tiered_rate r (reference_params pricing ds model res audio tier)
      = tiered_rate r (reference_params pricing [] model res audio tier)" for ds
    by (simp add: tiered_rate_def tier_of_def cong: option.case_cong)
  with r 2 show ?thesis
    by (intro exI [of _ "tiered_rate r (reference_params pricing [] model res audio tier)"])
      (simp add: calculate_pricing_def per_second_tiered_def mult.commute)
next
  case (3 rates dflt cur)
  with assms(2) have "with_default nonneg_table rates dflt" by simp
  then obtain r where r: "rates_for rates (or_str model dflt) dflt = Inr r" by (rule rates_for_ok)
  with 3 show ?thesis
    by (intro exI [of _ "60000 / 1000000 * dict_get_or r (tier, audio) (dict_get_or r (''default'', True) 16)"])
      (simp add: calculate_pricing_def per_token_video_def ARK_TOKENS_PER_SECOND_ESTIMATE_def)
qed simp_all

text \<open>
  for the shapes charged by the second or by the token, the estimate for the units of an
  episode is the sum of what each unit costs on its own, in the currency of the declaration, and
  nothing for no units.
\<close>

theorem reference_estimate_sum:
  assumes "lookup_pricing reg provider model ''video'' = Inr pricing" and "linear_shape pricing" and "pricing_ok pricing"
  shows "estimate_reference_video_cost reg ds provider model res audio tier
    = Inr (sum_list (map (\<lambda>d. amount_of (estimate_reference_video_cost reg [d] provider model res audio tier)) ds),
           pricing_currency pricing)"
proof -
  obtain c where c: "\<And>ds. calculate_pricing pricing (reference_params pricing ds model res audio tier)
      = Inr (c * of_int (sum_list (map (max 0) ds)), pricing_currency pricing)"
    using linear_amount [OF assms(2,3)] by blast
  have one: "amount_of (estimate_reference_video_cost reg [d] provider model res audio tier) = c * of_int (max 0 d)" for d
    by (simp add: estimate_reference_video_cost_def assms(1) c amount_of_def)
  have "c * of_int (sum_list (map (max 0) ds)) = sum_list (map (\<lambda>d. c * of_int (max 0 d)) ds)"
    by (induction ds) (simp_all add: algebra_simps)
  then show ?thesis unfolding one by (simp add: estimate_reference_video_cost_def assms(1) c)
qed

text \<open>A registry with one Ark-like model, charged by the token.\<close>

definition demo_registry :: registry where
  "demo_registry =
     [(''ark'', [(''seedance'', \<lparr>mi_media_type = ''video'', mi_default = True,
         mi_pricing = Some (PerTokenVideo [(''seedance'', [((''default'', True), 16)])] ''seedance'' ''CNY'')\<rparr>)]),
      (''minimax'', [(''hailuo'', \<lparr>mi_media_type = ''video'', mi_default = True,
         mi_pricing = Some (PerVideoBucket [(''hailuo'', [((''768p'', 6), 2), ((''768p'', 10), 4)])] ''hailuo'' ''CNY'')\<rparr>)]),
      (''gemini-aistudio'', [(''veo'', \<lparr>mi_media_type = ''video'', mi_default = True,
         mi_pricing = Some (PerSecondMatrix [(''veo'', [((''1080p'', Some True), 1)])] ''veo'' Resolution_Audio ''USD'' ''720p'')\<rparr>)]),
      (''gemini-vertex'', [])]"

theorem reference_estimate_sum_witness:
  "estimate_reference_video_cost demo_registry [5, 5] ''ark'' None None True ''default'' = Inr (48 / 5, ''CNY'')"
proof -
  let ?p = "PerTokenVideo [(''seedance'', [((''default'', True), 16)])] ''seedance'' ''CNY''"
  have l: "lookup_pricing demo_registry ''ark'' None ''video'' = Inr ?p" by code_simp
  have k: "linear_shape ?p" "pricing_ok ?p" by (simp_all add: with_default_def model_tables_def nonneg_table_def)
  have one: "amount_of (estimate_reference_video_cost demo_registry [5] ''ark'' None None True ''default'') = 24 / 5"
    by (simp add: estimate_reference_video_cost_def l calculate_pricing_def per_token_video_def rates_for_def
        dict_get_or_def or_str_def amount_of_def ARK_TOKENS_PER_SECOND_ESTIMATE_def)
  show ?thesis using reference_estimate_sum [OF l k, of "[5, 5]" None True "''default''"] by (simp add: one)
qed

text \<open>
  for the bucket shape the estimate of a whole episode is the price of a single bucket,
  however many units there are, so it is not the sum over the units the calculator describes.
\<close>

theorem bucket_estimate_single:
  assumes "lookup_pricing reg provider None ''video'' = Inr (PerVideoBucket [(m, b)] m cur)"
    and "ds \<noteq> []" and "b \<noteq> []"
  shows "\<exists>a \<in> snd ` set b. estimate_reference_video_cost reg ds provider None res audio tier = Inr (a, cur)"
proof -
  let ?p = "reference_params (PerVideoBucket [(m, b)] m cur) ds None res audio tier"
  have r: "rates_for [(m, b)] (or_str (pp_model ?p) m) m = Inr b"
    by (simp add: rates_for_def dict_get_or_def or_str_def)
  have in_b: "dict_get b k = Some a \<Longrightarrow> a \<in> snd ` set b" for k a by (force dest: map_of_SomeD)
  have "\<exists>a \<in> snd ` set b. per_video_bucket [(m, b)] m cur ?p = Inr (a, cur)"
  proof (cases "dict_get b (str_lower (or_str res ''768p''), sum_list (map (max 0) ds))")
    case (Some a)
    with r in_b show ?thesis by (auto simp: per_video_bucket_def)
  next
    case None
    let ?C = "bucket_candidates b (str_lower (or_str res ''768p''))"
    let ?k = "arg_min_list (bucket_order b (sum_list (map (max 0) ds))) ?C"
    have "?k \<in> set (dict_keys b)"
      by (rule subsetD [OF bucket_candidates_sub arg_min_list_in]) (simp add: assms(3))
    then obtain a where "dict_get b ?k = Some a" by (cases "dict_get b ?k") (auto simp: map_of_eq_None_iff)
    with r None in_b assms(3) show ?thesis by (auto simp: per_video_bucket_def Let_def dict_get_or_def)
  qed
  with assms(2) show ?thesis by (simp add: estimate_reference_video_cost_def assms(1) calculate_pricing_def)
qed

theorem bucket_estimate_single_witness:
  "estimate_reference_video_cost demo_registry [6, 6, 6] ''minimax'' None None True ''default'' = Inr (4, ''CNY'')
   \<and> estimate_reference_video_cost demo_registry [6] ''minimax'' None None True ''default'' = Inr (2, ''CNY'')"
proof -
  have l: "lookup_pricing demo_registry ''minimax'' None ''video''
      = Inr (PerVideoBucket [(''hailuo'', [((''768p'', 6), 2), ((''768p'', 10), 4)])] ''hailuo'' ''CNY'')" by code_simp
  have "\<exists>a \<in> {2, 4}. estimate_reference_video_cost demo_registry [6, 6, 6] ''minimax'' None None True ''default'' = Inr (a, ''CNY'')"
    using bucket_estimate_single [OF l, of "[6, 6, 6]" None True "''default''"] by auto
  moreover have "estimate_reference_video_cost demo_registry [6, 6, 6] ''minimax'' None None True ''default'' \<noteq> Inr (2, ''CNY'')"
    by code_simp
  moreover have "estimate_reference_video_cost demo_registry [6] ''minimax'' None None True ''default'' = Inr (2, ''CNY'')"
    by code_simp
  ultimately show ?thesis by auto
qed

subsection \<open>The lookup\<close>

text \<open>Every provider entry of the family is there, and its default model for the medium is priced.\<close>

definition registry_covers :: "registry \<Rightarrow> string \<Rightarrow> bool" where
  "registry_covers reg media \<longleftrightarrow>
     ''gemini-vertex'' \<in> set (dict_keys reg)
     \<and> (case dict_get reg ''gemini-aistudio'' of
          None \<Rightarrow> False
        | Some ms \<Rightarrow> default_priced reg ''gemini-aistudio'' ms media \<noteq> None)"

text \<open>The price is the declared one of a model of the medium.\<close>

definition priced_medium :: "registry \<Rightarrow> string \<Rightarrow> pricing \<Rightarrow> bool" where
  "priced_medium reg media p \<longleftrightarrow>
     (\<exists>pid ms i. dict_get reg pid = Some ms \<and> i \<in> snd ` set ms \<and> mi_media_type i = media \<and> mi_pricing i = Some p)"

lemma priced_for_medium:
  assumes "dict_get reg pid = Some ms" and "priced_for ms media m = Some p"
  shows "priced_medium reg media p"
proof -
  from assms(2) obtain i where i: "dict_get ms m = Some i" "mi_media_type i = media" "mi_pricing i = Some p"
    by (auto simp: priced_for_def split: option.splits if_splits)
  then have "i \<in> snd ` set ms" by (force dest: map_of_SomeD)
  with i assms(1) show ?thesis unfolding priced_medium_def by blast
qed

lemma default_priced_medium:
  assumes "dict_get reg pid = Some ms" and "distinct (dict_keys ms)" and "default_priced reg pid ms media = Some p"
  shows "priced_medium reg media p"
proof -
  from assms(1,3) obtain m j where f: "find (\<lambda>(k, i). mi_media_type i = media \<and> mi_default i) ms = Some (m, j)"
    and g: "\<exists>i. dict_get ms m = Some i \<and> mi_pricing i = Some p"
    by (auto simp: default_priced_def default_model_for_provider_def split: option.splits)
  from f have "(m, j) \<in> set ms" "mi_media_type j = media" by (auto simp: find_Some_iff in_set_conv_nth)
  moreover have "dict_get ms m = Some j" using \<open>(m, j) \<in> set ms\<close> assms(2) by simp
  with g have "mi_pricing j = Some p" by simp
  moreover have "j \<in> snd ` set ms" using \<open>(m, j) \<in> set ms\<close> by force
  ultimately show ?thesis using assms(1) unfolding priced_medium_def by blast
qed

lemma gemini_default_medium:
  assumes "registry_covers reg media" and "\<forall>pm \<in> set reg. distinct (dict_keys (snd pm))"
  shows "\<exists>p. gemini_default_pricing_for reg media model = Inr p \<and> priced_medium reg media p"
proof -
  obtain ms where ms: "dict_get reg ''gemini-aistudio'' = Some ms" "default_priced reg ''gemini-aistudio'' ms media \<noteq> None"
    using assms(1) by (auto simp: registry_covers_def split: option.splits)
  obtain vs where vs: "dict_get reg ''gemini-vertex'' = Some vs"
    using assms(1) by (cases "dict_get reg ''gemini-vertex''") (auto simp: registry_covers_def map_of_eq_None_iff)
  have dist: "distinct (dict_keys ms)" using assms(2) map_of_SomeD [OF ms(1)] by force
  obtain d where d: "default_priced reg ''gemini-aistudio'' ms media = Some d" using ms(2) by blast
  with default_priced_medium [OF ms(1) dist] have dm: "priced_medium reg media d" by blast
  show ?thesis
  proof (cases model)
    case None
    with ms(1) d dm show ?thesis by (simp add: gemini_default_pricing_for_def subscript_def)
  next
    case (Some m)
    show ?thesis
    proof (cases "priced_for ms media m")
      case None
      with Some ms(1) vs d dm priced_for_medium [OF vs, of media m] show ?thesis
        by (cases "priced_for vs media m") (simp_all add: gemini_default_pricing_for_def subscript_def)
    next
      case hit: (Some p)
      with Some ms(1) priced_for_medium [OF ms(1) hit] show ?thesis
        by (simp add: gemini_default_pricing_for_def subscript_def)
    qed
  qed
qed

text \<open>
  when the fallback family has a priced default for the medium, the lookup always answers,
  and only with the declared price of a model of that medium: a call is never charged by the
  rates of a model of another medium.
\<close>

theorem lookup_stays_in_medium:
  assumes "registry_covers reg media" and "\<forall>pm \<in> set reg. distinct (dict_keys (snd pm))"
    and "provider \<notin> {''anthropic'', ''vidu''}"
  shows "\<exists>p. lookup_pricing reg provider model media = Inr p \<and> priced_medium reg media p"
proof (cases "dict_get reg provider")
  case None
  with assms gemini_default_medium [OF assms(1,2)] show ?thesis by (simp add: lookup_pricing_def)
next
  case (Some ms)
  have dist: "distinct (dict_keys ms)" using assms(2) map_of_SomeD [OF Some] by force
  show ?thesis
  proof (cases "case model of None \<Rightarrow> None | Some m \<Rightarrow> priced_for ms media m")
    case (Some p)
    with \<open>dict_get reg provider = Some ms\<close> assms(3) priced_for_medium show ?thesis
      by (auto simp: lookup_pricing_def split: option.splits)
  next
    case None
    show ?thesis
    proof (cases "if provider \<in> set OWN_TABLE_PROVIDERS then default_priced reg provider ms media else None")
      case hit: (Some p)
      with default_priced_medium [OF Some dist] have "priced_medium reg media p" by (auto split: if_splits)
      with None hit Some assms(3) show ?thesis by (simp add: lookup_pricing_def)
    next
      case miss: None
      from None miss Some assms(3) have "lookup_pricing reg provider model media = gemini_default_pricing_for reg media model"
        by (simp add: lookup_pricing_def)
      with gemini_default_medium [OF assms(1,2)] show ?thesis by simp
    qed
  qed
qed

theorem lookup_stays_in_medium_witness:
  "\<exists>p. lookup_pricing demo_registry ''nobody'' (Some ''veo'') ''video'' = Inr p \<and> priced_medium demo_registry ''video'' p"
proof -
  have "registry_covers demo_registry ''video''" by code_simp
  moreover have "\<forall>pm \<in> set demo_registry. distinct (dict_keys (snd pm))" by (simp add: demo_registry_def)
  ultimately show ?thesis using lookup_stays_in_medium by simp
qed

end
