(* ===== verification/Usage_Ledger.thy ===== *)
theory Usage_Ledger
  imports Pricing Task_Model
begin

text \<open>
  The ledger of provider calls: the table \<open>api_calls\<close> (lib/db/models/api_call.py) and the
  operations of \<open>UsageRepository\<close> (lib/db/repositories/usage_repo.py). A call is opened as
  pending, settled once with its final duration, token counts and cost, and aggregated by
  currency, provider and segment. Times are microseconds, days are whole days since the epoch.
  The price declared for a custom provider's model is an argument (the database query behind
  \<open>get_model_by_ids\<close>).
\<close>

record api_call =
  ac_id :: int
  ac_project_name :: string
  ac_call_type :: string
  ac_model :: string
  ac_prompt :: "string option"
  ac_resolution :: "string option"
  ac_duration_seconds :: "int option"
  ac_aspect_ratio :: "string option"
  ac_generate_audio :: "bool option"
  ac_status :: string
  ac_error_message :: "string option"
  ac_output_path :: "string option"
  ac_segment_id :: "string option"
  ac_started_at :: int
  ac_finished_at :: "int option"
  ac_duration_ms :: "int option"
  ac_retry_count :: int
  ac_cost_amount :: rat
  ac_currency :: string
  ac_provider :: string
  ac_usage_tokens :: "int option"
  ac_gateway_request_id :: "string option"
  ac_input_tokens :: "int option"
  ac_output_tokens :: "int option"
  ac_image_input_tokens :: "int option"
  ac_image_output_tokens :: "int option"
  ac_text_input_tokens :: "int option"
  ac_text_output_tokens :: "int option"
  ac_user_id :: string

definition find_call :: "api_call list \<Rightarrow> int \<Rightarrow> api_call option" where
  "find_call calls i = find (\<lambda>c. ac_id c = i) calls"

lemma find_call_id: "find_call calls i = Some c \<Longrightarrow> ac_id c = i"
  by (auto simp: find_call_def find_Some_iff)

lemma find_call_update:
  "(\<And>c. ac_id (f c) = ac_id c) \<Longrightarrow>
   find_call (update_rows calls p f) i = map_option (\<lambda>c. if p c then f c else c) (find_call calls i)"
  by (induction calls) (auto simp: find_call_def update_rows_def)

interpretation call_table: row_store find_call update_rows ac_id
  by unfold_locales (auto intro: find_call_id find_call_update)

definition MAX_BILLED_DURATION_SECONDS :: int where
  "MAX_BILLED_DURATION_SECONDS = 86400"

record settlement_input =
  si_cost_amount :: "rat option"
  si_currency :: "string option"
  si_service_tier :: string
  si_generate_audio :: "bool option"
  si_billed_duration_seconds :: "int option"
  si_usage_tokens :: "int option"
  si_input_tokens :: "int option"
  si_output_tokens :: "int option"
  si_quality :: "string option"
  si_image_input_tokens :: "int option"
  si_image_output_tokens :: "int option"
  si_text_input_tokens :: "int option"
  si_text_output_tokens :: "int option"
  si_gateway_request_id :: "string option"

definition default_settlement :: settlement_input where
  "default_settlement =
     \<lparr>si_cost_amount = None, si_currency = None, si_service_tier = ''default'', si_generate_audio = None,
      si_billed_duration_seconds = None, si_usage_tokens = None, si_input_tokens = None,
      si_output_tokens = None, si_quality = None, si_image_input_tokens = None,
      si_image_output_tokens = None, si_text_input_tokens = None, si_text_output_tokens = None,
      si_gateway_request_id = None\<rparr>"

record settled_call =
  sc_duration_ms :: int
  sc_duration_seconds :: "int option"
  sc_generate_audio :: "bool option"
  sc_input_tokens :: "int option"
  sc_output_tokens :: "int option"
  sc_cost_amount :: rat
  sc_currency :: string

subsection \<open>Opening a call\<close>

record call_args =
  ca_project_name :: string
  ca_call_type :: string
  ca_model :: string
  ca_prompt :: "string option"
  ca_resolution :: "string option"
  ca_duration_seconds :: "int option"
  ca_aspect_ratio :: "string option"
  ca_generate_audio :: bool
  ca_provider :: string
  ca_user_id :: string
  ca_segment_id :: "string option"

definition truncated :: "string option \<Rightarrow> string option" where
  "truncated s = (if truthy_str s then map_option (take 500) s else None)"

text \<open>The identifier is the one the database assigns.\<close>

definition start_call :: "int \<Rightarrow> int \<Rightarrow> call_args \<Rightarrow> api_call list \<Rightarrow> int \<times> api_call list" where
  "start_call cid now a calls =
     (cid, calls @
       [\<lparr>ac_id = cid, ac_project_name = ca_project_name a, ac_call_type = ca_call_type a, ac_model = ca_model a,
         ac_prompt = truncated (ca_prompt a), ac_resolution = ca_resolution a,
         ac_duration_seconds = ca_duration_seconds a, ac_aspect_ratio = ca_aspect_ratio a,
         ac_generate_audio = Some (ca_generate_audio a), ac_status = ''pending'', ac_error_message = None,
         ac_output_path = None, ac_segment_id = ca_segment_id a, ac_started_at = now, ac_finished_at = None,
         ac_duration_ms = None, ac_retry_count = 0, ac_cost_amount = 0, ac_currency = ''USD'',
         ac_provider = ca_provider a, ac_usage_tokens = None, ac_gateway_request_id = None,
         ac_input_tokens = None, ac_output_tokens = None, ac_image_input_tokens = None,
         ac_image_output_tokens = None, ac_text_input_tokens = None, ac_text_output_tokens = None,
         ac_user_id = ca_user_id a\<rparr>])"

subsection \<open>Settling\<close>

text \<open>\<open>int(total_seconds * 1000)\<close>: microseconds to milliseconds, towards zero.\<close>

definition elapsed_ms :: "int \<Rightarrow> int \<Rightarrow> int" where
  "elapsed_ms started finished =
     (let d = finished - started in if 0 \<le> d then d div 1000 else - ((- d) div 1000))"

definition effective_duration :: "api_call \<Rightarrow> settlement_input \<Rightarrow> int option" where
  "effective_duration row si =
     (case si_billed_duration_seconds si of
        Some b \<Rightarrow> if 0 < b \<and> b \<le> MAX_BILLED_DURATION_SECONDS then Some b else ac_duration_seconds row
      | None \<Rightarrow> ac_duration_seconds row)"

definition has_image_tokens :: "settlement_input \<Rightarrow> bool" where
  "has_image_tokens si \<longleftrightarrow>
     si_image_input_tokens si \<noteq> None \<or> si_image_output_tokens si \<noteq> None
     \<or> si_text_input_tokens si \<noteq> None \<or> si_text_output_tokens si \<noteq> None"

type_synonym price_source = "string \<Rightarrow> string \<Rightarrow> custom_price option"

text \<open>Only a custom provider has a declared price; a failed or empty query gives none.\<close>

definition resolve_price :: "price_source \<Rightarrow> string \<Rightarrow> string \<Rightarrow> custom_price" where
  "resolve_price prices provider model =
     (if is_custom_provider provider
      then (case prices provider model of None \<Rightarrow> no_price | Some cp \<Rightarrow> cp)
      else no_price)"

definition settlement_params :: "api_call \<Rightarrow> settlement_input \<Rightarrow> int option \<Rightarrow> int option \<Rightarrow> pricing_params" where
  "settlement_params row si input_tokens output_tokens =
     (default_params (ac_call_type row))
       \<lparr>pp_model := Some (ac_model row), pp_resolution := ac_resolution row, pp_aspect_ratio := ac_aspect_ratio row,
        pp_duration_seconds := effective_duration row si,
        pp_generate_audio := (case (case si_generate_audio si of Some b \<Rightarrow> Some b | None \<Rightarrow> ac_generate_audio row) of
                                Some b \<Rightarrow> b | None \<Rightarrow> False),
        pp_usage_tokens := si_usage_tokens si, pp_service_tier := si_service_tier si,
        pp_input_tokens := input_tokens, pp_output_tokens := output_tokens, pp_quality := si_quality si,
        pp_image_input_tokens := si_image_input_tokens si, pp_image_output_tokens := si_image_output_tokens si,
        pp_text_input_tokens := si_text_input_tokens si, pp_text_output_tokens := si_text_output_tokens si\<rparr>"

definition settle ::
  "registry \<Rightarrow> price_source \<Rightarrow> api_call \<Rightarrow> int \<Rightarrow> settlement_input \<Rightarrow> bool \<Rightarrow> string \<Rightarrow> py_error + settled_call" where
  "settle reg prices row finished si auto_calc base_currency =
     (let audio = (case si_generate_audio si of Some b \<Rightarrow> Some b | None \<Rightarrow> ac_generate_audio row);
          it = (if has_image_tokens si
                then Some (or_int (si_image_input_tokens si) 0 + or_int (si_text_input_tokens si) 0)
                else si_input_tokens si);
          ot = (if has_image_tokens si
                then Some (or_int (si_image_output_tokens si) 0 + or_int (si_text_output_tokens si) 0)
                else si_output_tokens si);
          charge = (case si_cost_amount si of
              Some c \<Rightarrow> Inr (c, or_str (si_currency si) base_currency)
            | None \<Rightarrow>
                if auto_calc
                then (let provider = (if ac_provider row = [] then ''gemini'' else ac_provider row)
                      in calculate_cost reg provider (settlement_params row si it ot)
                           (resolve_price prices provider (ac_model row)) False)
                else Inr (0, base_currency))
      in case charge of
           Inl e \<Rightarrow> Inl e
         | Inr (cost, cur) \<Rightarrow>
             Inr \<lparr>sc_duration_ms = elapsed_ms (ac_started_at row) finished,
                  sc_duration_seconds = effective_duration row si, sc_generate_audio = audio,
                  sc_input_tokens = it, sc_output_tokens = ot, sc_cost_amount = cost, sc_currency = cur\<rparr>)"

definition UPDATE_call :: "int \<Rightarrow> (api_call \<Rightarrow> bool) \<Rightarrow> (api_call \<Rightarrow> api_call) \<Rightarrow> api_call list \<Rightarrow> nat \<times> api_call list" where
  "UPDATE_call cid g f calls =
     (count_rows calls (\<lambda>c. ac_id c = cid \<and> g c), update_rows calls (\<lambda>c. ac_id c = cid \<and> g c) f)"

text \<open>The columns the resume path writes.\<close>

definition finalized_row :: "int \<Rightarrow> settlement_input \<Rightarrow> string \<Rightarrow> settled_call \<Rightarrow> api_call \<Rightarrow> api_call" where
  "finalized_row now si st s c =
     c\<lparr>ac_status := st, ac_finished_at := Some now, ac_duration_ms := Some (sc_duration_ms s),
       ac_duration_seconds := sc_duration_seconds s, ac_cost_amount := sc_cost_amount s,
       ac_currency := sc_currency s, ac_usage_tokens := si_usage_tokens si,
       ac_generate_audio := sc_generate_audio s\<rparr>"

definition finalize_pending_by_call_id ::
  "registry \<Rightarrow> price_source \<Rightarrow> int \<Rightarrow> int \<Rightarrow> settlement_input \<Rightarrow> string \<Rightarrow> api_call list
    \<Rightarrow> py_error + (nat \<times> api_call list)" where
  "finalize_pending_by_call_id reg prices now cid si st calls =
     (case find_call calls cid of
        None \<Rightarrow> Inr (0, calls)
      | Some row \<Rightarrow>
          (case settle reg prices row now si (st = ''success'' \<and> ac_status row = ''pending'')
                  (or_str (si_currency si) ''USD'') of
             Inl e \<Rightarrow> Inl e
           | Inr s \<Rightarrow>
               Inr (UPDATE_call cid (\<lambda>c. ac_status c = ''pending'') (finalized_row now si st s) calls)))"

text \<open>The columns the normal path writes.\<close>

definition finished_row ::
  "int \<Rightarrow> settlement_input \<Rightarrow> string \<Rightarrow> string option \<Rightarrow> string option \<Rightarrow> settled_call \<Rightarrow> api_call \<Rightarrow> api_call" where
  "finished_row now si st output_path err s c =
     c\<lparr>ac_status := st, ac_finished_at := Some now, ac_duration_ms := Some (sc_duration_ms s),
       ac_duration_seconds := sc_duration_seconds s, ac_generate_audio := sc_generate_audio s,
       ac_cost_amount := sc_cost_amount s, ac_currency := sc_currency s,
       ac_usage_tokens := si_usage_tokens si, ac_input_tokens := sc_input_tokens s,
       ac_output_tokens := sc_output_tokens s, ac_image_input_tokens := si_image_input_tokens si,
       ac_image_output_tokens := si_image_output_tokens si, ac_text_input_tokens := si_text_input_tokens si,
       ac_text_output_tokens := si_text_output_tokens si, ac_gateway_request_id := si_gateway_request_id si,
       ac_output_path := output_path, ac_error_message := truncated err\<rparr>"

definition finish_call ::
  "registry \<Rightarrow> price_source \<Rightarrow> int \<Rightarrow> int \<Rightarrow> string \<Rightarrow> settlement_input \<Rightarrow> string option \<Rightarrow> string option
    \<Rightarrow> api_call list \<Rightarrow> py_error + api_call list" where
  "finish_call reg prices now cid st si output_path err calls =
     (case find_call calls cid of
        None \<Rightarrow> Inr calls
      | Some row \<Rightarrow>
          (case settle reg prices row now si (st = ''success'')
                  (if ac_currency row = [] then ''USD'' else ac_currency row) of
             Inl e \<Rightarrow> Inl e
           | Inr s \<Rightarrow> Inr (snd (UPDATE_call cid (\<lambda>c. True) (finished_row now si st output_path err s) calls))))"

lemma written_rows [simp]:
  "ac_id (finalized_row now si st s c) = ac_id c" "ac_status (finalized_row now si st s c) = st"
  "ac_cost_amount (finalized_row now si st s c) = sc_cost_amount s"
  "ac_duration_seconds (finalized_row now si st s c) = sc_duration_seconds s"
  "ac_id (finished_row now si st out err s c) = ac_id c" "ac_status (finished_row now si st out err s c) = st"
  "ac_cost_amount (finished_row now si st out err s c) = sc_cost_amount s"
  "ac_duration_seconds (finished_row now si st out err s c) = sc_duration_seconds s"
  by (simp_all add: finalized_row_def finished_row_def)

end
