(* ===== verification/Usage_Stats.thy ===== *)
theory Usage_Stats
  imports Usage_Ledger
begin

text \<open>
  The aggregating queries of \<open>UsageRepository\<close>: the filters, the totals per currency, the
  statistics per provider and call type, the paged call list, the costs per segment and the
  image costs per kind of asset. Sums are exact; \<open>round\<close> is Python's rounding to even. The
  display names of get_stats_grouped_by_provider, texts of the registry, are left out.
\<close>

subsection \<open>Rounding\<close>

definition round_even :: "rat \<Rightarrow> int" where
  "round_even x =
     (let f = \<lfloor>x\<rfloor>; d = x - of_int f
      in if d < 1 / 2 then f else if 1 / 2 < d then f + 1 else if even f then f else f + 1)"

definition round_to :: "rat \<Rightarrow> nat \<Rightarrow> rat" where
  "round_to x n = of_int (round_even (x * 10 ^ n)) / 10 ^ n"

subsection \<open>Filters\<close>

record usage_filter =
  uf_project_name :: "string option"
  uf_provider :: "string option"
  uf_call_type :: "string option"
  uf_status :: "string option"
  uf_start_day :: "int option"
  uf_end_day :: "int option"

definition no_usage_filter :: usage_filter where
  "no_usage_filter =
     \<lparr>uf_project_name = None, uf_provider = None, uf_call_type = None, uf_status = None,
      uf_start_day = None, uf_end_day = None\<rparr>"

definition US_PER_DAY :: int where
  "US_PER_DAY = 86400000000"

definition on_text :: "string option \<Rightarrow> string \<Rightarrow> bool" where
  "on_text f v \<longleftrightarrow> (truthy_str f \<longrightarrow> f = Some v)"

text \<open>The end day is included: the bound is the midnight after it.\<close>

definition build_filters :: "usage_filter \<Rightarrow> api_call \<Rightarrow> bool" where
  "build_filters f c \<longleftrightarrow>
     on_text (uf_project_name f) (ac_project_name c) \<and> on_text (uf_provider f) (ac_provider c)
     \<and> on_text (uf_call_type f) (ac_call_type c) \<and> on_text (uf_status f) (ac_status c)
     \<and> (case uf_start_day f of None \<Rightarrow> True | Some d \<Rightarrow> d * US_PER_DAY \<le> ac_started_at c)
     \<and> (case uf_end_day f of None \<Rightarrow> True | Some d \<Rightarrow> ac_started_at c < (d + 1) * US_PER_DAY)"

subsection \<open>Totals\<close>

definition billed :: "api_call \<Rightarrow> bool" where
  "billed c \<longleftrightarrow> ac_status c = ''success'' \<and> 0 < ac_cost_amount c"

definition cost_sum :: "api_call list \<Rightarrow> rat" where
  "cost_sum calls = sum_list (map ac_cost_amount calls)"

definition usd_total :: "api_call list \<Rightarrow> rat" where
  "usd_total calls = cost_sum (filter (\<lambda>c. billed c \<and> ac_currency c = ''USD'') calls)"

definition cost_by :: "(api_call \<Rightarrow> 'k) \<Rightarrow> nat \<Rightarrow> api_call list \<Rightarrow> ('k, rat) dict" where
  "cost_by key digits calls =
     map (\<lambda>(k, cs). (k, round_to (cost_sum cs) digits)) (group_by key id (filter billed calls))"

record usage_stats =
  us_total_cost :: rat
  us_cost_by_currency :: "(string, rat) dict"
  us_image_count :: nat
  us_video_count :: nat
  us_text_count :: nat
  us_audio_count :: nat
  us_failed_count :: nat
  us_total_count :: nat

definition usage_get_stats :: "usage_filter \<Rightarrow> api_call list \<Rightarrow> usage_stats" where
  "usage_get_stats f calls =
     (let rows = filter (build_filters (f\<lparr>uf_call_type := None, uf_status := None\<rparr>)) calls
      in \<lparr>us_total_cost = round_to (usd_total rows) 4,
          us_cost_by_currency = cost_by ac_currency 4 rows,
          us_image_count = count_rows rows (\<lambda>c. ac_call_type c = ''image''),
          us_video_count = count_rows rows (\<lambda>c. ac_call_type c = ''video''),
          us_text_count = count_rows rows (\<lambda>c. ac_call_type c = ''text''),
          us_audio_count = count_rows rows (\<lambda>c. ac_call_type c = ''audio''),
          us_failed_count = count_rows rows (\<lambda>c. ac_status c = ''failed''),
          us_total_count = length rows\<rparr>)"

record provider_stat =
  ps_provider :: string
  ps_call_type :: string
  ps_total_calls :: nat
  ps_success_calls :: nat
  ps_total_cost_usd :: rat
  ps_cost_by_currency :: "(string, rat) dict"
  ps_total_duration_seconds :: rat

definition duration_sum :: "api_call list \<Rightarrow> int" where
  "duration_sum calls = sum_list (map (\<lambda>c. case ac_duration_ms c of None \<Rightarrow> 0 | Some d \<Rightarrow> d) calls)"

definition get_stats_grouped_by_provider :: "usage_filter \<Rightarrow> api_call list \<Rightarrow> provider_stat list" where
  "get_stats_grouped_by_provider f calls =
     (let rows = filter (build_filters (f\<lparr>uf_call_type := None, uf_status := None\<rparr>)) calls
      in map (\<lambda>((prov, ct), cs).
            \<lparr>ps_provider = prov, ps_call_type = ct, ps_total_calls = length cs,
             ps_success_calls = count_rows cs (\<lambda>c. ac_status c = ''success''),
             ps_total_cost_usd = round_to (usd_total cs) 4,
             ps_cost_by_currency = cost_by ac_currency 4 cs,
             ps_total_duration_seconds =
               (if duration_sum cs = 0 then 0 else round_to (of_int (duration_sum cs) / 1000) 1)\<rparr>)
           (order_by fst (group_by (\<lambda>c. (ac_provider c, ac_call_type c)) id rows)))"

record call_page =
  cp_items :: "api_call list"
  cp_total :: nat
  cp_page :: int
  cp_page_size :: int

text \<open>A negative LIMIT is no limit and a negative OFFSET is none, as in SQLite.\<close>

definition get_calls :: "usage_filter \<Rightarrow> int \<Rightarrow> int \<Rightarrow> api_call list \<Rightarrow> call_page" where
  "get_calls f page page_size calls =
     (let rows = filter (build_filters (f\<lparr>uf_provider := None\<rparr>)) calls;
          sorted_rows = drop (nat ((page - 1) * page_size)) (order_by (\<lambda>c. - ac_started_at c) rows)
      in \<lparr>cp_items = (if page_size < 0 then sorted_rows else take (nat page_size) sorted_rows),
          cp_total = length rows, cp_page = page, cp_page_size = page_size\<rparr>)"

subsection \<open>Costs per segment\<close>

definition PROJECT_LEVEL_SEGMENT_KEY :: string where
  "PROJECT_LEVEL_SEGMENT_KEY = CHR 0x00 # ''__project__''"

definition segment_key :: "api_call \<Rightarrow> string" where
  "segment_key c = (case ac_segment_id c of Some s \<Rightarrow> s | None \<Rightarrow> PROJECT_LEVEL_SEGMENT_KEY)"

definition put_cost ::
  "(string, (string, (string, rat) dict) dict) dict \<Rightarrow> string \<Rightarrow> string \<Rightarrow> string \<Rightarrow> rat
    \<Rightarrow> (string, (string, (string, rat) dict) dict) dict" where
  "put_cost res key ct cur v =
     (let by_type = dict_get_or res key [];
          by_cur = dict_get_or by_type ct []
      in dict_set res key (dict_set by_type ct (dict_set by_cur cur v)))"

definition get_actual_costs_by_segment ::
  "string \<Rightarrow> api_call list \<Rightarrow> (string, (string, (string, rat) dict) dict) dict" where
  "get_actual_costs_by_segment project calls =
     foldl (\<lambda>res ((seg, ct, cur), total).
        put_cost res (case seg of Some s \<Rightarrow> s | None \<Rightarrow> PROJECT_LEVEL_SEGMENT_KEY) ct cur (round_to total 6)) []
       (map (\<lambda>(k, cs). (k, cost_sum cs))
         (group_by (\<lambda>c. (ac_segment_id c, ac_call_type c, ac_currency c)) id
           (filter (\<lambda>c. ac_project_name c = project \<and> billed c) calls)))"

definition slash :: "char \<Rightarrow> char" where
  "slash c = (if c = CHR 0x5C then CHR ''/'' else c)"

text \<open>\<open>/kind/\<close> inside the path or \<open>kind/\<close> at its start.\<close>

definition in_folder :: "string \<Rightarrow> string \<Rightarrow> bool" where
  "in_folder kind path \<longleftrightarrow>
     str_contains (CHR ''/'' # kind @ ''/'') path \<or> take (Suc (length kind)) path = kind @ ''/''"

definition classify_asset_output_path :: "string option \<Rightarrow> string" where
  "classify_asset_output_path output_path =
     (case output_path of
        None \<Rightarrow> ''other''
      | Some path \<Rightarrow>
          if path = [] then ''other''
          else (let normalized = str_lower (map slash path)
                in case find (\<lambda>kind. in_folder kind normalized) [''characters'', ''scenes'', ''props'', ''products''] of
                     Some kind \<Rightarrow> kind
                   | None \<Rightarrow> if in_folder ''clues'' normalized then ''props'' else ''other''))"

definition get_project_image_costs_by_asset_type ::
  "string \<Rightarrow> api_call list \<Rightarrow> (string, (string, rat) dict) dict" where
  "get_project_image_costs_by_asset_type project calls =
     foldl (\<lambda>res ((path, cur), total).
        (let kind = classify_asset_output_path path;
             bucket = dict_get_or res kind []
         in dict_set res kind (dict_set bucket cur (round_to (dict_get_or bucket cur 0 + total) 6)))) []
       (map (\<lambda>(k, cs). (k, cost_sum cs))
         (group_by (\<lambda>c. (ac_output_path c, ac_currency c)) id
           (filter (\<lambda>c. ac_project_name c = project \<and> billed c \<and> ac_call_type c = ''image'' \<and> ac_segment_id c = None)
             calls)))"

definition get_projects_list :: "api_call list \<Rightarrow> string list" where
  "get_projects_list calls = order_by id (fromkeys (map ac_project_name calls))"

end
