(* ===== verification/Usage_Props.thy ===== *)
theory Usage_Props
  imports Usage_Stats
begin

text \<open>
  Properties of the ledger of provider calls: a settled call cannot be settled again through the
  resume path, while the normal path overwrites; the stored duration stays within a day; the
  statistics count every call once, split the costs by currency consistently, and the costs per
  segment are the sums of exactly the matching calls.
\<close>

definition demo_call :: api_call where
  "demo_call = hd (snd (start_call 1 0
     \<lparr>ca_project_name = ''p'', ca_call_type = ''image'', ca_model = ''m'', ca_prompt = None, ca_resolution = None,
      ca_duration_seconds = None, ca_aspect_ratio = None, ca_generate_audio = True, ca_provider = ''custom-1'',
      ca_user_id = ''u'', ca_segment_id = Some ''s1''\<rparr> []))"

definition demo_price :: price_source where
  "demo_price = (\<lambda>prov model. Some \<lparr>cp_price_input = Some 3, cp_price_output = None, cp_currency = Some ''USD''\<rparr>)"

subsection \<open>Settling once\<close>

lemma UPDATE_call_cas:
  assumes "distinct (map ac_id calls)"
  shows "call_table.cas calls cid g f = None \<longleftrightarrow> fst (UPDATE_call cid g f calls) = 0"
proof -
  have "(\<forall>c \<in> set calls. \<not> (ac_id c = cid \<and> g c)) \<longleftrightarrow>
      (case find_call calls cid of None \<Rightarrow> True | Some c \<Rightarrow> \<not> g c)"
  proof (cases "find_call calls cid")
    case None
    then have "\<forall>c \<in> set calls. ac_id c \<noteq> cid" by (simp add: find_call_def find_None_iff)
    with None show ?thesis by simp
  next
    case (Some c)
    then have c: "c \<in> set calls" "ac_id c = cid" by (auto simp: find_call_def find_Some_iff)
    have "x = c" if "x \<in> set calls" "ac_id x = cid" for x
      using assms that c by (auto simp: distinct_map inj_on_def)
    then have "(\<forall>x \<in> set calls. \<not> (ac_id x = cid \<and> g x)) \<longleftrightarrow> \<not> g c" using c by blast
    then show ?thesis unfolding Some option.case .
  qed
  then show ?thesis by (simp add: UPDATE_call_def count_rows_zero call_table.cas_guard)
qed

lemma UPDATE_call_zero: "fst (UPDATE_call cid g f calls) = 0 \<Longrightarrow> snd (UPDATE_call cid g f calls) = calls"
  by (simp add: UPDATE_call_def count_rows_zero update_rows_none)

lemma find_call_UPDATE:
  "(\<And>c. ac_id (f c) = ac_id c) \<Longrightarrow> find_call calls cid = Some c \<Longrightarrow>
   find_call (snd (UPDATE_call cid g f calls)) cid = Some (if g c then f c else c)"
  using find_call_id [of calls cid c] by (simp add: UPDATE_call_def find_call_update)

lemma UPDATE_call_ids: "(\<And>c. ac_id (f c) = ac_id c) \<Longrightarrow> map ac_id (snd (UPDATE_call cid g f calls)) = map ac_id calls"
  by (simp add: UPDATE_call_def map_update_rows)

lemma finalize_cases:
  assumes "finalize_pending_by_call_id reg prices now cid si st calls = Inr (n, calls')"
  obtains (none) "find_call calls cid = None" "n = 0" "calls' = calls"
    | (row) row s where "find_call calls cid = Some row"
      "UPDATE_call cid (\<lambda>c. ac_status c = ''pending'') (finalized_row now si st s) calls = (n, calls')"
  using assms none row by (auto simp: finalize_pending_by_call_id_def split: option.splits sum.splits)

lemma finalize_not_pending:
  assumes ids: "distinct (map ac_id calls)" and "find_call calls cid = Some row" and "ac_status row \<noteq> ''pending''"
    and "finalize_pending_by_call_id reg prices now cid si st calls = Inr (n, calls')"
  shows "n = 0 \<and> calls' = calls"
  using assms(4)
proof (cases rule: finalize_cases)
  case (row r s)
  let ?f = "finalized_row now si st s"
  have "call_table.cas calls cid (\<lambda>c. ac_status c = ''pending'') ?f = None"
    using assms(2,3) by (simp add: call_table.cas_guard)
  then have "fst (UPDATE_call cid (\<lambda>c. ac_status c = ''pending'') ?f calls) = 0"
    using UPDATE_call_cas [OF ids] by blast
  with UPDATE_call_zero [OF this] row(2) show ?thesis by simp
qed simp

text \<open>
  C14: the resume path settles a call at most once: after one finalization, whatever a later one
  submits, it reports no row and changes nothing, so nothing is charged twice.
\<close>

theorem finalize_settles_once:
  assumes "distinct (map ac_id calls)" and "st \<noteq> ''pending''"
    and "finalize_pending_by_call_id reg prices t1 cid si st calls = Inr (n, calls1)"
    and "finalize_pending_by_call_id reg prices t2 cid si' st' calls1 = Inr (m, calls2)"
  shows "m = 0 \<and> calls2 = calls1"
  using assms(3)
proof (cases rule: finalize_cases)
  case none
  with assms(4) show ?thesis by (simp add: finalize_pending_by_call_id_def)
next
  case (row r s)
  let ?f = "finalized_row t1 si st s"
  have keep: "ac_id (?f c) = ac_id c" for c by simp
  have calls1: "snd (UPDATE_call cid (\<lambda>c. ac_status c = ''pending'') ?f calls) = calls1" using row(2) by simp
  have "find_call calls1 cid = Some (if ac_status r = ''pending'' then ?f r else r)"
    using find_call_UPDATE [OF keep row(1), where g = "\<lambda>c. ac_status c = ''pending''"] calls1 by simp
  moreover have "ac_status (if ac_status r = ''pending'' then ?f r else r) \<noteq> ''pending''"
    using assms(2) by simp
  moreover have "distinct (map ac_id calls1)" using UPDATE_call_ids [OF keep] assms(1) calls1 by metis
  ultimately show ?thesis using finalize_not_pending assms(4) by blast
qed

lemma demo_finalize:
  "\<exists>calls1. finalize_pending_by_call_id [] demo_price 5 1 default_settlement ''success'' [demo_call] = Inr (1, calls1)
     \<and> map (\<lambda>c. (ac_status c, ac_cost_amount c)) calls1 = [(''success'', 3)]"
proof -
  have "case finalize_pending_by_call_id [] demo_price 5 1 default_settlement ''success'' [demo_call] of
      Inr (n, cs) \<Rightarrow> n = 1 \<and> map (\<lambda>c. (ac_status c, ac_cost_amount c)) cs = [(''success'', 3)] | Inl _ \<Rightarrow> False"
    by code_simp
  then show ?thesis by (auto split: sum.splits)
qed

theorem finalize_settles_once_witness:
  "\<exists>calls1. finalize_pending_by_call_id [] demo_price 5 1 default_settlement ''success'' [demo_call] = Inr (1, calls1)
     \<and> \<not> (\<exists>m calls2. finalize_pending_by_call_id [] demo_price 9 1 default_settlement ''failed'' calls1 = Inr (m, calls2)
            \<and> calls2 \<noteq> calls1)"
proof -
  obtain calls1 where f: "finalize_pending_by_call_id [] demo_price 5 1 default_settlement ''success'' [demo_call] = Inr (1, calls1)"
    using demo_finalize by blast
  have d: "distinct (map ac_id [demo_call])" and s: "''success'' \<noteq> ''pending''" by simp_all
  from finalize_settles_once [OF d s f] f show ?thesis by blast
qed

lemma settle_uncharged:
  "si_cost_amount si = None \<Longrightarrow> \<exists>s. settle reg prices row now si False base = Inr s \<and> sc_cost_amount s = 0"
  by (simp add: settle_def Let_def)

text \<open>
  the normal path has no such guard: finishing a call that is already settled replaces its
  status and its cost, so a late failure report erases the recorded spending.
\<close>

theorem finish_call_overwrites:
  assumes "find_call calls cid = Some row" and "st \<noteq> ''success''" and "si_cost_amount si = None"
  shows "\<exists>calls' row'. finish_call reg prices now cid st si out err calls = Inr calls'
    \<and> find_call calls' cid = Some row' \<and> ac_status row' = st \<and> ac_cost_amount row' = 0"
proof -
  obtain s where s: "settle reg prices row now si False (if ac_currency row = [] then ''USD'' else ac_currency row) = Inr s"
    "sc_cost_amount s = 0"
    using settle_uncharged [OF assms(3)] by blast
  let ?f = "finished_row now si st out err s"
  have "find_call (snd (UPDATE_call cid (\<lambda>c. True) ?f calls)) cid = Some (?f row)"
    using find_call_UPDATE [of ?f calls cid row "\<lambda>c. True"] assms(1) by simp
  with s assms(1,2) show ?thesis by (simp add: finish_call_def)
qed

theorem finish_call_overwrites_witness:
  "\<exists>calls1 calls2 row. finalize_pending_by_call_id [] demo_price 5 1 default_settlement ''success'' [demo_call] = Inr (1, calls1)
     \<and> map ac_cost_amount calls1 = [3]
     \<and> finish_call [] demo_price 9 1 ''failed'' default_settlement None None calls1 = Inr calls2
     \<and> find_call calls2 1 = Some row \<and> ac_cost_amount row = 0"
proof -
  from demo_finalize obtain calls1
    where f: "finalize_pending_by_call_id [] demo_price 5 1 default_settlement ''success'' [demo_call] = Inr (1, calls1)"
      "map (\<lambda>c. (ac_status c, ac_cost_amount c)) calls1 = [(''success'', 3)]" by (elim exE conjE)
  have d: "find_call [demo_call] 1 = Some demo_call" by (simp add: find_call_def demo_call_def start_call_def)
  from f(1) obtain row where r: "find_call calls1 1 = Some row"
  proof (cases rule: finalize_cases)
    case (row r s)
    have "\<exists>x. find_call (snd (UPDATE_call 1 (\<lambda>c. ac_status c = ''pending'')
        (finalized_row 5 default_settlement ''success'' s) [demo_call])) 1 = Some x"
      by (rule exI, rule find_call_UPDATE [OF _ d]) simp
    then show ?thesis using row(2) that by auto
  qed (simp add: d)
  have "map ac_cost_amount calls1 = map snd (map (\<lambda>c. (ac_status c, ac_cost_amount c)) calls1)" by (simp add: comp_def)
  then have "map ac_cost_amount calls1 = [3]" unfolding f(2) by simp
  with f(1) finish_call_overwrites [OF r, of "''failed''" default_settlement "[]" demo_price 9 None None]
  show ?thesis by (auto simp: default_settlement_def)
qed

subsection \<open>Bounds of what is stored\<close>

definition duration_bounded :: "int option \<Rightarrow> bool" where
  "duration_bounded d \<longleftrightarrow> (case d of None \<Rightarrow> True | Some i \<Rightarrow> 0 < i \<and> i \<le> MAX_BILLED_DURATION_SECONDS)"

lemma settle_duration: "settle reg prices row now si auto base = Inr s \<Longrightarrow> sc_duration_seconds s = effective_duration row si"
  by (auto simp: settle_def Let_def split: sum.splits)

lemma effective_duration_bounded: "duration_bounded (ac_duration_seconds row) \<Longrightarrow> duration_bounded (effective_duration row si)"
  by (auto simp: duration_bounded_def effective_duration_def split: option.splits)

text \<open>
  whatever duration a provider reports, the ledger keeps every stored duration between one
  second and a day: both ways of settling a call preserve the bound, so no reported number
  overflows the integer column.
\<close>

theorem ledger_duration_bounded:
  assumes "\<forall>c \<in> set calls. duration_bounded (ac_duration_seconds c)"
    and "finish_call reg prices now cid st si out err calls = Inr calls'
      \<or> finalize_pending_by_call_id reg prices now cid si st calls = Inr (n, calls')"
  shows "\<forall>c \<in> set calls'. duration_bounded (ac_duration_seconds c)"
proof (cases "find_call calls cid")
  case None
  with assms show ?thesis by (auto simp: finish_call_def finalize_pending_by_call_id_def)
next
  case (Some row)
  then have "row \<in> set calls" by (auto simp: find_call_def find_Some_iff)
  with assms(1) have ok: "duration_bounded (effective_duration row si)" by (intro effective_duration_bounded) simp
  have "\<exists>f g. calls' = update_rows calls g f \<and> (\<forall>c. ac_duration_seconds (f c) = effective_duration row si)"
    using assms(2)
  proof
    assume "finish_call reg prices now cid st si out err calls = Inr calls'"
    with Some show ?thesis
      by (auto simp: finish_call_def UPDATE_call_def settle_duration split: sum.splits)
  next
    assume "finalize_pending_by_call_id reg prices now cid si st calls = Inr (n, calls')"
    with Some show ?thesis
      by (auto simp: finalize_pending_by_call_id_def UPDATE_call_def settle_duration split: sum.splits)
  qed
  with assms(1) ok show ?thesis by (auto simp: update_rows_def)
qed

theorem ledger_duration_bounded_witness:
  "\<exists>calls'. finish_call [] demo_price 9 1 ''success'' (default_settlement\<lparr>si_billed_duration_seconds := Some 999999999999\<rparr>)
       None None [demo_call\<lparr>ac_duration_seconds := Some 5\<rparr>] = Inr calls'
     \<and> (\<forall>c \<in> set calls'. duration_bounded (ac_duration_seconds c))"
proof -
  let ?s = "default_settlement\<lparr>si_billed_duration_seconds := Some 999999999999\<rparr>"
  let ?c = "demo_call\<lparr>ac_duration_seconds := Some 5\<rparr>"
  have "\<not> (case finish_call [] demo_price 9 1 ''success'' ?s None None [?c] of Inl _ \<Rightarrow> True | Inr _ \<Rightarrow> False)" by code_simp
  then obtain calls' where f: "finish_call [] demo_price 9 1 ''success'' ?s None None [?c] = Inr calls'"
    by (cases "finish_call [] demo_price 9 1 ''success'' ?s None None [?c]") auto
  have b: "\<forall>c \<in> set [?c]. duration_bounded (ac_duration_seconds c)"
    by (simp add: duration_bounded_def MAX_BILLED_DURATION_SECONDS_def)
  from f ledger_duration_bounded [OF b disjI1 [OF f]] show ?thesis by blast
qed

subsection \<open>Aggregation\<close>

lemma sum_dict_append:
  "sum_list (map (\<lambda>kv. sum_list (map h (snd kv))) (dict_append m k v))
     = sum_list (map (\<lambda>kv. sum_list (map h (snd kv))) m) + (h v :: nat)"
proof -
  have "sum_list (map (\<lambda>kv. sum_list (map h (snd kv))) (dict_set m k (dict_get_or m k [] @ [v])))
      = sum_list (map (\<lambda>kv. sum_list (map h (snd kv))) m) + h v" for m
    by (induction m) (auto simp: dict_get_or_def)
  then show ?thesis by (simp add: dict_append_def)
qed

lemma cost_by_lookup:
  "dict_get (cost_by key digits calls) k =
     (if \<exists>c \<in> set calls. billed c \<and> key c = k
      then Some (round_to (cost_sum (filter (\<lambda>c. billed c \<and> key c = k) calls)) digits) else None)"
proof -
  have "dict_get (cost_by key digits calls) k =
      map_option (\<lambda>cs. round_to (cost_sum cs) digits) (dict_get (group_by key id (filter billed calls)) k)"
    unfolding cost_by_def by (simp add: map_of_map)
  then show ?thesis by (auto simp: dict_get_group_by conj_commute)
qed

lemma round_even_zero [simp]: "round_even 0 = 0"
  by (simp add: round_even_def)

lemma round_to_zero [simp]: "round_to 0 n = 0"
  by (simp add: round_to_def)

text \<open>A fold over groups that adds up a number per group counts every element once.\<close>

lemma sum_over_groups:
  "sum_list (map (\<lambda>kv. sum_list (map h (snd kv))) (group_by key id xs)) = (sum_list (map h xs) :: nat)"
proof -
  have "sum_list (map (\<lambda>kv. sum_list (map h (snd kv))) (foldl (\<lambda>m x. dict_append m (key x) (id x)) m xs))
      = sum_list (map (\<lambda>kv. sum_list (map h (snd kv))) m) + sum_list (map h xs)" for m
    by (induction xs arbitrary: m) (simp_all add: sum_dict_append)
  from this [of "[]"] show ?thesis by (simp add: group_by_def)
qed

lemma sum_list_order_by: "sum_list (map f (order_by k xs)) = (sum_list (map f xs) :: nat)"
  unfolding order_by_def by (metis mset_map mset_sort sum_mset_sum_list)

lemma count_rows_sum: "count_rows xs p = sum_list (map (\<lambda>x. if p x then 1 else 0) xs)"
  by (induction xs) (simp_all add: count_rows_def)

lemma length_sum: "length xs = sum_list (map (\<lambda>x. 1) xs)"
  by (induction xs) simp_all

text \<open>
  the statistics lose no call and count none twice: the groups by provider and call type
  add up to the totals, the total cost is the dollar entry of the split by currency (zero when
  there is none), and an entry of the split sums exactly the billed calls in its currency.
\<close>

theorem usage_stats_consistent:
  "sum_list (map ps_total_calls (get_stats_grouped_by_provider f calls)) = us_total_count (usage_get_stats f calls)
   \<and> us_total_cost (usage_get_stats f calls) = dict_get_or (us_cost_by_currency (usage_get_stats f calls)) ''USD'' 0
   \<and> dict_get (us_cost_by_currency (usage_get_stats f calls)) cur =
       (let cs = filter (\<lambda>c. billed c \<and> ac_currency c = cur)
                   (filter (build_filters (f\<lparr>uf_call_type := None, uf_status := None\<rparr>)) calls)
        in if cs = [] then None else Some (round_to (cost_sum cs) 4))"
proof -
  let ?rows = "filter (build_filters (f\<lparr>uf_call_type := None, uf_status := None\<rparr>)) calls"
  let ?g = "group_by (\<lambda>c. (ac_provider c, ac_call_type c)) id ?rows"
  have "map ps_total_calls (get_stats_grouped_by_provider f calls)
      = map (\<lambda>kv. sum_list (map (\<lambda>c. 1) (snd kv))) (order_by fst ?g)"
    unfolding get_stats_grouped_by_provider_def Let_def
    by (simp add: comp_def case_prod_beta sum_list_triv)
  then have "sum_list (map ps_total_calls (get_stats_grouped_by_provider f calls)) = length ?rows"
    by (simp only: sum_list_order_by sum_over_groups length_sum)
  moreover have "us_total_count (usage_get_stats f calls) = length ?rows"
    by (simp add: usage_get_stats_def Let_def)
  moreover have split: "dict_get (us_cost_by_currency (usage_get_stats f calls)) c =
      (let cs = filter (\<lambda>x. billed x \<and> ac_currency x = c) ?rows
       in if cs = [] then None else Some (round_to (cost_sum cs) 4))" for c
    by (auto simp: usage_get_stats_def Let_def cost_by_lookup filter_empty_conv)
  moreover have "us_total_cost (usage_get_stats f calls) = dict_get_or (us_cost_by_currency (usage_get_stats f calls)) ''USD'' 0"
    unfolding dict_get_or_def split Let_def by (simp add: usage_get_stats_def usd_total_def cost_sum_def Let_def)
  ultimately show ?thesis by simp
qed

text \<open>The entry for a segment, a call type and a currency.\<close>

definition lookup3 :: "(string, (string, (string, rat) dict) dict) dict \<Rightarrow> string \<Rightarrow> string \<Rightarrow> string \<Rightarrow> rat option" where
  "lookup3 res key ct cur = dict_get (dict_get_or (dict_get_or res key []) ct []) cur"

lemma dict_get_or_set [simp]: "dict_get_or (dict_set d k v) k' w = (if k' = k then v else dict_get_or d k' w)"
  by (simp add: dict_get_or_def)

lemma lookup3_Nil [simp]: "lookup3 [] key ct cur = None"
  by (simp add: lookup3_def dict_get_or_def)

lemma lookup3_put:
  "lookup3 (put_cost res k ct cur v) k' ct' cur' =
     (if k' = k \<and> ct' = ct \<and> cur' = cur then Some v else lookup3 res k' ct' cur')"
  by (simp add: lookup3_def put_cost_def Let_def)

lemma lookup3_fold:
  assumes "distinct (map fst gs)"
  shows "lookup3 (foldl (\<lambda>res ((k, ct, cur), t). put_cost res k ct cur (h t)) res gs) k ct cur =
    (case dict_get gs (k, ct, cur) of Some t \<Rightarrow> Some (h t) | None \<Rightarrow> lookup3 res k ct cur)"
  using assms
proof (induction gs arbitrary: res)
  case (Cons g gs)
  obtain k1 ct1 cur1 t where g: "g = ((k1, ct1, cur1), t)" by (metis prod.exhaust)
  show ?case
  proof (cases "(k, ct, cur) = (k1, ct1, cur1)")
    case True
    with Cons.prems g have "dict_get gs (k, ct, cur) = None" by (auto simp: map_of_eq_None_iff)
    with Cons g True show ?thesis by (simp add: lookup3_put)
  next
    case False
    with Cons g show ?thesis by (auto simp: lookup3_put split: option.splits)
  qed
qed simp

lemma segment_key_inject:
  assumes "ac_segment_id c \<noteq> Some PROJECT_LEVEL_SEGMENT_KEY" and "ac_segment_id x \<noteq> Some PROJECT_LEVEL_SEGMENT_KEY"
  shows "segment_key c = segment_key x \<longleftrightarrow> ac_segment_id c = ac_segment_id x"
  using assms by (auto simp: segment_key_def split: option.splits)

text \<open>Groups whose keys are renamed injectively are still looked up by their elements.\<close>

lemma retagged_groups:
  fixes k3 :: "'a \<Rightarrow> 'k" and tx :: "'k \<Rightarrow> 'l" and h :: "'a list \<Rightarrow> 'v"
  assumes inj: "\<And>c x. c \<in> set rows \<Longrightarrow> x \<in> set rows \<Longrightarrow> tx (k3 c) = tx (k3 x) \<longleftrightarrow> k3 c = k3 x"
  defines "gs \<equiv> map (\<lambda>(k, cs). (tx k, h cs)) (group_by k3 id rows)"
  shows "distinct (map fst gs)"
    and "dict_get gs key = (let sel = filter (\<lambda>c. tx (k3 c) = key) rows in if sel = [] then None else Some (h sel))"
proof -
  have keys: "k \<in> k3 ` set rows" if "k \<in> set (dict_keys (group_by k3 id rows))" for k
    using that set_keys_group_by [of k3 id rows] by simp
  have "inj_on tx (k3 ` set rows)"
  proof (rule inj_onI, elim imageE)
    fix k k' c x assume "tx k = tx k'" "k = k3 c" "c \<in> set rows" "k' = k3 x" "x \<in> set rows"
    with inj [of c x] show "k = k'" by simp
  qed
  moreover have "set (dict_keys (group_by k3 id rows)) \<subseteq> k3 ` set rows" using keys by blast
  ultimately have "inj_on tx (set (dict_keys (group_by k3 id rows)))" by (rule inj_on_subset)
  then have "distinct (map tx (dict_keys (group_by k3 id rows)))"
    by (intro distinct_map [THEN iffD2] conjI distinct_group_by)
  moreover have fsts: "map fst gs = map tx (dict_keys (group_by k3 id rows))"
    by (simp add: gs_def comp_def case_prod_beta)
  ultimately show d: "distinct (map fst gs)" by simp
  let ?sel = "filter (\<lambda>c. tx (k3 c) = key) rows"
  have "dict_get gs key = (if ?sel = [] then None else Some (h ?sel))"
  proof (cases "?sel")
    case Nil
    then have "tx (k3 c) \<noteq> key" if "c \<in> set rows" for c using that by (auto simp: filter_empty_conv)
    moreover have "\<exists>c \<in> set rows. tx (k3 c) = k" if "k \<in> set (map fst gs)" for k
    proof -
      from that obtain q where q: "q \<in> set (group_by k3 id rows)" "k = tx (fst q)" unfolding fsts by auto
      then have "fst q \<in> set (dict_keys (group_by k3 id rows))" by simp
      from keys [OF this] obtain c where "c \<in> set rows" "fst q = k3 c" by blast
      with q(2) show ?thesis by auto
    qed
    ultimately have "key \<notin> set (map fst gs)" by metis
    with Nil show ?thesis by (simp add: map_of_eq_None_iff)
  next
    case (Cons c cs)
    then have "c \<in> set ?sel" by simp
    then have c: "c \<in> set rows" "tx (k3 c) = key" by simp_all
    have "dict_get (group_by k3 id rows) (k3 c) = Some (filter (\<lambda>x. k3 x = k3 c) rows)"
      using c(1) by (auto simp: dict_get_group_by)
    then have "(k3 c, filter (\<lambda>x. k3 x = k3 c) rows) \<in> set (group_by k3 id rows)" by (rule map_of_SomeD)
    then have "(tx (k3 c), h (filter (\<lambda>x. k3 x = k3 c) rows)) \<in> set gs" by (force simp: gs_def)
    moreover have "filter (\<lambda>x. k3 x = k3 c) rows = ?sel" using inj c by (intro filter_cong refl) metis
    ultimately show ?thesis using Cons c(2) d by simp
  qed
  then show "dict_get gs key = (let sel = ?sel in if sel = [] then None else Some (h sel))" by (simp add: Let_def)
qed

text \<open>
  the costs per segment hold, for every segment, call type and currency, the sum of exactly
  the billed calls of the project there, rounded once; calls without a segment are found under
  the reserved key, which no segment can have.
\<close>

theorem segment_costs_exact:
  assumes "\<forall>c \<in> set calls. ac_segment_id c \<noteq> Some PROJECT_LEVEL_SEGMENT_KEY"
  shows "lookup3 (get_actual_costs_by_segment project calls) key ct cur =
    (let cs = filter (\<lambda>c. ac_project_name c = project \<and> billed c \<and> segment_key c = key
                 \<and> ac_call_type c = ct \<and> ac_currency c = cur) calls
     in if cs = [] then None else Some (round_to (cost_sum cs) 6))"
proof -
  define rows where "rows = filter (\<lambda>c. ac_project_name c = project \<and> billed c) calls"
  define k3 where "k3 = (\<lambda>c :: api_call. (ac_segment_id c, ac_call_type c, ac_currency c))"
  define tx where "tx = (\<lambda>(seg, t, u). (case seg of Some s \<Rightarrow> s | None \<Rightarrow> PROJECT_LEVEL_SEGMENT_KEY, t :: string, u :: string))"
  define gs where "gs = map (\<lambda>(k, cs). (tx k, cost_sum cs)) (group_by k3 id rows)"
  have tk: "tx (k3 c) = (segment_key c, ac_call_type c, ac_currency c)" for c
    by (simp add: tx_def k3_def segment_key_def)
  have inj: "tx (k3 c) = tx (k3 x) \<longleftrightarrow> k3 c = k3 x" if "c \<in> set rows" "x \<in> set rows" for c x
    using assms that segment_key_inject [of c x] unfolding tk by (simp add: k3_def rows_def)
  have "get_actual_costs_by_segment project calls
      = foldl (\<lambda>res ((k, ct, cur), t). put_cost res k ct cur (round_to t 6)) [] gs"
    unfolding get_actual_costs_by_segment_def gs_def rows_def k3_def tx_def
    by (simp add: foldl_map case_prod_beta)
  then have l: "lookup3 (get_actual_costs_by_segment project calls) key ct cur =
      (case dict_get gs (key, ct, cur) of Some t \<Rightarrow> Some (round_to t 6) | None \<Rightarrow> None)"
    using lookup3_fold [OF retagged_groups(1) [of rows tx k3 cost_sum, OF inj, folded gs_def], of "\<lambda>t. round_to t 6" "[]" key ct cur]
    unfolding lookup3_Nil by simp
  have "dict_get gs (key, ct, cur) = (let sel = filter (\<lambda>c. tx (k3 c) = (key, ct, cur)) rows
      in if sel = [] then None else Some (cost_sum sel))"
    unfolding gs_def by (rule retagged_groups(2) [of rows tx k3, OF inj])
  moreover have "filter (\<lambda>c. tx (k3 c) = (key, ct, cur)) rows = filter (\<lambda>c. ac_project_name c = project \<and> billed c
      \<and> segment_key c = key \<and> ac_call_type c = ct \<and> ac_currency c = cur) calls"
    by (simp add: rows_def tk conj_ac)
  ultimately show ?thesis unfolding l Let_def by simp
qed

theorem segment_costs_exact_witness:
  "lookup3 (get_actual_costs_by_segment ''p'' [demo_call\<lparr>ac_status := ''success'', ac_cost_amount := 2\<rparr>,
     demo_call\<lparr>ac_status := ''success'', ac_cost_amount := 3\<rparr>]) ''s1'' ''image'' ''USD'' = Some 5"
proof -
  let ?cs = "[demo_call\<lparr>ac_status := ''success'', ac_cost_amount := 2\<rparr>,
    demo_call\<lparr>ac_status := ''success'', ac_cost_amount := 3\<rparr>]"
  have "\<forall>c \<in> set ?cs. ac_segment_id c \<noteq> Some PROJECT_LEVEL_SEGMENT_KEY"
    by (simp add: demo_call_def start_call_def PROJECT_LEVEL_SEGMENT_KEY_def)
  from segment_costs_exact [OF this, of "''p''" "''s1''" "''image''" "''USD''"] show ?thesis
    by (simp add: demo_call_def start_call_def billed_def segment_key_def cost_sum_def round_to_def round_even_def)
qed

end
