(* ===== verification/Artifact_Key.thy ===== *)
theory Artifact_Key
  imports Json_Roundtrip
begin

text \<open>
  The identity of a formal artifact (lib/artifact_manifest.py): \<open>ArtifactKey\<close> with its
  validation, its reversible text form (a prefix and the URL-safe base64 of a compact JSON
  array) and the canonical form of a recorded artifact path. Components are JSON values, since
  \<open>decode\<close> builds keys from whatever a JSON array holds. The texts are ASCII, where Unicode NFC
  is the identity; a decoded payload outside ASCII is refused here.
\<close>

subsection \<open>Kinds and keys\<close>

datatype artifact_kind =
    ASSET_SHEET | EPISODE_STEP1 | EPISODE_SCRIPT | EPISODE_GRID | EPISODE_STORYBOARD
  | EPISODE_VIDEO | EPISODE_AUDIO | EPISODE_SUBTITLE | EPISODE_PRESENTATION

definition kind_values :: "(string \<times> artifact_kind) list" where
  "kind_values =
     [(''asset-sheet'', ASSET_SHEET), (''episode-step1'', EPISODE_STEP1),
      (''episode-script'', EPISODE_SCRIPT), (''episode-grid'', EPISODE_GRID),
      (''episode-storyboard'', EPISODE_STORYBOARD), (''episode-video'', EPISODE_VIDEO),
      (''episode-audio'', EPISODE_AUDIO), (''episode-subtitle'', EPISODE_SUBTITLE),
      (''episode-presentation'', EPISODE_PRESENTATION)]"

fun kind_value :: "artifact_kind \<Rightarrow> string" where
  "kind_value ASSET_SHEET = ''asset-sheet''"
| "kind_value EPISODE_STEP1 = ''episode-step1''"
| "kind_value EPISODE_SCRIPT = ''episode-script''"
| "kind_value EPISODE_GRID = ''episode-grid''"
| "kind_value EPISODE_STORYBOARD = ''episode-storyboard''"
| "kind_value EPISODE_VIDEO = ''episode-video''"
| "kind_value EPISODE_AUDIO = ''episode-audio''"
| "kind_value EPISODE_SUBTITLE = ''episode-subtitle''"
| "kind_value EPISODE_PRESENTATION = ''episode-presentation''"

record artifact_key =
  ak_kind :: artifact_kind
  ak_components :: "pyval list"

definition ASSET_TYPES :: "string list" where
  "ASSET_TYPES = [''character'', ''scene'', ''prop'', ''product'']"

definition asset_name_comparison_key :: "string \<Rightarrow> string" where
  "asset_name_comparison_key name = str_strip name"

definition rendition_variants :: "string list" where
  "rendition_variants = [''post_production'', ''use_tts'']"

text \<open>\<open>type(episode) is int and episode > 0\<close>, and \<open>isinstance(resource_id, str) and bool(resource_id)\<close>.\<close>

fun episode_ok :: "pyval \<Rightarrow> bool" where
  "episode_ok (PInt e) = (0 < e)"
| "episode_ok v = False"

fun resource_ok :: "pyval \<Rightarrow> bool" where
  "resource_ok (PStr s) = (s \<noteq> [])"
| "resource_ok v = False"

text \<open>\<open>variant in {...}\<close> hashes its left side, which a list or a dictionary refuses.\<close>

fun variant_in :: "pyval \<Rightarrow> py_error + bool" where
  "variant_in (PStr s) = Inr (s \<in> set rendition_variants)"
| "variant_in (PList vs) = Inl (TypeError ''unhashable'')"
| "variant_in (PDict kvs) = Inl (TypeError ''unhashable'')"
| "variant_in v = Inr False"

definition key_error :: "py_error + artifact_key" where
  "key_error = Inl (ValueError ''artifact key components do not match'')"

text \<open>The checks of \<open>__post_init__\<close>: the canonical components of a kind, or the refusal.\<close>

definition make_key :: "artifact_kind \<Rightarrow> pyval list \<Rightarrow> py_error + artifact_key" where
  "make_key k comps =
     (if k = ASSET_SHEET \<and> length comps = 2 then
        (case comps of
           [PStr t, PStr i] \<Rightarrow>
             (if t \<in> set ASSET_TYPES \<and> asset_name_comparison_key i \<noteq> []
              then Inr \<lparr>ak_kind = k, ak_components = [PStr t, PStr (asset_name_comparison_key i)]\<rparr>
              else key_error)
         | _ \<Rightarrow> key_error)
      else if k \<in> {EPISODE_STEP1, EPISODE_SCRIPT} \<and> length comps = 1 then
        (if episode_ok (comps ! 0) then Inr \<lparr>ak_kind = k, ak_components = comps\<rparr> else key_error)
      else if k \<in> {EPISODE_GRID, EPISODE_STORYBOARD, EPISODE_VIDEO, EPISODE_AUDIO} \<and> length comps = 2 then
        (if episode_ok (comps ! 0) \<and> resource_ok (comps ! 1)
         then Inr \<lparr>ak_kind = k, ak_components = comps\<rparr> else key_error)
      else if k \<in> {EPISODE_SUBTITLE, EPISODE_PRESENTATION} \<and> length comps = 3 then
        (if episode_ok (comps ! 0) \<and> resource_ok (comps ! 1)
         then (case variant_in (comps ! 2) of
                 Inl e \<Rightarrow> Inl e
               | Inr b \<Rightarrow> if b then Inr \<lparr>ak_kind = k, ak_components = comps\<rparr> else key_error)
         else key_error)
      else key_error)"

subsection \<open>The named constructors\<close>

definition episode_number_arg :: "int \<Rightarrow> py_error + pyval" where
  "episode_number_arg e =
     (if e < 1 then Inl (ValueError ''episode must be a positive integer'') else Inr (PInt e))"

definition non_empty :: "string \<Rightarrow> string \<Rightarrow> py_error + pyval" where
  "non_empty field v = (if v = [] then Inl (ValueError field) else Inr (PStr v))"

definition rendition_variant :: "string \<Rightarrow> py_error + pyval" where
  "rendition_variant v =
     (if v \<in> set rendition_variants then Inr (PStr v) else Inl (ValueError ''variant''))"

text \<open>The arguments of a call are evaluated from the left, the first exception leaves the call.\<close>

fun collect_args :: "(py_error + pyval) list \<Rightarrow> py_error + pyval list" where
  "collect_args [] = Inr []"
| "collect_args (Inl e # as) = Inl e"
| "collect_args (Inr v # as) = (case collect_args as of Inl e \<Rightarrow> Inl e | Inr vs \<Rightarrow> Inr (v # vs))"

definition key_of_args :: "artifact_kind \<Rightarrow> (py_error + pyval) list \<Rightarrow> py_error + artifact_key" where
  "key_of_args k as = (case collect_args as of Inl e \<Rightarrow> Inl e | Inr vs \<Rightarrow> make_key k vs)"

definition asset_sheet :: "string \<Rightarrow> string \<Rightarrow> py_error + artifact_key" where
  "asset_sheet t i =
     (if t \<notin> set ASSET_TYPES then Inl (ValueError ''unsupported asset type'')
      else key_of_args ASSET_SHEET [Inr (PStr t), non_empty ''asset_id'' i])"

definition episode_step1 :: "int \<Rightarrow> py_error + artifact_key" where
  "episode_step1 e = key_of_args EPISODE_STEP1 [episode_number_arg e]"

definition episode_script :: "int \<Rightarrow> py_error + artifact_key" where
  "episode_script e = key_of_args EPISODE_SCRIPT [episode_number_arg e]"

definition episode_grid :: "int \<Rightarrow> string \<Rightarrow> py_error + artifact_key" where
  "episode_grid e g = key_of_args EPISODE_GRID [episode_number_arg e, non_empty ''group_id'' g]"

definition episode_storyboard :: "int \<Rightarrow> string \<Rightarrow> py_error + artifact_key" where
  "episode_storyboard e r = key_of_args EPISODE_STORYBOARD [episode_number_arg e, non_empty ''resource_id'' r]"

definition episode_video :: "int \<Rightarrow> string \<Rightarrow> py_error + artifact_key" where
  "episode_video e r = key_of_args EPISODE_VIDEO [episode_number_arg e, non_empty ''resource_id'' r]"

definition episode_audio :: "int \<Rightarrow> string \<Rightarrow> py_error + artifact_key" where
  "episode_audio e r = key_of_args EPISODE_AUDIO [episode_number_arg e, non_empty ''resource_id'' r]"

definition episode_subtitle :: "int \<Rightarrow> string \<Rightarrow> string \<Rightarrow> py_error + artifact_key" where
  "episode_subtitle e r v =
     key_of_args EPISODE_SUBTITLE [episode_number_arg e, non_empty ''resource_id'' r, rendition_variant v]"

definition episode_presentation :: "int \<Rightarrow> string \<Rightarrow> string \<Rightarrow> py_error + artifact_key" where
  "episode_presentation e r v =
     key_of_args EPISODE_PRESENTATION [episode_number_arg e, non_empty ''resource_id'' r, rendition_variant v]"

fun all_keys :: "(py_error + artifact_key) list \<Rightarrow> py_error + artifact_key list" where
  "all_keys [] = Inr []"
| "all_keys (Inl e # ks) = Inl e"
| "all_keys (Inr k # ks) = (case all_keys ks of Inl e \<Rightarrow> Inl e | Inr r \<Rightarrow> Inr (k # r))"

definition episode_resource_artifacts :: "int \<Rightarrow> string \<Rightarrow> py_error + artifact_key list" where
  "episode_resource_artifacts e r =
     all_keys [episode_storyboard e r, episode_video e r, episode_audio e r,
       episode_subtitle e r ''post_production'', episode_subtitle e r ''use_tts'',
       episode_presentation e r ''post_production'', episode_presentation e r ''use_tts'']"

definition episode_number :: "artifact_key \<Rightarrow> int option" where
  "episode_number k =
     (if ak_kind k = ASSET_SHEET then None
      else (case ak_components k of PInt e # _ \<Rightarrow> Some e | _ \<Rightarrow> None))"

subsection \<open>The text form\<close>

text \<open>URL-safe base64 as the standard library writes it, padded to a multiple of four.\<close>

definition sextet_char :: "nat \<Rightarrow> char" where
  "sextet_char n =
     (if n < 26 then char_of (65 + n) else if n < 52 then char_of (71 + n)
      else if n < 62 then char_of (n - 4) else if n = 62 then CHR ''-'' else CHR ''_'')"

fun b64encode :: "string \<Rightarrow> string" where
  "b64encode [] = []"
| "b64encode [a] =
     (let x = of_char a :: nat
      in [sextet_char (x div 4), sextet_char (x mod 4 * 16), CHR ''='', CHR ''=''])"
| "b64encode [a, b] =
     (let x = of_char a :: nat; y = of_char b :: nat
      in [sextet_char (x div 4), sextet_char (x mod 4 * 16 + y div 16), sextet_char (y mod 16 * 4), CHR ''=''])"
| "b64encode (a # b # c # s) =
     (let x = of_char a :: nat; y = of_char b :: nat; z = of_char c :: nat
      in sextet_char (x div 4) # sextet_char (x mod 4 * 16 + y div 16)
         # sextet_char (y mod 16 * 4 + z div 64) # sextet_char (z mod 64) # b64encode s)"

text \<open>Decoding with \<open>altchars\<close> still accepts the plus sign and the slash.\<close>

definition char_sextet :: "char \<Rightarrow> nat option" where
  "char_sextet c = (let n = (of_char c :: nat) in
     if 65 \<le> n \<and> n \<le> 90 then Some (n - 65)
     else if 97 \<le> n \<and> n \<le> 122 then Some (n - 71)
     else if 48 \<le> n \<and> n \<le> 57 then Some (n + 4)
     else if c = CHR ''-'' \<or> c = CHR ''+'' then Some 62
     else if c = CHR ''_'' \<or> c = CHR ''/'' then Some 63 else None)"

fun b64decode :: "string \<Rightarrow> string option" where
  "b64decode [] = Some []"
| "b64decode (a # b # c # d # s) =
     (case (char_sextet a, char_sextet b) of
        (Some w, Some x) \<Rightarrow>
          (if c = CHR ''='' then
             (if d = CHR ''='' \<and> s = [] then Some [char_of (w * 4 + x div 16)] else None)
           else
             (case char_sextet c of
                None \<Rightarrow> None
              | Some y \<Rightarrow>
                  (if d = CHR ''='' then
                     (if s = [] then Some [char_of (w * 4 + x div 16), char_of (x mod 16 * 16 + y div 4)] else None)
                   else
                     (case char_sextet d of
                        None \<Rightarrow> None
                      | Some z \<Rightarrow>
                          map_option (\<lambda>r. char_of (w * 4 + x div 16) # char_of (x mod 16 * 16 + y div 4)
                            # char_of (y mod 4 * 64 + z) # r) (b64decode s)))))
      | _ \<Rightarrow> None)"
| "b64decode s = None"

definition key_prefix :: string where
  "key_prefix = ''artifact-key-v1:''"

text \<open>\<open>json.dumps\<close> of a list of scalars with the compact separators.\<close>

definition json_compact_list :: "pyval list \<Rightarrow> string" where
  "json_compact_list vs = ''['' @ join_with '','' (map json_dumps vs) @ '']''"

definition encode_key :: "artifact_key \<Rightarrow> string" where
  "encode_key k =
     key_prefix @ str_rstrip (\<lambda>c. c = CHR ''='')
       (b64encode (json_compact_list (PStr (kind_value (ak_kind k)) # ak_components k)))"

definition from_parts :: "string \<Rightarrow> pyval list \<Rightarrow> py_error + artifact_key" where
  "from_parts v parts =
     (case map_of kind_values v of
        None \<Rightarrow> Inl (ValueError ''unsupported artifact kind'')
      | Some k \<Rightarrow>
          (case make_key k parts of
             Inl (ValueError m) \<Rightarrow> Inl (ValueError ''artifact key payload does not match its kind'')
           | r \<Rightarrow> r))"

definition b64_padding :: "string \<Rightarrow> string" where
  "b64_padding token = replicate ((4 - length token mod 4) mod 4) (CHR ''='')"

definition decode_key :: "string \<Rightarrow> py_error + artifact_key" where
  "decode_key v =
     (case strip_prefix key_prefix v of
        None \<Rightarrow> Inl (ValueError ''artifact key has an unsupported encoding'')
      | Some token \<Rightarrow>
          (case b64decode (token @ b64_padding token) of
             None \<Rightarrow> Inl (ValueError ''artifact key is malformed'')
           | Some raw \<Rightarrow>
               (case (if is_ascii raw then json_loads raw else None) of
                  None \<Rightarrow> Inl (ValueError ''artifact key is malformed'')
                | Some (PList (PStr kind # parts)) \<Rightarrow>
                    (case from_parts kind parts of
                       Inl e \<Rightarrow> Inl e
                     | Inr k \<Rightarrow> if encode_key k \<noteq> v then Inl (ValueError ''artifact key is not canonical'') else Inr k)
                | Some _ \<Rightarrow> Inl (ValueError ''artifact key payload is malformed''))))"

subsection \<open>Artifact paths\<close>

definition MANIFEST_FILENAME :: string where
  "MANIFEST_FILENAME = ''.arcreel_artifacts.json''"

definition LOCK_FILENAME :: string where
  "LOCK_FILENAME = ''.artifact_manifest.lock''"

definition reserved_artifact_paths :: "string list" where
  "reserved_artifact_paths = [MANIFEST_FILENAME, LOCK_FILENAME]"

text \<open>A Windows drive is a letter with a colon, or the server and share after two slashes.\<close>

definition windows_drive :: "string \<Rightarrow> bool" where
  "windows_drive v = (case v of a # b # _ \<Rightarrow> b = CHR '':'' \<or> (a = CHR ''/'' \<and> b = CHR ''/'') | _ \<Rightarrow> False)"

definition posix_absolute :: "string \<Rightarrow> bool" where
  "posix_absolute v = (case v of [] \<Rightarrow> False | c # _ \<Rightarrow> c = CHR ''/'')"

definition posix_parts :: "string \<Rightarrow> string list" where
  "posix_parts v = filter (\<lambda>p. p \<noteq> [] \<and> p \<noteq> ''.'') (split_on (CHR ''/'') v)"

definition as_posix :: "string \<Rightarrow> string" where
  "as_posix v = (if posix_parts v = [] then ''.'' else join_with ''/'' (posix_parts v))"

definition space_or_dot :: "char \<Rightarrow> bool" where
  "space_or_dot c \<longleftrightarrow> c = CHR '' '' \<or> c = CHR ''.''"

definition path_error :: "string \<Rightarrow> py_error + string" where
  "path_error m = Inl (ValueError m)"

definition normalize_artifact_path :: "string \<Rightarrow> py_error + string" where
  "normalize_artifact_path v =
     (if v = [] \<or> CHR 0x00 \<in> set v \<or> CHR 0x5C \<in> set v then path_error ''non-empty POSIX path''
      else
        (let raw_parts = split_on (CHR ''/'') v
         in if posix_absolute v \<or> windows_drive v
               \<or> (\<exists>p \<in> set raw_parts. p \<in> set [[], ''.'', ''..''])
               \<or> (\<exists>p \<in> set raw_parts. str_rstrip space_or_dot p \<noteq> p)
               \<or> (\<exists>p \<in> set raw_parts. CHR '':'' \<in> set p)
            then path_error ''canonical project-relative POSIX path''
            else
              (let normalized = as_posix v
               in if normalized = ''.'' \<or> normalized = [] then path_error ''must name a file''
                  else if normalized \<in> set reserved_artifact_paths
                       \<or> (length (posix_parts v) = 1
                          \<and> str_lower (str_rstrip space_or_dot normalized) \<in> set (map str_lower reserved_artifact_paths))
                       then path_error ''runtime-owned path''
                  else Inr normalized)))"

end
