(* ===== verification/Artifact_Key_Props.thy ===== *)
theory Artifact_Key_Props
  imports Artifact_Key
begin

text \<open>
  Artifact keys and their texts are in bijection: \<open>decode\<close> gives back every valid key, accepts
  nothing but the canonical text of one, and two valid keys never share a text. A normalized
  artifact path is its own normal form and stays inside the project.
\<close>

subsection \<open>Base64\<close>

lemma char_sextet_char [simp]:
  assumes "n < 64"
  shows "char_sextet (sextet_char n) = Some n"
proof -
  consider "n < 26" | "26 \<le> n" "n < 52" | "52 \<le> n" "n < 62" | "n = 62" | "n = 63"
    using assms by linarith
  then show ?thesis
    by cases (auto simp: char_sextet_def sextet_char_def of_char_of Let_def)
qed

lemma sextet_char_not_pad [simp]: "n < 64 \<Longrightarrow> sextet_char n \<noteq> CHR ''=''"
proof
  assume "n < 64" and "sextet_char n = CHR ''=''"
  then have "char_sextet CHR ''='' = Some n" using char_sextet_char by metis
  then show False by (simp add: char_sextet_def)
qed

lemma of_char_div [simp]:
  "(of_char c :: nat) div 4 < 64" "(of_char c :: nat) div 16 < 16" "(of_char c :: nat) div 64 < 4"
  using of_char_less_256 [of c] by linarith+

lemma sextet_low:
  "x mod 4 * 16 + (of_char c :: nat) div 16 < 64" "x mod 4 * 16 < (64 :: nat)"
  "x mod 16 * 4 + (of_char c :: nat) div 64 < 64" "x mod 16 * 4 < (64 :: nat)" "x mod 64 < (64 :: nat)"
  for x :: nat
proof -
  have "x mod 4 < 4" "x mod 16 < 16" "x mod 64 < 64" by simp_all
  then show "x mod 4 * 16 + (of_char c :: nat) div 16 < 64" "x mod 4 * 16 < (64 :: nat)"
    "x mod 16 * 4 + (of_char c :: nat) div 64 < 64" "x mod 16 * 4 < (64 :: nat)" "x mod 64 < (64 :: nat)"
    using of_char_div(2) [of c] of_char_div(3) [of c] by linarith+
qed

lemma sextet_join:
  "x div 4 * 4 + (x mod 4 * 16 + (of_char c :: nat) div 16) div 16 = x"
  "x div 4 * 4 + x mod 4 * 16 div 16 = x"
  "(x mod 4 * 16 + (of_char c :: nat) div 16) mod 16 * 16
     + ((of_char c :: nat) mod 16 * 4 + (of_char d :: nat) div 64) div 4 = of_char c"
  "(x mod 4 * 16 + (of_char c :: nat) div 16) mod 16 * 16 + (of_char c :: nat) mod 16 * 4 div 4 = of_char c"
  "(x mod 16 * 4 + (of_char c :: nat) div 64) mod 4 * 64 + (of_char c :: nat) mod 64 = of_char c"
  for x :: nat
proof -
  have c: "(of_char c :: nat) div 16 < 16" "(of_char c :: nat) div 64 < 4" "(of_char d :: nat) div 64 < 4" by simp_all
  then have m: "(x mod 4 * 16 + (of_char c :: nat) div 16) mod 16 = of_char c div 16"
    "(x mod 4 * 16 + (of_char c :: nat) div 16) div 16 = x mod 4"
    "((of_char c :: nat) mod 16 * 4 + (of_char d :: nat) div 64) div 4 = of_char c mod 16"
    "(x mod 16 * 4 + (of_char c :: nat) div 64) mod 4 = of_char c div 64"
    by (simp_all add: div_mult_self3)
  show "x div 4 * 4 + (x mod 4 * 16 + (of_char c :: nat) div 16) div 16 = x" by (simp add: m)
  show "x div 4 * 4 + x mod 4 * 16 div 16 = x" by simp
  show "(x mod 4 * 16 + (of_char c :: nat) div 16) mod 16 * 16
     + ((of_char c :: nat) mod 16 * 4 + (of_char d :: nat) div 64) div 4 = of_char c" by (simp add: m)
  show "(x mod 4 * 16 + (of_char c :: nat) div 16) mod 16 * 16 + (of_char c :: nat) mod 16 * 4 div 4 = of_char c"
    by (simp add: m)
  show "(x mod 16 * 4 + (of_char c :: nat) div 64) mod 4 * 64 + (of_char c :: nat) mod 64 = of_char c" by (simp add: m)
qed

lemma b64_roundtrip: "b64decode (b64encode s) = Some s"
  by (induction s rule: b64encode.induct) (simp_all add: Let_def sextet_low sextet_join)

text \<open>The encoded text is a body without padding characters, and fewer than four of them.\<close>

lemma b64_shape:
  obtains body k where "b64encode s = body @ replicate k (CHR ''='')" "CHR ''='' \<notin> set body"
    "k < 4" "(length body + k) mod 4 = 0"
proof (induction s arbitrary: thesis rule: b64encode.induct)
  case 1
  show ?case by (rule 1 [of "[]" 0]) simp_all
next
  case (2 a)
  show ?case
    by (rule 2 [of "[sextet_char (of_char a div 4), sextet_char (of_char a mod 4 * 16)]" 2])
      (use sextet_char_not_pad sextet_low in \<open>auto simp: Let_def numeral_2_eq_2 sextet_low dest: sym\<close>)
next
  case (3 a b)
  show ?case
    by (rule 3 [of "[sextet_char (of_char a div 4), sextet_char (of_char a mod 4 * 16 + of_char b div 16),
          sextet_char (of_char b mod 16 * 4)]" 1])
      (use sextet_char_not_pad sextet_low in \<open>auto simp: Let_def dest: sym\<close>)
next
  case (4 a b c s)
  show ?case
  proof (rule "4.IH" [OF refl refl refl])
    fix body k
    assume b: "b64encode s = body @ replicate k (CHR ''='')" "CHR ''='' \<notin> set body" "k < 4" "(length body + k) mod 4 = 0"
    let ?h = "[sextet_char (of_char a div 4), sextet_char (of_char a mod 4 * 16 + of_char b div 16),
          sextet_char (of_char b mod 16 * 4 + of_char c div 64), sextet_char (of_char c mod 64)]"
    have "CHR ''='' \<notin> set ?h"
      using sextet_char_not_pad [of "of_char a div 4"] sextet_char_not_pad [of "of_char a mod 4 * 16 + of_char b div 16"]
        sextet_char_not_pad [of "of_char b mod 16 * 4 + of_char c div 64"] sextet_char_not_pad [of "of_char c mod 64"]
      by (auto simp: sextet_low dest: sym)
    with b show ?case by (intro "4.prems" [of "?h @ body" k]) (auto simp: Let_def)
  qed
qed

lemma pad_count:
  assumes "m < 4" and "k < 4" and "(m + k) mod 4 = (0 :: nat)"
  shows "(4 - m) mod 4 = k"
proof -
  have "m = 0 \<or> m = 1 \<or> m = 2 \<or> m = 3" using assms(1) by linarith
  moreover have "k = 0 \<or> k = 1 \<or> k = 2 \<or> k = 3" using assms(2) by linarith
  ultimately show ?thesis using assms(3) by (elim disjE) simp_all
qed

lemma b64_strip_pad:
  defines "t \<equiv> \<lambda>s. str_rstrip (\<lambda>c. c = CHR ''='') (b64encode s)"
  shows "b64decode (t s @ b64_padding (t s)) = Some s"
proof -
  obtain body k where b: "b64encode s = body @ replicate k (CHR ''='')" "CHR ''='' \<notin> set body"
    "k < 4" "(length body + k) mod 4 = 0" by (rule b64_shape)
  have "t s = body"
    unfolding t_def b(1)
  proof (rule str_rstrip_append)
    show "body = [] \<or> last body \<noteq> CHR ''=''" using b(2) by (metis last_in_set)
  qed (simp add: list_all_iff)
  moreover have "(4 - length body mod 4) mod 4 = k"
  proof (rule pad_count)
    show "(length body mod 4 + k) mod 4 = 0" using b(4) by (simp add: mod_simps)
  qed (use b(3) in simp_all)
  ultimately show ?thesis using b(1) b64_roundtrip [of s] by (simp add: b64_padding_def)
qed

subsection \<open>The compact JSON array\<close>

definition scalar :: "pyval \<Rightarrow> bool" where
  "scalar v = (case v of PInt i \<Rightarrow> True | PStr s \<Rightarrow> True | _ \<Rightarrow> False)"

lemma scalar_ok: "scalar v \<Longrightarrow> json_ok v \<and> reads_back v"
  by (cases v) (auto simp: scalar_def intro: json_dumps_reads_back)

lemma parse_items_compact:
  assumes "vs \<noteq> []" and "list_all scalar vs" and "Suc (length (join_with '','' (map json_dumps vs))) < n"
  shows "parse_items n acc (join_with '','' (map json_dumps vs) @ CHR '']'' # rest) = Some (PList (acc @ vs), rest)"
  using assms
proof (induction vs arbitrary: n acc)
  case (Cons v vs)
  then obtain m where n: "n = Suc m" by (cases n) auto
  have rb: "reads_back v" using Cons.prems(2) scalar_ok by simp
  show ?case
  proof (cases vs)
    case Nil
    with Cons.prems n have "parse_value m (json_dumps v @ CHR '']'' # rest) = Some (v, CHR '']'' # rest)"
      using rb by (simp add: reads_back_def)
    with Nil n show ?thesis by simp
  next
    case (Cons w ws)
    let ?t = "join_with '','' (map json_dumps vs)"
    have split: "join_with '','' (map json_dumps (v # vs)) = json_dumps v @ CHR '','' # ?t"
      using Cons by simp
    have pv: "parse_value m (json_dumps v @ CHR '','' # ?t @ CHR '']'' # rest) = Some (v, CHR '','' # ?t @ CHR '']'' # rest)"
      using rb Cons.prems(3) n split by (simp add: reads_back_def)
    have "skip_ws (?t @ CHR '']'' # rest) = ?t @ CHR '']'' # rest"
    proof -
      have "json_ok w" using Cons.prems(2) Cons scalar_ok by simp
      then obtain c r where "json_dumps w = c # r" "\<not> is_ws c" by (rule dumps_hd)
      then show ?thesis using Cons by (cases ws) (simp_all add: skip_ws_def)
    qed
    moreover have "parse_items m (acc @ [v]) (?t @ CHR '']'' # rest) = Some (PList ((acc @ [v]) @ vs), rest)"
      using Cons.prems Cons n split by (intro Cons.IH) auto
    ultimately show ?thesis using pv n split by simp
  qed
qed simp

lemma json_loads_compact:
  assumes "vs \<noteq> []" and "list_all scalar vs"
  shows "json_loads (json_compact_list vs) = Some (PList vs)"
proof -
  let ?t = "join_with '','' (map json_dumps vs)"
  obtain w ws where w: "vs = w # ws" using assms(1) by (cases vs) auto
  then obtain c r where c: "json_dumps w = c # r" "\<not> is_ws c" "c \<noteq> CHR '']''"
    using assms(2) scalar_ok [of w] by (auto intro: dumps_hd)
  then obtain u where u: "?t @ '']'' = c # u" using w by (cases ws) auto
  then have "parse_value (Suc (Suc (Suc (length ?t)))) (json_compact_list vs) = parse_items (Suc (Suc (length ?t))) [] (?t @ '']'')"
    using c(2,3) by (simp add: json_compact_list_def skip_ws_def u del: parse_items.simps)
  also have "\<dots> = Some (PList vs, [])"
    using parse_items_compact [OF assms, of "Suc (Suc (length ?t))" "[]" "[]"] by simp
  finally show ?thesis by (simp add: json_loads_def json_compact_list_def skip_ws_def is_ws_def)
qed

subsection \<open>Keys\<close>

lemma make_key_kind: "make_key k comps = Inr key \<Longrightarrow> ak_kind key = k"
  by (auto simp: make_key_def key_error_def split: if_splits list.splits pyval.splits sum.splits)

lemma episode_ok_scalar: "episode_ok v \<Longrightarrow> scalar v"
  by (cases v) (simp_all add: scalar_def)

lemma resource_ok_scalar: "resource_ok v \<Longrightarrow> scalar v"
  by (cases v) (simp_all add: scalar_def)

lemma variant_scalar: "variant_in v = Inr True \<Longrightarrow> scalar v"
  by (cases v) (simp_all add: scalar_def)

text \<open>The three shapes a key can have.\<close>

lemma make_key_cases:
  assumes "make_key k comps = Inr key"
  obtains (asset) t i where "k = ASSET_SHEET" "t \<in> set ASSET_TYPES" "str_strip i \<noteq> []"
      "key = \<lparr>ak_kind = k, ak_components = [PStr t, PStr (str_strip i)]\<rparr>"
  | (episode) e where "k \<in> {EPISODE_STEP1, EPISODE_SCRIPT}" "episode_ok e"
      "key = \<lparr>ak_kind = k, ak_components = [e]\<rparr>"
  | (resource) e r where "k \<in> {EPISODE_GRID, EPISODE_STORYBOARD, EPISODE_VIDEO, EPISODE_AUDIO}" "episode_ok e"
      "resource_ok r" "key = \<lparr>ak_kind = k, ak_components = [e, r]\<rparr>"
  | (variant) e r v where "k \<in> {EPISODE_SUBTITLE, EPISODE_PRESENTATION}" "episode_ok e" "resource_ok r"
      "variant_in v = Inr True" "key = \<lparr>ak_kind = k, ak_components = [e, r, v]\<rparr>"
proof -
  have l1: "length comps = Suc 0 \<Longrightarrow> comps = [comps ! 0]" by (cases comps) auto
  have l2: "length comps = 2 \<Longrightarrow> comps = [comps ! 0, comps ! 1]" by (auto simp: length_Suc_conv numeral_2_eq_2)
  have l3: "length comps = 3 \<Longrightarrow> comps = [comps ! 0, comps ! 1, comps ! 2]"
    by (auto simp: length_Suc_conv numeral_3_eq_3)
  consider "k = ASSET_SHEET" | "k \<in> {EPISODE_STEP1, EPISODE_SCRIPT}"
    | "k \<in> {EPISODE_GRID, EPISODE_STORYBOARD, EPISODE_VIDEO, EPISODE_AUDIO}" | "k \<in> {EPISODE_SUBTITLE, EPISODE_PRESENTATION}"
    by (cases k) auto
  then show ?thesis
  proof cases
    case 1
    with assms show ?thesis
      by (auto simp: make_key_def key_error_def asset_name_comparison_key_def
          split: if_splits list.splits pyval.splits intro: asset)
  next
    case 2
    with assms have "length comps = Suc 0 \<and> episode_ok (comps ! 0) \<and> key = \<lparr>ak_kind = k, ak_components = comps\<rparr>"
      by (auto simp: make_key_def key_error_def split: if_splits)
    with 2 l1 episode [of "comps ! 0"] show ?thesis by metis
  next
    case 3
    with assms have "length comps = 2 \<and> episode_ok (comps ! 0) \<and> resource_ok (comps ! 1)
        \<and> key = \<lparr>ak_kind = k, ak_components = comps\<rparr>"
      by (auto simp: make_key_def key_error_def split: if_splits)
    with 3 l2 resource [of "comps ! 0" "comps ! 1"] show ?thesis by metis
  next
    case 4
    with assms have "length comps = 3 \<and> episode_ok (comps ! 0) \<and> resource_ok (comps ! 1)
        \<and> variant_in (comps ! 2) = Inr True \<and> key = \<lparr>ak_kind = k, ak_components = comps\<rparr>"
      by (auto simp: make_key_def key_error_def split: if_splits sum.splits)
    with 4 l3 variant [of "comps ! 0" "comps ! 1" "comps ! 2"] show ?thesis by metis
  qed
qed

lemma make_key_idem:
  assumes "make_key k comps = Inr key"
  shows "make_key k (ak_components key) = Inr key"
  using assms
  by (cases rule: make_key_cases) (auto simp: make_key_def asset_name_comparison_key_def)

lemma make_key_scalar:
  assumes "make_key k comps = Inr key"
  shows "list_all scalar (ak_components key)"
  using assms
  by (cases rule: make_key_cases)
    (auto simp: episode_ok_scalar resource_ok_scalar variant_scalar, auto simp: scalar_def)

lemma kind_of_value [simp]: "map_of kind_values (kind_value k) = Some k"
  by (cases k) (simp_all add: kind_values_def)

text \<open>ASCII texts stay ASCII in JSON.\<close>

definition scalar_ascii :: "pyval \<Rightarrow> bool" where
  "scalar_ascii v = (case v of PStr s \<Rightarrow> is_ascii s | _ \<Rightarrow> True)"

definition key_ascii :: "artifact_key \<Rightarrow> bool" where
  "key_ascii k = list_all scalar_ascii (ak_components k)"

lemma is_ascii_simps [simp]:
  "is_ascii []" "is_ascii (c # s) \<longleftrightarrow> (of_char c :: nat) < 128 \<and> is_ascii s"
  "is_ascii (s @ t) \<longleftrightarrow> is_ascii s \<and> is_ascii t"
  by (simp_all add: is_ascii_def)

lemma digit_ascii: "list_all is_digit s \<Longrightarrow> is_ascii s"
  by (induction s) (auto simp: is_digit_def Let_def)

lemma hex_char_ascii: "n < 16 \<Longrightarrow> (of_char (hex_char n) :: nat) < 128"
  by (simp add: hex_char_def of_char_of)

lemma json_escape_ascii:
  assumes "(of_char c :: nat) < 128"
  shows "is_ascii (json_escape c)"
proof -
  have "(of_char c :: nat) < 32 \<Longrightarrow> (of_char c :: nat) div 16 < 16" by simp
  then show ?thesis
    unfolding json_escape_def using assms
    by (simp add: hex_char_ascii split del: if_split split: if_split)
qed

lemma json_string_ascii: "is_ascii s \<Longrightarrow> is_ascii (json_string s)"
  by (induction s) (auto simp: json_string_def json_escape_ascii)

lemma scalar_text_ascii: "scalar v \<Longrightarrow> scalar_ascii v \<Longrightarrow> is_ascii (json_dumps v)"
  by (cases v) (auto simp: scalar_def scalar_ascii_def json_string_ascii int_str_def digit_ascii nat_str_digits)

lemma join_ascii: "list_all is_ascii ps \<Longrightarrow> is_ascii sep \<Longrightarrow> is_ascii (join_with sep ps)"
  by (induction sep ps rule: join_with.induct) auto

lemma kind_value_ascii: "is_ascii (kind_value k)"
  by (cases k) simp_all

lemma payload_ascii:
  assumes "list_all scalar vs" and "list_all scalar_ascii vs"
  shows "is_ascii (json_compact_list vs)"
proof -
  have "list_all is_ascii (map json_dumps vs)"
    using assms scalar_text_ascii by (auto simp: list_all_iff)
  then show ?thesis by (simp add: json_compact_list_def join_ascii)
qed

lemma decode_encode:
  assumes key: "make_key k comps = Inr key" and "key_ascii key"
  shows "decode_key (encode_key key) = Inr key"
proof -
  let ?vs = "PStr (kind_value (ak_kind key)) # ak_components key"
  have sc: "list_all scalar ?vs" using make_key_scalar [OF key] by (simp add: scalar_def)
  have "list_all scalar_ascii ?vs" using assms(2) by (simp add: key_ascii_def scalar_ascii_def kind_value_ascii)
  with sc have asc: "is_ascii (json_compact_list ?vs)" by (rule payload_ascii)
  have loads: "json_loads (json_compact_list ?vs) = Some (PList ?vs)" using sc by (intro json_loads_compact) auto
  have parts: "from_parts (kind_value (ak_kind key)) (ak_components key) = Inr key"
    using make_key_idem [OF key] make_key_kind [OF key] by (simp add: from_parts_def)
  show ?thesis
    unfolding decode_key_def
    by (subst encode_key_def) (simp add: b64_strip_pad asc loads parts)
qed

lemma encode_decode:
  assumes "decode_key s = Inr key"
  shows "encode_key key = s"
  using assms by (auto simp: decode_key_def split: option.splits pyval.splits list.splits sum.splits if_splits)

text \<open>
  C15: Every valid artifact key is read back from its text, and no other text is read as it.
\<close>

theorem artifact_key_roundtrip:
  assumes "make_key kind comps = Inr key" and "key_ascii key"
  shows "decode_key s = Inr key \<longleftrightarrow> s = encode_key key"
  using decode_encode [OF assms] encode_decode by blast

lemma artifact_key_roundtrip_witness:
  "\<exists>key. episode_subtitle 3 ''E3U1'' ''use_tts'' = Inr key \<and> decode_key (encode_key key) = Inr key"
proof -
  define key where "key = \<lparr>ak_kind = EPISODE_SUBTITLE, ak_components = [PInt 3, PStr ''E3U1'', PStr ''use_tts'']\<rparr>"
  have mk: "make_key EPISODE_SUBTITLE [PInt 3, PStr ''E3U1'', PStr ''use_tts''] = Inr key"
    by (simp add: make_key_def key_def rendition_variants_def)
  have "key_ascii key" by (simp add: key_ascii_def key_def scalar_ascii_def)
  with mk have "decode_key (encode_key key) = Inr key"
    using artifact_key_roundtrip [of EPISODE_SUBTITLE _ key "encode_key key"] by blast
  moreover have "episode_subtitle 3 ''E3U1'' ''use_tts'' = Inr key"
    using mk by (simp add: episode_subtitle_def key_of_args_def episode_number_arg_def non_empty_def
        rendition_variant_def rendition_variants_def)
  ultimately show ?thesis by blast
qed

lemma encode_key_inject:
  assumes "make_key k1 c1 = Inr a" "make_key k2 c2 = Inr b" "key_ascii a" "key_ascii b"
  shows "encode_key a = encode_key b \<longleftrightarrow> a = b"
  using decode_encode [OF assms(1,3)] decode_encode [OF assms(2,4)] by (metis sum.inject(2))

subsection \<open>Paths\<close>

lemma normalize_path_cases:
  assumes "normalize_artifact_path v = Inr p"
  shows "v \<noteq> []" and "CHR 0x5C \<notin> set v" and "\<not> posix_absolute v" and "p = v"
    and "\<forall>q \<in> set (split_on (CHR ''/'') v). q \<noteq> [] \<and> q \<noteq> ''.'' \<and> q \<noteq> ''..'' \<and> CHR '':'' \<notin> set q"
    and "p \<notin> set reserved_artifact_paths"
proof -
  show parts: "\<forall>q \<in> set (split_on (CHR ''/'') v). q \<noteq> [] \<and> q \<noteq> ''.'' \<and> q \<noteq> ''..'' \<and> CHR '':'' \<notin> set q"
    and "v \<noteq> []" and "CHR 0x5C \<notin> set v" and "\<not> posix_absolute v" and "p \<notin> set reserved_artifact_paths"
    using assms by (auto simp: normalize_artifact_path_def path_error_def Let_def split: if_splits)
  have "posix_parts v = split_on (CHR ''/'') v"
    unfolding posix_parts_def using parts by (intro filter_True) auto
  then have "as_posix v = v" by (simp add: as_posix_def)
  with assms show "p = v"
    by (auto simp: normalize_artifact_path_def path_error_def Let_def split: if_splits)
qed

text \<open>
  A normalized artifact path is the path that was given; it is relative, has no empty, dot
  or parent component and no drive, and never names one of the manifest's own files.
\<close>

theorem normalized_path_safe:
  assumes "normalize_artifact_path v = Inr p"
  shows "p = v \<and> p \<noteq> [] \<and> \<not> posix_absolute p \<and> CHR 0x5C \<notin> set p
    \<and> (\<forall>q \<in> set (split_on (CHR ''/'') p). q \<noteq> [] \<and> q \<noteq> ''.'' \<and> q \<noteq> ''..'' \<and> CHR '':'' \<notin> set q)
    \<and> p \<notin> {MANIFEST_FILENAME, LOCK_FILENAME}"
  using normalize_path_cases [OF assms] by (simp add: reserved_artifact_paths_def)

lemma normalized_path_safe_witness:
  "normalize_artifact_path ''videos/a.mp4'' = Inr ''videos/a.mp4''
    \<and> ''..'' \<notin> set (split_on (CHR ''/'') ''videos/a.mp4'')"
proof -
  have n: "normalize_artifact_path ''videos/a.mp4'' = Inr ''videos/a.mp4''"
    unfolding normalize_artifact_path_def Let_def
    by (simp add: posix_absolute_def windows_drive_def posix_parts_def as_posix_def
        reserved_artifact_paths_def MANIFEST_FILENAME_def LOCK_FILENAME_def str_rstrip_def space_or_dot_def)
  show ?thesis using normalized_path_safe [OF n] n by blast
qed

end
