(* ===== verification/Artifact_Manifest.thy ===== *)
theory Artifact_Manifest
  imports Artifact_Key_Props
begin

text \<open>
  The manifest of formal artifacts (lib/artifact_manifest.py): the claims, the storage seam
  \<open>ArtifactManifestAdapter\<close> as a record of operations on a state, the domain operations of
  \<open>ArtifactManifest\<close> written against that seam, the rekey plan with its receipt, and the
  in-memory adapter. An operation of an adapter returns its result together with the new state,
  so that a write can fail and still have happened. The casefolded NFC form of a path is its
  lower-case form on ASCII. Locks are left out: an adapter operation is one step.
\<close>

subsection \<open>Claims and verdicts\<close>

datatype artifact_status = CURRENT | STALE | MISSING | BLOCKED

datatype manifest_error =
    ArtifactManifestError string
  | ArtifactRegistrationError string
  | OtherError py_error

record artifact_blocker =
  ab_code :: string
  ab_path :: string
  ab_detail :: string

record artifact_comparison =
  cmp_status :: artifact_status
  cmp_artifact_path :: string
  cmp_blocker :: "artifact_blocker option"

definition usable :: "artifact_comparison \<Rightarrow> bool" where
  "usable c \<longleftrightarrow> cmp_status c \<in> {CURRENT, STALE}"

record manifest_entry =
  me_artifact_path :: string
  me_basis_digest :: string

record artifact_observation =
  ob_artifact_path :: string
  ob_present :: bool
  ob_blocker :: "artifact_blocker option"

subsection \<open>Basis descriptors\<close>

definition HASH_ALGORITHM :: string where
  "HASH_ALGORITHM = ''sha256-v1''"

definition is_lower_hex :: "char \<Rightarrow> bool" where
  "is_lower_hex c = (let n = (of_char c :: nat) in (48 \<le> n \<and> n \<le> 57) \<or> (97 \<le> n \<and> n \<le> 102))"

definition content_digest_ok :: "string \<Rightarrow> bool" where
  "content_digest_ok d \<longleftrightarrow> length d = 64 \<and> list_all is_lower_hex d"

definition prefixed_digest_ok :: "string \<Rightarrow> bool" where
  "prefixed_digest_ok d =
     (case strip_prefix (HASH_ALGORITHM @ '':'') d of None \<Rightarrow> False | Some h \<Rightarrow> content_digest_ok h)"

record basis_descriptor =
  bd_kind :: string
  bd_kind_version :: int
  bd_digest :: string

definition descriptor_of_dict :: "pyval \<Rightarrow> py_error + basis_descriptor" where
  "descriptor_of_dict v =
     (case v of
        PDict d \<Rightarrow>
          (if set (dict_keys d) \<noteq> {''kind'', ''kind_version'', ''digest''}
           then Inl (ValueError ''artifact basis descriptor has an invalid schema'')
           else (case (dict_get d ''kind'', dict_get d ''kind_version'', dict_get d ''digest'') of
                   (Some (PStr k), Some (PInt n), Some (PStr h)) \<Rightarrow>
                     (if k \<noteq> [] \<and> 1 \<le> n \<and> prefixed_digest_ok h
                      then Inr \<lparr>bd_kind = k, bd_kind_version = n, bd_digest = h\<rparr>
                      else Inl (ValueError ''artifact basis descriptor''))
                 | _ \<Rightarrow> Inl (ValueError ''artifact basis descriptor'')))
      | _ \<Rightarrow> Inl (ValueError ''artifact basis descriptor must be an object''))"

definition descriptor_to_dict :: "basis_descriptor \<Rightarrow> pyval" where
  "descriptor_to_dict b =
     PDict [(''kind'', PStr (bd_kind b)), (''kind_version'', PInt (bd_kind_version b)), (''digest'', PStr (bd_digest b))]"

subsection \<open>The storage seam\<close>

type_synonym claims = "(artifact_key, manifest_entry option) dict"

record 's manifest_adapter =
  inspect_artifact :: "'s \<Rightarrow> string \<Rightarrow> artifact_observation"
  get_entry :: "'s \<Rightarrow> artifact_key \<Rightarrow> manifest_error + manifest_entry option"
  put_entry :: "'s \<Rightarrow> artifact_key \<Rightarrow> manifest_entry \<Rightarrow> (manifest_error + bool) \<times> 's"
  delete_entry :: "'s \<Rightarrow> artifact_key \<Rightarrow> (manifest_error + bool) \<times> 's"
  replace_entries_if_matches :: "'s \<Rightarrow> claims \<Rightarrow> claims \<Rightarrow> (manifest_error + bool) \<times> 's"

text \<open>\<open>_entries_match\<close> stops at the first claim that differs.\<close>

fun entries_match :: "'s manifest_adapter \<Rightarrow> 's \<Rightarrow> claims \<Rightarrow> manifest_error + bool" where
  "entries_match A s [] = Inr True"
| "entries_match A s ((k, e) # cs) =
     (case get_entry A s k of
        Inl x \<Rightarrow> Inl x
      | Inr r \<Rightarrow> if r = e then entries_match A s cs else Inr False)"

subsection \<open>Registering a claim\<close>

definition register_descriptor ::
  "'s manifest_adapter \<Rightarrow> artifact_key \<Rightarrow> string \<Rightarrow> basis_descriptor \<Rightarrow> 's \<Rightarrow> (manifest_error + bool) \<times> 's" where
  "register_descriptor A k path basis s =
     (let ob = inspect_artifact A s path
      in case ob_blocker ob of
           Some b \<Rightarrow> (Inl (ArtifactRegistrationError (ab_detail b)), s)
         | None \<Rightarrow>
             if \<not> ob_present ob then (Inl (ArtifactRegistrationError (ob_artifact_path ob)), s)
             else put_entry A s k \<lparr>me_artifact_path = ob_artifact_path ob, me_basis_digest = bd_digest basis\<rparr>)"

definition rollback_incomplete :: manifest_error where
  "rollback_incomplete = OtherError (RuntimeError ''rollback was incomplete'')"

text \<open>The handler of a failed write: the claim is put back when the failed write is found stored.\<close>

definition restore_claim ::
  "'s manifest_adapter \<Rightarrow> artifact_key \<Rightarrow> manifest_entry option \<Rightarrow> manifest_entry option \<Rightarrow> manifest_error
     \<Rightarrow> 's \<Rightarrow> (manifest_error + bool) \<times> 's" where
  "restore_claim A k written previous original s =
     (case get_entry A s k of
        Inl _ \<Rightarrow> (Inl rollback_incomplete, s)
      | Inr now \<Rightarrow>
          if now \<noteq> written then (Inl original, s)
          else (case (case previous of None \<Rightarrow> delete_entry A s k | Some e \<Rightarrow> put_entry A s k e) of
                  (Inl _, s') \<Rightarrow> (Inl rollback_incomplete, s')
                | (Inr _, s') \<Rightarrow> (Inl original, s')))"

definition register_descriptor_transactionally ::
  "'s manifest_adapter \<Rightarrow> artifact_key \<Rightarrow> string \<Rightarrow> basis_descriptor \<Rightarrow> 's \<Rightarrow> (manifest_error + bool) \<times> 's" where
  "register_descriptor_transactionally A k path basis s =
     (case get_entry A s k of
        Inl e \<Rightarrow> (Inl e, s)
      | Inr previous \<Rightarrow>
          (case normalize_artifact_path path of
             Inl e \<Rightarrow> (Inl (OtherError e), s)
           | Inr p \<Rightarrow>
               (case register_descriptor A k path basis s of
                  (Inr b, s') \<Rightarrow> (Inr b, s')
                | (Inl e, s') \<Rightarrow>
                    restore_claim A k (Some \<lparr>me_artifact_path = p, me_basis_digest = bd_digest basis\<rparr>) previous e s')))"

text \<open>\<open>_encode_target_entries\<close>: the checks of a target state, and its claims under their texts.\<close>

fun encode_target_entries ::
  "(string, manifest_entry) dict \<Rightarrow> (artifact_key, manifest_entry) dict \<Rightarrow> py_error + (string, manifest_entry) dict" where
  "encode_target_entries acc [] = Inr acc"
| "encode_target_entries acc ((k, e) # es) =
     (case normalize_artifact_path (me_artifact_path e) of
        Inl x \<Rightarrow> Inl x
      | Inr p \<Rightarrow>
          if p \<noteq> me_artifact_path e then Inl (ValueError ''manifest target artifact path must be canonical'')
          else if \<not> prefixed_digest_ok (me_basis_digest e) then Inl (ValueError ''manifest target basis digest'')
          else if encode_key k \<in> set (dict_keys acc) then Inl (ValueError ''duplicate manifest target key'')
          else encode_target_entries (acc @ [(encode_key k, e)]) es)"

definition register_entry_transactionally ::
  "'s manifest_adapter \<Rightarrow> artifact_key \<Rightarrow> manifest_entry \<Rightarrow> 's \<Rightarrow> (manifest_error + bool) \<times> 's" where
  "register_entry_transactionally A k entry s =
     (case encode_target_entries [] [(k, entry)] of
        Inl e \<Rightarrow> (Inl (OtherError e), s)
      | Inr _ \<Rightarrow>
          (let ob = inspect_artifact A s (me_artifact_path entry)
           in case ob_blocker ob of
                Some b \<Rightarrow> (Inl (ArtifactRegistrationError (ab_detail b)), s)
              | None \<Rightarrow>
                  if \<not> ob_present ob then (Inl (ArtifactRegistrationError (ob_artifact_path ob)), s)
                  else
                    (let expected = \<lparr>me_artifact_path = ob_artifact_path ob, me_basis_digest = me_basis_digest entry\<rparr>
                     in case get_entry A s k of
                          Inl e \<Rightarrow> (Inl e, s)
                        | Inr previous \<Rightarrow>
                            (case put_entry A s k expected of
                               (Inr b, s') \<Rightarrow> (Inr b, s')
                             | (Inl e, s') \<Rightarrow> restore_claim A k (Some expected) previous e s'))))"

definition forget_entry_transactionally ::
  "'s manifest_adapter \<Rightarrow> artifact_key \<Rightarrow> 's \<Rightarrow> (manifest_error + bool) \<times> 's" where
  "forget_entry_transactionally A k s =
     (case get_entry A s k of
        Inl e \<Rightarrow> (Inl e, s)
      | Inr None \<Rightarrow> (Inr False, s)
      | Inr (Some previous) \<Rightarrow>
          (case delete_entry A s k of
             (Inr b, s') \<Rightarrow> (Inr b, s')
           | (Inl e, s') \<Rightarrow> restore_claim A k None (Some previous) e s'))"

subsection \<open>Rekeying\<close>

record rekey_plan =
  rk_before :: claims
  rk_after :: claims
  rk_changed :: bool

text \<open>The receipt holds the same three values.\<close>

type_synonym rekey_receipt = rekey_plan

definition commit_rekey :: "'s manifest_adapter \<Rightarrow> rekey_plan \<Rightarrow> 's \<Rightarrow> (manifest_error + rekey_receipt) \<times> 's" where
  "commit_rekey A plan s =
     (if \<not> rk_changed plan then (Inr plan, s)
      else
        (case replace_entries_if_matches A s (rk_before plan) (rk_after plan) of
           (Inr True, s') \<Rightarrow> (Inr plan, s')
         | (Inr False, s') \<Rightarrow> (Inl (ArtifactManifestError ''artifact claims changed after the rekey preflight''), s')
         | (Inl original, s1) \<Rightarrow>
             (case replace_entries_if_matches A s1 (rk_after plan) (rk_before plan) of
                (Inl _, s2) \<Rightarrow> (Inl rollback_incomplete, s2)
              | (Inr True, s2) \<Rightarrow> (Inl original, s2)
              | (Inr False, s2) \<Rightarrow>
                  (case entries_match A s2 (rk_before plan) of
                     Inr True \<Rightarrow> (Inl original, s2)
                   | _ \<Rightarrow> (Inl rollback_incomplete, s2)))))"

definition matches_current :: "'s manifest_adapter \<Rightarrow> rekey_receipt \<Rightarrow> 's \<Rightarrow> manifest_error + bool" where
  "matches_current A r s = entries_match A s (rk_after r)"

definition compensate :: "'s manifest_adapter \<Rightarrow> rekey_receipt \<Rightarrow> 's \<Rightarrow> (manifest_error + bool) \<times> 's" where
  "compensate A r s =
     (if \<not> rk_changed r then (Inr False, s)
      else
        (case replace_entries_if_matches A s (rk_after r) (rk_before r) of
           (Inl e, s') \<Rightarrow> (Inl e, s')
         | (Inr True, s') \<Rightarrow> (Inr True, s')
         | (Inr False, s') \<Rightarrow>
             (case entries_match A s' (rk_before r) of
                Inl e \<Rightarrow> (Inl e, s')
              | Inr True \<Rightarrow> (Inr False, s')
              | Inr False \<Rightarrow>
                  (Inl (ArtifactManifestError ''artifact claim rekey changed concurrently and could not be restored''), s'))))"

text \<open>The claims of the given keys that exist, in the order of the keys.\<close>

fun existing_claims :: "'s manifest_adapter \<Rightarrow> 's \<Rightarrow> artifact_key list \<Rightarrow> manifest_error + claims" where
  "existing_claims A s [] = Inr []"
| "existing_claims A s (k # ks) =
     (case get_entry A s k of
        Inl e \<Rightarrow> Inl e
      | Inr r \<Rightarrow>
          (case existing_claims A s ks of
             Inl e \<Rightarrow> Inl e
           | Inr cs \<Rightarrow> Inr (case r of None \<Rightarrow> cs | Some e \<Rightarrow> (k, Some e) # cs)))"

definition forget_entries_transactionally ::
  "'s manifest_adapter \<Rightarrow> artifact_key list \<Rightarrow> 's \<Rightarrow> (manifest_error + bool) \<times> 's" where
  "forget_entries_transactionally A ks s =
     (case existing_claims A s (fromkeys ks) of
        Inl e \<Rightarrow> (Inl e, s)
      | Inr [] \<Rightarrow> (Inr False, s)
      | Inr before \<Rightarrow>
          (case commit_rekey A \<lparr>rk_before = before, rk_after = map (\<lambda>c. (fst c, None)) before, rk_changed = True\<rparr> s of
             (Inl e, s') \<Rightarrow> (Inl e, s')
           | (Inr receipt, s') \<Rightarrow> (Inr (rk_changed receipt), s')))"

fun normalize_rewrites :: "(string \<times> string) list \<Rightarrow> (string, string) dict \<Rightarrow> py_error + (string, string) dict" where
  "normalize_rewrites [] acc = Inr acc"
| "normalize_rewrites ((a, b) # rs) acc =
     (case (normalize_artifact_path a, normalize_artifact_path b) of
        (Inr a', Inr b') \<Rightarrow> normalize_rewrites rs (dict_set acc a' b')
      | (Inl e, _) \<Rightarrow> Inl e
      | (_, Inl e) \<Rightarrow> Inl e)"

definition no_rekey :: rekey_plan where
  "no_rekey = \<lparr>rk_before = [], rk_after = [], rk_changed = False\<rparr>"

definition rewritten :: "(string, string) dict \<Rightarrow> manifest_entry \<Rightarrow> manifest_entry" where
  "rewritten rewrites e =
     \<lparr>me_artifact_path = dict_get_or rewrites (me_artifact_path e) (me_artifact_path e),
      me_basis_digest = me_basis_digest e\<rparr>"

definition plan_entry_rekey ::
  "'s manifest_adapter \<Rightarrow> artifact_key \<Rightarrow> artifact_key \<Rightarrow> (string \<times> string) list \<Rightarrow> 's \<Rightarrow> manifest_error + rekey_plan" where
  "plan_entry_rekey A src dst path_rewrites s =
     (case normalize_rewrites path_rewrites [] of
        Inl e \<Rightarrow> Inl (OtherError e)
      | Inr rewrites \<Rightarrow>
          (case get_entry A s src of
             Inl e \<Rightarrow> Inl e
           | Inr found \<Rightarrow>
               if src = dst then
                 (case found of
                    None \<Rightarrow> Inr no_rekey
                  | Some e \<Rightarrow>
                      if rewritten rewrites e = e then Inr no_rekey
                      else Inr \<lparr>rk_before = [(src, Some e)], rk_after = [(src, Some (rewritten rewrites e))],
                                rk_changed = True\<rparr>)
               else
                 (case get_entry A s dst of
                    Inl x \<Rightarrow> Inl x
                  | Inr (Some _) \<Rightarrow> Inl (ArtifactManifestError ''artifact claim already exists for target key'')
                  | Inr None \<Rightarrow>
                      (case found of
                         None \<Rightarrow> Inr no_rekey
                       | Some e \<Rightarrow>
                           Inr \<lparr>rk_before = [(src, Some e), (dst, None)],
                                rk_after = [(src, None), (dst, Some (rewritten rewrites e))], rk_changed = True\<rparr>))))"

subsection \<open>Comparing\<close>

definition verdict :: "artifact_status \<Rightarrow> string \<Rightarrow> artifact_blocker option \<Rightarrow> manifest_error + artifact_comparison" where
  "verdict st p b = Inr \<lparr>cmp_status = st, cmp_artifact_path = p, cmp_blocker = b\<rparr>"

definition compare_entry ::
  "'s manifest_adapter \<Rightarrow> artifact_key \<Rightarrow> string \<Rightarrow> manifest_entry option \<Rightarrow> 's \<Rightarrow> manifest_error + artifact_comparison" where
  "compare_entry A k path expected s =
     (let ob = inspect_artifact A s path; p = ob_artifact_path ob
      in case ob_blocker ob of
           Some b \<Rightarrow> verdict BLOCKED p (Some b)
         | None \<Rightarrow>
             if \<not> ob_present ob then verdict MISSING p None
             else
               (case get_entry A s k of
                  Inl (ArtifactManifestError m) \<Rightarrow>
                    verdict BLOCKED p (Some \<lparr>ab_code = ''manifest_unreadable'', ab_path = p, ab_detail = m\<rparr>)
                | Inl (ArtifactRegistrationError m) \<Rightarrow>
                    verdict BLOCKED p (Some \<lparr>ab_code = ''manifest_unreadable'', ab_path = p, ab_detail = m\<rparr>)
                | Inl (OtherError e) \<Rightarrow> Inl (OtherError e)
                | Inr None \<Rightarrow> verdict MISSING p None
                | Inr (Some entry) \<Rightarrow>
                    if me_artifact_path entry \<noteq> p then verdict MISSING p None
                    else
                      (case expected of
                         None \<Rightarrow> verdict STALE p None
                       | Some x \<Rightarrow>
                           (case normalize_artifact_path (me_artifact_path x) of
                              Inl e \<Rightarrow> Inl (OtherError e)
                            | Inr q \<Rightarrow>
                                verdict (if entry = \<lparr>me_artifact_path = q, me_basis_digest = me_basis_digest x\<rparr>
                                         then CURRENT else STALE) p None))))"

subsection \<open>The in-memory adapter\<close>

record memory_manifest =
  mm_entries :: "(string, manifest_entry) dict"
  mm_artifacts :: "string list"

fun path_owners_ok :: "(string, string) dict \<Rightarrow> (string, manifest_entry) dict \<Rightarrow> bool" where
  "path_owners_ok owners [] = True"
| "path_owners_ok owners ((k, e) # es) =
     (let identity = str_lower (me_artifact_path e)
      in case dict_get owners identity of
           Some owner \<Rightarrow> if owner \<noteq> k then False else path_owners_ok (dict_set owners identity k) es
         | None \<Rightarrow> path_owners_ok (dict_set owners identity k) es)"

definition assert_unique_artifact_paths :: "(string, manifest_entry) dict \<Rightarrow> bool" where
  "assert_unique_artifact_paths es = path_owners_ok [] es"

definition claimed_twice :: manifest_error where
  "claimed_twice = ArtifactManifestError ''formal artifact path is claimed by multiple keys''"

definition memory_inspect :: "memory_manifest \<Rightarrow> string \<Rightarrow> artifact_observation" where
  "memory_inspect s path =
     (case normalize_artifact_path path of
        Inl _ \<Rightarrow> \<lparr>ob_artifact_path = path, ob_present = False,
                 ob_blocker = Some \<lparr>ab_code = ''artifact_path_invalid'', ab_path = path, ab_detail = ''artifact path''\<rparr>\<rparr>
      | Inr p \<Rightarrow> \<lparr>ob_artifact_path = p, ob_present = p \<in> set (mm_artifacts s), ob_blocker = None\<rparr>)"

definition memory_get :: "memory_manifest \<Rightarrow> artifact_key \<Rightarrow> manifest_error + manifest_entry option" where
  "memory_get s k = Inr (dict_get (mm_entries s) (encode_key k))"

definition memory_put :: "memory_manifest \<Rightarrow> artifact_key \<Rightarrow> manifest_entry \<Rightarrow> (manifest_error + bool) \<times> memory_manifest" where
  "memory_put s k e =
     (if dict_get (mm_entries s) (encode_key k) = Some e then (Inr False, s)
      else
        (let updated = dict_set (mm_entries s) (encode_key k) e
         in if assert_unique_artifact_paths updated then (Inr True, s\<lparr>mm_entries := updated\<rparr>)
            else (Inl claimed_twice, s)))"

definition memory_delete :: "memory_manifest \<Rightarrow> artifact_key \<Rightarrow> (manifest_error + bool) \<times> memory_manifest" where
  "memory_delete s k =
     (Inr (dict_get (mm_entries s) (encode_key k) \<noteq> None),
      s\<lparr>mm_entries := dict_del (mm_entries s) (encode_key k)\<rparr>)"

text \<open>\<open>_encode_optional_entries\<close>: the present claims are checked as a target state.\<close>

definition present_claims :: "claims \<Rightarrow> (artifact_key, manifest_entry) dict" where
  "present_claims cs = map (\<lambda>c. (fst c, the (snd c))) (filter (\<lambda>c. snd c \<noteq> None) cs)"

definition encode_optional_entries :: "claims \<Rightarrow> py_error + (string, manifest_entry option) dict" where
  "encode_optional_entries cs =
     (case encode_target_entries [] (present_claims cs) of
        Inl e \<Rightarrow> Inl e
      | Inr present \<Rightarrow>
          Inr (foldl (\<lambda>d c. dict_set d (encode_key (fst c))
                 (if snd c = None then None else dict_get present (encode_key (fst c)))) [] cs))"

definition apply_claims ::
  "(string, manifest_entry option) dict \<Rightarrow> (string, manifest_entry) dict \<Rightarrow> (string, manifest_entry) dict" where
  "apply_claims reps es =
     foldl (\<lambda>d c. case snd c of None \<Rightarrow> dict_del d (fst c) | Some e \<Rightarrow> dict_set d (fst c) e) es reps"

text \<open>Python compares dictionaries without regard to the order of their keys.\<close>

definition same_dict :: "('k, 'v) dict \<Rightarrow> ('k, 'v) dict \<Rightarrow> bool" where
  "same_dict a b \<longleftrightarrow>
     list_all (\<lambda>k. dict_get a k = dict_get b k) (dict_keys a) \<and> list_all (\<lambda>k. dict_get a k = dict_get b k) (dict_keys b)"

definition memory_replace ::
  "memory_manifest \<Rightarrow> claims \<Rightarrow> claims \<Rightarrow> (manifest_error + bool) \<times> memory_manifest" where
  "memory_replace s expected replacements =
     (case encode_optional_entries expected of
        Inl e \<Rightarrow> (Inl (OtherError e), s)
      | Inr exps \<Rightarrow>
          (case encode_optional_entries replacements of
             Inl e \<Rightarrow> (Inl (OtherError e), s)
           | Inr reps \<Rightarrow>
               if \<exists>c \<in> set exps. dict_get (mm_entries s) (fst c) \<noteq> snd c then (Inr False, s)
               else
                 (let updated = apply_claims reps (mm_entries s)
                  in if same_dict updated (mm_entries s) then (Inr False, s)
                     else if assert_unique_artifact_paths updated then (Inr True, s\<lparr>mm_entries := updated\<rparr>)
                     else (Inl claimed_twice, s))))"

definition memory_adapter :: "memory_manifest manifest_adapter" where
  "memory_adapter =
     \<lparr>inspect_artifact = memory_inspect, get_entry = memory_get, put_entry = memory_put,
      delete_entry = memory_delete, replace_entries_if_matches = memory_replace\<rparr>"

text \<open>The whole-snapshot operations of the adapter.\<close>

fun decode_entries :: "(string, manifest_entry) dict \<Rightarrow> py_error + (artifact_key, manifest_entry) dict" where
  "decode_entries [] = Inr []"
| "decode_entries ((t, e) # es) =
     (case decode_key t of
        Inl x \<Rightarrow> Inl x
      | Inr k \<Rightarrow> (case decode_entries es of Inl x \<Rightarrow> Inl x | Inr r \<Rightarrow> Inr ((k, e) # r)))"

definition memory_snapshot :: "memory_manifest \<Rightarrow> py_error + (artifact_key, manifest_entry) dict" where
  "memory_snapshot s = decode_entries (mm_entries s)"

definition memory_replace_all ::
  "memory_manifest \<Rightarrow> (artifact_key, manifest_entry) dict \<Rightarrow> (manifest_error + bool) \<times> memory_manifest" where
  "memory_replace_all s target =
     (case encode_target_entries [] target of
        Inl e \<Rightarrow> (Inl (OtherError e), s)
      | Inr encoded \<Rightarrow>
          if \<not> assert_unique_artifact_paths encoded then (Inl claimed_twice, s)
          else if same_dict (mm_entries s) encoded then (Inr False, s)
          else (Inr True, s\<lparr>mm_entries := encoded\<rparr>))"

definition memory_replace_snapshot ::
  "memory_manifest \<Rightarrow> (artifact_key, manifest_entry) dict \<Rightarrow> (artifact_key, manifest_entry) dict
     \<Rightarrow> (manifest_error + bool) \<times> memory_manifest" where
  "memory_replace_snapshot s expected replacement =
     (case encode_target_entries [] expected of
        Inl e \<Rightarrow> (Inl (OtherError e), s)
      | Inr encoded_expected \<Rightarrow>
          (case encode_target_entries [] replacement of
             Inl e \<Rightarrow> (Inl (OtherError e), s)
           | Inr encoded \<Rightarrow>
               if \<not> assert_unique_artifact_paths encoded then (Inl claimed_twice, s)
               else if \<not> same_dict (mm_entries s) encoded_expected then (Inr False, s)
               else (Inr True, s\<lparr>mm_entries := encoded\<rparr>)))"

end
