(* ===== verification/Manifest_Store.thy ===== *)
theory Manifest_Store
  imports Artifact_Manifest
begin

text \<open>
  What the domain operations of the manifest rely on: the contract of the storage seam, over an
  abstract map from keys to claims, with writes that may fail before or after taking effect.
  The transactional operations are proved against the contract. The in-memory adapter keeps it,
  and so does any adapter that keeps it once its operations are made to fail arbitrarily, which
  is how a file behind the seam behaves.
\<close>

subsection \<open>The contract\<close>

definition override_claims :: "(artifact_key \<Rightarrow> manifest_entry option) \<Rightarrow> claims \<Rightarrow> artifact_key \<Rightarrow> manifest_entry option" where
  "override_claims c cs = (\<lambda>k. case dict_get cs k of None \<Rightarrow> c k | Some v \<Rightarrow> v)"

definition holds_claims :: "(artifact_key \<Rightarrow> manifest_entry option) \<Rightarrow> claims \<Rightarrow> bool" where
  "holds_claims c cs \<longleftrightarrow> (\<forall>(k, v) \<in> set cs. c k = v)"

definition claims_ok :: "(artifact_key \<Rightarrow> bool) \<Rightarrow> claims \<Rightarrow> bool" where
  "claims_ok key_ok cs \<longleftrightarrow> distinct (dict_keys cs) \<and> (\<forall>k \<in> set (dict_keys cs). key_ok k)"

lemma override_known: "distinct (dict_keys cs) \<Longrightarrow> (k, v) \<in> set cs \<Longrightarrow> override_claims c cs k = v"
  by (simp add: override_claims_def)

lemma override_other: "k \<notin> set (dict_keys cs) \<Longrightarrow> override_claims c cs k = c k"
  by (simp add: override_claims_def map_of_eq_None_iff [THEN iffD2])

lemma override_holds:
  assumes "holds_claims c cs"
  shows "override_claims c cs = c"
proof
  fix k
  show "override_claims c cs k = c k"
    using assms map_of_SomeD [of cs k]
    by (auto simp: override_claims_def holds_claims_def split: option.splits)
qed

lemma override_twice:
  assumes "set (dict_keys a) = set (dict_keys b)"
  shows "override_claims (override_claims c a) b = override_claims c b"
proof
  fix k
  show "override_claims (override_claims c a) b k = override_claims c b k"
  proof (cases "k \<in> set (dict_keys b)")
    case True
    then obtain v where "dict_get b k = Some v" by (metis map_of_eq_None_iff not_Some_eq set_map)
    then show ?thesis by (simp add: override_claims_def)
  next
    case False
    with assms show ?thesis by (simp add: override_other)
  qed
qed

lemma holds_eq_override:
  assumes "holds_claims (override_claims c a) b" and "holds_claims c b" and "set (dict_keys a) = set (dict_keys b)"
  shows "override_claims c a = c"
proof
  fix k
  show "override_claims c a k = c k"
  proof (cases "k \<in> set (dict_keys b)")
    case True
    then obtain v where "(k, v) \<in> set b" by auto
    with assms(1,2) show ?thesis by (auto simp: holds_claims_def)
  next
    case False
    with assms(3) show ?thesis by (simp add: override_other)
  qed
qed

locale manifest_store =
  fixes A :: "'s manifest_adapter"
    and claim :: "'s \<Rightarrow> artifact_key \<Rightarrow> manifest_entry option"
    and key_ok :: "artifact_key \<Rightarrow> bool"
  assumes inspect_path: "ob_blocker (inspect_artifact A s path) = None \<Longrightarrow>
      normalize_artifact_path path = Inr (ob_artifact_path (inspect_artifact A s path))"
    and get_reads: "key_ok k \<Longrightarrow> get_entry A s k = Inr r \<Longrightarrow> r = claim s k"
    and put_done: "key_ok k \<Longrightarrow> put_entry A s k e = (Inr b, s') \<Longrightarrow> claim s' = (claim s)(k \<mapsto> e)"
    and put_failed: "key_ok k \<Longrightarrow> put_entry A s k e = (Inl x, s') \<Longrightarrow>
      claim s' = claim s \<or> claim s' = (claim s)(k \<mapsto> e)"
    and delete_done: "key_ok k \<Longrightarrow> delete_entry A s k = (Inr b, s') \<Longrightarrow> claim s' = (claim s)(k := None)"
    and delete_failed: "key_ok k \<Longrightarrow> delete_entry A s k = (Inl x, s') \<Longrightarrow>
      claim s' = claim s \<or> claim s' = (claim s)(k := None)"
    and replace_done: "claims_ok key_ok es \<Longrightarrow> claims_ok key_ok rs \<Longrightarrow>
      replace_entries_if_matches A s es rs = (Inr True, s') \<Longrightarrow>
      holds_claims (claim s) es \<and> claim s' = override_claims (claim s) rs"
    and replace_kept: "claims_ok key_ok es \<Longrightarrow> claims_ok key_ok rs \<Longrightarrow>
      replace_entries_if_matches A s es rs = (Inr False, s') \<Longrightarrow> claim s' = claim s"
    and replace_failed: "claims_ok key_ok es \<Longrightarrow> claims_ok key_ok rs \<Longrightarrow>
      replace_entries_if_matches A s es rs = (Inl x, s') \<Longrightarrow>
      claim s' = claim s \<or> (holds_claims (claim s) es \<and> claim s' = override_claims (claim s) rs)"
begin

lemma restore_claim_restores:
  assumes "key_ok k" and "claim s' = claim s \<or> claim s' = (claim s)(k := written)"
    and "restore_claim A k written (claim s k) e s' = (r, s'')" and "r \<noteq> Inl rollback_incomplete"
  shows "r = Inl e \<and> claim s'' = claim s"
proof -
  obtain now where now: "get_entry A s' k = Inr now"
    using assms(3,4) by (auto simp: restore_claim_def split: sum.splits)
  then have now_claim: "now = claim s' k" using get_reads assms(1) by blast
  show ?thesis
  proof (cases "now = written")
    case False
    then have "claim s' = claim s" using assms(2) now_claim by auto
    then show ?thesis using False assms(3) now by (simp add: restore_claim_def)
  next
    case True
    have undo: "(claim s')(k := claim s k) = claim s" using assms(2) by (auto simp: fun_upd_idem_iff)
    show ?thesis
    proof (cases "claim s k")
      case None
      then obtain b where "delete_entry A s' k = (Inr b, s'')" "r = Inl e"
        using assms(3,4) now True by (auto simp: restore_claim_def split: sum.splits prod.splits)
      then show ?thesis using delete_done [OF assms(1)] undo None by fastforce
    next
      case (Some p)
      then obtain b where "put_entry A s' k p = (Inr b, s'')" "r = Inl e"
        using assms(3,4) now True by (auto simp: restore_claim_def split: sum.splits prod.splits)
      then show ?thesis using put_done [OF assms(1)] undo Some by fastforce
    qed
  qed
qed

text \<open>Registration: the claim is written, or nothing is, or the failure says that it could not be undone.\<close>

lemma register_cases:
  assumes "key_ok k" and "register_descriptor A k path b s = (r, s')"
  obtains (wrote) p c where "normalize_artifact_path path = Inr p" "r = Inr c"
      "claim s' = (claim s)(k \<mapsto> \<lparr>me_artifact_path = p, me_basis_digest = bd_digest b\<rparr>)"
  | (refused) e where "r = Inl e" "claim s' = claim s"
  | (failed) p e where "normalize_artifact_path path = Inr p" "r = Inl e"
      "claim s' = claim s \<or> claim s' = (claim s)(k \<mapsto> \<lparr>me_artifact_path = p, me_basis_digest = bd_digest b\<rparr>)"
proof -
  let ?ob = "inspect_artifact A s path"
  let ?e = "\<lparr>me_artifact_path = ob_artifact_path ?ob, me_basis_digest = bd_digest b\<rparr>"
  show ?thesis
  proof (cases "ob_blocker ?ob = None \<and> ob_present ?ob")
    case False
    with assms(2) have "\<exists>e. r = Inl e \<and> s' = s"
      by (auto simp: register_descriptor_def Let_def split: option.splits if_splits)
    then show ?thesis using refused by blast
  next
    case True
    then have p: "normalize_artifact_path path = Inr (ob_artifact_path ?ob)" by (intro inspect_path) simp
    have put: "put_entry A s k ?e = (r, s')" using True assms(2) by (simp add: register_descriptor_def Let_def)
    show ?thesis
    proof (cases r)
      case (Inl x)
      with put show ?thesis using put_failed [OF assms(1)] failed p by blast
    next
      case (Inr c)
      with put show ?thesis using put_done [OF assms(1)] that(1) p by blast
    qed
  qed
qed

lemma register_all_or_nothing:
  assumes "key_ok k" and "register_descriptor_transactionally A k path b s = (r, s')"
    and "r \<noteq> Inl rollback_incomplete"
  shows "case r of Inl e \<Rightarrow> claim s' = claim s
    | Inr c \<Rightarrow> (\<exists>p. normalize_artifact_path path = Inr p
        \<and> claim s' = (claim s)(k \<mapsto> \<lparr>me_artifact_path = p, me_basis_digest = bd_digest b\<rparr>))"
proof (cases "get_entry A s k")
  case (Inl e)
  with assms(2) show ?thesis by (auto simp: register_descriptor_transactionally_def)
next
  case (Inr previous)
  then have prev: "previous = claim s k" using get_reads assms(1) by blast
  show ?thesis
  proof (cases "normalize_artifact_path path")
    case (Inl e)
    with Inr assms(2) show ?thesis by (auto simp: register_descriptor_transactionally_def)
  next
    fix p
    assume p: "normalize_artifact_path path = Inr p"
    let ?w = "\<lparr>me_artifact_path = p, me_basis_digest = bd_digest b\<rparr>"
    obtain r1 s1 where reg: "register_descriptor A k path b s = (r1, s1)" by fastforce
    show ?thesis
    proof (cases r1)
      case (Inr c)
      from assms(1) reg have "claim s1 = (claim s)(k \<mapsto> ?w)" by (cases rule: register_cases) (use p Inr in auto)
      then show ?thesis
        using assms(2) reg p Inr \<open>get_entry A s k = Inr previous\<close>
        by (auto simp: register_descriptor_transactionally_def)
    next
      case (Inl e)
      have "claim s1 = claim s \<or> claim s1 = (claim s)(k := Some ?w)"
        using assms(1) reg by (cases rule: register_cases) (use p Inl in auto)
      moreover have "restore_claim A k (Some ?w) (claim s k) e s1 = (r, s')"
        using assms(2) reg p Inl \<open>get_entry A s k = Inr previous\<close> prev
        by (simp add: register_descriptor_transactionally_def)
      ultimately have "r = Inl e \<and> claim s' = claim s" using assms(1,3) by (intro restore_claim_restores)
      then show ?thesis by simp
    qed
  qed
qed

lemma forget_all_or_nothing:
  assumes "key_ok k" and "forget_entry_transactionally A k s = (r, s')" and "r \<noteq> Inl rollback_incomplete"
  shows "case r of Inl e \<Rightarrow> claim s' = claim s | Inr c \<Rightarrow> claim s' = (claim s)(k := None)"
proof (cases "get_entry A s k")
  case (Inl e)
  with assms(2) show ?thesis by (auto simp: forget_entry_transactionally_def)
next
  case (Inr previous)
  then have prev: "previous = claim s k" using get_reads assms(1) by blast
  show ?thesis
  proof (cases previous)
    case None
    with assms(2) Inr prev show ?thesis by (auto simp: forget_entry_transactionally_def fun_upd_idem)
  next
    case (Some p)
    obtain r1 s1 where del: "delete_entry A s k = (r1, s1)" by fastforce
    show ?thesis
    proof (cases r1)
      case (Inl e)
      have "claim s1 = claim s \<or> claim s1 = (claim s)(k := None)" using del Inl delete_failed [OF assms(1)] by blast
      moreover have "restore_claim A k None (claim s k) e s1 = (r, s')"
        using assms(2) del Inl Some prev \<open>get_entry A s k = Inr previous\<close> by (simp add: forget_entry_transactionally_def)
      ultimately have "r = Inl e \<and> claim s' = claim s" using assms(1,3) by (intro restore_claim_restores)
      then show ?thesis by simp
    next
      case (Inr c)
      then show ?thesis
        using assms(2) del Some \<open>get_entry A s k = Inr previous\<close> delete_done [OF assms(1)]
        by (auto simp: forget_entry_transactionally_def)
    qed
  qed
qed

lemma entries_match_holds:
  "\<forall>k \<in> set (dict_keys cs). key_ok k \<Longrightarrow> entries_match A s cs = Inr True \<Longrightarrow> holds_claims (claim s) cs"
proof (induction cs)
  case (Cons c cs)
  obtain k e where c: "c = (k, e)" by (cases c)
  with Cons.prems obtain r where r: "get_entry A s k = Inr r" "r = e" "entries_match A s cs = Inr True"
    by (auto split: sum.splits if_splits)
  then have "claim s k = e" using get_reads Cons.prems(1) c by force
  with c r Cons show ?case by (auto simp: holds_claims_def)
qed (simp add: holds_claims_def)

text \<open>A plan is sound in the state it was made in: it has the claims it expects, on the keys it changes.\<close>

definition sound_plan :: "rekey_plan \<Rightarrow> 's \<Rightarrow> bool" where
  "sound_plan plan s \<longleftrightarrow> claims_ok key_ok (rk_before plan) \<and> claims_ok key_ok (rk_after plan)
     \<and> set (dict_keys (rk_before plan)) = set (dict_keys (rk_after plan)) \<and> holds_claims (claim s) (rk_before plan)
     \<and> (\<not> rk_changed plan \<longrightarrow> rk_after plan = [])"

lemma commit_all_or_nothing:
  assumes "sound_plan plan s" and "commit_rekey A plan s = (r, s')" and "r \<noteq> Inl rollback_incomplete"
  shows "case r of Inl e \<Rightarrow> claim s' = claim s
    | Inr receipt \<Rightarrow> receipt = plan \<and> claim s' = override_claims (claim s) (rk_after plan)"
proof (cases "rk_changed plan")
  case False
  then have "override_claims (claim s) (rk_after plan) = claim s"
    using assms(1) by (simp add: sound_plan_def override_claims_def)
  with False assms(2) show ?thesis by (auto simp: commit_rekey_def)
next
  case True
  have ok: "claims_ok key_ok (rk_before plan)" "claims_ok key_ok (rk_after plan)"
    and keys: "set (dict_keys (rk_before plan)) = set (dict_keys (rk_after plan))"
    and hold: "holds_claims (claim s) (rk_before plan)" using assms(1) by (simp_all add: sound_plan_def)
  obtain r1 s1 where rep: "replace_entries_if_matches A s (rk_before plan) (rk_after plan) = (r1, s1)" by fastforce
  consider "r1 = Inr True" | "r1 = Inr False" | x where "r1 = Inl x" by (metis (full_types) sum.exhaust)
  then show ?thesis
  proof cases
    case 1
    with rep replace_done [OF ok] True assms(2) show ?thesis by (auto simp: commit_rekey_def)
  next
    case 2
    with rep replace_kept [OF ok] True assms(2) show ?thesis by (auto simp: commit_rekey_def)
  next
    case 3
    have s1: "claim s1 = claim s \<or> claim s1 = override_claims (claim s) (rk_after plan)"
      using replace_failed [OF ok] rep 3 by blast
    have undone: "override_claims (claim s1) (rk_before plan) = claim s"
      using s1 override_twice [OF keys [symmetric]] override_holds [OF hold] by auto
    obtain r2 s2 where undo: "replace_entries_if_matches A s1 (rk_after plan) (rk_before plan) = (r2, s2)" by fastforce
    consider "r2 = Inr True" | "r2 = Inr False" | y where "r2 = Inl y" by (metis (full_types) sum.exhaust)
    then show ?thesis
    proof cases
      case 1
      then have "claim s2 = claim s" using replace_done [OF ok(2,1)] undo undone by auto
      then show ?thesis using 1 True assms(2) rep 3 undo by (auto simp: commit_rekey_def)
    next
      case 2
      then have same: "claim s2 = claim s1" using replace_kept [OF ok(2,1)] undo by blast
      have match: "entries_match A s2 (rk_before plan) = Inr True" and r: "r = Inl x" "s' = s2"
        using assms(2,3) True rep 3 undo 2 by (auto simp: commit_rekey_def split: sum.splits bool.splits)
      then have "holds_claims (claim s1) (rk_before plan)"
        using entries_match_holds [of "rk_before plan" s2] ok(1) same by (simp add: claims_ok_def)
      then have "claim s1 = claim s" using s1 holds_eq_override [OF _ hold keys [symmetric]] by auto
      with same r show ?thesis by simp
    next
      case 3
      then show ?thesis using True assms(2,3) rep \<open>r1 = Inl x\<close> undo by (auto simp: commit_rekey_def)
    qed
  qed
qed

lemma compensate_restores:
  assumes "sound_plan plan s" and "claim s1 = override_claims (claim s) (rk_after plan)"
    and "compensate A plan s1 = (Inr b, s2)"
  shows "claim s2 = claim s"
proof (cases "rk_changed plan")
  case False
  with assms show ?thesis by (auto simp: compensate_def sound_plan_def override_claims_def)
next
  case True
  have ok: "claims_ok key_ok (rk_before plan)" "claims_ok key_ok (rk_after plan)"
    and keys: "set (dict_keys (rk_before plan)) = set (dict_keys (rk_after plan))"
    and hold: "holds_claims (claim s) (rk_before plan)" using assms(1) by (simp_all add: sound_plan_def)
  have undone: "override_claims (claim s1) (rk_before plan) = claim s"
    using assms(2) override_twice [OF keys [symmetric]] override_holds [OF hold] by simp
  obtain r1 t where rep: "replace_entries_if_matches A s1 (rk_after plan) (rk_before plan) = (r1, t)" by fastforce
  consider "r1 = Inr True" | "r1 = Inr False" | x where "r1 = Inl x" by (metis (full_types) sum.exhaust)
  then show ?thesis
  proof cases
    case 1
    then have "claim t = claim s" using replace_done [OF ok(2,1)] rep undone by auto
    then show ?thesis using 1 True assms(3) rep by (auto simp: compensate_def)
  next
    case 2
    then have same: "claim t = claim s1" using replace_kept [OF ok(2,1)] rep by blast
    have "entries_match A t (rk_before plan) = Inr True" "s2 = t"
      using assms(3) True rep 2 by (auto simp: compensate_def split: sum.splits bool.splits)
    then have "holds_claims (claim s1) (rk_before plan)"
      using entries_match_holds [of "rk_before plan" t] ok(1) same by (simp add: claims_ok_def)
    then have "override_claims (claim s) (rk_after plan) = claim s"
      using assms(2) holds_eq_override [OF _ hold keys [symmetric]] by simp
    with same assms(2) \<open>s2 = t\<close> show ?thesis by simp
  next
    case 3
    with True assms(3) rep show ?thesis by (auto simp: compensate_def)
  qed
qed

text \<open>The preflight makes sound plans; a plan that moves a claim keeps its digest.\<close>

lemma plan_sound:
  assumes "key_ok src" "key_ok dst" and "plan_entry_rekey A src dst rw s = Inr plan"
  shows "sound_plan plan s"
  using assms get_reads
  by (auto simp: plan_entry_rekey_def sound_plan_def no_rekey_def claims_ok_def holds_claims_def
      split: sum.splits option.splits if_splits)

lemma plan_moves:
  assumes "key_ok src" "key_ok dst" and "src \<noteq> dst" and "plan_entry_rekey A src dst rw s = Inr plan"
  shows "claim s dst = None \<and>
    (\<exists>rws. override_claims (claim s) (rk_after plan) =
       (claim s)(src := None, dst := map_option (rewritten rws) (claim s src)))"
proof -
  have read: "get_entry A s k = Inr r \<Longrightarrow> key_ok k \<Longrightarrow> claim s k = r" for k r using get_reads by blast
  obtain rws where rws: "normalize_rewrites rw [] = Inr rws"
    using assms(4) by (auto simp: plan_entry_rekey_def split: sum.splits)
  have "claim s dst = None \<and> override_claims (claim s) (rk_after plan) =
       (claim s)(src := None, dst := map_option (rewritten rws) (claim s src))"
    using assms rws read
    by (auto simp: plan_entry_rekey_def no_rekey_def override_claims_def fun_eq_iff
        split: sum.splits option.splits if_splits)
  then show ?thesis by blast
qed

end

end
