(* ===== verification/Manifest_Props.thy ===== *)
theory Manifest_Props
  imports Manifest_Store
begin

text \<open>
  The in-memory adapter refines the abstract map of claims and never lets two keys own one file;
  it keeps the contract of the seam, alone and when its operations are made to fail before or
  after taking effect. The properties of the transactional operations are stated over the
  failing store, for every sequence of failures.
\<close>

subsection \<open>The abstract map\<close>

definition valid_key :: "artifact_key \<Rightarrow> bool" where
  "valid_key k \<longleftrightarrow> make_key (ak_kind k) (ak_components k) = Inr k \<and> key_ascii k"

definition claim_of :: "memory_manifest \<Rightarrow> artifact_key \<Rightarrow> manifest_entry option" where
  "claim_of m k = (if valid_key k then dict_get (mm_entries m) (encode_key k) else None)"

lemma valid_encode_inject: "valid_key a \<Longrightarrow> valid_key b \<Longrightarrow> encode_key a = encode_key b \<longleftrightarrow> a = b"
  unfolding valid_key_def using encode_key_inject by blast

lemma claim_of_set:
  "valid_key k \<Longrightarrow> claim_of (m\<lparr>mm_entries := dict_set (mm_entries m) (encode_key k) e\<rparr>) = (claim_of m)(k \<mapsto> e)"
  using valid_encode_inject by (auto simp: claim_of_def fun_eq_iff)

lemma claim_of_del:
  "valid_key k \<Longrightarrow> claim_of (m\<lparr>mm_entries := dict_del (mm_entries m) (encode_key k)\<rparr>) = (claim_of m)(k := None)"
  using valid_encode_inject by (auto simp: claim_of_def fun_eq_iff)

lemma memory_put_cases:
  assumes "memory_put m k e = (r, m')"
  obtains (kept) "r = Inr False" "m' = m" "dict_get (mm_entries m) (encode_key k) = Some e"
  | (stored) "r = Inr True" "m' = m\<lparr>mm_entries := dict_set (mm_entries m) (encode_key k) e\<rparr>"
      "assert_unique_artifact_paths (dict_set (mm_entries m) (encode_key k) e)"
      "dict_get (mm_entries m) (encode_key k) \<noteq> Some e"
  | (clash) "r = Inl claimed_twice" "m' = m"
      "\<not> assert_unique_artifact_paths (dict_set (mm_entries m) (encode_key k) e)"
      "dict_get (mm_entries m) (encode_key k) \<noteq> Some e"
  using assms by (auto simp: memory_put_def Let_def split: if_splits)

subsection \<open>One owner per file\<close>

abbreviation file_of :: "string \<times> manifest_entry \<Rightarrow> string" where
  "file_of x \<equiv> str_lower (me_artifact_path (snd x))"

lemma path_owners_Cons:
  "path_owners_ok owners (x # es) \<longleftrightarrow>
     dict_get owners (file_of x) \<in> {None, Some (fst x)} \<and> path_owners_ok (dict_set owners (file_of x) (fst x)) es"
  by (cases x) (auto simp: Let_def split: option.splits)

lemma path_owners_iff:
  "path_owners_ok owners es \<longleftrightarrow>
     (\<forall>x \<in> set es. dict_get owners (file_of x) \<in> {None, Some (fst x)})
     \<and> (\<forall>x \<in> set es. \<forall>y \<in> set es. file_of x = file_of y \<longrightarrow> fst x = fst y)"
proof (induction es arbitrary: owners)
  case (Cons x es)
  let ?mine = "\<lambda>o' y. dict_get o' (file_of y) \<in> {None, Some (fst y)}"
  have new: "?mine (dict_set owners (file_of x) (fst x)) y \<longleftrightarrow> (if file_of y = file_of x then fst y = fst x else ?mine owners y)"
    for y by auto
  show ?case
    unfolding path_owners_Cons Cons.IH new list.set ball_simps by (auto split: if_splits)
qed simp

lemma unique_paths_iff:
  "assert_unique_artifact_paths es \<longleftrightarrow> (\<forall>x \<in> set es. \<forall>y \<in> set es. file_of x = file_of y \<longrightarrow> fst x = fst y)"
  by (simp add: assert_unique_artifact_paths_def path_owners_iff)

text \<open>The invariant of the store: distinct texts, each the text of a valid key, one key per file.\<close>

definition manifest_inv :: "memory_manifest \<Rightarrow> bool" where
  "manifest_inv m \<longleftrightarrow> distinct (dict_keys (mm_entries m))
     \<and> (\<forall>t \<in> set (dict_keys (mm_entries m)). \<exists>k. valid_key k \<and> t = encode_key k)
     \<and> assert_unique_artifact_paths (mm_entries m)"

lemma set_dict_set: "distinct (dict_keys d) \<Longrightarrow> set (dict_set d k v) = insert (k, v) {p \<in> set d. fst p \<noteq> k}"
  by (induction d k v rule: dict_set.induct) (auto simp: image_iff)

lemma unique_paths_subset:
  "assert_unique_artifact_paths es \<Longrightarrow> set es' \<subseteq> set es \<Longrightarrow> assert_unique_artifact_paths es'"
  unfolding unique_paths_iff by blast

lemma claim_of_entries:
  assumes "manifest_inv m" and "valid_key k"
  shows "claim_of m k = Some e \<longleftrightarrow> (encode_key k, e) \<in> set (mm_entries m)"
  using assms by (simp add: claim_of_def manifest_inv_def)

lemma put_clash_iff:
  assumes inv: "manifest_inv m" and k: "valid_key k"
  shows "\<not> assert_unique_artifact_paths (dict_set (mm_entries m) (encode_key k) e) \<longleftrightarrow>
    (\<exists>k' e'. k' \<noteq> k \<and> claim_of m k' = Some e' \<and> str_lower (me_artifact_path e') = str_lower (me_artifact_path e))"
    (is "?l \<longleftrightarrow> ?r")
proof
  have set: "set (dict_set (mm_entries m) (encode_key k) e)
      = insert (encode_key k, e) {p \<in> set (mm_entries m). fst p \<noteq> encode_key k}"
    using inv by (intro set_dict_set) (simp add: manifest_inv_def)
  have old: "t = t'" if "(t, x) \<in> set (mm_entries m)" "(t', y) \<in> set (mm_entries m)"
    "str_lower (me_artifact_path x) = str_lower (me_artifact_path y)" for t t' x y
    using inv that unfolding manifest_inv_def unique_paths_iff by fastforce
  {
    assume ?l
    then obtain t x where t: "(t, x) \<in> set (mm_entries m)" "t \<noteq> encode_key k"
      "str_lower (me_artifact_path x) = str_lower (me_artifact_path e)"
      unfolding unique_paths_iff set using old by auto
    obtain k' where k': "valid_key k'" "t = encode_key k'" using inv t(1) by (force simp: manifest_inv_def)
    then have "claim_of m k' = Some x" using claim_of_entries [OF inv] t(1) by blast
    with t k' show ?r by metis
  next
    assume ?r
    then obtain k' e' where k': "k' \<noteq> k" "claim_of m k' = Some e'"
      "str_lower (me_artifact_path e') = str_lower (me_artifact_path e)" by blast
    have "valid_key k'" using k'(2) by (auto simp: claim_of_def split: if_splits)
    then have "(encode_key k', e') \<in> set (mm_entries m)" "encode_key k' \<noteq> encode_key k"
      using claim_of_entries [OF inv] k' valid_encode_inject k by blast+
    then have "(encode_key k', e') \<in> set (dict_set (mm_entries m) (encode_key k) e)" unfolding set by simp
    moreover have "(encode_key k, e) \<in> set (dict_set (mm_entries m) (encode_key k) e)" unfolding set by simp
    ultimately show ?l unfolding unique_paths_iff using k'(3) \<open>encode_key k' \<noteq> encode_key k\<close> by fastforce
  }
qed

lemma set_keys_dict_set: "set (dict_keys (dict_set d k v)) = insert k (set (dict_keys d))"
  by (rule set_dict_keys_set)

lemma inv_put:
  assumes inv: "manifest_inv m" and k: "valid_key k" and "memory_put m k e = (r, m')"
  shows "manifest_inv m'"
  using assms(3)
proof (cases rule: memory_put_cases)
  case stored
  have "\<forall>t \<in> set (dict_keys (mm_entries m')). \<exists>k. valid_key k \<and> t = encode_key k"
    unfolding stored(2) using inv k by (simp del: set_map add: set_keys_dict_set manifest_inv_def) blast
  then show ?thesis using inv stored by (simp add: manifest_inv_def del: set_map)
qed (use inv in simp_all)

lemma inv_delete: "manifest_inv m \<Longrightarrow> memory_delete m k = (r, m') \<Longrightarrow> manifest_inv m'"
  by (auto simp: memory_delete_def manifest_inv_def dict_del_def distinct_map_filter
      intro: unique_paths_subset)

subsection \<open>Compare and swap\<close>

lemma encode_target_map:
  "encode_target_entries acc es = Inr out \<Longrightarrow> out = acc @ map (\<lambda>c. (encode_key (fst c), snd c)) es"
  by (induction acc es arbitrary: out rule: encode_target_entries.induct) (auto split: sum.splits if_splits)

lemma foldl_dict_set_fresh:
  "distinct (dict_keys d @ map f cs) \<Longrightarrow>
     foldl (\<lambda>d c. dict_set d (f c) (g c)) d cs = d @ map (\<lambda>c. (f c, g c)) cs"
proof (induction cs arbitrary: d)
  case (Cons c cs)
  then have "dict_set d (f c) (g c) = d @ [(f c, g c)]" by (intro dict_set_fresh) auto
  with Cons show ?case by simp
qed simp

lemma encoded_distinct:
  assumes "claims_ok valid_key cs"
  shows "distinct (map (encode_key \<circ> fst) cs)"
proof -
  have "inj_on encode_key (set (map fst cs))"
    using assms valid_encode_inject by (auto simp: claims_ok_def inj_on_def)
  moreover have "distinct (map fst cs)" using assms by (simp add: claims_ok_def)
  ultimately have "distinct (map encode_key (map fst cs))" by (simp add: distinct_map del: map_map)
  then show ?thesis by simp
qed

lemma encode_optional_map:
  assumes ok: "claims_ok valid_key cs" and "encode_optional_entries cs = Inr d"
  shows "d = map (\<lambda>c. (encode_key (fst c), snd c)) cs"
proof -
  let ?present = "map (\<lambda>c. (encode_key (fst c), snd c)) (present_claims cs)"
  have d: "d = foldl (\<lambda>d c. dict_set d (encode_key (fst c))
      (if snd c = None then None else dict_get ?present (encode_key (fst c)))) [] cs"
    using assms(2) encode_target_map [of "[]" "present_claims cs"]
    by (auto simp: encode_optional_entries_def split: sum.splits)
  have dist: "distinct (map (encode_key \<circ> fst) cs)" using ok by (rule encoded_distinct)
  have "dict_get ?present (encode_key (fst c)) = snd c" if "c \<in> set cs" "snd c \<noteq> None" for c
  proof -
    from that obtain k e where c: "c = (k, Some e)" by (metis not_Some_eq prod.collapse)
    have "map fst ?present = map (encode_key \<circ> fst) (filter (\<lambda>c. snd c \<noteq> None) cs)"
      by (simp add: present_claims_def)
    then have "distinct (map fst ?present)" using dist by (simp only: distinct_map_filter)
    moreover have "(encode_key k, e) \<in> set ?present" using that c by (force simp: present_claims_def)
    ultimately show ?thesis using c by simp
  qed
  then have vals: "map (\<lambda>c. (encode_key (fst c), if snd c = None then None else dict_get ?present (encode_key (fst c)))) cs
      = map (\<lambda>c. (encode_key (fst c), snd c)) cs" by (intro map_cong) auto
  have "d = [] @ map (\<lambda>c. (encode_key (fst c), if snd c = None then None else dict_get ?present (encode_key (fst c)))) cs"
    unfolding d by (rule foldl_dict_set_fresh [where f = "\<lambda>c. encode_key (fst c)"]) (use dist in \<open>simp add: comp_def\<close>)
  with vals show ?thesis by simp
qed

lemma apply_claims_get:
  "distinct (dict_keys reps) \<Longrightarrow>
     dict_get (apply_claims reps es) t = (case dict_get reps t of None \<Rightarrow> dict_get es t | Some v \<Rightarrow> v)"
proof (induction reps arbitrary: es)
  case Nil
  then show ?case by (simp add: apply_claims_def)
next
  case (Cons c reps)
  obtain k v where c: "c = (k, v)" by (cases c)
  have "apply_claims (c # reps) es = apply_claims reps (case v of None \<Rightarrow> dict_del es k | Some e \<Rightarrow> dict_set es k e)"
    by (cases v) (simp_all add: apply_claims_def c)
  moreover have "k \<notin> set (dict_keys reps)" using Cons.prems c by simp
  then have "dict_get reps k = None" by (simp add: map_of_eq_None_iff)
  ultimately show ?case using Cons c by (auto split: option.splits)
qed

lemma apply_claims_keys:
  "distinct (dict_keys es) \<Longrightarrow> distinct (dict_keys (apply_claims reps es))
     \<and> set (dict_keys (apply_claims reps es)) \<subseteq> set (dict_keys es) \<union> set (dict_keys reps)"
proof (induction reps arbitrary: es)
  case Nil
  then show ?case by (simp add: apply_claims_def)
next
  case (Cons c reps)
  obtain k v where c: "c = (k, v)" by (cases c)
  let ?es = "case v of None \<Rightarrow> dict_del es k | Some e \<Rightarrow> dict_set es k e"
  have "apply_claims (c # reps) es = apply_claims reps ?es" by (cases v) (simp_all add: apply_claims_def c)
  moreover have "distinct (dict_keys ?es)" "set (dict_keys ?es) \<subseteq> insert k (set (dict_keys es))"
    using Cons.prems by (auto simp: dict_del_def distinct_map_filter set_keys_dict_set simp del: set_map split: option.splits)
      (auto simp: dict_del_def)
  moreover have "set (dict_keys (c # reps)) = insert k (set (dict_keys reps))" by (simp add: c)
  moreover note Cons.IH [of ?es]
  ultimately show ?case by (simp only:) blast
qed

lemma same_dict_get: "same_dict a b \<longleftrightarrow> dict_get a = dict_get b"
proof
  assume same: "same_dict a b"
  show "dict_get a = dict_get b"
  proof
    fix k
    show "dict_get a k = dict_get b k"
    proof (cases "k \<in> set (dict_keys a) \<union> set (dict_keys b)")
      case True
      then show ?thesis using same by (auto simp: same_dict_def list_all_iff)
    next
      case False
      then have "dict_get a k = None" "dict_get b k = None" by (simp_all add: map_of_eq_None_iff)
      then show ?thesis by simp
    qed
  qed
qed (simp add: same_dict_def list_all_iff)

lemma memory_replace_cases:
  assumes ok: "claims_ok valid_key es" "claims_ok valid_key rs" and "memory_replace m es rs = (r, m')"
  obtains (refused) e where "r = Inl e" "m' = m"
  | (differs) "r = Inr False" "m' = m"
  | (swapped) "r = Inr True" "m' = m\<lparr>mm_entries := apply_claims (map (\<lambda>c. (encode_key (fst c), snd c)) rs) (mm_entries m)\<rparr>"
      "assert_unique_artifact_paths (mm_entries m')" "holds_claims (claim_of m) es"
      "claim_of m' = override_claims (claim_of m) rs"
proof (cases "\<exists>e. r = Inl e \<or> r = Inr False")
  case True
  then have "m' = m"
    using assms(3) by (auto simp: memory_replace_def Let_def split: sum.splits if_splits)
  with True show ?thesis using refused differs by blast
next
  case False
  let ?reps = "map (\<lambda>c. (encode_key (fst c), snd c)) rs"
  from False assms(3) obtain exps reps where enc: "encode_optional_entries es = Inr exps"
    "encode_optional_entries rs = Inr reps" "r = Inr True"
    "\<forall>c \<in> set exps. dict_get (mm_entries m) (fst c) = snd c"
    "m' = m\<lparr>mm_entries := apply_claims reps (mm_entries m)\<rparr>" "assert_unique_artifact_paths (apply_claims reps (mm_entries m))"
    by (auto simp: memory_replace_def Let_def split: sum.splits if_splits)
  have exps: "exps = map (\<lambda>c. (encode_key (fst c), snd c)) es" and reps: "reps = ?reps"
    using encode_optional_map ok enc(1,2) by blast+
  have "claim_of m k = v" if "(k, v) \<in> set es" for k v
  proof -
    have "valid_key k" using ok(1) that by (force simp: claims_ok_def)
    moreover have "dict_get (mm_entries m) (encode_key k) = v" using enc(4) that by (force simp: exps)
    ultimately show ?thesis by (simp add: claim_of_def)
  qed
  then have holds: "holds_claims (claim_of m) es" by (auto simp: holds_claims_def)
  have dist: "distinct (dict_keys ?reps)" using encoded_distinct [OF ok(2)] by (simp add: comp_def)
  have get: "dict_get ?reps (encode_key k) = dict_get rs k" if "valid_key k" for k
  proof (cases "dict_get rs k")
    case None
    have "encode_key k \<noteq> encode_key k'" if "k' \<in> set (dict_keys rs)" for k'
    proof -
      have "k \<noteq> k'" using None that by (auto simp: map_of_eq_None_iff)
      moreover have "valid_key k'" using ok(2) that unfolding claims_ok_def by blast
      ultimately show ?thesis using valid_encode_inject \<open>valid_key k\<close> by blast
    qed
    then have "encode_key k \<notin> set (dict_keys ?reps)" by auto
    then have "dict_get ?reps (encode_key k) = None" unfolding map_of_eq_None_iff by (simp add: image_image)
    with None show ?thesis by simp
  next
    case (Some v)
    then have "(encode_key k, v) \<in> set ?reps" by (force dest: map_of_SomeD)
    with dist Some show ?thesis by simp
  qed
  have "claim_of m' k = override_claims (claim_of m) rs k" for k
  proof (cases "valid_key k")
    case True
    then show ?thesis
      using get [OF True] apply_claims_get [OF dist, of "mm_entries m" "encode_key k"] enc(5) reps
      by (auto simp: claim_of_def override_claims_def split: option.splits)
  next
    case False
    then have "k \<notin> set (dict_keys rs)" using ok(2) unfolding claims_ok_def by blast
    then have "dict_get rs k = None" by (simp add: map_of_eq_None_iff)
    with False show ?thesis by (simp add: claim_of_def override_claims_def)
  qed
  then have "claim_of m' = override_claims (claim_of m) rs" by blast
  with enc reps holds show ?thesis by (intro swapped) auto
qed

lemma inv_replace:
  assumes inv: "manifest_inv m" and ok: "claims_ok valid_key es" "claims_ok valid_key rs"
    and "memory_replace m es rs = (r, m')"
  shows "manifest_inv m'"
  using ok assms(4)
proof (cases rule: memory_replace_cases)
  case swapped
  let ?reps = "map (\<lambda>c. (encode_key (fst c), snd c)) rs"
  have d: "distinct (dict_keys (mm_entries m))" using inv by (simp add: manifest_inv_def)
  have sub: "set (dict_keys (mm_entries m')) \<subseteq> set (dict_keys (mm_entries m)) \<union> set (dict_keys ?reps)"
    using apply_claims_keys [OF d, of ?reps] swapped(2) by simp
  have new: "\<forall>t \<in> set (dict_keys ?reps). \<exists>k. valid_key k \<and> t = encode_key k"
    using ok(2) by (auto simp: claims_ok_def)
  have old: "\<forall>t \<in> set (dict_keys (mm_entries m)). \<exists>k. valid_key k \<and> t = encode_key k"
    using inv unfolding manifest_inv_def by blast
  from sub new old have "\<forall>t \<in> set (dict_keys (mm_entries m')). \<exists>k. valid_key k \<and> t = encode_key k" by blast
  then show ?thesis using apply_claims_keys [OF d, of ?reps] swapped by (simp add: manifest_inv_def del: set_map)
qed (use inv in simp_all)

interpretation memory: manifest_store memory_adapter claim_of valid_key
proof (unfold_locales, goal_cases)
  case (1 s path)
  then show ?case by (auto simp: memory_adapter_def memory_inspect_def split: sum.splits)
next
  case (2 k s r)
  then show ?case by (simp add: memory_adapter_def memory_get_def claim_of_def)
next
  case (3 k s e b s')
  then have "memory_put s k e = (Inr b, s')" by (simp add: memory_adapter_def)
  then show ?case
  proof (cases rule: memory_put_cases)
    case kept
    then show ?thesis using 3(1) by (auto simp: claim_of_def fun_eq_iff)
  next
    case stored
    then show ?thesis using claim_of_set [OF 3(1)] by simp
  qed simp_all
next
  case (4 k s e x s')
  then have "memory_put s k e = (Inl x, s')" by (simp add: memory_adapter_def)
  then show ?case by (cases rule: memory_put_cases) simp_all
next
  case (5 k s b s')
  then show ?case using claim_of_del by (auto simp: memory_adapter_def memory_delete_def)
next
  case (6 k s x s')
  then show ?case by (simp add: memory_adapter_def memory_delete_def)
next
  case (7 es rs s s')
  then have "memory_replace s es rs = (Inr True, s')" by (simp add: memory_adapter_def)
  with 7(1,2) show ?case by (cases rule: memory_replace_cases) simp_all
next
  case (8 es rs s s')
  then have "memory_replace s es rs = (Inr False, s')" by (simp add: memory_adapter_def)
  with 8(1,2) show ?case by (cases rule: memory_replace_cases) simp_all
next
  case (9 es rs s x s')
  then have "memory_replace s es rs = (Inl x, s')" by (simp add: memory_adapter_def)
  with 9(1,2) show ?case by (cases rule: memory_replace_cases) simp_all
qed

subsection \<open>A store whose operations fail\<close>

text \<open>
  The faults of the storage behind the seam, one per write in order: a write fails before or
  after it has taken effect, and while the next fault is \<open>Unreadable\<close> nothing can be read.
\<close>

datatype fault = Works | Unreadable | FailsBefore | FailsAfter

definition storage_error :: manifest_error where
  "storage_error = ArtifactManifestError ''cannot replace artifact manifest''"

definition inject :: "fault list \<Rightarrow> 's \<Rightarrow> (manifest_error + bool) \<times> 's \<Rightarrow> (manifest_error + bool) \<times> ('s \<times> fault list)" where
  "inject fs s res =
     (case fs of
        [] \<Rightarrow> (fst res, (snd res, []))
      | f # fs' \<Rightarrow>
          if f = FailsBefore then (Inl storage_error, (s, fs'))
          else if f = FailsAfter then (Inl storage_error, (snd res, fs'))
          else (fst res, (snd res, fs')))"

definition with_faults :: "'s manifest_adapter \<Rightarrow> ('s \<times> fault list) manifest_adapter" where
  "with_faults A =
     \<lparr>inspect_artifact = (\<lambda>s path. inspect_artifact A (fst s) path),
      get_entry = (\<lambda>s k. if snd s \<noteq> [] \<and> hd (snd s) = Unreadable then Inl storage_error else get_entry A (fst s) k),
      put_entry = (\<lambda>s k e. inject (snd s) (fst s) (put_entry A (fst s) k e)),
      delete_entry = (\<lambda>s k. inject (snd s) (fst s) (delete_entry A (fst s) k)),
      replace_entries_if_matches =
        (\<lambda>s es rs. inject (snd s) (fst s) (replace_entries_if_matches A (fst s) es rs))\<rparr>"

lemma inject_Inr: "inject fs s res = (Inr b, s') \<Longrightarrow> res = (Inr b, fst s')"
  by (cases res) (auto simp: inject_def split: list.splits if_splits)

lemma inject_Inl: "inject fs s res = (Inl x, s') \<Longrightarrow> fst s' = s \<or> fst s' = snd res"
  by (auto simp: inject_def split: list.splits if_splits)

context manifest_store
begin

lemma put_either: "key_ok k \<Longrightarrow> put_entry A s k e = (r, s') \<Longrightarrow> claim s' = claim s \<or> claim s' = (claim s)(k \<mapsto> e)"
  using put_done put_failed by (cases r) blast+

lemma delete_either: "key_ok k \<Longrightarrow> delete_entry A s k = (r, s') \<Longrightarrow> claim s' = claim s \<or> claim s' = (claim s)(k := None)"
  using delete_done delete_failed by (cases r) blast+

lemma replace_either:
  assumes "claims_ok key_ok es" "claims_ok key_ok rs" "replace_entries_if_matches A s es rs = (r, s')"
  shows "claim s' = claim s \<or> (holds_claims (claim s) es \<and> claim s' = override_claims (claim s) rs)"
proof -
  consider "r = Inr True" | "r = Inr False" | x where "r = Inl x" by (metis (full_types) sum.exhaust)
  then show ?thesis
    by cases (use assms replace_done replace_kept replace_failed in blast)+
qed

lemma survives_faults: "manifest_store (with_faults A) (\<lambda>s. claim (fst s)) key_ok"
proof (unfold_locales, goal_cases)
  case (1 s path)
  then show ?case by (simp add: with_faults_def inspect_path)
next
  case (2 k s r)
  then show ?case using get_reads by (auto simp: with_faults_def split: if_splits)
next
  case (3 k s e b s')
  then show ?case using put_done by (simp add: with_faults_def) (blast dest: inject_Inr)
next
  case (4 k s e x s')
  then have "fst s' = fst s \<or> fst s' = snd (put_entry A (fst s) k e)" by (simp add: with_faults_def inject_Inl)
  then show ?case using put_either [OF 4(1)] by (metis prod.collapse)
next
  case (5 k s b s')
  then show ?case using delete_done by (simp add: with_faults_def) (blast dest: inject_Inr)
next
  case (6 k s x s')
  then have "fst s' = fst s \<or> fst s' = snd (delete_entry A (fst s) k)" by (simp add: with_faults_def inject_Inl)
  then show ?case using delete_either [OF 6(1)] by (metis prod.collapse)
next
  case (7 es rs s s')
  then show ?case using replace_done by (simp add: with_faults_def) (blast dest: inject_Inr)
next
  case (8 es rs s s')
  then show ?case using replace_kept by (simp add: with_faults_def) (blast dest: inject_Inr)
next
  case (9 es rs s x s')
  then have "fst s' = fst s \<or> fst s' = snd (replace_entries_if_matches A (fst s) es rs)"
    by (simp add: with_faults_def inject_Inl)
  then show ?case using replace_either [OF 9(1,2)] by (metis prod.collapse)
qed

end

interpretation failing: manifest_store "with_faults memory_adapter" "\<lambda>s. claim_of (fst s)" valid_key
  by (rule memory.survives_faults)

subsection \<open>Properties\<close>

definition clip_key :: artifact_key where
  "clip_key = \<lparr>ak_kind = EPISODE_VIDEO, ak_components = [PInt 1, PStr ''E1U1'']\<rparr>"

definition still_key :: artifact_key where
  "still_key = \<lparr>ak_kind = EPISODE_STORYBOARD, ak_components = [PInt 1, PStr ''E1U1'']\<rparr>"

definition clip_basis :: basis_descriptor where
  "clip_basis = \<lparr>bd_kind = ''video'', bd_kind_version = 1, bd_digest = ''sha256-v1:'' @ replicate 64 (CHR ''a'')\<rparr>"

definition demo_manifest :: memory_manifest where
  "demo_manifest = \<lparr>mm_entries = [], mm_artifacts = [''v/a.mp4'', ''v/b.mp4'']\<rparr>"

lemma demo_keys: "valid_key clip_key" "valid_key still_key" "clip_key \<noteq> still_key"
  by (simp_all add: valid_key_def clip_key_def still_key_def make_key_def key_ascii_def scalar_ascii_def)

lemma demo_path:
  "normalize_artifact_path ''v/a.mp4'' = Inr ''v/a.mp4''" "normalize_artifact_path ''v/b.mp4'' = Inr ''v/b.mp4''"
  unfolding normalize_artifact_path_def Let_def
  by (simp_all add: posix_absolute_def windows_drive_def posix_parts_def as_posix_def
        reserved_artifact_paths_def MANIFEST_FILENAME_def LOCK_FILENAME_def str_rstrip_def space_or_dot_def)

lemma demo_inv: "manifest_inv demo_manifest"
  by (simp add: manifest_inv_def demo_manifest_def assert_unique_artifact_paths_def)

text \<open>
  C16: Storing a claim in memory refines the update of the abstract map: it is refused exactly
  when another key owns the file, up to letter case, and nothing changes then; and the store
  keeps distinct texts of valid keys with one owner per file.
\<close>

theorem memory_put_refines:
  assumes "manifest_inv m" and "valid_key k" and "memory_put m k e = (r, m')"
  defines "owned_by_other \<equiv> (\<exists>k' e'. k' \<noteq> k \<and> claim_of m k' = Some e'
      \<and> str_lower (me_artifact_path e') = str_lower (me_artifact_path e))"
  shows "manifest_inv m' \<and> (case r of
      Inl x \<Rightarrow> x = claimed_twice \<and> m' = m \<and> owned_by_other
    | Inr changed \<Rightarrow> \<not> owned_by_other \<and> claim_of m' = (claim_of m)(k \<mapsto> e) \<and> (changed \<longleftrightarrow> claim_of m k \<noteq> Some e))"
proof
  show "manifest_inv m'" by (rule inv_put [OF assms(1-3)])
  have clash: "owned_by_other \<longleftrightarrow> \<not> assert_unique_artifact_paths (dict_set (mm_entries m) (encode_key k) e)"
    unfolding owned_by_other_def using put_clash_iff [OF assms(1,2)] by blast
  have read: "claim_of m k = dict_get (mm_entries m) (encode_key k)" using assms(2) by (simp add: claim_of_def)
  from assms(3) show "case r of Inl x \<Rightarrow> x = claimed_twice \<and> m' = m \<and> owned_by_other
    | Inr changed \<Rightarrow> \<not> owned_by_other \<and> claim_of m' = (claim_of m)(k \<mapsto> e) \<and> (changed \<longleftrightarrow> claim_of m k \<noteq> Some e)"
  proof (cases rule: memory_put_cases)
    case kept
    have "set (dict_set (mm_entries m) (encode_key k) e) \<subseteq> set (mm_entries m)"
      using kept(3) assms(1) set_dict_set [of "mm_entries m" "encode_key k" e]
      by (auto simp: manifest_inv_def dest: map_of_SomeD)
    then have "\<not> owned_by_other"
      unfolding clash using assms(1) unique_paths_subset by (auto simp: manifest_inv_def)
    then show ?thesis using kept read by (simp add: fun_upd_idem)
  next
    case stored
    then show ?thesis using clash read claim_of_set [OF assms(2)] by simp
  next
    case clash
    then show ?thesis using \<open>owned_by_other \<longleftrightarrow> _\<close> by simp
  qed
qed

definition demo_entry :: manifest_entry where
  "demo_entry = \<lparr>me_artifact_path = ''v/a.mp4'', me_basis_digest = bd_digest clip_basis\<rparr>"

definition demo_claimed :: memory_manifest where
  "demo_claimed = \<lparr>mm_entries = [(encode_key clip_key, demo_entry)], mm_artifacts = [''v/a.mp4'', ''v/b.mp4'']\<rparr>"

lemma demo_put: "memory_put demo_manifest clip_key demo_entry = (Inr True, demo_claimed)"
  by (simp add: memory_put_def demo_manifest_def demo_claimed_def assert_unique_artifact_paths_def)

lemma memory_put_refines_witness:
  "claim_of demo_claimed clip_key = Some demo_entry \<and> manifest_inv demo_claimed"
  using memory_put_refines [OF demo_inv demo_keys(1) demo_put] by simp

text \<open>
  After a registration the manifest reports the artifact as current for the registered
  basis, as stale for any other basis, and as missing under any other path.
\<close>

theorem compare_after_register:
  assumes "valid_key k" and "register_descriptor_transactionally memory_adapter k path basis m = (Inr c, m')"
    and "normalize_artifact_path path' = Inr path'" and "path' \<in> set (mm_artifacts m)"
    and "prefixed_digest_ok d"
  shows "compare_entry memory_adapter k path' (Some \<lparr>me_artifact_path = path', me_basis_digest = d\<rparr>) m' =
    verdict (if path' \<noteq> path then MISSING else if d = bd_digest basis then CURRENT else STALE) path' None"
proof -
  have claim: "claim_of m' = (claim_of m)(k \<mapsto> \<lparr>me_artifact_path = path, me_basis_digest = bd_digest basis\<rparr>)"
    using memory.register_all_or_nothing [OF assms(1,2)] normalize_path_cases(4) by fastforce
  have files: "mm_artifacts m' = mm_artifacts m"
    using assms(2)
    by (auto simp: register_descriptor_transactionally_def register_descriptor_def restore_claim_def
        memory_adapter_def memory_put_def memory_delete_def Let_def split: sum.splits option.splits if_splits prod.splits)
  have "get_entry memory_adapter m' k = Inr (Some \<lparr>me_artifact_path = path, me_basis_digest = bd_digest basis\<rparr>)"
    using claim assms(1) by (simp add: memory_adapter_def memory_get_def claim_of_def fun_eq_iff) metis
  moreover have "inspect_artifact memory_adapter m' path' = \<lparr>ob_artifact_path = path', ob_present = True, ob_blocker = None\<rparr>"
    using assms(3,4) files by (simp add: memory_adapter_def memory_inspect_def)
  ultimately show ?thesis using assms(3) by (simp add: compare_entry_def Let_def)
qed

lemma demo_register:
  "register_descriptor_transactionally memory_adapter clip_key ''v/a.mp4'' clip_basis demo_manifest = (Inr True, demo_claimed)"
proof -
  have get: "get_entry memory_adapter demo_manifest clip_key = Inr None"
    by (simp add: memory_adapter_def memory_get_def demo_manifest_def)
  have seen: "inspect_artifact memory_adapter demo_manifest ''v/a.mp4''
      = \<lparr>ob_artifact_path = ''v/a.mp4'', ob_present = True, ob_blocker = None\<rparr>"
    by (simp add: memory_adapter_def memory_inspect_def demo_path demo_manifest_def)
  have "put_entry memory_adapter demo_manifest clip_key demo_entry = (Inr True, demo_claimed)"
    using demo_put by (simp add: memory_adapter_def)
  then show ?thesis
    by (simp add: register_descriptor_transactionally_def register_descriptor_def get seen demo_path demo_entry_def)
qed

lemma compare_after_register_witness:
  "compare_entry memory_adapter clip_key ''v/a.mp4''
     (Some \<lparr>me_artifact_path = ''v/a.mp4'', me_basis_digest = ''sha256-v1:'' @ replicate 64 (CHR ''b'')\<rparr>) demo_claimed
   = verdict STALE ''v/a.mp4'' None"
proof -
  have d: "prefixed_digest_ok (''sha256-v1:'' @ replicate 64 (CHR ''b''))"
    by (simp add: prefixed_digest_ok_def HASH_ALGORITHM_def content_digest_ok_def is_lower_hex_def list_all_iff)
  have "replicate 64 (CHR ''b'') \<noteq> replicate 64 (CHR ''a'')" by simp
  then show ?thesis
    using compare_after_register [OF demo_keys(1) demo_register demo_path(1) _ d]
    by (simp add: demo_manifest_def clip_basis_def)
qed

text \<open>
  C17: Whatever writes of the storage fail, before or after taking effect, a transactional
  registration or removal either takes effect or leaves every claim as it was, unless it raises
  the error that says its rollback was incomplete.
\<close>

theorem claims_change_all_or_nothing:
  assumes "valid_key k" and "r \<noteq> Inl rollback_incomplete"
  shows "(register_descriptor_transactionally (with_faults memory_adapter) k path basis (m, faults) = (r, (m', faults')) \<longrightarrow>
      (case r of
         Inl e \<Rightarrow> claim_of m' = claim_of m
       | Inr c \<Rightarrow> claim_of m' = (claim_of m)(k \<mapsto> \<lparr>me_artifact_path = path, me_basis_digest = bd_digest basis\<rparr>)))
    \<and> (forget_entry_transactionally (with_faults memory_adapter) k (m, faults) = (r, (m', faults')) \<longrightarrow>
      (case r of Inl e \<Rightarrow> claim_of m' = claim_of m | Inr c \<Rightarrow> claim_of m' = (claim_of m)(k := None)))"
  using failing.register_all_or_nothing [OF assms(1) _ assms(2), of path basis "(m, faults)" "(m', faults')"]
    failing.forget_all_or_nothing [OF assms(1) _ assms(2), of "(m, faults)" "(m', faults')"]
  by (auto split: sum.splits dest: normalize_path_cases(4))

text \<open>The write takes effect, its failure is reported, and the claim is taken back.\<close>

lemma demo_failed_register:
  "register_descriptor_transactionally (with_faults memory_adapter) clip_key ''v/a.mp4'' clip_basis
     (demo_manifest, [FailsAfter, Works]) = (Inl storage_error, (demo_manifest, []))"
proof -
  have get: "get_entry (with_faults memory_adapter) (demo_manifest, [FailsAfter, Works]) clip_key = Inr None"
    by (simp add: with_faults_def memory_adapter_def memory_get_def demo_manifest_def)
  have seen: "inspect_artifact (with_faults memory_adapter) (demo_manifest, [FailsAfter, Works]) ''v/a.mp4''
      = \<lparr>ob_artifact_path = ''v/a.mp4'', ob_present = True, ob_blocker = None\<rparr>"
    by (simp add: with_faults_def memory_adapter_def memory_inspect_def demo_path demo_manifest_def)
  have put: "put_entry (with_faults memory_adapter) (demo_manifest, [FailsAfter, Works]) clip_key demo_entry
      = (Inl storage_error, (demo_claimed, [Works]))"
    using demo_put by (simp add: with_faults_def memory_adapter_def inject_def)
  have now: "get_entry (with_faults memory_adapter) (demo_claimed, [Works]) clip_key = Inr (Some demo_entry)"
    by (simp add: with_faults_def memory_adapter_def memory_get_def demo_claimed_def)
  have del: "delete_entry (with_faults memory_adapter) (demo_claimed, [Works]) clip_key = (Inr True, (demo_manifest, []))"
    by (simp add: with_faults_def memory_adapter_def memory_delete_def demo_claimed_def demo_manifest_def
        dict_del_def inject_def)
  show ?thesis
    using put now del
    by (simp add: register_descriptor_transactionally_def register_descriptor_def restore_claim_def get seen demo_path demo_entry_def)
qed

lemma claims_change_all_or_nothing_witness:
  "\<exists>m'. register_descriptor_transactionally (with_faults memory_adapter) clip_key ''v/a.mp4'' clip_basis
       (demo_manifest, [FailsAfter, Works]) = (Inl storage_error, (m', [])) \<and> claim_of m' = claim_of demo_manifest"
proof (intro exI conjI)
  have "Inl storage_error \<noteq> (Inl rollback_incomplete :: manifest_error + bool)"
    by (simp add: storage_error_def rollback_incomplete_def)
  from claims_change_all_or_nothing [OF demo_keys(1) this, THEN conjunct1, THEN mp, OF demo_failed_register]
  show "claim_of demo_manifest = claim_of demo_manifest" unfolding sum.case .
qed (rule demo_failed_register)

text \<open>
  C18: A committed rekey moves the claim with its digest to a key that was free and changes no
  other claim; compensating it restores every claim; and a commit that fails changes nothing
  unless it says that its rollback was incomplete, whatever writes of the storage fail.
\<close>

theorem rekey_moves_and_restores:
  assumes "valid_key src" "valid_key dst" "src \<noteq> dst"
    and "plan_entry_rekey (with_faults memory_adapter) src dst path_moves (m, faults) = Inr plan"
    and "commit_rekey (with_faults memory_adapter) plan (m, faults) = (r, (m', faults'))" and "r \<noteq> Inl rollback_incomplete"
  shows "case r of
      Inl e \<Rightarrow> claim_of m' = claim_of m
    | Inr receipt \<Rightarrow>
        claim_of m dst = None \<and> claim_of m' src = None
        \<and> map_option me_basis_digest (claim_of m' dst) = map_option me_basis_digest (claim_of m src)
        \<and> (\<forall>k. k \<noteq> src \<longrightarrow> k \<noteq> dst \<longrightarrow> claim_of m' k = claim_of m k)
        \<and> (\<forall>fs b m'' fs'. compensate (with_faults memory_adapter) receipt (m', fs) = (Inr b, (m'', fs')) \<longrightarrow>
             claim_of m'' = claim_of m)"
proof -
  have sound: "failing.sound_plan plan (m, faults)" by (rule failing.plan_sound [OF assms(1,2,4)])
  obtain rws where moves: "claim_of m dst = None"
    "override_claims (claim_of m) (rk_after plan) = (claim_of m)(src := None, dst := map_option (rewritten rws) (claim_of m src))"
    using failing.plan_moves [OF assms(1-4)] by auto
  note commit = failing.commit_all_or_nothing [OF sound assms(5,6)]
  show ?thesis
  proof (cases r)
    case (Inl e)
    with commit show ?thesis by simp
  next
    case (Inr receipt)
    with commit have c: "receipt = plan" "claim_of m' = override_claims (claim_of m) (rk_after plan)" by simp_all
    have "claim_of m'' = claim_of m"
      if "compensate (with_faults memory_adapter) receipt (m', fs) = (Inr b, (m'', fs'))" for fs b m'' fs'
      using failing.compensate_restores [OF sound, of "(m', fs)" b "(m'', fs')"] that c by simp
    then show ?thesis
      using Inr c(2) moves assms(3)
      by (simp add: option.map_comp comp_def rewritten_def)
  qed
qed

definition demo_plan :: rekey_plan where
  "demo_plan = \<lparr>rk_before = [(clip_key, Some demo_entry), (still_key, None)],
     rk_after = [(clip_key, None), (still_key, Some demo_entry)], rk_changed = True\<rparr>"

definition demo_rekeyed :: memory_manifest where
  "demo_rekeyed = \<lparr>mm_entries = [(encode_key still_key, demo_entry)], mm_artifacts = [''v/a.mp4'', ''v/b.mp4'']\<rparr>"

lemma demo_texts: "encode_key clip_key \<noteq> encode_key still_key" "encode_key still_key \<noteq> encode_key clip_key"
  using valid_encode_inject demo_keys by metis+

lemma demo_target: "encode_target_entries [] [(k, demo_entry)] = Inr [(encode_key k, demo_entry)]"
  by (simp add: demo_entry_def demo_path clip_basis_def prefixed_digest_ok_def HASH_ALGORITHM_def
      content_digest_ok_def is_lower_hex_def list_all_iff)

lemma demo_replace: "memory_replace demo_claimed (rk_before demo_plan) (rk_after demo_plan) = (Inr True, demo_rekeyed)"
proof -
  have "encode_optional_entries (rk_before demo_plan) = Inr [(encode_key clip_key, Some demo_entry), (encode_key still_key, None)]"
    "encode_optional_entries (rk_after demo_plan) = Inr [(encode_key clip_key, None), (encode_key still_key, Some demo_entry)]"
    using demo_texts
    by (simp_all add: encode_optional_entries_def demo_plan_def present_claims_def demo_target del: encode_target_entries.simps)
  then show ?thesis
    using demo_texts
    by (simp add: memory_replace_def demo_claimed_def demo_rekeyed_def apply_claims_def dict_del_def same_dict_def
        assert_unique_artifact_paths_def)
qed

lemma rekey_moves_and_restores_witness:
  "\<exists>plan. plan_entry_rekey (with_faults memory_adapter) clip_key still_key [] (demo_claimed, []) = Inr plan
     \<and> commit_rekey (with_faults memory_adapter) plan (demo_claimed, []) = (Inr plan, (demo_rekeyed, []))
     \<and> map_option me_basis_digest (claim_of demo_rekeyed still_key) = Some (bd_digest clip_basis)"
proof -
  have plan: "plan_entry_rekey (with_faults memory_adapter) clip_key still_key [] (demo_claimed, []) = Inr demo_plan"
    using demo_texts demo_keys(3)
    by (simp add: plan_entry_rekey_def with_faults_def memory_adapter_def memory_get_def demo_claimed_def demo_plan_def
        rewritten_def dict_get_or_def)
  have commit: "commit_rekey (with_faults memory_adapter) demo_plan (demo_claimed, []) = (Inr demo_plan, (demo_rekeyed, []))"
    using demo_replace by (simp add: commit_rekey_def with_faults_def memory_adapter_def inject_def demo_plan_def)
  have "claim_of demo_claimed clip_key = Some demo_entry" using demo_keys by (simp add: claim_of_def demo_claimed_def)
  moreover have "map_option me_basis_digest (claim_of demo_rekeyed still_key) = map_option me_basis_digest (claim_of demo_claimed clip_key)"
    using rekey_moves_and_restores [OF demo_keys plan commit] unfolding sum.case by blast
  ultimately have "map_option me_basis_digest (claim_of demo_rekeyed still_key) = Some (bd_digest clip_basis)"
    by (simp add: demo_entry_def)
  with plan commit show ?thesis by blast
qed

end
