(* ===== verification/Artifact_Archive.thy ===== *)
theory Artifact_Archive
  imports Manifest_Props Task_Failure_Props
begin

text \<open>
  The manifest envelope of a project archive (lib/artifact_manifest.py): the claims and the
  digests of the files, as a JSON object, and its strict decoder. The payload is a dictionary of
  Python, whose keys are distinct, so the decoder's hook against duplicate fields never fires.
  An exported manifest is imported unchanged. The decoder is not total on hostile keys: a list in
  the place of a rendition variant raises the TypeError of a set lookup, which no handler names.
\<close>

definition ARCHIVE_MANIFEST_SCHEMA_VERSION :: int where
  "ARCHIVE_MANIFEST_SCHEMA_VERSION = 2"

record archive_snapshot =
  as_entries :: "(artifact_key, manifest_entry) dict"
  as_content_digests :: "(artifact_key, string) dict"

fun encode_digests :: "(string, string) dict \<Rightarrow> (artifact_key, string) dict \<Rightarrow> py_error + (string, string) dict" where
  "encode_digests acc [] = Inr acc"
| "encode_digests acc ((k, d) # ds) =
     (if content_digest_ok d then encode_digests (dict_set acc (encode_key k) d) ds
      else Inl (ValueError ''archive artifact content digest''))"

definition archive_entry :: "manifest_entry \<Rightarrow> string \<Rightarrow> pyval" where
  "archive_entry e d = PDict [(''artifact_path'', PStr (me_artifact_path e)),
     (''basis_digest'', PStr (me_basis_digest e)), (''content_digest'', PStr d)]"

definition encode_artifact_manifest_payload :: "archive_snapshot \<Rightarrow> py_error + pyval" where
  "encode_artifact_manifest_payload s =
     (case encode_target_entries [] (as_entries s) of
        Inl e \<Rightarrow> Inl e
      | Inr encoded \<Rightarrow>
          (case encode_digests [] (as_content_digests s) of
             Inl e \<Rightarrow> Inl e
           | Inr digests \<Rightarrow>
               if set (dict_keys digests) \<noteq> set (dict_keys encoded)
               then Inl (ValueError ''archive artifact content digests must cover the snapshot'')
               else Inr (PDict
                 [(''entries'', PDict (map (\<lambda>(t, e). (t, archive_entry e (dict_get_or digests t [])))
                     (sort_key fst encoded))),
                  (''hash_algorithm'', PStr HASH_ALGORITHM),
                  (''schema_version'', PInt ARCHIVE_MANIFEST_SCHEMA_VERSION)])))"

definition archive_error :: "string \<Rightarrow> manifest_error + 'a" where
  "archive_error m = Inl (ArtifactManifestError m)"

text \<open>One entry of the envelope: its key and the two digests, or the refusal.\<close>

definition decode_archive_entry :: "string \<Rightarrow> pyval \<Rightarrow> manifest_error + (artifact_key \<times> manifest_entry \<times> string)" where
  "decode_archive_entry t raw =
     (case decode_key t of
        Inl (ValueError m) \<Rightarrow> archive_error ''archive artifact manifest contains an invalid key''
      | Inl e \<Rightarrow> Inl (OtherError e)
      | Inr k \<Rightarrow>
          (case raw of
             PDict d \<Rightarrow>
               (if set (dict_keys d) \<noteq> {''artifact_path'', ''basis_digest'', ''content_digest''}
                then archive_error ''entry has an invalid schema''
                else (case dict_get d ''artifact_path'' of
                   Some (PStr p) \<Rightarrow>
                     (case normalize_artifact_path p of
                        Inl e \<Rightarrow> archive_error ''entry has an invalid path''
                      | Inr q \<Rightarrow>
                          if q \<noteq> p then archive_error ''entry path is not canonical''
                          else (case dict_get d ''basis_digest'' of
                             Some (PStr b) \<Rightarrow>
                               (if \<not> prefixed_digest_ok b then archive_error ''entry has an invalid basis digest''
                                else (case dict_get d ''content_digest'' of
                                   Some (PStr c) \<Rightarrow>
                                     (if \<not> content_digest_ok c then archive_error ''entry has an invalid content digest''
                                      else Inr (k, \<lparr>me_artifact_path = q, me_basis_digest = b\<rparr>, c))
                                 | _ \<Rightarrow> archive_error ''entry has an invalid content digest''))
                           | _ \<Rightarrow> archive_error ''entry has an invalid basis digest''))
                 | _ \<Rightarrow> archive_error ''entry has an invalid path''))
           | _ \<Rightarrow> archive_error ''entry has an invalid schema''))"

fun decode_archive_entries ::
  "archive_snapshot \<Rightarrow> (string, manifest_entry) dict \<Rightarrow> (string, pyval) dict
     \<Rightarrow> manifest_error + (archive_snapshot \<times> (string, manifest_entry) dict)" where
  "decode_archive_entries acc encoded [] = Inr (acc, encoded)"
| "decode_archive_entries acc encoded ((t, raw) # rs) =
     (case decode_archive_entry t raw of
        Inl e \<Rightarrow> Inl e
      | Inr (k, e, c) \<Rightarrow>
          decode_archive_entries
            \<lparr>as_entries = dict_set (as_entries acc) k e, as_content_digests = dict_set (as_content_digests acc) k c\<rparr>
            (dict_set encoded t e) rs)"

definition decode_artifact_manifest_payload :: "pyval \<Rightarrow> manifest_error + archive_snapshot" where
  "decode_artifact_manifest_payload payload =
     (case json_loads (json_dumps (sort_keys payload)) of
        Some (PDict decoded) \<Rightarrow>
          (if set (dict_keys decoded) \<noteq> {''entries'', ''hash_algorithm'', ''schema_version''}
           then archive_error ''invalid top-level schema''
           else if dict_get decoded ''schema_version'' \<noteq> Some (PInt ARCHIVE_MANIFEST_SCHEMA_VERSION)
           then archive_error ''unsupported schema_version''
           else if dict_get decoded ''hash_algorithm'' \<noteq> Some (PStr HASH_ALGORITHM)
           then archive_error ''unsupported hash_algorithm''
           else (case dict_get decoded ''entries'' of
              Some (PDict raw) \<Rightarrow>
                (case decode_archive_entries \<lparr>as_entries = [], as_content_digests = []\<rparr> [] raw of
                   Inl e \<Rightarrow> Inl e
                 | Inr (s, encoded) \<Rightarrow>
                     if assert_unique_artifact_paths encoded then Inr s else Inl claimed_twice)
            | _ \<Rightarrow> archive_error ''entries must be an object''))
      | Some _ \<Rightarrow> archive_error ''invalid top-level schema''
      | None \<Rightarrow> archive_error ''not valid JSON'')"

subsection \<open>Round trip\<close>

lemma encode_target_checks:
  "encode_target_entries acc es = Inr out \<Longrightarrow> (k, e) \<in> set es \<Longrightarrow>
     normalize_artifact_path (me_artifact_path e) = Inr (me_artifact_path e) \<and> prefixed_digest_ok (me_basis_digest e)"
  by (induction acc es arbitrary: out rule: encode_target_entries.induct) (auto split: sum.splits if_splits)

lemma encode_target_distinct:
  "encode_target_entries acc es = Inr out \<Longrightarrow> distinct (dict_keys acc) \<Longrightarrow> distinct (dict_keys out)"
  by (induction acc es arbitrary: out rule: encode_target_entries.induct) (auto split: sum.splits if_splits)

lemma encode_digests_get:
  "encode_digests acc ds = Inr out \<Longrightarrow> distinct (map (encode_key \<circ> fst) ds) \<Longrightarrow>
     dict_get out t = (case dict_get (map (\<lambda>c. (encode_key (fst c), snd c)) ds) t of None \<Rightarrow> dict_get acc t | Some d \<Rightarrow> Some d)
     \<and> (\<forall>(k, d) \<in> set ds. content_digest_ok d)"
proof (induction acc ds arbitrary: out rule: encode_digests.induct)
  case (2 acc k d ds)
  have "dict_get (map (\<lambda>c. (encode_key (fst c), snd c)) ds) (encode_key k) = None"
    using "2.prems"(2) by (force simp: map_of_eq_None_iff)
  with 2 show ?case by (auto split: if_splits option.splits)
qed simp

lemma archive_entry_sorted [simp]: "sort_keys (archive_entry e d) = archive_entry e d"
  by (simp add: archive_entry_def insort_key_def)

lemma decode_archive_entry_ok:
  assumes "valid_key k" and "normalize_artifact_path (me_artifact_path e) = Inr (me_artifact_path e)"
    and "prefixed_digest_ok (me_basis_digest e)" and "content_digest_ok d"
  shows "decode_archive_entry (encode_key k) (archive_entry e d) = Inr (k, e, d)"
proof -
  have "decode_key (encode_key k) = Inr k" using assms(1) decode_encode unfolding valid_key_def by blast
  then show ?thesis using assms(2-4) by (simp add: decode_archive_entry_def archive_entry_def insert_commute)
qed

lemma decode_archive_entries_ok:
  assumes "\<forall>(k, e) \<in> set es. valid_key k \<and> normalize_artifact_path (me_artifact_path e) = Inr (me_artifact_path e)
      \<and> prefixed_digest_ok (me_basis_digest e) \<and> content_digest_ok (dig k)"
    and "distinct (dict_keys (as_entries acc) @ map fst es)" "distinct (dict_keys (as_content_digests acc) @ map fst es)"
    and "distinct (dict_keys encoded @ map (encode_key \<circ> fst) es)"
  shows "decode_archive_entries acc encoded (map (\<lambda>(k, e). (encode_key k, archive_entry e (dig k))) es)
    = Inr (\<lparr>as_entries = as_entries acc @ es, as_content_digests = as_content_digests acc @ map (\<lambda>(k, e). (k, dig k)) es\<rparr>,
           encoded @ map (\<lambda>(k, e). (encode_key k, e)) es)"
  using assms
proof (induction es arbitrary: acc encoded)
  case (Cons c es)
  obtain k e where c: "c = (k, e)" by (cases c)
  have fresh: "dict_set (as_entries acc) k e = as_entries acc @ [(k, e)]"
    "dict_set (as_content_digests acc) k (dig k) = as_content_digests acc @ [(k, dig k)]"
    "dict_set encoded (encode_key k) e = encoded @ [(encode_key k, e)]"
    using Cons.prems c by (auto intro!: dict_set_fresh)
  have "decode_archive_entry (encode_key k) (archive_entry e (dig k)) = Inr (k, e, dig k)"
    using Cons.prems(1) c by (intro decode_archive_entry_ok) auto
  with c fresh Cons show ?case by simp
qed simp

lemma insort_key_map: "insort_key g (f x) (map f xs) = map f (insort_key (\<lambda>y. g (f y)) x xs)"
  by (induction xs) simp_all

lemma sort_key_map: "sort_key g (map f xs) = map f (sort_key (\<lambda>y. g (f y)) xs)"
  by (induction xs) (simp_all add: insort_key_map)

definition archived_entries :: "archive_snapshot \<Rightarrow> (artifact_key, manifest_entry) dict" where
  "archived_entries s = sort_key (\<lambda>c. encode_key (fst c)) (as_entries s)"

definition archived_digest :: "archive_snapshot \<Rightarrow> artifact_key \<Rightarrow> string" where
  "archived_digest s k = dict_get_or (as_content_digests s) k []"

text \<open>A snapshot of a manifest: dictionaries over valid keys, one owner per file.\<close>

definition snapshot_ok :: "archive_snapshot \<Rightarrow> bool" where
  "snapshot_ok s \<longleftrightarrow> distinct (dict_keys (as_entries s)) \<and> distinct (dict_keys (as_content_digests s))
     \<and> list_all valid_key (dict_keys (as_entries s)) \<and> list_all valid_key (dict_keys (as_content_digests s))
     \<and> assert_unique_artifact_paths (map (\<lambda>c. (encode_key (fst c), snd c)) (as_entries s))"

lemma distinct_encoded:
  assumes "distinct (dict_keys d)" and "list_all valid_key (dict_keys d)"
  shows "distinct (map (encode_key \<circ> fst) d)"
proof -
  have "inj_on encode_key (set (dict_keys d))"
    using assms(2) valid_encode_inject by (auto simp: inj_on_def list_all_iff)
  with assms(1) have "distinct (map encode_key (dict_keys d))" by (simp add: distinct_map del: map_map)
  then show ?thesis by simp
qed

lemma get_encoded:
  assumes "distinct (dict_keys d)" and "list_all valid_key (dict_keys d)" and "valid_key k"
  shows "dict_get (map (\<lambda>c. (encode_key (fst c), snd c)) d) (encode_key k) = dict_get d k"
  using assms(1,2)
proof (induction d)
  case (Cons c d)
  then show ?case using valid_encode_inject [OF assms(3)] by (cases c) auto
qed simp

lemma archived_facts:
  assumes "snapshot_ok s"
  shows "mset (archived_entries s) = mset (as_entries s)" and "set (archived_entries s) = set (as_entries s)"
    and "distinct (map fst (archived_entries s))" and "distinct (map (encode_key \<circ> fst) (archived_entries s))"
proof -
  show m: "mset (archived_entries s) = mset (as_entries s)" by (simp add: archived_entries_def)
  show "set (archived_entries s) = set (as_entries s)" by (simp add: archived_entries_def)
  have "mset (map f (archived_entries s)) = mset (map f (as_entries s))" for f :: "artifact_key \<times> manifest_entry \<Rightarrow> 'x"
    using m by (simp only: mset_map)
  from mset_eq_imp_distinct_iff [OF this] mset_eq_imp_distinct_iff [OF this]
  show "distinct (map fst (archived_entries s))" "distinct (map (encode_key \<circ> fst) (archived_entries s))"
    using assms distinct_encoded [of "as_entries s"] by (auto simp: snapshot_ok_def)
qed

lemma payload_entries:
  assumes ok: "snapshot_ok s" and enc: "encode_artifact_manifest_payload s = Inr p"
  shows "p = PDict [(''entries'', PDict (map (\<lambda>(k, e). (encode_key k, archive_entry e (archived_digest s k))) (archived_entries s))),
      (''hash_algorithm'', PStr HASH_ALGORITHM), (''schema_version'', PInt ARCHIVE_MANIFEST_SCHEMA_VERSION)]"
    and "\<forall>(k, e) \<in> set (archived_entries s). valid_key k \<and> normalize_artifact_path (me_artifact_path e) = Inr (me_artifact_path e)
      \<and> prefixed_digest_ok (me_basis_digest e) \<and> content_digest_ok (archived_digest s k)"
    and "set (dict_keys (as_content_digests s)) = set (dict_keys (as_entries s))"
proof -
  from enc obtain encoded digests where e: "encode_target_entries [] (as_entries s) = Inr encoded"
    "encode_digests [] (as_content_digests s) = Inr digests" "set (dict_keys digests) = set (dict_keys encoded)"
    and p: "p = PDict [(''entries'', PDict (map (\<lambda>(t, e). (t, archive_entry e (dict_get_or digests t []))) (sort_key fst encoded))),
      (''hash_algorithm'', PStr HASH_ALGORITHM), (''schema_version'', PInt ARCHIVE_MANIFEST_SCHEMA_VERSION)]"
    by (auto simp: encode_artifact_manifest_payload_def split: sum.splits if_splits)
  have encoded: "encoded = map (\<lambda>c. (encode_key (fst c), snd c)) (as_entries s)"
    using encode_target_map [OF e(1)] by simp
  have dd: "distinct (map (encode_key \<circ> fst) (as_content_digests s))"
    using ok unfolding snapshot_ok_def by (intro distinct_encoded) blast+
  note dig = encode_digests_get [OF e(2) dd]
  have get: "dict_get digests (encode_key k) = dict_get (as_content_digests s) k" if "valid_key k" for k
    using dig get_encoded [OF _ _ that, of "as_content_digests s"] ok by (auto simp: snapshot_ok_def split: option.splits)
  have valid: "valid_key k" if "(k, e) \<in> set (as_entries s)" for k e
    using ok that by (force simp: snapshot_ok_def list_all_iff)
  have "sort_key fst encoded = map (\<lambda>c. (encode_key (fst c), snd c)) (archived_entries s)"
    by (simp add: encoded sort_key_map archived_entries_def)
  moreover have "dict_get_or digests (encode_key k) [] = archived_digest s k" if "(k, e) \<in> set (archived_entries s)" for k e
    using get valid that archived_facts(2) [OF ok] by (simp add: dict_get_or_def archived_digest_def)
  ultimately show "p = PDict [(''entries'', PDict (map (\<lambda>(k, e). (encode_key k, archive_entry e (archived_digest s k))) (archived_entries s))),
      (''hash_algorithm'', PStr HASH_ALGORITHM), (''schema_version'', PInt ARCHIVE_MANIFEST_SCHEMA_VERSION)]"
    unfolding p by (auto intro!: map_cong)
  have present: "dict_get (as_content_digests s) k \<noteq> None \<longleftrightarrow> k \<in> set (dict_keys (as_entries s))" if k: "valid_key k" for k
  proof -
    have "dict_get (as_content_digests s) k \<noteq> None \<longleftrightarrow> encode_key k \<in> set (dict_keys encoded)"
      unfolding get [OF k, symmetric] e(3) [symmetric] by (simp add: map_of_eq_None_iff)
    also have "\<dots> \<longleftrightarrow> dict_get encoded (encode_key k) \<noteq> None" by (simp add: map_of_eq_None_iff)
    also have "\<dots> \<longleftrightarrow> dict_get (as_entries s) k \<noteq> None"
      using get_encoded [OF _ _ k, of "as_entries s"] ok by (simp add: encoded snapshot_ok_def)
    finally show ?thesis by (simp add: map_of_eq_None_iff)
  qed
  show "set (dict_keys (as_content_digests s)) = set (dict_keys (as_entries s))"
  proof -
    have "k \<in> set (dict_keys (as_content_digests s)) \<longleftrightarrow> k \<in> set (dict_keys (as_entries s))" for k
    proof (cases "valid_key k")
      case True
      then show ?thesis using present by (simp add: map_of_eq_None_iff)
    next
      case False
      then show ?thesis using ok by (auto simp: snapshot_ok_def list_all_iff)
    qed
    then show ?thesis by blast
  qed
  show "\<forall>(k, e) \<in> set (archived_entries s). valid_key k \<and> normalize_artifact_path (me_artifact_path e) = Inr (me_artifact_path e)
      \<and> prefixed_digest_ok (me_basis_digest e) \<and> content_digest_ok (archived_digest s k)"
  proof clarify
    fix k e
    assume "(k, e) \<in> set (archived_entries s)"
    then have mem: "(k, e) \<in> set (as_entries s)" using archived_facts(2) [OF ok] by simp
    have "k \<in> set (dict_keys (as_entries s))" using mem by force
    then obtain d where d: "dict_get (as_content_digests s) k = Some d" using present [OF valid [OF mem]] by auto
    then have "(k, d) \<in> set (as_content_digests s)" by (rule map_of_SomeD)
    then have "content_digest_ok (archived_digest s k)" using dig d by (auto simp: archived_digest_def dict_get_or_def)
    then show "valid_key k \<and> normalize_artifact_path (me_artifact_path e) = Inr (me_artifact_path e)
      \<and> prefixed_digest_ok (me_basis_digest e) \<and> content_digest_ok (archived_digest s k)"
      using valid [OF mem] encode_target_checks [OF e(1) mem] by simp
  qed
qed

lemma payload_json:
  assumes ok: "snapshot_ok s" and enc: "encode_artifact_manifest_payload s = Inr p"
  shows "json_loads (json_dumps (sort_keys p)) = Some p"
proof -
  let ?xs = "map (\<lambda>(k, e). (encode_key k, archive_entry e (archived_digest s k))) (archived_entries s)"
  have p: "p = PDict [(''entries'', PDict ?xs), (''hash_algorithm'', PStr HASH_ALGORITHM),
      (''schema_version'', PInt ARCHIVE_MANIFEST_SCHEMA_VERSION)]" using payload_entries(1) [OF assms] .
  have keys: "map fst ?xs = map (encode_key \<circ> fst) (archived_entries s)" by auto
  have "sorted (map (encode_key \<circ> fst) (archived_entries s))" by (simp add: archived_entries_def comp_def)
  then have "sort_key fst ?xs = ?xs" using keys by (intro sort_key_id_if_sorted) (simp only:)
  moreover have "map (\<lambda>kv. (fst kv, sort_keys (snd kv))) ?xs = ?xs" by (auto intro!: map_idI)
  ultimately have "sort_keys (PDict ?xs) = PDict ?xs" by (simp del: map_map)
  then have "sort_keys p = p" unfolding p by (simp del: map_map add: insort_key_def)
  moreover have "json_ok p"
    unfolding p using archived_facts(4) [OF ok] keys
    by (auto simp: list_all_iff archive_entry_def simp del: map_map)
  ultimately show ?thesis by (simp add: json_loads_dumps)
qed

lemma dict_image:
  assumes "distinct (dict_keys d)"
  shows "set d = (\<lambda>k. (k, dict_get_or d k v)) ` set (dict_keys d)"
proof -
  have "dict_get_or d (fst c) v = snd c" if "c \<in> set d" for c
    using assms that by (cases c) (simp add: dict_get_or_def)
  then have "(\<lambda>k. (k, dict_get_or d k v)) ` fst ` set d = id ` set d"
    unfolding image_image by (intro image_cong) auto
  then show ?thesis by simp
qed

text \<open>
  C19: An archived manifest is imported as it was exported: the decoder accepts every payload of
  the encoder and returns the same claims and the same file digests.
\<close>

theorem archive_roundtrip:
  assumes "snapshot_ok s" and "encode_artifact_manifest_payload s = Inr p"
  shows "\<exists>s'. decode_artifact_manifest_payload p = Inr s' \<and> dict_get (as_entries s') = dict_get (as_entries s)
    \<and> dict_get (as_content_digests s') = dict_get (as_content_digests s)"
proof -
  let ?es = "archived_entries s" and ?d = "archived_digest s"
  let ?s' = "\<lparr>as_entries = ?es, as_content_digests = map (\<lambda>(k, e). (k, ?d k)) ?es\<rparr>"
  note facts = archived_facts [OF assms(1)] and payload = payload_entries [OF assms]
  have entries: "decode_archive_entries \<lparr>as_entries = [], as_content_digests = []\<rparr> []
      (map (\<lambda>(k, e). (encode_key k, archive_entry e (?d k))) ?es) = Inr (?s', map (\<lambda>(k, e). (encode_key k, e)) ?es)"
    using decode_archive_entries_ok [OF payload(2), of "\<lparr>as_entries = [], as_content_digests = []\<rparr>" "[]"] facts
    by simp
  have "assert_unique_artifact_paths (map (\<lambda>(k, e). (encode_key k, e)) ?es)"
  proof (rule unique_paths_subset)
    show "assert_unique_artifact_paths (map (\<lambda>c. (encode_key (fst c), snd c)) (as_entries s))"
      using assms(1) unfolding snapshot_ok_def by blast
    show "set (map (\<lambda>(k, e). (encode_key k, e)) ?es) \<subseteq> set (map (\<lambda>c. (encode_key (fst c), snd c)) (as_entries s))"
      by (simp add: facts(2) case_prod_beta')
  qed
  then have "decode_artifact_manifest_payload p = Inr ?s'"
    unfolding decode_artifact_manifest_payload_def payload_json [OF assms] option.case
    unfolding payload(1) using entries by (simp add: insert_commute)
  moreover have "dict_get ?es = dict_get (as_entries s)"
    using facts assms(1) by (intro map_of_inject_set [THEN iffD2]) (auto simp: snapshot_ok_def)
  moreover have "dict_get (map (\<lambda>(k, e). (k, ?d k)) ?es) = dict_get (as_content_digests s)"
  proof (rule map_of_inject_set [THEN iffD2])
    have keys: "map fst (map (\<lambda>(k, e). (k, ?d k)) ?es) = map fst ?es" by auto
    show "distinct (dict_keys (map (\<lambda>(k, e). (k, ?d k)) ?es))" unfolding keys by (rule facts(3))
    show dist: "distinct (dict_keys (as_content_digests s))" using assms(1) by (simp add: snapshot_ok_def)
    have "set (as_content_digests s) = (\<lambda>k. (k, ?d k)) ` set (dict_keys (as_content_digests s))"
      unfolding archived_digest_def by (rule dict_image [OF dist])
    also have "\<dots> = set (map (\<lambda>(k, e). (k, ?d k)) ?es)"
      using facts(2) by (simp only: payload(3)) (simp add: image_image case_prod_beta')
    finally show "set (map (\<lambda>(k, e). (k, ?d k)) ?es) = set (as_content_digests s)" by simp
  qed
  ultimately show ?thesis by auto
qed

definition demo_snapshot :: archive_snapshot where
  "demo_snapshot = \<lparr>as_entries = [(clip_key, demo_entry)], as_content_digests = [(clip_key, replicate 64 (CHR ''c''))]\<rparr>"

lemma archive_roundtrip_witness:
  "\<exists>p s'. encode_artifact_manifest_payload demo_snapshot = Inr p \<and> decode_artifact_manifest_payload p = Inr s'
     \<and> dict_get (as_entries s') clip_key = Some demo_entry"
proof -
  have ok: "snapshot_ok demo_snapshot"
    using demo_keys by (simp add: snapshot_ok_def demo_snapshot_def assert_unique_artifact_paths_def)
  have "content_digest_ok (replicate 64 (CHR ''c''))" by (simp add: content_digest_ok_def is_lower_hex_def list_all_iff)
  then have "\<exists>p. encode_artifact_manifest_payload demo_snapshot = Inr p"
    by (simp add: encode_artifact_manifest_payload_def demo_snapshot_def demo_target del: encode_target_entries.simps)
  then obtain p where p: "encode_artifact_manifest_payload demo_snapshot = Inr p" ..
  from archive_roundtrip [OF ok p] p show ?thesis by (auto simp: demo_snapshot_def)
qed

subsection \<open>A key the decoder does not refuse cleanly\<close>

definition hostile_json :: string where
  "hostile_json = ''[\"episode-subtitle\",1,\"E1\",[]]''"

definition hostile_key :: string where
  "hostile_key = key_prefix @ str_rstrip (\<lambda>c. c = CHR ''='') (b64encode hostile_json)"

lemma hostile_key_raises: "decode_key hostile_key = Inl (TypeError ''unhashable'')"
proof -
  have "json_loads hostile_json = Some (PList [PStr ''episode-subtitle'', PInt 1, PStr ''E1'', PList []])"
    by code_simp
  moreover have "is_ascii hostile_json" by (simp add: hostile_json_def)
  moreover have "from_parts ''episode-subtitle'' [PInt 1, PStr ''E1'', PList []] = Inl (TypeError ''unhashable'')"
    by (simp add: from_parts_def kind_values_def make_key_def)
  ultimately show ?thesis
    unfolding decode_key_def by (subst hostile_key_def) (simp add: b64_strip_pad)
qed

text \<open>
  An envelope with a list in the place of a rendition variant makes the decoder raise a
  TypeError, although its other refusals are all manifest errors.
\<close>

theorem archive_decode_leaks_type_error:
  "decode_artifact_manifest_payload
     (PDict [(''entries'', PDict [(hostile_key, PDict [])]), (''hash_algorithm'', PStr HASH_ALGORITHM),
        (''schema_version'', PInt ARCHIVE_MANIFEST_SCHEMA_VERSION)])
   = Inl (OtherError (TypeError ''unhashable''))"
proof -
  let ?p = "PDict [(''entries'', PDict [(hostile_key, PDict [])]), (''hash_algorithm'', PStr HASH_ALGORITHM),
        (''schema_version'', PInt ARCHIVE_MANIFEST_SCHEMA_VERSION)]"
  have "sort_keys ?p = ?p" by (simp add: insort_key_def)
  then have "json_loads (json_dumps (sort_keys ?p)) = Some ?p" by (simp add: json_loads_dumps del: json_dumps.simps)
  then show ?thesis
    unfolding decode_artifact_manifest_payload_def
    by (simp add: decode_archive_entry_def hostile_key_raises insert_commute)
qed

end
