(* ===== verification/Generation_Result.thy ===== *)
theory Generation_Result
  imports Artifact_Manifest Task_Failure
begin

text \<open>
  The selection and result contract every generation entry point shares
  (lib/generation_result.py): per-unit problems with a closed next action, the batch result and
  its validation, the resolution of a target set against the artifact manifest, and the builder
  that accumulates outcomes. The messages for the user are in Chinese in the code; here they are
  a constructor with the values they interpolate. The currency resolver is the argument the code
  receives; reading a persisted problem is done by the validation library, an argument too.
\<close>

subsection \<open>Vocabulary\<close>

datatype selection_mode = EXPLICIT | MISSING_ONLY

datatype item_state = ITEM_SUCCEEDED | ITEM_FAILED | ITEM_BLOCKED

datatype task_state = NOT_QUEUED | TASK_SUCCEEDED | TASK_FAILED | TASK_CANCELLED | TASK_INTERRUPTED

datatype generation_action =
    RETRY | FIX_INPUT | GENERATE_DEPENDENCY | GENERATE_TTS | REGENERATE_TTS | WAIT_FOR_TASK
  | REPLAN_UNIT | CONFIRM_REQUEST_DURATION | CONFIGURE_PROVIDER | REPAIR_ARTIFACT_STATE
  | RETRY_PROJECT_MIGRATION | NO_ACTION

definition PROJECT_MIGRATION_FAILED :: string where "PROJECT_MIGRATION_FAILED = ''project_migration_failed''"
definition UNIT_NOT_FOUND :: string where "UNIT_NOT_FOUND = ''generation_unit_not_found''"
definition ARTIFACT_STATE_UNAVAILABLE :: string where
  "ARTIFACT_STATE_UNAVAILABLE = ''generation_artifact_state_unavailable''"
definition ENQUEUE_FAILED :: string where "ENQUEUE_FAILED = ''generation_enqueue_failed''"
definition ENQUEUE_INTERRUPTED :: string where "ENQUEUE_INTERRUPTED = ''generation_enqueue_interrupted''"
definition BATCH_ADMISSION_WITHHELD :: string where
  "BATCH_ADMISSION_WITHHELD = ''generation_batch_admission_withheld''"
definition CODE_TASK_FAILED :: string where "CODE_TASK_FAILED = ''generation_task_failed''"
definition CODE_TASK_CANCELLED :: string where "CODE_TASK_CANCELLED = ''generation_task_cancelled''"
definition CODE_TASK_INTERRUPTED :: string where "CODE_TASK_INTERRUPTED = ''generation_task_interrupted''"

definition TASK_FAILURE_ACTIONS :: "(string, generation_action) dict" where
  "TASK_FAILURE_ACTIONS =
     [(''needs_replan'', REPLAN_UNIT),
      (''tts_missing'', GENERATE_TTS),
      (''tts_stale'', REGENERATE_TTS),
      (''tts_generating'', WAIT_FOR_TASK),
      (''tts_not_applicable'', FIX_INPUT),
      (''tts_not_configured'', CONFIGURE_PROVIDER),
      (''tts_state_unavailable'', REPAIR_ARTIFACT_STATE),
      (''tts_duration_unavailable'', REGENERATE_TTS),
      (''tts_conflicts_with_active_narrated_video'', WAIT_FOR_TASK),
      (''reference_duration_confirmation_required'', CONFIRM_REQUEST_DURATION),
      (''reference_asset_missing'', GENERATE_DEPENDENCY),
      (''reference_capability_unavailable'', CONFIGURE_PROVIDER),
      (''reference_capability_changed'', CONFIGURE_PROVIDER),
      (''reference_supported_durations_missing'', CONFIGURE_PROVIDER),
      (''reference_supported_durations_invalid'', CONFIGURE_PROVIDER),
      (''reference_supported_durations_incompatible'', CONFIGURE_PROVIDER),
      (''video_audio_switch_not_supported'', CONFIGURE_PROVIDER),
      (''video_capability_missing_i2v'', CONFIGURE_PROVIDER),
      (''video_capability_missing_r2v'', CONFIGURE_PROVIDER),
      (''video_capability_missing_t2v'', CONFIGURE_PROVIDER),
      (''video_capability_reference_unavailable'', CONFIGURE_PROVIDER),
      (''image_capability_missing_i2i'', CONFIGURE_PROVIDER),
      (''image_capability_missing_t2i'', CONFIGURE_PROVIDER),
      (''image_endpoint_mismatch_no_i2i'', CONFIGURE_PROVIDER),
      (''image_endpoint_mismatch_no_t2i'', CONFIGURE_PROVIDER),
      (''provider_unsupported_media'', CONFIGURE_PROVIDER),
      (''execution_identity_unrecoverable'', RETRY),
      (''video_shorter_than_tts'', RETRY),
      (''script_edit_error'', FIX_INPUT),
      (''script_edit_items_not_list'', FIX_INPUT),
      (''script_edit_unit_lists_invalid'', FIX_INPUT),
      (''script_edit_generated_assets_invalid'', FIX_INPUT),
      (''image_dashscope_4k_t2i_only'', CONFIGURE_PROVIDER),
      (''video_duration_unavailable'', CONFIGURE_PROVIDER),
      (''video_supported_durations_missing'', CONFIGURE_PROVIDER),
      (''video_last_frame_requires_pro'', CONFIGURE_PROVIDER),
      (''video_last_frame_unsupported'', CONFIGURE_PROVIDER),
      (''video_reference_images_unsupported'', CONFIGURE_PROVIDER),
      (''video_reference_images_with_frames_unsupported'', CONFIGURE_PROVIDER),
      (''video_reference_audio_unsupported'', CONFIGURE_PROVIDER),
      (''ref_payload_floor_exceeded'', FIX_INPUT),
      (''video_duration_invalid'', FIX_INPUT),
      (''video_duration_not_supported'', FIX_INPUT),
      (''video_end_image_requires_start_image'', FIX_INPUT),
      (''video_prompt_too_long'', FIX_INPUT),
      (''video_resolution_duration_unsupported'', FIX_INPUT),
      (''video_reference_images_duration_unsupported'', FIX_INPUT),
      (''video_reference_images_exceeded'', FIX_INPUT),
      (''video_reference_audio_duration_exceeded'', FIX_INPUT),
      (''video_reference_audio_exceeded'', FIX_INPUT),
      (''video_reference_audio_format_unsupported'', FIX_INPUT),
      (''video_reference_audio_slots_insufficient'', FIX_INPUT),
      (''cascade_blocked_dependency'', GENERATE_DEPENDENCY),
      (''image_reference_images_unreadable'', GENERATE_DEPENDENCY),
      (''video_start_image_unreadable'', GENERATE_DEPENDENCY),
      (''video_end_image_unreadable'', GENERATE_DEPENDENCY),
      (''video_reference_images_required'', GENERATE_DEPENDENCY),
      (''video_reference_images_unreadable'', GENERATE_DEPENDENCY),
      (''video_reference_audio_unreadable'', GENERATE_DEPENDENCY),
      (''dispatch_provider_requeue_failed'', RETRY),
      (''restart_lost_image'', RETRY),
      (''restart_lost_audio'', RETRY),
      (''restart_lost_text'', RETRY),
      (''restart_lost_no_job_id'', RETRY),
      (''restart_lost_resume_no_job_id'', RETRY),
      (''restart_lost_checkpoint_no_job_id'', RETRY),
      (''resume_unsupported_provider'', RETRY),
      (''resume_unsupported_capacity_zero'', RETRY),
      (''resume_unsupported_detail'', RETRY),
      (''resume_expired_detail'', RETRY),
      (''resume_endpoint_changed_detail'', RETRY)]"

text \<open>\<open>Withheld ids\<close> is the message that names the units that held a batch back.\<close>

datatype detail_text = Detail string | Withheld "string list"

record generation_problem =
  gp_code :: string
  gp_detail :: detail_text
  gp_action :: generation_action
  gp_params :: "(string, pyval) dict"

subsection \<open>Persisted problems\<close>

definition PERSISTED_GENERATION_PROBLEM_PREFIX :: string where
  "PERSISTED_GENERATION_PROBLEM_PREFIX = ''generation_problem:''"

definition encode_generation_problem :: "(generation_problem \<Rightarrow> string) \<Rightarrow> generation_problem \<Rightarrow> string" where
  "encode_generation_problem dump p = PERSISTED_GENERATION_PROBLEM_PREFIX @ dump p"

definition persisted_generation_problem ::
  "(string \<Rightarrow> generation_problem option) \<Rightarrow> string option \<Rightarrow> generation_problem option" where
  "persisted_generation_problem load msg =
     (case msg of
        None \<Rightarrow> None
      | Some s \<Rightarrow> (case strip_prefix PERSISTED_GENERATION_PROBLEM_PREFIX s of None \<Rightarrow> None | Some body \<Rightarrow> load body))"

record migration_failure_detail =
  mf_episode :: "int option"
  mf_file :: "string option"
  mf_violation :: string

record migration_failure_record =
  mr_schema_version :: int
  mr_failed_at :: string
  mr_reason :: string
  mr_details :: "migration_failure_detail list"

definition detail_dump :: "migration_failure_detail \<Rightarrow> pyval" where
  "detail_dump d = PDict
     [(''episode'', case mf_episode d of None \<Rightarrow> PNone | Some e \<Rightarrow> PInt e),
      (''file'', case mf_file d of None \<Rightarrow> PNone | Some f \<Rightarrow> PStr f), (''violation'', PStr (mf_violation d))]"

definition migration_problem :: "migration_failure_record \<Rightarrow> generation_problem" where
  "migration_problem r =
     \<lparr>gp_code = PROJECT_MIGRATION_FAILED, gp_detail = Detail (mr_reason r), gp_action = RETRY_PROJECT_MIGRATION,
      gp_params = [(''schema_version'', PInt (mr_schema_version r)), (''failed_at'', PStr (mr_failed_at r)),
                   (''details'', PList (map detail_dump (mr_details r)))]\<rparr>"

subsection \<open>Results and their validation\<close>

record provider_checkpoint =
  pc_submitted :: bool
  pc_provider_id :: "string option"
  pc_provider_job_id :: "string option"

record item_result =
  ir_unit_id :: string
  ir_state :: item_state
  ir_artifact_key :: "string option"
  ir_artifact_path :: "string option"
  ir_task_id :: "string option"
  ir_task_state :: task_state
  ir_artifact_status :: "artifact_status option"
  ir_provider_checkpoint :: "provider_checkpoint option"
  ir_problem :: "generation_problem option"

definition item_ok :: "item_result \<Rightarrow> bool" where
  "item_ok i \<longleftrightarrow> (if ir_state i = ITEM_SUCCEEDED then ir_problem i = None else ir_problem i \<noteq> None)"

definition make_item :: "item_result \<Rightarrow> py_error + item_result" where
  "make_item i = (if item_ok i then Inr i else Inl (ValueError ''problem does not match state''))"

record skipped_item =
  sk_unit_id :: string
  sk_artifact_key :: "string option"
  sk_artifact_path :: "string option"
  sk_artifact_status :: "artifact_status option"

record batch_result =
  br_operation :: string
  br_selection :: selection_mode
  br_requested :: "string list"
  br_succeeded :: "string list"
  br_failed :: "string list"
  br_blocked :: "string list"
  br_skipped :: "skipped_item list"
  br_items :: "item_result list"

fun bucket_of :: "batch_result \<Rightarrow> item_state \<Rightarrow> string list" where
  "bucket_of r ITEM_SUCCEEDED = br_succeeded r"
| "bucket_of r ITEM_FAILED = br_failed r"
| "bucket_of r ITEM_BLOCKED = br_blocked r"

definition make_batch_result :: "batch_result \<Rightarrow> py_error + batch_result" where
  "make_batch_result r =
     (let union = br_succeeded r @ br_failed r @ br_blocked r;
          item_ids = map ir_unit_id (br_items r);
          skipped_ids = map sk_unit_id (br_skipped r)
      in if \<not> distinct (br_succeeded r) \<or> \<not> distinct (br_failed r) \<or> \<not> distinct (br_blocked r)
         then Inl (ValueError ''duplicate ids'')
         else if \<not> distinct union then Inl (ValueError ''succeeded / failed / blocked must be mutually exclusive'')
         else if sort union \<noteq> sort (remdups (br_requested r)) \<or> \<not> distinct (br_requested r)
         then Inl (ValueError ''requested must equal the union'')
         else if sort item_ids \<noteq> sort (br_requested r) then Inl (ValueError ''items must cover the requested ids'')
         else if \<exists>i \<in> set (br_items r). ir_unit_id i \<notin> set (bucket_of r (ir_state i))
         then Inl (ValueError ''item state does not match its bucket'')
         else if \<not> distinct skipped_ids then Inl (ValueError ''duplicate ids in skipped'')
         else if set skipped_ids \<inter> set (br_requested r) \<noteq> {}
         then Inl (ValueError ''skipped ids must not appear in requested'')
         else Inr r)"

definition batch_ok :: "batch_result \<Rightarrow> bool" where
  "batch_ok r \<longleftrightarrow> br_failed r = [] \<and> br_blocked r = []"

subsection \<open>Selection\<close>

record generation_candidate =
  gc_unit_id :: string
  gc_artifact_key :: "artifact_key option"
  gc_artifact_path :: "string option"

record target_state =
  ts_candidate :: generation_candidate
  ts_status :: "artifact_status option"
  ts_blocker :: "artifact_blocker option"

abbreviation ts_unit_id :: "target_state \<Rightarrow> string" where
  "ts_unit_id t \<equiv> gc_unit_id (ts_candidate t)"

record generation_selection =
  gs_mode :: selection_mode
  gs_targets :: "target_state list"
  gs_skipped :: "target_state list"
  gs_unavailable :: "target_state list"
  gs_unmatched_ids :: "string list"

type_synonym resolver = "artifact_key \<Rightarrow> string \<Rightarrow> manifest_error + artifact_comparison"

fun currency_unavailable :: "string \<Rightarrow> manifest_error \<Rightarrow> py_error + (artifact_status option \<times> artifact_blocker option)" where
  "currency_unavailable path (OtherError (KeyError m)) = Inl (KeyError m)"
| "currency_unavailable path (OtherError (IntegrityError m)) = Inl (IntegrityError m)"
| "currency_unavailable path (OtherError (AttributeError m)) = Inl (AttributeError m)"
| "currency_unavailable path (OtherError (AssertionError m)) = Inl (AssertionError m)"
| "currency_unavailable path (OtherError (ZeroDivisionError m)) = Inl (ZeroDivisionError m)"
| "currency_unavailable path (OtherError (IndexError m)) = Inl (IndexError m)"
| "currency_unavailable path e =
     Inr (Some BLOCKED, Some \<lparr>ab_code = ''artifact_currency_unavailable'', ab_path = path, ab_detail = ''unavailable''\<rparr>)"

definition observe_artifact_status ::
  "resolver \<Rightarrow> artifact_key option \<Rightarrow> string option \<Rightarrow> py_error + (artifact_status option \<times> artifact_blocker option)" where
  "observe_artifact_status resolve key path =
     (case path of
        None \<Rightarrow> Inr (Some MISSING, None)
      | Some p \<Rightarrow>
          if p = [] then Inr (Some MISSING, None)
          else
            (case key of
               None \<Rightarrow> Inr (None, None)
             | Some k \<Rightarrow>
                 (case resolve k p of
                    Inl e \<Rightarrow> currency_unavailable p e
                  | Inr c \<Rightarrow> Inr (Some (cmp_status c), cmp_blocker c))))"

definition artifact_is_reusable :: "target_state \<Rightarrow> bool" where
  "artifact_is_reusable t \<longleftrightarrow> ts_status t = Some CURRENT \<or> ts_status t = Some STALE"

text \<open>\<open>str(value)\<close> of a JSON value; the representation of a string inside a list is quoted.\<close>

definition repr_char :: "char \<Rightarrow> char \<Rightarrow> string" where
  "repr_char q c =
     (if c = CHR 0x5C then [CHR 0x5C, CHR 0x5C]
      else if c = q then [CHR 0x5C, q]
      else if c = CHR 0x0A then [CHR 0x5C, CHR ''n'']
      else if c = CHR 0x0D then [CHR 0x5C, CHR ''r'']
      else if c = CHR 0x09 then [CHR 0x5C, CHR ''t'']
      else if (of_char c :: nat) < 32 \<or> (of_char c :: nat) = 127
        then [CHR 0x5C, CHR ''x'', hex_char (of_char c div 16), hex_char (of_char c mod 16)]
      else [c])"

definition repr_str :: "string \<Rightarrow> string" where
  "repr_str s =
     (let q = (if CHR 0x27 \<in> set s \<and> CHR 0x22 \<notin> set s then CHR 0x22 else CHR 0x27)
      in q # concat (map (repr_char q) s) @ [q])"

fun py_repr :: "pyval \<Rightarrow> string" where
  "py_repr PNone = ''None''"
| "py_repr (PBool b) = (if b then ''True'' else ''False'')"
| "py_repr (PInt i) = int_str i"
| "py_repr (PFloat t) = t"
| "py_repr (PStr s) = repr_str s"
| "py_repr (PList vs) = ''['' @ join_with '', '' (map py_repr vs) @ '']''"
| "py_repr (PDict kvs) = ''{'' @ join_with '', '' (map (\<lambda>kv. repr_str (fst kv) @ '': '' @ py_repr (snd kv)) kvs) @ ''}''"

fun id_text :: "pyval \<Rightarrow> string" where
  "id_text (PStr s) = s"
| "id_text v = py_repr v"

definition normalize_requested_ids :: "pyval \<Rightarrow> py_error + string list option" where
  "normalize_requested_ids raw =
     (case raw of
        PNone \<Rightarrow> Inr None
      | PList vs \<Rightarrow> (if vs = [] then Inl (ValueError ''empty id list'') else Inr (Some (fromkeys (map id_text vs))))
      | _ \<Rightarrow> Inl (ValueError ''ids must be an array''))"

fun observe_all :: "resolver \<Rightarrow> generation_candidate list \<Rightarrow> py_error + target_state list" where
  "observe_all resolve [] = Inr []"
| "observe_all resolve (c # cs) =
     (case observe_artifact_status resolve (gc_artifact_key c) (gc_artifact_path c) of
        Inl e \<Rightarrow> Inl e
      | Inr (st, b) \<Rightarrow>
          (case observe_all resolve cs of
             Inl e \<Rightarrow> Inl e
           | Inr ts \<Rightarrow> Inr (\<lparr>ts_candidate = c, ts_status = st, ts_blocker = b\<rparr> # ts)))"

fun sort_states ::
  "(generation_candidate \<Rightarrow> bool) option \<Rightarrow> target_state list \<Rightarrow> generation_selection \<Rightarrow> generation_selection" where
  "sort_states override [] sel = sel"
| "sort_states override (t # ts) sel =
     (if ts_unit_id t = [] then sort_states override ts sel
      else if ts_status t = Some BLOCKED then sort_states override ts (sel\<lparr>gs_unavailable := gs_unavailable sel @ [t]\<rparr>)
      else
        (let reusable = (if \<not> artifact_is_reusable t
               then (case override of None \<Rightarrow> False | Some f \<Rightarrow> f (ts_candidate t)) else True)
         in if reusable then sort_states override ts (sel\<lparr>gs_skipped := gs_skipped sel @ [t]\<rparr>)
            else sort_states override ts (sel\<lparr>gs_targets := gs_targets sel @ [t]\<rparr>)))"

definition empty_selection :: "selection_mode \<Rightarrow> generation_selection" where
  "empty_selection mode =
     \<lparr>gs_mode = mode, gs_targets = [], gs_skipped = [], gs_unavailable = [], gs_unmatched_ids = []\<rparr>"

definition select_generation_targets ::
  "resolver \<Rightarrow> (generation_candidate \<Rightarrow> bool) option \<Rightarrow> generation_candidate list \<Rightarrow> string list option
     \<Rightarrow> py_error + generation_selection" where
  "select_generation_targets resolve override candidates requested_ids =
     (if requested_ids = Some [] then Inl (ValueError ''explicit id set must not be empty'')
      else
        (case observe_all resolve candidates of
           Inl e \<Rightarrow> Inl e
         | Inr states \<Rightarrow>
             (case requested_ids of
                Some ids \<Rightarrow>
                  (let wanted = fromkeys ids;
                       by_id = foldl (\<lambda>d t. dict_set d (ts_unit_id t) t) [] (filter (\<lambda>t. ts_unit_id t \<noteq> []) states)
                   in Inr ((empty_selection EXPLICIT)
                        \<lparr>gs_targets := List.map_filter (dict_get by_id) wanted,
                         gs_unmatched_ids := filter (\<lambda>u. dict_get by_id u = None) wanted\<rparr>))
              | None \<Rightarrow> Inr (sort_states override states (empty_selection MISSING_ONLY)))))"

subsection \<open>Problems\<close>

definition plain_problem :: "string \<Rightarrow> string \<Rightarrow> generation_action \<Rightarrow> generation_problem" where
  "plain_problem code detail action = \<lparr>gp_code = code, gp_detail = Detail detail, gp_action = action, gp_params = []\<rparr>"

definition problem_from_task_failure ::
  "(string \<Rightarrow> generation_problem option) \<Rightarrow> string option \<Rightarrow> bool \<Rightarrow> bool \<Rightarrow> generation_problem" where
  "problem_from_task_failure load msg cancelled interrupted =
     (if cancelled then plain_problem CODE_TASK_CANCELLED (or_str msg ''task cancelled'') RETRY
      else if interrupted
      then plain_problem CODE_TASK_INTERRUPTED
             (or_str msg ''wait for task was interrupted before it reached a terminal state'') WAIT_FOR_TASK
      else
        (case persisted_generation_problem load msg of
           Some p \<Rightarrow> p
         | None \<Rightarrow>
             (case parse_failure msg of
                None \<Rightarrow> plain_problem CODE_TASK_FAILED (or_str msg ''task failed'') RETRY
              | Some (code, params) \<Rightarrow>
                  \<lparr>gp_code = code, gp_detail = Detail (or_str msg code),
                   gp_action = dict_get_or TASK_FAILURE_ACTIONS code RETRY, gp_params = params\<rparr>)))"

definition enqueue_problem :: "string option \<Rightarrow> bool \<Rightarrow> generation_problem" where
  "enqueue_problem detail interrupted =
     (if interrupted
      then plain_problem ENQUEUE_INTERRUPTED
             (or_str detail ''batch enqueue was interrupted before this target was queued'') RETRY
      else plain_problem ENQUEUE_FAILED (or_str detail ''enqueue failed'') RETRY)"

definition artifact_state_problem :: "target_state \<Rightarrow> generation_problem" where
  "artifact_state_problem t =
     \<lparr>gp_code = ARTIFACT_STATE_UNAVAILABLE,
      gp_detail = Detail (case ts_blocker t of None \<Rightarrow> ''artifact state is unavailable'' | Some b \<Rightarrow> ab_detail b),
      gp_action = REPAIR_ARTIFACT_STATE,
      gp_params = (case ts_blocker t of None \<Rightarrow> [] | Some b \<Rightarrow> [(''blocker_code'', PStr (ab_code b))])\<rparr>"

text \<open>Truthiness of a value of a task row, and the string it holds when it holds one.\<close>

fun pv_truthy :: "pyval \<Rightarrow> bool" where
  "pv_truthy PNone = False"
| "pv_truthy (PBool b) = b"
| "pv_truthy (PInt i) = (i \<noteq> 0)"
| "pv_truthy (PFloat t) = (list_ex (\<lambda>c. CHR ''1'' \<le> c \<and> c \<le> CHR ''9'') (takeWhile (\<lambda>c. c \<noteq> CHR ''e'' \<and> c \<noteq> CHR ''E'') t)
     \<or> t \<in> {''NaN'', ''Infinity'', ''-Infinity''})"
| "pv_truthy (PStr s) = (s \<noteq> [])"
| "pv_truthy (PList vs) = (vs \<noteq> [])"
| "pv_truthy (PDict d) = (d \<noteq> [])"

fun pv_str :: "pyval \<Rightarrow> string option" where
  "pv_str (PStr s) = Some s"
| "pv_str v = None"

definition row_get :: "(string, pyval) dict \<Rightarrow> string \<Rightarrow> pyval" where
  "row_get row k = dict_get_or row k PNone"

definition provider_checkpoint_from_task :: "(string, pyval) dict option \<Rightarrow> provider_checkpoint option" where
  "provider_checkpoint_from_task row =
     (case row of
        None \<Rightarrow> None
      | Some t \<Rightarrow>
          (let job = row_get t ''provider_job_id''; prov = row_get t ''provider_id''; submitted = pv_truthy job
           in if \<not> submitted \<and> prov = PNone \<and> \<not> pv_truthy (row_get t ''execution_checkpoint_json'') then None
              else Some \<lparr>pc_submitted = submitted, pc_provider_id = pv_str prov, pc_provider_job_id = pv_str job\<rparr>))"

subsection \<open>The builder\<close>

record result_builder =
  rb_operation :: string
  rb_selection :: selection_mode
  rb_items :: "item_result list"
  rb_skipped :: "skipped_item list"
  rb_seen :: "string list"

definition new_builder :: "string \<Rightarrow> selection_mode \<Rightarrow> result_builder" where
  "new_builder op mode = \<lparr>rb_operation = op, rb_selection = mode, rb_items = [], rb_skipped = [], rb_seen = []\<rparr>"

definition already_recorded :: "py_error + result_builder" where
  "already_recorded = Inl (ValueError ''unit already recorded'')"

definition skip_unit :: "skipped_item \<Rightarrow> result_builder \<Rightarrow> py_error + result_builder" where
  "skip_unit k b =
     (if sk_unit_id k \<in> set (rb_seen b) then already_recorded
      else Inr (b\<lparr>rb_seen := sk_unit_id k # rb_seen b, rb_skipped := rb_skipped b @ [k]\<rparr>))"

definition record_item :: "item_result \<Rightarrow> result_builder \<Rightarrow> py_error + result_builder" where
  "record_item i b =
     (case make_item i of
        Inl e \<Rightarrow> Inl e
      | Inr i \<Rightarrow>
          if ir_unit_id i \<in> set (rb_seen b) then already_recorded
          else Inr (b\<lparr>rb_seen := ir_unit_id i # rb_seen b, rb_items := rb_items b @ [i]\<rparr>))"

definition skip_state :: "target_state \<Rightarrow> result_builder \<Rightarrow> py_error + result_builder" where
  "skip_state t =
     skip_unit \<lparr>sk_unit_id = ts_unit_id t, sk_artifact_key = map_option encode_key (gc_artifact_key (ts_candidate t)),
                sk_artifact_path = gc_artifact_path (ts_candidate t), sk_artifact_status = ts_status t\<rparr>"

definition succeed ::
  "string \<Rightarrow> artifact_key option \<Rightarrow> string option \<Rightarrow> string option \<Rightarrow> artifact_status option
     \<Rightarrow> provider_checkpoint option \<Rightarrow> result_builder \<Rightarrow> py_error + result_builder" where
  "succeed u key path task st cp =
     record_item \<lparr>ir_unit_id = u, ir_state = ITEM_SUCCEEDED, ir_artifact_key = map_option encode_key key,
       ir_artifact_path = path, ir_task_id = task,
       ir_task_state = (if truthy_str task then TASK_SUCCEEDED else NOT_QUEUED),
       ir_artifact_status = st, ir_provider_checkpoint = cp, ir_problem = None\<rparr>"

definition fail_unit ::
  "string \<Rightarrow> generation_problem \<Rightarrow> artifact_key option \<Rightarrow> string option \<Rightarrow> string option \<Rightarrow> task_state
     \<Rightarrow> artifact_status option \<Rightarrow> provider_checkpoint option \<Rightarrow> result_builder \<Rightarrow> py_error + result_builder" where
  "fail_unit u p key path task tstate st cp =
     record_item \<lparr>ir_unit_id = u, ir_state = ITEM_FAILED, ir_artifact_key = map_option encode_key key,
       ir_artifact_path = path, ir_task_id = task, ir_task_state = tstate,
       ir_artifact_status = st, ir_provider_checkpoint = cp, ir_problem = Some p\<rparr>"

definition block_unit ::
  "string \<Rightarrow> generation_problem \<Rightarrow> artifact_key option \<Rightarrow> string option \<Rightarrow> artifact_status option
     \<Rightarrow> result_builder \<Rightarrow> py_error + result_builder" where
  "block_unit u p key path st =
     record_item \<lparr>ir_unit_id = u, ir_state = ITEM_BLOCKED, ir_artifact_key = map_option encode_key key,
       ir_artifact_path = path, ir_task_id = None, ir_task_state = NOT_QUEUED,
       ir_artifact_status = st, ir_provider_checkpoint = None, ir_problem = Some p\<rparr>"

definition block_unavailable :: "target_state \<Rightarrow> result_builder \<Rightarrow> py_error + result_builder" where
  "block_unavailable t =
     block_unit (ts_unit_id t) (artifact_state_problem t) (gc_artifact_key (ts_candidate t))
       (gc_artifact_path (ts_candidate t)) (ts_status t)"

definition block_unmatched :: "string \<Rightarrow> result_builder \<Rightarrow> py_error + result_builder" where
  "block_unmatched u =
     block_unit u (plain_problem UNIT_NOT_FOUND (''unit '' @ u @ '' does not exist in the current project'') FIX_INPUT)
       None None None"

definition absorb :: "generation_selection \<Rightarrow> result_builder \<Rightarrow> py_error + result_builder" where
  "absorb sel b =
     (case each skip_state (gs_skipped sel) b of
        Inl e \<Rightarrow> Inl e
      | Inr b1 \<Rightarrow>
          (case each block_unavailable (gs_unavailable sel) b1 of
             Inl e \<Rightarrow> Inl e
           | Inr b2 \<Rightarrow> each block_unmatched (gs_unmatched_ids sel) b2))"

definition from_selection :: "string \<Rightarrow> generation_selection \<Rightarrow> py_error + result_builder" where
  "from_selection op sel = absorb sel (new_builder op (gs_mode sel))"

definition has_failures :: "result_builder \<Rightarrow> bool" where
  "has_failures b \<longleftrightarrow> list_ex (\<lambda>i. ir_state i = ITEM_FAILED) (rb_items b)"

definition ids_in :: "item_state \<Rightarrow> item_result list \<Rightarrow> string list" where
  "ids_in st is = map ir_unit_id (filter (\<lambda>i. ir_state i = st) is)"

definition build :: "result_builder \<Rightarrow> py_error + batch_result" where
  "build b =
     make_batch_result
       \<lparr>br_operation = rb_operation b, br_selection = rb_selection b, br_requested = map ir_unit_id (rb_items b),
        br_succeeded = ids_in ITEM_SUCCEEDED (rb_items b), br_failed = ids_in ITEM_FAILED (rb_items b),
        br_blocked = ids_in ITEM_BLOCKED (rb_items b), br_skipped = rb_skipped b, br_items = rb_items b\<rparr>"

subsection \<open>Folding a queue batch\<close>

record batch_task_result =
  tr_resource_id :: string
  tr_task_id :: string
  tr_status :: string
  tr_result :: "(string, pyval) dict option"
  tr_error :: "string option"
  tr_task :: "(string, pyval) dict option"
  tr_enqueue_interrupted :: bool

definition state_for :: "(string, target_state) dict \<Rightarrow> string \<Rightarrow> target_state" where
  "state_for states u =
     (case dict_get states u of
        Some t \<Rightarrow> t
      | None \<Rightarrow> \<lparr>ts_candidate = \<lparr>gc_unit_id = u, gc_artifact_key = None, gc_artifact_path = None\<rparr>,
                 ts_status = None, ts_blocker = None\<rparr>)"

text \<open>
  \<open>(br.result or {}).get("file_path") or fallback\<close>; the result model refuses a path that is
  neither a string nor absent.
\<close>

definition result_path :: "(string \<Rightarrow> string) option \<Rightarrow> batch_task_result \<Rightarrow> py_error + string option" where
  "result_path fallback r =
     (let v = row_get (case tr_result r of None \<Rightarrow> [] | Some d \<Rightarrow> d) ''file_path''
      in if pv_truthy v
         then (case pv_str v of Some p \<Rightarrow> Inr (Some p) | None \<Rightarrow> Inl (ValueError ''artifact_path must be a string''))
         else Inr (map_option (\<lambda>f. f (tr_resource_id r)) fallback))"

definition record_success ::
  "(string, target_state) dict \<Rightarrow> resolver option \<Rightarrow> (string \<Rightarrow> string) \<Rightarrow> (string \<Rightarrow> string) option
     \<Rightarrow> batch_task_result \<Rightarrow> result_builder \<Rightarrow> py_error + result_builder" where
  "record_success states resolve unit_id_of fallback r b =
     (let u = unit_id_of (tr_resource_id r); t = state_for states u; key = gc_artifact_key (ts_candidate t)
      in case result_path fallback r of
           Inl e \<Rightarrow> Inl e
         | Inr rel \<Rightarrow>
             (case (case resolve of None \<Rightarrow> Inr (None, None) | Some f \<Rightarrow> observe_artifact_status f key rel) of
                Inl e \<Rightarrow> Inl e
              | Inr (st, _) \<Rightarrow>
                  succeed u key rel (Some (tr_task_id r)) st (provider_checkpoint_from_task (tr_task r)) b))"

definition record_failure ::
  "(string \<Rightarrow> generation_problem option) \<Rightarrow> (string, target_state) dict \<Rightarrow> (string \<Rightarrow> string)
     \<Rightarrow> batch_task_result \<Rightarrow> result_builder \<Rightarrow> py_error + result_builder" where
  "record_failure load states unit_id_of r b =
     (let u = unit_id_of (tr_resource_id r); t = state_for states u;
          tstate = (if tr_task_id r = [] then NOT_QUEUED
                    else if tr_status r = ''cancelled'' then TASK_CANCELLED
                    else if tr_status r = ''interrupted'' then TASK_INTERRUPTED else TASK_FAILED);
          problem = (if tr_task_id r = [] then enqueue_problem (tr_error r) (tr_enqueue_interrupted r)
                     else problem_from_task_failure load (tr_error r) (tr_status r = ''cancelled'')
                            (tr_status r = ''interrupted''))
      in fail_unit u problem (gc_artifact_key (ts_candidate t)) (gc_artifact_path (ts_candidate t))
           (if tr_task_id r = [] then None else Some (tr_task_id r)) tstate (ts_status t)
           (provider_checkpoint_from_task (tr_task r)) b)"

definition record_batch_outcomes ::
  "(string \<Rightarrow> generation_problem option) \<Rightarrow> (string, target_state) dict \<Rightarrow> resolver option \<Rightarrow> (string \<Rightarrow> string)
     \<Rightarrow> (string \<Rightarrow> string) option \<Rightarrow> batch_task_result list \<Rightarrow> batch_task_result list
     \<Rightarrow> result_builder \<Rightarrow> py_error + result_builder" where
  "record_batch_outcomes load states resolve unit_id_of fallback successes failures b =
     (case each (record_success states resolve unit_id_of fallback) successes b of
        Inl e \<Rightarrow> Inl e
      | Inr b1 \<Rightarrow> each (record_failure load states unit_id_of) failures b1)"

end
