(* ===== verification/Batch_Admission.thy ===== *)
theory Batch_Admission
  imports Generation_Result Task_Repo
begin

text \<open>
  The all-or-nothing admission of a batch of video requests (lib/batch_admission.py) and the
  durable batch with its read model (lib/generation_batch.py): the verdict of a batch over the
  tickets of its units, the tiers a user confirms, the refusal written into the result, the
  snapshot a batch is stored with, and the view of the batch over the rows of its tasks. Amounts
  are exact rationals. Reading the stored snapshot back from JSON is the validation library's:
  the read model gets the snapshot as a value, and its validators are modelled.
\<close>

subsection \<open>Tickets\<close>

definition DURATION_CONFIRMATION_CODE :: string where
  "DURATION_CONFIRMATION_CODE = ''reference_duration_confirmation_required''"

datatype admission_decision = ADMITTED | CONFIRMATION_REQUIRED | REFUSED

text \<open>A quote is a mapping; the amount counts when it is a number and not a truth value.\<close>

datatype quote_value = QNumber rat | QBool bool | QText string | QOther

type_synonym request_cost = "(string, quote_value) dict"

record admission_ticket =
  at_unit_id :: string
  at_problems :: "generation_problem list"
  at_request_duration :: "int option"
  at_current_duration :: "int option"
  at_request_cost :: "request_cost option"
  at_projection :: "(string, pyval) dict option"

definition ticket_admitted :: "admission_ticket \<Rightarrow> bool" where
  "ticket_admitted t \<longleftrightarrow> at_problems t = []"

definition confirmation_only :: "admission_ticket \<Rightarrow> bool" where
  "confirmation_only t \<longleftrightarrow>
     at_problems t \<noteq> [] \<and> list_all (\<lambda>p. gp_code p = DURATION_CONFIRMATION_CODE) (at_problems t)"

definition cost_amount :: "request_cost option \<Rightarrow> rat option" where
  "cost_amount c =
     (case c of None \<Rightarrow> None | Some d \<Rightarrow> (case dict_get d ''amount'' of Some (QNumber x) \<Rightarrow> Some x | _ \<Rightarrow> None))"

definition cost_currency :: "request_cost option \<Rightarrow> string option" where
  "cost_currency c =
     (case c of
        None \<Rightarrow> None
      | Some d \<Rightarrow> (case dict_get d ''currency'' of Some (QText s) \<Rightarrow> if s \<noteq> [] then Some s else None | _ \<Rightarrow> None))"

definition refused_ticket ::
  "string \<Rightarrow> string \<Rightarrow> detail_text \<Rightarrow> generation_action \<Rightarrow> (string, pyval) dict \<Rightarrow> admission_ticket" where
  "refused_ticket u code detail action params =
     \<lparr>at_unit_id = u,
      at_problems = [\<lparr>gp_code = code, gp_detail = detail, gp_action = action, gp_params = params\<rparr>],
      at_request_duration = None, at_current_duration = None, at_request_cost = None, at_projection = None\<rparr>"

subsection \<open>The verdict of the batch\<close>

record batch_admission =
  ba_operation :: string
  ba_selection :: selection_mode
  ba_narration_delivery :: string
  ba_tickets :: "admission_ticket list"

definition decision :: "batch_admission \<Rightarrow> admission_decision" where
  "decision a =
     (let refused = filter (\<lambda>t. \<not> ticket_admitted t) (ba_tickets a)
      in if refused = [] then ADMITTED
         else if list_all confirmation_only refused then CONFIRMATION_REQUIRED else REFUSED)"

definition admitted :: "batch_admission \<Rightarrow> bool" where
  "admitted a \<longleftrightarrow> decision a = ADMITTED"

definition refused_tickets :: "batch_admission \<Rightarrow> admission_ticket list" where
  "refused_tickets a = filter (\<lambda>t. \<not> ticket_admitted t) (ba_tickets a)"

definition holding_unit_ids :: "batch_admission \<Rightarrow> string list" where
  "holding_unit_ids a = map at_unit_id (refused_tickets a)"

definition withheld_problem :: "string list \<Rightarrow> generation_problem" where
  "withheld_problem ids =
     \<lparr>gp_code = BATCH_ADMISSION_WITHHELD, gp_detail = Withheld ids, gp_action = RETRY,
      gp_params = [(''blocked_unit_ids'', PList (map PStr ids))]\<rparr>"

definition withheld_problem_for :: "batch_admission \<Rightarrow> admission_ticket \<Rightarrow> generation_problem option" where
  "withheld_problem_for a t =
     (if holding_unit_ids a = [] \<or> \<not> ticket_admitted t then None
      else Some (withheld_problem (holding_unit_ids a)))"

record confirmation_tier =
  ct_request_duration :: "int option"
  ct_unit_ids :: "string list"
  ct_cost_amount :: "rat option"
  ct_cost_currency :: "string option"

text \<open>The tiers in ascending order, the tier without a duration last.\<close>

definition tier_rank :: "int option \<Rightarrow> bool \<times> int" where
  "tier_rank s = (s = None, case s of None \<Rightarrow> 0 | Some n \<Rightarrow> n)"

definition confirmation_tier_of :: "int option \<times> admission_ticket list \<Rightarrow> confirmation_tier" where
  "confirmation_tier_of g =
     (let members = snd g;
          amounts = map (cost_amount \<circ> at_request_cost) members;
          currencies = remdups (List.map_filter (cost_currency \<circ> at_request_cost) members)
      in \<lparr>ct_request_duration = fst g, ct_unit_ids = map at_unit_id members,
          ct_cost_amount = (if list_all (\<lambda>x. x \<noteq> None) amounts \<and> length currencies = 1
            then Some (sum_list (map the amounts)) else None),
          ct_cost_currency = (if length currencies = 1 then Some (hd currencies) else None)\<rparr>)"

definition confirmation_tiers :: "batch_admission \<Rightarrow> confirmation_tier list" where
  "confirmation_tiers a =
     map confirmation_tier_of
       (order_by (tier_rank \<circ> fst)
          (group_by at_request_duration id (filter confirmation_only (ba_tickets a))))"

subsection \<open>The refusal\<close>

fun action_value :: "generation_action \<Rightarrow> string" where
  "action_value RETRY = ''retry''"
| "action_value FIX_INPUT = ''fix_input''"
| "action_value GENERATE_DEPENDENCY = ''generate_dependency''"
| "action_value GENERATE_TTS = ''generate_tts''"
| "action_value REGENERATE_TTS = ''regenerate_tts''"
| "action_value WAIT_FOR_TASK = ''wait_for_task''"
| "action_value REPLAN_UNIT = ''replan_unit''"
| "action_value CONFIRM_REQUEST_DURATION = ''confirm_request_duration''"
| "action_value CONFIGURE_PROVIDER = ''configure_provider''"
| "action_value REPAIR_ARTIFACT_STATE = ''repair_artifact_state''"
| "action_value RETRY_PROJECT_MIGRATION = ''retry_project_migration''"
| "action_value NO_ACTION = ''none''"

text \<open>\<open>problem.model_dump(mode="json")\<close>; the message is given by \<open>render\<close>.\<close>

definition dump_problem :: "(detail_text \<Rightarrow> string) \<Rightarrow> generation_problem \<Rightarrow> pyval" where
  "dump_problem render p = PDict
     [(''code'', PStr (gp_code p)), (''detail'', PStr (render (gp_detail p))),
      (''action'', PStr (action_value (gp_action p))), (''params'', PDict (gp_params p))]"

definition refuse_ticket ::
  "(detail_text \<Rightarrow> string) \<Rightarrow> (string, target_state) dict \<Rightarrow> batch_admission \<Rightarrow> admission_ticket
     \<Rightarrow> result_builder \<Rightarrow> py_error + result_builder" where
  "refuse_ticket render states a t b =
     (case (case at_problems t of p # _ \<Rightarrow> Some p | [] \<Rightarrow> withheld_problem_for a t) of
        None \<Rightarrow> Inl (RuntimeError ''a refused batch leaves no ticket without a reason'')
      | Some p \<Rightarrow>
          (let p' = (if 1 < length (at_problems t)
                 then p\<lparr>gp_params := dict_set (gp_params p) ''problems'' (PList (map (dump_problem render) (at_problems t)))\<rparr>
                 else p)
           in case dict_get states (at_unit_id t) of
                None \<Rightarrow> block_unit (at_unit_id t) p' None None None b
              | Some s \<Rightarrow>
                  block_unit (at_unit_id t) p' (gc_artifact_key (ts_candidate s)) (gc_artifact_path (ts_candidate s))
                    (ts_status s) b))"

definition record_refusal ::
  "(detail_text \<Rightarrow> string) \<Rightarrow> (string, target_state) dict \<Rightarrow> batch_admission \<Rightarrow> result_builder
     \<Rightarrow> py_error + result_builder" where
  "record_refusal render states a b =
     (if admitted a then Inl (ValueError ''record_refusal requires a refused admission'')
      else each (refuse_ticket render states a) (ba_tickets a) b)"

text \<open>The envelope both clients serialize, unit by unit: its own verdict, whether it was withheld, its reasons.\<close>

record unit_envelope =
  ue_ticket :: admission_ticket
  ue_withheld :: bool
  ue_problems :: "generation_problem list"

definition admission_envelope :: "batch_admission \<Rightarrow> unit_envelope list \<times> confirmation_tier list option" where
  "admission_envelope a =
     (map (\<lambda>t. \<lparr>ue_ticket = t, ue_withheld = (withheld_problem_for a t \<noteq> None),
                ue_problems = (case withheld_problem_for a t of None \<Rightarrow> at_problems t | Some p \<Rightarrow> [p])\<rparr>)
        (ba_tickets a),
      if decision a = CONFIRMATION_REQUIRED then Some (confirmation_tiers a) else None)"

subsection \<open>The durable batch\<close>

record requested_item =
  rq_unit_id :: string
  rq_artifact_key :: "string option"
  rq_artifact_path :: "string option"
  rq_artifact_status :: "artifact_status option"
  rq_admission :: "(string, pyval) dict"

record blocked_item =
  bk_item :: item_result
  bk_admission :: "(string, pyval) dict"

record request_snapshot =
  rs_selection :: selection_mode
  rs_requested :: "requested_item list"
  rs_skipped :: "skipped_item list"

definition make_requested :: "requested_item \<Rightarrow> py_error + requested_item" where
  "make_requested i = (if rq_unit_id i = [] then Inl (ValueError ''unit_id'') else Inr i)"

definition make_blocked :: "blocked_item \<Rightarrow> py_error + blocked_item" where
  "make_blocked i =
     (if ir_state (bk_item i) \<noteq> ITEM_BLOCKED then Inl (ValueError ''blocked snapshot may only contain blocked items'')
      else Inr i)"

definition make_snapshot :: "request_snapshot \<Rightarrow> py_error + request_snapshot" where
  "make_snapshot s =
     (let requested = map rq_unit_id (rs_requested s); skipped = map sk_unit_id (rs_skipped s)
      in if \<not> distinct requested then Inl (ValueError ''duplicate requested unit ids'')
         else if \<not> distinct skipped then Inl (ValueError ''duplicate skipped unit ids'')
         else if set requested \<inter> set skipped \<noteq> {} then Inl (ValueError ''skipped ids must not appear in requested'')
         else Inr s)"

definition validate_blocked_items :: "request_snapshot \<Rightarrow> blocked_item list \<Rightarrow> py_error + unit" where
  "validate_blocked_items s blocked =
     (let ids = map (ir_unit_id \<circ> bk_item) blocked
      in if \<not> distinct ids \<or> \<not> set ids \<subseteq> set (map rq_unit_id (rs_requested s))
         then Inl (ValueError ''blocked snapshot must uniquely identify requested units'') else Inr ())"

definition requested_of ::
  "(string, target_state) dict \<Rightarrow> (string, (string, pyval) dict) dict \<Rightarrow> (string, item_result) dict \<Rightarrow> string
     \<Rightarrow> requested_item" where
  "requested_of states admission blocked u =
     (let item = dict_get blocked u
      in case dict_get states u of
           Some t \<Rightarrow>
             \<lparr>rq_unit_id = u,
              rq_artifact_key = (case gc_artifact_key (ts_candidate t) of
                 Some k \<Rightarrow> Some (encode_key k) | None \<Rightarrow> (case item of None \<Rightarrow> None | Some i \<Rightarrow> ir_artifact_key i)),
              rq_artifact_path = gc_artifact_path (ts_candidate t), rq_artifact_status = ts_status t,
              rq_admission = dict_get_or admission u []\<rparr>
         | None \<Rightarrow>
             \<lparr>rq_unit_id = u,
              rq_artifact_key = (case item of None \<Rightarrow> None | Some i \<Rightarrow> ir_artifact_key i),
              rq_artifact_path = (case item of None \<Rightarrow> None | Some i \<Rightarrow> ir_artifact_path i),
              rq_artifact_status = (case item of None \<Rightarrow> None | Some i \<Rightarrow> ir_artifact_status i),
              rq_admission = dict_get_or admission u []\<rparr>)"

definition blocked_of ::
  "(string, (string, pyval) dict) dict \<Rightarrow> (string, item_result) dict \<Rightarrow> string \<Rightarrow> py_error + blocked_item" where
  "blocked_of admission blocked u =
     (case dict_get blocked u of
        None \<Rightarrow> Inl (KeyError u)
      | Some i \<Rightarrow> make_blocked \<lparr>bk_item = i, bk_admission = dict_get_or admission u []\<rparr>)"

definition build_generation_batch_admission ::
  "batch_result \<Rightarrow> string list \<Rightarrow> (string, target_state) dict \<Rightarrow> (string, (string, pyval) dict) dict
     \<Rightarrow> py_error + (request_snapshot \<times> blocked_item list)" where
  "build_generation_batch_admission preflight pending states admission =
     (if br_succeeded preflight \<noteq> [] \<or> br_failed preflight \<noteq> []
      then Inl (ValueError ''generation batch admission cannot contain executed outcomes'')
      else
        (let by_id = foldl (\<lambda>d i. dict_set d (ir_unit_id i) i) [] (br_items preflight);
             ids = fromkeys (pending @ br_blocked preflight)
         in case make_all (\<lambda>u. make_requested (requested_of states admission by_id u)) ids of
              Inl e \<Rightarrow> Inl e
            | Inr requested \<Rightarrow>
                (case make_all (blocked_of admission by_id) (br_blocked preflight) of
                   Inl e \<Rightarrow> Inl e
                 | Inr blocked \<Rightarrow>
                     (case make_snapshot \<lparr>rs_selection = br_selection preflight, rs_requested = requested,
                                         rs_skipped = br_skipped preflight\<rparr> of
                        Inl e \<Rightarrow> Inl e
                      | Inr s \<Rightarrow> Inr (s, blocked)))))"

subsection \<open>The read model\<close>

datatype member_status = MS task_status | MS_BLOCKED

record batch_member =
  bm_unit_id :: string
  bm_task_id :: "string option"
  bm_task_type :: "string option"
  bm_status :: member_status
  bm_deduped :: bool
  bm_problem :: "generation_problem option"
  bm_admission :: "(string, pyval) dict"

text \<open>A membership is a member of the batch with the row of its task.\<close>

type_synonym membership = "batch_task \<times> task"

definition memberships_by_unit :: "membership list \<Rightarrow> (string, membership) dict" where
  "memberships_by_unit ms = foldl (\<lambda>d m. dict_set d (bt_unit_id (fst m)) m) [] ms"

definition member_of ::
  "(string, blocked_item) dict \<Rightarrow> (string, membership) dict \<Rightarrow> requested_item \<Rightarrow> batch_member" where
  "member_of blocked rows r =
     (let u = rq_unit_id r
      in case dict_get blocked u of
           Some k \<Rightarrow> \<lparr>bm_unit_id = u, bm_task_id = None, bm_task_type = None, bm_status = MS_BLOCKED, bm_deduped = False,
                     bm_problem = ir_problem (bk_item k), bm_admission = bk_admission k\<rparr>
         | None \<Rightarrow>
             (case dict_get rows u of
                None \<Rightarrow> \<lparr>bm_unit_id = u, bm_task_id = None, bm_task_type = None, bm_status = MS Failed, bm_deduped = False,
                        bm_problem = Some (enqueue_problem None False), bm_admission = rq_admission r\<rparr>
              | Some (m, t) \<Rightarrow>
                  \<lparr>bm_unit_id = u, bm_task_id = Some (task_id t), bm_task_type = Some (task_type t),
                   bm_status = MS (status t), bm_deduped = bt_deduped m, bm_problem = None,
                   bm_admission = rq_admission r\<rparr>))"

definition settled_member :: "batch_member \<Rightarrow> bool" where
  "settled_member m \<longleftrightarrow> (case bm_status m of MS_BLOCKED \<Rightarrow> True | MS s \<Rightarrow> s \<in> set TERMINAL_TASK_STATUSES)"

definition member_statuses :: "member_status list" where
  "member_statuses = [MS Queued, MS Running, MS Cancelling, MS Succeeded, MS Failed, MS Cancelled, MS_BLOCKED]"

definition member_counts :: "batch_member list \<Rightarrow> (member_status, nat) dict" where
  "member_counts ms = map (\<lambda>s. (s, count_rows ms (\<lambda>m. bm_status m = s))) member_statuses"

definition poll_base :: "string \<Rightarrow> nat" where
  "poll_base t =
     (if t = ''video'' then 10 else if t = ''reference_video'' then 10 else if t = ''grid'' then 8
      else if t = ''tts'' then 4 else 3)"

definition poll_after_seconds :: "task list \<Rightarrow> (string, nat) dict \<Rightarrow> nat" where
  "poll_after_seconds rows depths =
     (let act = filter (\<lambda>t. status t \<notin> set TERMINAL_TASK_STATUSES) rows;
          base = (if act = [] then 3 else Max (set (map (poll_base \<circ> task_type) act)));
          depth = (if act = [] then 0 else Max (set (map (\<lambda>t. dict_get_or depths (task_type t) 0) act)))
      in min 30 (base + depth div 5))"

text \<open>
  \<open>(v or {})\<close> before a \<open>.get\<close>: a falsy value counts as empty, a truthy one that is not an
  object has no such method.
\<close>

definition or_dict :: "pyval \<Rightarrow> py_error + (string, pyval) dict" where
  "or_dict v =
     (if \<not> pv_truthy v then Inr []
      else case v of PDict d \<Rightarrow> Inr d | _ \<Rightarrow> Inl (AttributeError ''get''))"

text \<open>The first truthy path; the result model refuses one that is not a string.\<close>

definition first_path :: "pyval list \<Rightarrow> string option \<Rightarrow> py_error + string option" where
  "first_path vs d =
     (case filter pv_truthy vs of
        [] \<Rightarrow> Inr d
      | v # _ \<Rightarrow> (case pv_str v of Some p \<Rightarrow> Inr (Some p) | None \<Rightarrow> Inl (ValueError ''artifact_path must be a string'')))"

text \<open>The result of a task and the part of it that concerns one unit.\<close>

definition unit_result_of :: "task \<Rightarrow> string \<Rightarrow> py_error + ((string, pyval) dict \<times> (string, pyval) dict)" where
  "unit_result_of t u =
     (case or_dict (json_loads_default (result_json t) (PDict [])) of
        Inl e \<Rightarrow> Inl e
      | Inr result \<Rightarrow>
          (case or_dict (row_get result ''unit_results'') of
             Inl e \<Rightarrow> Inl e
           | Inr units \<Rightarrow>
               (case or_dict (row_get units u) of Inl e \<Rightarrow> Inl e | Inr ur \<Rightarrow> Inr (result, ur))))"

definition row_task_state :: "task_status \<Rightarrow> task_state" where
  "row_task_state st = (if st = Succeeded then TASK_SUCCEEDED else if st = Cancelled then TASK_CANCELLED else TASK_FAILED)"

definition current_status ::
  "resolver option \<Rightarrow> string option \<Rightarrow> string option \<Rightarrow> py_error + artifact_status option" where
  "current_status resolve key path =
     (case (resolve, key) of
        (Some f, Some t) \<Rightarrow>
          (case decode_key t of
             Inl e \<Rightarrow> Inl e
           | Inr k \<Rightarrow> (case observe_artifact_status f (Some k) path of Inl e \<Rightarrow> Inl e | Inr (st, _) \<Rightarrow> Inr st))
      | _ \<Rightarrow> Inr None)"

text \<open>
  The outcome of one unit of a finished batch. \<open>load\<close> reads a persisted problem, \<open>load_problem\<close>
  a problem inside a result.
\<close>

definition row_item ::
  "(string \<Rightarrow> generation_problem option) \<Rightarrow> (pyval \<Rightarrow> generation_problem option)
     \<Rightarrow> resolver option \<Rightarrow> requested_item \<Rightarrow> task \<Rightarrow> py_error + item_result" where
  "row_item load load_problem resolve r t =
     (case unit_result_of t (rq_unit_id r) of
        Inl e \<Rightarrow> Inl e
      | Inr (result, ur) \<Rightarrow>
          (case first_path [row_get ur ''file_path'', row_get result ''file_path''] (rq_artifact_path r) of
             Inl e \<Rightarrow> Inl e
           | Inr path \<Rightarrow>
               (let problem = row_get ur ''problem'';
                    item = (\<lambda>st ast p. make_item
                      \<lparr>ir_unit_id = rq_unit_id r, ir_state = st, ir_artifact_key = rq_artifact_key r,
                       ir_artifact_path = path, ir_task_id = Some (task_id t), ir_task_state = row_task_state (status t),
                       ir_artifact_status = ast,
                       ir_provider_checkpoint = provider_checkpoint_from_task (Some (task_to_dict t)), ir_problem = p\<rparr>)
                in if status t = Succeeded \<and> \<not> pv_truthy problem then
                     (case current_status resolve (rq_artifact_key r) path of
                        Inl e \<Rightarrow> Inl e
                      | Inr ast \<Rightarrow> item ITEM_SUCCEEDED ast None)
                   else if pv_truthy problem then
                     (case load_problem problem of
                        None \<Rightarrow> Inl (ValueError ''problem'')
                      | Some p \<Rightarrow> item ITEM_FAILED (rq_artifact_status r) (Some p))
                   else item ITEM_FAILED (rq_artifact_status r)
                          (Some (problem_from_task_failure load (error_message t) (status t = Cancelled) False)))))"

definition never_queued_item :: "requested_item \<Rightarrow> py_error + item_result" where
  "never_queued_item r =
     make_item \<lparr>ir_unit_id = rq_unit_id r, ir_state = ITEM_FAILED, ir_artifact_key = rq_artifact_key r,
       ir_artifact_path = rq_artifact_path r, ir_task_id = None, ir_task_state = NOT_QUEUED,
       ir_artifact_status = rq_artifact_status r, ir_provider_checkpoint = None,
       ir_problem = Some (enqueue_problem None False)\<rparr>"

definition outcome_of ::
  "(string \<Rightarrow> generation_problem option) \<Rightarrow> (pyval \<Rightarrow> generation_problem option) \<Rightarrow> resolver option
     \<Rightarrow> (string, blocked_item) dict \<Rightarrow> (string, membership) dict \<Rightarrow> requested_item \<Rightarrow> py_error + item_result" where
  "outcome_of load load_problem resolve blocked rows r =
     (case dict_get blocked (rq_unit_id r) of
        Some k \<Rightarrow> Inr (bk_item k)
      | None \<Rightarrow>
          (case dict_get rows (rq_unit_id r) of
             None \<Rightarrow> never_queued_item r
           | Some (m, t) \<Rightarrow> row_item load load_problem resolve r t))"

definition terminal_result ::
  "(string \<Rightarrow> generation_problem option) \<Rightarrow> (pyval \<Rightarrow> generation_problem option) \<Rightarrow> resolver option
     \<Rightarrow> string \<Rightarrow> request_snapshot \<Rightarrow> (string, blocked_item) dict \<Rightarrow> (string, membership) dict
     \<Rightarrow> py_error + batch_result" where
  "terminal_result load load_problem resolve op s blocked rows =
     (case make_all (outcome_of load load_problem resolve blocked rows) (rs_requested s) of
        Inl e \<Rightarrow> Inl e
      | Inr items \<Rightarrow>
          make_batch_result
            \<lparr>br_operation = op, br_selection = rs_selection s, br_requested = map ir_unit_id items,
             br_succeeded = ids_in ITEM_SUCCEEDED items, br_failed = ids_in ITEM_FAILED items,
             br_blocked = ids_in ITEM_BLOCKED items, br_skipped = rs_skipped s, br_items = items\<rparr>)"

record read_model =
  rm_batch :: generation_batch
  rm_members :: "batch_member list"
  rm_skipped :: "skipped_item list"
  rm_counts :: "(member_status, nat) dict"
  rm_total :: nat
  rm_done :: bool
  rm_poll_after :: "nat option"
  rm_result :: "batch_result option"

text \<open>The snapshot and the blocked entries as stored, with the validators of their models.\<close>

definition stored_batch ::
  "request_snapshot \<Rightarrow> blocked_item list \<Rightarrow> py_error + (request_snapshot \<times> blocked_item list)" where
  "stored_batch s blocked =
     (case make_all make_requested (rs_requested s) of
        Inl e \<Rightarrow> Inl e
      | Inr _ \<Rightarrow>
          (case make_snapshot s of
             Inl e \<Rightarrow> Inl e
           | Inr s \<Rightarrow>
               (case make_all make_blocked blocked of
                  Inl e \<Rightarrow> Inl e
                | Inr blocked \<Rightarrow>
                    (case validate_blocked_items s blocked of Inl e \<Rightarrow> Inl e | Inr _ \<Rightarrow> Inr (s, blocked)))))"

definition build_generation_batch_read_model ::
  "(string \<Rightarrow> generation_problem option) \<Rightarrow> (pyval \<Rightarrow> generation_problem option) \<Rightarrow> resolver option
     \<Rightarrow> generation_batch \<Rightarrow> request_snapshot \<Rightarrow> blocked_item list \<Rightarrow> membership list \<Rightarrow> (string, nat) dict
     \<Rightarrow> py_error + read_model" where
  "build_generation_batch_read_model load load_problem resolve batch snapshot blocked_entries memberships depths =
     (case stored_batch snapshot blocked_entries of
        Inl e \<Rightarrow> Inl e
      | Inr (s, entries) \<Rightarrow>
          (let blocked = foldl (\<lambda>d k. dict_set d (ir_unit_id (bk_item k)) k) [] entries;
               rows = memberships_by_unit memberships;
               members = map (member_of blocked rows) (rs_requested s);
               finished = list_all settled_member members
           in case (if finished
                    then map_sum id Some (terminal_result load load_problem resolve (gb_operation batch) s blocked rows)
                    else Inr None) of
                Inl e \<Rightarrow> Inl e
              | Inr result \<Rightarrow>
                  Inr \<lparr>rm_batch = batch, rm_members = members, rm_skipped = rs_skipped s,
                       rm_counts = member_counts members, rm_total = length members, rm_done = finished,
                       rm_poll_after = (if finished then None else Some (poll_after_seconds (map snd memberships) depths)),
                       rm_result = result\<rparr>))"

end
