(* ===== verification/Generation_Result_Props.thy ===== *)
theory Generation_Result_Props
  imports Generation_Result Task_Failure_Props
begin

text \<open>
  The builder's records are exclusive and cover what was asked, so its result always passes the
  validation; a missing-only request generates exactly what is missing; every registered task
  failure has a registered next action.
\<close>

subsection \<open>The builder\<close>

definition builder_ids :: "result_builder \<Rightarrow> string list" where
  "builder_ids b = map sk_unit_id (rb_skipped b) @ map ir_unit_id (rb_items b)"

definition builder_inv :: "result_builder \<Rightarrow> bool" where
  "builder_inv b \<longleftrightarrow> distinct (builder_ids b) \<and> set (rb_seen b) = set (builder_ids b) \<and> list_all item_ok (rb_items b)"

lemma builder_inv_new: "builder_inv (new_builder op mode)"
  by (simp add: builder_inv_def builder_ids_def new_builder_def)

lemma skip_unit_inv:
  assumes "builder_inv b" and "skip_unit k b = Inr b'"
  shows "builder_inv b'"
proof -
  have new: "sk_unit_id k \<notin> set (builder_ids b)" "b' = b\<lparr>rb_seen := sk_unit_id k # rb_seen b, rb_skipped := rb_skipped b @ [k]\<rparr>"
    using assms by (auto simp: skip_unit_def already_recorded_def builder_inv_def split: if_splits)
  have "distinct (sk_unit_id k # builder_ids b)" using assms(1) new(1) by (simp add: builder_inv_def)
  then have "distinct (builder_ids b')" by (auto simp: new(2) builder_ids_def)
  with assms(1) show ?thesis by (auto simp: builder_inv_def new(2) builder_ids_def)
qed

lemma record_item_cases:
  assumes "record_item i b = Inr b'"
  shows "item_ok i" and "ir_unit_id i \<notin> set (rb_seen b)"
    and "b' = b\<lparr>rb_seen := ir_unit_id i # rb_seen b, rb_items := rb_items b @ [i]\<rparr>"
  using assms by (auto simp: record_item_def make_item_def already_recorded_def split: if_splits)

lemma record_item_inv: "builder_inv b \<Longrightarrow> record_item i b = Inr b' \<Longrightarrow> builder_inv b'"
  by (frule record_item_cases(1), frule record_item_cases(2), drule record_item_cases(3))
    (auto simp: builder_inv_def builder_ids_def)

lemmas builder_op_defs = skip_state_def succeed_def fail_unit_def block_unit_def block_unavailable_def
  block_unmatched_def record_success_def record_failure_def Let_def

lemma block_unit_inv: "builder_inv b \<Longrightarrow> block_unit u p key path st b = Inr b' \<Longrightarrow> builder_inv b'"
  unfolding block_unit_def by (rule record_item_inv)

lemma absorb_inv: "builder_inv b \<Longrightarrow> absorb sel b = Inr b' \<Longrightarrow> builder_inv b'"
proof -
  assume inv: "builder_inv b" and "absorb sel b = Inr b'"
  then obtain b1 b2 where e: "each skip_state (gs_skipped sel) b = Inr b1"
    "each block_unavailable (gs_unavailable sel) b1 = Inr b2" "each block_unmatched (gs_unmatched_ids sel) b2 = Inr b'"
    by (auto simp: absorb_def split: sum.splits)
  have "builder_inv b1"
    using inv e(1) by (rule each_inv [of builder_inv, rotated]) (auto simp: skip_state_def intro: skip_unit_inv)
  then have "builder_inv b2"
    using e(2) by (rule each_inv [of builder_inv, rotated]) (auto simp: block_unavailable_def intro: block_unit_inv)
  then show "builder_inv b'"
    using e(3) by (rule each_inv [of builder_inv, rotated]) (auto simp: block_unmatched_def intro: block_unit_inv)
qed

lemma record_success_item:
  assumes "record_success states rs unit_id_of fallback r b = Inr b'"
  obtains i where "record_item i b = Inr b'" "ir_unit_id i = unit_id_of (tr_resource_id r)" "ir_state i = ITEM_SUCCEEDED"
  using assms by (auto simp: record_success_def succeed_def Let_def split: sum.splits option.splits)

lemma record_failure_item:
  assumes "record_failure load states unit_id_of r b = Inr b'"
  obtains i where "record_item i b = Inr b'" "ir_unit_id i = unit_id_of (tr_resource_id r)" "ir_state i = ITEM_FAILED"
  using assms by (auto simp: record_failure_def fail_unit_def Let_def)

lemma ids_in_append: "ids_in st (xs @ ys) = ids_in st xs @ ids_in st ys"
  by (simp add: ids_in_def)

lemma each_items:
  assumes "\<And>x b b'. f x b = Inr b' \<Longrightarrow> \<exists>i. record_item i b = Inr b' \<and> ir_unit_id i = uid x \<and> ir_state i = st"
    and "each f xs b = Inr b'"
  shows "rb_skipped b' = rb_skipped b \<and> rb_operation b' = rb_operation b \<and> rb_selection b' = rb_selection b
    \<and> ids_in st (rb_items b') = ids_in st (rb_items b) @ map uid xs
    \<and> (\<forall>st'. st' \<noteq> st \<longrightarrow> ids_in st' (rb_items b') = ids_in st' (rb_items b))"
  using assms(2)
proof (induction xs arbitrary: b)
  case (Cons x xs)
  then obtain b1 where b1: "f x b = Inr b1" "each f xs b1 = Inr b'" by (auto split: sum.splits)
  then obtain i where i: "record_item i b = Inr b1" "ir_unit_id i = uid x" "ir_state i = st" using assms(1) by blast
  note eq = record_item_cases(3) [OF i(1)]
  from Cons.IH [OF b1(2)] i(2,3) show ?case by (simp add: eq ids_in_append) (simp add: ids_in_def)
qed simp

lemma each_skips:
  assumes "each skip_state ts b = Inr b'"
  shows "rb_items b' = rb_items b \<and> map sk_unit_id (rb_skipped b') = map sk_unit_id (rb_skipped b) @ map ts_unit_id ts
    \<and> rb_operation b' = rb_operation b \<and> rb_selection b' = rb_selection b"
  using assms
proof (induction ts arbitrary: b)
  case (Cons t ts)
  then obtain b1 where b1: "skip_state t b = Inr b1" "each skip_state ts b1 = Inr b'" by (auto split: sum.splits)
  from Cons.IH [OF b1(2)] b1(1) show ?case
    by (auto simp: skip_state_def skip_unit_def already_recorded_def split: if_splits)
qed simp

lemma set_ids_in: "set (ids_in st is) = ir_unit_id ` {i \<in> set is. ir_state i = st}"
  by (auto simp: ids_in_def)

lemma states_partition:
  "mset (ids_in ITEM_SUCCEEDED is @ ids_in ITEM_FAILED is @ ids_in ITEM_BLOCKED is) = mset (map ir_unit_id is)"
proof (induction "is")
  case (Cons i "is")
  then show ?case by (cases "ir_state i") (auto simp: ids_in_def)
qed (simp add: ids_in_def)

text \<open>The validation of the result never refuses what the builder made.\<close>

lemma build_distinct:
  assumes "distinct (builder_ids b)"
  shows "\<exists>r. build b = Inr r \<and> br_requested r = map ir_unit_id (rb_items b)
    \<and> br_succeeded r = ids_in ITEM_SUCCEEDED (rb_items b) \<and> br_failed r = ids_in ITEM_FAILED (rb_items b)
    \<and> br_blocked r = ids_in ITEM_BLOCKED (rb_items b) \<and> br_skipped r = rb_skipped b"
proof -
  let ?is = "rb_items b"
  let ?u = "ids_in ITEM_SUCCEEDED ?is @ ids_in ITEM_FAILED ?is @ ids_in ITEM_BLOCKED ?is"
  have d: "distinct (map ir_unit_id ?is)" "distinct (map sk_unit_id (rb_skipped b))"
    "set (map sk_unit_id (rb_skipped b)) \<inter> set (map ir_unit_id ?is) = {}"
    using assms by (auto simp: builder_ids_def)
  have u: "distinct ?u" using mset_eq_imp_distinct_iff [OF states_partition [of ?is]] d(1) by blast
  have "sort ?u = sort (map ir_unit_id ?is)"
    by (rule properties_for_sort [symmetric]) (simp_all only: mset_sort states_partition sorted_sort)
  then have union: "sort ?u = sort (remdups (map ir_unit_id ?is))" using d(1) by (simp only: distinct_remdups_id)
  have buckets: "\<forall>i \<in> set ?is. ir_unit_id i \<in> set (ids_in (ir_state i) ?is)" by (auto simp: set_ids_in)
  have bucket: "bucket_of \<lparr>br_operation = rb_operation b, br_selection = rb_selection b, br_requested = map ir_unit_id ?is,
        br_succeeded = ids_in ITEM_SUCCEEDED ?is, br_failed = ids_in ITEM_FAILED ?is,
        br_blocked = ids_in ITEM_BLOCKED ?is, br_skipped = rb_skipped b, br_items = ?is\<rparr> st = ids_in st ?is" for st
    by (cases st) simp_all
  show ?thesis
    using u union d buckets by (auto simp: build_def make_batch_result_def Let_def bucket)
qed

lemmas build_valid = build_distinct [OF conjunct1 [OF iffD1 [OF builder_inv_def]]]

text \<open>
  Whatever a request selected and however its tasks ended, the recorded outcomes pass the
  validation of the result: succeeded, failed and blocked are exactly the finished, failed,
  unreadable and unknown units, they are distinct, and no reused unit is among them.
\<close>

theorem outcomes_always_reported:
  assumes "from_selection op sel = Inr b0"
    and "record_batch_outcomes load states resolve unit_id_of fallback successes failures b0 = Inr b"
  shows "\<exists>r. build b = Inr r
    \<and> br_succeeded r = map (unit_id_of \<circ> tr_resource_id) successes
    \<and> br_failed r = map (unit_id_of \<circ> tr_resource_id) failures
    \<and> br_blocked r = map ts_unit_id (gs_unavailable sel) @ gs_unmatched_ids sel
    \<and> set (br_requested r) = set (br_succeeded r) \<union> set (br_failed r) \<union> set (br_blocked r)
    \<and> distinct (map ts_unit_id (gs_skipped sel) @ br_requested r)"
proof -
  from assms(1) obtain b1 b2 where a: "each skip_state (gs_skipped sel) (new_builder op (gs_mode sel)) = Inr b1"
    "each block_unavailable (gs_unavailable sel) b1 = Inr b2" "each block_unmatched (gs_unmatched_ids sel) b2 = Inr b0"
    by (auto simp: from_selection_def absorb_def split: sum.splits)
  from assms(2) obtain b3 where f: "each (record_success states resolve unit_id_of fallback) successes b0 = Inr b3"
    "each (record_failure load states unit_id_of) failures b3 = Inr b"
    by (auto simp: record_batch_outcomes_def split: sum.splits)
  note s1 = each_skips [OF a(1)]
  have s2: "rb_skipped b2 = rb_skipped b1 \<and> rb_operation b2 = rb_operation b1 \<and> rb_selection b2 = rb_selection b1
    \<and> ids_in ITEM_BLOCKED (rb_items b2) = ids_in ITEM_BLOCKED (rb_items b1) @ map ts_unit_id (gs_unavailable sel)
    \<and> (\<forall>st'. st' \<noteq> ITEM_BLOCKED \<longrightarrow> ids_in st' (rb_items b2) = ids_in st' (rb_items b1))"
    using _ a(2) by (rule each_items) (auto simp: block_unavailable_def block_unit_def)
  have s3: "rb_skipped b0 = rb_skipped b2 \<and> rb_operation b0 = rb_operation b2 \<and> rb_selection b0 = rb_selection b2
    \<and> ids_in ITEM_BLOCKED (rb_items b0) = ids_in ITEM_BLOCKED (rb_items b2) @ map id (gs_unmatched_ids sel)
    \<and> (\<forall>st'. st' \<noteq> ITEM_BLOCKED \<longrightarrow> ids_in st' (rb_items b0) = ids_in st' (rb_items b2))"
    using _ a(3) by (rule each_items) (auto simp: block_unmatched_def block_unit_def)
  have s4: "rb_skipped b3 = rb_skipped b0 \<and> rb_operation b3 = rb_operation b0 \<and> rb_selection b3 = rb_selection b0
    \<and> ids_in ITEM_SUCCEEDED (rb_items b3) = ids_in ITEM_SUCCEEDED (rb_items b0) @ map (unit_id_of \<circ> tr_resource_id) successes
    \<and> (\<forall>st'. st' \<noteq> ITEM_SUCCEEDED \<longrightarrow> ids_in st' (rb_items b3) = ids_in st' (rb_items b0))"
    using _ f(1) by (rule each_items) (auto elim!: record_success_item)
  have s5: "rb_skipped b = rb_skipped b3 \<and> rb_operation b = rb_operation b3 \<and> rb_selection b = rb_selection b3
    \<and> ids_in ITEM_FAILED (rb_items b) = ids_in ITEM_FAILED (rb_items b3) @ map (unit_id_of \<circ> tr_resource_id) failures
    \<and> (\<forall>st'. st' \<noteq> ITEM_FAILED \<longrightarrow> ids_in st' (rb_items b) = ids_in st' (rb_items b3))"
    using _ f(2) by (rule each_items) (auto elim!: record_failure_item)
  have start: "rb_items (new_builder op (gs_mode sel)) = []" "rb_skipped (new_builder op (gs_mode sel)) = []"
    by (simp_all add: new_builder_def)
  have ids: "ids_in ITEM_SUCCEEDED (rb_items b) = map (unit_id_of \<circ> tr_resource_id) successes"
    "ids_in ITEM_FAILED (rb_items b) = map (unit_id_of \<circ> tr_resource_id) failures"
    "ids_in ITEM_BLOCKED (rb_items b) = map ts_unit_id (gs_unavailable sel) @ gs_unmatched_ids sel"
    "map sk_unit_id (rb_skipped b) = map ts_unit_id (gs_skipped sel)"
    using s1 s2 s3 s4 s5 start by (simp_all add: ids_in_def)
  have "builder_inv b0" using absorb_inv [OF builder_inv_new] assms(1) unfolding from_selection_def by blast
  then have "builder_inv b3"
    using f(1) by (rule each_inv [of builder_inv, rotated]) (auto elim!: record_success_item intro: record_item_inv)
  then have inv: "builder_inv b"
    using f(2) by (rule each_inv [of builder_inv, rotated]) (auto elim!: record_failure_item intro: record_item_inv)
  have cover: "set (map ir_unit_id (rb_items b)) = set (ids_in ITEM_SUCCEEDED (rb_items b)) \<union> set (ids_in ITEM_FAILED (rb_items b))
      \<union> set (ids_in ITEM_BLOCKED (rb_items b))"
    using arg_cong [OF states_partition [of "rb_items b"], of set_mset] by (simp add: Un_assoc)
  have "distinct (map ts_unit_id (gs_skipped sel) @ map ir_unit_id (rb_items b))"
    using inv ids(4) by (simp add: builder_inv_def builder_ids_def)
  with build_valid [OF inv] ids cover show ?thesis by metis
qed

subsection \<open>Selection\<close>

lemma sort_states_filters:
  "sort_states override ts sel = sel
     \<lparr>gs_targets := gs_targets sel @ filter (\<lambda>t. ts_unit_id t \<noteq> [] \<and> ts_status t \<noteq> Some BLOCKED
          \<and> \<not> (artifact_is_reusable t \<or> (case override of None \<Rightarrow> False | Some f \<Rightarrow> f (ts_candidate t)))) ts,
      gs_skipped := gs_skipped sel @ filter (\<lambda>t. ts_unit_id t \<noteq> [] \<and> ts_status t \<noteq> Some BLOCKED
          \<and> (artifact_is_reusable t \<or> (case override of None \<Rightarrow> False | Some f \<Rightarrow> f (ts_candidate t)))) ts,
      gs_unavailable := gs_unavailable sel @ filter (\<lambda>t. ts_unit_id t \<noteq> [] \<and> ts_status t = Some BLOCKED) ts\<rparr>"
  by (induction override ts sel rule: sort_states.induct) (simp_all add: Let_def)

lemma observe_all_states:
  "observe_all resolve cs = Inr ts \<Longrightarrow> map ts_candidate ts = cs
     \<and> (\<forall>t \<in> set ts. observe_artifact_status resolve (gc_artifact_key (ts_candidate t)) (gc_artifact_path (ts_candidate t))
          = Inr (ts_status t, ts_blocker t))"
  by (induction resolve cs arbitrary: ts rule: observe_all.induct) (auto split: sum.splits)

definition states_by_id :: "target_state list \<Rightarrow> (string, target_state) dict" where
  "states_by_id ts = foldl (\<lambda>d t. dict_set d (ts_unit_id t) t) [] (filter (\<lambda>t. ts_unit_id t \<noteq> []) ts)"

lemma states_by_id_get: "dict_get (states_by_id ts) u = Some t \<Longrightarrow> t \<in> set ts \<and> ts_unit_id t = u \<and> u \<noteq> []"
  unfolding states_by_id_def dict_get_fold_set by (auto split: option.splits dest: find_memD)

lemma states_by_id_none: "dict_get (states_by_id ts) u = None \<longleftrightarrow> u = [] \<or> u \<notin> ts_unit_id ` set ts"
proof -
  have "dict_get (states_by_id ts) u = None \<longleftrightarrow> find (\<lambda>t. ts_unit_id t = u) (rev (filter (\<lambda>t. ts_unit_id t \<noteq> []) ts)) = None"
    unfolding states_by_id_def dict_get_fold_set by (simp split: option.splits)
  then show ?thesis by (auto simp: find_None_iff)
qed

lemma map_filter_ids:
  "(\<And>u t. d u = Some t \<Longrightarrow> f t = u) \<Longrightarrow> map f (List.map_filter d us) = filter (\<lambda>u. d u \<noteq> None) us"
  by (induction us) (auto simp: List.map_filter_simps split: option.splits)

text \<open>
  A request without identifiers generates exactly the units whose artifact is neither usable
  nor unreadable and that no other artifact stands in for, and sorts every unit into one list;
  an explicit request targets each known identifier once and reports the others.
\<close>

theorem selection_sorts_units:
  assumes "select_generation_targets resolve override candidates requested_ids = Inr sel"
  shows "case requested_ids of
      None \<Rightarrow>
        mset (map ts_candidate (gs_targets sel @ gs_skipped sel @ gs_unavailable sel))
          = mset (filter (\<lambda>c. gc_unit_id c \<noteq> []) candidates)
        \<and> (\<forall>t \<in> set (gs_targets sel). ts_status t = Some MISSING \<or> ts_status t = None)
        \<and> (\<forall>t \<in> set (gs_skipped sel). ts_status t \<in> {Some CURRENT, Some STALE}
             \<or> (\<exists>f. override = Some f \<and> f (ts_candidate t)))
        \<and> (\<forall>t \<in> set (gs_unavailable sel). ts_status t = Some BLOCKED) \<and> gs_unmatched_ids sel = []
    | Some ids \<Rightarrow>
        ids \<noteq> [] \<and> gs_skipped sel = [] \<and> gs_unavailable sel = []
        \<and> map ts_unit_id (gs_targets sel) = filter (\<lambda>u. u \<noteq> [] \<and> u \<in> gc_unit_id ` set candidates) (fromkeys ids)
        \<and> gs_unmatched_ids sel = filter (\<lambda>u. u = [] \<or> u \<notin> gc_unit_id ` set candidates) (fromkeys ids)"
proof -
  from assms obtain states where obs: "observe_all resolve candidates = Inr states" and ne: "requested_ids \<noteq> Some []"
    by (auto simp: select_generation_targets_def split: if_splits sum.splits)
  have cands: "map ts_candidate states = candidates" using observe_all_states [OF obs] by blast
  show ?thesis
  proof (cases requested_ids)
    case None
    have sel: "sel = sort_states override states (empty_selection MISSING_ONLY)"
      using assms obs None by (simp add: select_generation_targets_def)
    have part: "mset (gs_targets sel @ gs_skipped sel @ gs_unavailable sel) = mset (filter (\<lambda>t. ts_unit_id t \<noteq> []) states)"
      unfolding sel sort_states_filters empty_selection_def by (induction states) auto
    have "mset (map ts_candidate (gs_targets sel @ gs_skipped sel @ gs_unavailable sel))
        = mset (map ts_candidate (filter (\<lambda>t. ts_unit_id t \<noteq> []) states))"
      unfolding mset_map part ..
    also have "\<dots> = mset (filter (\<lambda>c. gc_unit_id c \<noteq> []) candidates)"
      unfolding cands [symmetric] by (simp add: filter_map comp_def)
    finally have parts: "mset (map ts_candidate (gs_targets sel @ gs_skipped sel @ gs_unavailable sel))
        = mset (filter (\<lambda>c. gc_unit_id c \<noteq> []) candidates)" .
    have missing: "ts_status t = Some MISSING \<or> ts_status t = None" if "t \<in> set (gs_targets sel)" for t
    proof (cases "ts_status t")
      case (Some st)
      with that show ?thesis
        unfolding sel sort_states_filters empty_selection_def by (cases st) (auto simp: artifact_is_reusable_def)
    qed simp
    have "ts_status t \<in> {Some CURRENT, Some STALE} \<or> (\<exists>f. override = Some f \<and> f (ts_candidate t))"
      if "t \<in> set (gs_skipped sel)" for t
      using that unfolding sel sort_states_filters empty_selection_def
      by (auto simp: artifact_is_reusable_def split: option.splits)
    moreover have "\<forall>t \<in> set (gs_unavailable sel). ts_status t = Some BLOCKED" "gs_unmatched_ids sel = []"
      unfolding sel sort_states_filters empty_selection_def by auto
    ultimately show ?thesis using None parts missing by simp
  next
    case (Some ids)
    let ?d = "dict_get (states_by_id states)"
    have sel: "sel = (empty_selection EXPLICIT)\<lparr>gs_targets := List.map_filter ?d (fromkeys ids),
        gs_unmatched_ids := filter (\<lambda>u. ?d u = None) (fromkeys ids)\<rparr>"
      using assms obs Some ne by (simp add: select_generation_targets_def states_by_id_def Let_def)
    have known: "?d u = None \<longleftrightarrow> u = [] \<or> u \<notin> gc_unit_id ` set candidates" for u
      unfolding states_by_id_none cands [symmetric] by (simp add: image_image)
    have "map ts_unit_id (List.map_filter ?d (fromkeys ids)) = filter (\<lambda>u. ?d u \<noteq> None) (fromkeys ids)"
      by (rule map_filter_ids) (blast dest: states_by_id_get)
    then show ?thesis using Some ne unfolding sel known by (simp add: empty_selection_def)
  qed
qed

text \<open>
  A stored failure with a registered code becomes a problem with that code and the action
  registered for it: every code that can be stored has one.
\<close>

theorem stored_failure_has_action:
  assumes "encode_failure code params = Inr text" and "json_ok (PDict params)"
  shows "\<exists>action. dict_get TASK_FAILURE_ACTIONS code = Some action
    \<and> gp_code (problem_from_task_failure load (Some text) False False) = code
    \<and> gp_action (problem_from_task_failure load (Some text) False False) = action"
proof -
  have code: "known_code code" "text = failure_text code params"
    using assms(1) by (auto simp: encode_failure_def split: if_splits)
  have "list_all (\<lambda>c. dict_get TASK_FAILURE_ACTIONS c \<noteq> None) (dict_keys FAILURE_CODE_KEYS)"
    by code_simp
  then obtain action where action: "dict_get TASK_FAILURE_ACTIONS code = Some action"
    using code(1) by (auto simp: known_code_def list_all_iff)
  have "strip_prefix PERSISTED_GENERATION_PROBLEM_PREFIX text = None"
    unfolding code(2) by (simp add: failure_text_def PERSISTED_GENERATION_PROBLEM_PREFIX_def)
  then have "persisted_generation_problem load (Some text) = None" by (simp add: persisted_generation_problem_def)
  moreover have "\<exists>ps. parse_failure (Some text) = Some (code, ps)"
    unfolding code(2) using parse_failure_text [OF code(1) assms(2)] by blast
  ultimately show ?thesis using action by (auto simp: problem_from_task_failure_def dict_get_or_def)
qed

subsection \<open>Witnesses\<close>

definition demo_candidates :: "generation_candidate list" where
  "demo_candidates =
     [\<lparr>gc_unit_id = ''u1'', gc_artifact_key = None, gc_artifact_path = None\<rparr>,
      \<lparr>gc_unit_id = ''u2'', gc_artifact_key = Some \<lparr>ak_kind = EPISODE_VIDEO, ak_components = [PInt 1, PStr ''u2'']\<rparr>,
       gc_artifact_path = Some ''v/2''\<rparr>]"

definition demo_resolver :: resolver where
  "demo_resolver k p = verdict STALE p None"

definition demo_selection :: generation_selection where
  "demo_selection = (empty_selection MISSING_ONLY)
     \<lparr>gs_targets := [\<lparr>ts_candidate = demo_candidates ! 0, ts_status = Some MISSING, ts_blocker = None\<rparr>],
      gs_skipped := [\<lparr>ts_candidate = demo_candidates ! 1, ts_status = Some STALE, ts_blocker = None\<rparr>]\<rparr>"

lemma demo_select: "select_generation_targets demo_resolver None demo_candidates None = Inr demo_selection"
  by (simp add: select_generation_targets_def demo_candidates_def demo_resolver_def verdict_def demo_selection_def
      empty_selection_def observe_artifact_status_def artifact_is_reusable_def)

lemma selection_sorts_units_witness:
  "mset (map ts_candidate (gs_targets demo_selection @ gs_skipped demo_selection @ gs_unavailable demo_selection))
     = mset (filter (\<lambda>c. gc_unit_id c \<noteq> []) demo_candidates)"
  using selection_sorts_units [OF demo_select] unfolding option.case by (rule conjunct1)

definition demo_failed_row :: batch_task_result where
  "demo_failed_row = \<lparr>tr_resource_id = ''u1'', tr_task_id = ''t1'', tr_status = ''failed'', tr_result = None,
     tr_error = Some ''boom'', tr_task = None, tr_enqueue_interrupted = False\<rparr>"

lemma outcomes_always_reported_witness:
  "\<exists>b0 b r. from_selection ''generate_videos'' demo_selection = Inr b0
     \<and> record_batch_outcomes (\<lambda>_. None) [] None id None [] [demo_failed_row] b0 = Inr b
     \<and> build b = Inr r \<and> br_failed r = [''u1'']"
proof -
  obtain b0 where b0: "from_selection ''generate_videos'' demo_selection = Inr b0" "rb_seen b0 = [''u2'']"
    by (simp add: from_selection_def absorb_def new_builder_def demo_selection_def empty_selection_def
        skip_state_def skip_unit_def demo_candidates_def)
  have "\<exists>b. record_batch_outcomes (\<lambda>_. None) [] None id None [] [demo_failed_row] b0 = Inr b"
    by (simp add: record_batch_outcomes_def record_failure_def fail_unit_def record_item_def make_item_def item_ok_def
        demo_failed_row_def Let_def b0(2))
  then obtain b where b: "record_batch_outcomes (\<lambda>_. None) [] None id None [] [demo_failed_row] b0 = Inr b" ..
  obtain r where "build b = Inr r" "br_failed r = map (id \<circ> tr_resource_id) [demo_failed_row]"
    using outcomes_always_reported [OF b0(1) b] by blast
  with b0(1) b show ?thesis by (auto simp: demo_failed_row_def)
qed

lemma stored_failure_has_action_witness:
  "\<exists>text. encode_failure ''tts_missing'' [] = Inr text
     \<and> gp_code (problem_from_task_failure (\<lambda>_. None) (Some text) False False) = ''tts_missing''"
proof -
  have "known_code ''tts_missing''"
    by (simp add: known_code_def FAILURE_CODE_KEYS_def NARRATION_DELIVERY_FAILURE_CODES_def)
  then have enc: "encode_failure ''tts_missing'' [] = Inr (failure_text ''tts_missing'' [])" by (simp add: encode_failure_def)
  with stored_failure_has_action [OF enc, of "\<lambda>_. None"] show ?thesis by auto
qed

end
