(* ===== verification/Batch_Admission_Props.thy ===== *)
theory Batch_Admission_Props
  imports Batch_Admission Generation_Result_Props Task_Queue_Props
begin

text \<open>
  A refused batch reports every unit blocked with a reason and creates nothing; the view of a
  durable batch accounts for every requested unit; and once a batch is finished its outcome stays
  the same whatever the queue does next, because the rows of finished tasks are final.
\<close>

subsection \<open>Admission\<close>

lemma decision_cases:
  "decision a = ADMITTED \<longleftrightarrow> (\<forall>t \<in> set (ba_tickets a). at_problems t = [])"
  "decision a = CONFIRMATION_REQUIRED \<longleftrightarrow>
     (\<exists>t \<in> set (ba_tickets a). at_problems t \<noteq> []) \<and>
     (\<forall>t \<in> set (ba_tickets a). \<forall>p \<in> set (at_problems t). gp_code p = DURATION_CONFIRMATION_CODE)"
  by (auto simp: decision_def Let_def ticket_admitted_def confirmation_only_def filter_empty_conv list_all_iff)

lemma refused_holds:
  assumes "\<not> admitted a"
  shows "holding_unit_ids a \<noteq> []"
  using assms unfolding admitted_def decision_cases
  by (auto simp: holding_unit_ids_def refused_tickets_def ticket_admitted_def filter_empty_conv)

definition refusal_code :: "admission_ticket \<Rightarrow> string" where
  "refusal_code t = (case at_problems t of [] \<Rightarrow> BATCH_ADMISSION_WITHHELD | p # _ \<Rightarrow> gp_code p)"

lemma refuse_ticket_blocks:
  assumes "\<not> admitted a"
  obtains p key path st where "refuse_ticket render states a t b = block_unit (at_unit_id t) p key path st b"
    "gp_code p = refusal_code t"
proof -
  have hold: "holding_unit_ids a \<noteq> []" by (rule refused_holds [OF assms])
  have "\<exists>p key path st. refuse_ticket render states a t b = block_unit (at_unit_id t) p key path st b \<and> gp_code p = refusal_code t"
  proof (cases "at_problems t")
    case Nil
    with hold show ?thesis
      by (cases "dict_get states (at_unit_id t)")
        (force simp: refuse_ticket_def withheld_problem_for_def ticket_admitted_def withheld_problem_def refusal_code_def)+
  next
    case (Cons p ps)
    then show ?thesis
      by (cases "dict_get states (at_unit_id t)") (force simp: refuse_ticket_def refusal_code_def Let_def)+
  qed
  then show ?thesis using that by blast
qed

lemma block_unit_fresh:
  assumes "u \<notin> set (rb_seen b)"
  shows "\<exists>b' i. block_unit u p key path st b = Inr b' \<and> record_item i b = Inr b' \<and> ir_unit_id i = u
    \<and> ir_state i = ITEM_BLOCKED \<and> ir_problem i = Some p"
proof -
  let ?i = "\<lparr>ir_unit_id = u, ir_state = ITEM_BLOCKED, ir_artifact_key = map_option encode_key key,
       ir_artifact_path = path, ir_task_id = None, ir_task_state = NOT_QUEUED,
       ir_artifact_status = st, ir_provider_checkpoint = None, ir_problem = Some p\<rparr>"
  have "\<exists>b'. record_item ?i b = Inr b'" using assms by (simp add: record_item_def make_item_def item_ok_def)
  then obtain b' where b': "record_item ?i b = Inr b'" ..
  show ?thesis by (rule exI [of _ b'], rule exI [of _ ?i]) (simp add: block_unit_def b')
qed

lemma refuse_ticket_item:
  assumes "\<not> admitted a" and "at_unit_id t \<notin> set (rb_seen b)"
  shows "\<exists>b' i. refuse_ticket render states a t b = Inr b' \<and> record_item i b = Inr b' \<and> ir_unit_id i = at_unit_id t
    \<and> ir_state i = ITEM_BLOCKED \<and> map_option gp_code (ir_problem i) = Some (refusal_code t)"
proof -
  obtain p key path st where r: "refuse_ticket render states a t b = block_unit (at_unit_id t) p key path st b"
    "gp_code p = refusal_code t" by (rule refuse_ticket_blocks [OF assms(1)])
  from block_unit_fresh [OF assms(2), of p key path st] r show ?thesis by auto
qed

lemma refuse_all:
  assumes "\<not> admitted a" and "distinct (map at_unit_id ts)" and "set (map at_unit_id ts) \<inter> set (rb_seen b) = {}"
  shows "\<exists>b' items. each (refuse_ticket render states a) ts b = Inr b' \<and> rb_items b' = rb_items b @ items
    \<and> map ir_unit_id items = map at_unit_id ts \<and> list_all (\<lambda>i. ir_state i = ITEM_BLOCKED) items
    \<and> map (\<lambda>i. map_option gp_code (ir_problem i)) items = map (Some \<circ> refusal_code) ts"
  using assms(2,3)
proof (induction ts arbitrary: b)
  case (Cons t ts)
  obtain b1 i where b1: "refuse_ticket render states a t b = Inr b1" "record_item i b = Inr b1" "ir_unit_id i = at_unit_id t"
    "ir_state i = ITEM_BLOCKED" "map_option gp_code (ir_problem i) = Some (refusal_code t)"
    using refuse_ticket_item [OF assms(1), of t b render states] Cons.prems(2) by (metis disjoint_iff list.set_intros(1) list.simps(9))
  have eq: "b1 = b\<lparr>rb_seen := ir_unit_id i # rb_seen b, rb_items := rb_items b @ [i]\<rparr>"
    by (rule record_item_cases(3) [OF b1(2)])
  have "set (map at_unit_id ts) \<inter> set (rb_seen b1) = {}" using Cons.prems b1(3) by (auto simp: eq)
  then obtain b' items' where "each (refuse_ticket render states a) ts b1 = Inr b'" "rb_items b' = rb_items b1 @ items'"
    "map ir_unit_id items' = map at_unit_id ts" "list_all (\<lambda>i. ir_state i = ITEM_BLOCKED) items'"
    "map (\<lambda>i. map_option gp_code (ir_problem i)) items' = map (Some \<circ> refusal_code) ts"
    using Cons.IH [of b1] Cons.prems(1) by auto
  with b1 show ?case by (intro exI [of _ b'] exI [of _ "i # items'"]) (simp add: eq)
qed simp

text \<open>
  A batch is admitted exactly when no unit has a problem. A refused batch reports every unit
  as blocked, with its own first problem or the one that names the units holding it back, never
  raises, and its result passes the validation with nothing executed.
\<close>

theorem refusal_blocks_every_unit:
  assumes "\<not> admitted a" and "distinct (map at_unit_id (ba_tickets a))"
  shows "(\<exists>t \<in> set (ba_tickets a). at_problems t \<noteq> [])
    \<and> (\<exists>b r. record_refusal render states a (new_builder op mode) = Inr b \<and> build b = Inr r
      \<and> br_blocked r = map at_unit_id (ba_tickets a) \<and> br_succeeded r = [] \<and> br_failed r = []
      \<and> map (\<lambda>i. map_option gp_code (ir_problem i)) (rb_items b) = map (Some \<circ> refusal_code) (ba_tickets a))"
proof
  show "\<exists>t \<in> set (ba_tickets a). at_problems t \<noteq> []" using assms(1) unfolding admitted_def decision_cases by blast
  obtain b items where b: "each (refuse_ticket render states a) (ba_tickets a) (new_builder op mode) = Inr b"
    "rb_items b = items" "map ir_unit_id items = map at_unit_id (ba_tickets a)" "list_all (\<lambda>i. ir_state i = ITEM_BLOCKED) items"
    "map (\<lambda>i. map_option gp_code (ir_problem i)) items = map (Some \<circ> refusal_code) (ba_tickets a)"
    using refuse_all [OF assms(1,2), of "new_builder op mode" render states] by (auto simp: new_builder_def)
  have "builder_inv b"
    using builder_inv_new b(1)
    by (rule each_inv [of builder_inv, rotated])
      (auto simp: refuse_ticket_def Let_def split: option.splits intro: block_unit_inv)
  then obtain r where "build b = Inr r" "br_blocked r = ids_in ITEM_BLOCKED items" "br_succeeded r = ids_in ITEM_SUCCEEDED items"
    "br_failed r = ids_in ITEM_FAILED items"
    using build_valid [of b] b(2) by blast
  moreover have "filter (\<lambda>i. ir_state i = ITEM_BLOCKED) items = items" "filter (\<lambda>i. ir_state i = ITEM_SUCCEEDED) items = []"
    "filter (\<lambda>i. ir_state i = ITEM_FAILED) items = []"
    using b(4) by (auto simp: list_all_iff filter_empty_conv intro: filter_True)
  ultimately show "\<exists>b r. record_refusal render states a (new_builder op mode) = Inr b \<and> build b = Inr r
      \<and> br_blocked r = map at_unit_id (ba_tickets a) \<and> br_succeeded r = [] \<and> br_failed r = []
      \<and> map (\<lambda>i. map_option gp_code (ir_problem i)) (rb_items b) = map (Some \<circ> refusal_code) (ba_tickets a)"
    using b assms(1) by (auto simp: record_refusal_def ids_in_def)
qed

definition demo_ticket :: "string \<Rightarrow> generation_problem list \<Rightarrow> request_cost option \<Rightarrow> admission_ticket" where
  "demo_ticket u ps c = \<lparr>at_unit_id = u, at_problems = ps, at_request_duration = Some 8, at_current_duration = Some 6,
     at_request_cost = c, at_projection = None\<rparr>"

definition demo_admission :: batch_admission where
  "demo_admission = \<lparr>ba_operation = ''generate_videos'', ba_selection = EXPLICIT, ba_narration_delivery = ''post'',
     ba_tickets = [demo_ticket ''u1'' [] None,
       demo_ticket ''u2'' [plain_problem ''tts_missing'' ''no audio'' GENERATE_TTS] None]\<rparr>"

lemma refusal_blocks_every_unit_witness:
  "\<exists>b r. record_refusal (\<lambda>_. []) [] demo_admission (new_builder ''generate_videos'' EXPLICIT) = Inr b
     \<and> build b = Inr r \<and> br_blocked r = [''u1'', ''u2'']"
proof -
  have "\<not> admitted demo_admission" "distinct (map at_unit_id (ba_tickets demo_admission))"
    unfolding admitted_def decision_cases by (simp_all add: demo_admission_def demo_ticket_def)
  from refusal_blocks_every_unit [OF this, of "\<lambda>_. []" "[]" "''generate_videos''" EXPLICIT]
  show ?thesis by (auto simp: demo_admission_def demo_ticket_def)
qed

text \<open>
  A tier's total counts a member that is quoted without a currency as if it were quoted in the
  currency of the others, although a tier not quoted in one currency is to have no total.
\<close>

definition mixed_admission :: batch_admission where
  "mixed_admission = \<lparr>ba_operation = ''generate_videos'', ba_selection = EXPLICIT, ba_narration_delivery = ''post'',
     ba_tickets =
       [demo_ticket ''u1'' [plain_problem DURATION_CONFIRMATION_CODE '''' CONFIRM_REQUEST_DURATION]
          (Some [(''amount'', QNumber 2), (''currency'', QText ''USD'')]),
        demo_ticket ''u2'' [plain_problem DURATION_CONFIRMATION_CODE '''' CONFIRM_REQUEST_DURATION]
          (Some [(''amount'', QNumber 30)])]\<rparr>"

lemma tier_total_counts_unquoted_currency:
  "map (\<lambda>c. (ct_cost_amount c, ct_cost_currency c)) (confirmation_tiers mixed_admission) = [(Some 32, Some ''USD'')]"
  by (simp add: confirmation_tiers_def mixed_admission_def demo_ticket_def plain_problem_def confirmation_only_def
      group_by_def dict_append_def dict_get_or_def order_by_def confirmation_tier_of_def cost_amount_def cost_currency_def
      List.map_filter_simps)

subsection \<open>The read model\<close>

lemma make_all_related:
  assumes "make_all f xs = Inr ys" and "\<And>x y. x \<in> set xs \<Longrightarrow> f x = Inr y \<Longrightarrow> \<exists>y'. f' x = Inr y' \<and> R y y'"
  shows "\<exists>ys'. make_all f' xs = Inr ys' \<and> list_all2 R ys ys'"
  using assms
proof (induction f xs arbitrary: ys rule: make_all.induct)
  case (2 f x xs)
  then obtain y ys0 where y: "f x = Inr y" "make_all f xs = Inr ys0" "ys = y # ys0" by (auto split: sum.splits)
  from "2.prems"(2) [of x y] y(1) obtain y' where "f' x = Inr y'" "R y y'" by auto
  moreover obtain ys' where "make_all f' xs = Inr ys'" "list_all2 R ys0 ys'"
    using "2.IH" [OF y(1,2)] "2.prems"(2) by (metis list.set_intros(2))
  ultimately show ?case using y(3) by simp
qed simp

lemma stored_batch_same:
  assumes "stored_batch s blocked = Inr (s', entries)"
  shows "s' = s" and "entries = blocked" and "distinct (map rq_unit_id (rs_requested s))"
    and "distinct (map sk_unit_id (rs_skipped s) @ map rq_unit_id (rs_requested s))"
proof -
  have mb: "make_all make_blocked bs = Inr bs' \<Longrightarrow> bs' = bs" for bs bs'
    by (induction bs arbitrary: bs') (auto simp: make_blocked_def split: sum.splits if_splits)
  show "s' = s" "entries = blocked" "distinct (map rq_unit_id (rs_requested s))"
    "distinct (map sk_unit_id (rs_skipped s) @ map rq_unit_id (rs_requested s))"
    using assms mb by (auto simp: stored_batch_def make_snapshot_def Let_def split: sum.splits if_splits)
qed

definition blocked_by_unit :: "blocked_item list \<Rightarrow> (string, blocked_item) dict" where
  "blocked_by_unit ks = foldl (\<lambda>d k. dict_set d (ir_unit_id (bk_item k)) k) [] ks"

lemma blocked_by_unit_id: "dict_get (blocked_by_unit ks) u = Some k \<Longrightarrow> ir_unit_id (bk_item k) = u"
  unfolding blocked_by_unit_def dict_get_fold_set by (auto split: option.splits dest: find_memD)

lemma row_item_id: "row_item load lp rs r t = Inr i \<Longrightarrow> ir_unit_id i = rq_unit_id r"
  by (auto simp: row_item_def make_item_def Let_def split: sum.splits option.splits if_splits prod.splits)

lemma outcome_id: "outcome_of load lp rs (blocked_by_unit ks) rows r = Inr i \<Longrightarrow> ir_unit_id i = rq_unit_id r"
  by (auto simp: outcome_of_def never_queued_item_def make_item_def blocked_by_unit_id row_item_id
      split: option.splits if_splits prod.splits)

abbreviation outcome_builder :: "string \<Rightarrow> request_snapshot \<Rightarrow> item_result list \<Rightarrow> result_builder" where
  "outcome_builder op s items \<equiv>
     \<lparr>rb_operation = op, rb_selection = rs_selection s, rb_items = items, rb_skipped = rs_skipped s, rb_seen = []\<rparr>"

lemma terminal_result_build:
  "terminal_result load lp rs op s blocked rows =
     (case make_all (outcome_of load lp rs blocked rows) (rs_requested s) of
        Inl e \<Rightarrow> Inl e | Inr items \<Rightarrow> build (outcome_builder op s items))"
  by (simp add: terminal_result_def build_def split: sum.splits)

lemma terminal_result_valid:
  assumes "distinct (map sk_unit_id (rs_skipped s) @ map rq_unit_id (rs_requested s))"
    and "make_all (outcome_of load lp rs (blocked_by_unit ks) rows) (rs_requested s) = Inr items"
  shows "\<exists>r. terminal_result load lp rs op s (blocked_by_unit ks) rows = Inr r \<and> br_requested r = map rq_unit_id (rs_requested s)
    \<and> br_succeeded r = ids_in ITEM_SUCCEEDED items \<and> br_failed r = ids_in ITEM_FAILED items
    \<and> br_blocked r = ids_in ITEM_BLOCKED items"
proof -
  have "list_all2 (\<lambda>r i. ir_unit_id i = rq_unit_id r) (rs_requested s) items"
    using make_all_items [OF assms(2)] by (rule list_all2_mono) (rule outcome_id)
  then have ids: "map ir_unit_id items = map rq_unit_id (rs_requested s)"
    by (induction rule: list_all2_induct) simp_all
  have "distinct (builder_ids (outcome_builder op s items))" using assms(1) ids by (simp add: builder_ids_def)
  from build_distinct [OF this] show ?thesis using assms(2) ids by (auto simp: terminal_result_build)
qed

lemma sum_member_counts: "sum_list (map snd (member_counts ms)) = length ms"
proof (induction ms)
  case (Cons m ms)
  show ?case
  proof (cases "bm_status m")
    case (MS st)
    with Cons show ?thesis by (cases st) (simp_all add: member_counts_def member_statuses_def count_rows_def)
  next
    case MS_BLOCKED
    with Cons show ?thesis by (simp add: member_counts_def member_statuses_def count_rows_def)
  qed
qed (simp add: member_counts_def member_statuses_def count_rows_def)

lemma read_model_cases:
  assumes "build_generation_batch_read_model load lp rs batch s blocked ms depths = Inr v"
  obtains "stored_batch s blocked = Inr (s, blocked)"
    and "rm_members v = map (member_of (blocked_by_unit blocked) (memberships_by_unit ms)) (rs_requested s)"
    and "rm_done v = list_all settled_member (rm_members v)" and "rm_total v = length (rm_members v)"
    and "rm_counts v = member_counts (rm_members v)"
    and "rm_poll_after v = (if rm_done v then None else Some (poll_after_seconds (map snd ms) depths))"
    and "if rm_done v
      then \<exists>r. rm_result v = Some r \<and> terminal_result load lp rs (gb_operation batch) s (blocked_by_unit blocked) (memberships_by_unit ms) = Inr r
      else rm_result v = None"
proof -
  obtain s' entries where st: "stored_batch s blocked = Inr (s', entries)"
    using assms by (auto simp: build_generation_batch_read_model_def split: sum.splits)
  note same = stored_batch_same(1,2) [OF st]
  have "stored_batch s blocked = Inr (s, blocked)" using st same by simp
  with assms show ?thesis
    unfolding blocked_by_unit_def
    by (intro that) (auto simp: build_generation_batch_read_model_def blocked_by_unit_def Let_def map_sum_def split: sum.splits if_splits)
qed

lemma settled_member_iff:
  "settled_member (member_of blocked rows r) \<longleftrightarrow>
     (case dict_get blocked (rq_unit_id r) of
        Some k \<Rightarrow> True
      | None \<Rightarrow> (case dict_get rows (rq_unit_id r) of None \<Rightarrow> True | Some (m, t) \<Rightarrow> terminal (status t)))"
  by (auto simp: settled_member_def member_of_def Let_def terminal_def TERMINAL_TASK_STATUSES_def split: option.splits)

lemma poll_bounds: "3 \<le> poll_after_seconds ts d \<and> poll_after_seconds ts d \<le> 30"
proof -
  have base: "3 \<le> poll_base t" for t by (simp add: poll_base_def)
  have "3 \<le> (if act = [] then 3 else Max (set (map (poll_base \<circ> task_type) act)))" for act
  proof (cases "act = []")
    case False
    then have "(poll_base \<circ> task_type) (hd act) \<le> Max (set (map (poll_base \<circ> task_type) act))" by (intro Max_ge) auto
    with base [of "task_type (hd act)"] have "3 \<le> Max (set (map (poll_base \<circ> task_type) act))"
      by (simp del: set_map Max_ge_iff)
    with False show ?thesis by (simp only: if_False)
  qed simp
  then show ?thesis
    unfolding poll_after_seconds_def Let_def by (intro conjI min.boundedI trans_le_add1 min.cobounded1) simp
qed

text \<open>A batch of one unit whose task has run to the end.\<close>

definition demo_snapshot :: request_snapshot where
  "demo_snapshot = \<lparr>rs_selection = EXPLICIT,
     rs_requested = [\<lparr>rq_unit_id = ''u1'', rq_artifact_key = None, rq_artifact_path = None, rq_artifact_status = None,
       rq_admission = []\<rparr>],
     rs_skipped = []\<rparr>"

definition demo_batch :: generation_batch where
  "demo_batch = \<lparr>gb_batch_id = ''b1'', gb_project_name = ''p'', gb_operation = ''generate_videos'', gb_requested_json = [],
     gb_blocked_json = [], gb_source = ''chat'', gb_user_id = ''u'', gb_created_at = 1\<rparr>"

definition demo_members :: "membership list" where
  "demo_members = [(\<lparr>bt_batch_id = ''b1'', bt_task_id = ''a'', bt_unit_id = ''u1'', bt_deduped = False\<rparr>,
     hd (tasks demo_done))]"

lemma demo_batch_view:
  obtains v where "build_generation_batch_read_model (\<lambda>_. None) (\<lambda>_. None) None demo_batch demo_snapshot [] demo_members [] = Inr v"
    "rm_done v"
proof -
  have "map_sum id rm_done (build_generation_batch_read_model (\<lambda>_. None) (\<lambda>_. None) None demo_batch demo_snapshot [] demo_members [])
      = Inr True"
    by code_simp
  then show thesis
    using that
    by (cases "build_generation_batch_read_model (\<lambda>_. None) (\<lambda>_. None) None demo_batch demo_snapshot [] demo_members []") simp_all
qed

text \<open>
  The view of a batch accounts for every requested unit, in the order of the request, and its
  counts add up. The batch is finished exactly when every unit is blocked, was never queued or
  has a finished task; then its result is valid and covers the request, and otherwise there is no
  result and the client is told to ask again in three to thirty seconds.
\<close>

theorem read_model_accounts:
  assumes "build_generation_batch_read_model load load_problem resolve batch s blocked ms depths = Inr v"
  shows "map bm_unit_id (rm_members v) = map rq_unit_id (rs_requested s)
    \<and> sum_list (map snd (rm_counts v)) = rm_total v \<and> rm_total v = length (rs_requested s)
    \<and> (rm_done v \<longleftrightarrow> (\<forall>r \<in> set (rs_requested s). rq_unit_id r \<in> set (map (ir_unit_id \<circ> bk_item) blocked)
         \<or> (case dict_get (memberships_by_unit ms) (rq_unit_id r) of None \<Rightarrow> True | Some (m, t) \<Rightarrow> terminal (status t))))
    \<and> (if rm_done v then \<exists>r. rm_result v = Some r \<and> br_requested r = map rq_unit_id (rs_requested s)
            \<and> mset (br_succeeded r @ br_failed r @ br_blocked r) = mset (br_requested r) \<and> rm_poll_after v = None
       else rm_result v = None \<and> (\<exists>n. rm_poll_after v = Some n \<and> 3 \<le> n \<and> n \<le> 30))"
proof -
  note c = read_model_cases [OF assms]
  have ids: "map bm_unit_id (rm_members v) = map rq_unit_id (rs_requested s)"
    by (rule c) (auto simp: member_of_def Let_def split: option.splits)
  have counts: "sum_list (map snd (rm_counts v)) = rm_total v" by (rule c) (simp add: sum_member_counts)
  have total: "rm_total v = length (rs_requested s)" by (rule c) simp
  have known: "dict_get (blocked_by_unit blocked) u = None \<longleftrightarrow> u \<notin> set (map (ir_unit_id \<circ> bk_item) blocked)" for u
    unfolding blocked_by_unit_def dict_get_fold_set by (auto simp: find_None_iff split: option.splits)
      (auto dest: find_memD)
  have fin: "rm_done v \<longleftrightarrow> (\<forall>r \<in> set (rs_requested s). rq_unit_id r \<in> set (map (ir_unit_id \<circ> bk_item) blocked)
         \<or> (case dict_get (memberships_by_unit ms) (rq_unit_id r) of None \<Rightarrow> True | Some (m, t) \<Rightarrow> terminal (status t)))"
  proof (rule c)
    assume m: "rm_members v = map (member_of (blocked_by_unit blocked) (memberships_by_unit ms)) (rs_requested s)"
      and d: "rm_done v = list_all settled_member (rm_members v)"
    have one: "settled_member (member_of (blocked_by_unit blocked) (memberships_by_unit ms) r)
        \<longleftrightarrow> rq_unit_id r \<in> set (map (ir_unit_id \<circ> bk_item) blocked)
          \<or> (case dict_get (memberships_by_unit ms) (rq_unit_id r) of None \<Rightarrow> True | Some (m, t) \<Rightarrow> terminal (status t))" for r
      unfolding settled_member_iff using known [of "rq_unit_id r"] by (auto split: option.splits)
    show ?thesis unfolding d m by (simp only: list_all_iff set_map ball_simps one [unfolded set_map])
  qed
  have result: "if rm_done v then \<exists>r. rm_result v = Some r \<and> br_requested r = map rq_unit_id (rs_requested s)
            \<and> mset (br_succeeded r @ br_failed r @ br_blocked r) = mset (br_requested r) \<and> rm_poll_after v = None
       else rm_result v = None \<and> (\<exists>n. rm_poll_after v = Some n \<and> 3 \<le> n \<and> n \<le> 30)"
  proof (rule c)
    assume st: "stored_batch s blocked = Inr (s, blocked)"
      and poll: "rm_poll_after v = (if rm_done v then None else Some (poll_after_seconds (map snd ms) depths))"
      and res: "if rm_done v
      then \<exists>r. rm_result v = Some r \<and> terminal_result load load_problem resolve (gb_operation batch) s (blocked_by_unit blocked) (memberships_by_unit ms) = Inr r
      else rm_result v = None"
    show ?thesis
    proof (cases "rm_done v")
      case True
      with res obtain r where r: "rm_result v = Some r"
        "terminal_result load load_problem resolve (gb_operation batch) s (blocked_by_unit blocked) (memberships_by_unit ms) = Inr r" by auto
      then obtain items where items: "make_all (outcome_of load load_problem resolve (blocked_by_unit blocked) (memberships_by_unit ms)) (rs_requested s) = Inr items"
        by (auto simp: terminal_result_def split: sum.splits)
      have "list_all2 (\<lambda>r i. ir_unit_id i = rq_unit_id r) (rs_requested s) items"
        using make_all_items [OF items] by (rule list_all2_mono) (rule outcome_id)
      then have "map ir_unit_id items = map rq_unit_id (rs_requested s)" by (induction rule: list_all2_induct) simp_all
      then show ?thesis
        using terminal_result_valid [OF stored_batch_same(4) [OF st] items, of "gb_operation batch"] r True poll
          states_partition [of items] by auto
    next
      case False
      with poll res poll_bounds show ?thesis by auto
    qed
  qed
  from ids counts total fin result show ?thesis by blast
qed

lemma read_model_accounts_witness:
  "\<exists>v. build_generation_batch_read_model (\<lambda>_. None) (\<lambda>_. None) None demo_batch demo_snapshot [] demo_members [] = Inr v
     \<and> map bm_unit_id (rm_members v) = [''u1''] \<and> rm_total v = 1"
proof -
  obtain v where v: "build_generation_batch_read_model (\<lambda>_. None) (\<lambda>_. None) None demo_batch demo_snapshot [] demo_members [] = Inr v"
    by (rule demo_batch_view)
  have "map rq_unit_id (rs_requested demo_snapshot) = [''u1'']" "length (rs_requested demo_snapshot) = 1"
    by (simp_all add: demo_snapshot_def)
  then show ?thesis using v read_model_accounts [OF v] by metis
qed

subsection \<open>A finished batch stays as it is\<close>

text \<open>The same memberships, with the rows their tasks have in a later state of the database.\<close>

definition later_rows :: "queue_db \<Rightarrow> membership list \<Rightarrow> membership list" where
  "later_rows db ms = map (\<lambda>(m, t). (m, case find_task (tasks db) (task_id t) of None \<Rightarrow> t | Some t' \<Rightarrow> t')) ms"

lemma later_by_unit:
  "dict_get (memberships_by_unit (map (\<lambda>(m, t). (m, g t)) ms)) u = map_option (\<lambda>(m, t). (m, g t)) (dict_get (memberships_by_unit ms) u)"
proof -
  have found: "find (\<lambda>x. bt_unit_id (fst x) = u) (map (\<lambda>(m, t). (m, g t)) xs)
      = map_option (\<lambda>(m, t). (m, g t)) (find (\<lambda>x. bt_unit_id (fst x) = u) xs)" for xs
    by (induction xs) auto
  then show ?thesis
    unfolding memberships_by_unit_def dict_get_fold_set rev_map found
    by (simp split: option.splits)
qed

lemma make_item_checkpoint:
  "make_item x = Inr i \<Longrightarrow> make_item (x\<lparr>ir_provider_checkpoint := c\<rparr>) = Inr (i\<lparr>ir_provider_checkpoint := c\<rparr>)"
  by (auto simp: make_item_def item_ok_def split: if_splits)

lemma row_item_outcome:
  assumes "status t' = status t" "result_json t' = result_json t" "error_message t' = error_message t" "task_id t' = task_id t"
    and row: "row_item load lp rs r t = Inr i"
  shows "\<exists>cp. row_item load lp rs r t' = Inr (i\<lparr>ir_provider_checkpoint := cp\<rparr>)"
proof -
  let ?c = "provider_checkpoint_from_task (Some (task_to_dict t'))"
  have ur: "unit_result_of t' = unit_result_of t" by (rule ext) (simp add: unit_result_of_def assms(2))
  obtain result ur where u: "unit_result_of t (rq_unit_id r) = Inr (result, ur)"
    using row unfolding row_item_def by (cases "unit_result_of t (rq_unit_id r)") auto
  obtain path where p: "first_path [row_get ur ''file_path'', row_get result ''file_path''] (rq_artifact_path r) = Inr path"
    using row unfolding row_item_def u
    by (cases "first_path [row_get ur ''file_path'', row_get result ''file_path''] (rq_artifact_path r)") simp_all
  have "row_item load lp rs r t' = Inr (i\<lparr>ir_provider_checkpoint := ?c\<rparr>)"
  proof (cases "pv_truthy (row_get ur ''problem'')")
    case True
    with row u p show ?thesis
      unfolding row_item_def ur assms(1,3,4)
      by (cases "lp (row_get ur ''problem'')") (simp_all add: Let_def, drule make_item_checkpoint [of _ _ ?c], simp)
  next
    case False
    show ?thesis
    proof (cases "status t = Succeeded")
      case True
      with row u p False show ?thesis
        unfolding row_item_def ur assms(1,3,4)
        by (cases "current_status rs (rq_artifact_key r) path") (simp_all add: Let_def, drule make_item_checkpoint [of _ _ ?c], simp)
    next
      case ended: False
      with row u p False show ?thesis
        unfolding row_item_def ur assms(1,3,4) by (simp add: Let_def) (drule make_item_checkpoint [of _ _ ?c], simp)
    qed
  qed
  then show ?thesis ..
qed

definition same_verdict :: "item_result \<Rightarrow> item_result \<Rightarrow> bool" where
  "same_verdict i j \<longleftrightarrow> (\<exists>cp. j = i\<lparr>ir_provider_checkpoint := cp\<rparr>)"

lemma same_verdict_fields: "same_verdict i j \<Longrightarrow> ir_unit_id j = ir_unit_id i \<and> ir_state j = ir_state i"
  by (auto simp: same_verdict_def)

lemma same_verdict_ids: "list_all2 same_verdict items items' \<Longrightarrow> ids_in st items' = ids_in st items"
  by (induction rule: list_all2_induct) (simp_all add: ids_in_def same_verdict_fields)

text \<open>
  Once a batch is finished, nothing the queue does later changes what it reports: every unit
  keeps its status, and the same units have succeeded, failed and been blocked.
\<close>

theorem batch_outcome_final:
  assumes "queue_run empty_queue db" and "queue_run db db'"
    and "\<forall>(m, t) \<in> set ms. find_task (tasks db) (task_id t) = Some t"
    and "build_generation_batch_read_model load load_problem resolve batch s blocked ms depths = Inr v" and "rm_done v"
  shows "\<exists>v' r r'. build_generation_batch_read_model load load_problem resolve batch s blocked (later_rows db' ms) depths' = Inr v'
    \<and> rm_done v' \<and> map bm_status (rm_members v') = map bm_status (rm_members v)
    \<and> rm_result v = Some r \<and> rm_result v' = Some r'
    \<and> br_succeeded r' = br_succeeded r \<and> br_failed r' = br_failed r \<and> br_blocked r' = br_blocked r"
proof -
  let ?b = "blocked_by_unit blocked" and ?rows = "memberships_by_unit ms" and ?rows' = "memberships_by_unit (later_rows db' ms)"
  define later where "later t = (case find_task (tasks db') (task_id t) of None \<Rightarrow> t | Some t' \<Rightarrow> t')" for t
  have rows': "dict_get ?rows' u = map_option (\<lambda>(m, t). (m, later t)) (dict_get ?rows u)" for u
    unfolding later_rows_def later_def [symmetric] by (rule later_by_unit)
  have same: "status (later t) = status t \<and> result_json (later t) = result_json t \<and> error_message (later t) = error_message t
      \<and> task_id (later t) = task_id t" if mem: "(m, t) \<in> set ms" and fin: "terminal (status t)" for m t
  proof -
    have find: "find_task (tasks db) (task_id t) = Some t" using assms(3) mem by blast
    obtain t' where "find_task (tasks db') (task_id t) = Some t'" "same_identity t t'" "status t' = status t" "same_outcome t t'"
      using run_terminal_row [OF assms(2) run_table_inv [OF assms(1)] find fin] by blast
    then show ?thesis by (auto simp: later_def same_identity_def same_outcome_def)
  qed
  have member: "(m, t) \<in> set ms" if "dict_get ?rows u = Some (m, t)" for u m t
    using that unfolding memberships_by_unit_def dict_get_fold_set by (auto split: option.splits dest: find_memD)
  note c = read_model_cases [OF assms(4)]
  have st: "stored_batch s blocked = Inr (s, blocked)" by (rule c)
  have settled: "settled_member (member_of ?b ?rows r)" if "r \<in> set (rs_requested s)" for r
    by (rule c) (use assms(5) that in \<open>auto simp: list_all_iff\<close>)
  have finished: "terminal (status t)" if "r \<in> set (rs_requested s)" "dict_get ?b (rq_unit_id r) = None"
    "dict_get ?rows (rq_unit_id r) = Some (m, t)" for r m t
    using settled [OF that(1)] that(2,3) unfolding settled_member_iff by simp
  have status: "bm_status (member_of ?b ?rows' r) = bm_status (member_of ?b ?rows r)" if "r \<in> set (rs_requested s)" for r
    using finished [OF that] member same
    by (auto simp: member_of_def Let_def rows' split: option.splits) blast+
  obtain r where r: "rm_result v = Some r"
    "terminal_result load load_problem resolve (gb_operation batch) s ?b ?rows = Inr r"
    by (rule c) (use assms(5) in auto)
  then obtain items where items: "make_all (outcome_of load load_problem resolve ?b ?rows) (rs_requested s) = Inr items"
    by (auto simp: terminal_result_def split: sum.splits)
  have one: "\<exists>j. outcome_of load load_problem resolve ?b ?rows' q = Inr j \<and> same_verdict i j"
    if "q \<in> set (rs_requested s)" "outcome_of load load_problem resolve ?b ?rows q = Inr i" for q i
  proof (cases "\<exists>m t. dict_get ?b (rq_unit_id q) = None \<and> dict_get ?rows (rq_unit_id q) = Some (m, t)")
    case False
    then have "outcome_of load load_problem resolve ?b ?rows' q = outcome_of load load_problem resolve ?b ?rows q"
      by (auto simp: outcome_of_def rows' split: option.splits)
    moreover have "i\<lparr>ir_provider_checkpoint := ir_provider_checkpoint i\<rparr> = i" by simp
    ultimately show ?thesis using that(2) unfolding same_verdict_def by metis
  next
    case True
    then obtain m t where mt: "dict_get ?b (rq_unit_id q) = None" "dict_get ?rows (rq_unit_id q) = Some (m, t)" by blast
    then have "row_item load load_problem resolve q t = Inr i" using that(2) by (simp add: outcome_of_def)
    then have "\<exists>cp. row_item load load_problem resolve q (later t) = Inr (i\<lparr>ir_provider_checkpoint := cp\<rparr>)"
      using same [OF member [OF mt(2)] finished [OF that(1) mt]] by (intro row_item_outcome) auto
    then show ?thesis using mt by (auto simp: outcome_of_def rows' same_verdict_def)
  qed
  obtain items' where items':
    "make_all (outcome_of load load_problem resolve ?b ?rows') (rs_requested s) = Inr items'" "list_all2 same_verdict items items'"
    using make_all_related [of _ _ _ "outcome_of load load_problem resolve ?b ?rows'" same_verdict, OF items one] by blast
  obtain r' where r': "terminal_result load load_problem resolve (gb_operation batch) s ?b ?rows' = Inr r'"
    "br_succeeded r' = ids_in ITEM_SUCCEEDED items'" "br_failed r' = ids_in ITEM_FAILED items'" "br_blocked r' = ids_in ITEM_BLOCKED items'"
    using terminal_result_valid [OF stored_batch_same(4) [OF st] items'(1)] by blast
  have buckets: "br_succeeded r = ids_in ITEM_SUCCEEDED items" "br_failed r = ids_in ITEM_FAILED items" "br_blocked r = ids_in ITEM_BLOCKED items"
    using terminal_result_valid [OF stored_batch_same(4) [OF st] items, of "gb_operation batch"] r(2) by auto
  have done': "list_all settled_member (map (member_of ?b ?rows') (rs_requested s))"
    using settled status by (auto simp: list_all_iff settled_member_def)
  let ?v' = "\<lparr>rm_batch = batch, rm_members = map (member_of ?b ?rows') (rs_requested s), rm_skipped = rs_skipped s,
      rm_counts = member_counts (map (member_of ?b ?rows') (rs_requested s)), rm_total = length (rs_requested s),
      rm_done = True, rm_poll_after = None, rm_result = Some r'\<rparr>"
  have "build_generation_batch_read_model load load_problem resolve batch s blocked (later_rows db' ms) depths' = Inr ?v'"
    using st done' r'(1) unfolding build_generation_batch_read_model_def blocked_by_unit_def by (simp add: Let_def)
  moreover have "map bm_status (rm_members ?v') = map bm_status (rm_members v)"
    by (rule c) (use status in simp)
  ultimately show ?thesis
    using r(1) r' buckets same_verdict_ids [OF items'(2)] by (intro exI [of _ ?v'] exI [of _ r] exI [of _ r']) simp
qed

lemma batch_outcome_final_witness:
  "\<exists>v'. build_generation_batch_read_model (\<lambda>_. None) (\<lambda>_. None) None demo_batch demo_snapshot []
      (later_rows (snd (claim_next ''video'' None None 9 demo_done)) demo_members) [] = Inr v' \<and> rm_done v'"
proof -
  have run: "queue_run demo_done (snd (claim_next ''video'' None None 9 demo_done))" using s_claim by blast
  have "find_task (tasks demo_done) (task_id (hd (tasks demo_done))) = Some (hd (tasks demo_done))" by code_simp
  then have rows: "\<forall>(m, t) \<in> set demo_members. find_task (tasks demo_done) (task_id t) = Some t" by (simp add: demo_members_def)
  obtain v where v: "build_generation_batch_read_model (\<lambda>_. None) (\<lambda>_. None) None demo_batch demo_snapshot [] demo_members [] = Inr v"
    "rm_done v" by (rule demo_batch_view)
  from batch_outcome_final [OF demo_runs(3) run rows v] show ?thesis by blast
qed

end
