(* ===== verification/Script_Skeleton.thy ===== *)
theory Script_Skeleton
  imports Generation_Result
begin

text \<open>
  The structural facts about scripts and projects the workflow rests on: the table of skeletons
  with its resolvers and the route gate (lib/script_skeleton.py), the asset buckets
  (lib/asset_types.py), tolerant access to script items and their durations
  (lib/script_models.py), the lookups in project.json (lib/project_manager.py,
  lib/episode_ledger.py, lib/episode_paths.py), and the workflow rule of each pair of modes
  (lib/workflow_rules.py). A project, a script and an entry are dictionaries of JSON values.
\<close>

type_synonym json_object = "(string, pyval) dict"

subsection \<open>Python values\<close>

fun is_object :: "pyval \<Rightarrow> bool" where
  "is_object (PDict d) = True"
| "is_object v = False"

fun is_str :: "pyval \<Rightarrow> bool" where
  "is_str (PStr s) = True"
| "is_str v = False"

fun object_of :: "pyval \<Rightarrow> json_object" where
  "object_of (PDict d) = d"
| "object_of v = []"

fun list_of :: "pyval \<Rightarrow> pyval list" where
  "list_of (PList vs) = vs"
| "list_of v = []"

text \<open>A non-empty string, as the checks \<open>isinstance(x, str) and x\<close> ask for it.\<close>

fun str_value :: "pyval \<Rightarrow> string option" where
  "str_value (PStr s) = (if s = [] then None else Some s)"
| "str_value v = None"

text \<open>The comparison of a float with an integer, on the value its literal denotes.\<close>

definition float_eq_int :: "string \<Rightarrow> int \<Rightarrow> bool" where
  "float_eq_int t n =
     (let neg = (case t of c # _ \<Rightarrow> c = CHR ''-'' | [] \<Rightarrow> False);
          u = (if neg then tl t else t);
          ip = takeWhile is_digit u; r1 = dropWhile is_digit u;
          fp = (case r1 of c # q \<Rightarrow> if c = CHR ''.'' then takeWhile is_digit q else [] | [] \<Rightarrow> []);
          r2 = (case r1 of c # q \<Rightarrow> if c = CHR ''.'' then dropWhile is_digit q else r1 | [] \<Rightarrow> []);
          ex = (case r2 of e # s # ds \<Rightarrow>
                  (if s = CHR ''-'' then - int (str_nat ds) else if s = CHR ''+'' then int (str_nat ds)
                   else int (str_nat (s # ds))) | _ \<Rightarrow> 0);
          m = (if neg then - int (str_nat (ip @ fp)) else int (str_nat (ip @ fp)));
          k = int (length fp) - ex
      in ip \<noteq> [] \<and> (if 0 \<le> k then m = n * 10 ^ nat k else m * 10 ^ nat (- k) = n))"

text \<open>\<open>v == n\<close> for an integer \<open>n\<close>: a truth value is one of the integers 0 and 1.\<close>

fun eq_int :: "pyval \<Rightarrow> int \<Rightarrow> bool" where
  "eq_int (PInt i) n = (i = n)"
| "eq_int (PBool b) n = ((if b then 1 else 0) = n)"
| "eq_int (PFloat t) n = float_eq_int t n"
| "eq_int v n = False"

text \<open>Iterating over \<open>(v or [])\<close>.\<close>

fun iterate :: "pyval \<Rightarrow> py_error + pyval list" where
  "iterate (PList vs) = Inr vs"
| "iterate (PDict d) = Inr (map (PStr \<circ> fst) d)"
| "iterate (PStr s) = Inr (map (\<lambda>c. PStr [c]) s)"
| "iterate v = (if pv_truthy v then Inl (TypeError ''not iterable'') else Inr [])"

subsection \<open>Skeletons\<close>

record skeleton =
  skel_id_field :: string
  skel_chars_field :: "string option"

definition SKELETONS :: "(string, skeleton) dict" where
  "SKELETONS =
     [(''segments'', \<lparr>skel_id_field = ''segment_id'', skel_chars_field = Some ''characters_in_segment''\<rparr>),
      (''scenes'', \<lparr>skel_id_field = ''scene_id'', skel_chars_field = Some ''characters_in_scene''\<rparr>),
      (''shots'', \<lparr>skel_id_field = ''shot_id'', skel_chars_field = Some ''characters_in_shot''\<rparr>),
      (''video_units'', \<lparr>skel_id_field = ''unit_id'', skel_chars_field = None\<rparr>)]"

text \<open>\<open>SKELETONS[kind].id_field\<close>.\<close>

definition id_field_of :: "string \<Rightarrow> py_error + string" where
  "id_field_of kind = (case dict_get SKELETONS kind of None \<Rightarrow> Inl (KeyError kind) | Some k \<Rightarrow> Inr (skel_id_field k))"

definition storyboard_item_id_ok :: "string \<Rightarrow> bool" where
  "storyboard_item_id_ok s =
     (case s of
        [] \<Rightarrow> False
      | c # r \<Rightarrow>
          (let r1 = dropWhile is_digit r
           in c = CHR ''E'' \<and> takeWhile is_digit r \<noteq> [] \<and>
             (case r1 of
                [] \<Rightarrow> False
              | d # r2 \<Rightarrow>
                  (let r3 = dropWhile is_digit r2
                   in d = CHR ''S'' \<and> takeWhile is_digit r2 \<noteq> [] \<and>
                     (case r3 of
                        [] \<Rightarrow> True
                      | e # r4 \<Rightarrow> e = CHR ''_'' \<and> r4 \<noteq> [] \<and> list_all is_digit r4)))))"

definition resolve_declared_kind :: "pyval \<Rightarrow> pyval \<Rightarrow> py_error + string" where
  "resolve_declared_kind content_mode generation_mode =
     (let reference = (generation_mode = PStr ''reference_video'')
      in if content_mode = PStr ''ad'' then Inr (if reference then ''video_units'' else ''shots'')
         else if content_mode = PStr ''narration'' then Inr (if reference then ''video_units'' else ''segments'')
         else if content_mode = PStr ''drama'' then Inr (if reference then ''video_units'' else ''scenes'')
         else Inl (ValueError ''unknown content_mode''))"

definition has_key :: "json_object \<Rightarrow> string \<Rightarrow> bool" where
  "has_key d k \<longleftrightarrow> k \<in> set (dict_keys d)"

definition resolve_script_kind :: "json_object \<Rightarrow> string" where
  "resolve_script_kind script =
     (let mode = row_get script ''content_mode''
      in if has_key script ''video_units'' \<and> \<not> list_ex (has_key script) [''segments'', ''scenes'', ''shots''] then ''video_units''
         else if mode = PStr ''ad'' then ''shots''
         else if mode = PStr ''drama'' then ''scenes''
         else if mode = PStr ''narration'' then
           (if \<not> has_key script ''segments'' \<and> has_key script ''scenes'' then ''scenes'' else ''segments'')
         else if has_key script ''scenes'' \<and> \<not> has_key script ''segments'' then ''scenes''
         else if has_key script ''shots'' \<and> \<not> has_key script ''segments'' then ''shots''
         else ''segments'')"

definition resolve_kind_items :: "json_object \<Rightarrow> string option \<Rightarrow> py_error + (pyval \<times> string \<times> string)" where
  "resolve_kind_items script kind =
     (let resolved = (case kind of None \<Rightarrow> resolve_script_kind script | Some k \<Rightarrow> k)
      in bind_e (id_field_of resolved) (\<lambda>f. Inr (row_get script resolved, f, resolved)))"

definition skeleton_mismatch :: "py_error + string" where
  "skeleton_mismatch = Inl (ValueError ''skeleton does not fit the generation mode'')"

definition ensure_route_skeleton :: "json_object \<Rightarrow> pyval \<Rightarrow> pyval \<Rightarrow> py_error + string" where
  "ensure_route_skeleton script content_mode generation_mode =
     bind_e (resolve_declared_kind content_mode generation_mode) (\<lambda>expected.
       (let has_reference = has_key script ''video_units'';
            has_storyboard = list_ex (has_key script) [''segments'', ''scenes'', ''shots'']
        in if expected = ''video_units'' then (if has_reference then Inr ''video_units'' else skeleton_mismatch)
           else if has_storyboard then Inr (resolve_script_kind script) else skeleton_mismatch))"

subsection \<open>Assets\<close>

text \<open>\<open>ASSET_SPECS\<close> with the fields the workflow reads: type, bucket and sheet field.\<close>

record asset_spec =
  as_type :: string
  as_bucket_key :: string
  as_sheet_field :: string

definition ASSET_SPECS :: "asset_spec list" where
  "ASSET_SPECS =
     [\<lparr>as_type = ''character'', as_bucket_key = ''characters'', as_sheet_field = ''character_sheet''\<rparr>,
      \<lparr>as_type = ''scene'', as_bucket_key = ''scenes'', as_sheet_field = ''scene_sheet''\<rparr>,
      \<lparr>as_type = ''prop'', as_bucket_key = ''props'', as_sheet_field = ''prop_sheet''\<rparr>,
      \<lparr>as_type = ''product'', as_bucket_key = ''products'', as_sheet_field = ''product_sheet''\<rparr>]"

subsection \<open>Items of a script\<close>

definition get_generated_assets :: "json_object \<Rightarrow> json_object" where
  "get_generated_assets item = object_of (row_get item ''generated_assets'')"

definition ITEM_FALLBACK_DURATIONS :: "(string, int) dict" where
  "ITEM_FALLBACK_DURATIONS = [(''segments'', 4), (''scenes'', 8), (''shots'', 0), (''video_units'', 0)]"

definition item_duration :: "string \<Rightarrow> pyval \<Rightarrow> py_error + int" where
  "item_duration kind item =
     (case item of
        PDict d \<Rightarrow>
          (case row_get d ''duration_seconds'' of
             PInt n \<Rightarrow> if 0 < n then Inr n
                       else (case dict_get ITEM_FALLBACK_DURATIONS kind of None \<Rightarrow> Inl (KeyError kind) | Some k \<Rightarrow> Inr k)
           | _ \<Rightarrow> (case dict_get ITEM_FALLBACK_DURATIONS kind of None \<Rightarrow> Inl (KeyError kind) | Some k \<Rightarrow> Inr k))
      | _ \<Rightarrow> Inr 0)"

definition script_duration_total :: "string \<Rightarrow> pyval \<Rightarrow> py_error + int" where
  "script_duration_total kind items =
     (case items of
        PList vs \<Rightarrow> bind_e (make_all (item_duration kind) vs) (\<lambda>ds. Inr (sum_list ds))
      | _ \<Rightarrow> Inr 0)"

subsection \<open>The episodes of a project\<close>

definition find_episode :: "json_object \<Rightarrow> int \<Rightarrow> py_error + json_object option" where
  "find_episode project episode =
     bind_e (iterate (row_get project ''episodes'')) (\<lambda>eps.
       Inr (map_option object_of (find (\<lambda>e. is_object e \<and> eq_int (row_get (object_of e) ''episode'') episode) eps)))"

definition is_reference_video_project :: "json_object \<Rightarrow> bool" where
  "is_reference_video_project project \<longleftrightarrow> row_get project ''generation_mode'' = PStr ''reference_video''"

text \<open>A string of digits is read as a number; \<open>int()\<close> refuses no ASCII text that \<open>isdigit()\<close> accepts.\<close>

fun parse_episode_num :: "pyval \<Rightarrow> int option" where
  "parse_episode_num (PInt n) = Some n"
| "parse_episode_num (PStr s) = (if s \<noteq> [] \<and> list_all is_digit s then Some (int (str_nat s)) else None)"
| "parse_episode_num v = None"

definition parse_positive_episode_num :: "pyval \<Rightarrow> int option" where
  "parse_positive_episode_num v =
     (case parse_episode_num v of None \<Rightarrow> None | Some n \<Rightarrow> if 0 < n then Some n else None)"

definition parse_source_range :: "json_object \<Rightarrow> (string \<times> int \<times> int) option" where
  "parse_source_range entry =
     (case row_get entry ''source_range'' of
        PDict d \<Rightarrow>
          (case (row_get d ''source_file'', row_get d ''start'', row_get d ''end'') of
             (PStr f, PInt a, PInt b) \<Rightarrow> Some (f, a, b)
           | _ \<Rightarrow> None)
      | _ \<Rightarrow> None)"

definition episodes_without_source_range :: "json_object \<Rightarrow> int list" where
  "episodes_without_source_range project =
     (let entries = map object_of (filter is_object (list_of (row_get project ''episodes'')));
          lacking = List.map_filter (\<lambda>e. case parse_episode_num (row_get e ''episode'') of
                        None \<Rightarrow> None | Some n \<Rightarrow> if parse_source_range e = None then Some n else None) entries
      in sort (remdups lacking))"

definition episode_dir :: "int \<Rightarrow> string" where
  "episode_dir e = ''drafts/episode_'' @ int_str e"

definition episode_script_relpath :: "int \<Rightarrow> string" where
  "episode_script_relpath e = ''scripts/episode_'' @ int_str e @ ''.json''"

subsection \<open>Workflow rules\<close>

datatype workflow_state =
    S_PROJECT_INPUT | S_SELLING_POINTS | S_ASSET_INVENTORY | S_EPISODE_PLAN | S_STEP1_CONTENT | S_STEP1_REVIEW
  | S_FINAL_SCRIPT | S_ASSET_SHEETS | S_STORYBOARD | S_VIDEO | S_EXPORT_READY

record step_rule =
  sr_id :: string
  sr_checkpoint :: "workflow_state option"
  sr_applicable :: bool

record workflow_rule =
  wr_content_mode :: string
  wr_generation_mode :: string
  wr_skeleton_kind :: string
  wr_preprocessor :: "string option"
  wr_steps :: "step_rule list"

definition STEP_CHECKPOINTS :: "(string \<times> workflow_state option) list" where
  "STEP_CHECKPOINTS =
     [(''project_input'', Some S_PROJECT_INPUT), (''selling_points'', Some S_SELLING_POINTS),
      (''asset_inventory'', Some S_ASSET_INVENTORY), (''episode_plan'', Some S_EPISODE_PLAN),
      (''step1_content'', Some S_STEP1_CONTENT), (''step1_review'', Some S_STEP1_REVIEW),
      (''final_script'', Some S_FINAL_SCRIPT), (''asset_sheets'', Some S_ASSET_SHEETS),
      (''script_structure'', None), (''storyboard'', Some S_STORYBOARD), (''narration_delivery'', None),
      (''video'', Some S_VIDEO), (''export'', Some S_EXPORT_READY)]"

definition EPISODIC_STEPS :: "string list" where
  "EPISODIC_STEPS =
     [''project_input'', ''asset_inventory'', ''episode_plan'', ''step1_content'', ''step1_review'', ''final_script'',
      ''asset_sheets'', ''script_structure'', ''narration_delivery'', ''video'', ''export'']"

definition CONTENT_STEPS :: "(string, string list) dict" where
  "CONTENT_STEPS =
     [(''narration'', EPISODIC_STEPS), (''drama'', EPISODIC_STEPS),
      (''ad'', [''project_input'', ''selling_points'', ''final_script'', ''asset_sheets'', ''script_structure'',
                ''narration_delivery'', ''video'', ''export''])]"

definition PREPROCESSORS :: "(string \<times> string, string option) dict" where
  "PREPROCESSORS =
     [((''narration'', ''storyboard''), Some ''split-narration-segments''),
      ((''narration'', ''reference_video''), Some ''split-reference-video-units''),
      ((''drama'', ''storyboard''), Some ''normalize-drama-script''),
      ((''drama'', ''reference_video''), Some ''split-reference-video-units''),
      ((''ad'', ''storyboard''), None), ((''ad'', ''reference_video''), None)]"

definition build_rule :: "string \<Rightarrow> string \<Rightarrow> py_error + workflow_rule" where
  "build_rule content_mode generation_mode =
     (case dict_get CONTENT_STEPS content_mode of
        None \<Rightarrow> Inl (KeyError content_mode)
      | Some base \<Rightarrow>
          (let applicable = base @ (if generation_mode = ''storyboard'' then [''storyboard''] else [])
           in bind_e (resolve_declared_kind (PStr content_mode) (PStr generation_mode)) (\<lambda>kind.
                case dict_get PREPROCESSORS (content_mode, generation_mode) of
                  None \<Rightarrow> Inl (KeyError generation_mode)
                | Some p \<Rightarrow>
                    Inr \<lparr>wr_content_mode = content_mode, wr_generation_mode = generation_mode,
                         wr_skeleton_kind = kind, wr_preprocessor = p,
                         wr_steps = map (\<lambda>(i, c). \<lparr>sr_id = i, sr_checkpoint = c, sr_applicable = i \<in> set applicable\<rparr>)
                                        STEP_CHECKPOINTS\<rparr>)))"

definition mode_pairs :: "(string \<times> string) list" where
  "mode_pairs = List.product [''narration'', ''drama'', ''ad''] [''storyboard'', ''reference_video'']"

definition workflow_rule_for :: "string \<Rightarrow> string \<Rightarrow> py_error + workflow_rule" where
  "workflow_rule_for content_mode generation_mode =
     (if (content_mode, generation_mode) \<in> set mode_pairs then build_rule content_mode generation_mode
      else Inl (ValueError ''unsupported workflow mode pair''))"

end
