(* ===== verification/Script_Review.thy ===== *)
theory Script_Review
  imports Script_Skeleton
begin

text \<open>
  The content review between the two stages of script writing (lib/script_review.py): where the
  first stage of an episode is stored, the fingerprint of its content, the review status derived
  from the stored confirmation, the confirmation records, and the single write path with its
  optimistic concurrency check. The disk is a record of functions on relative paths; SHA-256 is
  an argument; the text of a stored file is the JSON text without the indentation, which no
  reader looks at. Locks are left out: an operation is one step.
\<close>

subsection \<open>The disk\<close>

record project_fs =
  fs_read :: "string \<Rightarrow> string option"
  fs_exists :: "string \<Rightarrow> bool"

definition fs_write :: "string \<Rightarrow> string \<Rightarrow> project_fs \<Rightarrow> project_fs" where
  "fs_write p t fs = fs\<lparr>fs_read := (fs_read fs)(p \<mapsto> t), fs_exists := (fs_exists fs)(p := True)\<rparr>"

definition fs_unlink :: "string \<Rightarrow> project_fs \<Rightarrow> project_fs" where
  "fs_unlink p fs = fs\<lparr>fs_read := (fs_read fs)(p := None), fs_exists := (fs_exists fs)(p := False)\<rparr>"

text \<open>\<open>formal_write_transaction\<close>: the files named before the write have their bytes of before again.\<close>

definition fs_restore :: "string list \<Rightarrow> project_fs \<Rightarrow> project_fs \<Rightarrow> project_fs" where
  "fs_restore ps old fs =
     fs\<lparr>fs_read := (\<lambda>p. if p \<in> set ps then fs_read old p else fs_read fs p),
        fs_exists := (\<lambda>p. if p \<in> set ps then fs_exists old p else fs_exists fs p)\<rparr>"

subsection \<open>Canonical JSON and fingerprints\<close>

fun json_compact :: "pyval \<Rightarrow> string" where
  "json_compact (PList vs) = ''['' @ join_with '','' (map json_compact vs) @ '']''"
| "json_compact (PDict kvs) =
     ''{'' @ join_with '','' (map (\<lambda>kv. json_string (fst kv) @ '':'' @ json_compact (snd kv)) kvs) @ ''}''"
| "json_compact v = json_dumps v"

definition canonical_json :: "pyval \<Rightarrow> string" where
  "canonical_json v = json_compact (sort_keys v)"

type_synonym digest = "string \<Rightarrow> string"

definition content_fingerprint_of_data :: "digest \<Rightarrow> pyval \<Rightarrow> string" where
  "content_fingerprint_of_data sha v = sha (canonical_json v)"

definition content_fingerprint :: "digest \<Rightarrow> project_fs \<Rightarrow> string \<Rightarrow> string option" where
  "content_fingerprint sha fs p =
     (case fs_read fs p of
        None \<Rightarrow> None
      | Some raw \<Rightarrow>
          Some (case json_loads raw of None \<Rightarrow> sha raw | Some v \<Rightarrow> content_fingerprint_of_data sha v))"

definition load_json_or_none :: "project_fs \<Rightarrow> string \<Rightarrow> pyval option" where
  "load_json_or_none fs p = (case fs_read fs p of None \<Rightarrow> None | Some raw \<Rightarrow> json_loads raw)"

subsection \<open>Where the first stage is stored\<close>

definition STEP1_FILENAMES :: "(string, string) dict" where
  "STEP1_FILENAMES = [(''drama'', ''step1_normalized_script.json''), (''narration'', ''step1_segments.json'')]"

definition REFERENCE_VIDEO_STEP1_FILENAME :: string where
  "REFERENCE_VIDEO_STEP1_FILENAME = ''step1_reference_units.json''"

text \<open>\<open>content_mode not in STEP1_FILENAMES\<close> hashes the value: a list or an object raises.\<close>

definition step1_kind :: "json_object \<Rightarrow> py_error + string option" where
  "step1_kind project =
     (case row_get project ''content_mode'' of
        PList _ \<Rightarrow> Inl (TypeError ''unhashable type'')
      | PDict _ \<Rightarrow> Inl (TypeError ''unhashable type'')
      | PStr m \<Rightarrow>
          (if dict_get STEP1_FILENAMES m = None then Inr None
           else if is_reference_video_project project then Inr (Some ''reference_video'') else Inr (Some m))
      | _ \<Rightarrow> Inr None)"

definition step1_filename_of :: "string \<Rightarrow> string" where
  "step1_filename_of kind =
     (if kind = ''reference_video'' then REFERENCE_VIDEO_STEP1_FILENAME else dict_get_or STEP1_FILENAMES kind [])"

definition step1_path :: "json_object \<Rightarrow> int \<Rightarrow> py_error + string option" where
  "step1_path project episode =
     bind_e (step1_kind project) (\<lambda>k.
       Inr (map_option (\<lambda>kind. episode_dir episode @ ''/'' @ step1_filename_of kind) k))"

definition QUARANTINE_FILENAMES :: "(string, string) dict" where
  "QUARANTINE_FILENAMES =
     [(''reference_video'', ''step1_reference_units.invalid.json''),
      (''drama'', ''step1_normalized_script.invalid.json''),
      (''narration'', ''step1_segments.invalid.json'')]"

definition step1_quarantine_path :: "json_object \<Rightarrow> int \<Rightarrow> py_error + string option" where
  "step1_quarantine_path project episode =
     bind_e (step1_kind project) (\<lambda>k.
       Inr (case k of None \<Rightarrow> None
            | Some kind \<Rightarrow> map_option (\<lambda>f. episode_dir episode @ ''/'' @ f) (dict_get QUARANTINE_FILENAMES kind)))"

definition step1_quarantined :: "project_fs \<Rightarrow> json_object \<Rightarrow> int \<Rightarrow> py_error + bool" where
  "step1_quarantined fs project episode =
     bind_e (step1_quarantine_path project episode) (\<lambda>p. Inr (case p of None \<Rightarrow> False | Some q \<Rightarrow> fs_exists fs q))"

subsection \<open>The review status\<close>

datatype review_status = NOT_APPLICABLE | NO_STEP1 | PENDING_REVIEW | CONFIRMED

definition stored_review :: "json_object \<Rightarrow> int \<Rightarrow> py_error + json_object" where
  "stored_review project episode =
     bind_e (find_episode project episode) (\<lambda>e.
       Inr (case e of None \<Rightarrow> [] | Some entry \<Rightarrow> object_of (row_get entry ''step1_review'')))"

text \<open>\<open>project_path / script_file\<close> needs a string.\<close>

definition step2_generated :: "project_fs \<Rightarrow> json_object \<Rightarrow> int \<Rightarrow> py_error + bool" where
  "step2_generated fs project episode =
     bind_e (find_episode project episode) (\<lambda>e.
       (let f = row_get (case e of None \<Rightarrow> [] | Some entry \<Rightarrow> entry) ''script_file''
        in if \<not> pv_truthy f then Inr (fs_exists fs (episode_script_relpath episode))
           else (case f of PStr s \<Rightarrow> Inr (fs_exists fs s) | _ \<Rightarrow> Inl (TypeError ''unsupported operand''))))"

definition derived_review :: "bool \<Rightarrow> pyval \<Rightarrow> string \<Rightarrow> review_status" where
  "derived_review generated stored live =
     (if stored \<noteq> PNone then (if stored = PStr live then CONFIRMED else PENDING_REVIEW)
      else if generated then CONFIRMED else PENDING_REVIEW)"

definition review_status :: "digest \<Rightarrow> project_fs \<Rightarrow> json_object \<Rightarrow> int \<Rightarrow> py_error + review_status" where
  "review_status sha fs project episode =
     bind_e (step1_path project episode) (\<lambda>p.
       case p of
         None \<Rightarrow> Inr NOT_APPLICABLE
       | Some path \<Rightarrow>
           bind_e (step1_quarantined fs project episode) (\<lambda>q.
             if q then Inr PENDING_REVIEW
             else
               (case content_fingerprint sha fs path of
                  None \<Rightarrow> Inr NO_STEP1
                | Some live \<Rightarrow>
                    bind_e (stored_review project episode) (\<lambda>r.
                      (if row_get r ''fingerprint'' \<noteq> PNone
                       then Inr (derived_review False (row_get r ''fingerprint'') live)
                       else bind_e (step2_generated fs project episode) (\<lambda>g. Inr (derived_review g PNone live)))))))"

definition gate_blocks_step2 :: "digest \<Rightarrow> project_fs \<Rightarrow> json_object \<Rightarrow> int \<Rightarrow> py_error + bool" where
  "gate_blocks_step2 sha fs project episode =
     bind_e (review_status sha fs project episode) (\<lambda>s. Inr (s = PENDING_REVIEW))"

subsection \<open>Confirmation records\<close>

fun update_first :: "('a \<Rightarrow> bool) \<Rightarrow> ('a \<Rightarrow> 'a) \<Rightarrow> 'a list \<Rightarrow> 'a list" where
  "update_first P f [] = []"
| "update_first P f (x # xs) = (if P x then f x # xs else x # update_first P f xs)"

definition is_episode :: "int \<Rightarrow> pyval \<Rightarrow> bool" where
  "is_episode n e \<longleftrightarrow> is_object e \<and> eq_int (row_get (object_of e) ''episode'') n"

text \<open>An assignment \<open>ep[k] = v\<close> to the entry \<open>find_episode\<close> returns.\<close>

definition set_on_episode :: "int \<Rightarrow> string \<Rightarrow> pyval \<Rightarrow> json_object \<Rightarrow> json_object" where
  "set_on_episode n k v project =
     dict_set project ''episodes''
       (PList (update_first (is_episode n) (\<lambda>e. PDict (dict_set (object_of e) k v)) (list_of (row_get project ''episodes''))))"

definition apply_confirmation :: "json_object \<Rightarrow> int \<Rightarrow> string \<Rightarrow> string \<Rightarrow> py_error + (bool \<times> json_object)" where
  "apply_confirmation project episode fp moment =
     bind_e (find_episode project episode) (\<lambda>e.
       case e of
         None \<Rightarrow> Inr (False, project)
       | Some _ \<Rightarrow>
           Inr (True, set_on_episode episode ''step1_review''
             (PDict [(''fingerprint'', PStr fp), (''confirmed_at'', PStr moment)]) project))"

text \<open>\<open>str(stored.get("confirmed_at") or "")\<close>.\<close>

definition confirmed_at_text :: "json_object \<Rightarrow> string" where
  "confirmed_at_text r = (if pv_truthy (row_get r ''confirmed_at'') then id_text (row_get r ''confirmed_at'') else [])"

definition carry_confirmation_through_migration ::
  "json_object \<Rightarrow> int \<Rightarrow> string \<Rightarrow> string \<Rightarrow> py_error + (bool \<times> json_object)" where
  "carry_confirmation_through_migration project episode before after =
     bind_e (stored_review project episode) (\<lambda>r.
       if row_get r ''fingerprint'' \<noteq> PStr before then Inr (False, project)
       else bind_e (apply_confirmation project episode after (confirmed_at_text r)) (\<lambda>(_, p). Inr (True, p)))"

text \<open>The record that makes an episode wait for a review although it was never confirmed.\<close>

definition invalidate_grandfathered :: "json_object \<Rightarrow> int \<Rightarrow> string \<Rightarrow> py_error + json_object" where
  "invalidate_grandfathered project episode before =
     bind_e (stored_review project episode) (\<lambda>r.
       if pv_truthy (row_get r ''fingerprint'') then Inr project
       else bind_e (apply_confirmation project episode before (confirmed_at_text r)) (\<lambda>(_, p). Inr p))"

datatype rebuild_error =
    RebuildRefused string
  | RebuildRaised py_error

definition str_or_none :: "string option \<Rightarrow> pyval" where
  "str_or_none s = (case s of None \<Rightarrow> PNone | Some t \<Rightarrow> PStr t)"

definition lift_raised :: "py_error + 'a \<Rightarrow> rebuild_error + 'a" where
  "lift_raised m = (case m of Inl e \<Rightarrow> Inl (RebuildRaised e) | Inr x \<Rightarrow> Inr x)"

definition complete_stale_step1_rebuild ::
  "digest \<Rightarrow> project_fs \<Rightarrow> json_object \<Rightarrow> int \<Rightarrow> string option \<Rightarrow> rebuild_error + (string \<times> json_object)" where
  "complete_stale_step1_rebuild sha fs project episode expected =
     (if episode < 1 then Inl (RebuildRefused ''invalid_episode'')
      else
        bind_e (lift_raised (find_episode project episode)) (\<lambda>e.
          case e of
            None \<Rightarrow> Inl (RebuildRefused ''not_stale'')
          | Some entry \<Rightarrow>
              if row_get entry ''ledger_status'' \<noteq> PStr ''stale'' then Inl (RebuildRefused ''not_stale'')
              else if \<not> has_key entry ''stale_step1_revision'' then Inl (RebuildRefused ''missing_baseline'')
              else if row_get entry ''stale_step1_revision'' \<noteq> str_or_none expected
                then Inl (RebuildRefused ''baseline_conflict'')
              else
                bind_e (lift_raised (step1_path project episode)) (\<lambda>p.
                  case (case p of None \<Rightarrow> None | Some path \<Rightarrow> content_fingerprint sha fs path) of
                    None \<Rightarrow> Inl (RebuildRefused ''step1_missing'')
                  | Some live \<Rightarrow>
                      Inr (live, set_on_episode episode ''stale_step1_rebuilt_revision'' (PStr live) project))))"

subsection \<open>The write path\<close>

datatype base_fingerprint = UNCHECKED | BASE "string option"

datatype write_error =
    Step1WriteConflict "string option" "string option" "pyval option"
  | WriteRaised py_error

definition assert_base_fingerprint :: "digest \<Rightarrow> project_fs \<Rightarrow> string \<Rightarrow> base_fingerprint \<Rightarrow> write_error option" where
  "assert_base_fingerprint sha fs p base =
     (case base of
        UNCHECKED \<Rightarrow> None
      | BASE expected \<Rightarrow>
          (let actual = content_fingerprint sha fs p
           in if expected = actual then None
              else Some (Step1WriteConflict expected actual
                (case load_json_or_none fs p of Some (PDict d) \<Rightarrow> Some (PDict d) | _ \<Rightarrow> None))))"

text \<open>Equality of Python values: the order of keys does not matter, a truth value is a number.\<close>

fun py_eq :: "pyval \<Rightarrow> pyval \<Rightarrow> bool" where
  "py_eq (PList xs) w = (case w of PList ys \<Rightarrow> list_all2 py_eq xs ys | _ \<Rightarrow> False)"
| "py_eq (PDict xs) w =
     (case w of
        PDict ys \<Rightarrow>
          length xs = length ys
          \<and> list_all (\<lambda>kv. case dict_get ys (fst kv) of None \<Rightarrow> False | Some v \<Rightarrow> py_eq (snd kv) v) xs
      | _ \<Rightarrow> False)"
| "py_eq (PInt i) w = eq_int w i"
| "py_eq (PBool b) w = eq_int w (if b then 1 else 0)"
| "py_eq (PFloat t) w =
     (case w of PFloat u \<Rightarrow> t = u | PInt i \<Rightarrow> float_eq_int t i
      | PBool b \<Rightarrow> float_eq_int t (if b then 1 else 0) | _ \<Rightarrow> False)"
| "py_eq (PStr s) w = (w = PStr s)"
| "py_eq PNone w = (w = PNone)"

text \<open>
  What can go wrong inside the transaction: the file write itself and the registration of the
  claim in the artifact manifest.
\<close>

record write_outcome =
  wo_store :: "py_error option"
  wo_register :: "py_error option"

definition write_formal_step1_locked ::
  "digest \<Rightarrow> write_outcome \<Rightarrow> string \<Rightarrow> pyval \<Rightarrow> base_fingerprint \<Rightarrow> string option \<Rightarrow> bool \<Rightarrow> project_fs
     \<Rightarrow> (write_error + bool) \<times> project_fs" where
  "write_formal_step1_locked sha io path content base downstream clear fs =
     (case assert_base_fingerprint sha fs path base of
        Some conflict \<Rightarrow> (Inl conflict, fs)
      | None \<Rightarrow>
          (let changed = (case load_json_or_none fs path of None \<Rightarrow> content \<noteq> PNone | Some v \<Rightarrow> \<not> py_eq v content);
               paths = path # (case downstream of None \<Rightarrow> [] | Some q \<Rightarrow> [q])
           in case wo_store io of
                Some e \<Rightarrow> (Inl (WriteRaised e), fs_restore paths fs fs)
              | None \<Rightarrow>
                  (let fs1 = fs_write path (json_dumps content) fs;
                       fs2 = (case downstream of
                                Some q \<Rightarrow> if changed \<and> clear then fs_unlink q fs1 else fs1
                              | None \<Rightarrow> fs1)
                   in case wo_register io of
                        Some e \<Rightarrow> (Inl (WriteRaised e), fs_restore paths fs fs2)
                      | None \<Rightarrow> (Inr changed, fs2))))"

text \<open>
  The migration of durations in a stored draft. The migration itself is an argument: whether it
  changed the content, whether it had to alter a duration, and the new content. The record in
  the project is written before the file.
\<close>

definition migrate_step1_draft_in_place ::
  "digest \<Rightarrow> write_outcome \<Rightarrow> (pyval \<Rightarrow> bool \<times> bool \<times> pyval) \<Rightarrow> string \<Rightarrow> int \<Rightarrow> pyval \<Rightarrow> json_object \<times> project_fs
     \<Rightarrow> (write_error + bool) \<times> json_object \<times> project_fs" where
  "migrate_step1_draft_in_place sha io migrate path episode content s =
     (case s of (project, fs) \<Rightarrow>
        (if \<not> is_object content then (Inr False, project, fs)
         else
           (case migrate content of
              (changed, warned, content') \<Rightarrow>
                if \<not> changed then (Inr False, project, fs)
                else
                  (let before = content_fingerprint_of_data sha content;
                       after = content_fingerprint_of_data sha content'
                   in case (if warned then invalidate_grandfathered project episode before
                            else map_sum id snd (carry_confirmation_through_migration project episode before after)) of
                        Inl e \<Rightarrow> (Inl (WriteRaised e), project, fs)
                      | Inr project' \<Rightarrow>
                          (case write_formal_step1_locked sha io path content' UNCHECKED None False fs of
                             (Inl e, fs') \<Rightarrow> (Inl e, project', fs')
                           | (Inr _, fs') \<Rightarrow> (Inr True, project', fs'))))))"

end
