(* ===== verification/Script_Review_Props.thy ===== *)
theory Script_Review_Props
  imports Script_Review Json_Roundtrip
begin

text \<open>
  What the content review guarantees: the second stage is let through exactly when the content
  on disk is the content that was confirmed and no draft waits for repair; a write of the first
  stage takes effect as a whole or not at all, and never over content its writer has not seen;
  the migration of durations keeps a confirmation exactly when it altered no duration.
\<close>

subsection \<open>Entries of a project\<close>

lemma row_get_set [simp]: "row_get (dict_set d k v) k' = (if k' = k then v else row_get d k')"
  by (simp add: row_get_def dict_get_or_def)

lemma find_update_first:
  assumes "\<And>x. P x \<Longrightarrow> P (f x)"
  shows "find P (update_first P f xs) = map_option f (find P xs)"
  using assms by (induction P f xs rule: update_first.induct) auto

lemma find_episode_found:
  assumes "find_episode project n = Inr (Some entry)"
  obtains vs where "row_get project ''episodes'' = PList vs" and "find (is_episode n) vs = Some (PDict entry)"
proof (cases "row_get project ''episodes''")
  case (PList vs)
  have "find (\<lambda>e. is_object e \<and> eq_int (row_get (object_of e) ''episode'') n) vs = find (is_episode n) vs"
    by (rule find_cong) (simp_all add: is_episode_def)
  then obtain e where e: "find (is_episode n) vs = Some e" "object_of e = entry"
    using assms PList by (auto simp: find_episode_def)
  from find_memD [OF e(1)] have "is_object e" by (simp add: is_episode_def)
  with e PList that show ?thesis by (cases e) auto
next
  case (PDict d)
  then have "find (\<lambda>e. is_object e \<and> eq_int (row_get (object_of e) ''episode'') n) (map (PStr \<circ> fst) d) = None"
    by (auto simp: find_None_iff)
  with assms PDict show ?thesis by (simp add: find_episode_def)
next
  case (PStr s)
  then have "find (\<lambda>e. is_object e \<and> eq_int (row_get (object_of e) ''episode'') n) (map (\<lambda>c. PStr [c]) s) = None"
    by (auto simp: find_None_iff)
  with assms PStr show ?thesis by (simp add: find_episode_def)
qed (use assms in \<open>auto simp: find_episode_def split: if_splits\<close>)

lemma find_set_on_episode:
  assumes "find_episode project n = Inr (Some entry)" and "k \<noteq> ''episode''"
  shows "find_episode (set_on_episode n k v project) n = Inr (Some (dict_set entry k v))"
proof -
  obtain vs where vs: "row_get project ''episodes'' = PList vs" "find (is_episode n) vs = Some (PDict entry)"
    by (rule find_episode_found [OF assms(1)])
  have "find (is_episode n) (update_first (is_episode n) (\<lambda>e. PDict (dict_set (object_of e) k v)) vs)
      = Some (PDict (dict_set entry k v))"
    using assms(2) vs(2) by (subst find_update_first) (auto simp: is_episode_def)
  then show ?thesis
    unfolding find_episode_def set_on_episode_def is_episode_def [symmetric] by (simp add: vs(1))
qed

lemma set_on_episode_modes [simp]:
  "row_get (set_on_episode n k v project) ''content_mode'' = row_get project ''content_mode''"
  "row_get (set_on_episode n k v project) ''generation_mode'' = row_get project ''generation_mode''"
  by (simp_all add: set_on_episode_def)

lemma step1_kind_modes:
  assumes "row_get p ''content_mode'' = row_get q ''content_mode''"
    and "row_get p ''generation_mode'' = row_get q ''generation_mode''"
  shows "step1_kind p = step1_kind q"
proof -
  have "is_reference_video_project p = is_reference_video_project q" using assms(2) by (simp add: is_reference_video_project_def)
  from this show ?thesis unfolding step1_kind_def assms(1) by (simp split: pyval.split)
qed

lemma step1_set_on_episode [simp]:
  "step1_path (set_on_episode n k v project) e = step1_path project e"
  "step1_quarantined fs (set_on_episode n k v project) e = step1_quarantined fs project e"
  using step1_kind_modes [of "set_on_episode n k v project" project]
  by (simp_all add: step1_path_def step1_quarantined_def step1_quarantine_path_def)

lemma step1_quarantined_total:
  assumes "step1_path project e = Inr p"
  obtains q where "step1_quarantined fs project e = Inr q"
  using assms that by (auto simp: step1_path_def step1_quarantined_def step1_quarantine_path_def bind_e_Inr_iff)

subsection \<open>The gate\<close>

lemma apply_confirmation_found:
  assumes "apply_confirmation project e fp m = Inr (True, project')"
  shows "project' = set_on_episode e ''step1_review'' (PDict [(''fingerprint'', PStr fp), (''confirmed_at'', PStr m)]) project"
    and "stored_review project' e = Inr [(''fingerprint'', PStr fp), (''confirmed_at'', PStr m)]"
proof -
  obtain entry where entry: "find_episode project e = Inr (Some entry)"
    and p: "project' = set_on_episode e ''step1_review'' (PDict [(''fingerprint'', PStr fp), (''confirmed_at'', PStr m)]) project"
    using assms by (auto simp: apply_confirmation_def bind_e_Inr_iff split: option.splits)
  show "project' = set_on_episode e ''step1_review'' (PDict [(''fingerprint'', PStr fp), (''confirmed_at'', PStr m)]) project"
    by (rule p)
  show "stored_review project' e = Inr [(''fingerprint'', PStr fp), (''confirmed_at'', PStr m)]"
    using find_set_on_episode [OF entry, of "''step1_review''"] unfolding p by (simp add: stored_review_def)
qed

lemma review_with_fingerprint:
  assumes "step1_path project e = Inr (Some path)" and "step1_quarantined fs project e = Inr q"
    and "stored_review project e = Inr r" and "row_get r ''fingerprint'' = PStr fp"
  shows "review_status sha fs project e =
    Inr (if q then PENDING_REVIEW
         else (case content_fingerprint sha fs path of None \<Rightarrow> NO_STEP1
               | Some live \<Rightarrow> if live = fp then CONFIRMED else PENDING_REVIEW))"
  using assms by (auto simp: review_status_def derived_review_def split: option.splits)

lemma review_confirmed_record:
  assumes "step1_path project e = Inr (Some path)" and "step1_quarantined fs project e = Inr q"
    and "apply_confirmation project e fp m = Inr (True, project')"
  shows "review_status sha fs project' e =
    Inr (if q then PENDING_REVIEW
         else (case content_fingerprint sha fs path of None \<Rightarrow> NO_STEP1
               | Some live \<Rightarrow> if live = fp then CONFIRMED else PENDING_REVIEW))"
  using assms(1,2) apply_confirmation_found [OF assms(3)]
  by (intro review_with_fingerprint [of project' e path fs q "[(''fingerprint'', PStr fp), (''confirmed_at'', PStr m)]"])
    (simp_all add: row_get_def dict_get_or_def)

text \<open>
  C20: Once the content with a fingerprint has been confirmed, the second stage is let through
  for whatever is stored later exactly when there is nothing stored or its fingerprint is the
  confirmed one, and no draft waits for repair: any other content closes the gate again, and
  the same content restored opens it.
\<close>

theorem confirmation_gates_step2:
  assumes "step1_path project e = Inr (Some path)"
    and "apply_confirmation project e fp m = Inr (True, project')"
  shows "\<exists>draft. step1_quarantined fs project e = Inr draft
    \<and> gate_blocks_step2 sha fs project' e
        = Inr (draft \<or> (content_fingerprint sha fs path \<noteq> None \<and> content_fingerprint sha fs path \<noteq> Some fp))"
proof -
  obtain q where q: "step1_quarantined fs project e = Inr q" by (rule step1_quarantined_total [OF assms(1)])
  show ?thesis
    using q review_confirmed_record [OF assms(1) q assms(2), of sha]
    by (auto simp: gate_blocks_step2_def split: option.splits)
qed

lemma reformatted_same_fingerprint:
  assumes "fs_read fs p = Some a" "json_loads a = Some v" "fs_read fs' p = Some b" "json_loads b = Some w"
    and "sort_keys v = sort_keys w"
  shows "content_fingerprint sha fs p = content_fingerprint sha fs' p"
  using assms by (simp add: content_fingerprint_def content_fingerprint_of_data_def canonical_json_def)

subsection \<open>The write path\<close>

lemma fs_restore_id: "fs_restore ps fs fs = fs"
  by (simp add: fs_restore_def)

lemma fs_restore_written:
  "fs_restore (path # ps) fs (fs_write path t fs) = fs"
  "fs_restore (path # q # ps) fs (fs_unlink q (fs_write path t fs)) = fs"
  by (cases fs; auto simp: fs_restore_def fs_write_def fs_unlink_def fun_eq_iff)+

lemma fingerprint_written:
  assumes "json_ok content"
  shows "content_fingerprint sha (fs_write path (json_dumps content) fs) path = Some (content_fingerprint_of_data sha content)"
    and "load_json_or_none (fs_write path (json_dumps content) fs) path = Some content"
  using json_loads_dumps [OF assms] by (simp_all add: content_fingerprint_def load_json_or_none_def fs_write_def)

lemma fingerprint_unlink [simp]:
  "p \<noteq> q \<Longrightarrow> content_fingerprint sha (fs_unlink q fs) p = content_fingerprint sha fs p"
  "p \<noteq> q \<Longrightarrow> load_json_or_none (fs_unlink q fs) p = load_json_or_none fs p"
  by (simp_all add: content_fingerprint_def load_json_or_none_def fs_unlink_def)

lemma assert_base_None_iff:
  "assert_base_fingerprint sha fs p base = None \<longleftrightarrow> (\<forall>expected. base = BASE expected \<longrightarrow> content_fingerprint sha fs p = expected)"
  by (cases base) (auto simp: assert_base_fingerprint_def Let_def split: if_splits)

lemma write_step1_cases:
  assumes w: "write_formal_step1_locked sha io path content base downstream clear fs = (res, fs')"
    and ok: "json_ok content" and apart: "downstream \<noteq> Some path"
  shows "(\<exists>err. res = Inl err \<and> fs' = fs) \<or>
    (\<exists>changed. res = Inr changed \<and> assert_base_fingerprint sha fs path base = None
      \<and> load_json_or_none fs' path = Some content
      \<and> content_fingerprint sha fs' path = Some (content_fingerprint_of_data sha content)
      \<and> (\<forall>p. p \<noteq> path \<longrightarrow> downstream \<noteq> Some p \<longrightarrow> fs_read fs' p = fs_read fs p)
      \<and> (\<forall>q. downstream = Some q \<longrightarrow> fs_read fs' q = (if changed \<and> clear then None else fs_read fs q)))"
proof (cases "assert_base_fingerprint sha fs path base")
  case (Some conflict)
  with w show ?thesis by (auto simp: write_formal_step1_locked_def)
next
  case base: None
  define changed where "changed = (case load_json_or_none fs path of None \<Rightarrow> content \<noteq> PNone | Some v \<Rightarrow> \<not> py_eq v content)"
  define fs1 where "fs1 = fs_write path (json_dumps content) fs"
  define fs2 where "fs2 = (case downstream of Some q \<Rightarrow> if changed \<and> clear then fs_unlink q fs1 else fs1 | None \<Rightarrow> fs1)"
  note written = fingerprint_written [OF ok, where path = path and fs = fs, folded fs1_def]
  have w': "(res, fs') = (case wo_store io of Some e \<Rightarrow> (Inl (WriteRaised e), fs)
      | None \<Rightarrow> (case wo_register io of
          Some e \<Rightarrow> (Inl (WriteRaised e), fs_restore (path # (case downstream of None \<Rightarrow> [] | Some q \<Rightarrow> [q])) fs fs2)
        | None \<Rightarrow> (Inr changed, fs2)))"
    unfolding w [symmetric] write_formal_step1_locked_def base option.case changed_def fs2_def fs1_def Let_def fs_restore_id
    by (rule refl)
  show ?thesis
  proof (cases "wo_store io = None \<and> wo_register io = None")
    case True
    with w' have r: "res = Inr changed" "fs' = fs2" by simp_all
    have "fs_read fs2 p = fs_read fs p" if "p \<noteq> path" "downstream \<noteq> Some p" for p
      using that by (auto simp: fs2_def fs1_def fs_write_def fs_unlink_def split: option.splits)
    moreover have "fs_read fs2 q = (if changed \<and> clear then None else fs_read fs q)" if "downstream = Some q" for q
      using that apart by (auto simp: fs2_def fs1_def fs_write_def fs_unlink_def)
    moreover have "load_json_or_none fs2 path = Some content"
      "content_fingerprint sha fs2 path = Some (content_fingerprint_of_data sha content)"
      using written apart by (cases downstream; simp add: fs2_def not_sym)+
    ultimately show ?thesis using r base by blast
  next
    case False
    have "fs_restore (path # (case downstream of None \<Rightarrow> [] | Some q \<Rightarrow> [q])) fs fs2 = fs"
      by (auto simp: fs2_def fs1_def fs_restore_written split: option.splits)
    with False w' show ?thesis by (auto split: option.splits)
  qed
qed

text \<open>
  A write of the first stage either leaves every file as it was, whatever failed inside it,
  or stores exactly the new content and drops the draft built on changed content. A second
  writer that started from the same state as an earlier one whose write changed the content is
  refused: no write is lost.
\<close>

theorem step1_writes_do_not_get_lost:
  assumes "json_ok c1" and "json_ok c2" and "downstream \<noteq> Some path"
    and "write_formal_step1_locked sha io path c1 (BASE fp) downstream clear fs = (res1, fs1)"
    and "write_formal_step1_locked sha io' path c2 (BASE fp) downstream clear' fs1 = (res2, fs2)"
  shows "((\<exists>err. res1 = Inl err \<and> fs1 = fs) \<or> (\<exists>ch. res1 = Inr ch \<and> load_json_or_none fs1 path = Some c1))
    \<and> ((\<exists>err. res2 = Inl err \<and> fs2 = fs1) \<or> (\<exists>ch. res2 = Inr ch \<and> load_json_or_none fs2 path = Some c2))
    \<and> (\<forall>ch. res1 = Inr ch \<and> Some (content_fingerprint_of_data sha c1) \<noteq> fp \<longrightarrow>
        (\<exists>cur. res2 = Inl (Step1WriteConflict fp (Some (content_fingerprint_of_data sha c1)) cur)) \<and> fs2 = fs1)"
proof -
  note one = write_step1_cases [OF assms(4,1,3)] and two = write_step1_cases [OF assms(5,2,3)]
  have "(\<exists>cur. res2 = Inl (Step1WriteConflict fp (Some (content_fingerprint_of_data sha c1)) cur)) \<and> fs2 = fs1"
    if "res1 = Inr ch" "Some (content_fingerprint_of_data sha c1) \<noteq> fp" for ch
  proof -
    have "content_fingerprint sha fs1 path = Some (content_fingerprint_of_data sha c1)" using one that(1) by blast
    with that(2) assms(5) show ?thesis
      by (auto simp: write_formal_step1_locked_def assert_base_fingerprint_def)
  qed
  then have "\<forall>ch. res1 = Inr ch \<and> Some (content_fingerprint_of_data sha c1) \<noteq> fp \<longrightarrow>
        (\<exists>cur. res2 = Inl (Step1WriteConflict fp (Some (content_fingerprint_of_data sha c1)) cur)) \<and> fs2 = fs1" by blast
  moreover have "(\<exists>err. res1 = Inl err \<and> fs1 = fs) \<or> (\<exists>ch. res1 = Inr ch \<and> load_json_or_none fs1 path = Some c1)"
    using one by blast
  moreover have "(\<exists>err. res2 = Inl err \<and> fs2 = fs1) \<or> (\<exists>ch. res2 = Inr ch \<and> load_json_or_none fs2 path = Some c2)"
    using two by blast
  ultimately show ?thesis by (intro conjI)
qed

subsection \<open>The migration of durations\<close>

lemma step1_path_not_quarantine:
  assumes "step1_path project e = Inr (Some path)" and "step1_quarantine_path project e = Inr (Some q)"
  shows "q \<noteq> path"
proof -
  obtain k where k: "step1_kind project = Inr (Some k)" using assms(1) by (auto simp: step1_path_def bind_e_Inr_iff)
  then have "k \<in> {''reference_video'', ''drama'', ''narration''}"
    by (auto simp: step1_kind_def STEP1_FILENAMES_def split: pyval.splits if_splits)
  with k assms show ?thesis
    by (auto simp: step1_path_def step1_quarantine_path_def step1_filename_of_def REFERENCE_VIDEO_STEP1_FILENAME_def
        STEP1_FILENAMES_def QUARANTINE_FILENAMES_def dict_get_or_def)
qed

lemma quarantined_written:
  assumes "step1_path project e = Inr (Some path)"
  shows "step1_quarantined (fs_write path t fs) project e = step1_quarantined fs project e"
  using step1_path_not_quarantine [OF assms]
  by (cases "step1_quarantine_path project e") (auto simp: step1_quarantined_def fs_write_def split: option.splits)

lemma confirmed_fingerprint:
  assumes "step1_path project e = Inr (Some path)" and "stored_review project e = Inr r"
    and "content_fingerprint sha fs path = Some live" and "review_status sha fs project e = Inr CONFIRMED"
  shows "row_get r ''fingerprint'' = PNone \<or> row_get r ''fingerprint'' = PStr live"
  using assms by (auto simp: review_status_def derived_review_def bind_e_Inr_iff split: if_splits)

lemma apply_confirmation_total:
  assumes "find_episode project e = Inr (Some entry)"
  obtains project' where "apply_confirmation project e fp m = Inr (True, project')"
  using assms that by (simp add: apply_confirmation_def)


subsection \<open>Witnesses\<close>

definition draft_path :: string where
  "draft_path = ''drafts/episode_1/step1_normalized_script.json''"

definition demo_content :: pyval where
  "demo_content = PDict [(''a'', PInt 1)]"

definition demo_project :: json_object where
  "demo_project = [(''content_mode'', PStr ''drama''), (''generation_mode'', PStr ''storyboard''),
     (''episodes'', PList [PDict [(''episode'', PInt 1),
        (''step1_review'', PDict [(''fingerprint'', PStr (canonical_json demo_content))])]])]"

definition empty_disk :: project_fs where
  "empty_disk = \<lparr>fs_read = (\<lambda>_. None), fs_exists = (\<lambda>_. False)\<rparr>"

definition demo_disk :: project_fs where
  "demo_disk = fs_write draft_path (json_dumps demo_content) empty_disk"

lemma demo_step1: "step1_path demo_project 1 = Inr (Some draft_path)"
  by code_simp

lemma demo_quiet: "step1_quarantined demo_disk demo_project 1 = Inr False"
  by code_simp

lemma confirmation_gates_step2_witness:
  "\<exists>draft. step1_quarantined demo_disk demo_project 1 = Inr draft
    \<and> gate_blocks_step2 id demo_disk (snd (case apply_confirmation demo_project 1 ''x'' ''now'' of Inr r \<Rightarrow> r)) 1
        = Inr (draft \<or> (content_fingerprint id demo_disk draft_path \<noteq> None
            \<and> content_fingerprint id demo_disk draft_path \<noteq> Some ''x''))"
proof -
  have "map_sum id fst (apply_confirmation demo_project 1 ''x'' ''now'') = Inr True" by code_simp
  then obtain p where p: "apply_confirmation demo_project 1 ''x'' ''now'' = Inr (True, p)"
    by (cases "apply_confirmation demo_project 1 ''x'' ''now''") auto
  from confirmation_gates_step2 [OF demo_step1 p, of demo_disk id] show ?thesis by (simp add: p)
qed

lemma step1_writes_do_not_get_lost_witness:
  "\<exists>cur. fst (write_formal_step1_locked id \<lparr>wo_store = None, wo_register = None\<rparr> draft_path (PDict []) (BASE None) None True
       (snd (write_formal_step1_locked id \<lparr>wo_store = None, wo_register = None\<rparr> draft_path demo_content (BASE None) None True
          empty_disk)))
     = Inl (Step1WriteConflict None (Some (canonical_json demo_content)) cur)"
proof -
  let ?io = "\<lparr>wo_store = None, wo_register = None\<rparr>"
  obtain res1 fs1 where one: "write_formal_step1_locked id ?io draft_path demo_content (BASE None) None True empty_disk = (res1, fs1)"
    by fastforce
  obtain res2 fs2 where two: "write_formal_step1_locked id ?io draft_path (PDict []) (BASE None) None True fs1 = (res2, fs2)"
    by fastforce
  have "json_ok demo_content" "json_ok (PDict [])" "None \<noteq> Some draft_path" by (simp_all add: demo_content_def)
  note lost = step1_writes_do_not_get_lost [OF this one two, THEN conjunct2, THEN conjunct2, THEN spec [of _ True]]
  have "res1 = Inr True"
    using one by (simp add: write_formal_step1_locked_def assert_base_fingerprint_def content_fingerprint_def
        load_json_or_none_def empty_disk_def demo_content_def)
  with lost one two show ?thesis by (auto simp: content_fingerprint_of_data_def)
qed


end
