(* ===== verification/Workflow_Facts.thy ===== *)
theory Workflow_Facts
  imports Script_Review
begin

text \<open>
  The facts a workflow status is derived from (first half of lib/workflow_state.py): blockers,
  actions and collections, the classification of an artifact against the manifest, the asset
  inventory, the asset sheets, the episode ledger with the target episode, the planning of the
  source text, the script of the target with its checks, and the media of its items.

  What the service reads is the record \<open>workflow_env\<close>: the disk, the currency resolver, the
  source revision, the validators, the script loader, the check of a manual upload and the
  verdict of the migration. An exception the code catches is an error the blocker reports; any
  other one is the value \<open>Inl\<close>.
\<close>

subsection \<open>Blockers, actions, collections\<close>

record workflow_blocker =
  wb_code :: string
  wb_path :: string
  wb_reason :: string

abbreviation blocker :: "string \<Rightarrow> string \<Rightarrow> string \<Rightarrow> workflow_blocker" where
  "blocker c p r \<equiv> \<lparr>wb_code = c, wb_path = p, wb_reason = r\<rparr>"

datatype action_type =
    A_NONE | A_COLLECT_PROJECT_INPUT | A_DRAFT_SELLING_POINTS | A_ANALYZE_ASSETS | A_PLAN_EPISODES
  | A_RESET_EPISODE_PLANNING | A_PREPARE_STEP1 | A_CONFIRM_STEP1 | A_GENERATE_SCRIPT | A_GENERATE_ASSET_SHEETS
  | A_GENERATE_STORYBOARDS | A_GENERATE_GRID | A_REPAIR_VIDEO_UNITS | A_GENERATE_VIDEOS | A_EXPORT
  | A_RETRY_PROJECT_MIGRATION | A_PATCH_EPISODE_SCRIPT | A_CHOOSE_NARRATION_DELIVERY
  | A_OF generation_action

record next_action =
  na_type :: action_type
  na_args :: "(string, pyval) dict"
  na_requested_ids :: "string list"
  na_requires_confirmation :: bool
  na_reason :: string

definition action :: "action_type \<Rightarrow> string \<Rightarrow> (string, pyval) dict \<Rightarrow> string list \<Rightarrow> next_action" where
  "action t reason args ids =
     \<lparr>na_type = t, na_args = args, na_requested_ids = ids, na_requires_confirmation = False, na_reason = reason\<rparr>"

record collection =
  co_current :: "string list"
  co_missing :: "string list"
  co_stale :: "string list"
  co_state :: "string option"

definition empty_collection :: collection where
  "empty_collection = \<lparr>co_current = [], co_missing = [], co_stale = [], co_state = None\<rparr>"

definition not_applicable_collection :: collection where
  "not_applicable_collection = empty_collection\<lparr>co_state := Some ''not_applicable''\<rparr>"

subsection \<open>What the service reads\<close>

record source_result =
  sv_revision :: "string option"
  sv_files :: "string list"
  sv_blockers :: "workflow_blocker list"
  sv_documents :: "(string \<times> string) list"

datatype script_load =
    ScriptMissing
  | ScriptUnreadable string
  | ScriptLoaded pyval
  | ScriptRaised py_error

record workflow_env =
  we_fs :: project_fs
  we_sha :: digest
  we_currency :: "manifest_error + resolver"
  we_source :: source_result
  we_asset_errors :: "json_object \<Rightarrow> string list"
  we_episode_errors :: "json_object \<Rightarrow> json_object \<Rightarrow> string list"
  we_load_script :: "string \<Rightarrow> script_load"
  we_manual_video :: "string \<Rightarrow> string \<Rightarrow> string \<Rightarrow> manifest_error + bool"
  we_migration :: "migration_failure_record option"

subsection \<open>The currency of one artifact\<close>

text \<open>\<open>except (ArtifactManifestError, OSError, RuntimeError, TypeError, ValueError) as exc\<close> with \<open>str(exc)\<close>.\<close>

fun caught :: "manifest_error \<Rightarrow> py_error + string" where
  "caught (ArtifactManifestError m) = Inr m"
| "caught (ArtifactRegistrationError m) = Inr m"
| "caught (OtherError (RuntimeError m)) = Inr m"
| "caught (OtherError (TypeError m)) = Inr m"
| "caught (OtherError (ValueError m)) = Inr m"
| "caught (OtherError e) = Inl e"

definition unavailable :: "string \<Rightarrow> manifest_error \<Rightarrow> workflow_blocker list \<Rightarrow> py_error + (artifact_status \<times> workflow_blocker list)" where
  "unavailable path e bs =
     bind_e (caught e) (\<lambda>m. Inr (BLOCKED, bs @ [blocker ''artifact_currency_unavailable'' path m]))"

definition artifact_state ::
  "resolver \<Rightarrow> artifact_key \<Rightarrow> string \<Rightarrow> workflow_blocker list \<Rightarrow> py_error + (artifact_status \<times> workflow_blocker list)" where
  "artifact_state resolve key path bs =
     (case resolve key path of
        Inl e \<Rightarrow> unavailable path e bs
      | Inr c \<Rightarrow>
          if cmp_status c = BLOCKED then
            (case cmp_blocker c of
               None \<Rightarrow> Inl (AssertionError ''blocker'')
             | Some b \<Rightarrow> Inr (BLOCKED, bs @ [blocker (ab_code b) (ab_path b) (ab_detail b)]))
          else Inr (cmp_status c, bs))"

definition put_status :: "artifact_status \<Rightarrow> string \<Rightarrow> collection \<Rightarrow> collection" where
  "put_status st i c =
     (case st of
        BLOCKED \<Rightarrow> c\<lparr>co_state := Some ''blocked''\<rparr>
      | CURRENT \<Rightarrow> c\<lparr>co_current := co_current c @ [i]\<rparr>
      | MISSING \<Rightarrow> c\<lparr>co_missing := co_missing c @ [i]\<rparr>
      | STALE \<Rightarrow> c\<lparr>co_stale := co_stale c @ [i]\<rparr>)"

definition classify_artifact ::
  "resolver \<Rightarrow> artifact_key \<Rightarrow> string \<Rightarrow> string \<Rightarrow> (manifest_error + bool) option \<Rightarrow> collection \<times> workflow_blocker list
     \<Rightarrow> py_error + (collection \<times> workflow_blocker list)" where
  "classify_artifact resolve key path i fallback s =
     (case s of (c, bs) \<Rightarrow>
        bind_e (artifact_state resolve key path bs) (\<lambda>(st, bs1).
          bind_e (case (if st = MISSING then fallback else None) of
                    None \<Rightarrow> Inr (st, bs1)
                  | Some (Inr True) \<Rightarrow> Inr (CURRENT, bs1)
                  | Some (Inr False) \<Rightarrow> Inr (st, bs1)
                  | Some (Inl e) \<Rightarrow> unavailable path e bs1)
            (\<lambda>(st', bs2). Inr (put_status st' i c, bs2))))"

subsection \<open>Source text and planning\<close>

record source_doc =
  sd_rel_path :: string
  sd_text :: string

fun normalize_newlines :: "string \<Rightarrow> string" where
  "normalize_newlines [] = []"
| "normalize_newlines [c] = [if c = CHR 0x0D then CHR 0x0A else c]"
| "normalize_newlines (c # d # s) =
     (if c = CHR 0x0D \<and> d = CHR 0x0A then CHR 0x0A # normalize_newlines s
      else (if c = CHR 0x0D then CHR 0x0A else c) # normalize_newlines (d # s))"

definition planning_docs :: "source_result option \<Rightarrow> source_doc list" where
  "planning_docs source =
     (case source of
        None \<Rightarrow> []
      | Some r \<Rightarrow>
          if sv_blockers r \<noteq> [] then []
          else map (\<lambda>(n, t). \<lparr>sd_rel_path = ''source/'' @ n, sd_text = normalize_newlines t\<rparr>) (sv_documents r))"

definition compute_source_fingerprints :: "digest \<Rightarrow> source_doc list \<Rightarrow> json_object" where
  "compute_source_fingerprints sha docs = foldl (\<lambda>d x. dict_set d (sd_rel_path x) (PStr (sha (sd_text x)))) [] docs"

definition mismatched_source_fingerprints :: "digest \<Rightarrow> pyval \<Rightarrow> source_doc list \<Rightarrow> string list" where
  "mismatched_source_fingerprints sha recorded docs =
     (let current = compute_source_fingerprints sha docs
      in sort (remdups (map fst (filter (\<lambda>(rel, fp). is_str fp \<and> row_get current rel \<noteq> fp) (object_of recorded)))))"

definition planning_fingerprints_diverged :: "digest \<Rightarrow> json_object \<Rightarrow> source_doc list \<Rightarrow> bool" where
  "planning_fingerprints_diverged sha project docs =
     (let recorded = row_get project ''source_fingerprints''
      in object_of recorded \<noteq> [] \<and> mismatched_source_fingerprints sha recorded docs \<noteq> [])"

definition indexes_where :: "('a \<Rightarrow> bool) \<Rightarrow> 'a list \<Rightarrow> nat list" where
  "indexes_where P xs = filter (\<lambda>i. P (xs ! i)) [0..<length xs]"

definition new_source_precedes_cursor :: "json_object \<Rightarrow> source_doc list \<Rightarrow> bool" where
  "new_source_precedes_cursor project docs =
     (case (row_get project ''source_fingerprints'', row_get project ''planning_cursor'') of
        (PDict recorded, PDict cursor) \<Rightarrow>
          (case row_get cursor ''source_file'' of
             PStr f \<Rightarrow>
               (case indexes_where (\<lambda>d. sd_rel_path d = f) docs of
                  [i] \<Rightarrow> list_ex (\<lambda>d. sd_rel_path d \<notin> set (dict_keys recorded)) (take (Suc i) docs)
                | _ \<Rightarrow> False)
           | _ \<Rightarrow> False)
      | _ \<Rightarrow> False)"

definition planning_complete :: "digest \<Rightarrow> json_object \<Rightarrow> source_result option \<Rightarrow> source_doc list \<Rightarrow> bool" where
  "planning_complete sha project source docs =
     (case source of
        None \<Rightarrow> False
      | Some r \<Rightarrow>
          sv_files r \<noteq> [] \<and>
          (let recorded = row_get project ''source_fingerprints''
           in object_of recorded \<noteq> [] \<and> py_eq recorded (PDict (compute_source_fingerprints sha docs))) \<and>
          (case row_get project ''planning_cursor'' of
             PDict cursor \<Rightarrow>
               (case (row_get cursor ''source_file'', row_get cursor ''offset'') of
                  (PStr rel, PInt offset) \<Rightarrow>
                    rel = last (sv_files r) \<and>
                    (case filter (\<lambda>d. sd_rel_path d = rel) docs of
                       [d] \<Rightarrow> int (length (sd_text d)) \<le> offset
                     | _ \<Rightarrow> False)
                | _ \<Rightarrow> False)
           | _ \<Rightarrow> False))"

definition planning_action :: "json_object \<Rightarrow> string \<Rightarrow> next_action" where
  "planning_action project reason =
     (if episodes_without_source_range project \<noteq> []
      then action A_RESET_EPISODE_PLANNING ''episode ledger lacks source range records'' [(''from_episode'', PInt 1)] []
      else action A_PLAN_EPISODES reason [] [])"

subsection \<open>The asset inventory\<close>

record inventory =
  in_state :: string
  in_recorded_scope :: "(string \<times> string list) option"
  in_recorded_revision :: pyval

abbreviation inventory_in :: "string \<Rightarrow> inventory" where
  "inventory_in st \<equiv> \<lparr>in_state = st, in_recorded_scope = None, in_recorded_revision = PNone\<rparr>"

text \<open>\<open>SourceScope.model_validate\<close>: the closed schema and its shape check.\<close>

definition parse_source_scope :: "pyval \<Rightarrow> (string \<times> string list) option" where
  "parse_source_scope v =
     (case v of
        PDict d \<Rightarrow>
          (case (row_get d ''kind'', dict_get_or d ''files'' (PList [])) of
             (PStr k, PList fs) \<Rightarrow>
               if set (dict_keys d) \<subseteq> {''kind'', ''files''} \<and> list_all is_str fs
                 \<and> (k = ''all'' \<and> fs = [] \<or> k = ''files'' \<and> fs \<noteq> [])
               then Some (k, map id_text fs) else None
           | _ \<Rightarrow> None)
      | _ \<Rightarrow> None)"

definition source_inventory ::
  "workflow_env \<Rightarrow> json_object \<Rightarrow> workflow_blocker list \<Rightarrow> source_result option \<times> inventory \<times> workflow_blocker list" where
  "source_inventory env project bs0 =
     (if row_get project ''content_mode'' = PStr ''ad'' then (None, inventory_in ''not_applicable'', bs0)
      else
        (let source = we_source env;
             bs1 = bs0 @ sv_blockers source;
             workflow = row_get project ''workflow'';
             bs = (if workflow \<noteq> PNone \<and> \<not> is_object workflow
                   then bs1 @ [blocker ''invalid_workflow'' ''workflow'' ''workflow must be an object''] else bs1);
             marker = row_get (object_of workflow) ''asset_inventory''
         in case marker of
              PNone \<Rightarrow> (Some source, inventory_in ''missing'', bs)
            | PDict m \<Rightarrow>
                (case parse_source_scope (row_get m ''scope'') of
                   None \<Rightarrow>
                     (Some source, inventory_in ''blocked'',
                      bs @ [blocker ''invalid_source_scope'' ''workflow.asset_inventory.scope'' ''invalid scope''])
                 | Some (k, fs) \<Rightarrow>
                     (let revision = row_get m ''source_revision'';
                          st = (if k \<noteq> ''all'' then ''partial''
                                else if sv_blockers source \<noteq> [] then ''blocked''
                                else if revision = str_or_none (sv_revision source) then ''current''
                                else ''stale'')
                      in (Some source, \<lparr>in_state = st, in_recorded_scope = Some (k, fs), in_recorded_revision = revision\<rparr>, bs)))
            | _ \<Rightarrow>
                (Some source, inventory_in ''blocked'',
                 bs @ [blocker ''invalid_asset_inventory'' ''workflow.asset_inventory'' ''asset inventory marker must be an object''])))"

subsection \<open>Asset sheets\<close>

text \<open>The loop over the entries of a bucket; an entry that is not an object ends it.\<close>

fun sheet_entries ::
  "resolver option \<Rightarrow> asset_spec \<Rightarrow> json_object \<Rightarrow> collection \<times> workflow_blocker list \<Rightarrow> py_error + (collection \<times> workflow_blocker list)" where
  "sheet_entries resolve spec [] s = Inr s"
| "sheet_entries resolve spec ((name, item) # es) (c, bs) =
     (if \<not> is_object item then
        Inr (c\<lparr>co_state := Some ''blocked'', co_current := [], co_missing := []\<rparr>,
             bs @ [blocker ''invalid_asset_entry'' (as_bucket_key spec @ ''.'' @ name) ''asset entries must be named objects''])
      else
        (case (resolve, str_value (row_get (object_of item) (as_sheet_field spec))) of
           (Some r, Some path) \<Rightarrow>
             bind_e (asset_sheet (as_type spec) (asset_name_comparison_key name)) (\<lambda>key.
               bind_e (classify_artifact r key path name None (c, bs)) (sheet_entries resolve spec es))
         | _ \<Rightarrow> sheet_entries resolve spec es (c\<lparr>co_missing := co_missing c @ [name]\<rparr>, bs)))"

definition sheet_collection ::
  "resolver option \<Rightarrow> json_object \<Rightarrow> asset_spec \<Rightarrow> workflow_blocker list \<Rightarrow> py_error + (collection \<times> workflow_blocker list)" where
  "sheet_collection resolve project spec bs =
     (case dict_get_or project (as_bucket_key spec) (PDict []) of
        PDict bucket \<Rightarrow> sheet_entries resolve spec bucket (empty_collection, bs)
      | _ \<Rightarrow>
          Inr (empty_collection\<lparr>co_state := Some ''blocked''\<rparr>,
               bs @ [blocker ''invalid_asset_bucket'' (as_bucket_key spec) (as_bucket_key spec @ '' must be an object'')]))"

fun asset_sheets ::
  "resolver option \<Rightarrow> json_object \<Rightarrow> asset_spec list \<Rightarrow> workflow_blocker list
     \<Rightarrow> py_error + ((string, collection) dict \<times> workflow_blocker list)" where
  "asset_sheets resolve project [] bs = Inr ([], bs)"
| "asset_sheets resolve project (spec # specs) bs =
     bind_e (sheet_collection resolve project spec bs) (\<lambda>(c, bs1).
       bind_e (asset_sheets resolve project specs bs1) (\<lambda>(cs, bs2). Inr ((as_type spec, c) # cs, bs2)))"

subsection \<open>The episode ledger\<close>

type_synonym episode_entry = "int \<times> json_object"

definition entry_path :: "nat \<Rightarrow> string" where
  "entry_path i = ''episodes['' @ nat_str i @ '']''"

fun ledger_entries ::
  "nat \<Rightarrow> int list \<Rightarrow> pyval list \<Rightarrow> workflow_blocker list \<Rightarrow> episode_entry list \<times> workflow_blocker list" where
  "ledger_entries i seen [] bs = ([], bs)"
| "ledger_entries i seen (e # es) bs =
     (if \<not> is_object e then
        ledger_entries (Suc i) seen es (bs @ [blocker ''invalid_episode_entry'' (entry_path i) ''episode entry must be an object''])
      else
        (case parse_positive_episode_num (row_get (object_of e) ''episode'') of
           None \<Rightarrow>
             ledger_entries (Suc i) seen es
               (bs @ [blocker ''invalid_episode_number'' (entry_path i @ ''.episode'') ''episode number must be a unique positive integer''])
         | Some n \<Rightarrow>
             if n \<in> set seen then
               ledger_entries (Suc i) seen es
                 (bs @ [blocker ''invalid_episode_number'' (entry_path i @ ''.episode'') ''episode number must be a unique positive integer''])
             else if row_get (object_of e) ''ledger_status'' \<noteq> PNone \<and> \<not> is_str (row_get (object_of e) ''ledger_status'') then
               ledger_entries (Suc i) (n # seen) es
                 (bs @ [blocker ''invalid_ledger_status'' (entry_path i @ ''.ledger_status'') ''ledger_status must be a string''])
             else
               (case ledger_entries (Suc i) (n # seen) es bs of (ps, bs') \<Rightarrow> ((n, object_of e) # ps, bs'))))"

definition ledger_episodes :: "json_object \<Rightarrow> workflow_blocker list \<Rightarrow> episode_entry list \<times> workflow_blocker list" where
  "ledger_episodes project bs =
     (case row_get project ''episodes'' of
        PList raw \<Rightarrow> (case ledger_entries 0 [] raw bs of (ps, bs') \<Rightarrow> (sort_key fst ps, bs'))
      | _ \<Rightarrow> ([], bs @ [blocker ''invalid_episode_ledger'' ''episodes'' ''episodes must be an array'']))"

definition is_pending :: "episode_entry \<Rightarrow> bool" where
  "is_pending p \<longleftrightarrow> row_get (snd p) ''ledger_status'' \<in> {PStr ''planned'', PStr ''stale''}"

definition target_episode :: "bool \<Rightarrow> episode_entry list \<Rightarrow> int option \<Rightarrow> episode_entry option" where
  "target_episode ad episodes requested =
     (if ad then Some (case find (\<lambda>p. fst p = 1) episodes of None \<Rightarrow> (1, []) | Some p \<Rightarrow> p)
      else
        (case requested of
           Some n \<Rightarrow> find (\<lambda>p. fst p = n) episodes
         | None \<Rightarrow> (case filter is_pending episodes @ episodes of [] \<Rightarrow> None | p # _ \<Rightarrow> Some p)))"

subsection \<open>The script of the target\<close>

record workflow_target =
  wt_episode :: int
  wt_script :: string
  wt_script_filename :: string
  wt_source :: string

text \<open>\<open>posixpath.normpath\<close>.\<close>

fun norm_parts :: "bool \<Rightarrow> string list \<Rightarrow> string list \<Rightarrow> string list" where
  "norm_parts rooted acc [] = acc"
| "norm_parts rooted acc (p # ps) =
     (if p = [] \<or> p = ''.'' then norm_parts rooted acc ps
      else if p \<noteq> ''..'' \<or> (\<not> rooted \<and> acc = []) \<or> (acc \<noteq> [] \<and> last acc = ''..'') then norm_parts rooted (acc @ [p]) ps
      else norm_parts rooted (butlast acc) ps)"

definition normpath :: "string \<Rightarrow> string" where
  "normpath s =
     (if s = [] then ''.''
      else
        (let slashes = (case s of a # b # c # _ \<Rightarrow> if a = CHR ''/'' then (if b = CHR ''/'' \<and> c \<noteq> CHR ''/'' then ''//'' else ''/'') else []
                        | [a, b] \<Rightarrow> if a = CHR ''/'' then (if b = CHR ''/'' then ''//'' else ''/'') else []
                        | [a] \<Rightarrow> if a = CHR ''/'' then ''/'' else [] | [] \<Rightarrow> []);
             path = slashes @ join_with ''/'' (norm_parts (slashes \<noteq> []) [] (split_on (CHR ''/'') s))
         in if path = [] then ''.'' else path))"

definition normalize_script_filename :: "string \<Rightarrow> string" where
  "normalize_script_filename s =
     (let n = normpath s; m = (case strip_prefix ''scripts/'' n of Some r \<Rightarrow> r | None \<Rightarrow> n)
      in if m = ''.'' then [] else m)"

record script_view =
  sc_state :: string
  sc_path :: string

text \<open>\<open>str(item.get("text") or "").strip()\<close> is empty.\<close>

definition blank_text :: "pyval \<Rightarrow> bool" where
  "blank_text v \<longleftrightarrow> \<not> pv_truthy v \<or> (case v of PStr s \<Rightarrow> str_strip s = [] | _ \<Rightarrow> False)"

definition duration_max :: "string \<Rightarrow> int" where
  "duration_max kind = (if kind = ''video_units'' then 300 else 60)"

definition replan_shell :: "string \<Rightarrow> json_object \<Rightarrow> bool" where
  "replan_shell kind item \<longleftrightarrow>
     kind = ''video_units'' \<and> row_get item ''needs_replan'' = PBool True \<and> blank_text (row_get item ''text'')
     \<and> eq_int (row_get item ''duration_seconds'') 0"

definition duration_ok :: "string \<Rightarrow> json_object \<Rightarrow> bool" where
  "duration_ok kind item \<longleftrightarrow>
     row_get item ''duration_seconds'' = PNone \<or> replan_shell kind item
     \<or> (case row_get item ''duration_seconds'' of PInt n \<Rightarrow> 1 \<le> n \<and> n \<le> duration_max kind | _ \<Rightarrow> False)"

definition item_path :: "string \<Rightarrow> string \<Rightarrow> nat \<Rightarrow> string \<Rightarrow> string" where
  "item_path path kind i field = path @ ''.'' @ kind @ ''['' @ nat_str i @ ''].'' @ field"

fun script_items_problem ::
  "string \<Rightarrow> string \<Rightarrow> string \<Rightarrow> nat \<Rightarrow> string list \<Rightarrow> json_object list \<Rightarrow> workflow_blocker option" where
  "script_items_problem path kind f i seen [] = None"
| "script_items_problem path kind f i seen (item # rest) =
     (case str_value (row_get item f) of
        None \<Rightarrow> Some (blocker ''invalid_script_id'' (item_path path kind i f) (f @ '' must be a non-empty string''))
      | Some rid \<Rightarrow>
          if kind \<noteq> ''video_units'' \<and> \<not> storyboard_item_id_ok rid
          then Some (blocker ''invalid_script_id'' (item_path path kind i f) (''invalid '' @ f @ '': '' @ rid))
          else if rid \<in> set seen
          then Some (blocker ''duplicate_script_id'' (item_path path kind i f) (''duplicate '' @ f @ '': '' @ rid))
          else if \<not> duration_ok kind item
          then Some (blocker ''invalid_script_structure'' (item_path path kind i ''duration_seconds'')
                 (''duration_seconds must be an integer between 1 and '' @ int_str (duration_max kind)))
          else script_items_problem path kind f (Suc i) (rid # seen) rest)"

record script_facts =
  sf_view :: script_view
  sf_items :: "json_object list"
  sf_kind :: "string option"
  sf_script :: json_object

definition script_blocked ::
  "string \<Rightarrow> string option \<Rightarrow> json_object \<Rightarrow> workflow_blocker \<Rightarrow> workflow_blocker list
     \<Rightarrow> py_error + (script_facts \<times> workflow_blocker list)" where
  "script_blocked path kind script b bs =
     Inr (\<lparr>sf_view = \<lparr>sc_state = ''blocked'', sc_path = path\<rparr>, sf_items = [], sf_kind = kind, sf_script = script\<rparr>, bs @ [b])"

definition script_absent ::
  "string \<Rightarrow> string \<Rightarrow> workflow_blocker list \<Rightarrow> py_error + (script_facts \<times> workflow_blocker list)" where
  "script_absent st path bs =
     Inr (\<lparr>sf_view = \<lparr>sc_state = st, sc_path = path\<rparr>, sf_items = [], sf_kind = None, sf_script = []\<rparr>, bs)"

fun status_text :: "artifact_status \<Rightarrow> string" where
  "status_text CURRENT = ''current''"
| "status_text STALE = ''stale''"
| "status_text MISSING = ''missing''"
| "status_text BLOCKED = ''blocked''"

definition checked_script ::
  "workflow_env \<Rightarrow> json_object \<Rightarrow> workflow_target \<Rightarrow> string \<Rightarrow> json_object \<Rightarrow> workflow_blocker list
     \<Rightarrow> py_error + (script_facts \<times> workflow_blocker list)" where
  "checked_script env project target st script bs =
     (let path = wt_script target; ep = row_get script ''episode''
      in if \<not> eq_int ep (wt_episode target) \<or> (case ep of PBool _ \<Rightarrow> True | _ \<Rightarrow> False)
         then script_blocked path None script
           (blocker ''script_episode_mismatch'' (path @ ''.episode'')
             (''script episode must equal target episode '' @ int_str (wt_episode target))) bs
         else
           (case ensure_route_skeleton script (row_get project ''content_mode'') (row_get project ''generation_mode'') of
              Inl (ValueError m) \<Rightarrow>
                script_blocked path None script (blocker ''invalid_project_mode'' ''content_mode'' m) bs
            | Inl e \<Rightarrow> Inl e
            | Inr kind \<Rightarrow>
                bind_e (resolve_kind_items script (Some kind)) (\<lambda>(raw, f, _).
                  if list_of raw = [] \<or> \<not> list_all is_object (list_of raw)
                  then script_blocked path (Some kind) script
                    (blocker ''invalid_script_collection'' (path @ ''.'' @ kind) (kind @ '' must be a non-empty array of objects'')) bs
                  else
                    (let items = map object_of (list_of raw)
                     in case script_items_problem path kind f 0 [] items of
                          Some b \<Rightarrow> script_blocked path (Some kind) script b bs
                        | None \<Rightarrow>
                            (case we_episode_errors env project script of
                               e # es \<Rightarrow>
                                 script_blocked path (Some kind) script
                                   (blocker ''invalid_script_structure'' path (join_with ''; '' (e # es))) bs
                             | [] \<Rightarrow>
                                 Inr (\<lparr>sf_view = \<lparr>sc_state = st, sc_path = path\<rparr>, sf_items = items,
                                      sf_kind = Some kind, sf_script = script\<rparr>, bs))))))"

definition load_script_artifacts ::
  "workflow_env \<Rightarrow> json_object \<Rightarrow> workflow_target \<Rightarrow> resolver option \<Rightarrow> workflow_blocker list
     \<Rightarrow> py_error + (script_facts \<times> workflow_blocker list)" where
  "load_script_artifacts env project target resolve bs =
     (let path = wt_script target
      in bind_e (case resolve of
                   None \<Rightarrow> Inr (CURRENT, bs)
                 | Some r \<Rightarrow> bind_e (episode_script (wt_episode target)) (\<lambda>k. artifact_state r k path bs))
           (\<lambda>(st, bs1).
              if st \<notin> {CURRENT, STALE} then script_absent (status_text st) path bs1
              else
                (case we_load_script env path of
                   ScriptMissing \<Rightarrow> script_absent ''missing'' path bs1
                 | ScriptUnreadable m \<Rightarrow>
                     script_blocked path None [] (blocker ''invalid_script'' path m) bs1
                 | ScriptRaised e \<Rightarrow> Inl e
                 | ScriptLoaded (PDict script) \<Rightarrow> checked_script env project target (status_text st) script bs1
                 | ScriptLoaded _ \<Rightarrow>
                     script_blocked path None [] (blocker ''invalid_script'' path ''script must be an object'') bs1)))"

subsection \<open>The media of the items\<close>

datatype media_field = STORYBOARD_IMAGE | VIDEO_CLIP | NARRATION_AUDIO

fun field_name :: "media_field \<Rightarrow> string" where
  "field_name STORYBOARD_IMAGE = ''storyboard_image''"
| "field_name VIDEO_CLIP = ''video_clip''"
| "field_name NARRATION_AUDIO = ''narration_audio''"

fun media_key :: "media_field \<Rightarrow> int \<Rightarrow> string \<Rightarrow> py_error + artifact_key" where
  "media_key STORYBOARD_IMAGE e r = episode_storyboard e r"
| "media_key VIDEO_CLIP e r = episode_video e r"
| "media_key NARRATION_AUDIO e r = episode_audio e r"

text \<open>The manual uploads, with the resource type of the mode; only video clips have a fallback.\<close>

type_synonym manual_check = "string \<Rightarrow> string \<Rightarrow> manifest_error + bool"

fun media_items ::
  "resolver option \<Rightarrow> manual_check option \<Rightarrow> string \<Rightarrow> string \<Rightarrow> media_field \<Rightarrow> int \<Rightarrow> json_object list
     \<Rightarrow> collection \<times> workflow_blocker list \<Rightarrow> py_error + (collection \<times> workflow_blocker list)" where
  "media_items resolve manual kind f field e [] s = Inr s"
| "media_items resolve manual kind f field e (item # rest) (c, bs) =
     (case str_value (row_get item f) of
        None \<Rightarrow> media_items resolve manual kind f field e rest (c, bs)
      | Some rid \<Rightarrow>
          if kind = ''video_units'' \<and> row_get item ''needs_replan'' = PBool True
          then media_items resolve manual kind f field e rest (c\<lparr>co_stale := co_stale c @ [rid]\<rparr>, bs)
          else
            (case (resolve, str_value (row_get (get_generated_assets item) (field_name field))) of
               (Some r, Some path) \<Rightarrow>
                 bind_e (media_key field e rid) (\<lambda>key.
                   bind_e (classify_artifact r key path rid
                             (if field = VIDEO_CLIP then map_option (\<lambda>m. m rid path) manual else None) (c, bs))
                     (media_items resolve manual kind f field e rest))
             | _ \<Rightarrow> media_items resolve manual kind f field e rest (c\<lparr>co_missing := co_missing c @ [rid]\<rparr>, bs)))"

definition media_collection ::
  "resolver option \<Rightarrow> manual_check option \<Rightarrow> json_object list \<Rightarrow> string option \<Rightarrow> media_field \<Rightarrow> int
     \<Rightarrow> workflow_blocker list \<Rightarrow> py_error + (collection \<times> workflow_blocker list)" where
  "media_collection resolve manual items kind field e bs =
     (case kind of
        None \<Rightarrow> Inr (empty_collection, bs)
      | Some k \<Rightarrow> bind_e (id_field_of k) (\<lambda>f. media_items resolve manual k f field e items (empty_collection, bs)))"

end
