(* ===== verification/Workflow_State.thy ===== *)
theory Workflow_State
  imports Workflow_Facts
begin

text \<open>
  The production status of a project (second half of lib/workflow_state.py): the facts shared by
  every episode, the first unmet condition of one episode with the action that meets it, the
  status of the whole project, which asks the other episodes once the selected one is done, and
  the status of a project whose migration failed.
\<close>

subsection \<open>The status\<close>

record gate =
  ga_state :: string
  ga_revision :: "string option"

record step1_view =
  s1_state :: string
  s1_path :: "string option"
  s1_revision :: "string option"

record artifacts_view =
  av_inventory :: "inventory option"
  av_sheets :: "(string, collection) dict"
  av_step1 :: step1_view
  av_script :: script_view
  av_storyboards :: collection
  av_videos :: collection
  av_audio :: collection

record workflow_project =
  wp_content_mode :: string
  wp_generation_mode :: string
  wp_grid_storyboard :: bool

record workflow_status =
  ws_project_revision :: string
  ws_source_revision :: "string option"
  ws_project :: workflow_project
  ws_target :: "workflow_target option"
  ws_state :: workflow_state
  ws_blockers :: "workflow_blocker list"
  ws_review_gate :: "gate option"
  ws_artifacts :: artifacts_view
  ws_next_action :: next_action

definition project_revision :: "digest \<Rightarrow> json_object \<Rightarrow> string" where
  "project_revision sha project = ''sha256-v1:'' @ sha (canonical_json (PDict project))"

definition workflow_project_of :: "json_object \<Rightarrow> workflow_project" where
  "workflow_project_of project =
     \<lparr>wp_content_mode = id_text (row_get project ''content_mode''),
      wp_generation_mode = id_text (row_get project ''generation_mode''),
      wp_grid_storyboard = (row_get project ''grid_storyboard'' = PBool True)\<rparr>"

subsection \<open>Shared facts\<close>

record shared_facts =
  sh_source :: "source_result option"
  sh_planning_sources :: "source_doc list"
  sh_planning_complete :: bool
  sh_inventory :: inventory
  sh_sheets :: "(string, collection) dict"
  sh_episodes :: "episode_entry list"
  sh_currency :: "resolver option"
  sh_blockers :: "workflow_blocker list"

definition is_ad :: "json_object \<Rightarrow> bool" where
  "is_ad project \<longleftrightarrow> row_get project ''content_mode'' = PStr ''ad''"

definition mode_blockers :: "json_object \<Rightarrow> workflow_blocker list" where
  "mode_blockers project =
     (let mode = row_get project ''content_mode''; route = row_get project ''generation_mode'';
          grid = row_get project ''grid_storyboard''; duration = row_get project ''target_duration''
      in (if mode \<in> {PStr ''narration'', PStr ''drama'', PStr ''ad''} then []
          else [blocker ''invalid_content_mode'' ''content_mode'' ''unsupported mode''])
       @ (if route \<in> {PStr ''storyboard'', PStr ''reference_video''} then []
          else [blocker ''invalid_generation_mode'' ''generation_mode'' ''unsupported route''])
       @ (if grid = PNone \<or> (\<exists>b \<in> {True, False}. grid = PBool b) then []
          else [blocker ''invalid_grid_storyboard'' ''grid_storyboard'' ''grid_storyboard must be a boolean''])
       @ (if is_ad project then
            (case duration of
               PInt n \<Rightarrow> if 0 < n then []
                         else [blocker ''invalid_target_duration'' ''target_duration'' ''ad target_duration must be a positive integer'']
             | _ \<Rightarrow> [blocker ''invalid_target_duration'' ''target_duration'' ''ad target_duration must be a positive integer''])
            @ (if grid = PBool True
               then [blocker ''invalid_grid_storyboard'' ''grid_storyboard'' ''ad workflow does not support grid storyboards'']
               else [])
          else []))"

definition shared_facts_of :: "workflow_env \<Rightarrow> json_object \<Rightarrow> py_error + shared_facts" where
  "shared_facts_of env project =
     bind_e (case we_currency env of
               Inr r \<Rightarrow> Inr (Some r, mode_blockers project)
             | Inl e \<Rightarrow>
                 bind_e (caught e) (\<lambda>m. Inr (None,
                   mode_blockers project @ [blocker ''artifact_currency_unavailable'' ''.arcreel_artifacts.json'' m])))
       (\<lambda>(currency, bs).
          (let errors = we_asset_errors env project;
               bs1 = (if errors = [] then bs
                      else bs @ [blocker ''invalid_asset_definitions'' ''project.json'' (join_with ''; '' errors)])
           in case source_inventory env project bs1 of
                (source, inventory, bs2) \<Rightarrow>
                  (let docs = (if is_ad project then [] else planning_docs source);
                       complete = planning_complete (we_sha env) project source docs
                   in bind_e (asset_sheets currency project ASSET_SPECS bs2) (\<lambda>(sheets, bs3).
                        (case ledger_episodes project bs3 of
                           (episodes, bs4) \<Rightarrow>
                             Inr \<lparr>sh_source = source, sh_planning_sources = docs, sh_planning_complete = complete,
                                  sh_inventory = inventory, sh_sheets = sheets, sh_episodes = episodes,
                                  sh_currency = currency, sh_blockers = bs4\<rparr>)))))"

subsection \<open>The decision\<close>

text \<open>
  The code threads its lists through one long function and returns early; here a stage gives its
  decision, or none, with the draft of the answer so far.
\<close>

record status_draft =
  dr_blockers :: "workflow_blocker list"
  dr_gate :: "gate option"
  dr_artifacts :: artifacts_view

type_synonym verdict = "workflow_state \<times> next_action"

definition blocked_action :: "string \<Rightarrow> next_action" where
  "blocked_action reason = action A_NONE reason [] []"

definition add_blocker :: "workflow_blocker \<Rightarrow> status_draft \<Rightarrow> status_draft" where
  "add_blocker b d = d\<lparr>dr_blockers := dr_blockers d @ [b]\<rparr>"

definition initial_artifacts :: "json_object \<Rightarrow> shared_facts \<Rightarrow> artifacts_view" where
  "initial_artifacts project sh =
     \<lparr>av_inventory = Some (sh_inventory sh), av_sheets = sh_sheets sh,
      av_step1 = \<lparr>s1_state = (if is_ad project then ''not_applicable'' else ''missing''), s1_path = None, s1_revision = None\<rparr>,
      av_script = \<lparr>sc_state = ''missing'', sc_path = []\<rparr>,
      av_storyboards = empty_collection, av_videos = empty_collection, av_audio = empty_collection\<rparr>"

definition initial_draft :: "json_object \<Rightarrow> shared_facts \<Rightarrow> status_draft" where
  "initial_draft project sh =
     \<lparr>dr_blockers = sh_blockers sh,
      dr_gate = Some \<lparr>ga_state = (if is_ad project then ''not_applicable'' else ''pending''), ga_revision = None\<rparr>,
      dr_artifacts = initial_artifacts project sh\<rparr>"

text \<open>The binding of the selected episode to its script file.\<close>

definition bind_target :: "episode_entry option \<Rightarrow> status_draft \<Rightarrow> workflow_target option \<times> status_draft" where
  "bind_target selected d =
     (case selected of
        None \<Rightarrow> (None, d)
      | Some (n, entry) \<Rightarrow>
          (case str_value (row_get entry ''script_file'') of
             None \<Rightarrow>
               (None, add_blocker (blocker ''invalid_script_binding'' (''episodes.'' @ int_str n @ ''.script_file'')
                  ''script_file must be a non-empty string'') d)
           | Some path \<Rightarrow>
               (let f = normalize_script_filename path;
                    d' = (if CHR ''/'' \<in> set f \<or> CHR 0x5C \<in> set f
                          then add_blocker (blocker ''invalid_script_path'' (''episodes.'' @ int_str n @ ''.script_file'')
                                 ''script_file must resolve to a bare filename under scripts/'') d
                          else d)
                in (Some \<lparr>wt_episode = n, wt_script = path, wt_script_filename = f,
                          wt_source = ''source/episode_'' @ int_str n @ ''.txt''\<rparr>, d'))))"

definition blank_source :: "source_doc list \<Rightarrow> bool" where
  "blank_source docs \<longleftrightarrow> list_all (\<lambda>d. str_strip (sd_text d) = []) docs"

definition analyze_args :: "source_result option \<Rightarrow> (string, pyval) dict" where
  "analyze_args source =
     [(''scope'', PDict [(''kind'', PStr ''all''), (''files'', PList [])]),
      (''expected_source_revision'', str_or_none (case source of None \<Rightarrow> None | Some r \<Rightarrow> sv_revision r))]"

definition reset_action :: "string \<Rightarrow> int \<Rightarrow> next_action" where
  "reset_action reason n = action A_RESET_EPISODE_PLANNING reason [(''from_episode'', PInt n)] []"

text \<open>The conditions of the whole project, up to the choice of an episode.\<close>

definition project_stage ::
  "digest \<Rightarrow> json_object \<Rightarrow> shared_facts \<Rightarrow> int option \<Rightarrow> episode_entry option \<Rightarrow> status_draft
     \<Rightarrow> verdict option \<times> status_draft" where
  "project_stage sha project sh episode selected d =
     (let ad = is_ad project; source = sh_source sh; docs = sh_planning_sources sh
      in if dr_blockers d \<noteq> [] then (Some (S_PROJECT_INPUT, blocked_action ''workflow is blocked''), d)
         else if \<not> ad \<and> (case source of None \<Rightarrow> True | Some r \<Rightarrow> sv_files r = [])
           then (Some (S_PROJECT_INPUT, action A_COLLECT_PROJECT_INPUT ''source text is required'' [] []), d)
         else if \<not> ad \<and> blank_source docs
           then (Some (S_PROJECT_INPUT, action A_COLLECT_PROJECT_INPUT ''non-blank source text is required'' [] []), d)
         else if \<not> ad \<and> in_state (sh_inventory sh) \<noteq> ''current''
           then (Some (S_ASSET_INVENTORY,
                  action A_ANALYZE_ASSETS ''asset inventory is missing or out of date'' (analyze_args source) []), d)
         else if \<not> ad \<and> planning_fingerprints_diverged sha project docs
           then (Some (S_EPISODE_PLAN, reset_action ''source files changed after episode planning'' 1), d)
         else if \<not> ad \<and> new_source_precedes_cursor project docs
           then (Some (S_EPISODE_PLAN, reset_action ''new source text precedes the current planning cursor'' 1), d)
         else if \<not> ad \<and> selected = None
           then (case episode of
                   Some n \<Rightarrow>
                     if sh_planning_complete sh
                     then (Some (S_EPISODE_PLAN, blocked_action ''requested episode is unavailable''),
                           add_blocker (blocker ''episode_unavailable'' (''episodes.'' @ int_str n)
                             ''requested episode is absent and all source text is already planned'') d)
                     else (Some (S_EPISODE_PLAN, planning_action project ''episode ledger has no target episode''), d)
                 | None \<Rightarrow> (Some (S_EPISODE_PLAN, planning_action project ''episode ledger has no target episode''), d))
         else (None, d))"

definition live_fingerprint :: "workflow_env \<Rightarrow> string option \<Rightarrow> string option" where
  "live_fingerprint env p = (case p of None \<Rightarrow> None | Some q \<Rightarrow> content_fingerprint (we_sha env) (we_fs env) q)"

definition set_step1 :: "step1_view \<Rightarrow> status_draft \<Rightarrow> status_draft" where
  "set_step1 v d = d\<lparr>dr_artifacts := (dr_artifacts d)\<lparr>av_step1 := v\<rparr>\<rparr>"

definition stale_step1 :: step1_view where
  "stale_step1 = \<lparr>s1_state = ''stale'', s1_path = None, s1_revision = None\<rparr>"

definition prepare_args :: "int \<Rightarrow> string option \<Rightarrow> (string, pyval) dict" where
  "prepare_args n pre = [(''episode'', PInt n), (''preprocessor'', str_or_none pre)]"

text \<open>An episode whose plan changed after its first stage was written.\<close>

definition stale_stage ::
  "workflow_env \<Rightarrow> json_object \<Rightarrow> workflow_target \<Rightarrow> json_object \<Rightarrow> string option \<Rightarrow> status_draft
     \<Rightarrow> py_error + (verdict option \<times> status_draft)" where
  "stale_stage env project target entry pre d =
     (if is_ad project \<or> row_get entry ''ledger_status'' \<noteq> PStr ''stale'' then Inr (None, d)
      else
        bind_e (step1_path project (wt_episode target)) (\<lambda>p.
          (let live = live_fingerprint env p;
               baseline = row_get entry ''stale_step1_revision'';
               rebuilt = row_get entry ''stale_step1_rebuilt_revision''
           in if \<not> has_key entry ''stale_step1_revision''
              then Inr (Some (S_EPISODE_PLAN,
                     reset_action ''legacy stale episode has no rebuild baseline'' (wt_episode target)), set_step1 stale_step1 d)
              else if live = None \<or> (str_or_none live = baseline \<and> rebuilt \<noteq> str_or_none live)
              then Inr (Some (S_STEP1_CONTENT,
                     action A_PREPARE_STEP1 ''target episode was replanned and its downstream artifacts are stale''
                       (prepare_args (wt_episode target) pre @ [(''expected_stale_step1_revision'', baseline)]) []),
                   set_step1 stale_step1 d)
              else Inr (None, d))))"

definition pending_selling_points :: "json_object \<Rightarrow> string list" where
  "pending_selling_points project =
     map fst (filter (\<lambda>(n, item). is_object item \<and> \<not> pv_truthy (row_get (object_of item) ''selling_points''))
       (object_of (dict_get_or project ''products'' (PDict []))))"

definition confirm_action :: "int \<Rightarrow> next_action" where
  "confirm_action n =
     (action A_CONFIRM_STEP1 ''formal step1 awaits content review'' [(''episode'', PInt n)] [])\<lparr>na_requires_confirmation := True\<rparr>"

text \<open>The first stage of an episode: stored, current, without a draft to repair, and confirmed.\<close>

definition step1_stage ::
  "workflow_env \<Rightarrow> json_object \<Rightarrow> workflow_target \<Rightarrow> json_object \<Rightarrow> string option \<Rightarrow> resolver option \<Rightarrow> status_draft
     \<Rightarrow> py_error + (verdict option \<times> status_draft)" where
  "step1_stage env project target entry pre currency d =
     bind_e (step1_path project (wt_episode target)) (\<lambda>p.
       (let n = wt_episode target; revision = live_fingerprint env p
        in bind_e (case (currency, p) of
                     (Some r, Some path) \<Rightarrow>
                       bind_e (episode_step1 n) (\<lambda>k. artifact_state r k path (dr_blockers d))
                   | _ \<Rightarrow> Inr (if revision \<noteq> None then CURRENT else MISSING, dr_blockers d))
             (\<lambda>(st, bs).
                (let d1 = set_step1 \<lparr>s1_state = status_text st, s1_path = p, s1_revision = revision\<rparr> (d\<lparr>dr_blockers := bs\<rparr>)
                 in bind_e (step1_quarantined (we_fs env) project n) (\<lambda>q.
                      if q then
                        bind_e (step1_quarantine_path project n) (\<lambda>qp.
                          Inr (Some (S_STEP1_REVIEW, blocked_action ''quarantined step1 must be repaired before confirmation''),
                               add_blocker (blocker ''step1_quarantined'' (case qp of None \<Rightarrow> [] | Some x \<Rightarrow> x)
                                 ''step1 has a quarantined draft that must be repaired and promoted'')
                                 (set_step1 \<lparr>s1_state = ''blocked'', s1_path = p, s1_revision = revision\<rparr> d1)))
                      else if st = BLOCKED then
                        Inr (Some (S_STEP1_CONTENT, blocked_action ''formal step1 currency is blocked''), d1)
                      else if st = MISSING then
                        Inr (Some (S_STEP1_CONTENT,
                               action A_PREPARE_STEP1 ''target episode has no formal step1'' (prepare_args n pre) []), d1)
                      else
                        bind_e (review_status (we_sha env) (we_fs env) project n) (\<lambda>review0.
                          bind_e (if row_get entry ''ledger_status'' = PStr ''stale''
                                  then bind_e (stored_review project n) (\<lambda>r.
                                         Inr (if row_get r ''fingerprint'' = PNone then PENDING_REVIEW else review0))
                                  else Inr review0)
                            (\<lambda>review.
                               (let d2 = d1\<lparr>dr_gate := Some \<lparr>ga_state = (if review = CONFIRMED then ''confirmed'' else ''pending''),
                                                             ga_revision = revision\<rparr>\<rparr>
                                in if review \<noteq> CONFIRMED then Inr (Some (S_STEP1_REVIEW, confirm_action n), d2)
                                   else Inr (None, d2)))))))))"

definition missing_sheets :: "(string, collection) dict \<Rightarrow> string list" where
  "missing_sheets sheets = concat (map (\<lambda>(t, c). if t \<noteq> ''product'' then co_missing c else []) sheets)"

text \<open>
  Without a resolver the script counts as stale when it was made from another first stage than
  the stored one.
\<close>

definition stale_by_metadata :: "json_object \<Rightarrow> workflow_target \<Rightarrow> script_facts \<Rightarrow> step1_view \<Rightarrow> py_error + bool" where
  "stale_by_metadata project target facts step1 =
     (if is_ad project \<or> sc_state (sf_view facts) \<noteq> ''current'' then Inr False
      else
        bind_e (stored_review project (wt_episode target)) (\<lambda>r.
          Inr (row_get r ''fingerprint'' \<noteq> PNone \<and>
               row_get (object_of (row_get (sf_script facts) ''metadata'')) ''step1_revision'' \<noteq> str_or_none (s1_revision step1))))"

definition script_stage ::
  "workflow_env \<Rightarrow> json_object \<Rightarrow> workflow_target \<Rightarrow> resolver option \<Rightarrow> (string, collection) dict \<Rightarrow> status_draft
     \<Rightarrow> py_error + (verdict option \<times> status_draft \<times> script_facts)" where
  "script_stage env project target currency sheets d =
     bind_e (load_script_artifacts env project target currency (dr_blockers d)) (\<lambda>(facts, bs).
       bind_e (if currency = None then stale_by_metadata project target facts (av_step1 (dr_artifacts d)) else Inr False) (\<lambda>stale.
         (let view = (if stale then (sf_view facts)\<lparr>sc_state := ''stale''\<rparr> else sf_view facts);
              d1 = d\<lparr>dr_blockers := bs, dr_artifacts := (dr_artifacts d)\<lparr>av_script := view\<rparr>\<rparr>;
              n = wt_episode target
          in if bs \<noteq> [] then Inr (Some (S_FINAL_SCRIPT, blocked_action ''script is blocked''), d1, facts)
             else if sc_state view = ''missing'' \<or> (currency = None \<and> sc_state view = ''stale'')
             then Inr (Some (S_FINAL_SCRIPT,
                    action A_GENERATE_SCRIPT ''target episode has no current final script'' [(''episode'', PInt n)] []), d1, facts)
             else if missing_sheets sheets \<noteq> []
             then Inr (Some (S_ASSET_SHEETS,
                    action A_GENERATE_ASSET_SHEETS ''asset definitions need sheets'' [] (missing_sheets sheets)), d1, facts)
             else Inr (None, d1, facts))))"

definition manual_for :: "workflow_env \<Rightarrow> json_object \<Rightarrow> resolver option \<Rightarrow> manual_check option" where
  "manual_for env project currency =
     (case currency of
        None \<Rightarrow> None
      | Some _ \<Rightarrow>
          Some (we_manual_video env
            (if row_get project ''generation_mode'' = PStr ''reference_video'' then ''reference_videos'' else ''videos'')))"

definition on_storyboard :: "json_object \<Rightarrow> bool" where
  "on_storyboard project \<longleftrightarrow> row_get project ''generation_mode'' = PStr ''storyboard''"

text \<open>\<open>str(item.get(id_field))\<close> of the units that wait for a new plan.\<close>

definition replan_ids :: "script_facts \<Rightarrow> py_error + string list" where
  "replan_ids facts =
     (if sf_kind facts = Some ''video_units''
      then bind_e (id_field_of ''video_units'') (\<lambda>f.
             Inr (map (\<lambda>i. id_text (row_get i f)) (filter (\<lambda>i. row_get i ''needs_replan'' = PBool True) (sf_items facts))))
      else Inr [])"

definition export_action :: next_action where
  "export_action = action A_EXPORT ''all required artifacts are usable'' [] []"

text \<open>The audio is reported and decides nothing: its blockers are a list of their own.\<close>

definition media_stage ::
  "workflow_env \<Rightarrow> json_object \<Rightarrow> workflow_target \<Rightarrow> resolver option \<Rightarrow> script_facts \<Rightarrow> status_draft
     \<Rightarrow> py_error + (verdict option \<times> status_draft)" where
  "media_stage env project target currency facts d =
     (let n = wt_episode target; items = sf_items facts; kind = sf_kind facts;
          grid = (row_get project ''grid_storyboard'' = PBool True \<and> on_storyboard project)
      in bind_e (if on_storyboard project then media_collection currency None items kind STORYBOARD_IMAGE n (dr_blockers d)
                 else Inr (not_applicable_collection, dr_blockers d)) (\<lambda>(boards, bs1).
         bind_e (media_collection currency (manual_for env project currency) items kind VIDEO_CLIP n bs1) (\<lambda>(videos, bs2).
         bind_e (if row_get project ''content_mode'' = PStr ''narration'' \<and> on_storyboard project
                 then media_collection currency None items kind NARRATION_AUDIO n []
                 else Inr (not_applicable_collection, [])) (\<lambda>(audio, _).
         bind_e (replan_ids facts) (\<lambda>replan.
           (let d1 = d\<lparr>dr_blockers := bs2,
                       dr_artifacts := (dr_artifacts d)\<lparr>av_storyboards := boards, av_videos := videos, av_audio := audio\<rparr>\<rparr>
            in if bs2 \<noteq> [] then Inr (Some (S_VIDEO, blocked_action ''video metadata is blocked''), d1)
               else if on_storyboard project \<and> co_missing boards \<noteq> []
               then Inr (Some (S_STORYBOARD,
                      action (if grid then A_GENERATE_GRID else A_GENERATE_STORYBOARDS) ''storyboard images are missing''
                        [(''episode'', PInt n)] (co_missing boards)), d1)
               else if replan \<noteq> []
               then Inr (Some (S_VIDEO,
                      action A_REPAIR_VIDEO_UNITS ''video units need replanning before generation''
                        [(''episode'', PInt n)] replan), d1)
               else if co_missing videos \<noteq> []
               then Inr (Some (S_VIDEO,
                      action A_GENERATE_VIDEOS ''video clips are missing'' [(''episode'', PInt n)] (co_missing videos)), d1)
               else Inr (None, d1)))))))"

definition response ::
  "workflow_env \<Rightarrow> json_object \<Rightarrow> source_result option \<Rightarrow> workflow_target option \<Rightarrow> verdict \<Rightarrow> status_draft \<Rightarrow> workflow_status" where
  "response env project source target v d =
     \<lparr>ws_project_revision = project_revision (we_sha env) project,
      ws_source_revision = (case source of None \<Rightarrow> None | Some r \<Rightarrow> sv_revision r),
      ws_project = workflow_project_of project, ws_target = target, ws_state = fst v,
      ws_blockers = dr_blockers d, ws_review_gate = dr_gate d, ws_artifacts = dr_artifacts d,
      ws_next_action = snd v\<rparr>"

text \<open>The stages of one episode after the conditions of the project.\<close>

definition episode_stages ::
  "workflow_env \<Rightarrow> json_object \<Rightarrow> shared_facts \<Rightarrow> workflow_target \<Rightarrow> json_object \<Rightarrow> string option \<Rightarrow> status_draft
     \<Rightarrow> py_error + (verdict option \<times> status_draft)" where
  "episode_stages env project sh target entry pre d =
     bind_e (stale_stage env project target entry pre d) (\<lambda>(v0, d0).
       case v0 of
         Some v \<Rightarrow> Inr (Some v, d0)
       | None \<Rightarrow>
           bind_e (if is_ad project
                   then Inr (if pending_selling_points project \<noteq> []
                             then Some (S_SELLING_POINTS,
                                    action A_DRAFT_SELLING_POINTS ''products need selling points'' [] (pending_selling_points project))
                             else None, d0)
                   else step1_stage env project target entry pre (sh_currency sh) d0)
             (\<lambda>(v1, d1).
                case v1 of
                  Some v \<Rightarrow> Inr (Some v, d1)
                | None \<Rightarrow>
                    bind_e (script_stage env project target (sh_currency sh) (sh_sheets sh) d1) (\<lambda>(v2, d2, facts).
                      case v2 of
                        Some v \<Rightarrow> Inr (Some v, d2)
                      | None \<Rightarrow> media_stage env project target (sh_currency sh) facts d2)))"

text \<open>
  The status with its recursion opened: \<open>later\<close> answers for the other episodes and is asked only
  when no episode was requested.
\<close>

definition status_with ::
  "(int \<Rightarrow> py_error + workflow_status option) \<Rightarrow> workflow_env \<Rightarrow> json_object \<Rightarrow> shared_facts \<Rightarrow> int option
     \<Rightarrow> py_error + workflow_status" where
  "status_with later env project sh episode =
     (if (case episode of Some n \<Rightarrow> n < 1 | None \<Rightarrow> False)
      then Inl (ValueError ''episode must be a positive integer'')
      else if is_ad project \<and> episode \<notin> {None, Some 1} then Inl (ValueError ''ad workflow only has episode 1'')
      else
        (let selected = target_episode (is_ad project) (sh_episodes sh) episode
         in case bind_target selected (initial_draft project sh) of
              (target, d0) \<Rightarrow>
                (case project_stage (we_sha env) project sh episode selected d0 of
                   (Some v, d1) \<Rightarrow> Inr (response env project (sh_source sh) target v d1)
                 | (None, d1) \<Rightarrow>
                     (case (target, selected) of
                        (Some t, Some (n, entry)) \<Rightarrow>
                          bind_e (workflow_rule_for (id_text (row_get project ''content_mode''))
                                    (id_text (row_get project ''generation_mode''))) (\<lambda>rule.
                          bind_e (episode_stages env project sh t entry (wr_preprocessor rule) d1) (\<lambda>(v2, d2).
                            case v2 of
                              Some v \<Rightarrow> Inr (response env project (sh_source sh) target v d2)
                            | None \<Rightarrow>
                                bind_e (if episode = None \<and> \<not> is_ad project then later (wt_episode t) else Inr None) (\<lambda>other.
                                  case other of
                                    Some s \<Rightarrow> Inr s
                                  | None \<Rightarrow>
                                      Inr (response env project (sh_source sh) target
                                        (if \<not> is_ad project \<and> \<not> sh_planning_complete sh
                                         then (S_EPISODE_PLAN, planning_action project ''source text remains unplanned'')
                                         else (S_EXPORT_READY, export_action)) d2))))
                      | _ \<Rightarrow>
                          Inr (response env project (sh_source sh) target
                            (S_EPISODE_PLAN, planning_action project ''target episode is unavailable'') d1)))))"

definition episode_status :: "workflow_env \<Rightarrow> json_object \<Rightarrow> shared_facts \<Rightarrow> int \<Rightarrow> py_error + workflow_status" where
  "episode_status env project sh n = status_with (\<lambda>_. Inr None) env project sh (Some n)"

text \<open>An answer of another episode that is worth reporting.\<close>

definition needs_work :: "workflow_status \<Rightarrow> bool" where
  "needs_work s \<longleftrightarrow>
     ws_state s \<noteq> S_EXPORT_READY \<and> \<not> (ws_state s = S_EPISODE_PLAN \<and> na_type (ws_next_action s) = A_PLAN_EPISODES)"

fun first_needing_work ::
  "(int \<Rightarrow> py_error + workflow_status) \<Rightarrow> int \<Rightarrow> episode_entry list \<Rightarrow> py_error + workflow_status option" where
  "first_needing_work ask n [] = Inr None"
| "first_needing_work ask n ((m, e) # es) =
     (if m = n then first_needing_work ask n es
      else bind_e (ask m) (\<lambda>s. if needs_work s then Inr (Some s) else first_needing_work ask n es))"

definition migration_blocker :: "migration_failure_record \<Rightarrow> workflow_blocker" where
  "migration_blocker f = blocker PROJECT_MIGRATION_FAILED ''.migration_failure.json'' (mr_reason f)"

definition migration_next_action :: "migration_failure_record \<Rightarrow> next_action" where
  "migration_next_action f = action A_RETRY_PROJECT_MIGRATION (mr_reason f) [(''details'', PList (map detail_dump (mr_details f)))] []"

definition migration_blocked_status :: "workflow_env \<Rightarrow> json_object \<Rightarrow> migration_failure_record \<Rightarrow> workflow_status" where
  "migration_blocked_status env project f =
     response env project None None (S_PROJECT_INPUT, migration_next_action f)
       \<lparr>dr_blockers = [migration_blocker f], dr_gate = None,
        dr_artifacts = \<lparr>av_inventory = None, av_sheets = [],
          av_step1 = \<lparr>s1_state = ''missing'', s1_path = None, s1_revision = None\<rparr>,
          av_script = \<lparr>sc_state = ''missing'', sc_path = []\<rparr>,
          av_storyboards = empty_collection, av_videos = empty_collection, av_audio = empty_collection\<rparr>\<rparr>"

definition get_status :: "workflow_env \<Rightarrow> json_object \<Rightarrow> int option \<Rightarrow> py_error + workflow_status" where
  "get_status env project episode =
     (case we_migration env of
        Some f \<Rightarrow> Inr (migration_blocked_status env project f)
      | None \<Rightarrow>
          bind_e (shared_facts_of env project) (\<lambda>sh.
            status_with (\<lambda>n. first_needing_work (episode_status env project sh) n (sh_episodes sh)) env project sh episode))"

end
