(* ===== verification/Workflow_State_Props.thy ===== *)
theory Workflow_State_Props
  imports Workflow_State
begin

text \<open>
  What a production status promises: the action always fits the state, there is an action unless
  something blocks, an answer ready for export stands for finished episodes, and a collection
  accounts for every item of the script.
\<close>

subsection \<open>Classification\<close>

lemma artifact_state_blockers:
  assumes "artifact_state resolve key path bs = Inr (st, bs')"
  shows "(st = BLOCKED \<and> (\<exists>b. bs' = bs @ [b])) \<or> (st \<noteq> BLOCKED \<and> bs' = bs)"
  using assms by (auto simp: artifact_state_def unavailable_def bind_e_Inr_iff split: sum.splits if_splits option.splits)

lemma classify_artifact_cases:
  assumes "classify_artifact resolve key path i fallback (c, bs) = Inr (c', bs')"
  obtains st where "c' = put_status st i c" and "(st = BLOCKED \<and> (\<exists>b. bs' = bs @ [b])) \<or> (st \<noteq> BLOCKED \<and> bs' = bs)"
proof -
  obtain st bs1 st' where s: "artifact_state resolve key path bs = Inr (st, bs1)" "c' = put_status st' i c"
    and f: "(case (if st = MISSING then fallback else None) of
                    None \<Rightarrow> Inr (st, bs1)
                  | Some (Inr True) \<Rightarrow> Inr (CURRENT, bs1)
                  | Some (Inr False) \<Rightarrow> Inr (st, bs1)
                  | Some (Inl e) \<Rightarrow> unavailable path e bs1) = Inr (st', bs')"
    using assms by (auto simp: classify_artifact_def bind_e_Inr_iff split: prod.splits)
  from artifact_state_blockers [OF s(1)] f
  have "(st' = BLOCKED \<and> (\<exists>b. bs' = bs @ [b])) \<or> (st' \<noteq> BLOCKED \<and> bs' = bs)"
    by (auto simp: unavailable_def bind_e_Inr_iff split: if_splits option.splits sum.splits bool.splits)
  with s(2) that show ?thesis by blast
qed

text \<open>The identifiers a collection names, and the accounting of a loop that fills one.\<close>

definition named :: "collection \<Rightarrow> string multiset" where
  "named c = mset (co_current c) + mset (co_missing c) + mset (co_stale c)"

lemma named_put: "named (put_status st i c) = (if st = BLOCKED then named c else add_mset i (named c))"
  by (cases st) (simp_all add: named_def put_status_def)

lemma state_put: "co_state (put_status st i c) = (if st = BLOCKED then Some ''blocked'' else co_state c)"
  by (cases st) (simp_all add: put_status_def)

lemma named_append [simp]:
  "named (c\<lparr>co_stale := co_stale c @ [i]\<rparr>) = add_mset i (named c)"
  "named (c\<lparr>co_missing := co_missing c @ [i]\<rparr>) = add_mset i (named c)"
  by (simp_all add: named_def)

definition accounts :: "string list \<Rightarrow> collection \<times> workflow_blocker list \<Rightarrow> collection \<times> workflow_blocker list \<Rightarrow> bool" where
  "accounts ids s s' \<longleftrightarrow>
     (\<exists>blocked. named (fst s') + mset blocked = named (fst s) + mset ids
       \<and> length (snd s') = length (snd s) + length blocked
       \<and> co_state (fst s') = (if blocked = [] then co_state (fst s) else Some ''blocked''))"

lemma accounts_Nil: "accounts [] s s"
  unfolding accounts_def by (rule exI [of _ "[]"]) simp

lemma accounts_put:
  assumes "accounts ids (put_status st i c, bs1) s'" and "(st = BLOCKED \<and> (\<exists>b. bs1 = bs @ [b])) \<or> (st \<noteq> BLOCKED \<and> bs1 = bs)"
  shows "accounts (i # ids) (c, bs) s'"
proof -
  obtain blocked where b: "named (fst s') + mset blocked = named (put_status st i c) + mset ids"
    "length (snd s') = length bs1 + length blocked"
    "co_state (fst s') = (if blocked = [] then co_state (put_status st i c) else Some ''blocked'')"
    using assms(1) by (auto simp: accounts_def)
  show ?thesis
  proof (cases "st = BLOCKED")
    case True
    then obtain w where w: "bs1 = bs @ [w]" using assms(2) by blast
    have "named (fst s') + mset (i # blocked) = named c + mset (i # ids)" using b(1) True by (simp add: named_put)
    moreover have "length (snd s') = length bs + length (i # blocked)" using b(2) w by simp
    moreover have "co_state (fst s') = Some ''blocked''" using b(3) True by (simp add: state_put)
    ultimately show ?thesis unfolding accounts_def by (intro exI [of _ "i # blocked"]) simp
  next
    case False
    then have w: "bs1 = bs" using assms(2) by blast
    have "named (fst s') + mset blocked = named c + mset (i # ids)" using b(1) False by (simp add: named_put)
    moreover have "length (snd s') = length bs + length blocked" using b(2) w by simp
    moreover have "co_state (fst s') = (if blocked = [] then co_state c else Some ''blocked'')"
      using b(3) False by (simp add: state_put)
    ultimately show ?thesis unfolding accounts_def by (intro exI [of _ blocked]) simp
  qed
qed

lemma accounts_add:
  assumes "accounts ids (c', bs) s'" and "named c' = add_mset i (named c)" and "co_state c' = co_state c"
  shows "accounts (i # ids) (c, bs) s'"
proof -
  obtain blocked where b: "named (fst s') + mset blocked = named c' + mset ids"
    "length (snd s') = length bs + length blocked"
    "co_state (fst s') = (if blocked = [] then co_state c' else Some ''blocked'')"
    using assms(1) by (auto simp: accounts_def)
  from b assms(2,3) show ?thesis unfolding accounts_def by (intro exI [of _ blocked]) simp
qed

definition item_ids :: "string \<Rightarrow> json_object list \<Rightarrow> string list" where
  "item_ids f items = List.map_filter (\<lambda>i. str_value (row_get i f)) items"

lemma item_ids_simps [simp]:
  "item_ids f [] = []"
  "item_ids f (i # is') = (case str_value (row_get i f) of None \<Rightarrow> item_ids f is' | Some r \<Rightarrow> r # item_ids f is')"
  by (simp_all add: item_ids_def List.map_filter_simps split: option.split)

lemma media_items_account:
  "media_items resolve manual kind f field e items s = Inr s' \<Longrightarrow> accounts (item_ids f items) s s'"
proof (induction items arbitrary: s)
  case Nil
  then show ?case by (cases s) (simp add: accounts_Nil)
next
  case (Cons item items)
  obtain c bs where s: "s = (c, bs)" by (cases s)
  show ?case
  proof (cases "str_value (row_get item f)")
    case None
    with Cons s show ?thesis by simp
  next
    case (Some rid)
    show ?thesis
    proof (cases "kind = ''video_units'' \<and> row_get item ''needs_replan'' = PBool True")
      case True
      with Cons.prems Some s have "media_items resolve manual kind f field e items (c\<lparr>co_stale := co_stale c @ [rid]\<rparr>, bs) = Inr s'"
        by simp
      from accounts_add [OF Cons.IH [OF this]] Some s show ?thesis by simp
    next
      case fresh: False
      show ?thesis
      proof (cases "(resolve, str_value (row_get (get_generated_assets item) (field_name field)))")
        case (Pair r p)
        show ?thesis
        proof (cases "r = None \<or> p = None")
          case True
          with Cons.prems Some s fresh Pair
          have "media_items resolve manual kind f field e items (c\<lparr>co_missing := co_missing c @ [rid]\<rparr>, bs) = Inr s'"
            by (auto split: option.splits)
          from accounts_add [OF Cons.IH [OF this]] Some s show ?thesis by simp
        next
          case False
          with Cons.prems Some s fresh Pair obtain r' p' key s1 where
            "classify_artifact r' key p' rid (if field = VIDEO_CLIP then map_option (\<lambda>m. m rid p') manual else None) (c, bs) = Inr s1"
            "media_items resolve manual kind f field e items s1 = Inr s'"
            by (auto simp: bind_e_Inr_iff)
          moreover obtain c1 bs1 where "s1 = (c1, bs1)" by (cases s1)
          ultimately show ?thesis
            using Some s Cons.IH by (auto elim!: classify_artifact_cases intro: accounts_put)
        qed
      qed
    qed
  qed
qed

text \<open>
  A collection of media names every item of the script exactly once, as current, missing or
  stale; an item it does not name is one the manifest could not answer for, and then the
  collection is blocked and a blocker was added for that item.
\<close>

theorem media_collection_accounts:
  assumes "media_collection resolve manual items (Some kind) field e bs = Inr (c, bs')"
    and "id_field_of kind = Inr f"
  shows "\<exists>blocked. mset (co_current c @ co_missing c @ co_stale c @ blocked) = mset (item_ids f items)
    \<and> length bs' = length bs + length blocked
    \<and> co_state c = (if blocked = [] then None else Some ''blocked'')"
proof -
  have "accounts (item_ids f items) (empty_collection, bs) (c, bs')"
    using assms by (intro media_items_account) (simp add: media_collection_def)
  then obtain blocked where b: "named c + mset blocked = mset (item_ids f items)" "length bs' = length bs + length blocked"
    "co_state c = (if blocked = [] then None else Some ''blocked'')"
    by (auto simp: accounts_def named_def empty_collection_def)
  show ?thesis by (rule exI [of _ blocked]) (use b in \<open>simp add: named_def ac_simps\<close>)
qed

subsection \<open>The action fits the state\<close>

fun fits :: "workflow_state \<Rightarrow> action_type set" where
  "fits S_PROJECT_INPUT = {A_NONE, A_COLLECT_PROJECT_INPUT, A_RETRY_PROJECT_MIGRATION}"
| "fits S_SELLING_POINTS = {A_DRAFT_SELLING_POINTS}"
| "fits S_ASSET_INVENTORY = {A_ANALYZE_ASSETS}"
| "fits S_EPISODE_PLAN = {A_NONE, A_PLAN_EPISODES, A_RESET_EPISODE_PLANNING}"
| "fits S_STEP1_CONTENT = {A_NONE, A_PREPARE_STEP1}"
| "fits S_STEP1_REVIEW = {A_NONE, A_CONFIRM_STEP1}"
| "fits S_FINAL_SCRIPT = {A_NONE, A_GENERATE_SCRIPT}"
| "fits S_ASSET_SHEETS = {A_GENERATE_ASSET_SHEETS}"
| "fits S_STORYBOARD = {A_GENERATE_STORYBOARDS, A_GENERATE_GRID}"
| "fits S_VIDEO = {A_NONE, A_REPAIR_VIDEO_UNITS, A_GENERATE_VIDEOS}"
| "fits S_EXPORT_READY = {A_EXPORT}"

text \<open>The states of each kind of project.\<close>

definition state_of_mode :: "json_object \<Rightarrow> workflow_state \<Rightarrow> bool" where
  "state_of_mode project st \<longleftrightarrow>
     (if is_ad project
      then st \<notin> {S_ASSET_INVENTORY, S_EPISODE_PLAN, S_STEP1_CONTENT, S_STEP1_REVIEW}
      else st \<noteq> S_SELLING_POINTS)
     \<and> (st = S_STORYBOARD \<longrightarrow> on_storyboard project)"

definition sound :: "json_object \<Rightarrow> verdict \<Rightarrow> status_draft \<Rightarrow> bool" where
  "sound project v d \<longleftrightarrow>
     na_type (snd v) \<in> fits (fst v) \<and> (dr_blockers d \<noteq> [] \<longleftrightarrow> na_type (snd v) = A_NONE)
     \<and> (na_requires_confirmation (snd v) \<longleftrightarrow> na_type (snd v) = A_CONFIRM_STEP1)
     \<and> state_of_mode project (fst v) \<and> fst v \<noteq> S_EXPORT_READY
     \<and> na_type (snd v) \<noteq> A_RETRY_PROJECT_MIGRATION"

lemmas action_simps [simp] = action_def blocked_action_def reset_action_def planning_action_def confirm_action_def export_action_def

lemma set_step1_blockers [simp]: "dr_blockers (set_step1 v d) = dr_blockers d"
  by (simp add: set_step1_def)

lemma add_blocker_blockers [simp]: "dr_blockers (add_blocker b d) = dr_blockers d @ [b]"
  by (simp add: add_blocker_def)

lemma project_stage_sound:
  assumes "project_stage sha project sh episode selected d = (v, d')"
  shows "(case v of Some w \<Rightarrow> sound project w d' | None \<Rightarrow> dr_blockers d' = [] \<and> d' = d
     \<and> (\<not> is_ad project \<longrightarrow> selected \<noteq> None \<and> \<not> blank_source (sh_planning_sources sh) \<and> in_state (sh_inventory sh) = ''current''))"
  using assms unfolding project_stage_def Let_def
  by (auto simp: sound_def state_of_mode_def split: if_splits option.splits)

lemma stale_stage_sound:
  assumes "stale_stage env project target entry pre d = Inr (v, d')" and "dr_blockers d = []"
  shows "(case v of Some w \<Rightarrow> sound project w d' \<and> na_type (snd w) \<noteq> A_PLAN_EPISODES | None \<Rightarrow> d' = d)"
  using assms by (auto simp: stale_stage_def Let_def bind_e_Inr_iff sound_def state_of_mode_def split: if_splits)

lemma step1_stage_sound:
  assumes "step1_stage env project target entry pre currency d = Inr (v, d')" and "dr_blockers d = []" and "\<not> is_ad project"
  shows "(case v of Some w \<Rightarrow> sound project w d' \<and> na_type (snd w) \<noteq> A_PLAN_EPISODES | None \<Rightarrow> dr_blockers d' = [])"
proof -
  let ?n = "wt_episode target"
  obtain p where p: "step1_path project ?n = Inr p"
    using assms(1) by (auto simp: step1_stage_def bind_e_Inr_iff)
  let ?rev = "live_fingerprint env p"
  obtain st bs where s: "(case (currency, p) of
                     (Some r, Some path) \<Rightarrow>
                       bind_e (episode_step1 ?n) (\<lambda>k. artifact_state r k path (dr_blockers d))
                   | _ \<Rightarrow> Inr (if ?rev \<noteq> None then CURRENT else MISSING, dr_blockers d)) = Inr (st, bs)"
    using assms(1) p by (auto simp: step1_stage_def Let_def bind_e_Inr_iff)
  have bs: "(st = BLOCKED \<and> bs \<noteq> []) \<or> (st \<noteq> BLOCKED \<and> bs = [])"
    using s assms(2) by (auto simp: bind_e_Inr_iff split: option.splits if_splits dest: artifact_state_blockers)
  show ?thesis
    using assms(1,3) p s bs unfolding step1_stage_def Let_def
    by (auto simp: bind_e_Inr_iff sound_def state_of_mode_def split: if_splits)
qed


text \<open>A script that blocks nothing is missing, current or stale.\<close>

lemma script_blocked_blockers: "script_blocked path k script b bs = Inr (facts, bs') \<Longrightarrow> bs' \<noteq> []"
  by (auto simp: script_blocked_def)

lemma checked_script_view:
  assumes "checked_script env project target st script bs = Inr (facts, bs')" and "bs' = []"
  shows "sc_state (sf_view facts) = st"
proof -
  note no_block = script_blocked_blockers [where bs' = "[]"]
  show ?thesis
    using assms unfolding checked_script_def Let_def
    by (auto simp: bind_e_Inr_iff split: if_splits sum.splits option.splits list.splits py_error.splits dest: no_block)
qed

lemma load_script_view:
  assumes "load_script_artifacts env project target resolve [] = Inr (facts, [])"
  shows "sc_state (sf_view facts) \<in> {''missing'', ''current'', ''stale''}"
proof -
  note no_block = script_blocked_blockers [where bs' = "[]"]
  obtain st bs1 where st: "(case resolve of
                   None \<Rightarrow> Inr (CURRENT, [])
                 | Some r \<Rightarrow> bind_e (episode_script (wt_episode target)) (\<lambda>k. artifact_state r k (wt_script target) [])) = Inr (st, bs1)"
    using assms by (auto simp: load_script_artifacts_def Let_def bind_e_Inr_iff)
  have b: "st = BLOCKED \<Longrightarrow> bs1 \<noteq> []"
    using st by (auto simp: bind_e_Inr_iff split: option.splits dest: artifact_state_blockers)
  show ?thesis
  proof (cases "st \<in> {CURRENT, STALE}")
    case True
    with assms st show ?thesis unfolding load_script_artifacts_def Let_def
      by (auto simp: script_absent_def split: script_load.splits pyval.splits dest: no_block checked_script_view)
  next
    case False
    with assms st b show ?thesis unfolding load_script_artifacts_def Let_def
      by (cases st) (auto simp: script_absent_def)
  qed
qed

lemma script_stage_sound:
  assumes "script_stage env project target currency sheets d = Inr (v, d', facts)" and "dr_blockers d = []"
  shows "(case v of Some w \<Rightarrow> sound project w d' \<and> na_type (snd w) \<noteq> A_PLAN_EPISODES
     | None \<Rightarrow> dr_blockers d' = [] \<and> missing_sheets sheets = []
         \<and> sc_state (av_script (dr_artifacts d')) \<in> {''current'', ''stale''}
         \<and> av_sheets (dr_artifacts d') = av_sheets (dr_artifacts d)
         \<and> av_inventory (dr_artifacts d') = av_inventory (dr_artifacts d) \<and> dr_gate d' = dr_gate d)"
proof -
  obtain fs bs stale where l: "load_script_artifacts env project target currency [] = Inr (fs, bs)"
    and e: "(let view = (if stale then (sf_view fs)\<lparr>sc_state := ''stale''\<rparr> else sf_view fs);
              d1 = d\<lparr>dr_blockers := bs, dr_artifacts := (dr_artifacts d)\<lparr>av_script := view\<rparr>\<rparr>;
              n = wt_episode target
          in if bs \<noteq> [] then Inr (Some (S_FINAL_SCRIPT, blocked_action ''script is blocked''), d1, fs)
             else if sc_state view = ''missing'' \<or> (currency = None \<and> sc_state view = ''stale'')
             then Inr (Some (S_FINAL_SCRIPT,
                    action A_GENERATE_SCRIPT ''target episode has no current final script'' [(''episode'', PInt n)] []), d1, fs)
             else if missing_sheets sheets \<noteq> []
             then Inr (Some (S_ASSET_SHEETS,
                    action A_GENERATE_ASSET_SHEETS ''asset definitions need sheets'' [] (missing_sheets sheets)), d1, fs)
             else Inr (None, d1, fs)) = (Inr (v, d', facts) :: py_error + _)"
    using assms by (auto simp: script_stage_def bind_e_Inr_iff)
  show ?thesis
  proof (cases "bs = []")
    case True
    note view = load_script_view [OF l [unfolded True]]
    show ?thesis using e True view unfolding Let_def
      by (auto simp: sound_def state_of_mode_def split: if_splits)
  next
    case False
    with e show ?thesis unfolding Let_def by (auto simp: sound_def state_of_mode_def)
  qed
qed

lemma media_stage_sound:
  assumes "media_stage env project target currency facts d = Inr (v, d')"
  shows "(case v of Some w \<Rightarrow> sound project w d' \<and> na_type (snd w) \<noteq> A_PLAN_EPISODES
     | None \<Rightarrow> dr_blockers d' = [] \<and> co_missing (av_videos (dr_artifacts d')) = []
         \<and> (on_storyboard project \<longrightarrow> co_missing (av_storyboards (dr_artifacts d')) = [])
         \<and> av_script (dr_artifacts d') = av_script (dr_artifacts d)
         \<and> av_sheets (dr_artifacts d') = av_sheets (dr_artifacts d)
         \<and> av_inventory (dr_artifacts d') = av_inventory (dr_artifacts d) \<and> dr_gate d' = dr_gate d)"
  using assms unfolding media_stage_def Let_def bind_e_Inr_iff
  by (auto simp: sound_def state_of_mode_def bind_e_Inr_iff split: if_splits)


lemma step1_stage_confirmed:
  assumes "step1_stage env project target entry pre currency d = Inr (None, d')"
  shows "(\<exists>r. dr_gate d' = Some \<lparr>ga_state = ''confirmed'', ga_revision = r\<rparr>)
     \<and> av_sheets (dr_artifacts d') = av_sheets (dr_artifacts d) \<and> av_inventory (dr_artifacts d') = av_inventory (dr_artifacts d)"
  using assms unfolding step1_stage_def Let_def bind_e_Inr_iff
  by (auto simp: set_step1_def bind_e_Inr_iff split: if_splits)

subsection \<open>A finished episode\<close>

definition finished :: "json_object \<Rightarrow> workflow_blocker list \<Rightarrow> gate option \<Rightarrow> artifacts_view \<Rightarrow> bool" where
  "finished project bs g av \<longleftrightarrow>
     bs = [] \<and> missing_sheets (av_sheets av) = [] \<and> sc_state (av_script av) \<in> {''current'', ''stale''}
     \<and> co_missing (av_videos av) = [] \<and> (on_storyboard project \<longrightarrow> co_missing (av_storyboards av) = [])
     \<and> (\<not> is_ad project \<longrightarrow> map_option ga_state g = Some ''confirmed'')"

abbreviation finished_draft :: "json_object \<Rightarrow> status_draft \<Rightarrow> bool" where
  "finished_draft project d \<equiv> finished project (dr_blockers d) (dr_gate d) (dr_artifacts d)"

lemma script_and_media_sound:
  assumes "bind_e (script_stage env project target currency sheets d) (\<lambda>(v2, d2, facts).
              case v2 of Some v \<Rightarrow> Inr (Some v, d2) | None \<Rightarrow> media_stage env project target currency facts d2) = Inr (v, d')"
    and "dr_blockers d = []" and "av_sheets (dr_artifacts d) = sheets"
    and "\<not> is_ad project \<longrightarrow> map_option ga_state (dr_gate d) = Some ''confirmed''"
  shows "(case v of Some w \<Rightarrow> sound project w d' \<and> na_type (snd w) \<noteq> A_PLAN_EPISODES
     | None \<Rightarrow> finished_draft project d' \<and> av_inventory (dr_artifacts d') = av_inventory (dr_artifacts d))"
proof -
  obtain v2 d2 facts where s: "script_stage env project target currency sheets d = Inr (v2, d2, facts)"
    and e: "(case v2 of Some v \<Rightarrow> Inr (Some v, d2) | None \<Rightarrow> media_stage env project target currency facts d2) = Inr (v, d')"
    using assms(1) by (auto simp: bind_e_Inr_iff)
  note s1 = script_stage_sound [OF s assms(2)]
  show ?thesis
  proof (cases v2)
    case (Some w)
    with e s1 show ?thesis by auto
  next
    case None
    with e have m: "media_stage env project target currency facts d2 = Inr (v, d')" by simp
    note m1 = media_stage_sound [OF m]
    from None s1 assms(3,4) m1 show ?thesis by (cases v) (simp_all add: finished_def)
  qed
qed

lemma episode_stages_sound:
  assumes "episode_stages env project sh target entry pre d = Inr (v, d')" and "dr_blockers d = []"
    and "av_sheets (dr_artifacts d) = sh_sheets sh"
  shows "(case v of Some w \<Rightarrow> sound project w d' \<and> na_type (snd w) \<noteq> A_PLAN_EPISODES
     | None \<Rightarrow> finished_draft project d' \<and> av_inventory (dr_artifacts d') = av_inventory (dr_artifacts d))"
proof -
  obtain v0 d0 where s: "stale_stage env project target entry pre d = Inr (v0, d0)"
    using assms(1) by (auto simp: episode_stages_def bind_e_Inr_iff)
  note s0 = stale_stage_sound [OF s assms(2)]
  show ?thesis
  proof (cases v0)
    case (Some w)
    with assms(1) s s0 show ?thesis by (auto simp: episode_stages_def)
  next
    case None
    with s0 have d0: "d0 = d" by simp
    let ?rest = "\<lambda>d1. bind_e (script_stage env project target (sh_currency sh) (sh_sheets sh) d1) (\<lambda>(v2, d2, facts).
                      case v2 of Some v \<Rightarrow> Inr (Some v, d2) | None \<Rightarrow> media_stage env project target (sh_currency sh) facts d2)"
    show ?thesis
    proof (cases "is_ad project")
      case True
      show ?thesis
      proof (cases "pending_selling_points project = []")
        case empty: True
        with assms(1) s None d0 True have "?rest d = Inr (v, d')" by (simp add: episode_stages_def)
        from script_and_media_sound [OF this assms(2,3)] True show ?thesis by simp
      next
        case False
        with assms(1,2) s None d0 True show ?thesis
          by (auto simp: episode_stages_def sound_def state_of_mode_def)
      qed
    next
      case False
      with assms(1) s None d0 obtain v1 d1 where
        s1: "step1_stage env project target entry pre (sh_currency sh) d = Inr (v1, d1)"
        and e: "(case v1 of Some v \<Rightarrow> Inr (Some v, d1) | None \<Rightarrow> ?rest d1) = Inr (v, d')"
        by (auto simp: episode_stages_def bind_e_Inr_iff)
      note sound1 = step1_stage_sound [OF s1 assms(2) False]
      show ?thesis
      proof (cases v1)
        case (Some w)
        with e sound1 show ?thesis by auto
      next
        case none1: None
        note c = step1_stage_confirmed [OF s1 [unfolded none1]]
        from e none1 have r: "?rest d1 = Inr (v, d')" by simp
        have b1: "dr_blockers d1 = []" using sound1 none1 by simp
        have sh1: "av_sheets (dr_artifacts d1) = sh_sheets sh" using c assms(3) by simp
        have g1: "\<not> is_ad project \<longrightarrow> map_option ga_state (dr_gate d1) = Some ''confirmed''" using c by auto
        from script_and_media_sound [OF r b1 sh1 g1] c show ?thesis by (cases v) auto
      qed
    qed
  qed
qed


text \<open>Planning is proposed by the conditions of the project only.\<close>

lemma project_stage_plan:
  assumes "project_stage sha project sh episode selected d = (Some w, d')" and "na_type (snd w) = A_PLAN_EPISODES"
  shows "selected = None"
  using assms unfolding project_stage_def Let_def by (auto split: if_splits option.splits)

subsection \<open>The status\<close>

lemma response_simps [simp]:
  "ws_state (response env project source t v d) = fst v" "ws_next_action (response env project source t v d) = snd v"
  "ws_blockers (response env project source t v d) = dr_blockers d" "ws_artifacts (response env project source t v d) = dr_artifacts d"
  "ws_review_gate (response env project source t v d) = dr_gate d" "ws_target (response env project source t v d) = t"
  by (simp_all add: response_def)

lemma planning_action_type:
  "na_type (planning_action project r) \<in> {A_PLAN_EPISODES, A_RESET_EPISODE_PLANNING}"
  "\<not> na_requires_confirmation (planning_action project r)"
  by (simp_all)

text \<open>The binding of the target keeps the facts and either binds the selected episode or blocks.\<close>

lemma bind_target_facts:
  assumes "bind_target selected d = (t, d')"
  shows "dr_artifacts d' = dr_artifacts d"
    and "case t of Some w \<Rightarrow> \<exists>e. selected = Some (wt_episode w, e) | None \<Rightarrow> selected = None \<or> dr_blockers d' \<noteq> []"
  using assms by (auto simp: bind_target_def Let_def add_blocker_def split: option.splits prod.splits if_splits)

lemma planning_action_sound:
  "dr_blockers d = [] \<Longrightarrow> \<not> is_ad project \<Longrightarrow> sound project (S_EPISODE_PLAN, planning_action project r) d"
  using planning_action_type [of project r] by (auto simp: sound_def state_of_mode_def)

lemma status_with_cases:
  assumes "status_with later env project sh episode = Inr s"
  obtains (answer) t v d where "s = response env project (sh_source sh) t v d" "sound project v d"
      "na_type (snd v) = A_PLAN_EPISODES \<longrightarrow> target_episode (is_ad project) (sh_episodes sh) episode = None
         \<or> \<not> sh_planning_complete sh"
  | (export) n e t d where "target_episode (is_ad project) (sh_episodes sh) episode = Some (n, e)" "wt_episode t = n"
      "s = response env project (sh_source sh) (Some t) (S_EXPORT_READY, export_action) d" "finished_draft project d"
      "av_inventory (dr_artifacts d) = Some (sh_inventory sh)"
      "\<not> is_ad project \<longrightarrow> sh_planning_complete sh \<and> in_state (sh_inventory sh) = ''current''"
      "episode = None \<and> \<not> is_ad project \<longrightarrow> later n = Inr None"
  | (other) n where "later n = Inr (Some s)" "episode = None" "\<not> is_ad project"
proof -
  let ?sel = "target_episode (is_ad project) (sh_episodes sh) episode"
  obtain t d0 where b: "bind_target ?sel (initial_draft project sh) = (t, d0)" by fastforce
  obtain v d1 where p: "project_stage (we_sha env) project sh episode ?sel d0 = (v, d1)" by fastforce
  note bf = bind_target_facts [OF b]
  note ps = project_stage_sound [OF p]
  note eq = assms [unfolded status_with_def Let_def, simplified b p prod.case]
  show thesis
  proof (cases v)
    case (Some w)
    with eq have "s = response env project (sh_source sh) t w d1" by (simp split: if_splits)
    with ps Some project_stage_plan [OF p [unfolded Some]] show thesis by (intro answer) auto
  next
    case None
    with ps have d1: "d1 = d0" "dr_blockers d0 = []" by auto
    show thesis
    proof (cases t)
      case none_t: None
      with bf(2) d1 have "?sel = None" by simp
      moreover have "?sel \<noteq> None"
        using ps None by (cases "is_ad project") (simp_all add: target_episode_def)
      ultimately show thesis by simp
    next
      case (Some w)
      with bf(2) obtain e where sel: "?sel = Some (wt_episode w, e)" by auto
      from eq None Some sel d1 obtain rule v2 d2 where
        r: "workflow_rule_for (id_text (row_get project ''content_mode'')) (id_text (row_get project ''generation_mode'')) = Inr rule"
        and es: "episode_stages env project sh w e (wr_preprocessor rule) d0 = Inr (v2, d2)"
        and rest: "(case v2 of Some v \<Rightarrow> Inr (response env project (sh_source sh) t v d2)
             | None \<Rightarrow>
                 bind_e (if episode = None \<and> \<not> is_ad project then later (wt_episode w) else Inr None) (\<lambda>other.
                   case other of
                     Some s \<Rightarrow> Inr s
                   | None \<Rightarrow>
                       Inr (response env project (sh_source sh) t
                         (if \<not> is_ad project \<and> \<not> sh_planning_complete sh
                          then (S_EPISODE_PLAN, planning_action project ''source text remains unplanned'')
                          else (S_EXPORT_READY, export_action)) d2))) = Inr s"
        by (auto simp: bind_e_Inr_iff split: if_splits)
      have sheets: "av_sheets (dr_artifacts d0) = sh_sheets sh" "av_inventory (dr_artifacts d0) = Some (sh_inventory sh)"
        using bf(1) by (simp_all add: initial_draft_def initial_artifacts_def)
      note es' = episode_stages_sound [OF es d1(2) sheets(1)]
      show thesis
      proof (cases v2)
        case (Some u)
        with rest have "s = response env project (sh_source sh) t u d2" by simp
        with es' Some show thesis by (intro answer) auto
      next
        case none2: None
        with es' have fin: "finished_draft project d2" "av_inventory (dr_artifacts d2) = Some (sh_inventory sh)"
          using sheets by auto
        then have b2: "dr_blockers d2 = []" by (simp add: finished_def)
        from rest none2 obtain o' where o': "(if episode = None \<and> \<not> is_ad project then later (wt_episode w) else Inr None) = Inr o'"
          and fin2: "(case o' of Some s \<Rightarrow> Inr s | None \<Rightarrow>
                       Inr (response env project (sh_source sh) t
                         (if \<not> is_ad project \<and> \<not> sh_planning_complete sh
                          then (S_EPISODE_PLAN, planning_action project ''source text remains unplanned'')
                          else (S_EXPORT_READY, export_action)) d2)) = (Inr s :: py_error + workflow_status)"
          by (auto simp: bind_e_Inr_iff)
        show thesis
        proof (cases o')
          case (Some s')
          with o' fin2 show thesis by (intro other [of "wt_episode w"]) (auto split: if_splits)
        next
          case none3: None
          show thesis
          proof (cases "\<not> is_ad project \<and> \<not> sh_planning_complete sh")
            case True
            with fin2 none3 have s: "s = response env project (sh_source sh) t (S_EPISODE_PLAN, planning_action project ''source text remains unplanned'') d2"
              by simp
            show thesis
              by (rule answer [OF s planning_action_sound [OF b2 conjunct1 [OF True]]]) (simp add: True)
          next
            case False
            with fin2 none3 \<open>t = Some w\<close> have s: "s = response env project (sh_source sh) (Some w) (S_EXPORT_READY, export_action) d2"
              by (simp only: option.case if_False sum.inject)
            show thesis
              using sel s fin False ps None o' none3
              by (intro export [of "wt_episode w" e w d2]) (auto split: if_splits)
          qed
        qed
      qed
    qed
  qed
qed


lemma first_needing_work_None:
  "first_needing_work ask n es = Inr None \<Longrightarrow> (m, e) \<in> set es \<Longrightarrow> m \<noteq> n \<Longrightarrow> \<exists>s. ask m = Inr s \<and> \<not> needs_work s"
  by (induction ask n es rule: first_needing_work.induct) (auto simp: bind_e_Inr_iff split: if_splits)

lemma first_needing_work_Some:
  "first_needing_work ask n es = Inr (Some s) \<Longrightarrow> needs_work s \<and> (\<exists>m e. (m, e) \<in> set es \<and> m \<noteq> n \<and> ask m = Inr s)"
  by (induction ask n es rule: first_needing_work.induct) (auto simp: bind_e_Inr_iff split: if_splits)

definition fitting :: "json_object \<Rightarrow> workflow_status \<Rightarrow> bool" where
  "fitting project s \<longleftrightarrow>
     na_type (ws_next_action s) \<in> fits (ws_state s)
     \<and> (ws_blockers s \<noteq> [] \<longleftrightarrow> na_type (ws_next_action s) \<in> {A_NONE, A_RETRY_PROJECT_MIGRATION})
     \<and> (na_requires_confirmation (ws_next_action s) \<longleftrightarrow> na_type (ws_next_action s) = A_CONFIRM_STEP1)
     \<and> state_of_mode project (ws_state s)"

lemma fitting_response: "sound project v d \<Longrightarrow> fitting project (response env project source t v d)"
  by (cases v; cases "fst v") (auto simp: sound_def fitting_def)

lemma fitting_export: "dr_blockers d = [] \<Longrightarrow> fitting project (response env project source t (S_EXPORT_READY, export_action) d)"
  by (simp add: fitting_def state_of_mode_def)

lemma status_with_fits:
  assumes "status_with later env project sh episode = Inr s" and "\<And>n s'. later n = Inr (Some s') \<Longrightarrow> fitting project s'"
  shows "fitting project s"
  using assms(1)
proof (cases rule: status_with_cases)
  case answer
  then show ?thesis by (simp add: fitting_response)
next
  case export
  show ?thesis unfolding export(3) by (rule fitting_export) (use export(4) in \<open>simp add: finished_def\<close>)
next
  case other
  then show ?thesis using assms(2) by blast
qed




subsection \<open>Witnesses\<close>

text \<open>Two drama episodes on the storyboard route with everything in place.\<close>

definition demo_item :: "int \<Rightarrow> pyval" where
  "demo_item n =
     PDict [(''scene_id'', PStr (''E'' @ int_str n @ ''S1'')), (''duration_seconds'', PInt 4),
       (''generated_assets'', PDict [(''storyboard_image'', PStr ''a.png''), (''video_clip'', PStr ''a.mp4'')])]"

definition demo_script :: "int \<Rightarrow> pyval" where
  "demo_script n = PDict [(''episode'', PInt n), (''content_mode'', PStr ''drama''), (''scenes'', PList [demo_item n])]"

definition demo_entry :: "int \<Rightarrow> pyval" where
  "demo_entry n =
     PDict [(''episode'', PInt n), (''script_file'', PStr (''scripts/episode_'' @ int_str n @ ''.json'')),
       (''step1_review'', PDict [(''fingerprint'', PStr ''{}'')])]"

definition ready_project :: json_object where
  "ready_project =
     [(''content_mode'', PStr ''drama''), (''generation_mode'', PStr ''storyboard''),
      (''source_fingerprints'', PDict [(''source/a.txt'', PStr ''x'')]),
      (''planning_cursor'', PDict [(''source_file'', PStr ''source/a.txt''), (''offset'', PInt 1)]),
      (''workflow'', PDict [(''asset_inventory'', PDict [(''scope'', PDict [(''kind'', PStr ''all'')]), (''source_revision'', PStr ''r'')])]),
      (''episodes'', PList [demo_entry 1, demo_entry 2])]"

definition ready_env :: workflow_env where
  "ready_env =
     \<lparr>we_fs = \<lparr>fs_read = (\<lambda>_. Some ''{}''), fs_exists = (\<lambda>_. False)\<rparr>, we_sha = id,
      we_currency = Inr (\<lambda>_ p. Inr \<lparr>cmp_status = CURRENT, cmp_artifact_path = p, cmp_blocker = None\<rparr>),
      we_source = \<lparr>sv_revision = Some ''r'', sv_files = [''source/a.txt''], sv_blockers = [], sv_documents = [(''a.txt'', ''x'')]\<rparr>,
      we_asset_errors = (\<lambda>_. []), we_episode_errors = (\<lambda>_ _. []),
      we_load_script = (\<lambda>f. ScriptLoaded (demo_script (if f = ''scripts/episode_1.json'' then 1 else 2))),
      we_manual_video = (\<lambda>_ _ _. Inr False), we_migration = None\<rparr>"

lemma ready_state: "map_sum id ws_state (get_status ready_env ready_project None) = Inr S_EXPORT_READY"
  by code_simp


lemma ready_status: "\<exists>s. get_status ready_env ready_project None = Inr s \<and> ws_state s = S_EXPORT_READY"
  using ready_state by (cases "get_status ready_env ready_project None") auto



definition blocked_resolver :: resolver where
  "blocked_resolver = (\<lambda>_ p. Inr \<lparr>cmp_status = BLOCKED, cmp_artifact_path = p, cmp_blocker = Some \<lparr>ab_code = ''x'', ab_path = p, ab_detail = ''y''\<rparr>\<rparr>)"

lemma media_collection_accounts_witness:
  "\<exists>c bs' b. media_collection (Some blocked_resolver) None (map (\<lambda>n. object_of (demo_item n)) [1, 2]) (Some ''scenes'') VIDEO_CLIP 1 [] = Inr (c, bs')
     \<and> mset (co_current c @ co_missing c @ co_stale c @ b) = {#''E1S1'', ''E2S1''#} \<and> length bs' = length b"
proof -
  let ?m = "media_collection (Some blocked_resolver) None (map (\<lambda>n. object_of (demo_item n)) [1, 2]) (Some ''scenes'') VIDEO_CLIP 1 []"
  have "map_sum id (\<lambda>_. ()) ?m = Inr ()" by code_simp
  then obtain c bs' where m: "?m = Inr (c, bs')" by (cases ?m) auto
  have "id_field_of ''scenes'' = Inr ''scene_id''" by code_simp
  from media_collection_accounts [OF m this]
  have "\<exists>b. mset (co_current c @ co_missing c @ co_stale c @ b)
      = mset (item_ids ''scene_id'' (map (\<lambda>n. object_of (demo_item n)) [1, 2])) \<and> length bs' = length b"
    by (simp del: item_ids_simps) blast
  moreover have "item_ids ''scene_id'' (map (\<lambda>n. object_of (demo_item n)) [1, 2]) = [''E1S1'', ''E2S1'']" by code_simp
  ultimately show ?thesis using m by (metis mset.simps)
qed

end
