(* ===== verification/Aspect_Size.thy ===== *)
theory Aspect_Size
  imports Json_Text
begin

text \<open>
  Output sizes (lib/aspect_size.py): the ratio of the project always wins and a resolution only
  sets the scale. Rounding is Python's \<open>round\<close> of a quotient, to even on a tie; the code divides
  as floats, which gives the same integer as long as the numbers stay below \<open>2 ^ 52\<close>. Warnings
  and the ratio limit that only warns are left out, as is the full-width colon.
\<close>

subsection \<open>Integers of Python\<close>

text \<open>\<open>int(s)\<close>: white space around, a sign, digits with single underscores between them.\<close>

definition py_int :: "string \<Rightarrow> int option" where
  "py_int s =
     (let t = str_strip s;
          sign = (case t of c # _ \<Rightarrow> if c = CHR ''-'' then - 1 else 1 | [] \<Rightarrow> 1);
          u = (case t of c # r \<Rightarrow> if c = CHR ''-'' \<or> c = CHR ''+'' then r else t | [] \<Rightarrow> []);
          parts = split_on (CHR ''_'') u
      in if list_all (\<lambda>p. p \<noteq> [] \<and> list_all is_digit p) parts
         then Some (sign * int (str_nat (concat parts))) else None)"

text \<open>\<open>round(a / b)\<close>.\<close>

definition half_even :: "int \<Rightarrow> int \<Rightarrow> int" where
  "half_even a b =
     (let q = a div b; r = a mod b
      in if 2 * r < b then q else if b < 2 * r then q + 1 else if even q then q else q + 1)"

definition round_div :: "int \<Rightarrow> int \<Rightarrow> int" where
  "round_div a b = (if b < 0 then half_even (- a) (- b) else half_even a b)"

text \<open>\<open>math.isqrt\<close>.\<close>

fun isqrt :: "nat \<Rightarrow> nat" where
  "isqrt n =
     (if n = 0 then 0
      else (let r = 2 * isqrt (n div 4) in if (r + 1) * (r + 1) \<le> n then r + 1 else r))"

declare isqrt.simps [simp del]

subsection \<open>The ratio\<close>

definition DEFAULT_ASPECT :: "int \<times> int" where
  "DEFAULT_ASPECT = (9, 16)"

definition parse_aspect_ratio :: "string \<Rightarrow> int \<times> int" where
  "parse_aspect_ratio s =
     (case split_on (CHR '':'') (str_strip s) of
        [a, b] \<Rightarrow>
          (case (py_int a, py_int b) of
             (Some aw, Some ah) \<Rightarrow>
               if aw \<le> 0 \<or> ah \<le> 0 then DEFAULT_ASPECT else (aw div gcd aw ah, ah div gcd aw ah)
           | _ \<Rightarrow> DEFAULT_ASPECT)
      | _ \<Rightarrow> DEFAULT_ASPECT)"

subsection \<open>The size\<close>

text \<open>The scale \<open>t\<close>: nearest to the short edge, then under the long edge, then under the pixels.\<close>

definition clamp_long :: "int \<Rightarrow> int \<Rightarrow> int option \<Rightarrow> int" where
  "clamp_long t unit limit = (case limit of None \<Rightarrow> t | Some l \<Rightarrow> min t (max 1 (l div unit)))"

definition clamp_pixels :: "int \<Rightarrow> int \<Rightarrow> int option \<Rightarrow> py_error + int" where
  "clamp_pixels t unit limit =
     (case limit of
        None \<Rightarrow> Inr t
      | Some p \<Rightarrow>
          if p div unit < 0 then Inl (ValueError ''isqrt() argument must be nonnegative'')
          else Inr (min t (max 1 (int (isqrt (nat (p div unit)))))))"

definition aspect_size :: "string \<Rightarrow> int \<Rightarrow> int \<Rightarrow> int option \<Rightarrow> int option \<Rightarrow> py_error + int \<times> int" where
  "aspect_size ratio short_edge round_to max_long_edge max_total_pixels =
     (case parse_aspect_ratio ratio of
        (aw, ah) \<Rightarrow>
          if round_to = 0 then Inl (ZeroDivisionError ''division by zero'')
          else
            bind_e (clamp_pixels
                (clamp_long (max 1 (round_div short_edge (round_to * min aw ah))) (round_to * max aw ah) max_long_edge)
                (aw * ah * round_to * round_to) max_total_pixels)
              (\<lambda>t. Inr (aw * round_to * max 1 t, ah * round_to * max 1 t)))"

subsection \<open>The short edge of a resolution\<close>

definition DEFAULT_SHORT_EDGE :: int where
  "DEFAULT_SHORT_EDGE = 720"

definition IMAGE_TIER_SHORT_EDGE :: "(string, int) dict" where
  "IMAGE_TIER_SHORT_EDGE = [(''512px'', 512), (''1K'', 1024), (''2K'', 1440), (''4K'', 2160)]"

definition VIDEO_TIER_SHORT_EDGE :: "(string, int) dict" where
  "VIDEO_TIER_SHORT_EDGE = [(''480p'', 480), (''720p'', 720), (''1080p'', 1080), (''4K'', 2160)]"

text \<open>A width and a height with a separator between them, on a stripped text.\<close>

definition parse_wh :: "string \<Rightarrow> (int \<times> int) option" where
  "parse_wh s =
     (let a = takeWhile is_digit s; r = dropWhile is_py_space (dropWhile is_digit s)
      in case r of
           [] \<Rightarrow> None
         | c # r' \<Rightarrow>
             (let b = dropWhile is_py_space r'
              in if a \<noteq> [] \<and> c \<in> {CHR ''x'', CHR ''X'', CHR ''*''} \<and> b \<noteq> [] \<and> list_all is_digit b
                 then Some (int (str_nat a), int (str_nat b)) else None))"

definition resolution_to_short_edge :: "string option \<Rightarrow> (string, int) dict \<Rightarrow> int \<Rightarrow> int" where
  "resolution_to_short_edge resolution tier_map default_short =
     (case resolution of
        None \<Rightarrow> default_short
      | Some raw \<Rightarrow>
          (let s = str_strip raw;
               norm = foldl (\<lambda>d (k, v). dict_set d (str_lower k) v) [] tier_map
           in if s = [] then default_short
              else
                (case dict_get norm (str_lower s) of
                   Some v \<Rightarrow> v
                 | None \<Rightarrow>
                     (case parse_wh s of
                        Some (w, h) \<Rightarrow> min w h
                      | None \<Rightarrow> if list_all is_digit s then int (str_nat s) else default_short))))"

subsection \<open>Rounding is to the nearest\<close>

lemma half_even_near:
  assumes "0 < b"
  shows "2 * \<bar>a - b * half_even a b\<bar> \<le> b"
proof -
  define q where "q = a div b"
  define r where "r = a mod b"
  have a: "a = b * q + r" by (simp add: q_def r_def)
  have "0 \<le> r" "r < b" using assms by (simp_all add: r_def)
  then show ?thesis
    unfolding half_even_def Let_def q_def [symmetric] r_def [symmetric] by (auto simp: a algebra_simps)
qed

lemma nearer: "2 * \<bar>a - x\<bar> \<le> b \<Longrightarrow> b \<le> \<bar>x - y\<bar> \<Longrightarrow> \<bar>a - x\<bar> \<le> \<bar>a - y\<bar>" for a b x y :: int
  by arith

lemma below_half: "2 * \<bar>s - x\<bar> \<le> u \<Longrightarrow> x \<le> 0 \<Longrightarrow> 2 * s \<le> u" for s x u :: int
  by arith

lemma smallest_nearest: "2 * s \<le> u \<Longrightarrow> u \<le> y \<Longrightarrow> 0 < u \<Longrightarrow> \<bar>s - u\<bar> \<le> \<bar>s - y\<bar>" for s u y :: int
  by arith

lemma half_even_nearest:
  assumes "0 < b"
  shows "\<bar>a - b * half_even a b\<bar> \<le> \<bar>a - b * k\<bar>"
proof (cases "k = half_even a b")
  case False
  then have "b * 1 \<le> b * \<bar>half_even a b - k\<bar>"
    using assms by (intro mult_left_mono) auto
  moreover have "b * \<bar>half_even a b - k\<bar> = \<bar>b * half_even a b - b * k\<bar>"
  proof -
    have "b * half_even a b - b * k = b * (half_even a b - k)" by (simp only: right_diff_distrib)
    then show ?thesis using assms by (simp add: abs_mult)
  qed
  ultimately have "b \<le> \<bar>b * half_even a b - b * k\<bar>" by simp
  then show ?thesis by (rule nearer [OF half_even_near [OF assms]])
qed simp

lemma isqrt_bounds: "isqrt n * isqrt n \<le> n \<and> n < (isqrt n + 1) * (isqrt n + 1)"
proof (induction n rule: isqrt.induct)
  case (1 n)
  show ?case
  proof (cases "n = 0")
    case True
    then show ?thesis by (simp add: isqrt.simps)
  next
    case False
    define r where "r = isqrt (n div 4)"
    have r: "r * r \<le> n div 4" "n div 4 < (r + 1) * (r + 1)" using 1 False by (simp_all add: r_def)
    have up: "n < 4 * ((r + 1) * (r + 1))" using r(2) by linarith
    have low: "4 * (r * r) \<le> n" using r(1) by linarith
    have step: "isqrt n = (if (2 * r + 1) * (2 * r + 1) \<le> n then 2 * r + 1 else 2 * r)"
      using False by (subst isqrt.simps) (simp add: r_def Let_def)
    show ?thesis using up low by (auto simp: step algebra_simps)
  qed
qed

subsection \<open>What the size promises\<close>

lemma parse_aspect_ratio_coprime:
  assumes "parse_aspect_ratio s = (aw, ah)"
  shows "0 < aw" and "0 < ah" and "coprime aw ah"
proof -
  have reduced: "0 < a div gcd a b \<and> 0 < b div gcd a b \<and> coprime (a div gcd a b) (b div gcd a b)"
    if "\<not> (a \<le> 0 \<or> b \<le> 0)" for a b :: int
  proof -
    have g: "0 < gcd a b" "gcd a b \<le> a" "gcd a b \<le> b" using that by (auto intro: gcd_le1_int gcd_le2_int)
    have "coprime (a div gcd a b) (b div gcd a b)" using that by (intro div_gcd_coprime) auto
    with g show ?thesis by (simp add: pos_imp_zdiv_pos_iff)
  qed
  have fallback: "coprime (9 :: int) 16" by code_simp
  have "(\<lambda>(a, b). 0 < a \<and> 0 < b \<and> coprime a b) (parse_aspect_ratio s)"
    unfolding parse_aspect_ratio_def DEFAULT_ASPECT_def
    by (simp add: reduced fallback split: list.split option.split)
  with assms show "0 < aw" and "0 < ah" and "coprime aw ah" by simp_all
qed


lemma scale_bounds:
  fixes t :: int
  assumes "0 < u" and "t \<le> max 1 (l div u)" and "u \<le> l"
  shows "u * t \<le> l"
proof -
  have "1 \<le> l div u" using assms(1,3) by (simp add: pos_imp_zdiv_pos_iff int_one_le_iff_zero_less)
  with assms(2) have "t \<le> l div u" by simp
  then have "u * t \<le> u * (l div u)" using assms(1) by (intro mult_left_mono) auto
  also have "u * (l div u) \<le> l" using assms(1) by (simp add: minus_mod_eq_mult_div [symmetric])
  finally show ?thesis .
qed

lemma pixel_bounds:
  fixes t :: int
  assumes "0 < u" and "0 \<le> t" and "t \<le> max 1 (int (isqrt (nat (p div u))))" and "u \<le> p"
  shows "u * (t * t) \<le> p"
proof -
  have one: "1 \<le> p div u" using assms(1,4) by (simp add: pos_imp_zdiv_pos_iff int_one_le_iff_zero_less)
  let ?r = "isqrt (nat (p div u))"
  have r: "?r * ?r \<le> nat (p div u)" "nat (p div u) < (?r + 1) * (?r + 1)" using isqrt_bounds by blast+
  have "?r \<noteq> 0" using r(2) one by (cases "?r") auto
  with assms(3) have "t \<le> int ?r" by simp
  then have "t * t \<le> int ?r * int ?r" using assms(2) by (intro mult_mono) auto
  also have "int ?r * int ?r = int (?r * ?r)" by simp
  also have "int (?r * ?r) \<le> p div u" using r(1) one by linarith
  finally have "t * t \<le> p div u" .
  then have "u * (t * t) \<le> u * (p div u)" using assms(1) by (intro mult_left_mono) auto
  also have "\<dots> \<le> p" using assms(1) by (simp add: minus_mod_eq_mult_div [symmetric])
  finally show ?thesis .
qed

text \<open>The answer is a multiple of the reduced ratio; what the scale keeps is said of the scale.\<close>

lemma aspect_size_scale:
  assumes "aspect_size ratio s r mle mtp = Inr (w, h)" and "parse_aspect_ratio ratio = (aw, ah)" and "0 < r"
  obtains t where "w = aw * r * t" "h = ah * r * t" "1 \<le> t"
    "\<And>l. mle = Some l \<Longrightarrow> t \<le> max 1 (l div (r * max aw ah))"
    "\<And>p. mtp = Some p \<Longrightarrow> t \<le> max 1 (int (isqrt (nat (p div (aw * ah * r * r)))))"
    "mle = None \<Longrightarrow> mtp = None \<Longrightarrow> t = max 1 (round_div s (r * min aw ah))"
proof -
  let ?t0 = "max 1 (round_div s (r * min aw ah))"
  let ?t1 = "clamp_long ?t0 (r * max aw ah) mle"
  obtain t where t: "clamp_pixels ?t1 (aw * ah * r * r) mtp = Inr t" "w = aw * r * max 1 t" "h = ah * r * max 1 t"
    using assms by (auto simp: aspect_size_def bind_e_Inr_iff)
  have one: "1 \<le> ?t1" by (simp add: clamp_long_def split: option.split)
  then have le: "1 \<le> t" "t \<le> ?t1" using t(1) by (auto simp: clamp_pixels_def split: option.splits if_splits)
  show thesis
  proof (rule that [of t])
    show "w = aw * r * t" "h = ah * r * t" "1 \<le> t" using t(2,3) le(1) by simp_all
    show "t \<le> max 1 (l div (r * max aw ah))" if "mle = Some l" for l
      using le(2) that by (simp add: clamp_long_def)
    show "t \<le> max 1 (int (isqrt (nat (p div (aw * ah * r * r)))))" if "mtp = Some p" for p
      using t(1) that by (auto simp: clamp_pixels_def split: if_splits)
    show "t = ?t0" if "mle = None" "mtp = None"
      using t(1) that by (simp add: clamp_pixels_def clamp_long_def)
  qed
qed

text \<open>
  C24: The size always has exactly the reduced ratio of the project, whatever the resolution, and
  both edges are positive multiples of the rounding. It respects the limit of the long edge and of
  the pixels whenever the smallest legal size does, and without limits no other legal size has a
  short edge nearer to the requested one.
\<close>

theorem aspect_size_exact:
  assumes "aspect_size ratio s r mle mtp = Inr (w, h)" and "parse_aspect_ratio ratio = (aw, ah)" and "0 < r"
  shows "w * ah = h * aw \<and> r dvd w \<and> r dvd h \<and> 0 < w \<and> 0 < h
    \<and> (\<forall>l. mle = Some l \<and> r * max aw ah \<le> l \<longrightarrow> max w h \<le> l)
    \<and> (\<forall>p. mtp = Some p \<and> aw * ah * r * r \<le> p \<longrightarrow> w * h \<le> p)
    \<and> (mle = None \<and> mtp = None \<longrightarrow> (\<forall>k. 1 \<le> k \<longrightarrow> \<bar>s - min w h\<bar> \<le> \<bar>s - r * min aw ah * k\<bar>))"
proof -
  note pos = parse_aspect_ratio_coprime [OF assms(2)]
  obtain t where t: "w = aw * r * t" "h = ah * r * t" "1 \<le> t"
    and long: "\<And>l. mle = Some l \<Longrightarrow> t \<le> max 1 (l div (r * max aw ah))"
    and pix: "\<And>p. mtp = Some p \<Longrightarrow> t \<le> max 1 (int (isqrt (nat (p div (aw * ah * r * r)))))"
    and free: "mle = None \<Longrightarrow> mtp = None \<Longrightarrow> t = max 1 (round_div s (r * min aw ah))"
    by (rule aspect_size_scale [OF assms]) blast
  have rt: "0 \<le> r * t" using assms(3) t(3) by simp
  have edge: "max w h = r * max aw ah * t" "min w h = r * min aw ah * t"
  proof -
    have "max (aw * (r * t)) (ah * (r * t)) = max aw ah * (r * t)" using rt by (simp add: max_mult_distrib_right)
    moreover have "min (aw * (r * t)) (ah * (r * t)) = min aw ah * (r * t)" using rt by (simp add: min_mult_distrib_right)
    ultimately show "max w h = r * max aw ah * t" "min w h = r * min aw ah * t"
      unfolding t(1,2) by (metis mult.assoc mult.commute)+
  qed
  have ratio: "w * ah = h * aw \<and> r dvd w \<and> r dvd h \<and> 0 < w \<and> 0 < h"
  proof -
    have "w * ah = h * aw" unfolding t(1,2) by (simp only: mult.assoc mult.left_commute mult.commute)
    moreover have "r dvd w" "r dvd h" by (simp_all add: t(1,2))
    moreover have "0 < w" "0 < h" using t(3) pos assms(3) by (simp_all add: t(1,2))
    ultimately show ?thesis by blast
  qed
  have limit: "max w h \<le> l" if "mle = Some l" "r * max aw ah \<le> l" for l
    unfolding edge(1) using that long [OF that(1)] pos assms(3) by (intro scale_bounds [of _ t l]) simp_all
  have budget: "w * h \<le> p" if "mtp = Some p" "aw * ah * r * r \<le> p" for p
  proof -
    have "aw * ah * r * r * (t * t) \<le> p"
      using that pix pos assms(3) t(3) by (intro pixel_bounds) auto
    moreover have "w * h = aw * ah * r * r * (t * t)"
      unfolding t(1,2) by (simp only: mult.assoc mult.left_commute mult.commute)
    ultimately show ?thesis by simp
  qed
  have near: "\<bar>s - min w h\<bar> \<le> \<bar>s - r * min aw ah * k\<bar>" if "mle = None" "mtp = None" "1 \<le> k" for k
  proof -
    let ?u = "r * min aw ah"
    have u: "0 < ?u" using pos assms(3) by simp
    have tt: "t = max 1 (half_even s ?u)" using free that u by (simp add: round_div_def)
    show ?thesis
    proof (cases "1 \<le> half_even s ?u")
      case True
      then show ?thesis using half_even_nearest [OF u, of s k] by (simp add: edge tt)
    next
      case False
      then have "?u * half_even s ?u \<le> 0" using u by (simp add: mult_le_0_iff)
      then have "2 * s \<le> ?u" by (rule below_half [OF half_even_near [OF u]])
      moreover have "?u * 1 \<le> ?u * k" using u that(3) by (intro mult_left_mono) auto
      ultimately have "\<bar>s - ?u\<bar> \<le> \<bar>s - ?u * k\<bar>" using u by (intro smallest_nearest) simp_all
      moreover have "t = 1" using tt False by simp
      ultimately show ?thesis by (simp add: edge)
    qed
  qed
  show ?thesis using ratio limit budget near by blast
qed

text \<open>A tie and a limit: the short edge 720 of a vertical clip, and 2160 under a long edge of 3840.\<close>

lemma aspect_size_exact_witness:
  "aspect_size '' 18:32 '' 720 16 (Some 1300) None = Inr (720, 1280) \<and> (720 :: int) * 16 = 1280 * 9"
proof -
  have "aspect_size '' 18:32 '' 720 16 (Some 1300) None = Inr (720, 1280)" by code_simp
  moreover have "parse_aspect_ratio '' 18:32 '' = (9, 16)" by code_simp
  ultimately show ?thesis using aspect_size_exact [of "'' 18:32 ''" 720 16 "Some 1300" None 720 1280 9 16] by simp
qed

end
