(* ===== verification/Grid_Plan.thy ===== *)
theory Grid_Plan
  imports Aspect_Size Script_Review
begin

text \<open>
  Grid images: the ladder of layouts and the cutting of a group of scenes into grids
  (lib/grid/layout.py), the frame chain and the record of one grid (lib/grid/models.py), the cell
  ratio (lib/grid/prompt_builder.py) and the store of the records (lib/grid_manager.py). The
  fields of a record are whatever JSON value the file holds, as in the dataclass; the clock and the
  random identifier are arguments, locks are left out: an operation is one step.
\<close>

subsection \<open>Layouts\<close>

record grid_layout =
  gl_grid_size :: string
  gl_rows :: int
  gl_cols :: int
  gl_grid_aspect_ratio :: string
  gl_cell_count :: int
  gl_placeholder_count :: int

definition BASE_WIDTH :: int where
  "BASE_WIDTH = 1920"

definition GRID_FALLBACK_RESOLUTION :: string where
  "GRID_FALLBACK_RESOLUTION = ''2K''"

definition GRID_LADDER :: "(int \<times> string \<times> int) list" where
  "GRID_LADDER = [(4, ''grid_4'', 2), (9, ''grid_9'', 3), (16, ''grid_16'', 4), (25, ''grid_25'', 5)]"

definition ORIENTATION_ASPECT :: "bool \<Rightarrow> string" where
  "ORIENTATION_ASPECT horizontal = (if horizontal then ''16:9'' else ''9:16'')"

definition LEGACY_NON_SQUARE_ASPECT :: "(int \<times> int, string) dict" where
  "LEGACY_NON_SQUARE_ASPECT = [((3, 2), ''4:3''), ((2, 3), ''3:4'')]"

definition large_grid_allowed :: "string option \<Rightarrow> bool" where
  "large_grid_allowed resolution \<longleftrightarrow> str_upper (str_strip (or_str resolution GRID_FALLBACK_RESOLUTION)) = ''4K''"

definition max_cell_count :: "bool \<Rightarrow> int" where
  "max_cell_count allow_large_grid = (if allow_large_grid then 25 else 9)"

text \<open>\<open>int(x)\<close> of a text.\<close>

definition int_of :: "string \<Rightarrow> py_error + int" where
  "int_of s = (case py_int s of None \<Rightarrow> Inl (ValueError ''invalid literal for int()'') | Some n \<Rightarrow> Inr n)"

text \<open>\<open>w, h = (int(x) for x in s.split(":"))\<close>.\<close>

definition two_ints :: "string \<Rightarrow> py_error + int \<times> int" where
  "two_ints s =
     (case split_on (CHR '':'') s of
        [a, b] \<Rightarrow> bind_e (int_of a) (\<lambda>w. bind_e (int_of b) (\<lambda>h. Inr (w, h)))
      | _ \<Rightarrow> Inl (ValueError ''wrong number of values to unpack''))"

text \<open>\<open>_orientation_of\<close>, whether the orientation is horizontal.\<close>

definition is_horizontal :: "string \<Rightarrow> py_error + bool" where
  "is_horizontal aspect_ratio =
     (case split_on (CHR '':'') aspect_ratio of
        a # b # _ \<Rightarrow> bind_e (int_of a) (\<lambda>w. bind_e (int_of b) (\<lambda>h. Inr (h < w)))
      | [a] \<Rightarrow> bind_e (int_of a) (\<lambda>_. Inl (IndexError ''list index out of range''))
      | [] \<Rightarrow> Inl (IndexError ''list index out of range''))"

definition grid_aspect_ratio_for :: "int \<Rightarrow> int \<Rightarrow> string \<Rightarrow> py_error + string" where
  "grid_aspect_ratio_for rows cols aspect_ratio =
     bind_e (is_horizontal aspect_ratio) (\<lambda>h.
       Inr (if rows = cols then ORIENTATION_ASPECT h
            else dict_get_or LEGACY_NON_SQUARE_ASPECT (rows, cols) (ORIENTATION_ASPECT h)))"

definition pixel_dimensions :: "grid_layout \<Rightarrow> py_error + int \<times> int" where
  "pixel_dimensions l =
     (case split_on (CHR '':'') (gl_grid_aspect_ratio l) of
        [a, b] \<Rightarrow>
          bind_e (int_of a) (\<lambda>w. bind_e (int_of b) (\<lambda>h.
            if h \<le> w
            then (if w = 0 then Inl (ZeroDivisionError ''division by zero'') else Inr (BASE_WIDTH, round_div (BASE_WIDTH * h) w))
            else (if h = 0 then Inl (ZeroDivisionError ''division by zero'') else Inr (round_div (BASE_WIDTH * w) h, BASE_WIDTH))))
      | _ \<Rightarrow> Inl (ValueError ''wrong number of values to unpack''))"

text \<open>\<open>next(cfg for cfg in _GRID_LADDER if effective <= cfg[0])\<close>.\<close>

definition ladder_step :: "int \<Rightarrow> py_error + int \<times> string \<times> int" where
  "ladder_step effective =
     (case find (\<lambda>c. effective \<le> fst c) GRID_LADDER of None \<Rightarrow> Inl (RuntimeError ''StopIteration'') | Some c \<Rightarrow> Inr c)"

definition calculate_grid_layout :: "int \<Rightarrow> string \<Rightarrow> bool \<Rightarrow> py_error + grid_layout option" where
  "calculate_grid_layout num_scenes aspect_ratio allow_large_grid =
     (if num_scenes < 1 then Inr None
      else
        (let effective = min num_scenes (max_cell_count allow_large_grid)
         in bind_e (ladder_step effective) (\<lambda>(cell_count, grid_size, side).
              bind_e (is_horizontal aspect_ratio) (\<lambda>h.
                Inr (Some \<lparr>gl_grid_size = grid_size, gl_rows = side, gl_cols = side,
                       gl_grid_aspect_ratio = ORIENTATION_ASPECT h, gl_cell_count = cell_count,
                       gl_placeholder_count = cell_count - effective\<rparr>)))))"

text \<open>\<open>for i in range(0, len(group), step)\<close>: the slices of a list.\<close>

function slices :: "nat \<Rightarrow> 'a list \<Rightarrow> 'a list list" where
  "slices k xs = (if xs = [] \<or> k = 0 then [] else take k xs # slices k (drop k xs))"
  by pat_completeness auto
termination
  by (relation "measure (\<lambda>(k, xs). length xs)") (auto simp: length_greater_0_conv)

declare slices.simps [simp del]

definition chunk_layout :: "string \<Rightarrow> bool \<Rightarrow> 'a list \<Rightarrow> py_error + ('a list \<times> grid_layout) list" where
  "chunk_layout aspect_ratio allow_large_grid chunk =
     bind_e (calculate_grid_layout (int (length chunk)) aspect_ratio allow_large_grid) (\<lambda>l.
       Inr (case l of None \<Rightarrow> [] | Some x \<Rightarrow> [(chunk, x)]))"

definition plan_grid_chunks :: "'a list \<Rightarrow> string \<Rightarrow> bool \<Rightarrow> py_error + ('a list \<times> grid_layout) list" where
  "plan_grid_chunks scenes aspect_ratio allow_large_grid =
     bind_e (calculate_grid_layout (int (length scenes)) aspect_ratio allow_large_grid) (\<lambda>layout.
       case layout of
         None \<Rightarrow> Inr []
       | Some l \<Rightarrow>
           bind_e (make_all (chunk_layout aspect_ratio allow_large_grid) (slices (nat (gl_cell_count l)) scenes))
             (\<lambda>plans. Inr (concat plans)))"

text \<open>\<open>_compute_panel_aspect\<close>.\<close>

definition compute_panel_aspect :: "string \<Rightarrow> int \<Rightarrow> int \<Rightarrow> py_error + string" where
  "compute_panel_aspect grid_aspect_ratio rows cols =
     bind_e (two_ints grid_aspect_ratio) (\<lambda>(gw, gh).
       (let pw = gw * rows; ph = gh * cols; g = gcd pw ph
        in if g = 0 then Inl (ZeroDivisionError ''division by zero'')
           else Inr (int_str (pw div g) @ '':'' @ int_str (ph div g))))"

subsection \<open>The frame chain\<close>

record frame_cell =
  fc_index :: pyval
  fc_row :: pyval
  fc_col :: pyval
  fc_frame_type :: pyval
  fc_prev :: pyval
  fc_next :: pyval
  fc_image_path :: pyval

definition cell_at :: "int \<Rightarrow> nat \<Rightarrow> string \<Rightarrow> pyval \<Rightarrow> pyval \<Rightarrow> frame_cell" where
  "cell_at cols idx t p n =
     \<lparr>fc_index = PInt (int idx), fc_row = PInt (int idx div cols), fc_col = PInt (int idx mod cols),
      fc_frame_type = PStr t, fc_prev = p, fc_next = n, fc_image_path = PNone\<rparr>"

definition build_frame_chain :: "string list \<Rightarrow> int \<Rightarrow> int \<Rightarrow> frame_cell list" where
  "build_frame_chain ids rows cols =
     map (\<lambda>idx.
            if idx = 0 then cell_at cols idx ''first'' PNone (case ids of [] \<Rightarrow> PNone | i # _ \<Rightarrow> PStr i)
            else if idx < length ids then cell_at cols idx ''transition'' (PStr (ids ! (idx - 1))) (PStr (ids ! idx))
            else cell_at cols idx ''placeholder'' PNone PNone)
         [0..<nat (rows * cols)]"

definition shown_scenes :: "frame_cell list \<Rightarrow> pyval list" where
  "shown_scenes cells = map fc_next (filter (\<lambda>c. fc_frame_type c \<noteq> PStr ''placeholder'') cells)"


subsection \<open>Layout and slices\<close>

lemma ladder_step_cases:
  assumes "1 \<le> n" and "n \<le> max_cell_count b"
  obtains c g s where "ladder_step n = Inr (c, g, s)" "n \<le> c" "c \<le> max_cell_count b" "s * s = c" "0 < s"
    "\<And>d h t. (d, h, t) \<in> set GRID_LADDER \<Longrightarrow> n \<le> d \<Longrightarrow> c \<le> d"
proof -
  have cap: "n \<le> 25" "b \<or> n \<le> 9" "max_cell_count b = (if b then 25 else 9)"
    using assms(2) by (auto simp: max_cell_count_def split: if_splits)
  consider "n \<le> 4" | "4 < n" "n \<le> 9" | "9 < n" "n \<le> 16" | "16 < n" "n \<le> 25" using cap(1) by linarith
  then show thesis
  proof cases
    case 1
    then show thesis
      by (intro that [of 4 "''grid_4''" 2]) (use cap in \<open>auto simp: ladder_step_def GRID_LADDER_def\<close>)
  next
    case 2
    then show thesis
      by (intro that [of 9 "''grid_9''" 3]) (use cap in \<open>auto simp: ladder_step_def GRID_LADDER_def\<close>)
  next
    case 3
    then show thesis
      by (intro that [of 16 "''grid_16''" 4]) (use cap in \<open>auto simp: ladder_step_def GRID_LADDER_def\<close>)
  next
    case 4
    then show thesis
      by (intro that [of 25 "''grid_25''" 5]) (use cap in \<open>auto simp: ladder_step_def GRID_LADDER_def\<close>)
  qed
qed

lemma calculate_grid_layout_None: "calculate_grid_layout n ar b = Inr None \<longleftrightarrow> n < 1"
  unfolding calculate_grid_layout_def Let_def by (auto simp: bind_e_Inr_iff)

definition fits_layout :: "bool \<Rightarrow> int \<Rightarrow> grid_layout \<Rightarrow> bool" where
  "fits_layout b n l \<longleftrightarrow>
     gl_rows l * gl_cols l = gl_cell_count l \<and> gl_rows l = gl_cols l \<and> 0 < gl_rows l \<and> gl_cell_count l \<le> max_cell_count b
     \<and> min n (max_cell_count b) + gl_placeholder_count l = gl_cell_count l \<and> 0 \<le> gl_placeholder_count l
     \<and> (\<forall>d h t. (d, h, t) \<in> set GRID_LADDER \<and> min n (max_cell_count b) \<le> d \<longrightarrow> gl_cell_count l \<le> d)"

lemma calculate_grid_layout_fits:
  assumes "calculate_grid_layout n ar b = Inr (Some l)"
  shows "1 \<le> n" and "fits_layout b n l"
proof -
  show n: "1 \<le> n" using assms by (auto simp: calculate_grid_layout_def split: if_splits)
  have "1 \<le> min n (max_cell_count b)" using n by (simp add: max_cell_count_def)
  then obtain c g s where c: "ladder_step (min n (max_cell_count b)) = Inr (c, g, s)" "min n (max_cell_count b) \<le> c"
    "c \<le> max_cell_count b" "s * s = c" "0 < s" "\<And>d h t. (d, h, t) \<in> set GRID_LADDER \<Longrightarrow> min n (max_cell_count b) \<le> d \<Longrightarrow> c \<le> d"
    by (rule ladder_step_cases [of _ b]) simp_all
  from assms n obtain h where "l = \<lparr>gl_grid_size = g, gl_rows = s, gl_cols = s, gl_grid_aspect_ratio = ORIENTATION_ASPECT h,
      gl_cell_count = c, gl_placeholder_count = c - min n (max_cell_count b)\<rparr>"
    by (auto simp: calculate_grid_layout_def c(1) bind_e_Inr_iff)
  with c(2-6) show "fits_layout b n l" unfolding fits_layout_def by auto
qed

lemma full_layout:
  assumes "fits_layout b (max_cell_count b) l"
  shows "gl_cell_count l = max_cell_count b" and "gl_placeholder_count l = 0"
  using assms by (auto simp: fits_layout_def)

lemma concat_slices: "0 < k \<Longrightarrow> concat (slices k xs) = xs"
  by (induction k xs rule: slices.induct) (subst slices.simps, simp)

lemma slices_bounds: "c \<in> set (slices k xs) \<Longrightarrow> c \<noteq> [] \<and> length c \<le> k"
  by (induction k xs rule: slices.induct) (subst (asm) (2) slices.simps, auto split: if_splits)

lemma slices_full: "c \<in> set (butlast (slices k xs)) \<Longrightarrow> length c = k"
proof (induction k xs rule: slices.induct)
  case (1 k xs)
  show ?case
  proof (cases "xs = [] \<or> k = 0")
    case True
    with 1 show ?thesis by (subst (asm) slices.simps) auto
  next
    case False
    then have eq: "slices k xs = take k xs # slices k (drop k xs)" by (subst slices.simps) simp
    with 1(2) have rest: "slices k (drop k xs) \<noteq> []" "c = take k xs \<or> c \<in> set (butlast (slices k (drop k xs)))"
      by (auto split: if_splits)
    then have "drop k xs \<noteq> []" by (subst (asm) slices.simps) (auto split: if_splits)
    with rest 1(1) False show ?thesis by auto
  qed
qed

lemma slices_single: "length xs \<le> k \<Longrightarrow> butlast (slices k xs) = []"
  by (subst slices.simps) (simp add: slices.simps [of k "[]"])

lemma chunk_layouts:
  assumes "make_all (chunk_layout ar b) cs = Inr plans" and "\<And>c. c \<in> set cs \<Longrightarrow> c \<noteq> []"
  shows "map fst (concat plans) = cs"
    and "(c, l) \<in> set (concat plans) \<Longrightarrow> fits_layout b (int (length c)) l"
proof -
  have "map fst (concat plans) = cs \<and> (\<forall>(c, l) \<in> set (concat plans). fits_layout b (int (length c)) l)"
    using assms
  proof (induction cs arbitrary: plans)
    case Nil
    then show ?case by simp
  next
    case (Cons x cs)
    obtain p ps where p: "chunk_layout ar b x = Inr p" "make_all (chunk_layout ar b) cs = Inr ps" "plans = p # ps"
      using Cons.prems(1) by (auto split: sum.splits)
    have "1 \<le> int (length x)" using Cons.prems(2) [of x] by (cases x) auto
    with p(1) obtain l where l: "calculate_grid_layout (int (length x)) ar b = Inr (Some l)" "p = [(x, l)]"
      by (auto simp: chunk_layout_def bind_e_Inr_iff calculate_grid_layout_None split: option.splits)
    show ?case
      using Cons.IH [OF p(2)] Cons.prems(2) p(3) l(2) calculate_grid_layout_fits(2) [OF l(1)] by auto
  qed
  then show "map fst (concat plans) = cs" and "(c, l) \<in> set (concat plans) \<Longrightarrow> fits_layout b (int (length c)) l" by auto
qed

text \<open>
  Cutting a group into grids loses, repeats and reorders no scene: the chunks concatenate to
  the group, each has a square layout that holds it with exactly the announced number of free
  cells and is the smallest of the ladder that does, no grid is larger than the resolution allows,
  and every grid but the last is full.
\<close>

theorem plan_grid_chunks_partition:
  assumes "plan_grid_chunks scenes ar b = Inr plans"
  shows "concat (map fst plans) = scenes
    \<and> (\<forall>c l. (c, l) \<in> set plans \<longrightarrow> c \<noteq> [] \<and> gl_rows l * gl_cols l = gl_cell_count l \<and> gl_rows l = gl_cols l \<and> 0 < gl_rows l
         \<and> gl_cell_count l \<le> max_cell_count b
         \<and> int (length c) + gl_placeholder_count l = gl_cell_count l \<and> 0 \<le> gl_placeholder_count l
         \<and> (\<forall>d h t. (d, h, t) \<in> set GRID_LADDER \<and> int (length c) \<le> d \<longrightarrow> gl_cell_count l \<le> d))
    \<and> (\<forall>c l. (c, l) \<in> set (butlast plans) \<longrightarrow> gl_placeholder_count l = 0)"
proof (cases "scenes = []")
  case True
  with assms show ?thesis by (simp add: plan_grid_chunks_def calculate_grid_layout_def)
next
  case False
  let ?n = "int (length scenes)"
  obtain x where x: "calculate_grid_layout ?n ar b = Inr x" using assms by (auto simp: plan_grid_chunks_def bind_e_Inr_iff)
  moreover have "x \<noteq> None" using x False calculate_grid_layout_None [of ?n ar b] by (cases scenes) auto
  ultimately obtain l0 where l0: "calculate_grid_layout ?n ar b = Inr (Some l0)" by auto
  let ?k = "nat (gl_cell_count l0)"
  obtain ps where ps: "make_all (chunk_layout ar b) (slices ?k scenes) = Inr ps" "plans = concat ps"
    using assms l0 by (auto simp: plan_grid_chunks_def bind_e_Inr_iff)
  note fit0 = calculate_grid_layout_fits [OF l0]
  have k: "0 < ?k" "int ?k \<le> max_cell_count b" "min ?n (max_cell_count b) \<le> int ?k"
  proof -
    have "9 \<le> max_cell_count b" by (simp add: max_cell_count_def)
    with fit0 show "0 < ?k" "int ?k \<le> max_cell_count b" "min ?n (max_cell_count b) \<le> int ?k"
      unfolding fits_layout_def by linarith+
  qed
  note chunks = chunk_layouts [OF ps(1)]
  have fsts: "map fst plans = slices ?k scenes" using chunks(1) ps(2) slices_bounds by blast
  have fit: "fits_layout b (int (length c)) l" if "(c, l) \<in> set plans" for c l
    using that ps(2) slices_bounds by (intro chunks(2)) auto
  have bound: "c \<noteq> [] \<and> length c \<le> ?k" if "(c, l) \<in> set plans" for c l
  proof -
    have "c \<in> set (map fst plans)" using that by force
    then show ?thesis unfolding fsts by (rule slices_bounds)
  qed
  have full: "gl_placeholder_count l = 0" if "(c, l) \<in> set (butlast plans)" for c l
  proof -
    have "c \<in> set (butlast (slices ?k scenes))"
      using that unfolding fsts [symmetric] map_butlast [symmetric] by force
    then have len: "length c = ?k" and "\<not> length scenes \<le> ?k"
      using slices_full slices_single by (blast, force)
    then have "int ?k = max_cell_count b" using k by linarith
    with len have "int (length c) = max_cell_count b" by simp
    with fit [OF in_set_butlastD [OF that]] show ?thesis by (simp add: full_layout(2))
  qed
  have each: "c \<noteq> [] \<and> gl_rows l * gl_cols l = gl_cell_count l \<and> gl_rows l = gl_cols l \<and> 0 < gl_rows l
         \<and> gl_cell_count l \<le> max_cell_count b
         \<and> int (length c) + gl_placeholder_count l = gl_cell_count l \<and> 0 \<le> gl_placeholder_count l
         \<and> (\<forall>d h t. (d, h, t) \<in> set GRID_LADDER \<and> int (length c) \<le> d \<longrightarrow> gl_cell_count l \<le> d)"
    if "(c, l) \<in> set plans" for c l
  proof -
    have m: "min (int (length c)) (max_cell_count b) = int (length c)" using bound [OF that] k by auto
    show ?thesis using fit [OF that, unfolded fits_layout_def m] bound [OF that] by blast
  qed
  have "concat (map fst plans) = scenes" unfolding fsts by (rule concat_slices [OF k(1)])
  with each full show ?thesis by blast
qed


text \<open>Eleven scenes without the large grids, and three scenes: the layouts and slices one by one.\<close>

definition demo_layout :: "string \<Rightarrow> int \<Rightarrow> int \<Rightarrow> grid_layout" where
  "demo_layout name side free =
     \<lparr>gl_grid_size = name, gl_rows = side, gl_cols = side, gl_grid_aspect_ratio = ''9:16'', gl_cell_count = side * side,
      gl_placeholder_count = free\<rparr>"

lemma demo_layouts:
  "calculate_grid_layout 11 ''9:16'' False = Inr (Some (demo_layout ''grid_9'' 3 0))"
  "calculate_grid_layout 9 ''9:16'' False = Inr (Some (demo_layout ''grid_9'' 3 0))"
  "calculate_grid_layout 2 ''9:16'' False = Inr (Some (demo_layout ''grid_4'' 2 2))"
  "calculate_grid_layout 3 ''9:16'' False = Inr (Some (demo_layout ''grid_4'' 2 1))"
  by code_simp+

lemma demo_slices:
  "slices 9 [0 :: int, 1, 2, 3, 4, 5, 6, 7, 8, 9, 10] = [[0, 1, 2, 3, 4, 5, 6, 7, 8], [9, 10]]"
  "slices 4 [''a'', ''b'', ''c''] = [[''a'', ''b'', ''c'']]"
  by code_simp+

lemma demo_chunks:
  "plan_grid_chunks [0 :: int, 1, 2, 3, 4, 5, 6, 7, 8, 9, 10] ''9:16'' False
     = Inr [([0, 1, 2, 3, 4, 5, 6, 7, 8], demo_layout ''grid_9'' 3 0), ([9, 10], demo_layout ''grid_4'' 2 2)]"
  "plan_grid_chunks [''a'', ''b'', ''c''] ''9:16'' False = Inr [([''a'', ''b'', ''c''], demo_layout ''grid_4'' 2 1)]"
  by (simp_all add: plan_grid_chunks_def chunk_layout_def demo_layouts)
    (simp_all add: demo_layout_def demo_slices chunk_layout_def demo_layouts [unfolded demo_layout_def])

lemma plan_grid_chunks_partition_witness:
  "concat (map fst [([0 :: int, 1, 2, 3, 4, 5, 6, 7, 8], demo_layout ''grid_9'' 3 0), ([9, 10], demo_layout ''grid_4'' 2 2)])
     = [0, 1, 2, 3, 4, 5, 6, 7, 8, 9, 10]"
  by (rule plan_grid_chunks_partition [OF demo_chunks(1), THEN conjunct1])

subsection \<open>The frame chain of a chunk\<close>

lemma upt_part: "k \<le> n \<Longrightarrow> [0..<n] = [0..<k] @ [k..<n]"
  using upt_add_eq_append [of 0 k "n - k"] by simp

lemma filter_map_upt:
  assumes "k \<le> n" and "\<And>i. i < k \<Longrightarrow> P (f i)" and "\<And>i. k \<le> i \<Longrightarrow> i < n \<Longrightarrow> \<not> P (f i)"
  shows "filter P (map f [0..<n]) = map f [0..<k]"
  unfolding upt_part [OF assms(1)] using assms(2,3) by (auto simp: filter_empty_conv filter_id_conv)

text \<open>
  The frame chain of a chunk shows its scenes in order, each exactly once and in a cell inside
  the grid, leaves exactly the announced number of cells free, and chains every scene to the one
  before it.
\<close>

theorem frame_chain_shows_chunk:
  assumes "plan_grid_chunks scenes ar b = Inr plans" and "(c, l) \<in> set plans"
  shows "let cells = build_frame_chain c (gl_rows l) (gl_cols l);
             used = filter (\<lambda>x. fc_frame_type x \<noteq> PStr ''placeholder'') cells
    in map fc_next used = map PStr c \<and> map fc_prev used = PNone # map PStr (butlast c)
       \<and> int (length cells - length used) = gl_placeholder_count l
       \<and> (\<forall>x \<in> set cells. \<exists>i j. fc_row x = PInt i \<and> fc_col x = PInt j \<and> 0 \<le> i \<and> i < gl_rows l \<and> 0 \<le> j \<and> j < gl_cols l)"
proof -
  note part = plan_grid_chunks_partition [OF assms(1), THEN conjunct2, THEN conjunct1]
  have c: "c \<noteq> []" "gl_rows l = gl_cols l" "0 < gl_rows l" "gl_rows l * gl_cols l = gl_cell_count l" "int (length c) + gl_placeholder_count l = gl_cell_count l"
    "0 \<le> gl_placeholder_count l" using part assms(2) by blast+
  let ?n = "nat (gl_rows l * gl_cols l)"
  define cell where "cell idx =
    (if idx = 0 then cell_at (gl_cols l) idx ''first'' PNone (case c of [] \<Rightarrow> PNone | i # _ \<Rightarrow> PStr i)
     else if idx < length c then cell_at (gl_cols l) idx ''transition'' (PStr (c ! (idx - 1))) (PStr (c ! idx))
     else cell_at (gl_cols l) idx ''placeholder'' PNone PNone)" for idx
  have cells: "build_frame_chain c (gl_rows l) (gl_cols l) = map cell [0..<?n]"
    by (simp add: build_frame_chain_def cell_def)
  have n: "length c \<le> ?n" "int ?n - int (length c) = gl_placeholder_count l" using c by simp_all
  have used: "filter (\<lambda>x. fc_frame_type x \<noteq> PStr ''placeholder'') (map cell [0..<?n]) = map cell [0..<length c]"
    by (rule filter_map_upt [OF n(1)]) (use c(1) in \<open>auto simp: cell_def cell_at_def simp flip: length_greater_0_conv\<close>)
  have shown: "map fc_next (map cell [0..<length c]) = map PStr c"
    by (rule nth_equalityI) (auto simp: cell_def cell_at_def c(1) hd_conv_nth split: list.split)
  have prevs: "map fc_prev (map cell [0..<length c]) = PNone # map PStr (butlast c)"
    by (rule nth_equalityI) (auto simp: cell_def cell_at_def c(1) nth_Cons nth_butlast split: nat.split)
  have inside: "\<exists>i j. fc_row x = PInt i \<and> fc_col x = PInt j \<and> 0 \<le> i \<and> i < gl_rows l \<and> 0 \<le> j \<and> j < gl_cols l"
    if "x \<in> set (map cell [0..<?n])" for x
  proof -
    from that obtain idx where idx: "idx < ?n" "x = cell idx" by auto
    have "fc_row x = PInt (int idx div gl_cols l)" "fc_col x = PInt (int idx mod gl_cols l)"
      by (simp_all add: idx(2) cell_def cell_at_def)
    moreover have "int idx div gl_cols l < gl_rows l"
    proof (rule ccontr)
      assume "\<not> int idx div gl_cols l < gl_rows l"
      then have "gl_rows l * gl_cols l \<le> int idx div gl_cols l * gl_cols l" using c(2,3) by (intro mult_right_mono) auto
      also have "\<dots> \<le> int idx" using c(2,3) by (simp add: minus_mod_eq_div_mult [symmetric])
      finally show False using idx(1) by simp
    qed
    ultimately show ?thesis using c(2,3) by (simp add: pos_imp_zdiv_nonneg_iff)
  qed
  have free: "int (length (map cell [0..<?n]) - length (map cell [0..<length c])) = gl_placeholder_count l"
    using n by simp
  show ?thesis
    unfolding Let_def cells used using shown prevs free inside by blast
qed

lemma frame_chain_shows_chunk_witness:
  "map fc_next (filter (\<lambda>x. fc_frame_type x \<noteq> PStr ''placeholder'') (build_frame_chain [''a'', ''b'', ''c'']
       (gl_rows (demo_layout ''grid_4'' 2 1)) (gl_cols (demo_layout ''grid_4'' 2 1)))) = map PStr [''a'', ''b'', ''c'']"
  by (rule frame_chain_shows_chunk [OF demo_chunks(2), unfolded Let_def, THEN conjunct1]) simp

end
