(* ===== verification/Grid_Store.thy ===== *)
theory Grid_Store
  imports Grid_Plan
begin

text \<open>
  The record of one grid image (lib/grid/models.py) and the store of the records
  (lib/grid_manager.py): conversion to and from JSON with the readings of records of older
  versions, the reset after a replaced image, and the operations on disk, where a failure inside
  a write transaction puts the files it names back.
\<close>

subsection \<open>Reading dictionaries\<close>

definition need :: "json_object \<Rightarrow> string \<Rightarrow> py_error + pyval" where
  "need d k = (case dict_get d k of None \<Rightarrow> Inl (KeyError k) | Some v \<Rightarrow> Inr v)"

text \<open>\<open>v[k]\<close> with a string key.\<close>

definition subscript :: "pyval \<Rightarrow> string \<Rightarrow> py_error + pyval" where
  "subscript v k = (case v of PDict d \<Rightarrow> need d k | _ \<Rightarrow> Inl (TypeError ''not subscriptable by a string''))"

text \<open>\<open>for x in v\<close>.\<close>

fun iterate_strict :: "pyval \<Rightarrow> py_error + pyval list" where
  "iterate_strict (PList vs) = Inr vs"
| "iterate_strict (PDict d) = Inr (map (PStr \<circ> fst) d)"
| "iterate_strict (PStr s) = Inr (map (\<lambda>c. PStr [c]) s)"
| "iterate_strict v = Inl (TypeError ''not iterable'')"

subsection \<open>The record\<close>

record reference_image =
  ri_path :: pyval
  ri_name :: pyval
  ri_ref_type :: pyval

record grid_generation =
  gg_id :: pyval
  gg_episode :: pyval
  gg_script_file :: pyval
  gg_scene_ids :: pyval
  gg_grid_image_path :: pyval
  gg_rows :: pyval
  gg_cols :: pyval
  gg_cell_count :: pyval
  gg_frame_chain :: "frame_cell list"
  gg_status :: pyval
  gg_prompt :: pyval
  gg_provider :: pyval
  gg_model :: pyval
  gg_grid_size :: pyval
  gg_created_at :: pyval
  gg_error_message :: pyval
  gg_reference_images :: "reference_image list option"
  gg_split_at :: pyval
  gg_video_aspect_ratio :: pyval

definition reference_to_dict :: "reference_image \<Rightarrow> pyval" where
  "reference_to_dict r = PDict [(''path'', ri_path r), (''name'', ri_name r), (''ref_type'', ri_ref_type r)]"

definition reference_from_dict :: "pyval \<Rightarrow> py_error + reference_image" where
  "reference_from_dict v =
     bind_e (subscript v ''path'') (\<lambda>p.
     bind_e (subscript v ''name'') (\<lambda>n.
       Inr \<lparr>ri_path = p, ri_name = n, ri_ref_type = dict_get_or (object_of v) ''ref_type'' (PStr ''character'')\<rparr>))"

definition cell_to_dict :: "frame_cell \<Rightarrow> pyval" where
  "cell_to_dict c =
     PDict [(''index'', fc_index c), (''row'', fc_row c), (''col'', fc_col c), (''frame_type'', fc_frame_type c),
       (''prev_scene_id'', fc_prev c), (''next_scene_id'', fc_next c), (''image_path'', fc_image_path c)]"

definition cell_from_dict :: "pyval \<Rightarrow> py_error + frame_cell" where
  "cell_from_dict v =
     bind_e (subscript v ''index'') (\<lambda>i.
     bind_e (subscript v ''row'') (\<lambda>r.
     bind_e (subscript v ''col'') (\<lambda>c.
     bind_e (subscript v ''frame_type'') (\<lambda>t.
       (let d = object_of v
        in Inr \<lparr>fc_index = i, fc_row = r, fc_col = c, fc_frame_type = t, fc_prev = row_get d ''prev_scene_id'',
             fc_next = row_get d ''next_scene_id'', fc_image_path = row_get d ''image_path''\<rparr>)))))"

definition grid_to_dict :: "grid_generation \<Rightarrow> json_object" where
  "grid_to_dict g =
     [(''id'', gg_id g), (''episode'', gg_episode g), (''script_file'', gg_script_file g), (''scene_ids'', gg_scene_ids g),
      (''grid_image_path'', gg_grid_image_path g), (''rows'', gg_rows g), (''cols'', gg_cols g), (''cell_count'', gg_cell_count g),
      (''frame_chain'', PList (map cell_to_dict (gg_frame_chain g))), (''status'', gg_status g), (''prompt'', gg_prompt g),
      (''provider'', gg_provider g), (''model'', gg_model g), (''grid_size'', gg_grid_size g), (''created_at'', gg_created_at g),
      (''error_message'', gg_error_message g),
      (''reference_images'', (case gg_reference_images g of
          Some (r # rs) \<Rightarrow> PList (map reference_to_dict (r # rs)) | _ \<Rightarrow> PNone)),
      (''split_at'', gg_split_at g), (''video_aspect_ratio'', gg_video_aspect_ratio g)]"

text \<open>
  A record of the time when generating and splitting were one task: \<open>splitting\<close> means the image
  is there and not split, and a completed record without a time of splitting was split when made.
\<close>

definition read_status :: "pyval \<Rightarrow> pyval" where
  "read_status raw = (if raw = PStr ''splitting'' then PStr ''completed'' else raw)"

definition read_split_at :: "json_object \<Rightarrow> pyval \<Rightarrow> py_error + pyval" where
  "read_split_at d raw =
     (if \<not> has_key d ''split_at'' \<and> raw = PStr ''completed'' then need d ''created_at'' else Inr (row_get d ''split_at''))"

definition read_references :: "json_object \<Rightarrow> py_error + reference_image list option" where
  "read_references d =
     (let v = row_get d ''reference_images''
      in if pv_truthy v then bind_e (iterate_strict v) (\<lambda>vs. bind_e (make_all reference_from_dict vs) (\<lambda>rs. Inr (Some rs)))
         else Inr None)"

definition grid_of_dict :: "json_object \<Rightarrow> py_error + grid_generation" where
  "grid_of_dict d =
     bind_e (need d ''status'') (\<lambda>raw.
     bind_e (read_split_at d raw) (\<lambda>split_at.
     bind_e (make_all (need d) [''id'', ''episode'', ''script_file'', ''scene_ids'', ''rows'', ''cols'', ''cell_count'']) (\<lambda>head.
     bind_e (iterate_strict (dict_get_or d ''frame_chain'' (PList []))) (\<lambda>raw_cells.
     bind_e (make_all cell_from_dict raw_cells) (\<lambda>cells.
     bind_e (make_all (need d) [''provider'', ''model'', ''grid_size'', ''created_at'']) (\<lambda>tail.
     bind_e (read_references d) (\<lambda>refs.
       Inr \<lparr>gg_id = head ! 0, gg_episode = head ! 1, gg_script_file = head ! 2, gg_scene_ids = head ! 3,
            gg_grid_image_path = row_get d ''grid_image_path'', gg_rows = head ! 4, gg_cols = head ! 5,
            gg_cell_count = head ! 6, gg_frame_chain = cells, gg_status = read_status raw, gg_prompt = row_get d ''prompt'',
            gg_provider = tail ! 0, gg_model = tail ! 1, gg_grid_size = tail ! 2, gg_created_at = tail ! 3,
            gg_error_message = row_get d ''error_message'', gg_reference_images = refs, gg_split_at = split_at,
            gg_video_aspect_ratio = row_get d ''video_aspect_ratio''\<rparr>)))))))"

definition grid_from_json :: "pyval \<Rightarrow> py_error + grid_generation" where
  "grid_from_json v = (case v of PDict d \<Rightarrow> grid_of_dict d | _ \<Rightarrow> Inl (TypeError ''not subscriptable by a string''))"

definition mark_composite_replaced :: "grid_generation \<Rightarrow> grid_generation" where
  "mark_composite_replaced g =
     (let g1 = g\<lparr>gg_grid_image_path := PStr (''grids/'' @ id_text (gg_id g) @ ''.png''), gg_split_at := PNone\<rparr>
      in if gg_status g \<notin> {PStr ''pending'', PStr ''generating''}
         then g1\<lparr>gg_status := PStr ''completed'', gg_error_message := PNone\<rparr> else g1)"

definition create_grid ::
  "string \<Rightarrow> string \<Rightarrow> int \<Rightarrow> string \<Rightarrow> string list \<Rightarrow> int \<Rightarrow> int \<Rightarrow> string \<Rightarrow> string \<Rightarrow> string \<Rightarrow> string \<Rightarrow> string option
     \<Rightarrow> grid_generation" where
  "create_grid hex12 now episode script_file ids rows cols grid_size provider model ratio prompt =
     \<lparr>gg_id = PStr (''grid_'' @ hex12), gg_episode = PInt episode, gg_script_file = PStr script_file,
      gg_scene_ids = PList (map PStr ids), gg_grid_image_path = PNone, gg_rows = PInt rows, gg_cols = PInt cols,
      gg_cell_count = PInt (rows * cols), gg_frame_chain = build_frame_chain ids rows cols, gg_status = PStr ''pending'',
      gg_prompt = str_or_none prompt, gg_provider = PStr provider, gg_model = PStr model, gg_grid_size = PStr grid_size,
      gg_created_at = PStr now, gg_error_message = PNone, gg_reference_images = None, gg_split_at = PNone,
      gg_video_aspect_ratio = PStr ratio\<rparr>"

subsection \<open>The store\<close>

text \<open>\<open>fullmatch("grid_[0-9a-f]{12}")\<close>.\<close>

definition grid_id_ok :: "string \<Rightarrow> bool" where
  "grid_id_ok s \<longleftrightarrow> take 5 s = ''grid_'' \<and> length s = 17 \<and> list_all is_lower_hex (drop 5 s)"

definition grid_path :: "pyval \<Rightarrow> string \<Rightarrow> py_error + string" where
  "grid_path grid_id ext =
     (case grid_id of
        PStr s \<Rightarrow> if grid_id_ok s then Inr (''grids/'' @ s @ ext) else Inl (ValueError ''illegal grid id'')
      | _ \<Rightarrow> Inl (ValueError ''illegal grid id''))"

abbreviation record_path :: "pyval \<Rightarrow> py_error + string" where
  "record_path grid_id \<equiv> grid_path grid_id ''.json''"

text \<open>A computation on the disk that may fail, and the transaction that puts the named files back.\<close>

type_synonym 'a disk_step = "project_fs \<Rightarrow> (py_error + 'a) \<times> project_fs"

definition formal_write_transaction :: "string list \<Rightarrow> 'a disk_step \<Rightarrow> 'a disk_step" where
  "formal_write_transaction ps body fs =
     (case body fs of (Inl e, fs') \<Rightarrow> (Inl e, fs_restore ps fs fs') | (Inr x, fs') \<Rightarrow> (Inr x, fs'))"

text \<open>\<open>atomic_write_json\<close>, which the file system may refuse.\<close>

definition write_grid :: "py_error option \<Rightarrow> string \<Rightarrow> grid_generation \<Rightarrow> unit disk_step" where
  "write_grid refused p g fs =
     (case refused of Some e \<Rightarrow> (Inl e, fs) | None \<Rightarrow> (Inr (), fs_write p (json_dumps (PDict (grid_to_dict g))) fs))"

definition save_grid :: "py_error option \<Rightarrow> grid_generation \<Rightarrow> unit disk_step" where
  "save_grid refused g fs =
     (case record_path (gg_id g) of Inl e \<Rightarrow> (Inl e, fs) | Inr p \<Rightarrow> write_grid refused p g fs)"

definition get_unlocked :: "string \<Rightarrow> project_fs \<Rightarrow> py_error + grid_generation option" where
  "get_unlocked p fs =
     (case fs_read fs p of
        None \<Rightarrow> Inr None
      | Some raw \<Rightarrow>
          (case json_loads raw of
             None \<Rightarrow> Inl (ValueError ''JSONDecodeError'')
           | Some v \<Rightarrow> map_sum id Some (grid_from_json v)))"

definition get_grid :: "pyval \<Rightarrow> project_fs \<Rightarrow> py_error + grid_generation option" where
  "get_grid grid_id fs = bind_e (record_path grid_id) (\<lambda>p. get_unlocked p fs)"

definition update_body ::
  "py_error option \<Rightarrow> (grid_generation \<Rightarrow> py_error + grid_generation) \<Rightarrow> unit disk_step \<Rightarrow> unit disk_step \<Rightarrow> bool \<Rightarrow> string
     \<Rightarrow> grid_generation option disk_step" where
  "update_body refused mutate on_commit on_miss ignore_invalid p fs =
     (let miss = (case on_miss fs of (Inl e, fs') \<Rightarrow> (Inl e, fs') | (Inr _, fs') \<Rightarrow> (Inr None, fs'))
      in case get_unlocked p fs of
           Inl e \<Rightarrow> if ignore_invalid then miss else (Inl e, fs)
         | Inr None \<Rightarrow> miss
         | Inr (Some g) \<Rightarrow>
             (case mutate g of
                Inl e \<Rightarrow> (Inl e, fs)
              | Inr g' \<Rightarrow>
                  (case write_grid refused p g' fs of
                     (Inl e, fs1) \<Rightarrow> (Inl e, fs1)
                   | (Inr _, fs1) \<Rightarrow>
                       (case on_commit fs1 of (Inl e, fs2) \<Rightarrow> (Inl e, fs2) | (Inr _, fs2) \<Rightarrow> (Inr (Some g'), fs2)))))"

definition update_grid ::
  "py_error option \<Rightarrow> (grid_generation \<Rightarrow> py_error + grid_generation) \<Rightarrow> unit disk_step \<Rightarrow> unit disk_step \<Rightarrow> bool \<Rightarrow> pyval
     \<Rightarrow> grid_generation option disk_step" where
  "update_grid refused mutate on_commit on_miss ignore_invalid grid_id fs =
     (case record_path grid_id of
        Inl e \<Rightarrow> (Inl e, fs)
      | Inr p \<Rightarrow> formal_write_transaction [p] (update_body refused mutate on_commit on_miss ignore_invalid p) fs)"

text \<open>
  Deleting: the errors an invalid record may raise are ignored; the claim is given up by an
  operation of the manifest, which is an argument.
\<close>

definition delete_grid :: "(grid_generation \<Rightarrow> unit disk_step) \<Rightarrow> pyval \<Rightarrow> bool disk_step" where
  "delete_grid give_up grid_id fs =
     (case (record_path grid_id, grid_path grid_id ''.png'') of
        (Inr p, Inr img) \<Rightarrow>
          if \<not> fs_exists fs p then (Inr False, fs)
          else
            (let grid = (case get_unlocked p fs of Inr (Some g) \<Rightarrow> Some g | _ \<Rightarrow> None)
             in formal_write_transaction [p, img]
                  (\<lambda>fs0. (let fs1 = fs_unlink p (fs_unlink img fs0)
                           in case grid of
                                None \<Rightarrow> (Inr True, fs1)
                              | Some g \<Rightarrow>
                                  (case give_up g fs1 of (Inl e, fs2) \<Rightarrow> (Inl e, fs2) | (Inr _, fs2) \<Rightarrow> (Inr True, fs2)))) fs)
      | (Inl e, _) \<Rightarrow> (Inl e, fs)
      | (_, Inl e) \<Rightarrow> (Inl e, fs))"

text \<open>A finished record whose scenes were all generated again.\<close>

definition unhashable :: "pyval \<Rightarrow> bool" where
  "unhashable v = (case v of PList _ \<Rightarrow> True | PDict _ \<Rightarrow> True | _ \<Rightarrow> False)"

definition superseded :: "string \<Rightarrow> int \<Rightarrow> string list \<Rightarrow> grid_generation \<Rightarrow> py_error + bool" where
  "superseded script_file episode ids g =
     (if gg_script_file g = PStr script_file \<and> eq_int (gg_episode g) episode
        \<and> gg_status g \<notin> {PStr ''pending'', PStr ''generating''} \<and> pv_truthy (gg_scene_ids g)
      then bind_e (iterate_strict (gg_scene_ids g)) (\<lambda>vs.
             if list_ex unhashable vs then Inl (TypeError ''unhashable type'')
             else Inr (list_all (\<lambda>v. v \<in> set (map PStr ids)) vs))
      else Inr False)"

text \<open>\<open>cleanup_superseded\<close> on the records \<open>list_all\<close> gives.\<close>

fun cleanup_superseded ::
  "(grid_generation \<Rightarrow> unit disk_step) \<Rightarrow> string \<Rightarrow> int \<Rightarrow> string list \<Rightarrow> grid_generation list \<Rightarrow> nat \<Rightarrow> nat disk_step" where
  "cleanup_superseded give_up script_file episode ids [] n fs = (Inr n, fs)"
| "cleanup_superseded give_up script_file episode ids (g # gs) n fs =
     (case superseded script_file episode ids g of
        Inl e \<Rightarrow> (Inl e, fs)
      | Inr False \<Rightarrow> cleanup_superseded give_up script_file episode ids gs n fs
      | Inr True \<Rightarrow>
          (case delete_grid give_up (gg_id g) fs of
             (Inl e, fs1) \<Rightarrow> (Inl e, fs1)
           | (Inr d, fs1) \<Rightarrow> cleanup_superseded give_up script_file episode ids gs (if d then Suc n else n) fs1))"

subsection \<open>Round trip of a record\<close>

lemma make_all_inverse: "(\<And>x. x \<in> set xs \<Longrightarrow> g (f x) = Inr x) \<Longrightarrow> make_all g (map f xs) = Inr xs"
  by (induction xs) auto

lemma cell_roundtrip: "cell_from_dict (cell_to_dict c) = Inr c"
  by (cases c) (simp add: cell_from_dict_def cell_to_dict_def subscript_def need_def row_get_def dict_get_or_def)

lemma reference_roundtrip: "reference_from_dict (reference_to_dict r) = Inr r"
  by (cases r) (simp add: reference_from_dict_def reference_to_dict_def subscript_def need_def dict_get_or_def)

lemma grid_roundtrip:
  assumes "gg_status g \<noteq> PStr ''splitting''" and "gg_reference_images g \<noteq> Some []"
  shows "grid_of_dict (grid_to_dict g) = Inr g"
proof -
  let ?d = "grid_to_dict g"
  have refs: "read_references ?d = Inr (gg_reference_images g)"
  proof (cases "gg_reference_images g")
    case None
    then show ?thesis by (simp add: read_references_def grid_to_dict_def row_get_def dict_get_or_def)
  next
    case (Some rs)
    with assms(2) obtain r rs' where rs: "gg_reference_images g = Some (r # rs')" by (cases rs) auto
    then have "row_get ?d ''reference_images'' = PList (map reference_to_dict (r # rs'))"
      by (simp add: grid_to_dict_def row_get_def dict_get_or_def)
    moreover have "make_all reference_from_dict (map reference_to_dict (r # rs')) = Inr (r # rs')"
      by (rule make_all_inverse) (rule reference_roundtrip)
    ultimately show ?thesis using rs by (simp add: read_references_def)
  qed
  have cells: "make_all cell_from_dict (map cell_to_dict (gg_frame_chain g)) = Inr (gg_frame_chain g)"
    by (rule make_all_inverse) (rule cell_roundtrip)
  have chain: "iterate_strict (dict_get_or ?d ''frame_chain'' (PList [])) = Inr (map cell_to_dict (gg_frame_chain g))"
    by (simp add: grid_to_dict_def dict_get_or_def)
  have get: "need ?d ''status'' = Inr (gg_status g)" "need ?d ''id'' = Inr (gg_id g)" "need ?d ''episode'' = Inr (gg_episode g)"
    "need ?d ''script_file'' = Inr (gg_script_file g)" "need ?d ''scene_ids'' = Inr (gg_scene_ids g)"
    "need ?d ''rows'' = Inr (gg_rows g)" "need ?d ''cols'' = Inr (gg_cols g)" "need ?d ''cell_count'' = Inr (gg_cell_count g)"
    "need ?d ''provider'' = Inr (gg_provider g)" "need ?d ''model'' = Inr (gg_model g)"
    "need ?d ''grid_size'' = Inr (gg_grid_size g)" "need ?d ''created_at'' = Inr (gg_created_at g)"
    by (simp_all add: need_def grid_to_dict_def)
  have opt: "row_get ?d ''grid_image_path'' = gg_grid_image_path g" "row_get ?d ''prompt'' = gg_prompt g"
    "row_get ?d ''error_message'' = gg_error_message g" "row_get ?d ''video_aspect_ratio'' = gg_video_aspect_ratio g"
    by (simp_all add: row_get_def dict_get_or_def grid_to_dict_def)
  have split_at: "read_split_at ?d (gg_status g) = Inr (gg_split_at g)"
    by (simp add: read_split_at_def has_key_def grid_to_dict_def row_get_def dict_get_or_def)
  have status: "read_status (gg_status g) = gg_status g" using assms(1) by (simp add: read_status_def)
  show ?thesis
    unfolding grid_of_dict_def by (simp add: get split_at chain cells refs opt status)
qed


subsection \<open>The store keeps its records\<close>

lemma fs_write_simps [simp]:
  "fs_read (fs_write p t fs) q = (if q = p then Some t else fs_read fs q)"
  "fs_exists (fs_write p t fs) q = (q = p \<or> fs_exists fs q)"
  by (simp_all add: fs_write_def)

lemma fs_unlink_simps [simp]:
  "fs_read (fs_unlink p fs) q = (if q = p then None else fs_read fs q)"
  "fs_exists (fs_unlink p fs) q = (q \<noteq> p \<and> fs_exists fs q)"
  by (simp_all add: fs_unlink_def)

lemma fs_restore_simps [simp]:
  "fs_read (fs_restore ps old fs) q = (if q \<in> set ps then fs_read old q else fs_read fs q)"
  "fs_exists (fs_restore ps old fs) q = (if q \<in> set ps then fs_exists old q else fs_exists fs q)"
  by (simp_all add: fs_restore_def)

definition storable :: "grid_generation \<Rightarrow> bool" where
  "storable g \<longleftrightarrow>
     json_ok (PDict (grid_to_dict g)) \<and> gg_status g \<noteq> PStr ''splitting'' \<and> gg_reference_images g \<noteq> Some []"

lemma stored_reads_back:
  assumes "fs_read fs p = Some (json_dumps (PDict (grid_to_dict g)))" and "storable g"
  shows "get_unlocked p fs = Inr (Some g)"
proof -
  have ok: "json_ok (PDict (grid_to_dict g))" and again: "grid_of_dict (grid_to_dict g) = Inr g"
    using assms(2) grid_roundtrip [of g] unfolding storable_def by blast+
  show ?thesis
    unfolding get_unlocked_def assms(1) option.case json_loads_dumps [OF ok] by (simp add: grid_from_json_def again)
qed

lemma grid_path_inj: "grid_path i s = Inr p \<Longrightarrow> grid_path j s = Inr p \<Longrightarrow> i = j"
  by (auto simp: grid_path_def split: pyval.splits if_splits)

lemma record_is_no_image:
  assumes "record_path i = Inr p" and "grid_path j ''.png'' = Inr q"
  shows "p \<noteq> q"
proof
  assume "p = q"
  then obtain a b where "a @ ''.json'' = b @ ''.png''"
    using assms by (auto simp: grid_path_def split: pyval.splits if_splits)
  then have "last (a @ ''.json'') = last (b @ ''.png'')" by simp
  then show False by simp
qed

text \<open>
  A record that was saved reads back as it was, and no other file of the project changes; an
  identifier that does not have the form of a grid identifier touches no file at all.
\<close>

theorem grid_saved_reads_back:
  assumes "save_grid None g fs = (r, fs')" and "storable g"
  shows "(case r of
            Inr _ \<Rightarrow> get_grid (gg_id g) fs' = Inr (Some g)
              \<and> (\<forall>q. record_path (gg_id g) \<noteq> Inr q \<longrightarrow> fs_read fs' q = fs_read fs q)
          | Inl _ \<Rightarrow> fs' = fs \<and> (\<forall>s. gg_id g = PStr s \<longrightarrow> \<not> grid_id_ok s))"
proof (cases "record_path (gg_id g)")
  case (Inl e)
  with assms(1) show ?thesis by (auto simp: save_grid_def grid_path_def split: if_splits)
next
  case (Inr p)
  then have e: "r = Inr ()" "fs' = fs_write p (json_dumps (PDict (grid_to_dict g))) fs"
    using assms(1) by (simp_all add: save_grid_def write_grid_def)
  have "get_unlocked p fs' = Inr (Some g)" by (rule stored_reads_back [OF _ assms(2)]) (simp add: e)
  then show ?thesis using Inr by (auto simp: e get_grid_def)
qed

text \<open>
  An update is all or nothing. Whatever fails in it, the reading, the change, the writing or
  the commit it carries, the record on disk is what it was before; when it succeeds with a record,
  the record reads back as the changed one as long as the commit leaves that file alone.
\<close>

theorem grid_update_all_or_nothing:
  assumes "update_grid refused mutate commit miss ignore grid_id fs = (r, fs')" and "record_path grid_id = Inr p"
    and "\<And>fs0. fs_read (snd (commit fs0)) p = fs_read fs0 p"
  shows "(case r of
            Inl _ \<Rightarrow> fs_read fs' p = fs_read fs p \<and> fs_exists fs' p = fs_exists fs p
          | Inr None \<Rightarrow> True
          | Inr (Some g') \<Rightarrow>
              (\<exists>g. get_grid grid_id fs = Inr (Some g) \<and> mutate g = Inr g')
              \<and> (storable g' \<longrightarrow> get_grid grid_id fs' = Inr (Some g')))"
proof -
  let ?b = "update_body refused mutate commit miss ignore p fs"
  have run: "formal_write_transaction [p] (update_body refused mutate commit miss ignore p) fs = (r, fs')"
    using assms(1,2) by (simp add: update_grid_def)
  show ?thesis
  proof (cases r)
    case (Inl e)
    with run show ?thesis by (auto simp: formal_write_transaction_def split: prod.splits sum.splits)
  next
    case (Inr o')
    with run have body: "?b = (Inr o', fs')"
      by (auto simp: formal_write_transaction_def split: prod.splits sum.splits)
    show ?thesis
    proof (cases o')
      case None
      with Inr show ?thesis by simp
    next
      case (Some g')
      with body obtain g fs1 where g: "get_unlocked p fs = Inr (Some g)" "mutate g = Inr g'"
        and w: "write_grid refused p g' fs = (Inr (), fs1)" "commit fs1 = (Inr (), fs')"
        by (auto simp: update_body_def Let_def split: sum.splits option.splits prod.splits if_splits)
      have "fs1 = fs_write p (json_dumps (PDict (grid_to_dict g'))) fs"
        using w(1) by (auto simp: write_grid_def split: option.splits)
      then have "fs_read fs' p = Some (json_dumps (PDict (grid_to_dict g')))"
        using assms(3) [of fs1] w(2) by simp
      with g stored_reads_back [of fs' p g'] Inr Some assms(2) show ?thesis by (auto simp: get_grid_def)
    qed
  qed
qed

lemma delete_keeps_other:
  assumes "delete_grid give_up j fs = (r, fs')" and "record_path i = Inr p" and "i \<noteq> j"
    and "\<And>h fs0. fs_read (snd (give_up h fs0)) p = fs_read fs0 p"
  shows "fs_read fs' p = fs_read fs p"
proof -
  consider (bad) "fs' = fs" | (run) q img where "record_path j = Inr q" "grid_path j ''.png'' = Inr img"
    using assms(1) by (cases "record_path j"; cases "grid_path j ''.png''") (auto simp: delete_grid_def)
  then show ?thesis
  proof cases
    case run
    have "p \<noteq> q" "p \<noteq> img"
      using assms(2,3) run grid_path_inj record_is_no_image by blast+
    with run assms(1) show ?thesis
      using assms(4) by (auto simp: delete_grid_def formal_write_transaction_def Let_def
        split: if_splits prod.splits sum.splits option.splits) (metis assms(4) fs_unlink_simps(1) snd_conv)+
  qed simp
qed

text \<open>
  Cleaning up the records a new generation supersedes never removes one that is still being
  generated, so the worker finds the record of its task.
\<close>

theorem cleanup_keeps_in_flight:
  assumes "cleanup_superseded give_up script episode ids gs n fs = (r, fs')" and "g \<in> set gs" and "distinct (map gg_id gs)"
    and "gg_status g \<in> {PStr ''pending'', PStr ''generating''}" and "record_path (gg_id g) = Inr p"
    and "\<And>h fs0. fs_read (snd (give_up h fs0)) p = fs_read fs0 p"
  shows "fs_read fs' p = fs_read fs p"
proof -
  have kept: "\<And>n fs. cleanup_superseded give_up script episode ids gs n fs = (r, fs')
      \<Longrightarrow> (\<And>h. h \<in> set gs \<Longrightarrow> gg_id h = gg_id g \<Longrightarrow> h = g) \<Longrightarrow> fs_read fs' p = fs_read fs p" for gs
  proof (induction gs)
    case Nil
    then show ?case by simp
  next
    case (Cons h gs)
    have tail: "\<And>h'. h' \<in> set gs \<Longrightarrow> gg_id h' = gg_id g \<Longrightarrow> h' = g" using Cons.prems(2) by simp
    show ?case
    proof (cases "superseded script episode ids h")
      case (Inl e)
      with Cons.prems(1) show ?thesis by simp
    next
      case (Inr b)
      show ?thesis
      proof (cases b)
        case False
        with Cons Inr tail show ?thesis by simp
      next
        case True
        then have "h \<noteq> g" using Inr assms(4) by (auto simp: superseded_def)
        then have other: "gg_id g \<noteq> gg_id h" using Cons.prems(2) [of h] by auto
        obtain d fs1 where d: "delete_grid give_up (gg_id h) fs = (d, fs1)" by fastforce
        have keep1: "fs_read fs1 p = fs_read fs p" by (rule delete_keeps_other [OF d assms(5) other assms(6)])
        show ?thesis
        proof (cases d)
          case (Inl e)
          with Cons.prems(1) Inr True d keep1 show ?thesis by simp
        next
          case (Inr x)
          with Cons.prems(1) \<open>superseded script episode ids h = Inr b\<close> True d
          have "cleanup_superseded give_up script episode ids gs (if x then Suc n else n) fs1 = (r, fs')" by simp
          from Cons.IH [OF this tail] keep1 show ?thesis by simp
        qed
      qed
    qed
  qed
  show ?thesis
    by (rule kept [OF assms(1)]) (use assms(2,3) in \<open>auto simp: distinct_map inj_on_def\<close>)
qed


text \<open>A new record for two scenes.\<close>

definition demo_grid :: grid_generation where
  "demo_grid = create_grid ''0123456789ab'' ''2026'' 1 ''e.json'' [''a'', ''b''] 2 2 ''grid_4'' ''p'' ''m'' ''9:16'' None"

lemma demo_grid_storable: "storable demo_grid"
  by code_simp

lemma demo_grid_path: "record_path (gg_id demo_grid) = Inr ''grids/grid_0123456789ab.json''"
  by code_simp

definition no_files :: project_fs where
  "no_files = \<lparr>fs_read = (\<lambda>_. None), fs_exists = (\<lambda>_. False)\<rparr>"

lemma grid_saved_reads_back_witness:
  "get_grid (gg_id demo_grid) (snd (save_grid None demo_grid no_files)) = Inr (Some demo_grid)"
proof -
  obtain r fs' where run: "save_grid None demo_grid no_files = (r, fs')" by fastforce
  moreover have "r = Inr ()" using run by (auto simp: save_grid_def demo_grid_path write_grid_def)
  ultimately show ?thesis using grid_saved_reads_back [OF run demo_grid_storable] by simp
qed

lemma grid_update_all_or_nothing_witness:
  "fs_read (snd (update_grid None (\<lambda>g. Inr (mark_composite_replaced g)) (\<lambda>fs. (Inl (RuntimeError ''x''), fs)) (\<lambda>fs. (Inr (), fs))
       False (gg_id demo_grid) (snd (save_grid None demo_grid no_files)))) ''grids/grid_0123456789ab.json''
     = Some (json_dumps (PDict (grid_to_dict demo_grid)))"
proof -
  let ?fs = "snd (save_grid None demo_grid no_files)"
  let ?commit = "\<lambda>fs :: project_fs. (Inl (RuntimeError ''x'') :: py_error + unit, fs)"
  obtain r fs' where run: "update_grid None (\<lambda>g. Inr (mark_composite_replaced g)) ?commit (\<lambda>fs. (Inr (), fs))
       False (gg_id demo_grid) ?fs = (r, fs')" by fastforce
  have start: "get_unlocked ''grids/grid_0123456789ab.json'' ?fs = Inr (Some demo_grid)"
    using grid_path_inj demo_grid_path demo_grid_storable
    by (intro stored_reads_back) (simp_all add: save_grid_def write_grid_def del: json_dumps.simps)
  have "\<exists>e. r = Inl e"
    using run start by (auto simp: update_grid_def demo_grid_path formal_write_transaction_def update_body_def write_grid_def)
  then obtain e where "r = Inl e" ..
  with grid_update_all_or_nothing [OF run demo_grid_path] have "fs_read fs' ''grids/grid_0123456789ab.json'' = fs_read ?fs ''grids/grid_0123456789ab.json''"
    by simp
  moreover have "fs_read ?fs ''grids/grid_0123456789ab.json'' = Some (json_dumps (PDict (grid_to_dict demo_grid)))"
    by (simp add: save_grid_def demo_grid_path write_grid_def del: json_dumps.simps)
  ultimately show ?thesis using run by (metis snd_conv)
qed

lemma cleanup_keeps_in_flight_witness:
  "fs_read (snd (cleanup_superseded (\<lambda>_ fs. (Inr (), fs)) ''e.json'' 1 [''a'', ''b''] [demo_grid] 0 no_files)) ''grids/grid_0123456789ab.json''
     = fs_read no_files ''grids/grid_0123456789ab.json''"
proof -
  obtain r fs' where run: "cleanup_superseded (\<lambda>_ fs. (Inr (), fs)) ''e.json'' 1 [''a'', ''b''] [demo_grid] 0 no_files = (r, fs')" by fastforce
  have "gg_status demo_grid \<in> {PStr ''pending'', PStr ''generating''}" by (simp add: demo_grid_def create_grid_def)
  from cleanup_keeps_in_flight [OF run _ _ this demo_grid_path]
  have "fs_read fs' ''grids/grid_0123456789ab.json'' = fs_read no_files ''grids/grid_0123456789ab.json''" by simp
  then show ?thesis unfolding run by simp
qed

end
