(* ===== verification/Project_Paths.thy ===== *)
theory Project_Paths
  imports Json_Roundtrip Script_Skeleton
begin

text \<open>
  Paths inside a project: the place of every resource (lib/resource_paths.py) and the one check
  that a path stays inside a directory (lib/path_safety.py). What the file system says is the
  record \<open>path_env\<close>: the resolution of symbolic links, which may fail, and the tests on files.
  Paths are POSIX paths.
\<close>

subsection \<open>Where resources are\<close>

record resource_pattern =
  rp_subdir :: string
  rp_extension :: string
  rp_prefix :: string

definition END_FRAME_RESOURCE_TYPE :: string where
  "END_FRAME_RESOURCE_TYPE = ''end_frames''"

definition PATTERNS :: "(string, resource_pattern) dict" where
  "PATTERNS =
     [(''storyboards'', \<lparr>rp_subdir = ''storyboards'', rp_extension = ''.png'', rp_prefix = ''scene_''\<rparr>),
      (''end_frames'', \<lparr>rp_subdir = ''end_frames'', rp_extension = ''.png'', rp_prefix = ''scene_''\<rparr>),
      (''videos'', \<lparr>rp_subdir = ''videos'', rp_extension = ''.mp4'', rp_prefix = ''scene_''\<rparr>),
      (''characters'', \<lparr>rp_subdir = ''characters'', rp_extension = ''.png'', rp_prefix = []\<rparr>),
      (''scenes'', \<lparr>rp_subdir = ''scenes'', rp_extension = ''.png'', rp_prefix = []\<rparr>),
      (''props'', \<lparr>rp_subdir = ''props'', rp_extension = ''.png'', rp_prefix = []\<rparr>),
      (''products'', \<lparr>rp_subdir = ''products'', rp_extension = ''.png'', rp_prefix = []\<rparr>),
      (''grids'', \<lparr>rp_subdir = ''grids'', rp_extension = ''.png'', rp_prefix = []\<rparr>),
      (''reference_videos'', \<lparr>rp_subdir = ''reference_videos'', rp_extension = ''.mp4'', rp_prefix = []\<rparr>),
      (''audio'', \<lparr>rp_subdir = ''audio'', rp_extension = ''.wav'', rp_prefix = ''segment_''\<rparr>)]"

definition pattern_of :: "string \<Rightarrow> py_error + resource_pattern" where
  "pattern_of t = (case dict_get PATTERNS t of None \<Rightarrow> Inl (ValueError ''unsupported resource type'') | Some p \<Rightarrow> Inr p)"

definition resource_relative_path :: "string \<Rightarrow> string \<Rightarrow> py_error + string" where
  "resource_relative_path t i =
     bind_e (pattern_of t) (\<lambda>p. Inr (rp_subdir p @ ''/'' @ rp_prefix p @ i @ rp_extension p))"

definition resource_extension :: "string \<Rightarrow> py_error + string" where
  "resource_extension t = bind_e (pattern_of t) (\<lambda>p. Inr (rp_extension p))"

subsection \<open>Staying inside a directory\<close>

record path_env =
  pe_realpath :: "string \<Rightarrow> string option"
  pe_isfile :: "string \<Rightarrow> bool"
  pe_exists :: "string \<Rightarrow> bool"
  pe_is_link :: "string \<Rightarrow> bool"

datatype path_error = RealpathFailed | PathTraversalError | FileNotFoundError | PathTypeError

fun starts_with :: "string \<Rightarrow> string \<Rightarrow> bool" where
  "starts_with [] s = True"
| "starts_with (c # p) [] = False"
| "starts_with (c # p) (d # s) = (c = d \<and> starts_with p s)"

definition ends_with_slash :: "string \<Rightarrow> bool" where
  "ends_with_slash s \<longleftrightarrow> s \<noteq> [] \<and> last s = CHR ''/''"

text \<open>\<open>os.path.join\<close>.\<close>

fun path_join :: "string \<Rightarrow> string list \<Rightarrow> string" where
  "path_join path [] = path"
| "path_join path (b # bs) =
     path_join (if starts_with ''/'' b then b else if path = [] \<or> ends_with_slash path then path @ b else path @ ''/'' @ b) bs"

record join_flags =
  jf_allow_base :: bool
  jf_must_exist :: bool
  jf_require_file :: bool

definition no_flags :: join_flags where
  "no_flags = \<lparr>jf_allow_base = False, jf_must_exist = False, jf_require_file = False\<rparr>"

definition base_prefix :: "string \<Rightarrow> string" where
  "base_prefix base_real = (if ends_with_slash base_real then base_real else base_real @ ''/'')"

definition safe_join :: "path_env \<Rightarrow> join_flags \<Rightarrow> string \<Rightarrow> pyval list \<Rightarrow> path_error + string" where
  "safe_join env flags base parts =
     (case pe_realpath env base of
        None \<Rightarrow> Inl RealpathFailed
      | Some base_real \<Rightarrow>
          if \<not> list_all is_str parts then Inl PathTypeError
          else
            (case pe_realpath env (path_join base_real (map id_text parts)) of
               None \<Rightarrow> Inl PathTraversalError
             | Some candidate \<Rightarrow>
                 if candidate = base_real \<and> \<not> jf_allow_base flags then Inl PathTraversalError
                 else if candidate \<noteq> base_real \<and> \<not> starts_with (base_prefix base_real) candidate then Inl PathTraversalError
                 else if jf_require_file flags \<and> \<not> pe_isfile env candidate then Inl FileNotFoundError
                 else if jf_must_exist flags \<and> \<not> pe_exists env candidate then Inl FileNotFoundError
                 else Inr candidate))"

definition try_safe_join :: "path_env \<Rightarrow> join_flags \<Rightarrow> string \<Rightarrow> pyval list \<Rightarrow> string option" where
  "try_safe_join env flags base parts = (case safe_join env flags base parts of Inl _ \<Rightarrow> None | Inr p \<Rightarrow> Some p)"

definition safe_resolve :: "path_env \<Rightarrow> string \<Rightarrow> pyval \<Rightarrow> string option" where
  "safe_resolve env base rel =
     (if \<not> pv_truthy rel then None else try_safe_join env (no_flags\<lparr>jf_require_file := True\<rparr>) base [rel])"

definition safe_exists :: "path_env \<Rightarrow> string \<Rightarrow> pyval \<Rightarrow> bool" where
  "safe_exists env base rel \<longleftrightarrow> safe_resolve env base rel \<noteq> None"

subsection \<open>Facts\<close>

lemma starts_with_iff: "starts_with p s \<longleftrightarrow> (\<exists>r. s = p @ r)"
  by (induction p s rule: starts_with.induct) auto

text \<open>
  Two resources never share a file: the path of a resource determines its type and its
  identifier, whatever characters the identifier has.
\<close>

theorem resource_path_determines_resource:
  assumes "resource_relative_path t i = Inr p" and "resource_relative_path u j = Inr p"
  shows "t = u \<and> i = j"
proof -
  obtain a where a: "dict_get PATTERNS t = Some a" "p = rp_subdir a @ ''/'' @ rp_prefix a @ i @ rp_extension a"
    using assms(1) by (auto simp: resource_relative_path_def pattern_of_def split: option.splits)
  obtain b where b: "dict_get PATTERNS u = Some b" "p = rp_subdir b @ ''/'' @ rp_prefix b @ j @ rp_extension b"
    using assms(2) by (auto simp: resource_relative_path_def pattern_of_def split: option.splits)
  have named: "rp_subdir c = k \<and> CHR ''/'' \<notin> set k" if "dict_get PATTERNS k = Some c" for k c
    using that by (auto simp: PATTERNS_def split: if_splits)
  have dir: "takeWhile (\<lambda>x. x \<noteq> CHR ''/'') (k @ ''/'' @ r) = k" if "CHR ''/'' \<notin> set k" for k r
    using that by (induction k) auto
  have "t = u" using named [OF a(1)] named [OF b(1)] dir a(2) b(2) by metis
  moreover from this a b have "i = j" by simp
  ultimately show ?thesis ..
qed

lemma resource_path_determines_resource_witness:
  "resource_relative_path ''scenes'' ''../x'' = Inr ''scenes/../x.png'' \<and> ''scenes'' = ''scenes'' \<and> ''../x'' = ''../x''"
proof -
  have "resource_relative_path ''scenes'' ''../x'' = Inr ''scenes/../x.png''" by code_simp
  with resource_path_determines_resource [OF this this] show ?thesis by simp
qed

definition inside :: "path_env \<Rightarrow> string \<Rightarrow> string \<Rightarrow> bool" where
  "inside env base p \<longleftrightarrow> (\<exists>b. pe_realpath env base = Some b \<and> (p = b \<or> starts_with (base_prefix b) p))"


text \<open>A file system without links, where a parent step was already taken.\<close>

definition plain_env :: path_env where
  "plain_env = \<lparr>pe_realpath = (\<lambda>p. Some p), pe_isfile = (\<lambda>_. True), pe_exists = (\<lambda>_. True), pe_is_link = (\<lambda>_. False)\<rparr>"


end
