(* ===== verification/Storyboard_Plan.thy ===== *)
theory Storyboard_Plan
  imports Project_Paths
begin

text \<open>
  The order of storyboards (lib/storyboard_sequence.py): the groups of scenes between segment
  breaks, the plan of the tasks with their dependencies, and the files a storyboard or a clip is
  made from. An item is a JSON object.
\<close>

subsection \<open>Items\<close>

text \<open>\<open>str(item.get(field) or "").strip()\<close>.\<close>

definition item_id :: "string \<Rightarrow> json_object \<Rightarrow> string" where
  "item_id f item = (let v = row_get item f in if pv_truthy v then str_strip (id_text v) else [])"

definition breaks :: "json_object \<Rightarrow> bool" where
  "breaks item = pv_truthy (row_get item ''segment_break'')"

definition find_storyboard_item :: "json_object list \<Rightarrow> string \<Rightarrow> string \<Rightarrow> (json_object \<times> nat) option" where
  "find_storyboard_item items f r =
     map_option (\<lambda>i. (items ! i, i)) (find (\<lambda>i. id_text (row_get (items ! i) f) = r) [0..<length items])"

subsection \<open>Groups and the dependency plan\<close>

fun group_loop :: "json_object list \<Rightarrow> json_object list \<Rightarrow> json_object list list" where
  "group_loop current [] = (if current = [] then [] else [current])"
| "group_loop current (item # items) =
     (if breaks item \<and> current \<noteq> [] then current # group_loop [item] items else group_loop (current @ [item]) items)"

definition group_scenes_by_segment_break :: "json_object list \<Rightarrow> json_object list list" where
  "group_scenes_by_segment_break items = group_loop [] items"

record storyboard_task_plan =
  sp_resource_id :: string
  sp_script_file :: "string option"
  sp_dependency :: "string option"
  sp_group :: string
  sp_index :: nat

definition group_name :: "string option \<Rightarrow> nat \<Rightarrow> string" where
  "group_name script n = or_str script ''storyboard'' @ '':group:'' @ nat_str n"

text \<open>The loop; \<open>prev\<close> is the identifier of the item before, selected or not.\<close>

fun plan_loop ::
  "string \<Rightarrow> string list \<Rightarrow> string option \<Rightarrow> string option \<Rightarrow> nat \<Rightarrow> nat \<Rightarrow> json_object list \<Rightarrow> storyboard_task_plan list" where
  "plan_loop f sel script prev n i [] = []"
| "plan_loop f sel script prev n i (item # items) =
     (let r = item_id f item; next_prev = (if r = [] then None else Some r)
      in if r = [] \<or> r \<notin> set sel then plan_loop f sel script next_prev n i items
         else
           (let starts = breaks item \<or> prev = None \<or> (case prev of None \<Rightarrow> False | Some p \<Rightarrow> p \<notin> set sel);
                n' = (if starts then Suc n else n); i' = (if starts then 0 else Suc i)
            in \<lparr>sp_resource_id = r, sp_script_file = script, sp_dependency = (if starts then None else prev),
                sp_group = group_name script n', sp_index = i'\<rparr>
               # plan_loop f sel script next_prev n' i' items))"

definition build_storyboard_dependency_plan ::
  "json_object list \<Rightarrow> string \<Rightarrow> string list \<Rightarrow> string option \<Rightarrow> storyboard_task_plan list" where
  "build_storyboard_dependency_plan items f selected script =
     (if selected = [] then [] else plan_loop f selected script None 0 0 items)"

subsection \<open>The files\<close>

datatype storyboard_error =
    InvalidStoryboardPath
  | StoryboardPathFailed path_error
  | StoryboardImageBindingRequired string
  | StoryboardImageUnavailable string
  | EndFrameImageUnavailable string
  | SceneNotFound string
  | StoryboardRaised py_error

definition lift_path :: "path_error + 'a \<Rightarrow> storyboard_error + 'a" where
  "lift_path r = map_sum StoryboardPathFailed id r"

fun to_slashes :: "string \<Rightarrow> string" where
  "to_slashes [] = []"
| "to_slashes (c # s) = (if c = CHR 0x5C then CHR ''/'' else c) # to_slashes s"

text \<open>\<open>file.relative_to(root)\<close> succeeds.\<close>

definition relative_to :: "string \<Rightarrow> string \<Rightarrow> bool" where
  "relative_to file directory \<longleftrightarrow> file = directory \<or> starts_with (base_prefix directory) file"

definition resolve_storyboard_image_ref :: "path_env \<Rightarrow> string \<Rightarrow> pyval \<Rightarrow> storyboard_error + string option" where
  "resolve_storyboard_image_ref env project rel =
     (case rel of
        PNone \<Rightarrow> Inr None
      | PStr s \<Rightarrow>
          if s = [] then Inr None
          else if starts_with ''/'' s \<or> starts_with ''/'' (to_slashes s) then Inl InvalidStoryboardPath
          else
            bind_e (lift_path (safe_join env (no_flags\<lparr>jf_allow_base := True\<rparr>) project [PStr ''storyboards''])) (\<lambda>boards.
              case try_safe_join env no_flags project [PStr s] of
                None \<Rightarrow> Inl InvalidStoryboardPath
              | Some file \<Rightarrow> if relative_to file boards then Inr (Some file) else Inl InvalidStoryboardPath)
      | _ \<Rightarrow> Inl InvalidStoryboardPath)"

fun link_on_path :: "path_env \<Rightarrow> string \<Rightarrow> string list \<Rightarrow> bool" where
  "link_on_path env path [] = False"
| "link_on_path env path (p # ps) =
     (let q = path_join path [p] in pe_is_link env q \<or> link_on_path env q ps)"

definition resolve_end_frame :: "path_env \<Rightarrow> string \<Rightarrow> string \<Rightarrow> pyval \<Rightarrow> storyboard_error + string option" where
  "resolve_end_frame env project r rel =
     (case rel of
        PNone \<Rightarrow> Inr None
      | PStr s \<Rightarrow>
          if s = [] then Inr None
          else
            (let normalized = to_slashes (str_strip s);
                 candidate = (if CHR ''/'' \<in> set normalized then normalized else END_FRAME_RESOURCE_TYPE @ ''/'' @ normalized)
             in bind_e (map_sum StoryboardRaised id (resource_relative_path END_FRAME_RESOURCE_TYPE r)) (\<lambda>expected_rel.
                  (let file = try_safe_join env no_flags project [PStr candidate]
                   in bind_e (lift_path (safe_join env no_flags project [PStr expected_rel])) (\<lambda>expected.
                        if file \<noteq> Some expected \<or> link_on_path env project (split_on (CHR ''/'') expected_rel)
                        then Inl (EndFrameImageUnavailable ''invalid path'')
                        else if \<not> pe_isfile env expected then Inl (EndFrameImageUnavailable ''not found'')
                        else Inr (Some expected)))))
      | _ \<Rightarrow> Inl (EndFrameImageUnavailable ''invalid path''))"

definition resolve_storyboard_video_inputs ::
  "path_env \<Rightarrow> string \<Rightarrow> string \<Rightarrow> json_object \<Rightarrow> storyboard_error + string \<times> string option" where
  "resolve_storyboard_video_inputs env project r item =
     bind_e (resolve_storyboard_image_ref env project (row_get (get_generated_assets item) ''storyboard_image'')) (\<lambda>board.
       case board of
         None \<Rightarrow> Inl (StoryboardImageBindingRequired r)
       | Some file \<Rightarrow>
           if \<not> pe_isfile env file then Inl (StoryboardImageUnavailable file)
           else bind_e (resolve_end_frame env project r (row_get item ''end_frame_image'')) (\<lambda>e. Inr (file, e)))"

definition resolve_previous_storyboard_path ::
  "path_env \<Rightarrow> string \<Rightarrow> json_object list \<Rightarrow> string \<Rightarrow> string \<Rightarrow> storyboard_error + string option" where
  "resolve_previous_storyboard_path env project items f r =
     (case find_storyboard_item items f r of
        None \<Rightarrow> Inl (SceneNotFound r)
      | Some (item, i) \<Rightarrow>
          if i = 0 \<or> breaks item then Inr None
          else
            (let previous = items ! (i - 1); rel = row_get (get_generated_assets previous) ''storyboard_image''
             in if item_id f previous = [] then Inr None
                else if rel = PNone \<or> rel = PStr [] then Inr None
                else bind_e (resolve_storyboard_image_ref env project rel) (\<lambda>p.
                       Inr (case p of None \<Rightarrow> None | Some q \<Rightarrow> if pe_isfile env q then Some q else None))))"

subsection \<open>Groups lose nothing\<close>

lemma concat_group_loop: "concat (group_loop current items) = current @ items"
  by (induction current items rule: group_loop.induct) auto

subsection \<open>The plan\<close>

lemma plan_loop_ids:
  "map sp_resource_id (plan_loop f sel script prev n i items)
     = filter (\<lambda>r. r \<noteq> [] \<and> r \<in> set sel) (map (item_id f) items)"
  by (induction f sel script prev n i items rule: plan_loop.induct) (auto simp: Let_def)

text \<open>
  What a plan says of its neighbour: \<open>before\<close> is the entry planned for the item right before, if
  there is one.
\<close>

definition chained :: "string option \<Rightarrow> nat \<Rightarrow> storyboard_task_plan option \<Rightarrow> storyboard_task_plan \<Rightarrow> bool" where
  "chained script n before p \<longleftrightarrow>
     (case sp_dependency p of
        None \<Rightarrow> sp_index p = 0 \<and> sp_group p = group_name script (Suc n)
      | Some d \<Rightarrow> (\<exists>b. before = Some b \<and> sp_resource_id b = d \<and> sp_group p = sp_group b \<and> sp_index p = Suc (sp_index b)))"

fun chain :: "string option \<Rightarrow> nat \<Rightarrow> storyboard_task_plan option \<Rightarrow> storyboard_task_plan list \<Rightarrow> bool" where
  "chain script n before [] = True"
| "chain script n before (p # ps) =
     (chained script n before p \<and> chain script (if sp_dependency p = None then Suc n else n) (Some p) ps)"

lemma plan_loop_chain:
  assumes "\<And>r. prev = Some r \<Longrightarrow> r \<in> set sel \<Longrightarrow>
      (\<exists>b. before = Some b \<and> sp_resource_id b = r \<and> sp_group b = group_name script n \<and> sp_index b = i)"
  shows "chain script n before (plan_loop f sel script prev n i items)"
  using assms
proof (induction items arbitrary: prev before n i)
  case Nil
  then show ?case by simp
next
  case (Cons item items)
  let ?r = "item_id f item"
  show ?case
  proof (cases "?r = [] \<or> ?r \<notin> set sel")
    case True
    then show ?thesis by (auto simp: Let_def intro!: Cons.IH)
  next
    case False
    define starts where "starts = (breaks item \<or> prev = None \<or> (case prev of None \<Rightarrow> False | Some p \<Rightarrow> p \<notin> set sel))"
    define n' where "n' = (if starts then Suc n else n)"
    define i' where "i' = (if starts then 0 else Suc i)"
    define p where "p = \<lparr>sp_resource_id = ?r, sp_script_file = script, sp_dependency = (if starts then None else prev),
                sp_group = group_name script n', sp_index = i'\<rparr>"
    have plan: "plan_loop f sel script prev n i (item # items) = p # plan_loop f sel script (Some ?r) n' i' items"
      using False by (simp add: Let_def p_def n'_def i'_def starts_def)
    have dep: "sp_dependency p = None \<longleftrightarrow> starts" by (cases prev) (auto simp: p_def starts_def)
    have head: "chained script n before p"
    proof (cases starts)
      case True
      then show ?thesis by (simp add: chained_def p_def n'_def i'_def)
    next
      case nostart: False
      then obtain r where r: "prev = Some r" "r \<in> set sel" by (cases prev) (auto simp: starts_def)
      with Cons.prems obtain b where "before = Some b" "sp_resource_id b = r" "sp_group b = group_name script n" "sp_index b = i"
        by blast
      with nostart r show ?thesis by (simp add: chained_def p_def n'_def i'_def)
    qed
    have "chain script n' (Some p) (plan_loop f sel script (Some ?r) n' i' items)"
      by (rule Cons.IH) (simp add: p_def)
    then show ?thesis using head unfolding plan by (simp add: dep n'_def)
  qed
qed

lemma chain_nth:
  assumes "chain script n before ps" and "k < length ps"
  shows "case sp_dependency (ps ! k) of
      None \<Rightarrow> sp_index (ps ! k) = 0
        \<and> sp_group (ps ! k) = group_name script (Suc (n + length (filter (\<lambda>p. sp_dependency p = None) (take k ps))))
    | Some d \<Rightarrow> (case (if k = 0 then before else Some (ps ! (k - 1))) of None \<Rightarrow> False
        | Some b \<Rightarrow> sp_resource_id b = d \<and> sp_group (ps ! k) = sp_group b \<and> sp_index (ps ! k) = Suc (sp_index b))"
  using assms
proof (induction ps arbitrary: n before k)
  case Nil
  then show ?case by simp
next
  case (Cons p ps)
  show ?case
  proof (cases k)
    case 0
    with Cons.prems show ?thesis by (auto simp: chained_def split: option.splits)
  next
    case (Suc j)
    with Cons.prems have "chain script (if sp_dependency p = None then Suc n else n) (Some p) ps" "j < length ps" by simp_all
    from Cons.IH [OF this] show ?thesis
      unfolding Suc by (cases j) (auto split: option.splits)
  qed
qed

text \<open>
  The plan has one task per selected scene, in the order of the script. A task depends on
  nothing exactly when it opens a group, with a name no task before it has; otherwise it depends
  on the task planned right before it, in whose group it is the next one. So a plan can be queued
  from left to right: what a task waits for is always queued already.
\<close>

theorem storyboard_plan_is_chained:
  assumes "plans = build_storyboard_dependency_plan items f selected script"
  shows "map sp_resource_id plans = filter (\<lambda>r. r \<noteq> [] \<and> r \<in> set selected) (map (item_id f) items)
    \<and> (\<forall>k < length plans.
          (case sp_dependency (plans ! k) of
             None \<Rightarrow> sp_index (plans ! k) = 0 \<and> sp_group (plans ! k) \<notin> sp_group ` set (take k plans)
           | Some d \<Rightarrow> 0 < k \<and> sp_resource_id (plans ! (k - 1)) = d \<and> sp_group (plans ! k) = sp_group (plans ! (k - 1))
               \<and> sp_index (plans ! k) = Suc (sp_index (plans ! (k - 1)))))"
proof (cases "selected = []")
  case True
  with assms show ?thesis by (simp add: build_storyboard_dependency_plan_def)
next
  case False
  then have plans: "plans = plan_loop f selected script None 0 0 items"
    using assms by (simp add: build_storyboard_dependency_plan_def)
  have ch: "chain script 0 None plans" unfolding plans by (rule plan_loop_chain) simp
  have name_inj: "group_name script a = group_name script b \<longleftrightarrow> a = b" for a b
    by (simp add: group_name_def) (metis str_nat_nat_str)
  let ?opened = "\<lambda>k. length (filter (\<lambda>p. sp_dependency p = None) (take k plans))"
  have names: "\<exists>m. m \<le> ?opened (Suc k) \<and> sp_group (plans ! k) = group_name script m" if "k < length plans" for k
    using that
  proof (induction k)
    case 0
    with chain_nth [OF ch 0] show ?case by (auto simp: take_Suc_conv_app_nth split: option.splits)
  next
    case (Suc k)
    then obtain m where m: "m \<le> ?opened (Suc k)" "sp_group (plans ! k) = group_name script m" by auto
    from chain_nth [OF ch Suc.prems] m Suc.prems show ?case
      by (cases "sp_dependency (plans ! Suc k)") (auto simp: take_Suc_conv_app_nth)
  qed
  have fresh: "sp_group (plans ! k) \<notin> sp_group ` set (take k plans)"
    if k: "k < length plans" "sp_dependency (plans ! k) = None" for k
  proof
    assume "sp_group (plans ! k) \<in> sp_group ` set (take k plans)"
    then obtain j where j: "j < k" "sp_group (plans ! k) = sp_group (plans ! j)"
      using k(1) by (auto simp: in_set_conv_nth)
    from names [of j] j(1) k(1) obtain m where m: "m \<le> ?opened (Suc j)" "sp_group (plans ! j) = group_name script m" by auto
    have "?opened (Suc j) \<le> ?opened k"
    proof -
      have "take k plans = take (Suc j) plans @ drop (Suc j) (take k plans)"
        using j(1) by (metis append_take_drop_id min.absorb1 Suc_leI take_take)
      then show ?thesis by (metis filter_append le_add1 length_append)
    qed
    moreover from chain_nth [OF ch k(1)] k(2) have "sp_group (plans ! k) = group_name script (Suc (?opened k))" by simp
    ultimately show False using m j(2) name_inj by auto
  qed
  have each: "case sp_dependency (plans ! k) of
             None \<Rightarrow> sp_index (plans ! k) = 0 \<and> sp_group (plans ! k) \<notin> sp_group ` set (take k plans)
           | Some d \<Rightarrow> 0 < k \<and> sp_resource_id (plans ! (k - 1)) = d \<and> sp_group (plans ! k) = sp_group (plans ! (k - 1))
               \<and> sp_index (plans ! k) = Suc (sp_index (plans ! (k - 1)))" if "k < length plans" for k
    using chain_nth [OF ch that] fresh [OF that] by (auto split: option.splits if_splits)
  show ?thesis using each plan_loop_ids [of f selected script None 0 0 items] unfolding plans by blast
qed


lemma storyboard_plan_is_chained_witness:
  "map sp_resource_id (build_storyboard_dependency_plan
       [[(''id'', PStr ''a'')], [(''id'', PStr ''b'')], [(''id'', PStr ''c''), (''segment_break'', PBool True)], [(''id'', PStr '' d '')]]
       ''id'' [''b'', ''c'', ''d''] None) = [''b'', ''c'', ''d'']"
proof -
  let ?items = "[[(''id'', PStr ''a'')], [(''id'', PStr ''b'')], [(''id'', PStr ''c''), (''segment_break'', PBool True)], [(''id'', PStr '' d '')]]"
  have "map (item_id ''id'') ?items = [''a'', ''b'', ''c'', ''d'']" by code_simp
  with storyboard_plan_is_chained [OF refl, of ?items "''id''" "[''b'', ''c'', ''d'']" None, THEN conjunct1] show ?thesis by simp
qed

subsection \<open>Dependency groups are segment groups\<close>

abbreviation numbered :: "json_object list list \<Rightarrow> nat list" where
  "numbered gs \<equiv> concat (map (\<lambda>g. [0..<length g]) gs)"

lemma numbered_group_loop:
  "current \<noteq> [] \<Longrightarrow> \<exists>rest. numbered (group_loop current items) = [0..<length current] @ rest"
proof (induction items arbitrary: current)
  case (Cons item items)
  show ?case
  proof (cases "breaks item")
    case True
    with Cons.prems show ?thesis by simp
  next
    case False
    from Cons.IH [of "current @ [item]"] False show ?thesis by auto
  qed
qed simp

lemma plan_loop_numbers:
  assumes "current \<noteq> []" and "length current = Suc i" and "r \<in> set sel"
    and "\<And>item. item \<in> set items \<Longrightarrow> item_id f item \<noteq> [] \<and> item_id f item \<in> set sel"
  shows "[0..<length current] @ map sp_index (plan_loop f sel script (Some r) n i items) = numbered (group_loop current items)"
  using assms
proof (induction items arbitrary: current i n r)
  case Nil
  then show ?case by simp
next
  case (Cons item items)
  let ?r = "item_id f item"
  have r: "?r \<noteq> []" "?r \<in> set sel" and rest: "\<And>x. x \<in> set items \<Longrightarrow> item_id f x \<noteq> [] \<and> item_id f x \<in> set sel"
    using Cons.prems(4) by auto
  show ?case
  proof (cases "breaks item")
    case True
    have "[0..<length [item]] @ map sp_index (plan_loop f sel script (Some ?r) (Suc n) 0 items) = numbered (group_loop [item] items)"
      by (rule Cons.IH) (use r rest in auto)
    then show ?thesis using True r Cons.prems(1) by (simp add: Let_def)
  next
    case False
    have "[0..<length (current @ [item])] @ map sp_index (plan_loop f sel script (Some ?r) n (Suc i) items)
        = numbered (group_loop (current @ [item]) items)"
      by (rule Cons.IH) (use r rest Cons.prems in auto)
    then show ?thesis using False r Cons.prems(2,3) by (simp add: Let_def)
  qed
qed



subsection \<open>The images stay in their directory\<close>

text \<open>
  Whatever a script from outside claims as the storyboard of a clip, the file that is used
  lies inside the directory of the storyboards and exists, and the end frame, if there is one, is
  the file of that resource and exists.
\<close>

theorem video_inputs_stay_inside:
  assumes "resolve_storyboard_video_inputs env project r item = Inr (board, end_frame)"
  shows "(\<exists>boards. safe_join env (no_flags\<lparr>jf_allow_base := True\<rparr>) project [PStr ''storyboards''] = Inr boards
        \<and> (board = boards \<or> starts_with (base_prefix boards) board))
    \<and> inside env project board \<and> pe_isfile env board
    \<and> (\<forall>e. end_frame = Some e \<longrightarrow> pe_isfile env e
        \<and> (\<exists>rel. resource_relative_path END_FRAME_RESOURCE_TYPE r = Inr rel \<and> safe_join env no_flags project [PStr rel] = Inr e))"
proof -
  let ?rel = "row_get (get_generated_assets item) ''storyboard_image''"
  have b: "resolve_storyboard_image_ref env project ?rel = Inr (Some board)" "pe_isfile env board"
    and e: "resolve_end_frame env project r (row_get item ''end_frame_image'') = Inr end_frame"
    using assms by (auto simp: resolve_storyboard_video_inputs_def bind_e_Inr_iff split: option.splits if_splits)
  obtain s boards where s: "safe_join env (no_flags\<lparr>jf_allow_base := True\<rparr>) project [PStr ''storyboards''] = Inr boards"
    "try_safe_join env no_flags project [PStr s] = Some board" "relative_to board boards"
    using b(1) by (auto simp: resolve_storyboard_image_ref_def lift_path_def bind_e_Inr_iff map_sum_Inr_iff
      split: pyval.splits if_splits option.splits)
  from s(2) have "safe_join env no_flags project [PStr s] = Inr board" by (auto simp: try_safe_join_def split: sum.splits)
  then have inside: "inside env project board"
    by (auto simp: safe_join_def inside_def split: option.splits if_splits)
  have "pe_isfile env x \<and> (\<exists>rel. resource_relative_path END_FRAME_RESOURCE_TYPE r = Inr rel \<and> safe_join env no_flags project [PStr rel] = Inr x)"
    if x: "end_frame = Some x" for x
    using e x by (auto simp: resolve_end_frame_def Let_def lift_path_def bind_e_Inr_iff map_sum_Inr_iff
      split: pyval.splits if_splits)
  with b(2) s(1,3) inside show ?thesis by (simp add: relative_to_def)
qed

lemma video_inputs_stay_inside_witness:
  "resolve_storyboard_video_inputs plain_env ''/p'' ''E1S1''
      [(''generated_assets'', PDict [(''storyboard_image'', PStr ''storyboards/scene_E1S1_first.png'')]),
       (''end_frame_image'', PStr ''scene_E1S1.png'')]
     = Inr (''/p/storyboards/scene_E1S1_first.png'', Some ''/p/end_frames/scene_E1S1.png'')
   \<and> inside plain_env ''/p'' ''/p/storyboards/scene_E1S1_first.png''"
proof -
  have run: "resolve_storyboard_video_inputs plain_env ''/p'' ''E1S1''
      [(''generated_assets'', PDict [(''storyboard_image'', PStr ''storyboards/scene_E1S1_first.png'')]),
       (''end_frame_image'', PStr ''scene_E1S1.png'')]
     = Inr (''/p/storyboards/scene_E1S1_first.png'', Some ''/p/end_frames/scene_E1S1.png'')"
    by code_simp
  from video_inputs_stay_inside [OF run, THEN conjunct2, THEN conjunct1] run show ?thesis by simp
qed

end
