(* ===== verification/Retry.thy ===== *)
theory Retry
  imports Prelude
begin

text \<open>
  Retrying an operation that may fail for a moment (lib/retry.py). An exception is the names of
  its classes with its text; the operation is a function on a state, so a call may do anything;
  the random part of a wait is a function of the attempt. Waiting itself and the log are left out:
  the waits are part of the answer.
\<close>

record exn =
  ex_classes :: "string list"
  ex_text :: string

abbreviation is_instance :: "exn \<Rightarrow> string \<Rightarrow> bool" where
  "is_instance e c \<equiv> c \<in> set (ex_classes e)"

definition BASE_RETRYABLE_ERRORS :: "string list" where
  "BASE_RETRYABLE_ERRORS = [''ConnectionError'', ''TimeoutError'']"

definition RETRYABLE_STATUS_PATTERNS :: "string list" where
  "RETRYABLE_STATUS_PATTERNS =
     [''429'', ''resource_exhausted'', ''500'', ''502'', ''503'', ''504'', ''internalservererror'', ''internal server error'',
      ''serviceunavailable'', ''service unavailable'', ''bad gateway'', ''gateway timeout'', ''timed out'', ''timeout'']"

definition DEFAULT_MAX_ATTEMPTS :: int where
  "DEFAULT_MAX_ATTEMPTS = 3"

definition DEFAULT_BACKOFF_SECONDS :: "int list" where
  "DEFAULT_BACKOFF_SECONDS = [2, 4, 8]"

definition DOWNLOAD_MAX_ATTEMPTS :: int where
  "DOWNLOAD_MAX_ATTEMPTS = 5"

definition DOWNLOAD_BACKOFF_SECONDS :: "int list" where
  "DOWNLOAD_BACKOFF_SECONDS = [5, 10, 20, 40]"

definition should_retry :: "string list \<Rightarrow> exn \<Rightarrow> bool" where
  "should_retry retryable e \<longleftrightarrow>
     \<not> is_instance e ''NonRetryableError''
     \<and> (list_ex (is_instance e) retryable
        \<or> list_ex (\<lambda>p. str_contains p (str_lower (ex_text e))) RETRYABLE_STATUS_PATTERNS)"

datatype retry_error = Raised exn | NoAttempt | BackoffIndexError

text \<open>Index \<open>-1\<close> of an empty tuple is an error, as is every other one.\<close>

definition compute_wait :: "nat \<Rightarrow> int list \<Rightarrow> (nat \<Rightarrow> rat) \<Rightarrow> retry_error + rat" where
  "compute_wait attempt backoff jitter =
     (if backoff = [] then Inl BackoffIndexError
      else Inr (of_int (backoff ! min attempt (length backoff - 1)) + jitter attempt))"

text \<open>\<open>except Exception\<close> lets what is no \<open>Exception\<close> (a cancellation) through.\<close>

definition gives_up :: "(exn \<Rightarrow> bool) \<Rightarrow> int \<Rightarrow> nat \<Rightarrow> exn \<Rightarrow> bool" where
  "gives_up predicate max_attempts attempt e \<longleftrightarrow>
     \<not> is_instance e ''Exception'' \<or> max_attempts - 1 \<le> int attempt \<or> is_instance e ''NonRetryableError'' \<or> \<not> predicate e"

fun retry_loop ::
  "(exn \<Rightarrow> bool) \<Rightarrow> int list \<Rightarrow> (nat \<Rightarrow> rat) \<Rightarrow> int \<Rightarrow> nat list \<Rightarrow> ('s \<Rightarrow> (exn + 'a) \<times> 's) \<Rightarrow> 's
     \<Rightarrow> (retry_error + 'a) \<times> rat list \<times> 's" where
  "retry_loop predicate backoff jitter max_attempts [] operation s = (Inl NoAttempt, [], s)"
| "retry_loop predicate backoff jitter max_attempts (a # as) operation s =
     (case operation s of
        (Inr x, s1) \<Rightarrow> (Inr x, [], s1)
      | (Inl e, s1) \<Rightarrow>
          if gives_up predicate max_attempts a e then (Inl (Raised e), [], s1)
          else
            (case compute_wait a backoff jitter of
               Inl err \<Rightarrow> (Inl err, [], s1)
             | Inr w \<Rightarrow>
                 (case retry_loop predicate backoff jitter max_attempts as operation s1 of
                    (r, ws, s2) \<Rightarrow> (r, w # ws, s2))))"

definition retry_async ::
  "int \<Rightarrow> int list \<Rightarrow> string list \<Rightarrow> (exn \<Rightarrow> bool) option \<Rightarrow> (nat \<Rightarrow> rat) \<Rightarrow> ('s \<Rightarrow> (exn + 'a) \<times> 's) \<Rightarrow> 's
     \<Rightarrow> (retry_error + 'a) \<times> rat list \<times> 's" where
  "retry_async max_attempts backoff retryable retry_if jitter operation s =
     retry_loop (case retry_if of None \<Rightarrow> should_retry retryable | Some p \<Rightarrow> p) backoff jitter max_attempts
       [0..<nat max_attempts] operation s"

text \<open>The decorator: the same, with its own message when there is nothing to attempt.\<close>

definition with_retry_async ::
  "int \<Rightarrow> int list \<Rightarrow> string list \<Rightarrow> (exn \<Rightarrow> bool) option \<Rightarrow> (nat \<Rightarrow> rat) \<Rightarrow> ('s \<Rightarrow> (exn + 'a) \<times> 's) \<Rightarrow> 's
     \<Rightarrow> (retry_error + 'a) \<times> rat list \<times> 's" where
  "with_retry_async max_attempts backoff retryable retry_if jitter operation s =
     (if max_attempts \<le> 0 then (Inl NoAttempt, [], s)
      else retry_async max_attempts backoff retryable
             (Some (case retry_if of None \<Rightarrow> should_retry retryable | Some p \<Rightarrow> p)) jitter operation s)"

subsection \<open>The attempts that are made\<close>

text \<open>The state after \<open>k\<close> calls, and what call number \<open>k\<close> gives.\<close>

definition after_calls :: "('s \<Rightarrow> (exn + 'a) \<times> 's) \<Rightarrow> nat \<Rightarrow> 's \<Rightarrow> 's" where
  "after_calls operation k s = ((\<lambda>t. snd (operation t)) ^^ k) s"

definition call :: "('s \<Rightarrow> (exn + 'a) \<times> 's) \<Rightarrow> nat \<Rightarrow> 's \<Rightarrow> exn + 'a" where
  "call operation k s = fst (operation (after_calls operation k s))"

lemma after_calls_0 [simp]: "after_calls operation 0 s = s"
  by (simp add: after_calls_def)

lemma after_calls_Suc: "after_calls operation (Suc k) s = after_calls operation k (snd (operation s))"
  unfolding after_calls_def by (simp only: funpow_Suc_right comp_apply)

lemma call_Suc: "call operation (Suc k) s = call operation k (snd (operation s))"
  by (simp add: call_def after_calls_Suc)

definition run_of ::
  "(exn \<Rightarrow> bool) \<Rightarrow> int list \<Rightarrow> (nat \<Rightarrow> rat) \<Rightarrow> int \<Rightarrow> nat \<Rightarrow> ('s \<Rightarrow> (exn + 'a) \<times> 's) \<Rightarrow> 's \<Rightarrow> nat
     \<Rightarrow> (retry_error + 'a) \<times> rat list \<times> 's \<Rightarrow> bool" where
  "run_of predicate backoff jitter max_attempts a operation s k res \<longleftrightarrow>
     (case res of (r, ws, s') \<Rightarrow>
        s' = after_calls operation (Suc k) s \<and> r = map_sum Raised id (call operation k s)
        \<and> ws = map (\<lambda>i. of_int (backoff ! min (a + i) (length backoff - 1)) + jitter (a + i)) [0..<k]
        \<and> (\<forall>i < k. \<exists>e. call operation i s = Inl e \<and> \<not> gives_up predicate max_attempts (a + i) e)
        \<and> (\<forall>e. call operation k s = Inl e \<longrightarrow> gives_up predicate max_attempts (a + k) e))"

lemma retry_loop_run:
  assumes "a < m" and "int m = max_attempts" and "backoff \<noteq> []"
  shows "\<exists>k. a + k < m \<and> run_of predicate backoff jitter max_attempts a operation s k
     (retry_loop predicate backoff jitter max_attempts [a..<m] operation s)"
  using assms(1)
proof (induction "m - a" arbitrary: a s)
  case 0
  then show ?case by simp
next
  case (Suc d)
  have upt: "[a..<m] = a # [Suc a..<m]" using Suc.prems by (simp add: upt_conv_Cons)
  obtain o1 s1 where op: "operation s = (o1, s1)" by fastforce
  show ?case
  proof (cases o1)
    case (Inr x)
    with op upt Suc.prems show ?thesis
      by (intro exI [of _ 0]) (simp add: run_of_def call_def after_calls_def)
  next
    case (Inl e)
    show ?thesis
    proof (cases "gives_up predicate max_attempts a e")
      case True
      with op upt Inl Suc.prems show ?thesis
        by (intro exI [of _ 0]) (simp add: run_of_def call_def after_calls_def)
    next
      case False
      then have "Suc a < m" using assms(2) by (simp add: gives_up_def)
      moreover have "d = m - Suc a" using Suc.hyps(2) by simp
      ultimately obtain k where k: "Suc a + k < m"
        "run_of predicate backoff jitter max_attempts (Suc a) operation s1 k
           (retry_loop predicate backoff jitter max_attempts [Suc a..<m] operation s1)"
        using Suc.hyps(1) [of "Suc a" s1] by blast
      obtain r ws s2 where rest: "retry_loop predicate backoff jitter max_attempts [Suc a..<m] operation s1 = (r, ws, s2)"
        by (rule prod_cases3)
      have step: "retry_loop predicate backoff jitter max_attempts [a..<m] operation s
          = (r, (of_int (backoff ! min a (length backoff - 1)) + jitter a) # ws, s2)"
        using op upt Inl False rest assms(3) by (simp add: compute_wait_def)
      have s1: "snd (operation s) = s1" using op by simp
      have r: "s2 = after_calls operation (Suc k) s1" "r = map_sum Raised id (call operation k s1)"
        "ws = map (\<lambda>i. of_int (backoff ! min (Suc a + i) (length backoff - 1)) + jitter (Suc a + i)) [0..<k]"
        "\<And>i. i < k \<Longrightarrow> \<exists>e. call operation i s1 = Inl e \<and> \<not> gives_up predicate max_attempts (Suc a + i) e"
        "\<And>e. call operation k s1 = Inl e \<Longrightarrow> gives_up predicate max_attempts (Suc a + k) e"
        using k(2) rest by (auto simp: run_of_def)
      have waits: "(of_int (backoff ! min a (length backoff - 1)) + jitter a) # ws
          = map (\<lambda>i. of_int (backoff ! min (a + i) (length backoff - 1)) + jitter (a + i)) [0..<Suc k]"
        unfolding r(3) map_upt_Suc by simp
      have earlier: "\<exists>e. call operation i s = Inl e \<and> \<not> gives_up predicate max_attempts (a + i) e" if "i < Suc k" for i
      proof (cases i)
        case 0
        with op Inl False show ?thesis by (simp add: call_def)
      next
        case (Suc j)
        with r(4) [of j] that s1 show ?thesis by (simp add: call_Suc)
      qed
      have "run_of predicate backoff jitter max_attempts a operation s (Suc k)
          (retry_loop predicate backoff jitter max_attempts [a..<m] operation s)"
        unfolding step run_of_def prod.case
        using r(1,2,5) waits earlier s1 by (simp add: call_Suc after_calls_Suc [of operation "Suc k" s])
      with k(1) show ?thesis by (intro exI [of _ "Suc k"]) simp
    qed
  qed
qed

text \<open>
  C27: A retried operation always comes to an end: after at least one and at most the configured
  number of calls it gives the outcome of the last call, every earlier call failed with an error
  that is worth another attempt, the calls stop at the first that is not, and between two calls it
  waits the configured time with its random part.
\<close>

theorem retry_ends_within_attempts:
  assumes "1 \<le> max_attempts" and "backoff \<noteq> []"
    and "retry_async max_attempts backoff retryable retry_if jitter operation s = (r, ws, s')"
  shows "\<exists>k. int k < max_attempts \<and> s' = after_calls operation (Suc k) s \<and> r = map_sum Raised id (call operation k s)
    \<and> length ws = k
    \<and> (\<forall>i < k. ws ! i = of_int (backoff ! min i (length backoff - 1)) + jitter i
         \<and> (\<exists>e. call operation i s = Inl e \<and> is_instance e ''Exception'' \<and> \<not> is_instance e ''NonRetryableError''
              \<and> (case retry_if of None \<Rightarrow> should_retry retryable e | Some p \<Rightarrow> p e)))
    \<and> (\<forall>e. call operation k s = Inl e \<longrightarrow>
         k + 1 = nat max_attempts \<or> \<not> is_instance e ''Exception'' \<or> is_instance e ''NonRetryableError''
         \<or> \<not> (case retry_if of None \<Rightarrow> should_retry retryable e | Some p \<Rightarrow> p e))"
proof -
  let ?p = "case retry_if of None \<Rightarrow> should_retry retryable | Some p \<Rightarrow> p"
  have p: "?p e = (case retry_if of None \<Rightarrow> should_retry retryable e | Some p \<Rightarrow> p e)" for e by (cases retry_if) simp_all
  have "0 < nat max_attempts" "int (nat max_attempts) = max_attempts" using assms(1) by simp_all
  from retry_loop_run [OF this assms(2), of ?p jitter operation s] obtain k where
    k: "k < nat max_attempts" "run_of ?p backoff jitter max_attempts 0 operation s k (r, ws, s')"
    using assms(3) unfolding retry_async_def by auto
  then have run: "s' = after_calls operation (Suc k) s" "r = map_sum Raised id (call operation k s)"
    "ws = map (\<lambda>i. of_int (backoff ! min i (length backoff - 1)) + jitter i) [0..<k]"
    "\<And>i. i < k \<Longrightarrow> \<exists>e. call operation i s = Inl e \<and> \<not> gives_up ?p max_attempts i e"
    "\<And>e. call operation k s = Inl e \<Longrightarrow> gives_up ?p max_attempts k e"
    by (auto simp: run_of_def)
  show ?thesis
  proof (rule exI [of _ k], intro conjI)
    show "int k < max_attempts" using k(1) by simp
    show "s' = after_calls operation (Suc k) s" "r = map_sum Raised id (call operation k s)" by (fact run)+
    show "length ws = k" by (simp add: run(3))
    show "\<forall>i < k. ws ! i = of_int (backoff ! min i (length backoff - 1)) + jitter i
         \<and> (\<exists>e. call operation i s = Inl e \<and> is_instance e ''Exception'' \<and> \<not> is_instance e ''NonRetryableError''
              \<and> (case retry_if of None \<Rightarrow> should_retry retryable e | Some p \<Rightarrow> p e))"
      using run(4) by (fastforce simp: run(3) gives_up_def p)
    show "\<forall>e. call operation k s = Inl e \<longrightarrow>
         k + 1 = nat max_attempts \<or> \<not> is_instance e ''Exception'' \<or> is_instance e ''NonRetryableError''
         \<or> \<not> (case retry_if of None \<Rightarrow> should_retry retryable e | Some p \<Rightarrow> p e)"
      using run(5) k(1) by (fastforce simp: gives_up_def p)
  qed
qed

text \<open>An operation that is overloaded twice and then answers.\<close>

definition busy :: exn where
  "busy = \<lparr>ex_classes = [''HTTPError'', ''Exception''], ex_text = ''503 Service Unavailable''\<rparr>"

lemma retry_ends_within_attempts_witness:
  "\<exists>k. int k < 3 \<and> (2 :: nat) = after_calls (\<lambda>n. (if n = 1 then Inr ''ok'' else Inl busy, Suc n)) (Suc k) 0 \<and> length [2 :: rat] = k"
proof -
  have "retry_async 3 [2, 4, 8] [] None (\<lambda>_. 0) (\<lambda>n :: nat. (if n = 1 then Inr ''ok'' else Inl busy, Suc n)) 0 = (Inr ''ok'', [2], 2)"
    by code_simp
  from retry_ends_within_attempts [OF _ _ this] show ?thesis by auto
qed

end
