(* ===== verification/Tenants.thy ===== *)
theory Tenants
  imports Project_Paths
begin

text \<open>
  Tenants: the identifiers and the context (lib/tenant_context.py), the directory of a tenant
  (lib/app_data_dir.py) and the workers, one per tenant (lib/worker_supervisor.py). A context is
  the tenant of the running code; a worker is a number, whether its start or stop fails is an
  argument; the cancel callbacks are those of the tenants' queues.
\<close>

subsection \<open>Identifiers and context\<close>

definition tenant_char :: "char \<Rightarrow> bool" where
  "tenant_char c \<longleftrightarrow> (let n = (of_char c :: nat) in
     (48 \<le> n \<and> n \<le> 57) \<or> (65 \<le> n \<and> n \<le> 90) \<or> (97 \<le> n \<and> n \<le> 122) \<or> n = 95 \<or> n = 45)"

text \<open>The dollar of the pattern also stands before one newline at the end.\<close>

definition is_valid_tenant :: "string \<Rightarrow> bool" where
  "is_valid_tenant s \<longleftrightarrow>
     (let core = (if s \<noteq> [] \<and> last s = CHR 0x0A then butlast s else s)
      in list_all tenant_char core \<and> 1 \<le> length core \<and> length core \<le> 64)"

definition invalid_tenant :: "string option \<Rightarrow> bool" where
  "invalid_tenant t = (case t of None \<Rightarrow> False | Some s \<Rightarrow> \<not> is_valid_tenant s)"

definition set_current_tenant :: "string option \<Rightarrow> string option" where
  "set_current_tenant t = (if invalid_tenant t then None else t)"

text \<open>The body runs with the tenant; what it leaves in the context is thrown away.\<close>

definition tenant_scope ::
  "string option \<Rightarrow> (string option \<times> 's \<Rightarrow> (py_error + 'a) \<times> string option \<times> 's) \<Rightarrow> string option \<times> 's
     \<Rightarrow> (py_error + 'a) \<times> string option \<times> 's" where
  "tenant_scope t body c =
     (if invalid_tenant t then (Inl (ValueError ''illegal tenant''), c)
      else (case body (t, snd c) of (r, _, s) \<Rightarrow> (r, fst c, s)))"

definition app_data_dir :: "string \<Rightarrow> string option \<Rightarrow> string" where
  "app_data_dir base t = (case t of None \<Rightarrow> base | Some s \<Rightarrow> path_join base [''tenants'', s])"

definition project_roots :: "string \<Rightarrow> string list \<Rightarrow> string list" where
  "project_roots root_dir entries =
     root_dir # map (\<lambda>d. path_join root_dir [''tenants'', d]) (sort (filter (\<lambda>d. \<not> starts_with ''.'' d) entries))"

definition discover_tenants :: "string list \<Rightarrow> string list" where
  "discover_tenants entries = sort (filter is_valid_tenant entries)"

subsection \<open>The supervisor\<close>

record supervisor =
  sv_workers :: "(string option, nat) dict"
  sv_callbacks :: "(string option, nat) dict"
  sv_next :: nat

definition empty_supervisor :: supervisor where
  "empty_supervisor = \<lparr>sv_workers = [], sv_callbacks = [], sv_next = 0\<rparr>"

definition ensure_started :: "(string option \<Rightarrow> py_error option) \<Rightarrow> string option \<Rightarrow> supervisor \<Rightarrow> (py_error + nat) \<times> supervisor" where
  "ensure_started start_fails t sv =
     (if invalid_tenant t then (Inl (ValueError ''illegal tenant''), sv)
      else
        (case dict_get (sv_workers sv) t of
           Some w \<Rightarrow> (Inr w, sv)
         | None \<Rightarrow>
             (let w = sv_next sv;
                  sv1 = sv\<lparr>sv_next := Suc w, sv_callbacks := dict_set (sv_callbacks sv) t w\<rparr>
              in case start_fails t of
                   Some e \<Rightarrow> (Inl e, sv1)
                 | None \<Rightarrow> (Inr w, sv1\<lparr>sv_workers := dict_set (sv_workers sv1) t w\<rparr>))))"

fun start_existing_tenants :: "(string option \<Rightarrow> py_error option) \<Rightarrow> string list \<Rightarrow> supervisor \<Rightarrow> supervisor" where
  "start_existing_tenants start_fails [] sv = sv"
| "start_existing_tenants start_fails (t # ts) sv =
     start_existing_tenants start_fails ts (snd (ensure_started start_fails (Some t) sv))"

text \<open>Every stop may fail; the callback is cleared all the same.\<close>

definition stop_all :: "supervisor \<Rightarrow> supervisor" where
  "stop_all sv =
     sv\<lparr>sv_workers := [], sv_callbacks := foldl (\<lambda>c p. dict_del c (fst p)) (sv_callbacks sv) (sv_workers sv)\<rparr>"

definition all_workers :: "supervisor \<Rightarrow> nat list" where
  "all_workers sv = map snd (sv_workers sv)"

subsection \<open>Tenant directories\<close>

lemma tenant_core:
  assumes "is_valid_tenant s"
  obtains core where "s = core \<or> s = core @ [CHR 0x0A]" "list_all tenant_char core" "core \<noteq> []"
proof (cases "s \<noteq> [] \<and> last s = CHR 0x0A")
  case True
  then have "s = butlast s @ [CHR 0x0A]" by (metis append_butlast_last_id)
  moreover have "list_all tenant_char (butlast s)" "1 \<le> length (butlast s)"
    using assms True unfolding is_valid_tenant_def Let_def by simp_all
  ultimately show thesis by (intro that [of "butlast s"]) auto
next
  case False
  with assms have "list_all tenant_char s" "1 \<le> length s" unfolding is_valid_tenant_def Let_def by auto
  then show thesis by (intro that [of s]) auto
qed

lemma tenant_char_plain: "\<not> tenant_char (CHR ''/'')" "\<not> tenant_char (CHR ''.'')"
  by code_simp+

lemma valid_tenant_plain:
  assumes "is_valid_tenant s"
  shows "CHR ''/'' \<notin> set s" and "CHR ''.'' \<notin> set s" and "s \<noteq> []"
proof -
  obtain core where core: "s = core \<or> s = core @ [CHR 0x0A]" "list_all tenant_char core" "core \<noteq> []"
    by (rule tenant_core [OF assms])
  then have "CHR ''/'' \<notin> set core" "CHR ''.'' \<notin> set core"
    using tenant_char_plain unfolding list_all_iff by blast+
  with core(1,3) show "CHR ''/'' \<notin> set s" and "CHR ''.'' \<notin> set s" and "s \<noteq> []" by auto
qed

lemma tenant_dir:
  assumes "is_valid_tenant s" and "base \<noteq> []" and "\<not> ends_with_slash base"
  shows "app_data_dir base (Some s) = base @ ''/tenants/'' @ s"
proof -
  have "\<not> starts_with ''/'' s" using valid_tenant_plain [OF assms(1)] by (cases s) auto
  with assms(2,3) show ?thesis by (simp add: app_data_dir_def ends_with_slash_def)
qed

text \<open>
  The data of two tenants never meets: the directories of two different valid tenants are
  different and neither lies inside the other, a tenant cannot leave the directory of the
  tenants, and a scope gives its caller back its own tenant whatever the body does.
\<close>

theorem tenants_are_apart:
  assumes "is_valid_tenant s" and "is_valid_tenant t" and "s \<noteq> t" and "base \<noteq> []" and "\<not> ends_with_slash base"
  shows "app_data_dir base (Some s) \<noteq> app_data_dir base (Some t)
    \<and> \<not> starts_with (app_data_dir base (Some s) @ ''/'') (app_data_dir base (Some t))
    \<and> split_on (CHR ''/'') (drop (length base + 9) (app_data_dir base (Some s))) = [s]
    \<and> s \<noteq> ''..'' \<and> fst (snd (tenant_scope (Some s) body c)) = fst c"
proof -
  note dirs = tenant_dir [OF assms(1,4,5)] tenant_dir [OF assms(2,4,5)]
  note plain = valid_tenant_plain [OF assms(1)] valid_tenant_plain [OF assms(2)]
  have one: "split_on (CHR ''/'') r = [r]" if "CHR ''/'' \<notin> set r" for r :: string
    using that by (induction r) auto
  have "\<not> starts_with (app_data_dir base (Some s) @ ''/'') (app_data_dir base (Some t))"
  proof
    assume "starts_with (app_data_dir base (Some s) @ ''/'') (app_data_dir base (Some t))"
    then obtain r where "t = s @ ''/'' @ r" unfolding dirs starts_with_iff by auto
    then show False using plain(4) by simp
  qed
  moreover have "app_data_dir base (Some s) \<noteq> app_data_dir base (Some t)" unfolding dirs using assms(3) by simp
  moreover have "split_on (CHR ''/'') (drop (length base + 9) (app_data_dir base (Some s))) = [s]"
    unfolding dirs using one [OF plain(1)] by simp
  moreover have "s \<noteq> ''..''" using plain(2) by auto
  moreover have "fst (snd (tenant_scope (Some s) body c)) = fst c"
    by (cases "body (Some s, snd c)") (auto simp: tenant_scope_def split: prod.splits)
  ultimately show ?thesis by blast
qed

lemma tenants_are_apart_witness:
  "app_data_dir ''/data'' (Some ''alice'') \<noteq> app_data_dir ''/data'' (Some ''bob-1'')"
  by (rule tenants_are_apart [where c = "(None, ())" and body = "\<lambda>c. (Inr (), c)", THEN conjunct1]) code_simp+

text \<open>
  The pattern accepts a newline at the end, which the comment on it excludes.
\<close>

lemma tenant_newline_accepted: "is_valid_tenant (''alice'' @ [CHR 0x0A])"
  by code_simp

subsection \<open>One worker per tenant\<close>

definition supervisor_ok :: "supervisor \<Rightarrow> bool" where
  "supervisor_ok sv \<longleftrightarrow>
     distinct (dict_keys (sv_workers sv)) \<and> distinct (map snd (sv_workers sv))
     \<and> (\<forall>t w. dict_get (sv_workers sv) t = Some w \<longrightarrow>
          \<not> invalid_tenant t \<and> w < sv_next sv \<and> dict_get (sv_callbacks sv) t = Some w)"

lemma map_snd_dict_set_new: "k \<notin> set (dict_keys d) \<Longrightarrow> map snd (dict_set d k v) = map snd d @ [v]"
  by (induction d k v rule: dict_set.induct) auto

lemma ensure_started_ok:
  assumes "supervisor_ok sv"
  shows "supervisor_ok (snd (ensure_started f t sv))"
proof (cases "invalid_tenant t \<or> dict_get (sv_workers sv) t \<noteq> None")
  case True
  with assms show ?thesis by (auto simp: ensure_started_def)
next
  case False
  then have new: "t \<notin> set (dict_keys (sv_workers sv))" "dict_get (sv_workers sv) t = None" "\<not> invalid_tenant t"
    by (auto simp: map_of_eq_None_iff image_image)
  have fresh: "sv_next sv \<notin> set (map snd (sv_workers sv))"
    using assms by (fastforce simp: supervisor_ok_def)
  show ?thesis
  proof (cases "f t")
    case (Some e)
    with new assms show ?thesis
      by (auto simp: ensure_started_def supervisor_ok_def Let_def intro: less_SucI)
  next
    case None
    with new fresh assms show ?thesis
      by (auto simp: ensure_started_def supervisor_ok_def Let_def map_snd_dict_set_new distinct_dict_set
          simp del: set_map intro: less_SucI)
  qed
qed

lemma ensure_started_keeps: "dict_get (sv_workers sv) u = Some w \<Longrightarrow> dict_get (sv_workers (snd (ensure_started f t sv))) u = Some w"
  by (auto simp: ensure_started_def Let_def split: option.splits)

lemma start_existing_keeps:
  "dict_get (sv_workers sv) u = Some w \<Longrightarrow> dict_get (sv_workers (start_existing_tenants f ts sv)) u = Some w"
  by (induction ts arbitrary: sv) (simp_all add: ensure_started_keeps)

text \<open>
  Starting the workers is idempotent and isolated: no tenant ever has two workers and no
  worker serves two tenants, every worker is the one its queue signals cancellations to, starting
  again gives the worker that runs, and a tenant whose worker cannot start keeps no other tenant
  from getting its own.
\<close>

theorem one_worker_per_tenant:
  assumes "supervisor_ok sv"
  shows "supervisor_ok (start_existing_tenants f ts sv)
    \<and> (\<forall>t. t \<in> set ts \<and> is_valid_tenant t \<and> f (Some t) = None \<longrightarrow>
         (\<exists>w. dict_get (sv_workers (start_existing_tenants f ts sv)) (Some t) = Some w
            \<and> ensure_started f (Some t) (start_existing_tenants f ts sv) = (Inr w, start_existing_tenants f ts sv)))"
proof -
  have ok: "supervisor_ok (start_existing_tenants f ts sv)"
    using assms by (induction ts arbitrary: sv) (simp_all add: ensure_started_ok)
  have started: "\<exists>w. dict_get (sv_workers (start_existing_tenants f ts sv)) (Some t) = Some w"
    if "t \<in> set ts" "is_valid_tenant t" "f (Some t) = None" for t
    using that
  proof (induction ts arbitrary: sv)
    case Nil
    then show ?case by simp
  next
    case (Cons u ts)
    show ?case
    proof (cases "t = u")
      case True
      have "\<exists>w. dict_get (sv_workers (snd (ensure_started f (Some t) sv))) (Some t) = Some w"
        using Cons.prems(2,3) by (auto simp: ensure_started_def invalid_tenant_def Let_def split: option.splits)
      with True start_existing_keeps show ?thesis by fastforce
    next
      case False
      with Cons show ?thesis by simp
    qed
  qed
  have again: "ensure_started f (Some t) sv' = (Inr w, sv')"
    if "is_valid_tenant t" "dict_get (sv_workers sv') (Some t) = Some w" for t w sv'
    using that by (simp add: ensure_started_def invalid_tenant_def)
  show ?thesis using ok started again by blast
qed

lemma one_worker_per_tenant_witness:
  "supervisor_ok (start_existing_tenants (\<lambda>t. if t = Some ''a'' then Some (RuntimeError ''x'') else None) [''a'', ''b'', ''b''] empty_supervisor)"
  by (rule one_worker_per_tenant [THEN conjunct1]) (simp add: supervisor_ok_def empty_supervisor_def)

lemma dict_get_dels: "dict_get (foldl (\<lambda>c p. dict_del c (fst p)) c ps) k = (if k \<in> fst ` set ps then None else dict_get c k)"
  by (induction ps arbitrary: c) auto

text \<open>
  After stopping, no worker and no callback of a running worker is left. A worker that failed to
  start was given its callback before and is not among the running ones, so its callback stays.
\<close>

lemma stop_all_clears:
  assumes "dict_get (sv_workers sv) t = Some w"
  shows "sv_workers (stop_all sv) = [] \<and> dict_get (sv_callbacks (stop_all sv)) t = None"
proof -
  have "t \<in> fst ` set (sv_workers sv)" using map_of_SomeD [OF assms] by force
  then show ?thesis by (simp add: stop_all_def dict_get_dels)
qed

lemma failed_start_leaves_callback:
  "let sv = stop_all (snd (ensure_started (\<lambda>_. Some (RuntimeError ''x'')) (Some ''a'') empty_supervisor))
   in dict_get (sv_callbacks sv) (Some ''a'') = Some 0 \<and> all_workers sv = []"
  by code_simp

end
