(* ===== verification/Matrix_Session.thy ===== *)
theory Matrix_Session
  imports Artifact_Key_Props Script_Review Tenants Aspect_Size
begin

text \<open>
  The session with the platform (lib/matrix_session.py): the signed cookie with its expiry.
  The keyed hash, the clock and the environment are arguments; the requests to the platform, what
  is done with its catalog, and the log are left out.
\<close>

subsection \<open>The signed cookie\<close>

record session_env =
  se_secret :: string
  se_mac :: "string \<Rightarrow> string \<Rightarrow> string"
  se_ttl :: string

definition session_signing_secret :: "session_env \<Rightarrow> py_error + string" where
  "session_signing_secret env =
     (let secret = str_strip (se_secret env)
      in if length secret < 32 then Inl (RuntimeError ''SESSION_COOKIE_SECRET'') else Inr secret)"

definition session_ttl_seconds :: "session_env \<Rightarrow> int" where
  "session_ttl_seconds env =
     (let raw = str_strip (se_ttl env)
      in max 60 (if raw = [] then 604800 else (case py_int raw of None \<Rightarrow> 604800 | Some n \<Rightarrow> n)))"

definition b64url_encode :: "string \<Rightarrow> string" where
  "b64url_encode raw = str_rstrip (\<lambda>c. c = CHR ''='') (b64encode raw)"

text \<open>
  \<open>urlsafe_b64decode\<close> skips what is not in the alphabet and stops at a complete padding; \<open>q\<close> is the
  position in the group of four, \<open>left\<close> the bits that wait, \<open>pads\<close> the padding seen.
\<close>

fun b64_lenient :: "nat \<Rightarrow> nat \<Rightarrow> nat \<Rightarrow> string \<Rightarrow> string option" where
  "b64_lenient q left pads [] = (if q = 0 then Some [] else None)"
| "b64_lenient q left pads (c # s) =
     (if c = CHR ''='' then
        (if 2 \<le> q \<and> 4 \<le> q + Suc pads then Some []
         else b64_lenient q left (if 2 \<le> q then Suc pads else pads) s)
      else
        (case char_sextet c of
           None \<Rightarrow> b64_lenient q left pads s
         | Some x \<Rightarrow>
             if q = 0 then b64_lenient 1 x 0 s
             else if q = 1 then map_option (\<lambda>r. char_of (left * 4 + x div 16) # r) (b64_lenient 2 (x mod 16) 0 s)
             else if q = 2 then map_option (\<lambda>r. char_of (left * 16 + x div 4) # r) (b64_lenient 3 (x mod 4) 0 s)
             else map_option (\<lambda>r. char_of (left * 64 + x) # r) (b64_lenient 0 0 0 s)))"

definition b64url_decode :: "string \<Rightarrow> string option" where
  "b64url_decode v = b64_lenient 0 0 0 (v @ b64_padding v)"

definition issue_session_cookie :: "session_env \<Rightarrow> int \<Rightarrow> string \<Rightarrow> string option \<Rightarrow> py_error + string" where
  "issue_session_cookie env now sub username =
     bind_e (session_signing_secret env) (\<lambda>secret.
       (let payload = PDict [(''exp'', PInt (now + session_ttl_seconds env)), (''name'', PStr (or_str username [])), (''sub'', PStr sub)];
            body = b64url_encode (canonical_json payload)
        in Inr (body @ ''.'' @ b64url_encode (se_mac env secret body))))"

text \<open>\<open>value.partition(".")\<close> of a text with a dot.\<close>

definition cookie_parts :: "string \<Rightarrow> string \<times> string" where
  "cookie_parts v = (takeWhile (\<lambda>c. c \<noteq> CHR ''.'') v, tl (dropWhile (\<lambda>c. c \<noteq> CHR ''.'') v))"

text \<open>\<open>int(x)\<close> of a float is its integral part, on the value the literal denotes.\<close>

definition float_trunc :: "string \<Rightarrow> int option" where
  "float_trunc t =
     (let neg = (case t of c # _ \<Rightarrow> c = CHR ''-'' | [] \<Rightarrow> False);
          u = (if neg then tl t else t);
          ip = takeWhile is_digit u; r1 = dropWhile is_digit u;
          fp = (case r1 of c # q \<Rightarrow> if c = CHR ''.'' then takeWhile is_digit q else [] | [] \<Rightarrow> []);
          r2 = (case r1 of c # q \<Rightarrow> if c = CHR ''.'' then dropWhile is_digit q else r1 | [] \<Rightarrow> []);
          ex = (case r2 of e # s # ds \<Rightarrow>
                  (if s = CHR ''-'' then - int (str_nat ds) else if s = CHR ''+'' then int (str_nat ds)
                   else int (str_nat (s # ds))) | _ \<Rightarrow> 0);
          m = int (str_nat (ip @ fp)); k = int (length fp) - ex;
          v = (if 0 \<le> k then m div 10 ^ nat k else m * 10 ^ nat (- k))
      in if ip = [] then None else Some (if neg then - v else v))"

text \<open>\<open>int(payload.get("exp", 0))\<close>.\<close>

definition exp_of :: "json_object \<Rightarrow> py_error + int" where
  "exp_of d =
     (case dict_get_or d ''exp'' (PInt 0) of
        PInt n \<Rightarrow> Inr n
      | PBool b \<Rightarrow> Inr (if b then 1 else 0)
      | PStr s \<Rightarrow> (case py_int s of None \<Rightarrow> Inl (ValueError ''int'') | Some n \<Rightarrow> Inr n)
      | PFloat t \<Rightarrow> (case float_trunc t of None \<Rightarrow> Inl (ValueError ''int'') | Some n \<Rightarrow> Inr n)
      | _ \<Rightarrow> Inl (TypeError ''int''))"

definition verify_session_cookie :: "session_env \<Rightarrow> int \<Rightarrow> string option \<Rightarrow> py_error + json_object option" where
  "verify_session_cookie env now value =
     (case value of
        None \<Rightarrow> Inr None
      | Some v \<Rightarrow>
          if CHR ''.'' \<notin> set v then Inr None
          else
            (case cookie_parts v of
               (body, sig) \<Rightarrow>
                 (case session_signing_secret env of
                    Inl _ \<Rightarrow> Inr None
                  | Inr secret \<Rightarrow>
                      if \<not> is_ascii body then Inl (ValueError ''UnicodeEncodeError'')
                      else if \<not> is_ascii sig then Inl (TypeError ''comparing strings with non-ASCII characters'')
                      else if b64url_encode (se_mac env secret body) \<noteq> sig then Inr None
                      else
                        (case b64url_decode body of
                           None \<Rightarrow> Inr None
                         | Some raw \<Rightarrow>
                             (case (if is_ascii raw then json_loads raw else None) of
                                Some (PDict d) \<Rightarrow>
                                  bind_e (exp_of d) (\<lambda>e. Inr (if e < now then None else Some d))
                              | _ \<Rightarrow> Inr None)))))"

subsection \<open>The round trip\<close>

lemma b64_lenient_encode: "b64_lenient 0 0 0 (b64encode s) = Some s"
  by (induction s rule: b64encode.induct) (simp_all add: Let_def sextet_low sextet_join)

lemma b64url_roundtrip: "b64url_decode (b64url_encode s) = Some s"
proof -
  obtain body k where b: "b64encode s = body @ replicate k (CHR ''='')" "CHR ''='' \<notin> set body"
    "k < 4" "(length body + k) mod 4 = 0" by (rule b64_shape)
  have "b64url_encode s = body"
    unfolding b64url_encode_def b(1)
  proof (rule str_rstrip_append)
    show "body = [] \<or> last body \<noteq> CHR ''=''" using b(2) by (metis last_in_set)
  qed (simp add: list_all_iff)
  moreover have "(4 - length body mod 4) mod 4 = k"
  proof (rule pad_count)
    show "(length body mod 4 + k) mod 4 = 0" using b(4) by (simp add: mod_simps)
  qed (use b(3) in simp_all)
  ultimately show ?thesis using b(1) b64_lenient_encode [of s] by (simp add: b64url_decode_def b64_padding_def)
qed

text \<open>Encoded text is ASCII and has no dot.\<close>

definition b64_letter :: "char \<Rightarrow> bool" where
  "b64_letter c \<longleftrightarrow> c = CHR ''='' \<or> char_sextet c \<noteq> None"

lemma b64_letter_plain: "b64_letter c \<Longrightarrow> (of_char c :: nat) < 128 \<and> c \<noteq> CHR ''.''"
  by (auto simp: b64_letter_def char_sextet_def Let_def split: if_splits)

lemma b64_letter_sextet: "n < 64 \<Longrightarrow> b64_letter (sextet_char n)"
  by (simp add: b64_letter_def)

lemma b64encode_letters: "list_all b64_letter (b64encode s)"
  by (induction s rule: b64encode.induct) (simp_all add: Let_def sextet_low b64_letter_sextet, simp_all add: b64_letter_def)

lemma b64url_encode_plain: "is_ascii (b64url_encode s)" "CHR ''.'' \<notin> set (b64url_encode s)"
proof -
  have "set (b64url_encode s) \<subseteq> set (b64encode s)"
    by (auto simp: b64url_encode_def str_rstrip_def dest: set_dropWhileD)
  then have "b64_letter c" if "c \<in> set (b64url_encode s)" for c
    using that b64encode_letters [of s] by (auto simp: list_all_iff)
  then show "is_ascii (b64url_encode s)" "CHR ''.'' \<notin> set (b64url_encode s)"
    using b64_letter_plain by (auto simp: is_ascii_def list_all_iff)
qed

abbreviation compact_member :: "string \<times> pyval \<Rightarrow> string" where
  "compact_member kv \<equiv> json_string (fst kv) @ '':'' @ json_dumps (snd kv)"

lemma parse_members_compact:
  assumes "kvs \<noteq> []" and "\<And>kv. kv \<in> set kvs \<Longrightarrow> reads_back (snd kv) \<and> json_ok (snd kv)"
    and "distinct (map fst (acc @ kvs))"
    and "Suc (length (join_with '','' (map compact_member kvs))) < n"
  shows "parse_members n acc (join_with '','' (map compact_member kvs) @ CHR ''}'' # rest) = Some (PDict (acc @ kvs), rest)"
  using assms
proof (induction kvs arbitrary: n acc)
  case (Cons kv kvs)
  obtain k v where kv: "kv = (k, v)" by (cases kv)
  from Cons.prems obtain m where n: "n = Suc m" by (cases n) auto
  have rb: "reads_back v" and ok: "json_ok v" using Cons.prems(2) [of kv] kv by auto
  have set: "dict_set acc k v = acc @ [(k, v)]" using Cons.prems(3) kv by (intro dict_set_fresh) auto
  have ps: "parse_string (concat (map json_escape k) @ CHR 0x22 # s) = Some (k, s)" for s by (rule parse_string_escaped)
  have sd: "skip_ws (json_dumps v @ s) = json_dumps v @ s" for s using ok by (rule skip_ws_dumps)
  show ?case
  proof (cases kvs)
    case Nil
    have "parse_value m (json_dumps v @ CHR ''}'' # rest) = Some (v, CHR ''}'' # rest)"
      using rb Cons.prems(4) n Nil kv by (simp add: reads_back_def json_string_def)
    with Nil n kv show ?thesis by (simp add: json_string_def ps set sd)
  next
    case (Cons w ws)
    let ?t = "join_with '','' (map compact_member kvs)"
    have split: "join_with '','' (map compact_member (kv # kvs)) = compact_member kv @ CHR '','' # ?t" using Cons by simp
    have pv: "parse_value m (json_dumps v @ CHR '','' # ?t @ CHR ''}'' # rest) = Some (v, CHR '','' # ?t @ CHR ''}'' # rest)"
      using rb Cons.prems(4) n split kv by (simp add: reads_back_def json_string_def)
    have sk: "skip_ws (?t @ CHR ''}'' # rest) = ?t @ CHR ''}'' # rest"
      using Cons by (cases ws) (simp_all add: skip_ws_def json_string_def is_ws_def)
    have ih: "parse_members m (acc @ [(k, v)]) (?t @ CHR ''}'' # rest) = Some (PDict ((acc @ [(k, v)]) @ kvs), rest)"
      using Cons.prems Cons n split kv by (intro Cons.IH) (auto simp: json_string_def)
    show ?thesis unfolding split n using pv sk ih kv by (simp add: json_string_def ps set sd)
  qed
qed simp

lemma loads_compact_object:
  assumes "kvs \<noteq> []" and "\<And>kv. kv \<in> set kvs \<Longrightarrow> json_ok (snd kv)" and "distinct (map fst kvs)"
  shows "json_loads (''{'' @ join_with '','' (map compact_member kvs) @ ''}'') = Some (PDict kvs)"
proof -
  let ?t = "join_with '','' (map compact_member kvs)"
  obtain r where r: "?t @ ''}'' = CHR 0x22 # r"
    using assms(1) by (cases kvs; cases "tl kvs") (auto simp: json_string_def)
  have e: "''{'' @ ?t @ ''}'' = CHR ''{'' # CHR 0x22 # r" using r by simp
  have len: "length (CHR 0x22 # r) = Suc (length ?t)" using r by (metis length_append_singleton)
  have "parse_members (Suc (Suc (length ?t))) [] (?t @ CHR ''}'' # []) = Some (PDict ([] @ kvs), [])"
    using assms json_dumps_reads_back by (intro parse_members_compact) auto
  then have "parse_members (Suc (length (CHR 0x22 # r))) [] (CHR 0x22 # r) = Some (PDict kvs, [])"
    using r len by simp
  then have "parse_value (Suc (length (CHR ''{'' # CHR 0x22 # r))) (CHR ''{'' # CHR 0x22 # r) = Some (PDict kvs, [])"
    by (simp add: skip_ws_def is_ws_def del: parse_members.simps)
  then show ?thesis unfolding e by (simp add: json_loads_def skip_ws_def is_ws_def del: parse_value.simps)
qed

subsection \<open>What an accepted cookie says\<close>

abbreviation session_payload :: "int \<Rightarrow> string \<Rightarrow> string \<Rightarrow> json_object" where
  "session_payload e name sub \<equiv> [(''exp'', PInt e), (''name'', PStr name), (''sub'', PStr sub)]"

lemma session_text: "canonical_json (PDict (session_payload e name sub))
    = ''{'' @ join_with '','' (map compact_member (session_payload e name sub)) @ ''}''"
  by (simp add: canonical_json_def)

lemma session_text_loads: "json_loads (canonical_json (PDict (session_payload e name sub))) = Some (PDict (session_payload e name sub))"
  unfolding session_text by (rule loads_compact_object) auto

lemma session_text_ascii:
  assumes "is_ascii name" and "is_ascii sub"
  shows "is_ascii (canonical_json (PDict (session_payload e name sub)))"
  using assms scalar_text_ascii [of "PInt e"] by (simp add: session_text json_string_ascii scalar_def scalar_ascii_def)

lemma cookie_parts_append: "CHR ''.'' \<notin> set body \<Longrightarrow> cookie_parts (body @ ''.'' @ sig) = (body, sig)"
  by (induction body) (auto simp: cookie_parts_def)

lemma cookie_parts_join: "CHR ''.'' \<in> set v \<Longrightarrow> cookie_parts v = (body, sig) \<Longrightarrow> v = body @ ''.'' @ sig"
  by (induction v arbitrary: body) (auto simp: cookie_parts_def split: if_splits)

lemma exp_of_payload: "exp_of (session_payload e name sub) = Inr e"
  by (simp add: exp_of_def dict_get_or_def)

text \<open>The cookie an issue makes, and what a check of it says.\<close>

abbreviation session_cookie :: "session_env \<Rightarrow> json_object \<Rightarrow> string" where
  "session_cookie env p \<equiv>
     (let body = b64url_encode (canonical_json (PDict p))
      in body @ ''.'' @ b64url_encode (se_mac env (str_strip (se_secret env)) body))"

lemma issued_cookie:
  assumes "32 \<le> length (str_strip (se_secret env))"
  shows "issue_session_cookie env now sub username
    = Inr (session_cookie env (session_payload (now + session_ttl_seconds env) (or_str username []) sub))"
  using assms unfolding issue_session_cookie_def session_signing_secret_def Let_def by simp

lemma checked_cookie:
  assumes "is_ascii sub" and "is_ascii name" and "32 \<le> length (str_strip (se_secret env))"
  shows "verify_session_cookie env later (Some (session_cookie env (session_payload e name sub)))
    = Inr (if later \<le> e then Some (session_payload e name sub) else None)"
proof -
  have sec: "session_signing_secret env = Inr (str_strip (se_secret env))"
    using assms(3) by (simp add: session_signing_secret_def)
  show ?thesis
    unfolding verify_session_cookie_def Let_def option.case cookie_parts_append [OF b64url_encode_plain(2)] prod.case
    using session_text_ascii [OF assms(2,1)] session_text_loads
    by (simp add: sec b64url_encode_plain(1) b64url_roundtrip exp_of_payload)
qed

text \<open>
  C28: A cookie signed for a user is accepted with exactly the data it was signed for until it
  expires, at least a minute later, and never afterwards.
\<close>
theorem session_roundtrip:
  assumes "is_ascii sub" and "is_ascii (or_str username [])" and "32 \<le> length (str_strip (se_secret env))"
  shows "\<exists>v. issue_session_cookie env now sub username = Inr v \<and> now + 60 \<le> now + session_ttl_seconds env
    \<and> (\<forall>later. verify_session_cookie env later (Some v)
          = Inr (if later \<le> now + session_ttl_seconds env
                 then Some [(''exp'', PInt (now + session_ttl_seconds env)), (''name'', PStr (or_str username [])), (''sub'', PStr sub)]
                 else None))"
proof -
  have "60 \<le> session_ttl_seconds env" by (simp add: session_ttl_seconds_def Let_def)
  then show ?thesis using issued_cookie [OF assms(3)] checked_cookie [OF assms] by auto
qed

text \<open>
  Whatever a browser sends, an accepted cookie carries the keyed hash of its body under a
  secret of at least 32 characters and has not expired.
\<close>
theorem session_sound:
  assumes "verify_session_cookie env now value = Inr (Some d)"
  shows "\<exists>body secret e. session_signing_secret env = Inr secret \<and> 32 \<le> length secret
    \<and> value = Some (body @ ''.'' @ b64url_encode (se_mac env secret body))
    \<and> map_option json_loads (b64url_decode body) = Some (Some (PDict d)) \<and> exp_of d = Inr e \<and> now \<le> e"
proof -
  obtain v where v: "value = Some v" "CHR ''.'' \<in> set v"
    using assms by (auto simp: verify_session_cookie_def split: option.splits if_splits)
  obtain body sig where bs: "cookie_parts v = (body, sig)" by fastforce
  obtain secret where sec: "session_signing_secret env = Inr secret"
    and r: "verify_session_cookie env now (Some v)
      = (if \<not> is_ascii body then Inl (ValueError ''UnicodeEncodeError'')
         else if \<not> is_ascii sig then Inl (TypeError ''comparing strings with non-ASCII characters'')
         else if b64url_encode (se_mac env secret body) \<noteq> sig then Inr None
         else case b64url_decode body of None \<Rightarrow> Inr None
           | Some raw \<Rightarrow> (case (if is_ascii raw then json_loads raw else None) of
               Some (PDict d) \<Rightarrow> bind_e (exp_of d) (\<lambda>e. Inr (if e < now then None else Some d)) | _ \<Rightarrow> Inr None))"
    using assms v bs by (cases "session_signing_secret env") (simp_all add: verify_session_cookie_def)
  have sig: "sig = b64url_encode (se_mac env secret body)" using assms v r by (auto split: if_splits)
  obtain raw where raw: "b64url_decode body = Some raw" "is_ascii raw"
    using assms v r by (cases "b64url_decode body") (auto split: if_splits)
  obtain d' where ld: "json_loads raw = Some (PDict d')"
    using assms v r raw by (cases "json_loads raw") (auto split: if_splits pyval.splits)
  obtain e where e: "exp_of d' = Inr e" "\<not> e < now" "d' = d"
    using assms v r raw ld by (cases "exp_of d'") (auto split: if_splits)
  have "32 \<le> length secret" using sec by (auto simp: session_signing_secret_def Let_def split: if_splits)
  then show ?thesis using sec sig v cookie_parts_join [OF v(2) bs] raw ld e by auto
qed

text \<open>A cookie with a character outside ASCII raises instead of being refused.\<close>

lemma non_ascii_cookie_raises:
  assumes "32 \<le> length (str_strip (se_secret env))" and "\<not> is_ascii body" and "CHR ''.'' \<notin> set body"
  shows "verify_session_cookie env now (Some (body @ ''.'' @ sig)) = Inl (ValueError ''UnicodeEncodeError'')"
  using assms cookie_parts_append [of body sig] by (simp add: verify_session_cookie_def session_signing_secret_def Let_def)

subsection \<open>Witnesses\<close>

definition demo_session :: session_env where
  "demo_session = \<lparr>se_secret = ''0123456789abcdef0123456789abcdef'', se_mac = (\<lambda>k s. take 8 (rev s)), se_ttl = ''3600''\<rparr>"

lemma session_roundtrip_witness:
  "\<exists>v. issue_session_cookie demo_session 1000 ''u-1'' None = Inr v \<and> verify_session_cookie demo_session 4601 (Some v) = Inr None"
proof -
  have t: "session_ttl_seconds demo_session = 3600" by code_simp
  have "32 \<le> length (str_strip (se_secret demo_session))" by code_simp
  then obtain v where "issue_session_cookie demo_session 1000 ''u-1'' None = Inr v"
    and "\<forall>later. verify_session_cookie demo_session later (Some v)
          = Inr (if later \<le> 1000 + session_ttl_seconds demo_session
                 then Some [(''exp'', PInt (1000 + session_ttl_seconds demo_session)), (''name'', PStr (or_str None [])), (''sub'', PStr ''u-1'')]
                 else None)"
    using session_roundtrip [of "''u-1''" None demo_session 1000] by (auto simp: or_str_def)
  then show ?thesis using t by auto
qed

lemma session_sound_witness:
  "\<exists>v. verify_session_cookie demo_session 4600 (Some v) = Inr (Some [(''exp'', PInt 4600), (''name'', PStr ''Ann''), (''sub'', PStr ''u-1'')])
     \<and> (\<exists>body. v = body @ ''.'' @ b64url_encode (take 8 (rev body)))"
proof -
  let ?p = "session_payload 4600 ''Ann'' ''u-1''"
  have "32 \<le> length (str_strip (se_secret demo_session))" by code_simp
  then have a: "verify_session_cookie demo_session 4600 (Some (session_cookie demo_session ?p)) = Inr (Some ?p)"
    using checked_cookie [of "''u-1''" "''Ann''" demo_session 4600 4600] by simp
  from session_sound [OF a] obtain body secret
    where "Some (session_cookie demo_session ?p) = Some (body @ ''.'' @ b64url_encode (se_mac demo_session secret body))"
    by blast
  then show ?thesis using a
    by (intro exI [of _ "session_cookie demo_session ?p"] conjI exI [of _ body]) (simp_all add: demo_session_def)
qed

end
