(* ===== verification/Capacity_Slots.thy ===== *)
theory Capacity_Slots
  imports Aspect_Size
begin

text \<open>
  The two tables of the generation worker (lib/generation_worker.py): the limits per provider and
  medium with the three ways they are loaded, and the ledger of occupied slots. The registry of
  providers, the stored configuration and the environment are arguments. A slot holds a handle of
  the running job; whether a job is finished is asked through a function. The interface
  \<open>slot_ledger\<close> states what the scheduler relies on.
\<close>

subsection \<open>Limits\<close>

record capacity_table =
  ct_limits :: "(string, (string, int) dict) dict"
  ct_defaults :: "(string, int) dict"

record provider_meta =
  pm_media_types :: "string list"
  pm_default_concurrency :: "(string, int) dict"

record custom_lanes =
  cl_provider_id :: string
  cl_media_types :: "string list"
  cl_image_max :: "int option"
  cl_video_max :: "int option"
  cl_audio_max :: "int option"

definition read_int_env :: "string option \<Rightarrow> int \<Rightarrow> int \<Rightarrow> int" where
  "read_int_env raw dflt minimum =
     (case raw of
        None \<Rightarrow> dflt
      | Some s \<Rightarrow> (case py_int s of None \<Rightarrow> dflt | Some n \<Rightarrow> max minimum n))"

definition parse_lane_max :: "(string, string) dict \<Rightarrow> string \<Rightarrow> int \<Rightarrow> int" where
  "parse_lane_max config key dflt =
     (case dict_get config key of
        None \<Rightarrow> dflt
      | Some raw \<Rightarrow> (case py_int raw of None \<Rightarrow> dflt | Some n \<Rightarrow> max 0 n))"

definition capacity_get :: "capacity_table \<Rightarrow> string \<Rightarrow> string \<Rightarrow> int" where
  "capacity_get c provider media =
     (case dict_get (ct_limits c) provider of
        None \<Rightarrow> dict_get_or (ct_defaults c) media 0
      | Some lanes \<Rightarrow> dict_get_or lanes media 0)"

definition replace_limits :: "(string, (string, int) dict) dict \<Rightarrow> capacity_table \<Rightarrow> capacity_table" where
  "replace_limits new c = c\<lparr>ct_limits := new\<rparr>"

definition lane_limits :: "string list \<Rightarrow> int \<Rightarrow> int \<Rightarrow> int \<Rightarrow> (string, int) dict" where
  "lane_limits media_types img video audio =
     [(''image'', if ''image'' \<in> set media_types then img else 0),
      (''video'', if ''video'' \<in> set media_types then video else 0),
      (''audio'', if ''audio'' \<in> set media_types then audio else 0)]"

definition lane_default :: "provider_meta \<Rightarrow> string \<Rightarrow> int \<Rightarrow> int" where
  "lane_default meta lane global_default = dict_get_or (pm_default_concurrency meta) lane global_default"

text \<open>The defaults of the three lanes, read from the environment.\<close>

record env_lanes =
  el_image :: "string option"
  el_video :: "string option"
  el_audio :: "string option"

definition image_default :: "env_lanes \<Rightarrow> int" where
  "image_default e = read_int_env (el_image e) 5 1"

definition video_default :: "env_lanes \<Rightarrow> int" where
  "video_default e = read_int_env (el_video e) 3 1"

definition audio_default :: "env_lanes \<Rightarrow> int" where
  "audio_default e = read_int_env (el_audio e) 10 1"

definition lane_defaults :: "env_lanes \<Rightarrow> (string, int) dict" where
  "lane_defaults e =
     [(''image'', image_default e), (''video'', video_default e), (''audio'', audio_default e), (''text'', 1)]"

definition capacity_from_env :: "env_lanes \<Rightarrow> (string, provider_meta) dict \<Rightarrow> capacity_table" where
  "capacity_from_env e registry =
     \<lparr>ct_limits = map (\<lambda>(pid, meta). (pid, lane_limits (pm_media_types meta)
         (lane_default meta ''image'' (image_default e)) (lane_default meta ''video'' (video_default e))
         (lane_default meta ''audio'' (audio_default e)))) registry,
      ct_defaults = lane_defaults e\<rparr>"

definition builtin_limits :: "env_lanes \<Rightarrow> (string, string) dict \<Rightarrow> provider_meta \<Rightarrow> (string, int) dict" where
  "builtin_limits e config meta =
     lane_limits (pm_media_types meta)
       (parse_lane_max config ''image_max_workers'' (lane_default meta ''image'' (image_default e)))
       (parse_lane_max config ''video_max_workers'' (lane_default meta ''video'' (video_default e)))
       (parse_lane_max config ''audio_max_workers'' (lane_default meta ''audio'' (audio_default e)))"

definition custom_limits :: "env_lanes \<Rightarrow> custom_lanes \<Rightarrow> (string, int) dict" where
  "custom_limits e c =
     lane_limits (cl_media_types c)
       (case cl_image_max c of None \<Rightarrow> image_default e | Some n \<Rightarrow> n)
       (case cl_video_max c of None \<Rightarrow> video_default e | Some n \<Rightarrow> n)
       (case cl_audio_max c of None \<Rightarrow> audio_default e | Some n \<Rightarrow> n)"

definition capacity_from_db ::
  "env_lanes \<Rightarrow> (string, provider_meta) dict \<Rightarrow> (string, (string, string) dict) dict \<Rightarrow> custom_lanes list \<Rightarrow> capacity_table" where
  "capacity_from_db e registry configs custom =
     \<lparr>ct_limits =
        foldl (\<lambda>d c. dict_set d (cl_provider_id c) (custom_limits e c))
          (foldl (\<lambda>d (pid, meta). dict_set d pid (builtin_limits e (dict_get_or configs pid []) meta)) [] registry)
          custom,
      ct_defaults = lane_defaults e\<rparr>"

subsection \<open>Slots\<close>

record 'f occupant =
  oc_task :: 'f
  oc_pending :: bool

type_synonym lane = "string \<times> string"
type_synonym 'f slot_table = "(lane, (string, 'f occupant) dict) dict"

definition bucket :: "'f slot_table \<Rightarrow> lane \<Rightarrow> (string, 'f occupant) dict" where
  "bucket s k = dict_get_or s k []"

definition register_slot :: "'f slot_table \<Rightarrow> lane \<Rightarrow> string \<Rightarrow> 'f occupant \<Rightarrow> 'f slot_table" where
  "register_slot s k tid oc = dict_set s k (dict_set (bucket s k) tid oc)"

definition promote :: "'f slot_table \<Rightarrow> lane \<Rightarrow> string \<Rightarrow> 'f slot_table" where
  "promote s k tid =
     (case dict_get s k of
        None \<Rightarrow> s
      | Some b \<Rightarrow> (case dict_get b tid of
                     None \<Rightarrow> s
                   | Some oc \<Rightarrow> dict_set s k (dict_set b tid (oc\<lparr>oc_pending := False\<rparr>))))"

text \<open>An emptied bucket is removed from the table.\<close>

definition put_bucket :: "'f slot_table \<Rightarrow> lane \<Rightarrow> (string, 'f occupant) dict \<Rightarrow> 'f slot_table" where
  "put_bucket s k b = (if b = [] then dict_del s k else dict_set s k b)"

definition release_slot :: "'f slot_table \<Rightarrow> lane \<Rightarrow> string \<Rightarrow> 'f slot_table" where
  "release_slot s k tid =
     (case dict_get s k of None \<Rightarrow> s | Some b \<Rightarrow> put_bucket s k (dict_del b tid))"

definition occupied :: "'f slot_table \<Rightarrow> lane \<Rightarrow> nat" where
  "occupied s k = length (bucket s k)"

definition has_room :: "'f slot_table \<Rightarrow> lane \<Rightarrow> int \<Rightarrow> bool" where
  "has_room s k capacity \<longleftrightarrow> 0 < capacity \<and> int (occupied s k) < capacity"

definition occupied_providers :: "'f slot_table \<Rightarrow> string \<Rightarrow> string list" where
  "occupied_providers s media = map (fst \<circ> fst) (filter (\<lambda>(k, b). snd k = media \<and> b \<noteq> []) s)"

fun find_by_task :: "'f slot_table \<Rightarrow> string \<Rightarrow> 'f option" where
  "find_by_task [] tid = None"
| "find_by_task ((k, b) # s) tid =
     (case dict_get b tid of Some oc \<Rightarrow> Some (oc_task oc) | None \<Rightarrow> find_by_task s tid)"

definition drainable :: "('f \<Rightarrow> bool) \<Rightarrow> 'f occupant \<Rightarrow> bool" where
  "drainable fin oc \<longleftrightarrow> \<not> oc_pending oc \<and> fin (oc_task oc)"

definition drain_finished :: "('f \<Rightarrow> bool) \<Rightarrow> 'f slot_table \<Rightarrow> (string \<times> 'f) list \<times> 'f slot_table" where
  "drain_finished fin s =
     (concat (map (\<lambda>(k, b). map (\<lambda>(t, oc). (t, oc_task oc)) (filter (\<lambda>(t, oc). drainable fin oc) b)) s),
      filter (\<lambda>(k, b). b \<noteq> []) (map (\<lambda>(k, b). (k, filter (\<lambda>(t, oc). \<not> drainable fin oc) b)) s))"

definition active_task_ids :: "'f slot_table \<Rightarrow> string list" where
  "active_task_ids s = concat (map (\<lambda>(k, b). dict_keys b) s)"

definition all_active_tasks :: "'f slot_table \<Rightarrow> 'f list" where
  "all_active_tasks s = concat (map (\<lambda>(k, b). map (oc_task \<circ> snd) b) s)"

text \<open>The providers whose slots of a medium are all taken; one without the lane is not listed.\<close>

definition pool_full_providers :: "capacity_table \<Rightarrow> 'f slot_table \<Rightarrow> string \<Rightarrow> string list" where
  "pool_full_providers c s media =
     filter (\<lambda>p. 0 < capacity_get c p media \<and> \<not> has_room s (p, media) (capacity_get c p media))
       (occupied_providers s media)"

subsection \<open>The ledger the scheduler relies on\<close>

locale slot_ledger =
  fixes ok :: "'s \<Rightarrow> bool"
    and view :: "'s \<Rightarrow> 'k \<Rightarrow> 't \<Rightarrow> 'o option"
    and taken :: "'s \<Rightarrow> 'k \<Rightarrow> nat"
    and put :: "'s \<Rightarrow> 'k \<Rightarrow> 't \<Rightarrow> 'o \<Rightarrow> 's"
    and drop_one :: "'s \<Rightarrow> 'k \<Rightarrow> 't \<Rightarrow> 's"
  assumes ok_put: "ok s \<Longrightarrow> ok (put s k t x)"
    and ok_drop: "ok s \<Longrightarrow> ok (drop_one s k t)"
    and view_put: "ok s \<Longrightarrow> view (put s k t x) k' t' = (if k' = k \<and> t' = t then Some x else view s k' t')"
    and view_drop: "ok s \<Longrightarrow> view (drop_one s k t) k' t' = (if k' = k \<and> t' = t then None else view s k' t')"
    and finite_view: "ok s \<Longrightarrow> finite {t. view s k t \<noteq> None}"
    and taken_card: "ok s \<Longrightarrow> taken s k = card {t. view s k t \<noteq> None}"
begin

lemma taken_put: "ok s \<Longrightarrow> taken (put s k t x) k' = (if k' = k \<and> view s k t = None then Suc (taken s k') else taken s k')"
proof -
  assume ok: "ok s"
  have "{t'. view (put s k t x) k' t' \<noteq> None}
      = (if k' = k then insert t {t'. view s k t' \<noteq> None} else {t'. view s k' t' \<noteq> None})"
    by (auto simp: view_put [OF ok])
  then show ?thesis
    using ok ok_put [OF ok] finite_view [OF ok, of k] by (auto simp: taken_card insert_absorb)
qed

lemma taken_drop: "ok s \<Longrightarrow> taken (drop_one s k t) k' \<le> taken s k'"
proof -
  assume ok: "ok s"
  have "{t'. view (drop_one s k t) k' t' \<noteq> None} \<subseteq> {t'. view s k' t' \<noteq> None}"
    by (auto simp: view_drop [OF ok])
  then show ?thesis
    using ok ok_drop [OF ok] finite_view [OF ok, of k'] by (auto simp: taken_card intro: card_mono)
qed

text \<open>A slot taken only while there is room keeps every lane within its bound.\<close>

lemma put_within:
  assumes "ok s" and "taken s k < cap k"
  shows "taken (put s k t x) k' \<le> max (taken s k') (cap k')"
  using assms by (auto simp: taken_put)

end

subsection \<open>The table of the code as a ledger\<close>

definition slots_ok :: "'f slot_table \<Rightarrow> bool" where
  "slots_ok s \<longleftrightarrow> distinct (dict_keys s) \<and> list_all (\<lambda>(k, b). b \<noteq> [] \<and> distinct (dict_keys b)) s"

definition slot_view :: "'f slot_table \<Rightarrow> lane \<Rightarrow> string \<Rightarrow> 'f occupant option" where
  "slot_view s k t = dict_get (bucket s k) t"

lemma slots_ok_bucket:
  assumes "slots_ok s"
  shows "distinct (dict_keys (bucket s k))"
proof (cases "dict_get s k")
  case (Some b)
  then have "(k, b) \<in> set s" by (rule map_of_SomeD)
  with assms Some show ?thesis by (auto simp: slots_ok_def list_all_iff bucket_def dict_get_or_def)
qed (simp add: bucket_def dict_get_or_def)

lemma slots_ok_get: "slots_ok s \<Longrightarrow> dict_get s k = Some b \<Longrightarrow> b \<noteq> [] \<and> distinct (dict_keys b)"
  by (auto simp: slots_ok_def list_all_iff dest: map_of_SomeD)

lemma dict_set_items: "set (dict_set d k v) \<subseteq> insert (k, v) (set d)"
  by (induction d k v rule: dict_set.induct) auto

lemma dict_set_not_Nil [simp]: "dict_set d k v \<noteq> []"
  by (induction d k v rule: dict_set.induct) auto

lemma slots_ok_set:
  assumes "slots_ok s" and "b \<noteq> []" and "distinct (dict_keys b)"
  shows "slots_ok (dict_set s k b)"
  using assms dict_set_items [of s k b] by (fastforce simp: slots_ok_def list_all_iff)

lemma distinct_dict_del: "distinct (dict_keys d) \<Longrightarrow> distinct (dict_keys (dict_del d k))"
  unfolding dict_del_def by (induction d) auto

lemma slots_ok_put_bucket:
  assumes "slots_ok s" and "distinct (dict_keys b)"
  shows "slots_ok (put_bucket s k b)"
proof (cases "b = []")
  case True
  have "distinct (dict_keys (dict_del s k))" using assms(1) by (intro distinct_dict_del) (simp add: slots_ok_def)
  with True assms(1) show ?thesis by (auto simp: put_bucket_def slots_ok_def list_all_iff dict_del_def)
next
  case False
  with assms show ?thesis by (simp add: put_bucket_def slots_ok_set)
qed

lemma bucket_set: "bucket (dict_set s k b) k' = (if k' = k then b else bucket s k')"
  by (simp add: bucket_def dict_get_or_def)

lemma bucket_put_bucket: "bucket (put_bucket s k b) k' = (if k' = k then b else bucket s k')"
  by (simp add: put_bucket_def bucket_set) (simp add: bucket_def dict_get_or_def)

lemma release_bucket: "bucket (release_slot s k t) k' = (if k' = k then dict_del (bucket s k) t else bucket s k')"
  by (cases "dict_get s k") (auto simp: release_slot_def bucket_put_bucket, auto simp: bucket_def dict_get_or_def dict_del_def)

lemma slots_ok_release: "slots_ok s \<Longrightarrow> slots_ok (release_slot s k t)"
  by (auto simp: release_slot_def split: option.splits dest: slots_ok_get intro!: slots_ok_put_bucket distinct_dict_del)

lemma slots_ok_register: "slots_ok s \<Longrightarrow> slots_ok (register_slot s k t oc)"
  unfolding register_slot_def by (intro slots_ok_set distinct_dict_set slots_ok_bucket) simp_all

lemma length_dict_dom: "distinct (dict_keys d) \<Longrightarrow> length d = card {t. dict_get d t \<noteq> None}"
proof -
  assume "distinct (dict_keys d)"
  then have "length d = card (set (dict_keys d))" using distinct_card by fastforce
  also have "set (dict_keys d) = {t. dict_get d t \<noteq> None}" by (auto simp: map_of_eq_None_iff)
  finally show ?thesis .
qed

lemma finite_dict_dom: "finite {t. dict_get d t \<noteq> None}"
  using finite_dom_map_of [of d] by (simp add: dom_def)

interpretation slots: slot_ledger slots_ok slot_view occupied register_slot release_slot
proof
  fix s :: "'f slot_table" and k k' t t' and x :: "'f occupant"
  assume ok: "slots_ok s"
  show "slots_ok (register_slot s k t x)" using ok by (rule slots_ok_register)
  show "slots_ok (release_slot s k t)" using ok by (rule slots_ok_release)
  show "slot_view (register_slot s k t x) k' t' = (if k' = k \<and> t' = t then Some x else slot_view s k' t')"
    by (auto simp: slot_view_def register_slot_def bucket_set)
  show "slot_view (release_slot s k t) k' t' = (if k' = k \<and> t' = t then None else slot_view s k' t')"
    by (auto simp: slot_view_def release_bucket)
  show "finite {t. slot_view s k t \<noteq> None}" unfolding slot_view_def by (rule finite_dict_dom)
  show "occupied s k = card {t. slot_view s k t \<noteq> None}"
    unfolding slot_view_def occupied_def using slots_ok_bucket [OF ok] by (rule length_dict_dom)
qed

lemma promote_shape:
  "promote s k t =
    (case slot_view s k t of
       None \<Rightarrow> s
     | Some oc \<Rightarrow> dict_set s k (dict_set (bucket s k) t (oc\<lparr>oc_pending := False\<rparr>)))"
proof (cases "dict_get s k")
  case (Some b)
  then have "bucket s k = b" by (simp add: bucket_def dict_get_or_def)
  with Some show ?thesis by (cases "dict_get b t") (simp_all add: promote_def slot_view_def)
qed (simp add: promote_def slot_view_def bucket_def dict_get_or_def)

lemma slots_ok_promote: "slots_ok s \<Longrightarrow> slots_ok (promote s k t)"
  unfolding promote_shape by (cases "slot_view s k t") (simp_all add: slots_ok_set slots_ok_bucket)

lemma promote_view:
  "slot_view (promote s k t) k' t' =
     (if k' = k \<and> t' = t then map_option (\<lambda>oc. oc\<lparr>oc_pending := False\<rparr>) (slot_view s k t) else slot_view s k' t')"
proof (cases "slot_view s k t")
  case None
  then show ?thesis by (simp add: promote_shape)
next
  case (Some oc)
  then have "slot_view (promote s k t) k' t' = dict_get (bucket (dict_set s k (dict_set (bucket s k) t (oc\<lparr>oc_pending := False\<rparr>))) k') t'"
    unfolding slot_view_def [of "promote s k t"] by (simp add: promote_shape)
  then show ?thesis using Some by (simp add: bucket_set slot_view_def)
qed

lemma dict_get_filter_map:
  "distinct (dict_keys s) \<Longrightarrow>
   dict_get (filter (\<lambda>(k, b). b \<noteq> []) (map (\<lambda>(k, b). (k, f b)) s)) k =
     (case dict_get s k of None \<Rightarrow> None | Some b \<Rightarrow> if f b = [] then None else Some (f b))"
proof (induction s)
  case (Cons kb s)
  then have "fst kb = k \<Longrightarrow> dict_get s k = None" by (auto simp: map_of_eq_None_iff)
  with Cons show ?case by (cases kb) auto
qed simp

lemma dict_get_filter_val:
  "distinct (dict_keys d) \<Longrightarrow>
   dict_get (filter (\<lambda>(t, oc). P oc) d) t = (case dict_get d t of None \<Rightarrow> None | Some oc \<Rightarrow> if P oc then Some oc else None)"
proof (induction d)
  case (Cons kb d)
  then have "fst kb = t \<Longrightarrow> dict_get d t = None" by (auto simp: map_of_eq_None_iff)
  with Cons show ?case by (cases kb) auto
qed simp

lemma drain_view:
  assumes "slots_ok s"
  shows "slot_view (snd (drain_finished fin s)) k t =
    (case slot_view s k t of None \<Rightarrow> None | Some oc \<Rightarrow> if drainable fin oc then None else Some oc)"
proof (cases "dict_get s k")
  case None
  with assms show ?thesis
    by (simp add: slot_view_def bucket_def dict_get_or_def drain_finished_def slots_ok_def dict_get_filter_map)
next
  case (Some b)
  have d: "distinct (dict_keys b)" using slots_ok_get [OF assms Some] by simp
  have "dict_get (bucket (snd (drain_finished fin s)) k) t = dict_get (filter (\<lambda>(t, oc). \<not> drainable fin oc) b) t"
    using assms Some by (simp add: bucket_def dict_get_or_def drain_finished_def slots_ok_def dict_get_filter_map)
  also have "\<dots> = (case dict_get b t of None \<Rightarrow> None | Some oc \<Rightarrow> if \<not> drainable fin oc then Some oc else None)"
    using d by (rule dict_get_filter_val)
  finally show ?thesis using Some by (auto simp: slot_view_def bucket_def dict_get_or_def split: option.splits)
qed

lemma distinct_keys_filter: "distinct (dict_keys d) \<Longrightarrow> distinct (dict_keys (filter P d))"
  by (induction d) auto

lemma slots_ok_drain:
  assumes "slots_ok s"
  shows "slots_ok (snd (drain_finished fin s))"
proof -
  let ?f = "\<lambda>(k, b). (k, filter (\<lambda>(t, oc). \<not> drainable fin oc) b)"
  have "dict_keys (map ?f s) = dict_keys s" by (induction s) (auto split: prod.splits)
  then have "distinct (dict_keys (map ?f s))" using assms unfolding slots_ok_def by (metis (no_types))
  then have "distinct (dict_keys (filter (\<lambda>(k, b). b \<noteq> []) (map ?f s)))"
    by (rule distinct_keys_filter)
  moreover have "list_all (\<lambda>(k, b). b \<noteq> [] \<and> distinct (dict_keys b)) (filter (\<lambda>(k, b). b \<noteq> []) (map ?f s))"
    using assms by (auto simp: slots_ok_def list_all_iff intro!: distinct_keys_filter)
  ultimately show ?thesis unfolding slots_ok_def drain_finished_def by simp
qed

lemma slot_view_mem:
  assumes "slots_ok s"
  shows "slot_view s k t = Some oc \<longleftrightarrow> (\<exists>b. (k, b) \<in> set s \<and> (t, oc) \<in> set b)"
proof
  assume "slot_view s k t = Some oc"
  then obtain b where "dict_get s k = Some b" "dict_get b t = Some oc"
    by (auto simp: slot_view_def bucket_def dict_get_or_def split: option.splits)
  then show "\<exists>b. (k, b) \<in> set s \<and> (t, oc) \<in> set b" by (blast dest: map_of_SomeD)
next
  assume "\<exists>b. (k, b) \<in> set s \<and> (t, oc) \<in> set b"
  then obtain b where b: "(k, b) \<in> set s" "(t, oc) \<in> set b" by blast
  have k: "dict_get s k = Some b" using assms b(1) by (simp add: slots_ok_def)
  then have "dict_get b t = Some oc" using slots_ok_get [OF assms k] b(2) by simp
  with k show "slot_view s k t = Some oc" by (simp add: slot_view_def bucket_def dict_get_or_def)
qed

lemma active_ids_view:
  assumes "slots_ok s"
  shows "t \<in> set (active_task_ids s) \<longleftrightarrow> (\<exists>k oc. slot_view s k t = Some oc)"
  unfolding slot_view_mem [OF assms] by (force simp: active_task_ids_def)

lemma find_by_task_None: "find_by_task s t = None \<longleftrightarrow> t \<notin> set (active_task_ids s)"
proof (induction s t rule: find_by_task.induct)
  case (2 k b s tid)
  have "tid \<in> set (dict_keys b) \<longleftrightarrow> dict_get b tid \<noteq> None" by (metis map_of_eq_None_iff set_map)
  with 2 show ?case by (cases "dict_get b tid") (simp_all add: active_task_ids_def)
qed (simp add: active_task_ids_def)

lemma drained_mem:
  "(t, f) \<in> set (fst (drain_finished fin s))
    \<longleftrightarrow> (\<exists>k b oc. (k, b) \<in> set s \<and> (t, oc) \<in> set b \<and> drainable fin oc \<and> oc_task oc = f)"
  by (force simp: drain_finished_def)

lemma occupied_providers_view:
  assumes "slots_ok s"
  shows "set (occupied_providers s m) = {p. \<exists>t oc. slot_view s (p, m) t = Some oc}"
proof -
  have "p \<in> set (occupied_providers s m) \<longleftrightarrow> (\<exists>b. ((p, m), b) \<in> set s \<and> b \<noteq> [])" for p
    by (force simp: occupied_providers_def)
  moreover have "(\<exists>b. ((p, m), b) \<in> set s \<and> b \<noteq> []) \<longleftrightarrow> (\<exists>t oc b. ((p, m), b) \<in> set s \<and> (t, oc) \<in> set b)" for p
    by (metis list.set_intros(1) neq_Nil_conv old.prod.exhaust empty_iff empty_set)
  ultimately show ?thesis unfolding slot_view_mem [OF assms] by blast
qed

text \<open>
  C29: The slot table behaves as a map from a lane and a task to its occupant: registering,
  promoting, releasing and draining change exactly the entry they name, the counts and the
  listings are those of the map, and a lane without occupants leaves no trace.
\<close>
theorem slot_table_refines:
  assumes "slots_ok s"
  shows "slots_ok (register_slot s k t oc) \<and> slots_ok (promote s k t) \<and> slots_ok (release_slot s k t) \<and> slots_ok (snd (drain_finished fin s))
    \<and> slot_view (register_slot s k t oc) = (slot_view s)(k := (slot_view s k)(t \<mapsto> oc))
    \<and> slot_view (promote s k t) = (slot_view s)(k := (slot_view s k)(t := map_option (\<lambda>x. x\<lparr>oc_pending := False\<rparr>) (slot_view s k t)))
    \<and> slot_view (release_slot s k t) = (slot_view s)(k := (slot_view s k)(t := None))
    \<and> slot_view (snd (drain_finished fin s)) = (\<lambda>k' t'. Option.bind (slot_view s k' t') (\<lambda>x. if drainable fin x then None else Some x))
    \<and> set (fst (drain_finished fin s)) = {(t', f). \<exists>k' x. slot_view s k' t' = Some x \<and> drainable fin x \<and> oc_task x = f}
    \<and> occupied s k = card (dom (slot_view s k)) \<and> (has_room s k c \<longleftrightarrow> 0 < c \<and> int (card (dom (slot_view s k))) < c)
    \<and> set (occupied_providers s m) = {p. dom (slot_view s (p, m)) \<noteq> {}}
    \<and> set (active_task_ids s) = (\<Union>k'. dom (slot_view s k')) \<and> (find_by_task s t = None \<longleftrightarrow> t \<notin> (\<Union>k'. dom (slot_view s k')))"
proof -
  have occ: "occupied s k = card (dom (slot_view s k))"
    using slots.taken_card [OF assms] by (simp add: dom_def)
  have act: "set (active_task_ids s) = (\<Union>k'. dom (slot_view s k'))"
    using active_ids_view [OF assms] by (simp add: set_eq_iff dom_def)
  have dr: "slot_view (snd (drain_finished fin s)) = (\<lambda>k' t'. Option.bind (slot_view s k' t') (\<lambda>x. if drainable fin x then None else Some x))"
    by (intro ext) (simp add: drain_view [OF assms] split: option.splits)
  have out: "set (fst (drain_finished fin s)) = {(t', f). \<exists>k' x. slot_view s k' t' = Some x \<and> drainable fin x \<and> oc_task x = f}"
    unfolding set_eq_iff slot_view_mem [OF assms] by (auto simp: drained_mem)
  have put: "slot_view (register_slot s k t oc) = (slot_view s)(k := (slot_view s k)(t \<mapsto> oc))"
    using slots.view_put [OF assms] by (simp add: fun_eq_iff)
  have prom: "slot_view (promote s k t) = (slot_view s)(k := (slot_view s k)(t := map_option (\<lambda>x. x\<lparr>oc_pending := False\<rparr>) (slot_view s k t)))"
    by (simp add: fun_eq_iff promote_view)
  have rel: "slot_view (release_slot s k t) = (slot_view s)(k := (slot_view s k)(t := None))"
    using slots.view_drop [OF assms] by (simp add: fun_eq_iff)
  have prov: "set (occupied_providers s m) = {p. dom (slot_view s (p, m)) \<noteq> {}}"
    unfolding occupied_providers_view [OF assms] by (auto simp: dom_def)
  show ?thesis
    by (intro conjI)
      (simp_all only: assms slots_ok_register slots_ok_promote slots_ok_release slots_ok_drain put prom rel dr out occ act prov has_room_def find_by_task_None simp_thms)
qed

lemma slot_table_refines_witness:
  "slot_view (snd (drain_finished (\<lambda>f. True)
      (register_slot (register_slot [] (''a'', ''video'') ''t1'' \<lparr>oc_task = 1 :: int, oc_pending = False\<rparr>)
        (''a'', ''video'') ''t2'' \<lparr>oc_task = 2, oc_pending = True\<rparr>))) (''a'', ''video'')
   = [''t2'' \<mapsto> \<lparr>oc_task = 2, oc_pending = True\<rparr>]"
proof -
  let ?s = "register_slot [] (''a'', ''video'') ''t1'' \<lparr>oc_task = 1 :: int, oc_pending = False\<rparr>"
  have ok: "slots_ok ?s" "slots_ok (register_slot ?s (''a'', ''video'') ''t2'' \<lparr>oc_task = 2, oc_pending = True\<rparr>)" by code_simp+
  have v: "slot_view ?s (''a'', ''video'') = [''t1'' \<mapsto> \<lparr>oc_task = 1 :: int, oc_pending = False\<rparr>]"
    by (simp add: slot_view_def register_slot_def bucket_def dict_get_or_def fun_eq_iff)
  from slot_table_refines [OF ok(1), of "(''a'', ''video'')" "''t2''" "\<lparr>oc_task = 2, oc_pending = True\<rparr>" "\<lambda>f. True" 0 "''x''"] v
  have w: "slot_view (register_slot ?s (''a'', ''video'') ''t2'' \<lparr>oc_task = 2, oc_pending = True\<rparr>) (''a'', ''video'')
      = [''t1'' \<mapsto> \<lparr>oc_task = 1, oc_pending = False\<rparr>, ''t2'' \<mapsto> \<lparr>oc_task = 2, oc_pending = True\<rparr>]" by simp
  show ?thesis by (simp add: drain_view [OF ok(2)] w fun_eq_iff drainable_def)
qed

end
