(* ===== verification/Generation_Worker.thy ===== *)
theory Generation_Worker
  imports Capacity_Slots Task_Queue_Props
begin

text \<open>
  The generation worker (lib/generation_worker.py) on the task tables and its slots: the claim
  pass over the lanes, the settlement of a finished job, the clean-up of orphans after a restart
  and one turn of the main loop. The resolution of a provider, the clocks, the outcome of a job
  and the reading of a stored checkpoint are arguments; a database that fails and the files of a
  cancelled job are left out. The claim loop runs on fuel, and one more than the number of tasks
  is enough.
\<close>

subsection \<open>The provider of a task\<close>

type_synonym task_dict = "(string, pyval) dict"

definition DEFAULT_PROVIDER :: string where
  "DEFAULT_PROVIDER = ''gemini-aistudio''"

definition NON_RESUMABLE_VIDEO_PROVIDERS :: "string list" where
  "NON_RESUMABLE_VIDEO_PROVIDERS = [''grok'', ''vidu'']"

definition text_at :: "task_dict \<Rightarrow> string \<Rightarrow> string" where
  "text_at t k = (case dict_get t k of Some (PStr s) \<Rightarrow> s | _ \<Rightarrow> [])"

definition is_video_type :: "task_dict \<Rightarrow> bool" where
  "is_video_type t \<longleftrightarrow> text_at t ''task_type'' \<in> {''video'', ''reference_video''}"

datatype resolve_kind = ResolveVideo | ResolveAudio | ResolveImage string

definition resolve_kind_of :: "task_dict \<Rightarrow> resolve_kind" where
  "resolve_kind_of t =
     (if text_at t ''media_type'' = ''video'' \<or> is_video_type t then ResolveVideo
      else if text_at t ''media_type'' = ''audio'' \<or> text_at t ''task_type'' = ''tts'' then ResolveAudio
      else ResolveImage (if text_at t ''task_type'' = ''image_edit'' then ''i2i'' else ''t2i''))"

definition routing_payload :: "task_dict \<Rightarrow> task_dict" where
  "routing_payload t =
     (let payload = (case dict_get t ''payload'' of Some (PDict d) \<Rightarrow> d | _ \<Rightarrow> [])
      in case dict_get t ''script_file'' of
           Some (PStr f) \<Rightarrow> if text_at t ''task_type'' = ''reference_video'' then dict_set payload ''script_file'' (PStr f) else payload
         | _ \<Rightarrow> payload)"

text \<open>Resolution may raise; then, and for an empty answer, the default is used.\<close>

definition extract_provider ::
  "(resolve_kind \<Rightarrow> task_dict \<Rightarrow> task_dict \<Rightarrow> py_error + string option) \<Rightarrow> task_dict \<Rightarrow> string" where
  "extract_provider resolve t =
     (if text_at t ''media_type'' = ''text'' then ''text''
      else (case resolve (resolve_kind_of t) t (routing_payload t) of
              Inl _ \<Rightarrow> DEFAULT_PROVIDER
            | Inr p \<Rightarrow> or_str p DEFAULT_PROVIDER))"

subsection \<open>The claim pass\<close>

datatype worker_job = ProcessJob task_dict "string option" | ResumeJob task_dict

record worker_env =
  we_capacity :: capacity_table
  we_project :: "task_dict \<Rightarrow> string"

definition requeue_single_task :: "string \<Rightarrow> int \<Rightarrow> queue_db \<Rightarrow> bool \<times> queue_db" where
  "requeue_single_task tid now db =
     (case update_task tid (\<lambda>r. status r = Running)
             (\<lambda>r. r\<lparr>status := Queued, started_at := None, updated_at := now\<rparr>) db of
        (n, db1) \<Rightarrow> if n = 0 then (False, db) else (True, db1))"

type_synonym claim_state = "bool \<times> worker_job slot_table \<times> queue_db"

definition claimed_job :: "task_dict \<Rightarrow> string \<Rightarrow> worker_job" where
  "claimed_job t p = ProcessJob t (if is_video_type t then Some p else None)"

text \<open>
  The loop over one lane. \<open>attempted\<close> are the tasks this pass has put back; \<open>None\<close> is running out
  of fuel.
\<close>

fun claim_lane :: "worker_env \<Rightarrow> int \<Rightarrow> string \<Rightarrow> nat \<Rightarrow> string list \<Rightarrow> claim_state \<Rightarrow> (py_error + claim_state) option" where
  "claim_lane env now media 0 attempted s = None"
| "claim_lane env now media (Suc fuel) attempted (claimed_any, slots, db) =
     (case claim_next media (Some (pool_full_providers (we_capacity env) slots media))
             (if attempted = [] then None else Some attempted) now db of
        (None, db1) \<Rightarrow> Some (Inr (claimed_any, slots, db1))
      | (Some t, db1) \<Rightarrow>
          (let tid = text_at t ''task_id''; p = we_project env t; cap = capacity_get (we_capacity env) p media
           in if cap \<le> 0 then
                (case bind_e (encode_failure ''provider_unsupported_media'' [(''provider_id'', PStr p), (''media_type'', PStr media)])
                        (\<lambda>msg. mark_failed tid msg now db1) of
                   Inl e \<Rightarrow> Some (Inl e)
                 | Inr (_, db2) \<Rightarrow> claim_lane env now media fuel attempted (True, slots, db2))
              else if \<not> has_room slots (p, media) cap then
                (case requeue_single_task tid now (persist_execution_provider_id tid p now db1) of
                   (_, db2) \<Rightarrow>
                     if is_video_type t then claim_lane env now media fuel (tid # attempted) (claimed_any, slots, db2)
                     else Some (Inr (claimed_any, slots, db2)))
              else
                (case register_slot slots (p, media) tid \<lparr>oc_task = claimed_job t p, oc_pending = False\<rparr> of
                   slots1 \<Rightarrow>
                     if media = ''text'' then Some (Inr (True, slots1, db1))
                     else claim_lane env now media fuel attempted (True, slots1, db1))))"

fun claim_lanes :: "worker_env \<Rightarrow> int \<Rightarrow> string list \<Rightarrow> claim_state \<Rightarrow> (py_error + claim_state) option" where
  "claim_lanes env now [] s = Some (Inr s)"
| "claim_lanes env now (media # lanes) s =
     (case claim_lane env now media (Suc (length (tasks (snd (snd s))))) [] s of
        None \<Rightarrow> None
      | Some (Inl e) \<Rightarrow> Some (Inl e)
      | Some (Inr s1) \<Rightarrow> claim_lanes env now lanes s1)"

definition worker_lanes :: "string list" where
  "worker_lanes = [''image'', ''video'', ''audio'', ''text'']"

definition claim_tasks :: "worker_env \<Rightarrow> int \<Rightarrow> worker_job slot_table \<Rightarrow> queue_db \<Rightarrow> (py_error + claim_state) option" where
  "claim_tasks env now slots db = claim_lanes env now worker_lanes (False, slots, db)"

subsection \<open>What one operation changes\<close>

lemma claim_next_cases:
  assumes ids: "ids_distinct db"
  obtains (none) "claim_next media pool excl now db = (None, db)"
    | (some) r db1 where "find_task (tasks db) (task_id r) = Some r" "claimable media pool excl db r"
      "claim_next media pool excl now db = (Some (task_to_dict (r\<lparr>status := Running, started_at := Some now, updated_at := now\<rparr>)), db1)"
      "find_task (tasks db1) (task_id r) = Some (r\<lparr>status := Running, started_at := Some now, updated_at := now\<rparr>)"
      "\<forall>j. j \<noteq> task_id r \<longrightarrow> find_task (tasks db1) j = find_task (tasks db) j" "ids_distinct db1"
      "length (tasks db1) = length (tasks db)"
proof (cases "claim_select media pool excl db")
  case None
  then show ?thesis by (intro none) (simp add: claim_next_def)
next
  case (Some tid)
  then obtain r where r: "r \<in> set (tasks db)" "claimable media pool excl db r" "task_id r = tid"
    by (rule claim_select_least)
  have found: "find_task (tasks db) tid = Some r" using find_task_in [OF ids r(1)] r(3) by simp
  from ids show ?thesis
  proof (cases rule: claim_update_cases [of db tid now])
    case miss
    with found r(2) show ?thesis by (simp add: claimable_def)
  next
    case (hit x db1)
    have m: "map task_id (tasks db1) = map task_id (tasks db)"
      using moves_ids [OF claim_update_moves [OF ids, of tid now]] hit by simp
    then have "ids_distinct db1" "length (tasks db1) = length (tasks db)"
      using ids by (simp, metis length_map)
    with hit found r Some show ?thesis by (intro some [of r db1]) (auto simp: claim_next_def)
  qed
qed

lemma task_dict_id [simp]: "text_at (task_to_dict r) ''task_id'' = task_id r"
  by (simp add: text_at_def task_to_dict_def)

text \<open>Rows that are not queued are left alone by the failure of others.\<close>

definition spares :: "queue_db \<Rightarrow> queue_db \<Rightarrow> bool" where
  "spares db db' \<longleftrightarrow>
     (\<forall>i r. find_task (tasks db) i = Some r \<longrightarrow> status r \<noteq> Queued \<longrightarrow> find_task (tasks db') i = Some r)"

lemma spares_refl [simp]: "spares db db"
  by (simp add: spares_def)

lemma spares_trans: "spares a b \<Longrightarrow> spares b c \<Longrightarrow> spares a c"
  unfolding spares_def by blast

interpretation spared: state_preorder "\<lambda>s t :: nat \<times> queue_db. spares (snd s) (snd t)"
  by unfold_locales (auto intro: spares_trans)

lemma fail_queued_spares: "spares db (snd (fail_task Queued tid msg now db))"
proof -
  have "find_task (tasks (snd (fail_task Queued tid msg now db))) i = Some r"
    if "find_task (tasks db) i = Some r" "status r \<noteq> Queued" for i r
    using that by (auto simp: fail_task_def update_task_def find_task_update split: prod.splits)
  then show ?thesis by (simp add: spares_def)
qed

lemma cascade_failed_spares: "cascade_failed_queued fuel tid msg now db = Some s' \<Longrightarrow> spares db (snd s')"
proof (induction fuel arbitrary: tid msg db s')
  case (Suc fuel)
  have "spares (snd s) (snd t)"
    if "(\<lambda>dep_id (cascaded, db1).
          case mark_failed_queued_dep dep_id (encode_bounded_cascade_failure tid msg) now db1 of
            (affected, db2) \<Rightarrow>
              if affected = 0 then Some (cascaded, db1)
              else (case cascade_failed_queued fuel dep_id msg now db2 of
                      None \<Rightarrow> None
                    | Some (below, db3) \<Rightarrow> Some (cascaded + affected + below, db3))) dep s = Some t" for dep s t
  proof -
    obtain c d where s: "s = (c, d)" by (cases s)
    obtain a d1 where f: "fail_task Queued dep (encode_bounded_cascade_failure tid msg) now d = (a, d1)" by (rule prod.exhaust)
    have 1: "spares d d1" using fail_queued_spares [of d dep "encode_bounded_cascade_failure tid msg" now] f by simp
    show ?thesis
    proof (cases "a = 0")
      case True
      with that f s show ?thesis by (auto simp: mark_failed_queued_dep_def)
    next
      case False
      with that f s obtain b where "cascade_failed_queued fuel dep msg now d1 = Some (b, snd t)"
        by (auto simp: mark_failed_queued_dep_def split: option.splits)
      from Suc.IH [OF this] 1 s show ?thesis by (auto intro: spares_trans)
    qed
  qed
  with Suc.prems have "spares (snd (0 :: nat, db)) (snd s')"
    unfolding cascade_failed_queued.simps by (rule spared.fold_opt_R [rotated])
  then show ?case by simp
qed simp

lemma fail_running_row:
  assumes ids: "ids_distinct db" and row: "find_task (tasks db) tid = Some r" "status r = Running"
  obtains n db1 r1 where "fail_task Running tid msg now db = (Suc n, db1)" "find_task (tasks db1) tid = Some r1"
    "status r1 = Failed" "\<forall>i. i \<noteq> tid \<longrightarrow> find_task (tasks db1) i = find_task (tasks db) i"
proof -
  obtain n db1 where f: "fail_task Running tid msg now db = (n, db1)" by (rule prod.exhaust)
  have n: "n \<noteq> 0"
  proof
    assume "n = 0"
    with f have "fail_task Running tid msg now db = (0, db1)" by simp
    from fail_task_miss [OF this] row show False using find_task_mem find_task_id by blast
  qed
  from fail_task_hit [OF ids f n] obtain r1 where r1: "find_task (tasks db1) tid = Some r1" "status r1 = Failed" by blast
  have "find_task (tasks db1) i = find_task (tasks db) i" if "i \<noteq> tid" for i
  proof -
    have "find_task (tasks (snd (fail_task Running tid msg now db))) i = find_task (tasks db) i"
      using that find_task_id [of "tasks db" i] unfolding fail_task_def update_task_def
      by (cases "find_task (tasks db) i") (auto simp: find_task_update)
    with f show ?thesis by simp
  qed
  with f n r1 that show ?thesis by (metis not0_implies_Suc)
qed

lemma mark_failed_row:
  assumes ids: "ids_distinct db" and row: "find_task (tasks db) tid = Some r" "status r = Running"
  obtains n db' r' where "mark_failed tid msg now db = Inr (n, db')" "find_task (tasks db') tid = Some r'" "status r' = Failed"
    "\<forall>i x. i \<noteq> tid \<longrightarrow> find_task (tasks db) i = Some x \<longrightarrow> status x \<noteq> Queued \<longrightarrow> find_task (tasks db') i = Some x"
    "moves fail_edge db db'" "0 < n"
proof -
  obtain n db' where m: "mark_failed tid msg now db = Inr (n, db')" using ids by (rule mark_failed_total)
  from ids row obtain k db1 r1 where f: "fail_task Running tid msg now db = (Suc k, db1)" "find_task (tasks db1) tid = Some r1"
    "status r1 = Failed" "\<forall>i. i \<noteq> tid \<longrightarrow> find_task (tasks db1) i = find_task (tasks db) i" by (rule fail_running_row)
  from m f(1) obtain c where c: "cascade_failed_queued (Suc (length (tasks db1))) tid msg now db1 = Some (c, db')" and n: "n = Suc k"
    by (auto simp: mark_failed_def mark_failed_running_def simp del: cascade_failed_queued.simps split: option.splits)
  have sp: "spares db1 db'" using cascade_failed_spares [OF c] by simp
  have "find_task (tasks db') tid = Some r1" using sp f(2,3) by (simp add: spares_def)
  moreover have "find_task (tasks db') i = Some x" if "i \<noteq> tid" "find_task (tasks db) i = Some x" "status x \<noteq> Queued" for i x
    using sp f(4) that by (simp add: spares_def)
  ultimately show ?thesis using that m f(3) n mark_failed_moves [OF ids m] by blast
qed

text \<open>A task is claimed and put back: only its times and its provider have changed.\<close>

lemma put_back_row:
  assumes "ids_distinct db" and row: "find_task (tasks db) tid = Some r" "status r = Running"
  obtains db' where "requeue_single_task tid now (persist_execution_provider_id tid p now db) = (True, db')"
    "find_task (tasks db') tid = Some (r\<lparr>provider_id := Some p, updated_at := now, status := Queued, started_at := None\<rparr>)"
    "\<forall>i. i \<noteq> tid \<longrightarrow> find_task (tasks db') i = find_task (tasks db) i" "map task_id (tasks db') = map task_id (tasks db)"
proof -
  let ?f = "\<lambda>r. r\<lparr>provider_id := Some p, updated_at := now\<rparr>"
  let ?g = "\<lambda>r. r\<lparr>status := Queued, started_at := None, updated_at := now\<rparr>"
  let ?d1 = "snd (update_task tid (\<lambda>r. True) ?f db)"
  let ?d2 = "snd (update_task tid (\<lambda>r. status r = Running) ?g ?d1)"
  have id: "task_id r = tid" using row(1) by (rule find_task_id)
  have f1: "find_task (tasks ?d1) i = map_option (\<lambda>r. if task_id r = tid then ?f r else r) (find_task (tasks db) i)" for i
    by (simp add: update_task_def find_task_update)
  have f2: "find_task (tasks ?d2) i = map_option (\<lambda>r. if task_id r = tid \<and> status r = Running then ?g r else r) (find_task (tasks ?d1) i)" for i
    by (simp add: update_task_def find_task_update)
  have "fst (update_task tid (\<lambda>r. status r = Running) ?g ?d1) \<noteq> 0"
  proof
    assume "fst (update_task tid (\<lambda>r. status r = Running) ?g ?d1) = 0"
    then have "\<forall>x \<in> set (tasks ?d1). task_id x = tid \<longrightarrow> status x \<noteq> Running" by (simp only: update_task_count_zero)
    moreover have "find_task (tasks ?d1) tid = Some (?f r)" using row id by (simp add: f1)
    ultimately show False using find_task_mem find_task_id row(2) by fastforce
  qed
  then have e: "requeue_single_task tid now (persist_execution_provider_id tid p now db) = (True, ?d2)"
    unfolding requeue_single_task_def persist_execution_provider_id_def
    by (cases "update_task tid (\<lambda>r. status r = Running) ?g ?d1") simp
  have "find_task (tasks ?d2) tid = Some (r\<lparr>provider_id := Some p, updated_at := now, status := Queued, started_at := None\<rparr>)"
    using row id by (simp add: f1 f2)
  moreover have "find_task (tasks ?d2) i = find_task (tasks db) i" if "i \<noteq> tid" for i
    using that find_task_id [of "tasks db" i] by (cases "find_task (tasks db) i") (simp_all add: f1 f2)
  moreover have "map task_id (tasks ?d2) = map task_id (tasks db)"
    by (simp add: update_task_def map_update_rows)
  ultimately show ?thesis using that e by blast
qed

subsection \<open>One pass as a relation\<close>

text \<open>
  A pass leaves rows that are not queued alone; a queued row stays queued, fails, or runs with a
  slot; slots are only added, and only up to the capacity of their lane.
\<close>

definition row_pass :: "bool \<Rightarrow> task \<Rightarrow> task \<Rightarrow> bool" where
  "row_pass held r r' \<longleftrightarrow>
     (if status r = Queued then status r' = Queued \<or> status r' = Failed \<or> (status r' = Running \<and> held) else r' = r)"

definition held_slot :: "'f slot_table \<Rightarrow> string \<Rightarrow> bool" where
  "held_slot s i \<longleftrightarrow> (\<exists>k. slot_view s k i \<noteq> None)"

definition pass_ok :: "capacity_table \<Rightarrow> 'f slot_table \<times> queue_db \<Rightarrow> 'f slot_table \<times> queue_db \<Rightarrow> bool" where
  "pass_ok c x y \<longleftrightarrow>
     (\<forall>k. int (occupied (fst y) k) \<le> max (int (occupied (fst x) k)) (capacity_get c (fst k) (snd k)))
     \<and> (\<forall>k i. slot_view (fst x) k i \<noteq> None \<longrightarrow> slot_view (fst y) k i \<noteq> None)
     \<and> (\<forall>i. rel_option (row_pass (held_slot (fst y) i)) (find_task (tasks (snd x)) i) (find_task (tasks (snd y)) i))"

lemma pass_ok_refl: "pass_ok c x x"
  by (simp add: pass_ok_def row_pass_def option.rel_refl)

lemma pass_ok_trans:
  assumes "pass_ok c x y" and "pass_ok c y z"
  shows "pass_ok c x z"
proof -
  have "int (occupied (fst z) k) \<le> max (int (occupied (fst x) k)) (capacity_get c (fst k) (snd k))" for k
  proof -
    have "int (occupied (fst y) k) \<le> max (int (occupied (fst x) k)) (capacity_get c (fst k) (snd k))"
      and "int (occupied (fst z) k) \<le> max (int (occupied (fst y) k)) (capacity_get c (fst k) (snd k))"
      using assms unfolding pass_ok_def by blast+
    then show ?thesis by linarith
  qed
  moreover have "slot_view (fst x) k i \<noteq> None \<Longrightarrow> slot_view (fst z) k i \<noteq> None" for k i
    using assms unfolding pass_ok_def by blast
  moreover have "rel_option (row_pass (held_slot (fst z) i)) (find_task (tasks (snd x)) i) (find_task (tasks (snd z)) i)" for i
  proof -
    have h: "held_slot (fst y) i \<Longrightarrow> held_slot (fst z) i"
      using assms(2) unfolding pass_ok_def held_slot_def by blast
    have 1: "rel_option (row_pass (held_slot (fst y) i)) (find_task (tasks (snd x)) i) (find_task (tasks (snd y)) i)"
      and 2: "rel_option (row_pass (held_slot (fst z) i)) (find_task (tasks (snd y)) i) (find_task (tasks (snd z)) i)"
      using assms by (simp_all add: pass_ok_def)
    show ?thesis
    proof (cases "find_task (tasks (snd x)) i")
      case None
      with 1 2 show ?thesis by simp
    next
      case (Some r)
      with 1 obtain r1 where r1: "find_task (tasks (snd y)) i = Some r1" "row_pass (held_slot (fst y) i) r r1"
        by (auto simp: option_rel_Some1)
      with 2 obtain r2 where r2: "find_task (tasks (snd z)) i = Some r2" "row_pass (held_slot (fst z) i) r1 r2"
        by (auto simp: option_rel_Some1)
      have "row_pass (held_slot (fst z) i) r r2"
        using r1(2) r2(2) h by (auto simp: row_pass_def split: if_splits)
      with Some r2(1) show ?thesis by simp
    qed
  qed
  ultimately show ?thesis unfolding pass_ok_def by blast
qed

text \<open>The tasks the loop can still look at: fewer after every turn.\<close>

definition open_ids :: "string list \<Rightarrow> queue_db \<Rightarrow> string set" where
  "open_ids attempted db = {i. \<exists>r. find_task (tasks db) i = Some r \<and> status r = Queued \<and> i \<notin> set attempted}"

lemma open_ids_subset: "open_ids attempted db \<subseteq> task_id ` set (tasks db)"
  by (auto simp: open_ids_def dest: find_task_mem find_task_id)

lemma finite_open_ids [simp]: "finite (open_ids attempted db)"
  by (rule finite_subset [OF open_ids_subset]) simp

lemma open_ids_le: "card (open_ids attempted db) \<le> length (tasks db)"
proof -
  have "card (open_ids attempted db) \<le> card (set (map task_id (tasks db)))"
    using open_ids_subset by (intro card_mono) simp_all
  also have "\<dots> \<le> length (tasks db)" using card_length [of "map task_id (tasks db)"] by simp
  finally show ?thesis .
qed

lemma open_ids_less:
  assumes "i \<in> open_ids att db" and "i \<notin> open_ids att' db'" and "\<And>j. j \<in> open_ids att' db' \<Longrightarrow> j \<in> open_ids att db"
  shows "card (open_ids att' db') < card (open_ids att db)"
  using assms by (intro psubset_card_mono) auto

text \<open>A pass over the rows that only touches one claimed task.\<close>

lemma pass_okI:
  assumes "\<And>k. int (occupied s' k) \<le> max (int (occupied s k)) (capacity_get c (fst k) (snd k))"
    and "\<And>k i. slot_view s k i \<noteq> None \<Longrightarrow> slot_view s' k i \<noteq> None"
    and "find_task (tasks db) tid = Some r" and "find_task (tasks db') tid = Some r'" and "row_pass (held_slot s' tid) r r'"
    and "\<And>i. i \<noteq> tid \<Longrightarrow> rel_option (row_pass (held_slot s' i)) (find_task (tasks db) i) (find_task (tasks db') i)"
  shows "pass_ok c (s, db) (s', db')"
proof -
  have "rel_option (row_pass (held_slot s' i)) (find_task (tasks db) i) (find_task (tasks db') i)" for i
    using assms(3-6) by (cases "i = tid") simp_all
  with assms(1,2) show ?thesis unfolding pass_ok_def by simp
qed

lemma row_pass_refl [simp]: "row_pass h r r"
  by (simp add: row_pass_def)

lemma claim_failed_pass:
  assumes ids: "ids_distinct db" and r: "find_task (tasks db) tid = Some r" "status r = Queued" "tid \<notin> set att"
    and d1: "find_task (tasks db1) tid = Some r1" "status r1 = Running" "\<forall>j. j \<noteq> tid \<longrightarrow> find_task (tasks db1) j = find_task (tasks db) j"
      "ids_distinct db1" "length (tasks db1) = length (tasks db)"
  obtains n db2 where "mark_failed tid msg now db1 = Inr (n, db2)" "pass_ok c (s, db) (s, db2)" "ids_distinct db2"
    "length (tasks db2) = length (tasks db)" "card (open_ids att db2) < card (open_ids att db)"
proof -
  from d1(4,1,2) obtain n db2 r2 where f: "mark_failed tid msg now db1 = Inr (n, db2)" "find_task (tasks db2) tid = Some r2" "status r2 = Failed"
    "\<forall>i x. i \<noteq> tid \<longrightarrow> find_task (tasks db1) i = Some x \<longrightarrow> status x \<noteq> Queued \<longrightarrow> find_task (tasks db2) i = Some x"
    "moves fail_edge db1 db2" by (rule mark_failed_row)
  have m: "map task_id (tasks db2) = map task_id (tasks db1)" using f(5) by (rule moves_ids)
  have rows: "rel_option (row_pass h) (find_task (tasks db) i) (find_task (tasks db2) i)" if "i \<noteq> tid" for i h
  proof (cases "find_task (tasks db1) i")
    case None
    then have "find_task (tasks db2) i = None"
      using f(5) m unfolding find_task_None by (metis set_map)
    with None d1(3) that show ?thesis by simp
  next
    case (Some x)
    show ?thesis
    proof (cases "status x = Queued")
      case True
      from moves_some [OF f(5) Some] obtain x' where x': "find_task (tasks db2) i = Some x'" "row_moves fail_edge x x'" .
      with True have "status x' = Queued \<or> status x' = Failed" by (auto simp: row_moves_def edge_defs)
      with True Some x'(1) d1(3) that show ?thesis by (auto simp: row_pass_def)
    next
      case False
      with f(4) Some that d1(3) show ?thesis by simp
    qed
  qed
  have "card (open_ids att db2) < card (open_ids att db)"
  proof (rule open_ids_less [of tid])
    show "tid \<in> open_ids att db" using r by (simp add: open_ids_def)
    show "tid \<notin> open_ids att db2" using f(2,3) by (simp add: open_ids_def)
    fix j assume j: "j \<in> open_ids att db2"
    then have "j \<noteq> tid" using f(2,3) by (auto simp: open_ids_def)
    from rows [OF this, of False] j show "j \<in> open_ids att db"
      by (auto simp: open_ids_def option_rel_Some2 row_pass_def split: if_splits)
  qed
  moreover have "pass_ok c (s, db) (s, db2)"
    by (rule pass_okI [OF _ _ r(1) f(2)]) (use r(2) f(3) rows in \<open>simp_all add: row_pass_def\<close>)
  moreover have "ids_distinct db2" "length (tasks db2) = length (tasks db)"
    using m d1(4,5) by (simp, metis length_map)
  ultimately show ?thesis using that f(1) by blast
qed

lemma claim_put_back_pass:
  assumes ids: "ids_distinct db" and r: "find_task (tasks db) tid = Some r" "status r = Queued" "tid \<notin> set att"
    and d1: "find_task (tasks db1) tid = Some r1" "status r1 = Running" "\<forall>j. j \<noteq> tid \<longrightarrow> find_task (tasks db1) j = find_task (tasks db) j"
      "ids_distinct db1" "length (tasks db1) = length (tasks db)"
  obtains db2 where "requeue_single_task tid now (persist_execution_provider_id tid p now db1) = (True, db2)"
    "pass_ok c (s, db) (s, db2)" "ids_distinct db2" "length (tasks db2) = length (tasks db)"
    "card (open_ids (tid # att) db2) < card (open_ids att db)"
proof -
  from d1(4,1,2) obtain db2 where q: "requeue_single_task tid now (persist_execution_provider_id tid p now db1) = (True, db2)"
    "find_task (tasks db2) tid = Some (r1\<lparr>provider_id := Some p, updated_at := now, status := Queued, started_at := None\<rparr>)"
    "\<forall>i. i \<noteq> tid \<longrightarrow> find_task (tasks db2) i = find_task (tasks db1) i" "map task_id (tasks db2) = map task_id (tasks db1)"
    by (rule put_back_row)
  have same: "find_task (tasks db2) i = find_task (tasks db) i" if "i \<noteq> tid" for i using q(3) d1(3) that by simp
  have "card (open_ids (tid # att) db2) < card (open_ids att db)"
    by (rule open_ids_less [of tid]) (use r same in \<open>auto simp: open_ids_def\<close>)
  moreover have "pass_ok c (s, db) (s, db2)"
    by (rule pass_okI [OF _ _ r(1) q(2)]) (use r(2) same in \<open>simp_all add: row_pass_def option.rel_refl\<close>)
  moreover have "ids_distinct db2" "length (tasks db2) = length (tasks db)"
    using q(4) d1(4,5) by (simp, metis length_map)
  ultimately show ?thesis using that q(1) by blast
qed

lemma claim_register_pass:
  assumes ok: "slots_ok s" and room: "has_room s (p, media) (capacity_get c p media)"
    and r: "find_task (tasks db) tid = Some r" "status r = Queued" "tid \<notin> set att"
    and d1: "find_task (tasks db1) tid = Some r1" "status r1 = Running" "\<forall>j. j \<noteq> tid \<longrightarrow> find_task (tasks db1) j = find_task (tasks db) j"
  shows "pass_ok c (s, db) (register_slot s (p, media) tid oc, db1)"
    and "card (open_ids att db1) < card (open_ids att db)"
proof -
  let ?s = "register_slot s (p, media) tid oc"
  have lt: "occupied s (p, media) < nat (capacity_get c p media)" using room unfolding has_room_def by linarith
  have "int (occupied ?s k) \<le> max (int (occupied s k)) (capacity_get c (fst k) (snd k))" for k
    using slots.put_within [where cap = "\<lambda>k. nat (capacity_get c (fst k) (snd k))", OF ok, of "(p, media)" tid oc k] lt
    by (auto simp: max_def split: if_splits)
  moreover have "held_slot ?s tid"
    unfolding held_slot_def using slots.view_put [OF ok, of "(p, media)" tid oc] by (intro exI [of _ "(p, media)"]) simp
  moreover have "slot_view s k i \<noteq> None \<Longrightarrow> slot_view ?s k i \<noteq> None" for k i
    by (simp add: slots.view_put [OF ok])
  ultimately show "pass_ok c (s, db) (?s, db1)"
    by (intro pass_okI [OF _ _ r(1) d1(1)]) (use r(2) d1 in \<open>simp_all add: row_pass_def option.rel_refl\<close>)
  show "card (open_ids att db1) < card (open_ids att db)"
    by (rule open_ids_less [of tid]) (use r d1 in \<open>auto simp: open_ids_def\<close>)
qed

lemma encode_unsupported: "encode_failure ''provider_unsupported_media'' ps = Inr (failure_text ''provider_unsupported_media'' ps)"
proof -
  have "known_code ''provider_unsupported_media''" by code_simp
  then show ?thesis by (simp add: encode_failure_def)
qed

definition pass_done :: "capacity_table \<Rightarrow> 'f slot_table \<times> queue_db \<Rightarrow> 'f slot_table \<times> queue_db \<Rightarrow> bool" where
  "pass_done c x y \<longleftrightarrow> pass_ok c x y \<and> ids_distinct (snd y) \<and> slots_ok (fst y) \<and> length (tasks (snd y)) = length (tasks (snd x))"

lemma pass_done_step:
  "pass_ok c (s, db) (s1, db1) \<Longrightarrow> length (tasks db1) = length (tasks db) \<Longrightarrow> pass_done c (s1, db1) y \<Longrightarrow> pass_done c (s, db) y"
  unfolding pass_done_def by (auto intro: pass_ok_trans)

lemma claim_lane_step:
  assumes "claim_next media (Some (pool_full_providers (we_capacity env) slots media))
      (if att = [] then None else Some att) now db = (Some t, db1)"
    and "text_at t ''task_id'' = tid" and "we_project env t = p" and "capacity_get (we_capacity env) p media = cap"
  shows "claim_lane env now media (Suc fuel) att (any, slots, db) =
     (if cap \<le> 0 then
        (case mark_failed tid (failure_text ''provider_unsupported_media'' [(''provider_id'', PStr p), (''media_type'', PStr media)]) now db1 of
           Inl e \<Rightarrow> Some (Inl e)
         | Inr (_, db2) \<Rightarrow> claim_lane env now media fuel att (True, slots, db2))
      else if \<not> has_room slots (p, media) cap then
        (case requeue_single_task tid now (persist_execution_provider_id tid p now db1) of
           (_, db2) \<Rightarrow>
             if is_video_type t then claim_lane env now media fuel (tid # att) (any, slots, db2)
             else Some (Inr (any, slots, db2)))
      else if media = ''text'' then Some (Inr (True, register_slot slots (p, media) tid \<lparr>oc_task = claimed_job t p, oc_pending = False\<rparr>, db1))
      else claim_lane env now media fuel att (True, register_slot slots (p, media) tid \<lparr>oc_task = claimed_job t p, oc_pending = False\<rparr>, db1))"
  unfolding claim_lane.simps assms(1) prod.case option.case Let_def assms(2-4) encode_unsupported bind_e_simps ..

lemma claim_lane_runs:
  assumes "ids_distinct db" and "slots_ok slots" and "card (open_ids att db) < fuel"
  shows "\<exists>any' slots' db'. claim_lane env now media fuel att (any, slots, db) = Some (Inr (any', slots', db'))
    \<and> pass_done (we_capacity env) (slots, db) (slots', db')"
  using assms
proof (induction fuel arbitrary: att any slots db)
  case (Suc fuel)
  note ids = Suc.prems(1) and ok = Suc.prems(2)
  let ?c = "we_capacity env"
  let ?pool = "Some (pool_full_providers ?c slots media)" and ?excl = "if att = [] then None else Some att"
  from ids show ?case
  proof (cases rule: claim_next_cases [of db media ?pool ?excl now])
    case none
    with ids ok show ?thesis by (simp add: pass_done_def pass_ok_refl)
  next
    case (some r db1)
    let ?r1 = "r\<lparr>status := Running, started_at := Some now, updated_at := now\<rparr>"
    let ?t = "task_to_dict ?r1" and ?tid = "task_id r"
    let ?p = "we_project env ?t"
    let ?cap = "capacity_get ?c ?p media"
    have q: "status r = Queued" "?tid \<notin> set att"
      using some(2) by (auto simp: claimable_def not_excluded_def split: if_splits)
    have run: "status ?r1 = Running" by simp
    note row = some(1) q and d1 = some(4) run some(5,6,7)
    have tid: "text_at ?t ''task_id'' = ?tid" by simp
    note step = claim_lane_step [OF some(3) tid refl refl, of fuel any]
    show ?thesis
    proof (cases "?cap \<le> 0")
      case True
      let ?msg = "failure_text ''provider_unsupported_media'' [(''provider_id'', PStr ?p), (''media_type'', PStr media)]"
      from ids row d1 obtain n db2 where f: "mark_failed ?tid ?msg now db1 = Inr (n, db2)" "pass_ok ?c (slots, db) (slots, db2)"
        "ids_distinct db2" "length (tasks db2) = length (tasks db)" "card (open_ids att db2) < card (open_ids att db)"
        by (rule claim_failed_pass)
      have "card (open_ids att db2) < fuel" using f(5) Suc.prems(3) by simp
      from Suc.IH [OF f(3) ok this, of True] f(1,2,4) True show ?thesis
        unfolding step by (auto intro: pass_done_step)
    next
      case False
      note pos = this
      show ?thesis
      proof (cases "has_room slots (?p, media) ?cap")
        case True
        let ?s = "register_slot slots (?p, media) ?tid \<lparr>oc_task = claimed_job ?t ?p, oc_pending = False\<rparr>"
        have reg: "pass_ok ?c (slots, db) (?s, db1)" "card (open_ids att db1) < card (open_ids att db)"
          using claim_register_pass [OF ok True row some(4) run some(5)] by simp_all
        have ok1: "slots_ok ?s" using ok by (rule slots_ok_register)
        have "card (open_ids att db1) < fuel" using reg(2) Suc.prems(3) by simp
        note ih = Suc.IH [OF some(6) ok1 this, of True]
        show ?thesis
        proof (cases "media = ''text''")
          case True
          have "pass_done ?c (slots, db) (?s, db1)" using reg(1) ok1 some(6,7) by (simp add: pass_done_def)
          with True pos \<open>has_room slots (?p, media) ?cap\<close> show ?thesis unfolding step by auto
        next
          case False
          with ih reg(1) some(7) pos \<open>has_room slots (?p, media) ?cap\<close> show ?thesis
            unfolding step by (auto intro: pass_done_step)
        qed
      next
        case False
        from ids row d1 obtain db2 where b: "requeue_single_task ?tid now (persist_execution_provider_id ?tid ?p now db1) = (True, db2)"
          "pass_ok ?c (slots, db) (slots, db2)" "ids_distinct db2" "length (tasks db2) = length (tasks db)"
          "card (open_ids (?tid # att) db2) < card (open_ids att db)" by (rule claim_put_back_pass)
        have "card (open_ids (?tid # att) db2) < fuel" using b(5) Suc.prems(3) by simp
        note ih = Suc.IH [OF b(3) ok this, of any]
        show ?thesis
        proof (cases "is_video_type ?t")
          case True
          with ih b(1,2,4) pos False show ?thesis unfolding step by (auto intro: pass_done_step)
        next
          case notvideo: False
          have "pass_done ?c (slots, db) (slots, db2)" using b(2-4) ok by (simp add: pass_done_def)
          with notvideo b(1) pos False show ?thesis unfolding step by auto
        qed
      qed
    qed
  qed
qed simp

lemma claim_lanes_run:
  assumes "ids_distinct db" and "slots_ok slots"
  shows "\<exists>any' slots' db'. claim_lanes env now lanes (any, slots, db) = Some (Inr (any', slots', db'))
    \<and> pass_done (we_capacity env) (slots, db) (slots', db')"
  using assms
proof (induction lanes arbitrary: any slots db)
  case Nil
  then show ?case by (simp add: pass_done_def pass_ok_refl)
next
  case (Cons media lanes)
  have "card (open_ids [] db) < Suc (length (tasks db))" using open_ids_le [of "[]" db] by simp
  from claim_lane_runs [OF Cons.prems this, of env now media any] obtain any1 s1 db1
    where l: "claim_lane env now media (Suc (length (tasks db))) [] (any, slots, db) = Some (Inr (any1, s1, db1))"
      "pass_done (we_capacity env) (slots, db) (s1, db1)" by blast
  from l(2) have "pass_ok (we_capacity env) (slots, db) (s1, db1)" "length (tasks db1) = length (tasks db)"
    and n: "ids_distinct db1" "slots_ok s1" by (simp_all add: pass_done_def)
  with Cons.IH [OF n, of any1] l(1) show ?case by (auto simp del: claim_lane.simps intro: pass_done_step)
qed

text \<open>
  C30: The claim pass always ends: the loop over each lane stops within one turn more than there
  are tasks, because every turn takes a waiting task away, for good or for the rest of the pass.
\<close>
theorem claim_pass_returns:
  assumes "distinct (map task_id (tasks db))" and "slots_ok slots"
  shows "\<exists>claimed_any slots' db'. claim_tasks env now slots db = Some (Inr (claimed_any, slots', db'))"
  using claim_lanes_run [OF assms, of env now worker_lanes False] unfolding claim_tasks_def by blast

text \<open>
  C31: A claim pass fills no lane of a provider beyond its capacity, leaves every task that was not
  waiting as it was, and every task it has started holds a slot; the others it has touched are
  waiting again or have failed.
\<close>
theorem claim_pass_accounts:
  assumes "distinct (map task_id (tasks db))" and "slots_ok slots"
    and "claim_tasks env now slots db = Some (Inr (claimed_any, slots', db'))"
    and "find_task (tasks db) i = Some r"
  shows "int (occupied slots' (p, m)) \<le> max (int (occupied slots (p, m))) (capacity_get (we_capacity env) p m)
    \<and> (\<exists>r'. find_task (tasks db') i = Some r'
        \<and> (if status r = Queued
           then status r' = Queued \<or> status r' = Failed \<or> (status r' = Running \<and> i \<in> set (active_task_ids slots'))
           else r' = r))"
proof -
  have d: "pass_done (we_capacity env) (slots, db) (slots', db')"
    using claim_lanes_run [OF assms(1,2), of env now worker_lanes False] assms(3) by (auto simp: claim_tasks_def)
  then have ok: "slots_ok slots'" and po: "pass_ok (we_capacity env) (slots, db) (slots', db')" by (simp_all add: pass_done_def)
  have "\<forall>k. int (occupied slots' k) \<le> max (int (occupied slots k)) (capacity_get (we_capacity env) (fst k) (snd k))"
    using po by (simp add: pass_ok_def)
  then have "int (occupied slots' (p, m)) \<le> max (int (occupied slots (p, m))) (capacity_get (we_capacity env) p m)"
    by (metis fst_conv snd_conv)
  moreover have "rel_option (row_pass (held_slot slots' i)) (Some r) (find_task (tasks db') i)"
    using po assms(4) by (metis pass_ok_def fst_conv snd_conv)
  then obtain r' where "find_task (tasks db') i = Some r'" "row_pass (held_slot slots' i) r r'"
    by (auto simp: option_rel_Some1)
  moreover have "held_slot slots' i \<longleftrightarrow> i \<in> set (active_task_ids slots')"
    unfolding held_slot_def active_ids_view [OF ok] by auto
  ultimately show ?thesis by (auto simp: row_pass_def)
qed

definition demo_worker :: worker_env where
  "demo_worker = \<lparr>we_capacity = \<lparr>ct_limits = [(''ark'', [(''video'', 1)])], ct_defaults = []\<rparr>, we_project = (\<lambda>t. ''ark'')\<rparr>"

definition demo_two :: queue_db where
  "demo_two = empty_queue\<lparr>tasks := [new_task ''a'' 1 (demo_args ''r1'' None), new_task ''b'' 2 (demo_args ''r2'' None)]\<rparr>"

lemma claim_pass_returns_witness:
  "\<exists>x. claim_tasks demo_worker 5 [] demo_two = Some (Inr x)"
proof -
  have "distinct (map task_id (tasks demo_two))" "slots_ok ([] :: worker_job slot_table)" by code_simp+
  from claim_pass_returns [OF this, of demo_worker 5] show ?thesis by blast
qed

lemma claim_pass_accounts_witness:
  "case claim_tasks demo_worker 5 [] demo_two of
     Some (Inr (_, slots', db')) \<Rightarrow> int (occupied slots' (''ark'', ''video'')) \<le> 1
       \<and> map status (tasks db') = [Running, Queued] \<and> active_task_ids slots' = [''a'']
   | _ \<Rightarrow> False"
proof -
  have d: "distinct (map task_id (tasks demo_two))" "slots_ok ([] :: worker_job slot_table)" by code_simp+
  have "case claim_tasks demo_worker 5 [] demo_two of
     Some (Inr (_, slots', db')) \<Rightarrow> map status (tasks db') = [Running, Queued] \<and> active_task_ids slots' = [''a''] | _ \<Rightarrow> False"
    by code_simp
  then obtain any slots' db' where c: "claim_tasks demo_worker 5 [] demo_two = Some (Inr (any, slots', db'))"
    and e: "map status (tasks db') = [Running, Queued]" "active_task_ids slots' = [''a'']"
    by (auto split: option.splits sum.splits prod.splits)
  have "find_task (tasks demo_two) ''a'' = Some (new_task ''a'' 1 (demo_args ''r1'' None))" by code_simp
  from claim_pass_accounts [OF d c this, of "''ark''" "''video''"]
  have "int (occupied slots' (''ark'', ''video'')) \<le> 1"
    by (simp add: occupied_def bucket_def dict_get_or_def capacity_get_def demo_worker_def)
  with c e show ?thesis by simp
qed

end
