(* ===== verification/Worker_Settlement.thy ===== *)
theory Worker_Settlement
  imports Generation_Worker
begin

text \<open>
  How the worker ends a task (lib/generation_worker.py): the outcome of a job with its structured
  reason, the rule that a write which hits no row gives the task to the canceller, the resumption
  of a submitted video, the orphans a restart finds, and one turn of the main loop under its lease.
  Between two writes of one settlement other clients of the queue may run; what they do is the
  argument \<open>gap\<close>. The files of a failed video and the log are left out.
\<close>

subsection \<open>Reasons\<close>

text \<open>The exceptions by the way they are reported; the last component is \<open>str(exc)\<close>.\<close>

datatype raised =
    ScriptEditRaised string task_dict string
  | ApiRaised string task_dict string
  | RefusalRaised string task_dict string
  | OtherRaised string

definition try_encode_failure :: "string \<Rightarrow> task_dict \<Rightarrow> string option" where
  "try_encode_failure code params = (case encode_failure code params of Inl _ \<Rightarrow> None | Inr s \<Rightarrow> Some s)"

definition encode_task_failure_message :: "raised \<Rightarrow> py_error + string" where
  "encode_task_failure_message e =
     (case e of
        ScriptEditRaised key params t \<Rightarrow>
          (case try_encode_failure key params of
             Some (c # s) \<Rightarrow> Inr (c # s)
           | _ \<Rightarrow> encode_failure ''script_edit_error'' [])
      | ApiRaised key params t \<Rightarrow> Inr (or_str (try_encode_failure key params) t)
      | RefusalRaised code params t \<Rightarrow> Inr (or_str (try_encode_failure code params) t)
      | OtherRaised t \<Rightarrow> Inr t)"

subsection \<open>The end of a job\<close>

datatype job_outcome =
    Returned "task_dict option"
  | CancelledNow
  | ProviderChanged string string
  | Raised raised

definition mark_task_cancelled :: "string \<Rightarrow> int \<Rightarrow> queue_db \<Rightarrow> py_error + queue_db" where
  "mark_task_cancelled tid now db = map_sum id snd (finalize_cancelled tid ''user'' now db)"

text \<open>After a write: when it hit no row, the task goes to the canceller.\<close>

definition unless_cancelled :: "(queue_db \<Rightarrow> queue_db) \<Rightarrow> string \<Rightarrow> int \<Rightarrow> nat \<times> queue_db \<Rightarrow> py_error + queue_db" where
  "unless_cancelled gap tid now w =
     (case w of (rows, db) \<Rightarrow> if rows = 0 then mark_task_cancelled tid now (gap db) else Inr db)"

definition fail_or_cancel :: "(queue_db \<Rightarrow> queue_db) \<Rightarrow> string \<Rightarrow> py_error + string \<Rightarrow> int \<Rightarrow> queue_db \<Rightarrow> py_error + queue_db" where
  "fail_or_cancel gap tid msg now db =
     bind_e msg (\<lambda>m. bind_e (mark_failed tid m now db) (unless_cancelled gap tid now))"

definition process_task :: "(nat \<Rightarrow> queue_db \<Rightarrow> queue_db) \<Rightarrow> string \<Rightarrow> job_outcome \<Rightarrow> int \<Rightarrow> queue_db \<Rightarrow> py_error + queue_db" where
  "process_task gap tid outcome now db =
     (case outcome of
        CancelledNow \<Rightarrow> mark_task_cancelled tid now db
      | ProviderChanged claimed actual \<Rightarrow>
          (case requeue_single_task tid now (gap 0 (persist_execution_provider_id tid actual now db)) of
             (requeued, db1) \<Rightarrow>
               if requeued then Inr db1
               else fail_or_cancel (gap 2) tid
                      (encode_failure ''dispatch_provider_requeue_failed''
                         [(''claimed_provider_id'', PStr claimed), (''actual_provider_id'', PStr actual)])
                      now (gap 1 db1))
      | Raised e \<Rightarrow> fail_or_cancel (gap 0) tid (encode_task_failure_message e) now db
      | Returned result \<Rightarrow> unless_cancelled (gap 0) tid now (mark_succeeded tid result now db))"

subsection \<open>Resuming a submitted video\<close>

datatype video_resume_state = NoCheckpointNoJob | CheckpointWithoutJob | ReadyToResume | IdentityUnrecoverable

text \<open>\<open>load\<close> reads the stored checkpoint and gives its provider, or raises.\<close>

definition classify_video_resume_state :: "(task_dict \<Rightarrow> py_error + string) \<Rightarrow> task_dict \<Rightarrow> video_resume_state \<times> string option" where
  "classify_video_resume_state load t =
     (let has_checkpoint = text_at t ''execution_checkpoint_json'' \<noteq> [];
          has_job = text_at t ''provider_job_id'' \<noteq> []
      in if \<not> has_job then ((if has_checkpoint then CheckpointWithoutJob else NoCheckpointNoJob), None)
         else if \<not> has_checkpoint then (IdentityUnrecoverable, None)
         else (case load t of Inl _ \<Rightarrow> (IdentityUnrecoverable, None) | Inr p \<Rightarrow> (ReadyToResume, Some p)))"

definition resume_refusal :: "video_resume_state \<Rightarrow> py_error + string" where
  "resume_refusal st =
     (case st of
        NoCheckpointNoJob \<Rightarrow> encode_failure ''restart_lost_no_job_id'' []
      | CheckpointWithoutJob \<Rightarrow> encode_failure ''restart_lost_checkpoint_no_job_id'' []
      | _ \<Rightarrow> encode_failure ''execution_identity_unrecoverable''
               [(''detail'', PStr ''missing, malformed, or mismatched video submission checkpoint'')])"

datatype resume_outcome =
    Resumed "task_dict option"
  | ResumeCancelled
  | ResumeUnsupported string
  | ResumeEndpointChanged string
  | ResumeExpired string
  | ResumeRaised raised

definition process_resume_task ::
  "(queue_db \<Rightarrow> queue_db) \<Rightarrow> (task_dict \<Rightarrow> py_error + string) \<Rightarrow> task_dict \<Rightarrow> resume_outcome \<Rightarrow> int \<Rightarrow> queue_db \<Rightarrow> py_error + queue_db" where
  "process_resume_task gap load t outcome now db =
     (let tid = text_at t ''task_id''; st = fst (classify_video_resume_state load t)
      in if is_video_type t \<and> st \<noteq> ReadyToResume then fail_or_cancel gap tid (resume_refusal st) now db
         else if text_at t ''provider_job_id'' = [] then fail_or_cancel gap tid (encode_failure ''restart_lost_resume_no_job_id'' []) now db
         else (case outcome of
                 Resumed result \<Rightarrow> unless_cancelled gap tid now (mark_succeeded tid result now db)
               | ResumeCancelled \<Rightarrow> mark_task_cancelled tid now db
               | ResumeUnsupported d \<Rightarrow> fail_or_cancel gap tid (encode_failure ''resume_unsupported_detail'' [(''detail'', PStr d)]) now db
               | ResumeEndpointChanged d \<Rightarrow> fail_or_cancel gap tid (encode_failure ''resume_endpoint_changed_detail'' [(''detail'', PStr d)]) now db
               | ResumeExpired d \<Rightarrow> fail_or_cancel gap tid (encode_failure ''resume_expired_detail'' [(''detail'', PStr d)]) now db
               | ResumeRaised e \<Rightarrow> fail_or_cancel gap tid (encode_task_failure_message e) now db))"

subsection \<open>Orphans\<close>

definition orphan_media :: "task_dict \<Rightarrow> string" where
  "orphan_media t =
     (if text_at t ''media_type'' \<noteq> [] then text_at t ''media_type''
      else if is_video_type t then ''video''
      else if text_at t ''task_type'' = ''tts'' then ''audio'' else ''image'')"

type_synonym orphan_state = "(string, task_dict list) dict \<times> queue_db"

definition orphan_checkpoint :: "(task_dict \<Rightarrow> py_error + string) \<Rightarrow> task_dict \<Rightarrow> video_resume_state \<times> string option" where
  "orphan_checkpoint load t = (if is_video_type t then classify_video_resume_state load t else (ReadyToResume, None))"

definition orphan_provider :: "(task_dict \<Rightarrow> string) \<Rightarrow> task_dict \<Rightarrow> string option \<Rightarrow> string" where
  "orphan_provider project t checkpoint =
     (case checkpoint of
        Some p \<Rightarrow> p
      | None \<Rightarrow> if text_at t ''provider_id'' \<noteq> [] then text_at t ''provider_id'' else project t)"

definition handle_orphan ::
  "(task_dict \<Rightarrow> string) \<Rightarrow> (task_dict \<Rightarrow> py_error + string) \<Rightarrow> string list \<Rightarrow> int \<Rightarrow> task_dict \<Rightarrow> orphan_state \<Rightarrow> py_error + orphan_state" where
  "handle_orphan project load active_ids now t s =
     (case s of (buckets, db) \<Rightarrow>
        (let tid = text_at t ''task_id''; media = orphan_media t;
             lost = (\<lambda>msg. map_sum id (Pair buckets) (fail_or_cancel id tid msg now db))
         in if tid \<in> set active_ids then Inr s
            else if text_at t ''status'' = ''cancelling'' then map_sum id (Pair buckets) (mark_task_cancelled tid now db)
            else if media = ''image'' then lost (encode_failure ''restart_lost_image'' [])
            else if media = ''audio'' then lost (encode_failure ''restart_lost_audio'' [])
            else if media = ''text'' then lost (encode_failure ''restart_lost_text'' [])
            else (case orphan_checkpoint load t of (st, checkpoint) \<Rightarrow>
                    if st \<noteq> ReadyToResume then lost (resume_refusal st)
                    else (let p = orphan_provider project t checkpoint
                          in if p \<in> set NON_RESUMABLE_VIDEO_PROVIDERS
                             then lost (encode_failure ''resume_unsupported_provider'' [(''provider_id'', PStr p)])
                             else if text_at t ''provider_job_id'' = [] then lost (encode_failure ''restart_lost_no_job_id'' [])
                             else Inr (dict_append buckets p (dict_set t ''provider_id'' (PStr p)), db)))))"

definition handle_orphan_tasks_on_start ::
  "(task_dict \<Rightarrow> string) \<Rightarrow> (task_dict \<Rightarrow> py_error + string) \<Rightarrow> string list \<Rightarrow> int \<Rightarrow> queue_db \<Rightarrow> py_error + orphan_state" where
  "handle_orphan_tasks_on_start project load active_ids now db =
     each (handle_orphan project load active_ids now) (list_orphan_tasks_on_start db) ([], db)"

text \<open>
  The tasks of one provider: without capacity, also after the limits were loaded again, they fail;
  otherwise each takes a waiting slot before any of them runs.
\<close>

definition dispatch_provider_bucket ::
  "int \<Rightarrow> int \<Rightarrow> string \<Rightarrow> task_dict list \<Rightarrow> int \<Rightarrow> worker_job slot_table \<times> queue_db \<Rightarrow> py_error + (worker_job slot_table \<times> queue_db)" where
  "dispatch_provider_bucket capacity reloaded p ts now s =
     (if capacity \<le> 0 \<and> reloaded \<le> 0
      then each (\<lambda>t (slots, db). map_sum id (Pair slots)
                   (fail_or_cancel id (text_at t ''task_id'') (encode_failure ''resume_unsupported_capacity_zero'' [(''provider_id'', PStr p)]) now db))
             ts s
      else Inr (foldl (\<lambda>slots t. register_slot slots (p, ''video'') (text_at t ''task_id'') \<lparr>oc_task = ResumeJob t, oc_pending = True\<rparr>)
                  (fst s) ts, snd s))"

subsection \<open>The main loop\<close>

record worker =
  wk_owns_lease :: bool
  wk_orphans_handled :: bool
  wk_lease_lost :: "rat option"
  wk_slots :: "worker_job slot_table"

record turn_input =
  ti_name :: string
  ti_owner :: string
  ti_ttl :: rat
  ti_epoch :: rat
  ti_monotonic :: rat
  ti_now :: int
  ti_finished :: "worker_job \<Rightarrow> bool"
  ti_cancelled :: "worker_job \<Rightarrow> bool"
  ti_env :: worker_env
  ti_load :: "task_dict \<Rightarrow> py_error + string"

definition ORPHAN_RESCAN_LEASE_LOST_MULT :: rat where
  "ORPHAN_RESCAN_LEASE_LOST_MULT = 3"

definition drain_finished_tasks :: "turn_input \<Rightarrow> worker_job slot_table \<times> queue_db \<Rightarrow> py_error + (worker_job slot_table \<times> queue_db)" where
  "drain_finished_tasks i s =
     (case drain_finished (ti_finished i) (fst s) of
        (ended, slots) \<Rightarrow>
          map_sum id (Pair slots)
            (each (\<lambda>(tid, job) db. if ti_cancelled i job then mark_task_cancelled tid (ti_now i) db else Inr db) ended (snd s)))"

text \<open>When the loss of the lease was noticed, and whether the orphans have to be looked at again.\<close>

definition track_lease :: "turn_input \<Rightarrow> bool \<Rightarrow> bool \<Rightarrow> rat option \<Rightarrow> bool \<Rightarrow> rat option \<times> bool" where
  "track_lease i had owns lost handled =
     (let lost1 = (if had \<and> \<not> owns \<and> lost = None then Some (ti_monotonic i) else lost)
      in case (owns, lost1) of
           (True, Some t0) \<Rightarrow>
             (None, if ti_ttl i * ORPHAN_RESCAN_LEASE_LOST_MULT < ti_monotonic i - t0 then False else handled)
         | _ \<Rightarrow> (lost1, handled))"

record turn_result =
  tr_scanned :: bool
  tr_claimed_any :: bool
  tr_resumable :: "(string, task_dict list) dict"

definition loop_turn :: "turn_input \<Rightarrow> worker \<times> queue_db \<Rightarrow> (py_error + (turn_result \<times> worker \<times> queue_db)) option" where
  "loop_turn i s =
     (case s of (w, db) \<Rightarrow>
        (case acquire_or_renew_lease (ti_name i) (ti_owner i) (ti_ttl i) (ti_epoch i) (ti_now i) db of
           (owns, db1) \<Rightarrow>
             (case drain_finished_tasks i (wk_slots w, db1) of
                Inl e \<Rightarrow> Some (Inl e)
              | Inr (slots, db2) \<Rightarrow>
                  (case track_lease i (wk_owns_lease w) owns (wk_lease_lost w) (wk_orphans_handled w) of
                     (lost, handled) \<Rightarrow>
                       (let scan = owns \<and> \<not> handled;
                            w1 = \<lparr>wk_owns_lease = owns, wk_orphans_handled = handled \<or> scan, wk_lease_lost = lost, wk_slots = slots\<rparr>
                        in case (if scan then handle_orphan_tasks_on_start (we_project (ti_env i)) (ti_load i) (active_task_ids slots) (ti_now i) db2
                                 else Inr ([], db2)) of
                             Inl e \<Rightarrow> Some (Inl e)
                           | Inr (buckets, db3) \<Rightarrow>
                               if \<not> owns then Some (Inr (\<lparr>tr_scanned = scan, tr_claimed_any = False, tr_resumable = buckets\<rparr>, w1, db3))
                               else (case claim_tasks (ti_env i) (ti_now i) slots db3 of
                                       None \<Rightarrow> None
                                     | Some (Inl e) \<Rightarrow> Some (Inl e)
                                     | Some (Inr (claimed, slots1, db4)) \<Rightarrow>
                                         Some (Inr (\<lparr>tr_scanned = scan, tr_claimed_any = claimed, tr_resumable = buckets\<rparr>,
                                                    w1\<lparr>wk_slots := slots1\<rparr>, db4))))))))"

subsection \<open>Every outcome ends the task\<close>

definition ended :: "string \<Rightarrow> queue_db \<Rightarrow> bool" where
  "ended tid db \<longleftrightarrow> (\<exists>r. find_task (tasks db) tid = Some r \<and> terminal (status r))"

definition listed :: "string \<Rightarrow> queue_db \<Rightarrow> bool" where
  "listed tid db \<longleftrightarrow> find_task (tasks db) tid \<noteq> None"

lemma ended_moves: "moves E db db' \<Longrightarrow> ended tid db \<Longrightarrow> ended tid db'"
  unfolding ended_def by (metis moves_some row_moves_def)

lemma listed_moves: "moves E db db' \<Longrightarrow> listed tid db' \<longleftrightarrow> listed tid db"
  unfolding listed_def using moves_ids [of E db db'] by (metis find_task_None set_map)

lemma mark_cancelled_ends:
  assumes ids: "ids_distinct db" and l: "listed tid db"
  obtains db' where "mark_task_cancelled tid now db = Inr db'" "moves settle_edge db db'" "ended tid db'"
proof -
  obtain res db' where f: "finalize_cancelled tid ''user'' now db = Inr (res, db')"
    using ids by (rule finalize_cancelled_total)
  then obtain acc where c: "mark_cancelled (Suc (length (tasks db))) ''user'' now tid (empty_acc, db) = Some (acc, db')"
    by (auto simp: finalize_cancelled_def cancel_fuel_def split: option.splits)
  have m: "moves settle_edge db db'" using ids f by (rule finalize_cancelled_settles)
  from ids have "ended tid db'"
  proof (cases rule: mark_cancelled_cases [of db "length (tasks db)" "''user''" now tid empty_acc])
    case miss
    obtain r where r: "find_task (tasks db) tid = Some r" using l by (auto simp: listed_def)
    with miss(2) have "\<not> cancellable r" by (meson find_task_id find_task_mem)
    then have "terminal (status r)" by (cases "status r") (simp_all add: cancellable_def)
    with r miss(1) c show ?thesis by (simp add: ended_def)
  next
    case (hit acc1 d1 r r')
    have ids1: "ids_distinct d1" using ids moves_ids [OF hit(1)] by simp
    from c hit(7) have run: "fold_opt (cancel_body (length (tasks db)) now) (map task_id (dependents tid d1)) (acc1, d1) = Some (acc, db')"
      by simp
    have "cancel_settles (acc1, d1) (acc, db')"
      by (rule cancel_loop.fold_opt_R [OF _ run]) (use cancel_body_settles [OF mark_settles] in blast)
    then have "moves settle_edge d1 db'" using ids1 by (simp add: settles_def)
    moreover have "ended tid d1" using hit(4,5) by (simp add: ended_def)
    ultimately show ?thesis by (rule ended_moves)
  qed
  then show ?thesis using that f m by (simp add: mark_task_cancelled_def)
qed

text \<open>What other clients do between two writes keeps the table in order and the row in place.\<close>

lemma gap_listed: "queue_run db db' \<Longrightarrow> table_inv db \<Longrightarrow> listed tid db \<Longrightarrow> table_inv db' \<and> listed tid db'"
  unfolding listed_def by (metis not_None_eq run_row table_inv_run)

lemma mark_task_cancelled_ends:
  "table_inv db \<Longrightarrow> listed tid db \<Longrightarrow> \<exists>db'. mark_task_cancelled tid now db = Inr db' \<and> ended tid db'"
  by (metis mark_cancelled_ends table_invD(1))

lemma unless_cancelled_ends:
  assumes "table_inv db" and "listed tid db" and "queue_run db (gap db)" and "rows = 0 \<or> ended tid db"
  shows "\<exists>db'. unless_cancelled gap tid now (rows, db) = Inr db' \<and> ended tid db'"
proof (cases "rows = 0")
  case True
  with gap_listed [OF assms(3,1,2)] mark_task_cancelled_ends show ?thesis by (simp add: unless_cancelled_def)
next
  case False
  with assms(4) show ?thesis by (simp add: unless_cancelled_def)
qed

lemma mark_failed_ends:
  assumes inv: "table_inv db" and l: "listed tid db"
  obtains n db' where "mark_failed tid m now db = Inr (n, db')" "table_inv db'" "listed tid db'" "n = 0 \<or> ended tid db'"
proof -
  note ids = table_invD(1) [OF inv]
  obtain n db' where f: "mark_failed tid m now db = Inr (n, db')" using ids by (rule mark_failed_total)
  have inv': "table_inv db'" using table_inv_step [OF s_fail [OF f] inv] .
  have l': "listed tid db'" using listed_moves [OF mark_failed_moves [OF ids f]] l by simp
  obtain r where r: "find_task (tasks db) tid = Some r" using l by (auto simp: listed_def)
  have "n = 0 \<or> ended tid db'"
  proof (cases "status r = Running")
    case True
    from ids r True obtain n' d r' where "mark_failed tid m now db = Inr (n', d)" "find_task (tasks d) tid = Some r'" "status r' = Failed"
      by (rule mark_failed_row)
    with f show ?thesis by (simp add: ended_def)
  next
    case False
    obtain k db1 where u: "fail_task Running tid m now db = (k, db1)" by (rule prod.exhaust)
    have "k = 0" using fail_task_hit [OF ids u] r False by (metis option.inject)
    with u f show ?thesis by (simp add: mark_failed_def mark_failed_running_def)
  qed
  with that f inv' l' show ?thesis by blast
qed

lemma fail_or_cancel_ends:
  assumes "table_inv db" and "listed tid db" and "\<And>d. queue_run d (gap d)" and "msg = Inr m"
  shows "\<exists>db'. fail_or_cancel gap tid msg now db = Inr db' \<and> ended tid db'"
proof -
  from assms(1,2) obtain n db' where f: "mark_failed tid m now db = Inr (n, db')" "table_inv db'" "listed tid db'" "n = 0 \<or> ended tid db'"
    by (rule mark_failed_ends)
  from unless_cancelled_ends [where gap = gap, OF f(2,3) assms(3) [of db'] f(4), of now] f(1) show ?thesis by (simp add: fail_or_cancel_def assms(4))
qed

lemma known_codes:
  "known_code ''script_edit_error''" "known_code ''dispatch_provider_requeue_failed''" "known_code ''restart_lost_no_job_id''"
  "known_code ''restart_lost_checkpoint_no_job_id''" "known_code ''execution_identity_unrecoverable''"
  "known_code ''restart_lost_resume_no_job_id''" "known_code ''resume_unsupported_detail''"
  "known_code ''resume_endpoint_changed_detail''" "known_code ''resume_expired_detail''"
  "known_code ''restart_lost_image''" "known_code ''restart_lost_audio''" "known_code ''restart_lost_text''"
  "known_code ''resume_unsupported_provider''" "known_code ''resume_unsupported_capacity_zero''"
  by code_simp+

lemma known_encodes: "known_code c \<Longrightarrow> encode_failure c ps = Inr (failure_text c ps)"
  by (simp add: encode_failure_def)

lemmas reason_texts = known_codes [THEN known_encodes]

lemma message_total: "\<exists>m. encode_task_failure_message e = Inr m"
  by (cases e) (auto simp: encode_task_failure_message_def reason_texts split: option.splits list.splits)

lemma resume_refusal_total: "\<exists>m. resume_refusal st = Inr m"
  by (cases st) (simp_all add: resume_refusal_def reason_texts)

lemma mark_succeeded_ends:
  assumes inv: "table_inv db" and l: "listed tid db" and u: "mark_succeeded tid result now db = (n, db')"
  shows "table_inv db'" and "listed tid db'" and "n = 0 \<or> ended tid db'"
proof -
  note ids = table_invD(1) [OF inv]
  show "table_inv db'" using table_inv_step [OF s_succeed inv, of tid result now] u by simp
  have m: "moves succeed_edge db db'" using mark_succeeded_moves [OF ids, of tid result now] u by simp
  show "listed tid db'" using listed_moves [OF m] l by simp
  let ?f = "\<lambda>r. r\<lparr>status := Succeeded, result_json := Some (json_dumps (PDict (coalesce result []))),
                 error_message := None, finished_at := Some now, updated_at := now\<rparr>"
  obtain k d1 where k: "update_task tid (\<lambda>r. status r = Running) ?f db = (k, d1)" by (rule prod.exhaust)
  show "n = 0 \<or> ended tid db'"
  proof (cases "k = 0")
    case True
    with k u show ?thesis by (simp add: mark_succeeded_def del: json_dumps.simps)
  next
    case False
    then have "fst (update_task tid (\<lambda>r. status r = Running) ?f db) \<noteq> 0" using k by simp
    then obtain r where r: "find_task (tasks db) tid = Some r" "status r = Running" by (rule update_task_hit [OF ids])
    have "tasks db' = tasks (snd (update_task tid (\<lambda>r. status r = Running) ?f db))"
      using u k False by (auto simp: mark_succeeded_def simp del: json_dumps.simps)
    then have "find_task (tasks db') tid = Some (?f r)"
      using r find_task_id [OF r(1)] by (simp add: update_task_def find_task_update del: json_dumps.simps)
    then show ?thesis by (simp add: ended_def del: json_dumps.simps)
  qed
qed

lemma returned_ends:
  assumes "table_inv db" and "listed tid db" and "\<And>d. queue_run d (gap d)"
  shows "\<exists>db'. unless_cancelled gap tid now (mark_succeeded tid result now db) = Inr db' \<and> ended tid db'"
proof -
  obtain n db' where u: "mark_succeeded tid result now db = (n, db')" by (rule prod.exhaust)
  note e = mark_succeeded_ends [OF assms(1,2) u]
  from unless_cancelled_ends [where gap = gap, OF e(1,2) assms(3) [of db'] e(3), of now] u
  show ?thesis by simp
qed

text \<open>
  C32: However a job ends, and whatever other clients of the queue do between the worker's writes,
  its task ends in a final status; only a job whose provider has changed may instead leave its
  task waiting for a new slot.
\<close>
theorem process_task_settles:
  assumes "queue_run empty_queue db" and "find_task (tasks db) tid \<noteq> None" and "\<And>k d. queue_run d (gap k d)"
  shows "\<exists>db' r. process_task gap tid outcome now db = Inr db' \<and> find_task (tasks db') tid = Some r
    \<and> (terminal (status r) \<or> (\<exists>claimed actual. outcome = ProviderChanged claimed actual \<and> status r = Queued))"
proof -
  have inv: "table_inv db" and l: "listed tid db" using run_table_inv [OF assms(1)] assms(2) by (simp_all add: listed_def)
  have "(\<exists>db'. process_task gap tid outcome now db = Inr db' \<and> ended tid db') \<or>
     (\<exists>db' r claimed actual. process_task gap tid outcome now db = Inr db' \<and> outcome = ProviderChanged claimed actual
        \<and> find_task (tasks db') tid = Some r \<and> status r = Queued)"
  proof (cases outcome)
    case (Returned result)
    with returned_ends [where gap = "gap 0", OF inv l assms(3)] show ?thesis by (simp add: process_task_def)
  next
    case CancelledNow
    with mark_task_cancelled_ends [OF inv l] show ?thesis by (simp add: process_task_def)
  next
    case (Raised e)
    obtain m where "encode_task_failure_message e = Inr m" using message_total by blast
    from fail_or_cancel_ends [where gap = "gap 0", OF inv l assms(3) this] Raised show ?thesis by (simp add: process_task_def)
  next
    case (ProviderChanged claimed actual)
    let ?d0 = "persist_execution_provider_id tid actual now db"
    let ?g = "\<lambda>r. r\<lparr>status := Queued, started_at := None, updated_at := now\<rparr>"
    have s0: "queue_step db ?d0" by (rule s_provider)
    have "queue_run db (gap 0 ?d0)" using s0 assms(3) by (meson converse_rtranclp_into_rtranclp)
    from gap_listed [OF this inv l] have i1: "table_inv (gap 0 ?d0)" "listed tid (gap 0 ?d0)" by simp_all
    note ids = table_invD(1) [OF i1(1)]
    obtain n d1 where u: "update_task tid (\<lambda>r. status r = Running) ?g (gap 0 ?d0) = (n, d1)" by (rule prod.exhaust)
    show ?thesis
    proof (cases "n = 0")
      case True
      let ?ps = "[(''claimed_provider_id'', PStr claimed), (''actual_provider_id'', PStr actual)]"
      have q: "requeue_single_task tid now (gap 0 ?d0) = (False, gap 0 ?d0)"
        using u True by (simp add: requeue_single_task_def)
      from gap_listed [OF assms(3) i1] have "table_inv (gap 1 (gap 0 ?d0))" "listed tid (gap 1 (gap 0 ?d0))" by simp_all
      from fail_or_cancel_ends [where gap = "gap 2", OF this assms(3) reason_texts(2) [of ?ps]] q ProviderChanged
      show ?thesis by (simp add: process_task_def)
    next
      case False
      then have "fst (update_task tid (\<lambda>r. status r = Running) ?g (gap 0 ?d0)) \<noteq> 0" using u by simp
      then obtain r where r: "find_task (tasks (gap 0 ?d0)) tid = Some r" "status r = Running" by (rule update_task_hit [OF ids])
      have q: "requeue_single_task tid now (gap 0 ?d0) = (True, d1)" using u False by (simp add: requeue_single_task_def)
      have "d1 = snd (update_task tid (\<lambda>r. status r = Running) ?g (gap 0 ?d0))" using u by simp
      then have "find_task (tasks d1) tid = Some (?g r)"
        using r find_task_id [OF r(1)] by (simp add: update_task_def find_task_update)
      with q ProviderChanged show ?thesis by (auto simp: process_task_def)
    qed
  qed
  then show ?thesis unfolding ended_def by blast
qed

text \<open>A resumed video ends in every case.\<close>

lemma process_resume_ends:
  assumes "table_inv db" and "listed (text_at t ''task_id'') db" and "\<And>d. queue_run d (gap d)"
  shows "\<exists>db'. process_resume_task gap load t outcome now db = Inr db' \<and> ended (text_at t ''task_id'') db'"
proof -
  obtain m where m: "resume_refusal (fst (classify_video_resume_state load t)) = Inr m" using resume_refusal_total by blast
  note foc = fail_or_cancel_ends [where gap = gap, OF assms]
  obtain m' where m': "\<And>e. outcome = ResumeRaised e \<Longrightarrow> encode_task_failure_message e = Inr m'"
    by (metis message_total resume_outcome.inject(5))
  show ?thesis
    unfolding process_resume_task_def Let_def
    using foc [OF m] foc [OF reason_texts(6)] foc [OF reason_texts(7)] foc [OF reason_texts(8)] foc [OF reason_texts(9)] foc [OF m']
      returned_ends [where gap = gap, OF assms] mark_task_cancelled_ends [OF assms(1,2)]
    by (cases outcome) simp_all
qed

lemma process_task_settles_witness:
  "\<exists>db'. process_task (\<lambda>k d. snd (mark_cancelling ''a'' ''user'' 8 d)) ''a'' (Returned None) 9 demo_running = Inr db'
     \<and> map status (tasks db') = [Succeeded, Queued]"
proof -
  let ?gap = "\<lambda>(k :: nat) d. snd (mark_cancelling ''a'' ''user'' 8 d)"
  have g: "queue_run d (?gap k d)" for k d using s_cancelling by blast
  have f: "find_task (tasks demo_running) ''a'' \<noteq> None" by code_simp
  from process_task_settles [OF demo_runs(2) f g, of "Returned None" 9] obtain db'
    where e: "process_task ?gap ''a'' (Returned None) 9 demo_running = Inr db'" by blast
  have "case process_task ?gap ''a'' (Returned None) 9 demo_running of Inr d \<Rightarrow> map status (tasks d) = [Succeeded, Queued] | Inl _ \<Rightarrow> False"
    by code_simp
  with e show ?thesis by simp
qed

subsection \<open>Orphans after a restart\<close>

text \<open>Failing, cancelling and being signalled, but never queued or running again.\<close>

definition end_edge :: edges where
  "end_edge s t \<longleftrightarrow> fail_edge s t \<or> settle_edge s t"

lemma composes_end [simp]: "composes end_edge"
  by (auto simp: composes_def end_edge_def edge_defs)

lemma end_edges: "moves fail_edge a b \<Longrightarrow> moves end_edge a b" "moves settle_edge a b \<Longrightarrow> moves end_edge a b"
  by (auto elim!: moves_weaken simp: end_edge_def)

lemma mark_task_cancelled_step:
  assumes "table_inv db" and "listed tid db"
  obtains db' where "mark_task_cancelled tid now db = Inr db'" "table_inv db'" "moves end_edge db db'" "ended tid db'"
proof -
  obtain db' where c: "mark_task_cancelled tid now db = Inr db'" "moves settle_edge db db'" "ended tid db'"
    using table_invD(1) [OF assms(1)] assms(2) by (rule mark_cancelled_ends)
  then obtain res where "finalize_cancelled tid ''user'' now db = Inr (res, db')"
    by (auto simp: mark_task_cancelled_def map_sum_Inr_iff)
  with assms(1) c that show ?thesis using table_inv_step [OF s_finalize] end_edges(2) by blast
qed

lemma fail_or_cancel_step:
  assumes "table_inv db" and "listed tid db" and "msg = Inr m"
  obtains db' where "fail_or_cancel id tid msg now db = Inr db'" "table_inv db'" "moves end_edge db db'" "ended tid db'"
proof -
  from assms(1,2) obtain n d1 where f: "mark_failed tid m now db = Inr (n, d1)" "table_inv d1" "listed tid d1" "n = 0 \<or> ended tid d1"
    by (rule mark_failed_ends)
  have m1: "moves end_edge db d1" using mark_failed_moves [OF table_invD(1) [OF assms(1)] f(1)] by (rule end_edges)
  show ?thesis
  proof (cases "n = 0")
    case True
    from f(2,3) obtain db' where c: "mark_task_cancelled tid now d1 = Inr db'" "table_inv db'" "moves end_edge d1 db'" "ended tid db'"
      by (rule mark_task_cancelled_step)
    have "moves end_edge db db'" using composes_end m1 c(3) by (rule moves_trans)
    with True f(1) c that show ?thesis by (simp add: fail_or_cancel_def unless_cancelled_def assms(3))
  next
    case False
    with f m1 that show ?thesis by (simp add: fail_or_cancel_def unless_cancelled_def assms(3))
  qed
qed

text \<open>What a task in the hands of the resumption has to offer.\<close>

definition resumable :: "(task_dict \<Rightarrow> py_error + string) \<Rightarrow> task_dict \<Rightarrow> string \<Rightarrow> bool" where
  "resumable load t p \<longleftrightarrow>
     text_at t ''status'' \<noteq> ''cancelling'' \<and> p \<notin> set NON_RESUMABLE_VIDEO_PROVIDERS \<and> text_at t ''provider_job_id'' \<noteq> []
     \<and> (is_video_type t \<longrightarrow> load t = Inr p)"

definition in_bucket :: "(string, task_dict list) dict \<Rightarrow> string \<Rightarrow> task_dict \<Rightarrow> bool" where
  "in_bucket buckets p t \<longleftrightarrow> dict_set t ''provider_id'' (PStr p) \<in> set (dict_get_or buckets p [])"

lemma in_bucket_append:
  "in_bucket b p t \<Longrightarrow> in_bucket (dict_append b q u) p t" "in_bucket (dict_append b p (dict_set t ''provider_id'' (PStr p))) p t"
  by (auto simp: in_bucket_def dict_append_def dict_get_or_def split: option.splits)

lemma classify_ready: "classify_video_resume_state load t = (ReadyToResume, c) \<Longrightarrow> \<exists>p. c = Some p \<and> load t = Inr p"
  by (auto simp: classify_video_resume_state_def Let_def split: if_splits sum.splits)

lemma handle_orphan_step:
  assumes "table_inv db" and "listed (text_at t ''task_id'') db"
  shows "\<exists>b' db'. handle_orphan project load act now t (b, db) = Inr (b', db') \<and> table_inv db' \<and> moves end_edge db db'
    \<and> (\<forall>p u. in_bucket b p u \<longrightarrow> in_bucket b' p u)
    \<and> (text_at t ''task_id'' \<in> set act \<or> ended (text_at t ''task_id'') db' \<or> (\<exists>p. resumable load t p \<and> in_bucket b' p t))"
proof -
  let ?tid = "text_at t ''task_id''"
  define good where "good res \<longleftrightarrow> (\<exists>b' db'. res = Inr (b', db') \<and> table_inv db' \<and> moves end_edge db db'
    \<and> (\<forall>p u. in_bucket b p u \<longrightarrow> in_bucket b' p u)
    \<and> (?tid \<in> set act \<or> ended ?tid db' \<or> (\<exists>p. resumable load t p \<and> in_bucket b' p t)))" for res :: "py_error + orphan_state"
  have lost: "good (map_sum id (Pair b) (fail_or_cancel id ?tid msg now db))" if "msg = Inr m" for msg m
    using assms that unfolding good_def by (rule fail_or_cancel_step [where now = now]) auto
  have lost_code: "known_code c \<Longrightarrow> good (map_sum id (Pair b) (fail_or_cancel id ?tid (encode_failure c ps) now db))" for c ps
    by (rule lost) (rule known_encodes)
  have gone: "good (map_sum id (Pair b) (mark_task_cancelled ?tid now db))"
    using assms unfolding good_def by (rule mark_task_cancelled_step [where now = now]) auto
  obtain st cp where oc: "orphan_checkpoint load t = (st, cp)" by (rule prod.exhaust)
  obtain m where m: "resume_refusal st = Inr m" using resume_refusal_total by blast
  let ?p = "orphan_provider project t cp"
  have ready: "is_video_type t \<longrightarrow> load t = Inr ?p" if "st = ReadyToResume"
    using oc that by (auto simp: orphan_checkpoint_def orphan_provider_def split: if_splits dest: classify_ready)
  have keep: "good (Inr (dict_append b ?p (dict_set t ''provider_id'' (PStr ?p)), db))"
    if "st = ReadyToResume" "text_at t ''status'' \<noteq> ''cancelling''" "?p \<notin> set NON_RESUMABLE_VIDEO_PROVIDERS" "text_at t ''provider_job_id'' \<noteq> []"
    unfolding good_def using assms(1) ready [OF that(1)] that in_bucket_append [of b] by (auto simp: resumable_def)
  have same: "good (Inr (b, db))" if "?tid \<in> set act" using assms(1) that by (simp add: good_def)
  have "good (handle_orphan project load act now t (b, db))"
    unfolding handle_orphan_def prod.case Let_def oc
    using same gone keep lost [OF m] lost_code known_codes by (simp only: split: if_split) blast
  then show ?thesis unfolding good_def .
qed

lemma handle_orphans_each:
  assumes "table_inv db" and "\<And>t. t \<in> set ts \<Longrightarrow> listed (text_at t ''task_id'') db"
  shows "\<exists>b' db'. each (handle_orphan project load act now) ts (b, db) = Inr (b', db') \<and> table_inv db' \<and> moves end_edge db db'
    \<and> (\<forall>p u. in_bucket b p u \<longrightarrow> in_bucket b' p u)
    \<and> (\<forall>t \<in> set ts. text_at t ''task_id'' \<in> set act \<or> ended (text_at t ''task_id'') db' \<or> (\<exists>p. resumable load t p \<and> in_bucket b' p t))"
  using assms
proof (induction ts arbitrary: b db)
  case (Cons t ts)
  have "listed (text_at t ''task_id'') db" using Cons.prems(2) by simp
  from handle_orphan_step [OF Cons.prems(1) this, of project load act now b] obtain b1 d1
    where 1: "handle_orphan project load act now t (b, db) = Inr (b1, d1)" "table_inv d1" "moves end_edge db d1"
      "\<And>p u. in_bucket b p u \<Longrightarrow> in_bucket b1 p u"
      "text_at t ''task_id'' \<in> set act \<or> ended (text_at t ''task_id'') d1 \<or> (\<exists>p. resumable load t p \<and> in_bucket b1 p t)" by blast
  have "listed (text_at u ''task_id'') d1" if "u \<in> set ts" for u
    using Cons.prems(2) [of u] that listed_moves [OF 1(3)] by simp
  from Cons.IH [OF 1(2) this, of b1] obtain b' db'
    where 2: "each (handle_orphan project load act now) ts (b1, d1) = Inr (b', db')" "table_inv db'" "moves end_edge d1 db'"
      "\<And>p u. in_bucket b1 p u \<Longrightarrow> in_bucket b' p u"
      "\<forall>t \<in> set ts. text_at t ''task_id'' \<in> set act \<or> ended (text_at t ''task_id'') db' \<or> (\<exists>p. resumable load t p \<and> in_bucket b' p t)" by blast
  have "moves end_edge db db'" using composes_end 1(3) 2(3) by (rule moves_trans)
  moreover have "text_at t ''task_id'' \<in> set act \<or> ended (text_at t ''task_id'') db' \<or> (\<exists>p. resumable load t p \<and> in_bucket b' p t)"
    using 1(5) 2(4) ended_moves [OF 2(3)] by blast
  ultimately show ?case using 1(1,4) 2 by auto
qed simp

text \<open>
  C33: After a restart every task that was left running or being cancelled, and that this process
  does not hold itself, is ended or handed to the resumption, which only gets running tasks with a
  submitted job, a readable checkpoint of the same provider and a provider that can resume; no task
  is ever queued or started again, so nothing is submitted twice.
\<close>
theorem orphans_settled:
  assumes "queue_run empty_queue db"
  shows "\<exists>buckets db'. handle_orphan_tasks_on_start project load act now db = Inr (buckets, db')
    \<and> list_all2 (row_moves end_edge) (tasks db) (tasks db')
    \<and> (\<forall>r \<in> set (tasks db). status r \<in> {Running, Cancelling} \<longrightarrow> task_id r \<notin> set act \<longrightarrow>
         (\<exists>r'. find_task (tasks db') (task_id r) = Some r' \<and> terminal (status r'))
         \<or> (\<exists>p. status r = Running \<and> p \<notin> set NON_RESUMABLE_VIDEO_PROVIDERS \<and> truthy_str (provider_job_id r)
              \<and> (task_type r \<in> {''video'', ''reference_video''} \<longrightarrow> load (task_to_dict r) = Inr p)
              \<and> dict_set (task_to_dict r) ''provider_id'' (PStr p) \<in> set (dict_get_or buckets p [])))"
proof -
  have inv: "table_inv db" using run_table_inv [OF assms] .
  note ids = table_invD(1) [OF inv]
  have "listed (text_at t ''task_id'') db" if "t \<in> set (list_orphan_tasks_on_start db)" for t
    using that find_task_in [OF ids] by (auto simp: list_orphan_tasks_on_start_def listed_def)
  from handle_orphans_each [where project = project and load = load and act = act and now = now and b = "[]", OF inv this] obtain b' db'
    where h: "handle_orphan_tasks_on_start project load act now db = Inr (b', db')" "moves end_edge db db'"
      "\<And>t. t \<in> set (list_orphan_tasks_on_start db) \<Longrightarrow>
         text_at t ''task_id'' \<in> set act \<or> ended (text_at t ''task_id'') db' \<or> (\<exists>p. resumable load t p \<and> in_bucket b' p t)"
    unfolding handle_orphan_tasks_on_start_def by blast
  have out: "ended (task_id r) db' \<or> (\<exists>p. status r = Running \<and> p \<notin> set NON_RESUMABLE_VIDEO_PROVIDERS \<and> truthy_str (provider_job_id r)
              \<and> (task_type r \<in> {''video'', ''reference_video''} \<longrightarrow> load (task_to_dict r) = Inr p)
              \<and> dict_set (task_to_dict r) ''provider_id'' (PStr p) \<in> set (dict_get_or b' p []))"
    if r: "r \<in> set (tasks db)" "status r \<in> {Running, Cancelling}" "task_id r \<notin> set act" for r
  proof -
    have "task_to_dict r \<in> set (list_orphan_tasks_on_start db)" using r by (auto simp: list_orphan_tasks_on_start_def)
    from h(3) [OF this] r(3) consider "ended (task_id r) db'" | p where "resumable load (task_to_dict r) p" "in_bucket b' p (task_to_dict r)"
      by auto
    then show ?thesis
    proof cases
      case (2 p)
      have t: "text_at (task_to_dict r) ''status'' = status_name (status r)"
        "text_at (task_to_dict r) ''provider_job_id'' = or_str (provider_job_id r) []"
        "is_video_type (task_to_dict r) \<longleftrightarrow> task_type r \<in> {''video'', ''reference_video''}"
        by (simp_all add: text_at_def is_video_type_def task_to_dict_def opt_str_def or_str_def split: option.splits)
      have "status r \<noteq> Cancelling" using 2(1) t(1) by (auto simp: resumable_def)
      with r(2) have "status r = Running" by simp
      with 2 t(2,3) show ?thesis
        by (auto simp: resumable_def in_bucket_def truthy_str_def or_str_def split: option.splits if_splits)
    qed simp
  qed
  have "list_all2 (row_moves end_edge) (tasks db) (tasks db')" using h(2) by (simp add: moves_def table_moves_def)
  with h(1) out show ?thesis unfolding ended_def by blast
qed

text \<open>Of two running tasks one was never submitted and is given up; the other is resumed.\<close>

definition demo_orphans :: queue_db where
  "demo_orphans = snd (claim_next ''video'' None None 6
     (persist_provider_job_id ''a'' ''job-1'' None None 5 (snd (claim_next ''video'' None None 4 demo_two))))"

lemma demo_two_run: "queue_run empty_queue demo_two"
proof -
  have e1: "enqueue ''a'' 1 (demo_args ''r1'' None) None empty_queue =
     Inr (\<lparr>er_task_id = ''a'', er_status = Queued, er_deduped = False, er_existing_task_id = None, er_existing_payload = None\<rparr>,
       empty_queue\<lparr>tasks := [new_task ''a'' 1 (demo_args ''r1'' None)]\<rparr>)" by code_simp
  have e2: "enqueue ''b'' 2 (demo_args ''r2'' None) None (empty_queue\<lparr>tasks := [new_task ''a'' 1 (demo_args ''r1'' None)]\<rparr>) =
     Inr (\<lparr>er_task_id = ''b'', er_status = Queued, er_deduped = False, er_existing_task_id = None, er_existing_payload = None\<rparr>, demo_two)"
    by code_simp
  from s_enqueue [OF e1] s_enqueue [OF e2] show ?thesis by (meson rtranclp.simps)
qed

lemma orphans_settled_witness:
  "\<exists>buckets db'. handle_orphan_tasks_on_start (\<lambda>t. ''ark'') (\<lambda>t. Inl (ValueError ''checkpoint'')) [] 7 demo_orphans = Inr (buckets, db')
     \<and> map status (tasks db') = [Failed, Failed]"
proof -
  let ?h = "handle_orphan_tasks_on_start (\<lambda>t. ''ark'') (\<lambda>t. Inl (ValueError ''checkpoint'')) [] 7 demo_orphans"
  have "queue_run empty_queue demo_orphans"
    unfolding demo_orphans_def by (meson demo_two_run rtranclp.rtrancl_into_rtrancl s_claim s_job_id)
  from orphans_settled [where project = "\<lambda>t. ''ark''" and load = "\<lambda>t. Inl (ValueError ''checkpoint'')" and act = "[]" and now = 7, OF this]
  obtain b d where e: "?h = Inr (b, d)" by blast
  have "case ?h of Inr (_, d) \<Rightarrow> map status (tasks d) = [Failed, Failed] | Inl _ \<Rightarrow> False" by code_simp
  with e show ?thesis by simp
qed

subsection \<open>One turn of the main loop\<close>

definition drain_one :: "turn_input \<Rightarrow> string \<times> worker_job \<Rightarrow> queue_db \<Rightarrow> py_error + queue_db" where
  "drain_one i = (\<lambda>(tid, job) db. if ti_cancelled i job then mark_task_cancelled tid (ti_now i) db else Inr db)"

lemma mark_task_cancelled_total:
  assumes "table_inv db"
  obtains db' where "mark_task_cancelled tid now db = Inr db'" "table_inv db'" "moves settle_edge db db'"
proof -
  note ids = table_invD(1) [OF assms]
  obtain res db' where f: "finalize_cancelled tid ''user'' now db = Inr (res, db')" using ids by (rule finalize_cancelled_total)
  have "table_inv db'" using table_inv_step [OF s_finalize [OF f] assms] .
  moreover have "moves settle_edge db db'" using ids f by (rule finalize_cancelled_settles)
  ultimately show ?thesis using that f by (simp add: mark_task_cancelled_def)
qed

lemma drain_each:
  assumes "table_inv db"
  shows "\<exists>db'. each (drain_one i) ended_jobs db = Inr db' \<and> table_inv db' \<and> moves settle_edge db db'"
  using assms
proof (induction ended_jobs arbitrary: db)
  case (Cons x xs)
  obtain tid job where x: "x = (tid, job)" by (cases x)
  obtain d1 where 1: "drain_one i x db = Inr d1" "table_inv d1" "moves settle_edge db d1"
  proof (cases "ti_cancelled i job")
    case True
    from Cons.prems obtain d where "mark_task_cancelled tid (ti_now i) db = Inr d" "table_inv d" "moves settle_edge db d"
      by (rule mark_task_cancelled_total)
    with True that show ?thesis by (simp add: drain_one_def x)
  next
    case False
    with Cons.prems that show ?thesis by (simp add: drain_one_def x)
  qed
  from Cons.IH [OF 1(2)] obtain db' where 2: "each (drain_one i) xs d1 = Inr db'" "table_inv db'" "moves settle_edge d1 db'" by blast
  have "moves settle_edge db db'" using composes_edges(5) 1(3) 2(3) by (rule moves_trans)
  with 1(1) 2 show ?case by simp
qed simp

lemma drain_finished_tasks_total:
  assumes "table_inv db" and "slots_ok slots"
  obtains slots' db' where "drain_finished_tasks i (slots, db) = Inr (slots', db')" "table_inv db'" "slots_ok slots'" "moves settle_edge db db'"
proof -
  obtain out slots' where d: "drain_finished (ti_finished i) slots = (out, slots')" by (rule prod.exhaust)
  have "slots_ok slots'" using slots_ok_drain [OF assms(2), of "ti_finished i"] d by simp
  moreover from drain_each [OF assms(1), of i out] obtain db'
    where "each (drain_one i) out db = Inr db'" "table_inv db'" "moves settle_edge db db'" by blast
  ultimately show ?thesis using that d by (simp add: drain_finished_tasks_def drain_one_def)
qed

lemma lease_keeps:
  assumes "table_inv db" and "acquire_or_renew_lease name owner ttl epoch now db = (owns, db1)"
  shows "table_inv db1" and "tasks db1 = tasks db"
  using table_inv_step [OF s_lease assms(1), of name owner ttl epoch now] lease_same [of db name owner ttl epoch now] assms(2)
  by (simp_all add: same_tasks_def)

lemma track_lease_owned:
  "track_lease i had True lost handled =
     (None, case lost of None \<Rightarrow> handled | Some t0 \<Rightarrow> if ti_ttl i * ORPHAN_RESCAN_LEASE_LOST_MULT < ti_monotonic i - t0 then False else handled)"
  by (simp add: track_lease_def split: option.splits)

lemma handle_orphans_total:
  assumes inv: "table_inv db"
  obtains b' db' where "handle_orphan_tasks_on_start project load act now db = Inr (b', db')" "table_inv db'"
proof -
  have "listed (text_at t ''task_id'') db" if "t \<in> set (list_orphan_tasks_on_start db)" for t
    using that find_task_in [OF table_invD(1) [OF inv]] by (auto simp: list_orphan_tasks_on_start_def listed_def)
  from handle_orphans_each [where project = project and load = load and act = act and now = now and b = "[]", OF inv this] that
  show ?thesis unfolding handle_orphan_tasks_on_start_def by blast
qed

text \<open>
  C34: A turn of the main loop always comes to its end. Without the lease it claims nothing, looks at
  no orphan and only settles jobs of its own that were cancelled; with it, it looks at the orphans
  exactly when this process has not done so yet or has been without the lease for more than three
  times its duration.
\<close>
theorem turn_follows_lease:
  assumes "queue_run empty_queue db" and "slots_ok (wk_slots w)"
  shows "\<exists>res w' db'. loop_turn i (w, db) = Some (Inr (res, w', db'))
    \<and> wk_owns_lease w' = fst (acquire_or_renew_lease (ti_name i) (ti_owner i) (ti_ttl i) (ti_epoch i) (ti_now i) db)
    \<and> slots_ok (wk_slots w')
    \<and> (tr_scanned res \<longleftrightarrow> wk_owns_lease w' \<and> (\<not> wk_orphans_handled w
         \<or> (\<exists>t0. wk_lease_lost w = Some t0 \<and> ti_ttl i * 3 < ti_monotonic i - t0)))
    \<and> (wk_owns_lease w' \<or> \<not> tr_claimed_any res \<and> tr_resumable res = [] \<and> list_all2 (row_moves settle_edge) (tasks db) (tasks db'))"
proof -
  have inv: "table_inv db" using run_table_inv [OF assms(1)] .
  obtain owns db1 where l: "acquire_or_renew_lease (ti_name i) (ti_owner i) (ti_ttl i) (ti_epoch i) (ti_now i) db = (owns, db1)"
    by (rule prod.exhaust)
  note k = lease_keeps [OF inv l]
  from k(1) assms(2) obtain slots db2 where d: "drain_finished_tasks i (wk_slots w, db1) = Inr (slots, db2)" "table_inv db2" "slots_ok slots"
    "moves settle_edge db1 db2" by (rule drain_finished_tasks_total)
  have rows: "list_all2 (row_moves settle_edge) (tasks db) (tasks db2)" using d(4) k(2) by (simp add: moves_def table_moves_def)
  obtain lost handled where t: "track_lease i (wk_owns_lease w) owns (wk_lease_lost w) (wk_orphans_handled w) = (lost, handled)"
    by (rule prod.exhaust)
  have h: "owns \<Longrightarrow> \<not> handled \<longleftrightarrow> \<not> wk_orphans_handled w \<or> (\<exists>t0. wk_lease_lost w = Some t0 \<and> ti_ttl i * 3 < ti_monotonic i - t0)"
    using t by (auto simp: track_lease_owned ORPHAN_RESCAN_LEASE_LOST_MULT_def split: option.splits if_splits)
  let ?scan = "owns \<and> \<not> handled"
  obtain b db3 where o: "(if ?scan then handle_orphan_tasks_on_start (we_project (ti_env i)) (ti_load i) (active_task_ids slots) (ti_now i) db2
      else Inr ([], db2)) = Inr (b, db3)" "table_inv db3" "\<not> owns \<Longrightarrow> b = [] \<and> db3 = db2"
    using d(2) by (cases ?scan)
      (auto elim: handle_orphans_total [where project = "we_project (ti_env i)" and load = "ti_load i" and act = "active_task_ids slots" and now = "ti_now i"])
  show ?thesis
  proof (cases owns)
    case False
    with l d(1,3) t o rows show ?thesis unfolding loop_turn_def by simp
  next
    case True
    from claim_lanes_run [OF table_invD(1) [OF o(2)] d(3), of "ti_env i" "ti_now i" worker_lanes False]
    obtain claimed slots1 db4 where c: "claim_tasks (ti_env i) (ti_now i) slots db3 = Some (Inr (claimed, slots1, db4))" "slots_ok slots1"
      by (auto simp: claim_tasks_def pass_done_def)
    from True l d(1) t o(1) c h [OF True] show ?thesis unfolding loop_turn_def by (simp add: Let_def)
  qed
qed

definition demo_turn :: turn_input where
  "demo_turn = \<lparr>ti_name = ''default'', ti_owner = ''worker-1'', ti_ttl = 10, ti_epoch = 100, ti_monotonic = 50, ti_now = 7,
     ti_finished = (\<lambda>j. False), ti_cancelled = (\<lambda>j. False), ti_env = demo_worker, ti_load = (\<lambda>t. Inl (ValueError ''checkpoint''))\<rparr>"

lemma turn_follows_lease_witness:
  "\<exists>res w' db'. loop_turn demo_turn (\<lparr>wk_owns_lease = False, wk_orphans_handled = True, wk_lease_lost = Some 10, wk_slots = []\<rparr>, demo_two)
     = Some (Inr (res, w', db')) \<and> wk_owns_lease w' \<and> tr_scanned res"
proof -
  let ?w = "\<lparr>wk_owns_lease = False, wk_orphans_handled = True, wk_lease_lost = Some 10, wk_slots = []\<rparr> :: worker"
  have ok: "slots_ok (wk_slots ?w)" by code_simp
  have "fst (acquire_or_renew_lease (ti_name demo_turn) (ti_owner demo_turn) (ti_ttl demo_turn) (ti_epoch demo_turn) (ti_now demo_turn) demo_two) = True"
    by (simp add: acquire_or_renew_lease_def demo_two_def empty_queue_def count_rows_def)
  moreover have "ti_ttl demo_turn * 3 < ti_monotonic demo_turn - 10" by (simp add: demo_turn_def)
  ultimately show ?thesis using turn_follows_lease [OF demo_two_run ok, of demo_turn] by auto
qed

end
