(* ===== verification/Version_Store.thy ===== *)
theory Version_Store
  imports Project_Paths "HOL-Library.List_Lexorder" "HOL-Library.Product_Lexorder"
begin

text \<open>
  The version history of generated media (lib/version_manager.py). The disk is the map from a path
  to the content of a file together with the parsed versions.json, which is absent or a table whose
  entries have the types the code writes. Every step of a commit that touches the disk or calls a
  hook may raise: \<open>fault k\<close> is the exception of the \<open>k\<close>-th step, if any, raised before the step has
  an effect. The handlers that undo a commit are modelled as they are written and do not fail
  themselves; temporary files, the lock and the log are left out. Clock readings are arguments.
\<close>

subsection \<open>Histories\<close>

record version_record =
  vr_version :: int
  vr_file :: string
  vr_prompt :: string
  vr_created_at :: string
  vr_metadata :: "(string, pyval) dict"
  vr_previous :: "int option"

record resource_history =
  rh_current :: int
  rh_versions :: "version_record list"

type_synonym version_table = "(string, (string, resource_history) dict) dict"

record 'c vdisk =
  vd_files :: "string \<Rightarrow> 'c option"
  vd_table :: "version_table option"

record stamp =
  st_file :: string
  st_iso :: string

type_synonym faults = "nat \<Rightarrow> py_error option"

definition PREVIOUS_CURRENT_VERSION :: string where
  "PREVIOUS_CURRENT_VERSION = ''_previous_current_version''"

definition RESOURCE_TYPES :: "string list" where
  "RESOURCE_TYPES = dict_keys PATTERNS"

definition load_versions :: "'c vdisk \<Rightarrow> version_table" where
  "load_versions d = (case vd_table d of None \<Rightarrow> map (\<lambda>rt. (rt, [])) RESOURCE_TYPES | Some t \<Rightarrow> t)"

definition save_versions :: "version_table \<Rightarrow> 'c vdisk \<Rightarrow> 'c vdisk" where
  "save_versions t d = d\<lparr>vd_table := Some t\<rparr>"

definition no_history :: resource_history where
  "no_history = \<lparr>rh_current = 0, rh_versions = []\<rparr>"

definition stored_history :: "version_table \<Rightarrow> string \<Rightarrow> string \<Rightarrow> resource_history option" where
  "stored_history t rtype rid = dict_get (dict_get_or t rtype []) rid"

definition history_of :: "version_table \<Rightarrow> string \<Rightarrow> string \<Rightarrow> resource_history" where
  "history_of t rtype rid = (case stored_history t rtype rid of None \<Rightarrow> no_history | Some h \<Rightarrow> h)"

definition put_history :: "version_table \<Rightarrow> string \<Rightarrow> string \<Rightarrow> resource_history \<Rightarrow> version_table" where
  "put_history t rtype rid h = dict_set t rtype (dict_set (dict_get_or t rtype []) rid h)"

text \<open>\<open>max(..., default=0) + 1\<close>.\<close>

definition next_version :: "version_record list \<Rightarrow> int" where
  "next_version rs = (case map vr_version rs of [] \<Rightarrow> 0 | v # vs \<Rightarrow> foldl max v vs) + 1"

definition version_extension :: "string \<Rightarrow> string" where
  "version_extension rtype = (case resource_extension rtype of Inr e \<Rightarrow> e | Inl _ \<Rightarrow> ''.png'')"

definition snapshot_path :: "stamp \<Rightarrow> string \<Rightarrow> string \<Rightarrow> int \<Rightarrow> string" where
  "snapshot_path st rtype rid v =
     ''versions/'' @ rtype @ ''/'' @ rid @ ''_v'' @ int_str v @ ''_'' @ st_file st @ version_extension rtype"

definition new_record :: "stamp \<Rightarrow> string \<Rightarrow> string \<Rightarrow> resource_history \<Rightarrow> string \<Rightarrow> (string, pyval) dict \<Rightarrow> version_record" where
  "new_record st rtype rid h prompt meta =
     (let v = next_version (rh_versions h)
      in \<lparr>vr_version = v, vr_file = snapshot_path st rtype rid v, vr_prompt = prompt, vr_created_at = st_iso st,
          vr_metadata = meta, vr_previous = Some (rh_current h)\<rparr>)"

definition with_record :: "version_record \<Rightarrow> resource_history \<Rightarrow> resource_history" where
  "with_record r h = h\<lparr>rh_versions := rh_versions h @ [r]\<rparr>"

definition write_file :: "string \<Rightarrow> 'c \<Rightarrow> 'c vdisk \<Rightarrow> 'c vdisk" where
  "write_file p c d = d\<lparr>vd_files := (vd_files d)(p \<mapsto> c)\<rparr>"

definition put_file :: "string \<Rightarrow> 'c option \<Rightarrow> 'c vdisk \<Rightarrow> 'c vdisk" where
  "put_file p c d = d\<lparr>vd_files := (vd_files d)(p := c)\<rparr>"

text \<open>\<open>os.replace(src, dst)\<close> of an existing file.\<close>

definition replace_file :: "string \<Rightarrow> string \<Rightarrow> 'c vdisk \<Rightarrow> 'c vdisk" where
  "replace_file src dst d = d\<lparr>vd_files := (vd_files d)(dst := vd_files d src, src := (if src = dst then vd_files d src else None))\<rparr>"

definition unlink_all :: "string list \<Rightarrow> 'c vdisk \<Rightarrow> 'c vdisk" where
  "unlink_all ps d = d\<lparr>vd_files := (\<lambda>p. if p \<in> set ps then None else vd_files d p)\<rparr>"

subsection \<open>Reading\<close>

record version_info =
  vi_record :: version_record
  vi_is_current :: bool
  vi_file_url :: string

definition get_versions :: "string \<Rightarrow> 'c vdisk \<Rightarrow> string \<Rightarrow> string \<Rightarrow> py_error + (int \<times> version_info list)" where
  "get_versions project d rtype rid =
     (if rtype \<notin> set RESOURCE_TYPES then Inl (ValueError ''unsupported_resource_type'')
      else (case stored_history (load_versions d) rtype rid of
              None \<Rightarrow> Inr (0, [])
            | Some h \<Rightarrow>
                Inr (rh_current h,
                     map (\<lambda>r. \<lparr>vi_record = r, vi_is_current = (vr_version r = rh_current h),
                               vi_file_url = ''/api/v1/files/'' @ project @ ''/'' @ vr_file r\<rparr>) (rh_versions h))))"

definition get_current_version :: "'c vdisk \<Rightarrow> string \<Rightarrow> string \<Rightarrow> py_error + int" where
  "get_current_version d rtype rid = map_sum id fst (get_versions [] d rtype rid)"

definition has_versions :: "'c vdisk \<Rightarrow> string \<Rightarrow> string \<Rightarrow> py_error + bool" where
  "has_versions d rtype rid = map_sum id (\<lambda>v. 0 < v) (get_current_version d rtype rid)"

definition find_version :: "version_record list \<Rightarrow> int \<Rightarrow> version_record option" where
  "find_version rs v = find (\<lambda>r. vr_version r = v) rs"

definition get_version_info :: "(version_info \<Rightarrow> 'a option) \<Rightarrow> string \<Rightarrow> 'c vdisk \<Rightarrow> string \<Rightarrow> string \<Rightarrow> int \<Rightarrow> py_error + 'a option" where
  "get_version_info field project d rtype rid v =
     map_sum id (\<lambda>(_, infos). Option.bind (find (\<lambda>i. vr_version (vi_record i) = v) infos) field) (get_versions project d rtype rid)"

text \<open>A reported version as the dictionary the code passes around.\<close>

definition info_fields :: "version_info \<Rightarrow> (string, pyval) dict" where
  "info_fields i =
     (let r = vi_record i
      in [(''version'', PInt (vr_version r)), (''file'', PStr (vr_file r)), (''prompt'', PStr (vr_prompt r)),
          (''created_at'', PStr (vr_created_at r))] @ vr_metadata r
         @ (case vr_previous r of None \<Rightarrow> [] | Some p \<Rightarrow> [(PREVIOUS_CURRENT_VERSION, PInt p)])
         @ [(''is_current'', PBool (vi_is_current i)), (''file_url'', PStr (vi_file_url i))])"

definition get_version_metadata :: "string \<Rightarrow> 'c vdisk \<Rightarrow> string \<Rightarrow> string \<Rightarrow> int \<Rightarrow> string \<Rightarrow> py_error + pyval option" where
  "get_version_metadata project d rtype rid v key = get_version_info (\<lambda>i. dict_get (info_fields i) key) project d rtype rid v"

definition get_version_file_url :: "string \<Rightarrow> 'c vdisk \<Rightarrow> string \<Rightarrow> string \<Rightarrow> int \<Rightarrow> py_error + string option" where
  "get_version_file_url project d rtype rid v = get_version_info (\<lambda>i. Some (vi_file_url i)) project d rtype rid v"

definition get_version_prompt :: "string \<Rightarrow> 'c vdisk \<Rightarrow> string \<Rightarrow> string \<Rightarrow> int \<Rightarrow> py_error + string option" where
  "get_version_prompt project d rtype rid v = get_version_info (\<lambda>i. Some (vr_prompt (vi_record i))) project d rtype rid v"

definition get_version_created_at :: "string \<Rightarrow> 'c vdisk \<Rightarrow> string \<Rightarrow> string \<Rightarrow> int \<Rightarrow> py_error + string option" where
  "get_version_created_at project d rtype rid v = get_version_info (\<lambda>i. Some (vr_created_at (vi_record i))) project d rtype rid v"

subsection \<open>Adding\<close>

definition add_version ::
  "stamp \<Rightarrow> string \<Rightarrow> string \<Rightarrow> string \<Rightarrow> string option \<Rightarrow> (string, pyval) dict \<Rightarrow> 'c vdisk \<Rightarrow> py_error + (int \<times> 'c vdisk)" where
  "add_version st rtype rid prompt source meta d =
     (if rtype \<notin> set RESOURCE_TYPES then Inl (ValueError ''unsupported resource type'')
      else
        (let t = load_versions d; h = history_of t rtype rid; r = new_record st rtype rid h prompt meta;
             d1 = (case Option.bind source (vd_files d) of None \<Rightarrow> d | Some c \<Rightarrow> write_file (vr_file r) c d)
         in Inr (vr_version r, save_versions (put_history t rtype rid ((with_record r h)\<lparr>rh_current := vr_version r\<rparr>)) d1)))"

definition backup_current ::
  "stamp \<Rightarrow> string \<Rightarrow> string \<Rightarrow> string \<Rightarrow> string \<Rightarrow> (string, pyval) dict \<Rightarrow> 'c vdisk \<Rightarrow> py_error + (int option \<times> 'c vdisk)" where
  "backup_current st rtype rid current prompt meta d =
     (if vd_files d current = None then Inr (None, d)
      else map_sum id (\<lambda>(v, d1). (Some v, d1)) (add_version st rtype rid prompt (Some current) meta d))"

definition ensure_current_tracked ::
  "stamp \<Rightarrow> string \<Rightarrow> string \<Rightarrow> string \<Rightarrow> string \<Rightarrow> (string, pyval) dict \<Rightarrow> 'c vdisk \<Rightarrow> py_error + (int option \<times> 'c vdisk)" where
  "ensure_current_tracked st rtype rid current prompt meta d =
     (if vd_files d current = None then Inr (None, d)
      else if rtype \<notin> set RESOURCE_TYPES then Inl (ValueError ''unsupported resource type'')
      else bind_e (get_current_version d rtype rid) (\<lambda>v.
             if 0 < v then Inr (None, d)
             else map_sum id (\<lambda>(v, d1). (Some v, d1)) (add_version st rtype rid prompt (Some current) meta d)))"

definition update_version_metadata ::
  "string \<Rightarrow> string \<Rightarrow> int \<Rightarrow> (string, pyval) dict \<Rightarrow> 'c vdisk \<Rightarrow> py_error + (bool \<times> 'c vdisk)" where
  "update_version_metadata rtype rid v meta d =
     (if rtype \<notin> set RESOURCE_TYPES then Inl (ValueError ''unsupported resource type'')
      else (let t = load_versions d
            in case stored_history t rtype rid of
                 None \<Rightarrow> Inr (False, d)
               | Some h \<Rightarrow>
                   (case find_version (rh_versions h) v of
                      None \<Rightarrow> Inr (False, d)
                    | Some r \<Rightarrow>
                        (let r1 = r\<lparr>vr_metadata := foldl (\<lambda>m (k, x). dict_set m k x) (vr_metadata r) meta\<rparr>;
                             n = length (takeWhile (\<lambda>x. vr_version x \<noteq> v) (rh_versions h))
                         in Inr (True, save_versions (put_history t rtype rid (h\<lparr>rh_versions := (rh_versions h)[n := r1]\<rparr>)) d)))))"

subsection \<open>Commits\<close>

text \<open>The work of a commit so far: the snapshots it has created and the disk.\<close>

type_synonym 'c work = "string list \<times> 'c vdisk"
type_synonym ('c, 'a) attempt = "(py_error \<times> 'c work) + 'a"

definition try_step :: "faults \<Rightarrow> nat \<Rightarrow> 'c work \<Rightarrow> ('c work \<Rightarrow> ('c, 'a) attempt) \<Rightarrow> ('c, 'a) attempt" where
  "try_step fault k w f = (case fault k of Some e \<Rightarrow> Inl (e, w) | None \<Rightarrow> f w)"

text \<open>\<open>_append_version\<close>: copy the content into the history and add its record; \<open>select\<close> also makes it current.\<close>

definition append_snapshot ::
  "bool \<Rightarrow> stamp \<Rightarrow> string \<Rightarrow> string \<Rightarrow> 'c \<Rightarrow> string \<Rightarrow> (string, pyval) dict \<Rightarrow> resource_history \<Rightarrow> 'c work \<Rightarrow> resource_history \<times> 'c work" where
  "append_snapshot select st rtype rid c prompt meta h w =
     (let r = new_record st rtype rid h prompt meta; h1 = with_record r h
      in ((if select then h1\<lparr>rh_current := vr_version r\<rparr> else h1), (fst w @ [vr_file r], write_file (vr_file r) c (snd w))))"

text \<open>A formal file without a history is tracked as its first version.\<close>

definition track_untracked ::
  "stamp \<Rightarrow> string \<Rightarrow> string \<Rightarrow> string \<Rightarrow> resource_history \<Rightarrow> 'c work \<Rightarrow> resource_history \<times> 'c work" where
  "track_untracked st rtype rid current h w =
     (case vd_files (snd w) current of
        None \<Rightarrow> (h, w)
      | Some old \<Rightarrow> if rh_current h = 0 then append_snapshot True st rtype rid old [] [] h w else (h, w))"

text \<open>The steps of one activation: back up, track an untracked file, snapshot the staged one, replace.\<close>

definition activate_staged ::
  "faults \<Rightarrow> nat \<Rightarrow> stamp \<Rightarrow> string \<Rightarrow> string \<Rightarrow> string \<Rightarrow> (string, pyval) dict \<Rightarrow> 'c \<Rightarrow> string \<Rightarrow> string
     \<Rightarrow> resource_history \<Rightarrow> 'c work \<Rightarrow> ('c, resource_history \<times> 'c work) attempt" where
  "activate_staged fault k st rtype rid prompt meta c staged current h w =
     try_step fault k w (\<lambda>w.
       try_step fault (k + 1) w (\<lambda>w.
         (case track_untracked st rtype rid current h w of
            (h1, w1) \<Rightarrow>
              try_step fault (k + 2) w1 (\<lambda>w1.
                (case append_snapshot True st rtype rid c prompt meta h1 w1 of
                   (h2, w2) \<Rightarrow>
                     try_step fault (k + 3) w2 (\<lambda>w2. Inr (h2, (fst w2, replace_file staged current (snd w2)))))))))"

text \<open>The handler: the formal file, versions.json and the snapshots as they were.\<close>

definition undo_commit :: "'c vdisk \<Rightarrow> string list \<Rightarrow> string list \<Rightarrow> 'c vdisk \<Rightarrow> 'c vdisk" where
  "undo_commit before currents created d =
     unlink_all created (d\<lparr>vd_files := (\<lambda>p. if p \<in> set currents then vd_files before p else vd_files d p), vd_table := vd_table before\<rparr>)"

definition commit_steps ::
  "faults \<Rightarrow> stamp \<Rightarrow> string \<Rightarrow> string \<Rightarrow> string \<Rightarrow> (string, pyval) dict \<Rightarrow> 'c \<Rightarrow> string \<Rightarrow> string \<Rightarrow> 'c vdisk \<Rightarrow> ('c, int \<times> 'c vdisk) attempt" where
  "commit_steps fault st rtype rid prompt meta c staged current d =
     (case activate_staged fault 0 st rtype rid prompt meta c staged current (history_of (load_versions d) rtype rid) ([], d) of
        Inl x \<Rightarrow> Inl x
      | Inr (h, w) \<Rightarrow>
          try_step fault 4 w (\<lambda>w.
            try_step fault 5 (fst w, save_versions (put_history (load_versions d) rtype rid h) (snd w)) (\<lambda>w1.
              Inr (rh_current h, snd w1))))"

definition commit_staged_version ::
  "faults \<Rightarrow> stamp \<Rightarrow> string \<Rightarrow> string \<Rightarrow> string \<Rightarrow> (string, pyval) dict \<Rightarrow> string \<Rightarrow> string \<Rightarrow> 'c vdisk \<Rightarrow> (py_error + int) \<times> 'c vdisk" where
  "commit_staged_version fault st rtype rid prompt meta staged current d =
     (if rtype \<notin> set RESOURCE_TYPES then (Inl (ValueError ''unsupported resource type''), d)
      else
        (case vd_files d staged of
           None \<Rightarrow> (Inl (ValueError ''FileNotFoundError''), d)
         | Some c \<Rightarrow>
             (case commit_steps fault st rtype rid prompt meta c staged current d of
                Inl (e, (created, d1)) \<Rightarrow> (Inl e, undo_commit d [current] created d1)
              | Inr (v, d1) \<Rightarrow> (Inr v, d1))))"

subsection \<open>Several commits at once\<close>

record staged_commit =
  sc_rtype :: string
  sc_rid :: string
  sc_prompt :: string
  sc_staged :: string
  sc_current :: string
  sc_metadata :: "(string, pyval) dict"

fun check_batch :: "'c vdisk \<Rightarrow> (string \<times> string) list \<Rightarrow> string list \<Rightarrow> staged_commit list \<Rightarrow> py_error option" where
  "check_batch d ids paths [] = None"
| "check_batch d ids paths (c # cs) =
     (if sc_rtype c \<notin> set RESOURCE_TYPES then Some (ValueError ''unsupported resource type'')
      else if (sc_rtype c, sc_rid c) \<in> set ids then Some (ValueError ''duplicate staged version identity'')
      else if vd_files d (sc_staged c) = None then Some (ValueError ''FileNotFoundError'')
      else if sc_current c \<in> set paths then Some (ValueError ''duplicate staged version target'')
      else check_batch d ((sc_rtype c, sc_rid c) # ids) (sc_current c # paths) cs)"

fun commit_loop ::
  "faults \<Rightarrow> nat \<Rightarrow> stamp \<Rightarrow> staged_commit list \<Rightarrow> version_table \<Rightarrow> 'c work
     \<Rightarrow> ('c, ((string \<times> string) \<times> int) list \<times> version_table \<times> 'c work) attempt" where
  "commit_loop fault k st [] t w = Inr ([], t, w)"
| "commit_loop fault k st (x # xs) t w =
     (case vd_files (snd w) (sc_staged x) of
        None \<Rightarrow> Inl (ValueError ''FileNotFoundError'', w)
      | Some c \<Rightarrow>
          (case activate_staged fault k st (sc_rtype x) (sc_rid x) (sc_prompt x) (sc_metadata x) c (sc_staged x) (sc_current x)
                  (history_of t (sc_rtype x) (sc_rid x)) w of
             Inl y \<Rightarrow> Inl y
           | Inr (h, w1) \<Rightarrow>
               (case commit_loop fault (k + 4) st xs (put_history t (sc_rtype x) (sc_rid x) h) w1 of
                  Inl y \<Rightarrow> Inl y
                | Inr (vs, t2, w2) \<Rightarrow> Inr (((sc_rtype x, sc_rid x), rh_current h) # vs, t2, w2))))"

definition batch_steps ::
  "faults \<Rightarrow> stamp \<Rightarrow> staged_commit list \<Rightarrow> 'c vdisk \<Rightarrow> ('c, ((string \<times> string) \<times> int) list \<times> 'c vdisk) attempt" where
  "batch_steps fault st batch d =
     (case commit_loop fault 0 st batch (load_versions d) ([], d) of
        Inl x \<Rightarrow> Inl x
      | Inr (vs, t, w) \<Rightarrow>
          try_step fault (4 * length batch) w (\<lambda>w.
            try_step fault (4 * length batch + 1) (fst w, save_versions t (snd w)) (\<lambda>w1. Inr (vs, snd w1))))"

definition commit_staged_versions ::
  "faults \<Rightarrow> stamp \<Rightarrow> staged_commit list \<Rightarrow> 'c vdisk \<Rightarrow> (py_error + ((string \<times> string) \<times> int) list) \<times> 'c vdisk" where
  "commit_staged_versions fault st batch d =
     (if batch = [] then (Inr [], d)
      else
        (case check_batch d [] [] batch of
           Some e \<Rightarrow> (Inl e, d)
         | None \<Rightarrow>
             (case batch_steps fault st batch d of
                Inl (e, (created, d1)) \<Rightarrow> (Inl e, undo_commit d (map sc_current batch) created d1)
              | Inr (vs, d1) \<Rightarrow> (Inr vs, d1))))"

subsection \<open>Paid results\<close>

record paid_version_commit =
  pc_version :: int
  pc_selected :: bool

text \<open>
  First the result is recorded in the history, which survives whatever the selection does; then it
  is selected when nothing else has been selected meanwhile and the caller's guard agrees.
\<close>

definition paid_history_steps ::
  "faults \<Rightarrow> stamp \<Rightarrow> string \<Rightarrow> string \<Rightarrow> string \<Rightarrow> (string, pyval) dict \<Rightarrow> 'c \<Rightarrow> string \<Rightarrow> 'c vdisk
     \<Rightarrow> ('c, int \<times> resource_history \<times> 'c vdisk) attempt" where
  "paid_history_steps fault st rtype rid prompt meta c current d =
     (let t = load_versions d; h = history_of t rtype rid
      in try_step fault 0 ([], d) (\<lambda>w.
           (case track_untracked st rtype rid current h w of
              (h1, w1) \<Rightarrow>
                try_step fault 1 w1 (\<lambda>w1.
                  (case append_snapshot False st rtype rid c prompt meta (h1\<lparr>rh_current := max 0 (rh_current h1)\<rparr>) w1 of
                     (h2, w2) \<Rightarrow>
                       try_step fault 2 w2 (\<lambda>w2.
                         Inr (next_version (rh_versions h1), h2, save_versions (put_history t rtype rid h2) (snd w2))))))))"

definition select_steps ::
  "faults \<Rightarrow> version_table \<Rightarrow> string \<Rightarrow> string \<Rightarrow> resource_history \<Rightarrow> int \<Rightarrow> string \<Rightarrow> string \<Rightarrow> 'c vdisk \<Rightarrow> ('c, 'c vdisk) attempt" where
  "select_steps fault t rtype rid h v staged current d =
     try_step fault 3 ([], d) (\<lambda>w.
       try_step fault 4 w (\<lambda>w.
         try_step fault 5 ([], replace_file staged current (snd w)) (\<lambda>w.
           try_step fault 6 ([], save_versions (put_history t rtype rid (h\<lparr>rh_current := v\<rparr>)) (snd w)) (\<lambda>w.
             Inr (snd w)))))"

definition commit_staged_paid_version ::
  "faults \<Rightarrow> stamp \<Rightarrow> string \<Rightarrow> string \<Rightarrow> string \<Rightarrow> (string, pyval) dict \<Rightarrow> string \<Rightarrow> string
     \<Rightarrow> ('c vdisk \<Rightarrow> py_error + bool) \<Rightarrow> int option \<Rightarrow> 'c vdisk \<Rightarrow> (py_error + paid_version_commit) \<times> 'c vdisk" where
  "commit_staged_paid_version fault st rtype rid prompt meta staged current select_current expected d =
     (if rtype \<notin> set RESOURCE_TYPES then (Inl (ValueError ''unsupported resource type''), d)
      else if (case expected of None \<Rightarrow> False | Some n \<Rightarrow> n < 0) then (Inl (ValueError ''expected_current_version''), d)
      else
        (case vd_files d staged of
           None \<Rightarrow> (Inl (ValueError ''FileNotFoundError''), d)
         | Some c \<Rightarrow>
             (case paid_history_steps fault st rtype rid prompt meta c current d of
                Inl (e, (created, d1)) \<Rightarrow> (Inl e, unlink_all (staged # created) (d1\<lparr>vd_table := vd_table d\<rparr>))
              | Inr (v, h, d1) \<Rightarrow>
                  (case (if expected \<noteq> None \<and> expected \<noteq> Some (max 0 (rh_current (history_of (load_versions d) rtype rid)))
                         then Inr False else select_current d1) of
                     Inl e \<Rightarrow> (Inl e, unlink_all [staged] d1)
                   | Inr False \<Rightarrow> (Inr \<lparr>pc_version = v, pc_selected = False\<rparr>, unlink_all [staged] d1)
                   | Inr True \<Rightarrow>
                       (case select_steps fault (load_versions d1) rtype rid h v staged current d1 of
                          Inr d2 \<Rightarrow> (Inr \<lparr>pc_version = v, pc_selected = True\<rparr>, unlink_all [staged] d2)
                        | Inl (e, (_, d2)) \<Rightarrow>
                            (Inl e, unlink_all [staged]
                               (save_versions (put_history (load_versions d1) rtype rid h) (put_file current (vd_files d1 current) d2))))))))"

subsection \<open>Taking a selection back\<close>

text \<open>The predecessor a rejection restores: the recorded one, or for old records the next lower version.\<close>

definition predecessor :: "version_record list \<Rightarrow> version_record \<Rightarrow> int" where
  "predecessor rs r =
     (case vr_previous r of
        Some p \<Rightarrow> if 0 \<le> p then p
                  else foldl max 0 (map vr_version (filter (\<lambda>x. vr_version x < vr_version r) rs))
      | None \<Rightarrow> foldl max 0 (map vr_version (filter (\<lambda>x. vr_version x < vr_version r) rs)))"

definition switch_steps ::
  "faults \<Rightarrow> version_table \<Rightarrow> string \<Rightarrow> string \<Rightarrow> resource_history \<Rightarrow> int \<Rightarrow> version_record option \<Rightarrow> string \<Rightarrow> 'c vdisk \<Rightarrow> ('c, 'c vdisk) attempt" where
  "switch_steps fault t rtype rid h v target current d =
     try_step fault 0 ([], d) (\<lambda>w.
       (case (case target of
                None \<Rightarrow> Inr (put_file current None (snd w))
              | Some r \<Rightarrow>
                  (case vd_files (snd w) (vr_file r) of
                     None \<Rightarrow> Inl (ValueError ''FileNotFoundError'', w)
                   | Some c \<Rightarrow> try_step fault 1 w (\<lambda>w. Inr (write_file current c (snd w))))) of
          Inl x \<Rightarrow> Inl x
        | Inr d1 \<Rightarrow>
            try_step fault 2 ([], d1) (\<lambda>w.
              try_step fault 3 ([], save_versions (put_history t rtype rid (h\<lparr>rh_current := v\<rparr>)) (snd w)) (\<lambda>w. Inr (snd w)))))"

definition reject_current_version ::
  "faults \<Rightarrow> string \<Rightarrow> string \<Rightarrow> int \<Rightarrow> int option \<Rightarrow> string \<Rightarrow> 'c vdisk \<Rightarrow> (py_error + bool) \<times> 'c vdisk" where
  "reject_current_version fault rtype rid rejected restore current d =
     (if rtype \<notin> set RESOURCE_TYPES then (Inl (ValueError ''unsupported resource type''), d)
      else
        (case stored_history (load_versions d) rtype rid of
           None \<Rightarrow> (Inr False, d)
         | Some h \<Rightarrow>
             if rh_current h \<noteq> rejected then (Inr False, d)
             else
               (case find_version (rh_versions h) rejected of
                  None \<Rightarrow> (Inr False, d)
                | Some r \<Rightarrow>
                    (let to = (case restore of Some v \<Rightarrow> v | None \<Rightarrow> predecessor (rh_versions h) r);
                         target = find_version (rh_versions h) to
                     in if to < 0 then (Inl (ValueError ''restore_version must be a non-negative integer''), d)
                        else if 0 < to \<and> target = None then (Inl (ValueError ''restore version does not exist''), d)
                        else
                          (case switch_steps fault (load_versions d) rtype rid h (if target = None then 0 else to) target current d of
                             Inl (e, (_, d1)) \<Rightarrow> (Inl e, undo_commit d [current] [] d1)
                           | Inr d1 \<Rightarrow> (Inr True, d1))))))"

definition restore_version ::
  "faults \<Rightarrow> string \<Rightarrow> string \<Rightarrow> int \<Rightarrow> string \<Rightarrow> 'c vdisk \<Rightarrow> (py_error + (int \<times> string)) \<times> 'c vdisk" where
  "restore_version fault rtype rid v current d =
     (if rtype \<notin> set RESOURCE_TYPES then (Inl (ValueError ''unsupported_resource_type''), d)
      else
        (case stored_history (load_versions d) rtype rid of
           None \<Rightarrow> (Inl (KeyError ''version_resource_not_found''), d)
         | Some h \<Rightarrow>
             (case find_version (rh_versions h) v of
                None \<Rightarrow> (Inl (KeyError ''version_not_found''), d)
              | Some r \<Rightarrow>
                  if vd_files d (vr_file r) = None then (Inl (ValueError ''FileNotFoundError''), d)
                  else
                    (case switch_steps fault (load_versions d) rtype rid h v (Some r) current d of
                       Inl (e, (_, d1)) \<Rightarrow> (Inl e, undo_commit d [current] [] d1)
                     | Inr d1 \<Rightarrow> (Inr (v, vr_prompt r), d1)))))"

text \<open>All the given selections that are still current, or none of them.\<close>

fun reject_loop ::
  "(nat \<Rightarrow> faults) \<Rightarrow> ((string \<times> string) \<times> int \<times> string) list \<Rightarrow> 'c vdisk \<Rightarrow> (py_error + unit) \<times> 'c vdisk" where
  "reject_loop fault [] d = (Inr (), d)"
| "reject_loop fault ((i, v, current) # xs) d =
     (case reject_current_version (fault (length xs)) (fst i) (snd i) v None current d of
        (Inl e, d1) \<Rightarrow> (Inl e, d1)
      | (Inr False, d1) \<Rightarrow> (Inl (RuntimeError ''version selection changed during batch rejection''), d1)
      | (Inr True, d1) \<Rightarrow> reject_loop fault xs d1)"

definition still_current :: "'c vdisk \<Rightarrow> (string \<times> string) \<times> int \<times> string \<Rightarrow> bool" where
  "still_current d x =
     (case stored_history (load_versions d) (fst (fst x)) (snd (fst x)) of
        None \<Rightarrow> False | Some h \<Rightarrow> rh_current h = fst (snd x))"

definition reject_current_versions ::
  "(nat \<Rightarrow> faults) \<Rightarrow> py_error option \<Rightarrow> ((string \<times> string) \<times> int \<times> string) list \<Rightarrow> 'c vdisk
     \<Rightarrow> (py_error + (string \<times> string) list) \<times> 'c vdisk" where
  "reject_current_versions fault on_reject rejections d =
     (let current = filter (still_current d) rejections
      in if current = [] then (Inr [], d)
         else
           (case reject_loop fault (sort_key fst current) d of
              (Inl e, d1) \<Rightarrow> (Inl e, undo_commit d (map (snd \<circ> snd) current) [] d1)
            | (Inr _, d1) \<Rightarrow>
                (case on_reject of
                   Some e \<Rightarrow> (Inl e, undo_commit d (map (snd \<circ> snd) current) [] d1)
                 | None \<Rightarrow> (Inr (map fst current), d1))))"

subsection \<open>Histories stay well formed\<close>

definition history_ok :: "resource_history \<Rightarrow> bool" where
  "history_ok h \<longleftrightarrow>
     distinct (map vr_version (rh_versions h)) \<and> list_all (\<lambda>r. 1 \<le> vr_version r) (rh_versions h)
     \<and> (rh_current h = 0 \<or> rh_current h \<in> vr_version ` set (rh_versions h))"

definition disk_ok :: "'c vdisk \<Rightarrow> bool" where
  "disk_ok d \<longleftrightarrow> (\<forall>rtype rid h. stored_history (load_versions d) rtype rid = Some h \<longrightarrow> history_ok h)"

definition table_ok :: "version_table \<Rightarrow> bool" where
  "table_ok t \<longleftrightarrow> (\<forall>rtype rid h. stored_history t rtype rid = Some h \<longrightarrow> history_ok h)"

lemma foldl_max_ge: "(m :: int) \<le> foldl max m vs \<and> (\<forall>v \<in> set vs. v \<le> foldl max m vs)"
  by (induction vs arbitrary: m) (auto intro: order_trans [of _ "max m v" for m v], (meson max.bounded_iff)+)

lemma next_version_above: "r \<in> set rs \<Longrightarrow> vr_version r < next_version rs"
proof (cases rs)
  case (Cons x xs)
  assume "r \<in> set rs"
  with Cons foldl_max_ge [of "vr_version x" "map vr_version xs"] have "vr_version r \<le> foldl max (vr_version x) (map vr_version xs)"
    by auto
  with Cons show ?thesis by (simp add: next_version_def)
qed simp

lemma next_version_pos: "list_all (\<lambda>r. 1 \<le> vr_version r) rs \<Longrightarrow> 1 \<le> next_version rs"
proof (cases rs)
  case (Cons x xs)
  assume "list_all (\<lambda>r. 1 \<le> vr_version r) rs"
  with Cons next_version_above [of x rs] show ?thesis by auto
qed (simp add: next_version_def)

lemma stored_put_history:
  "stored_history (put_history t a b h) rt rid = (if rt = a \<and> rid = b then Some h else stored_history t rt rid)"
  by (auto simp: stored_history_def put_history_def dict_get_or_def)

lemma table_ok_put: "table_ok t \<Longrightarrow> history_ok h \<Longrightarrow> table_ok (put_history t a b h)"
  by (simp add: table_ok_def stored_put_history)

lemma disk_table_ok: "disk_ok d \<longleftrightarrow> table_ok (load_versions d)"
  by (simp add: disk_ok_def table_ok_def)

lemma no_history_ok [simp]: "history_ok no_history"
  by (simp add: history_ok_def no_history_def)

lemma history_of_ok: "table_ok t \<Longrightarrow> history_ok (history_of t a b)"
  by (auto simp: history_of_def table_ok_def split: option.splits)

lemma new_record_simps [simp]:
  "vr_version (new_record st a b h p m) = next_version (rh_versions h)"
  "vr_file (new_record st a b h p m) = snapshot_path st a b (next_version (rh_versions h))"
  "vr_previous (new_record st a b h p m) = Some (rh_current h)"
  by (simp_all add: new_record_def Let_def)

lemma with_record_ok:
  assumes "history_ok h" and "vr_version r = next_version (rh_versions h)"
  shows "history_ok (with_record r h)" and "history_ok ((with_record r h)\<lparr>rh_current := vr_version r\<rparr>)"
  using assms next_version_above next_version_pos [of "rh_versions h"]
  by (fastforce simp: history_ok_def with_record_def list_all_iff)+

lemma load_save [simp]: "load_versions (save_versions t d) = t"
  by (simp add: load_versions_def save_versions_def)

lemma load_table: "vd_table d' = vd_table d \<Longrightarrow> load_versions d' = load_versions d"
  by (simp add: load_versions_def)

lemma try_step_Inr: "try_step fault k w f = Inr y \<longleftrightarrow> fault k = None \<and> f w = Inr y"
  by (simp add: try_step_def split: option.splits)

lemma try_step_Inl: "try_step fault k w f = Inl y \<longleftrightarrow> (\<exists>e. fault k = Some e \<and> y = (e, w)) \<or> (fault k = None \<and> f w = Inl y)"
  by (auto simp: try_step_def split: option.splits)

lemma find_version_some: "find_version rs v = Some r \<Longrightarrow> r \<in> set rs \<and> vr_version r = v"
  by (auto simp: find_version_def dest: find_memD)

lemma undo_table [simp]: "vd_table (undo_commit d cs ps d1) = vd_table d"
  by (simp add: undo_commit_def unlink_all_def)

lemma unlink_table [simp]: "vd_table (unlink_all ps d) = vd_table d"
  by (simp add: unlink_all_def)

lemma load_simps [simp]:
  "load_versions (undo_commit d cs ps d1) = load_versions d"
  "load_versions (unlink_all ps d) = load_versions d"
  "load_versions (put_file p c d) = load_versions d"
  "load_versions (write_file p c' d) = load_versions d"
  "load_versions (replace_file p q d) = load_versions d"
  by (simp_all add: load_versions_def put_file_def write_file_def replace_file_def)

subsection \<open>Histories only grow\<close>

text \<open>What a record says apart from its metadata, which alone may change later.\<close>

definition record_core :: "version_record \<Rightarrow> int \<times> string \<times> string \<times> string \<times> int option" where
  "record_core r = (vr_version r, vr_file r, vr_prompt r, vr_created_at r, vr_previous r)"

definition history_core :: "resource_history \<Rightarrow> (int \<times> string \<times> string \<times> string \<times> int option) list" where
  "history_core h = map record_core (rh_versions h)"

definition extends :: "resource_history \<Rightarrow> resource_history \<Rightarrow> bool" where
  "extends h h' \<longleftrightarrow> (history_ok h \<longrightarrow> history_ok h') \<and> prefix (history_core h) (history_core h')"

definition table_extends :: "version_table \<Rightarrow> version_table \<Rightarrow> bool" where
  "table_extends t t' \<longleftrightarrow> (table_ok t \<longrightarrow> table_ok t')
     \<and> (\<forall>rtype rid. prefix (history_core (history_of t rtype rid)) (history_core (history_of t' rtype rid)))"

lemma extends_refl [simp]: "extends h h"
  by (simp add: extends_def)

lemma extends_trans: "extends h1 h2 \<Longrightarrow> extends h2 h3 \<Longrightarrow> extends h1 h3"
  by (auto simp: extends_def intro: prefix_order.trans)

lemma table_extends_refl [simp]: "table_extends t t"
  by (simp add: table_extends_def)

lemma table_extends_trans: "table_extends t1 t2 \<Longrightarrow> table_extends t2 t3 \<Longrightarrow> table_extends t1 t3"
  unfolding table_extends_def by (meson prefix_order.trans)

lemma history_of_put:
  "history_of (put_history t a b h) rt rid = (if rt = a \<and> rid = b then h else history_of t rt rid)"
  by (simp add: history_of_def stored_put_history)

lemma put_extends: "extends (history_of t a b) h \<Longrightarrow> table_extends t (put_history t a b h)"
  by (auto simp: table_extends_def history_of_put extends_def intro: table_ok_put history_of_ok)

lemma history_core_simps [simp]:
  "history_core (with_record r h) = history_core h @ [record_core r]"
  "history_core (h\<lparr>rh_current := v\<rparr>) = history_core h"
  by (simp_all add: history_core_def with_record_def)

lemma append_extends:
  "append_snapshot sel st a b c p m h w = (h1, w1) \<Longrightarrow> extends h h1"
  using with_record_ok [of h "new_record st a b h p m"] by (auto simp: append_snapshot_def Let_def extends_def)

lemma track_extends: "track_untracked st a b current h w = (h1, w1) \<Longrightarrow> extends h h1"
  by (auto simp: track_untracked_def split: option.splits if_splits dest: append_extends)

lemma activate_Inr:
  assumes "activate_staged fault k st a b p m c staged current h w = Inr (h2, w2)"
  obtains h1 w1 w3 where "track_untracked st a b current h w = (h1, w1)"
    and "append_snapshot True st a b c p m h1 w1 = (h2, w3)" and "w2 = (fst w3, replace_file staged current (snd w3))"
  using assms by (auto simp: activate_staged_def try_step_Inr split: prod.splits)

lemma activate_extends:
  "activate_staged fault k st a b p m c staged current h w = Inr (h2, w2) \<Longrightarrow> extends h h2"
  by (erule activate_Inr) (metis append_extends track_extends extends_trans)

lemma set_current_extends: "v = 0 \<or> v \<in> vr_version ` set (rh_versions h) \<Longrightarrow> extends h (h\<lparr>rh_current := v\<rparr>)"
  by (auto simp: extends_def history_ok_def)

lemma add_extends:
  assumes "add_version st a b p src m d = Inr (v, d')"
  shows "table_extends (load_versions d) (load_versions d')"
proof -
  let ?h = "history_of (load_versions d) a b" let ?r = "new_record st a b ?h p m"
  have "extends ?h ((with_record ?r ?h)\<lparr>rh_current := vr_version ?r\<rparr>)"
    using with_record_ok [of ?h ?r] by (simp add: extends_def)
  moreover have "load_versions d' = put_history (load_versions d) a b ((with_record ?r ?h)\<lparr>rh_current := vr_version ?r\<rparr>)"
    using assms by (auto simp: add_version_def Let_def split: if_splits)
  ultimately show ?thesis using put_extends by simp
qed

lemma backup_extends:
  "backup_current st a b cur p m d = Inr (v, d') \<Longrightarrow> table_extends (load_versions d) (load_versions d')"
  by (auto simp: backup_current_def map_sum_Inr_iff split: if_splits prod.splits intro: add_extends)

lemma ensure_extends:
  "ensure_current_tracked st a b cur p m d = Inr (v, d') \<Longrightarrow> table_extends (load_versions d) (load_versions d')"
  by (auto simp: ensure_current_tracked_def bind_e_def map_sum_Inr_iff split: if_splits prod.splits sum.splits intro: add_extends)

lemma history_ok_versions:
  "history_ok h \<longleftrightarrow>
     (let vs = map vr_version (rh_versions h)
      in distinct vs \<and> list_all ((\<le>) 1) vs \<and> (rh_current h = 0 \<or> rh_current h \<in> set vs))"
  by (auto simp: history_ok_def Let_def list_all_iff)

lemma find_at: "find (\<lambda>x. f x = v) xs = Some r \<Longrightarrow>
     length (takeWhile (\<lambda>x. f x \<noteq> v) xs) < length xs \<and> xs ! length (takeWhile (\<lambda>x. f x \<noteq> v) xs) = r"
  by (induction xs) (auto split: if_splits)

lemma update_same: "i < length xs \<Longrightarrow> f y = f (xs ! i) \<Longrightarrow> map f (xs[i := y]) = map f xs"
  by (metis list_update_id map_update)

lemma metadata_extends:
  assumes "update_version_metadata a b v m d = Inr (ok, d')"
  shows "table_extends (load_versions d) (load_versions d')"
proof (cases "load_versions d' = load_versions d")
  case False
  then obtain h r where h: "stored_history (load_versions d) a b = Some h" and r: "find_version (rh_versions h) v = Some r"
    and t: "load_versions d' = put_history (load_versions d) a b (h\<lparr>rh_versions := (rh_versions h)
        [length (takeWhile (\<lambda>x. vr_version x \<noteq> v) (rh_versions h)) := r\<lparr>vr_metadata := foldl (\<lambda>m (k, x). dict_set m k x) (vr_metadata r) m\<rparr>]\<rparr>)"
    (is "_ = put_history _ _ _ ?h1") using assms by (auto simp: update_version_metadata_def Let_def split: if_splits option.splits)
  note at = find_at [OF r [unfolded find_version_def]]
  have "map vr_version (rh_versions ?h1) = map vr_version (rh_versions h)" using at by (simp add: update_same)
  then have "history_ok ?h1 = history_ok h" by (simp only: history_ok_versions) simp
  moreover have "history_core ?h1 = history_core h" using at by (simp add: history_core_def update_same record_core_def)
  ultimately have "extends h ?h1" by (simp add: extends_def)
  with h t show ?thesis using put_extends by (metis history_of_def option.simps(5))
qed simp

lemma commit_steps_Inr:
  assumes "commit_steps fault st a b p m c staged current d = Inr (v, d1)"
  obtains h w where "activate_staged fault 0 st a b p m c staged current (history_of (load_versions d) a b) ([], d) = Inr (h, w)"
    and "v = rh_current h" and "d1 = save_versions (put_history (load_versions d) a b h) (snd w)"
  using assms by (auto simp: commit_steps_def try_step_Inr split: sum.splits)

lemma commit_cases:
  assumes "commit_staged_version fault st a b p m staged current d = (res, d')"
  obtains (refused) e where "res = Inl e" "d' = d"
  | (undone) c e created d1 where "vd_files d staged = Some c"
      "commit_steps fault st a b p m c staged current d = Inl (e, (created, d1))" "res = Inl e" "d' = undo_commit d [current] created d1"
  | (committed) c v where "vd_files d staged = Some c" "commit_steps fault st a b p m c staged current d = Inr (v, d')" "res = Inr v"
proof (cases "a \<in> set RESOURCE_TYPES")
  case True
  show thesis
  proof (cases "vd_files d staged")
    case None
    with True assms show thesis by (intro refused [of "ValueError ''FileNotFoundError''"]) (simp_all add: commit_staged_version_def)
  next
    case (Some c)
    note go = assms [unfolded commit_staged_version_def]
    show thesis
    proof (cases "commit_steps fault st a b p m c staged current d")
      case (Inl x)
      obtain e created d1 where x: "x = (e, (created, d1))" by (metis surj_pair)
      with go True Some Inl have "res = Inl e" "d' = undo_commit d [current] created d1" by simp_all
      with undone [OF Some Inl [unfolded x]] show thesis by blast
    next
      case (Inr x)
      obtain v d1 where x: "x = (v, d1)" by (metis surj_pair)
      with go True Some Inr have "res = Inr v" "d1 = d'" by simp_all
      with x show thesis by (intro committed [OF Some]) (simp_all add: Inr)
    qed
  qed
next
  case False
  with assms show thesis by (intro refused [of "ValueError ''unsupported resource type''"]) (simp_all add: commit_staged_version_def)
qed

lemma commit_extends:
  assumes "commit_staged_version fault st a b p m staged current d = (res, d')"
  shows "table_extends (load_versions d) (load_versions d')"
  using assms
proof (cases rule: commit_cases)
  case (committed c v)
  from committed(2) show ?thesis by (rule commit_steps_Inr) (simp add: put_extends activate_extends)
qed simp_all

lemma commit_loop_extends:
  "commit_loop fault k st xs t w = Inr (vs, t2, w2) \<Longrightarrow> table_extends t t2"
proof (induction xs arbitrary: k t w vs)
  case (Cons x xs)
  from Cons.prems obtain c h w1 vs' where
    a: "activate_staged fault k st (sc_rtype x) (sc_rid x) (sc_prompt x) (sc_metadata x) c (sc_staged x) (sc_current x)
        (history_of t (sc_rtype x) (sc_rid x)) w = Inr (h, w1)"
    and l: "commit_loop fault (k + 4) st xs (put_history t (sc_rtype x) (sc_rid x) h) w1 = Inr (vs', t2, w2)"
    by (auto split: option.splits sum.splits prod.splits)
  show ?case using put_extends [OF activate_extends [OF a]] Cons.IH [OF l] by (rule table_extends_trans)
qed simp

lemma batch_cases:
  assumes "commit_staged_versions fault st batch d = (res, d')"
  obtains (refused) "d' = d" "(\<exists>e. res = Inl e) \<or> (batch = [] \<and> res = Inr [])"
  | (undone) e created d1 where "check_batch d [] [] batch = None"
      "batch_steps fault st batch d = Inl (e, (created, d1))" "res = Inl e" "d' = undo_commit d (map sc_current batch) created d1"
  | (committed) vs where "check_batch d [] [] batch = None" "batch_steps fault st batch d = Inr (vs, d')" "res = Inr vs"
proof (cases "batch = [] \<or> check_batch d [] [] batch \<noteq> None")
  case True
  with assms show thesis by (intro refused) (auto simp: commit_staged_versions_def split: if_splits)
next
  case False
  then have ok: "batch \<noteq> []" "check_batch d [] [] batch = None" by simp_all
  note go = assms [unfolded commit_staged_versions_def]
  show thesis
  proof (cases "batch_steps fault st batch d")
    case (Inl x)
    obtain e created d1 where x: "x = (e, (created, d1))" by (metis surj_pair)
    with go ok Inl have "res = Inl e" "d' = undo_commit d (map sc_current batch) created d1" by simp_all
    with undone [OF ok(2) Inl [unfolded x]] show thesis by blast
  next
    case (Inr x)
    obtain vs d1 where x: "x = (vs, d1)" by (metis surj_pair)
    with go ok Inr have "res = Inr vs" "d1 = d'" by simp_all
    with x show thesis by (intro committed [OF ok(2)]) (simp_all add: Inr)
  qed
qed

lemma batch_extends:
  assumes "commit_staged_versions fault st batch d = (res, d')"
  shows "table_extends (load_versions d) (load_versions d')"
  using assms
proof (cases rule: batch_cases)
  case (committed vs)
  then obtain t w where "commit_loop fault 0 st batch (load_versions d) ([], d) = Inr (vs, t, w)" "d' = save_versions t (snd w)"
    by (auto simp: batch_steps_def try_step_Inr split: sum.splits)
  then show ?thesis using commit_loop_extends by simp
qed simp_all

lemma paid_history_Inr:
  assumes "paid_history_steps fault st a b p m c current d = Inr (v, h, d1)"
  obtains h1 w1 h2 w2 where "track_untracked st a b current (history_of (load_versions d) a b) ([], d) = (h1, w1)"
    and "append_snapshot False st a b c p m (h1\<lparr>rh_current := max 0 (rh_current h1)\<rparr>) w1 = (h2, w2)"
    and "v = next_version (rh_versions h1)" "h = h2" "d1 = save_versions (put_history (load_versions d) a b h2) (snd w2)"
  using assms by (auto simp: paid_history_steps_def Let_def try_step_Inr split: prod.splits)

lemma nonneg_current: "extends h (h\<lparr>rh_current := max 0 (rh_current h)\<rparr>)"
  by (auto simp: extends_def history_ok_def max_def)

lemma paid_history_extends:
  assumes "paid_history_steps fault st a b p m c current d = Inr (v, h, d1)"
  shows "extends (history_of (load_versions d) a b) h" and "v \<in> vr_version ` set (rh_versions h)"
    and "load_versions d1 = put_history (load_versions d) a b h" and "table_extends (load_versions d) (load_versions d1)"
proof -
  obtain h1 w1 h2 w2 where 1: "track_untracked st a b current (history_of (load_versions d) a b) ([], d) = (h1, w1)"
    and 2: "append_snapshot False st a b c p m (h1\<lparr>rh_current := max 0 (rh_current h1)\<rparr>) w1 = (h2, w2)"
    and e: "v = next_version (rh_versions h1)" "h = h2" "d1 = save_versions (put_history (load_versions d) a b h2) (snd w2)"
    using assms by (rule paid_history_Inr)
  show h: "extends (history_of (load_versions d) a b) h"
    using track_extends [OF 1] nonneg_current append_extends [OF 2] unfolding e by (blast intro: extends_trans)
  show "v \<in> vr_version ` set (rh_versions h)" using 2 e(1,2) by (auto simp: append_snapshot_def Let_def with_record_def)
  show l: "load_versions d1 = put_history (load_versions d) a b h" using e by simp
  show "table_extends (load_versions d) (load_versions d1)" unfolding l by (rule put_extends [OF h])
qed

lemma put_put_extends:
  "extends h h' \<Longrightarrow> load_versions d1 = put_history t a b h \<Longrightarrow> table_extends (load_versions d1) (put_history (load_versions d1) a b h')"
  by (rule put_extends) (simp add: history_of_put)

lemma select_table:
  assumes "select_steps fault t a b h v staged current d = Inr d2"
  shows "load_versions d2 = put_history t a b (h\<lparr>rh_current := v\<rparr>)"
  using assms by (auto simp: select_steps_def try_step_Inr)

text \<open>How a commit of a paid result ends.\<close>

lemma paid_cases:
  assumes "commit_staged_paid_version fault st a b p m staged current select expected d = (res, d')"
  obtains (refused) e where "res = Inl e" "d' = d"
      "a \<notin> set RESOURCE_TYPES \<or> (case expected of None \<Rightarrow> False | Some n \<Rightarrow> n < 0) \<or> vd_files d staged = None"
  | (lost) c e created d1 where "vd_files d staged = Some c"
      "paid_history_steps fault st a b p m c current d = Inl (e, (created, d1))"
      "res = Inl e" "d' = unlink_all (staged # created) (d1\<lparr>vd_table := vd_table d\<rparr>)"
  | (unselected) c v h d1 where "vd_files d staged = Some c" "paid_history_steps fault st a b p m c current d = Inr (v, h, d1)"
      "d' = unlink_all [staged] d1" "res \<noteq> Inr \<lparr>pc_version = v, pc_selected = True\<rparr>"
  | (selected) c v h d1 d2 where "vd_files d staged = Some c" "paid_history_steps fault st a b p m c current d = Inr (v, h, d1)"
      "select_steps fault (load_versions d1) a b h v staged current d1 = Inr d2"
      "res = Inr \<lparr>pc_version = v, pc_selected = True\<rparr>" "d' = unlink_all [staged] d2"
  | (undone) c v h d1 e w d2 where "vd_files d staged = Some c" "paid_history_steps fault st a b p m c current d = Inr (v, h, d1)"
      "select_steps fault (load_versions d1) a b h v staged current d1 = Inl (e, (w, d2))" "res = Inl e"
      "d' = unlink_all [staged] (save_versions (put_history (load_versions d1) a b h) (put_file current (vd_files d1 current) d2))"
proof (cases "a \<notin> set RESOURCE_TYPES \<or> (case expected of None \<Rightarrow> False | Some n \<Rightarrow> n < 0) \<or> vd_files d staged = None")
  case True
  with assms refused show thesis by (auto simp: commit_staged_paid_version_def split: if_splits)
next
  case False
  then obtain c where c: "vd_files d staged = Some c" by auto
  note go = assms [unfolded commit_staged_paid_version_def] 
  show thesis
  proof (cases "paid_history_steps fault st a b p m c current d")
    case (Inl x)
    obtain e created d1 where x: "x = (e, (created, d1))" by (metis surj_pair)
    with go False c Inl have "res = Inl e" "d' = unlink_all (staged # created) (d1\<lparr>vd_table := vd_table d\<rparr>)" by simp_all
    with lost [OF c Inl [unfolded x]] show thesis by blast
  next
    case (Inr x)
    obtain v h d1 where x: "x = (v, h, d1)" by (metis surj_pair)
    note Inr = Inr [unfolded x]
    show thesis
    proof (cases "d' = unlink_all [staged] d1 \<and> res \<noteq> Inr \<lparr>pc_version = v, pc_selected = True\<rparr>")
      case True
      with unselected [OF c Inr] show thesis by blast
    next
      case un: False
      show thesis
      proof (cases "select_steps fault (load_versions d1) a b h v staged current d1")
        case s: (Inl y)
        obtain e w d2 where y: "y = (e, (w, d2))" by (metis surj_pair)
        show thesis using go False c Inr s y un
          by (intro undone [OF c Inr s [unfolded y]]) (simp_all split: if_splits sum.splits bool.splits)
      next
        case s: (Inr d2)
        show thesis using go False c Inr s un
          by (intro selected [OF c Inr s]) (simp_all split: if_splits sum.splits bool.splits)
      qed
    qed
  qed
qed

lemma paid_extends:
  assumes "commit_staged_paid_version fault st a b p m staged current select expected d = (res, d')"
  shows "table_extends (load_versions d) (load_versions d')"
  using assms
proof (cases rule: paid_cases)
  case (lost c e created d1)
  then show ?thesis by (simp add: load_versions_def)
next
  case (unselected c v h d1)
  then show ?thesis using paid_history_extends(4) by simp
next
  case (selected c v h d1 d2)
  note h = paid_history_extends [OF selected(2)]
  have "table_extends (load_versions d1) (load_versions d2)"
    unfolding select_table [OF selected(3)] using set_current_extends h(2,3) by (blast intro: put_put_extends)
  with h(4) selected(5) show ?thesis using table_extends_trans by simp
next
  case (undone c v h d1 e w d2)
  note h = paid_history_extends [OF undone(2)]
  have "table_extends (load_versions d1) (load_versions d')"
    using undone(5) put_put_extends [OF extends_refl h(3)] by simp
  with h(4) show ?thesis by (rule table_extends_trans)
qed simp

lemma switch_Inr:
  assumes "switch_steps fault t a b h v target current d = Inr d1"
  shows "load_versions d1 = put_history t a b (h\<lparr>rh_current := v\<rparr>)"
  using assms by (auto simp: switch_steps_def try_step_Inr split: sum.splits)

lemma reject_cases:
  assumes "reject_current_version fault a b v restore current d = (res, d')"
  obtains (unchanged) "d' = d" "res \<noteq> Inr True"
  | (undone) e d1 where "res = Inl e" "d' = undo_commit d [current] [] d1"
  | (switched) h r to_v target where "stored_history (load_versions d) a b = Some h" "rh_current h = v"
      "find_version (rh_versions h) v = Some r" "to_v = (case restore of Some x \<Rightarrow> x | None \<Rightarrow> predecessor (rh_versions h) r)"
      "target = find_version (rh_versions h) to_v" "0 \<le> to_v" "0 < to_v \<longrightarrow> target \<noteq> None"
      "switch_steps fault (load_versions d) a b h (if target = None then 0 else to_v) target current d = Inr d'" "res = Inr True"
proof (cases "\<exists>h r. a \<in> set RESOURCE_TYPES \<and> stored_history (load_versions d) a b = Some h \<and> rh_current h = v
    \<and> find_version (rh_versions h) v = Some r")
  case False
  with assms show thesis by (intro unchanged) (auto simp: reject_current_version_def split: if_splits option.splits)
next
  case True
  then obtain h r where h: "a \<in> set RESOURCE_TYPES" "stored_history (load_versions d) a b = Some h" "rh_current h = v"
    "find_version (rh_versions h) v = Some r" by blast
  define to_v where "to_v = (case restore of Some x \<Rightarrow> x | None \<Rightarrow> predecessor (rh_versions h) r)"
  define target where "target = find_version (rh_versions h) to_v"
  have go: "(if to_v < 0 then (Inl (ValueError ''restore_version must be a non-negative integer''), d)
      else if 0 < to_v \<and> target = None then (Inl (ValueError ''restore version does not exist''), d)
      else (case switch_steps fault (load_versions d) a b h (if target = None then 0 else to_v) target current d of
              Inl (e, (_, d1)) \<Rightarrow> (Inl e, undo_commit d [current] [] d1) | Inr d1 \<Rightarrow> (Inr True, d1))) = (res, d')"
    using assms h unfolding reject_current_version_def to_v_def target_def by (simp add: Let_def)
  show thesis
  proof (cases "to_v < 0 \<or> (0 < to_v \<and> target = None)")
    case True
    with go show thesis by (intro unchanged) (auto split: if_splits)
  next
    case ok: False
    then have ok: "\<not> to_v < 0" "\<not> (0 < to_v \<and> target = None)" by simp_all
    note go = go [unfolded if_not_P [OF ok(1)] if_not_P [OF ok(2)]]
    show thesis
    proof (cases "switch_steps fault (load_versions d) a b h (if target = None then 0 else to_v) target current d")
      case (Inl x)
      obtain e w d1 where x: "x = (e, (w, d1))" by (metis surj_pair)
      show thesis using go by (intro undone [of e d1]) (simp_all add: Inl x)
    next
      case (Inr d1)
      have "d1 = d'" "res = Inr True" using go by (simp_all add: Inr)
      with Inr ok show thesis by (intro switched [OF h(2,3,4) to_v_def target_def]) auto
    qed
  qed
qed

lemma stored_put_extends:
  "stored_history t a b = Some h \<Longrightarrow> v = 0 \<or> v \<in> vr_version ` set (rh_versions h)
     \<Longrightarrow> table_extends t (put_history t a b (h\<lparr>rh_current := v\<rparr>))"
  using put_extends [of t a b] set_current_extends [of v h] by (simp add: history_of_def)

lemma reject_extends:
  assumes "reject_current_version fault a b v restore current d = (res, d')"
  shows "table_extends (load_versions d) (load_versions d')"
  using assms
proof (cases rule: reject_cases)
  case (switched h r to_v target)
  have "(if target = None then 0 else to_v) = 0 \<or> (if target = None then 0 else to_v) \<in> vr_version ` set (rh_versions h)"
  proof (cases target)
    case (Some y)
    have "y \<in> set (rh_versions h)" "vr_version y = to_v"
      using find_version_some [of "rh_versions h" to_v y] switched(5) unfolding Some by simp_all
    then show ?thesis unfolding Some by auto
  qed simp
  then show ?thesis unfolding switch_Inr [OF switched(8)] by (rule stored_put_extends [OF switched(1)])
qed simp_all

lemma restore_cases:
  assumes "restore_version fault a b v current d = (res, d')"
  obtains (unchanged) e where "d' = d" "res = Inl e"
  | (undone) e d1 where "res = Inl e" "d' = undo_commit d [current] [] d1"
  | (switched) h r where "stored_history (load_versions d) a b = Some h" "find_version (rh_versions h) v = Some r"
      "vd_files d (vr_file r) \<noteq> None" "switch_steps fault (load_versions d) a b h v (Some r) current d = Inr d'"
      "res = Inr (v, vr_prompt r)"
proof (cases "\<exists>h r. a \<in> set RESOURCE_TYPES \<and> stored_history (load_versions d) a b = Some h
    \<and> find_version (rh_versions h) v = Some r \<and> vd_files d (vr_file r) \<noteq> None")
  case False
  have "d' = d \<and> (\<exists>e. res = Inl e)"
    using assms False by (auto simp: restore_version_def split: if_splits option.splits)
  with unchanged show thesis by blast
next
  case True
  then obtain h r where h: "a \<in> set RESOURCE_TYPES" "stored_history (load_versions d) a b = Some h"
    "find_version (rh_versions h) v = Some r" "vd_files d (vr_file r) \<noteq> None" by blast
  have go: "(case switch_steps fault (load_versions d) a b h v (Some r) current d of
        Inl (e, (_, d1)) \<Rightarrow> (Inl e, undo_commit d [current] [] d1) | Inr d1 \<Rightarrow> (Inr (v, vr_prompt r), d1)) = (res, d')"
    using assms h by (simp add: restore_version_def)
  show thesis
  proof (cases "switch_steps fault (load_versions d) a b h v (Some r) current d")
    case (Inl x)
    obtain e w d1 where x: "x = (e, (w, d1))" by (metis surj_pair)
    show thesis using go Inl x by (intro undone [of e d1]) simp_all
  next
    case (Inr d1)
    show thesis using go Inr by (intro switched [OF h(2,3,4)]) auto
  qed
qed

lemma restore_extends:
  assumes "restore_version fault a b v current d = (res, d')"
  shows "table_extends (load_versions d) (load_versions d')"
  using assms
proof (cases rule: restore_cases)
  case (switched h r)
  then show ?thesis unfolding switch_Inr [OF switched(4)]
    by (intro stored_put_extends) (auto dest: find_version_some)
qed simp_all

lemma reject_loop_extends:
  "reject_loop fault xs d = (res, d') \<Longrightarrow> table_extends (load_versions d) (load_versions d')"
proof (induction xs arbitrary: d)
  case (Cons x xs)
  obtain i v current where x: "x = (i, v, current)" by (metis surj_pair)
  obtain r d1 where r: "reject_current_version (fault (length xs)) (fst i) (snd i) v None current d = (r, d1)" by (metis surj_pair)
  have 1: "table_extends (load_versions d) (load_versions d1)" by (rule reject_extends [OF r])
  show ?case
  proof (cases "r = Inr True")
    case True
    then have "reject_loop fault xs d1 = (res, d')" using Cons.prems x r by simp
    from 1 Cons.IH [OF this] show ?thesis by (rule table_extends_trans)
  next
    case False
    then have "d' = d1" using Cons.prems x r by (auto split: sum.splits bool.splits)
    with 1 show ?thesis by simp
  qed
qed simp

lemma reject_versions_extends:
  assumes "reject_current_versions fault hook rs d = (res, d')"
  shows "table_extends (load_versions d) (load_versions d')"
proof (cases "filter (still_current d) rs = []")
  case False
  obtain r d1 where r: "reject_loop fault (sort_key fst (filter (still_current d) rs)) d = (r, d1)" by (metis surj_pair)
  from r assms False reject_loop_extends [OF r] show ?thesis
    by (auto simp: reject_current_versions_def Let_def split: sum.splits option.splits)
qed (use assms in \<open>simp add: reject_current_versions_def\<close>)

subsection \<open>A life of the store\<close>

text \<open>
  Any operation of the manager, with any fault, or anyone else writing media files; versions.json is
  written by the manager only.
\<close>

inductive version_step :: "'c vdisk \<Rightarrow> 'c vdisk \<Rightarrow> bool" where
  media: "vd_table d' = vd_table d \<Longrightarrow> version_step d d'"
| add: "add_version st a b p src m d = Inr (v, d') \<Longrightarrow> version_step d d'"
| backup: "backup_current st a b current p m d = Inr (v', d') \<Longrightarrow> version_step d d'"
| track: "ensure_current_tracked st a b current p m d = Inr (v', d') \<Longrightarrow> version_step d d'"
| annotate: "update_version_metadata a b v m d = Inr (ok, d') \<Longrightarrow> version_step d d'"
| commit: "commit_staged_version fault st a b p m staged current d = (res, d') \<Longrightarrow> version_step d d'"
| batch: "commit_staged_versions fault st xs d = (resb, d') \<Longrightarrow> version_step d d'"
| paid: "commit_staged_paid_version fault st a b p m staged current select expected d = (resp, d') \<Longrightarrow> version_step d d'"
| reject: "reject_current_version fault a b v restore current d = (resr, d') \<Longrightarrow> version_step d d'"
| rejects: "reject_current_versions faults hook rs d = (ress, d') \<Longrightarrow> version_step d d'"
| restore: "restore_version fault a b v current d = (rest, d') \<Longrightarrow> version_step d d'"

inductive version_run :: "'c vdisk \<Rightarrow> 'c vdisk \<Rightarrow> bool" where
  start: "version_run d d"
| step: "version_run d d1 \<Longrightarrow> version_step d1 d2 \<Longrightarrow> version_run d d2"

lemma version_step_extends: "version_step d d' \<Longrightarrow> table_extends (load_versions d) (load_versions d')"
proof (induction rule: version_step.induct)
  case (media d' d)
  then show ?case by (simp add: load_versions_def)
qed (blast intro: add_extends backup_extends ensure_extends metadata_extends commit_extends batch_extends paid_extends
       reject_extends reject_versions_extends restore_extends)+

lemma version_run_extends: "version_run d d' \<Longrightarrow> table_extends (load_versions d) (load_versions d')"
  by (induction rule: version_run.induct) (auto intro: version_step_extends table_extends_trans)

lemma empty_entries: "dict_get (map (\<lambda>rt. (rt, [])) ks) k = Some t \<Longrightarrow> t = []"
  by (induction ks) (auto split: if_splits)

lemma empty_table_ok: "vd_table d = None \<Longrightarrow> table_ok (load_versions d)"
  by (auto simp: table_ok_def stored_history_def load_versions_def dict_get_or_def split: option.splits dest: empty_entries)


subsection \<open>A failed commit leaves no trace\<close>

text \<open>No file stands where a future snapshot of a history will be written.\<close>

definition snapshots_free :: "stamp \<Rightarrow> 'c vdisk \<Rightarrow> bool" where
  "snapshots_free st d \<longleftrightarrow> (\<forall>rtype rid v. next_version (rh_versions (history_of (load_versions d) rtype rid)) \<le> v
     \<longrightarrow> vd_files d (snapshot_path st rtype rid v) = None)"

text \<open>The work of a commit differs from the disk \<open>d\<close> at new snapshots and at the paths \<open>S\<close> only.\<close>

definition framed :: "'c vdisk \<Rightarrow> string set \<Rightarrow> 'c work \<Rightarrow> bool" where
  "framed d S w \<longleftrightarrow> (\<forall>p \<in> set (fst w). vd_files d p = None)
     \<and> (\<forall>p. p \<notin> set (fst w) \<and> p \<notin> S \<longrightarrow> vd_files (snd w) p = vd_files d p)"

definition not_behind :: "'c vdisk \<Rightarrow> string \<Rightarrow> string \<Rightarrow> resource_history \<Rightarrow> bool" where
  "not_behind d rtype rid h \<longleftrightarrow>
     next_version (rh_versions (history_of (load_versions d) rtype rid)) \<le> next_version (rh_versions h)"

lemma framed_start [simp]: "framed d S ([], d)"
  by (simp add: framed_def)

lemma framed_save [simp]: "framed d S (created, save_versions t d1) = framed d S (created, d1)"
  by (simp add: framed_def save_versions_def)

lemma append_framed:
  assumes "snapshots_free st d" and "not_behind d a b h" and "framed d S w" and "append_snapshot sel st a b c p m h w = (h1, w1)"
  shows "framed d S w1" and "not_behind d a b h1"
proof -
  let ?r = "new_record st a b h p m"
  have r: "vd_files d (vr_file ?r) = None" using assms(1,2) by (simp add: snapshots_free_def not_behind_def)
  have w: "w1 = (fst w @ [vr_file ?r], write_file (vr_file ?r) c (snd w))" and h: "rh_versions h1 = rh_versions h @ [?r]"
    using assms(4) by (auto simp: append_snapshot_def Let_def with_record_def)
  show "framed d S w1" using r assms(3) unfolding w by (auto simp: framed_def write_file_def)
  have "next_version (rh_versions h) < next_version (rh_versions h1)"
    unfolding h using next_version_above [of ?r "rh_versions h @ [?r]"] by simp
  then show "not_behind d a b h1" using assms(2) by (simp add: not_behind_def)
qed

lemma track_framed:
  assumes "snapshots_free st d" and "not_behind d a b h" and "framed d S w" and "track_untracked st a b current h w = (h1, w1)"
  shows "framed d S w1 \<and> not_behind d a b h1"
proof (cases "h1 = h \<and> w1 = w")
  case False
  then obtain old where "append_snapshot True st a b old [] [] h w = (h1, w1)"
    using assms(4) by (auto simp: track_untracked_def split: option.splits if_splits)
  with append_framed [OF assms(1-3)] show ?thesis by blast
qed (use assms in simp)

lemma replace_framed: "framed d S (created, d1) \<Longrightarrow> staged \<in> S \<Longrightarrow> current \<in> S \<Longrightarrow> framed d S (created, replace_file staged current d1)"
  by (auto simp: framed_def replace_file_def)

lemma activate_framed:
  assumes "snapshots_free st d" and "not_behind d a b h" and "framed d S w" and "staged \<in> S" "current \<in> S"
  shows "activate_staged fault k st a b p m c staged current h w = Inl (e, w1) \<Longrightarrow> framed d S w1"
    and "activate_staged fault k st a b p m c staged current h w = Inr (h2, w2) \<Longrightarrow> framed d S w2 \<and> not_behind d a b h2"
proof -
  obtain h1 w1' where 1: "track_untracked st a b current h w = (h1, w1')" by (metis surj_pair)
  obtain h2' w2' where 2: "append_snapshot True st a b c p m h1 w1' = (h2', w2')" by (metis surj_pair)
  note f1 = track_framed [OF assms(1-3) 1]
  note f2 = append_framed [OF assms(1) conjunct2 [OF f1] conjunct1 [OF f1] 2]
  note f3 = replace_framed [OF _ assms(4,5), of d "fst w2'" "snd w2'"]
  show "framed d S w1" if "activate_staged fault k st a b p m c staged current h w = Inl (e, w1)"
    using that assms(3) f1 f2(1) f3 unfolding activate_staged_def try_step_def 1 prod.case 2 by (auto split: option.splits)
  show "framed d S w2 \<and> not_behind d a b h2" if "activate_staged fault k st a b p m c staged current h w = Inr (h2, w2)"
    using that f2 f3 unfolding activate_staged_def try_step_Inr 1 prod.case 2 by auto
qed

lemma undo_framed:
  assumes "framed d S (created, d1)" and "p \<in> set currents \<or> p \<notin> S"
  shows "vd_files (undo_commit d currents created d1) p = vd_files d p"
  using assms by (auto simp: undo_commit_def unlink_all_def framed_def)

lemma commit_loop_framed:
  assumes "snapshots_free st d"
  shows "\<lbrakk>\<And>rt rid. not_behind d rt rid (history_of t rt rid); framed d S w; set (map sc_staged xs) \<union> set (map sc_current xs) \<subseteq> S\<rbrakk> \<Longrightarrow>
    (case commit_loop fault k st xs t w of Inl (e, w1) \<Rightarrow> framed d S w1 | Inr (vs, t1, w1) \<Rightarrow> framed d S w1)"
proof (induction xs arbitrary: k t w)
  case (Cons x xs)
  show ?case
  proof (cases "vd_files (snd w) (sc_staged x)")
    case (Some c)
    note step = activate_framed [OF assms Cons.prems(1) Cons.prems(2), where staged = "sc_staged x" and current = "sc_current x"]
    show ?thesis
    proof (cases "activate_staged fault k st (sc_rtype x) (sc_rid x) (sc_prompt x) (sc_metadata x) c (sc_staged x) (sc_current x)
                  (history_of t (sc_rtype x) (sc_rid x)) w")
      case (Inl y)
      obtain e w1 where y: "y = (e, w1)" by (metis surj_pair)
      from step(1) [OF _ _ Inl [unfolded y]] Cons.prems(3) Some Inl y show ?thesis by simp
    next
      case (Inr y)
      obtain h w1 where y: "y = (h, w1)" by (metis surj_pair)
      have f: "framed d S w1" and n: "not_behind d (sc_rtype x) (sc_rid x) h"
        using step(2) [OF _ _ Inr [unfolded y]] Cons.prems(3) by simp_all
      have "\<And>rt rid. not_behind d rt rid (history_of (put_history t (sc_rtype x) (sc_rid x) h) rt rid)"
        using n Cons.prems(1) by (simp add: history_of_put)
      from Cons.IH [OF this f, of "k + 4"] Cons.prems(3) Some Inr y show ?thesis
        by (auto split: sum.splits)
    qed
  qed (use Cons.prems in simp)
qed simp

text \<open>
  C36: a commit of several staged files that fails, at any of its steps, for any of its files or in a
  hook, leaves versions.json and every file as they were, except the staged files themselves, which
  may have been moved already; the formal files are back.
\<close>
theorem batch_all_or_nothing:
  assumes "snapshots_free st d" and "commit_staged_versions fault st batch d = (Inl e, d')"
    and "p \<notin> set (map sc_staged batch) \<or> p \<in> set (map sc_current batch)"
  shows "vd_table d' = vd_table d \<and> vd_files d' p = vd_files d p"
  using assms(2)
proof (cases rule: batch_cases)
  case (undone e' created d1)
  let ?S = "set (map sc_staged batch) \<union> set (map sc_current batch)"
  have f: "case commit_loop fault 0 st batch (load_versions d) ([], d) of Inl (e, w1) \<Rightarrow> framed d ?S w1 | Inr (vs, t1, w1) \<Rightarrow> framed d ?S w1"
    by (rule commit_loop_framed [OF assms(1)]) (simp_all add: not_behind_def)
  have "framed d ?S (created, d1)"
  proof (cases "commit_loop fault 0 st batch (load_versions d) ([], d)")
    case (Inl x)
    then show ?thesis using f undone(2) by (simp add: batch_steps_def)
  next
    case (Inr x)
    obtain vs t created' d2 where x: "x = (vs, t, (created', d2))" by (metis surj_pair)
    then have "framed d ?S (created', d2)" using f Inr by simp
    with undone(2) Inr x show ?thesis by (auto simp: batch_steps_def try_step_Inl)
  qed
  from undo_framed [OF this, of p "map sc_current batch"] assms(3) have "vd_files d' p = vd_files d p"
    unfolding undone(4) by (simp only: Un_iff) blast
  with undone(4) show ?thesis by simp
qed simp_all

subsection \<open>Taking a commit back\<close>

lemma int_str_inject: "int_str i = int_str j \<longleftrightarrow> i = j"
proof
  assume "int_str i = int_str j"
  then have "parse_number (int_str i @ []) = parse_number (int_str j @ [])" by simp
  then show "i = j" by (simp only: parse_number_int stops_number_def list.case) simp
qed simp

lemma snapshot_path_inject: "snapshot_path st a b v = snapshot_path st a b v' \<longleftrightarrow> v = v'"
  by (simp add: snapshot_path_def int_str_inject)

lemma find_version_append:
  "find_version (rs @ [r]) v = (case find_version rs v of Some x \<Rightarrow> Some x | None \<Rightarrow> if vr_version r = v then Some r else None)"
  by (induction rs) (auto simp: find_version_def)

lemma find_version_next: "next_version rs \<le> v \<Longrightarrow> find_version rs v = None"
  using next_version_above by (fastforce simp: find_version_def find_None_iff)

lemma find_version_zero: "history_ok h \<Longrightarrow> find_version (rh_versions h) 0 = None"
  by (force simp: find_version_def find_None_iff history_ok_def list_all_iff)

text \<open>Rejecting the last record of a history brings its predecessor back.\<close>

lemma reject_last:
  assumes "a \<in> set RESOURCE_TYPES" and "stored_history (load_versions d) a b = Some h" and "rh_versions h = rs @ [r]"
    and "rh_current h = vr_version r" and "vr_version r = next_version rs" and "vr_previous r = Some v" and "0 \<le> v" and "v < vr_version r"
    and "case find_version rs v of None \<Rightarrow> v = 0 \<and> c = None | Some x \<Rightarrow> c \<noteq> None \<and> vd_files d (vr_file x) = c"
  obtains d2 where "reject_current_version (\<lambda>_. None) a b (vr_version r) None current d = (Inr True, d2)"
    and "vd_files d2 current = c" and "rh_current (history_of (load_versions d2) a b) = v"
proof -
  have r: "find_version (rh_versions h) (vr_version r) = Some r" and t: "find_version (rh_versions h) v = find_version rs v"
    using assms(3,5,8) find_version_next [of rs] by (auto simp: find_version_append split: option.splits)
  have to_v: "predecessor (rh_versions h) r = v" using assms(6,7) by (simp add: predecessor_def)
  define target where "target = find_version rs v"
  have "reject_current_version (\<lambda>_. None) a b (vr_version r) None current d =
      (if v < 0 then (Inl (ValueError ''restore_version must be a non-negative integer''), d)
       else if 0 < v \<and> target = None then (Inl (ValueError ''restore version does not exist''), d)
       else (case switch_steps (\<lambda>_. None) (load_versions d) a b h (if target = None then 0 else v) target current d of
               Inl (e, (_, d1)) \<Rightarrow> (Inl e, undo_commit d [current] [] d1) | Inr d1 \<Rightarrow> (Inr True, d1)))"
    by (simp add: reject_current_version_def assms(1,2,4) r to_v t target_def Let_def)
  moreover have "\<not> v < 0" "\<not> (0 < v \<and> target = None)" using assms(7,9) by (auto simp: target_def)
  ultimately have go: "reject_current_version (\<lambda>_. None) a b (vr_version r) None current d =
      (case switch_steps (\<lambda>_. None) (load_versions d) a b h (if target = None then 0 else v) target current d of
         Inl (e, (_, d1)) \<Rightarrow> (Inl e, undo_commit d [current] [] d1) | Inr d1 \<Rightarrow> (Inr True, d1))"
    by presburger
  show thesis
  proof (cases target)
    case None
    then have "v = 0" "c = None" using assms(9) by (simp_all add: target_def)
    with go None show thesis
      by (intro that) (auto simp: switch_steps_def try_step_def put_file_def save_versions_def history_of_put load_versions_def)
  next
    case (Some x)
    then obtain y where "c = Some y" "vd_files d (vr_file x) = Some y" using assms(9) by (auto simp: target_def)
    with go Some show thesis
      by (intro that) (auto simp: switch_steps_def try_step_def write_file_def save_versions_def history_of_put load_versions_def)
  qed
qed

text \<open>What stands in the formal place is the current version, when there is one.\<close>

definition in_step :: "'c vdisk \<Rightarrow> string \<Rightarrow> resource_history \<Rightarrow> string \<Rightarrow> bool" where
  "in_step d staged h current \<longleftrightarrow> staged \<noteq> current \<and>
     (rh_current h = 0 \<or>
      (case find_version (rh_versions h) (rh_current h) of
         None \<Rightarrow> False
       | Some r \<Rightarrow> vd_files d current \<noteq> None \<and> vd_files d (vr_file r) = vd_files d current \<and> vr_file r \<noteq> staged \<and> vr_file r \<noteq> current))"

lemma commit_reject_back:
  fixes d :: "'c vdisk" and a b :: string
  defines "h \<equiv> history_of (load_versions d) a b"
  assumes "table_ok (load_versions d)" and "snapshots_free st d" and "in_step d staged h current"
    and "current \<notin> range (snapshot_path st a b)"
    and "commit_staged_version (\<lambda>_. None) st a b p m staged current d = (Inr v, d1)"
  obtains d2 where "reject_current_version (\<lambda>_. None) a b v None current d1 = (Inr True, d2)"
    and "vd_files d2 current = vd_files d current"
    and "rh_current (history_of (load_versions d2) a b)
         = (if rh_current h = 0 \<and> vd_files d current \<noteq> None then next_version (rh_versions h) else rh_current h)"
proof -
  have ok: "history_ok h" unfolding h_def by (rule history_of_ok [OF assms(2)])
  have a: "a \<in> set RESOURCE_TYPES" using assms(6) by (simp add: commit_staged_version_def split: if_splits)
  from assms(6) obtain c where c: "vd_files d staged = Some c"
    and "commit_steps (\<lambda>_. None) st a b p m c staged current d = Inr (v, d1)" by (rule commit_cases) simp_all
  then obtain h2 w where "activate_staged (\<lambda>_. None) 0 st a b p m c staged current h ([], d) = Inr (h2, w)"
    and v: "v = rh_current h2" and d1: "d1 = save_versions (put_history (load_versions d) a b h2) (snd w)"
    unfolding h_def by (elim commit_steps_Inr)
  then obtain h1 w1 w3 where 1: "track_untracked st a b current h ([], d) = (h1, w1)"
    and 2: "append_snapshot True st a b c p m h1 w1 = (h2, w3)" and w: "w = (fst w3, replace_file staged current (snd w3))"
    by (elim activate_Inr)
  define r where "r = new_record st a b h1 p m"
  have h2: "rh_versions h2 = rh_versions h1 @ [r]" "rh_current h2 = vr_version r"
    and w3: "snd w3 = write_file (vr_file r) c (snd w1)"
    using 2 by (auto simp: append_snapshot_def Let_def with_record_def r_def)
  have files: "vd_files d1 = ((vd_files (snd w1))(vr_file r \<mapsto> c))(current := ((vd_files (snd w1))(vr_file r \<mapsto> c)) staged, staged := None)"
    using assms(4) by (simp add: d1 w w3 replace_file_def write_file_def save_versions_def in_step_def)
  have future: "vd_files d (snapshot_path st a b n) = None" if "next_version (rh_versions h) \<le> n" for n
    using assms(3) that by (simp add: snapshots_free_def h_def)
  have r: "vr_version r = next_version (rh_versions h1)" "vr_file r = snapshot_path st a b (vr_version r)"
    "vr_previous r = Some (rh_current h1)" by (simp_all add: r_def)
  have ok1: "history_ok h1" using track_extends [OF 1] ok by (simp add: extends_def)
  have pos: "0 \<le> rh_current h1" "rh_current h1 < vr_version r"
    using ok1 next_version_above [of _ "rh_versions h1"] next_version_pos [of "rh_versions h1"] unfolding r(1)
    by (auto simp: history_ok_def list_all_iff)
  have cur: "rh_current h1 = (if rh_current h = 0 \<and> vd_files d current \<noteq> None then next_version (rh_versions h) else rh_current h)"
    using 1 by (auto simp: track_untracked_def append_snapshot_def Let_def split: option.splits if_splits)
  have "case find_version (rh_versions h1) (rh_current h1) of None \<Rightarrow> rh_current h1 = 0 \<and> vd_files d current = None
    | Some x \<Rightarrow> vd_files d current \<noteq> None \<and> vd_files d1 (vr_file x) = vd_files d current"
  proof (cases "rh_current h = 0 \<and> vd_files d current \<noteq> None")
    case True
    then obtain old where old: "vd_files d current = Some old" by blast
    let ?r = "new_record st a b h [] []"
    have h1: "rh_versions h1 = rh_versions h @ [?r]" and w1: "vd_files (snd w1) (vr_file ?r) = Some old"
      using 1 True old by (auto simp: track_untracked_def append_snapshot_def Let_def with_record_def write_file_def)
    have "vr_file ?r \<noteq> vr_file r" using pos(2) cur True by (simp add: r(2) snapshot_path_inject)
    moreover have "vr_file ?r \<noteq> current" "vr_file ?r \<noteq> staged" using assms(5) future [of "next_version (rh_versions h)"] c by auto
    ultimately have "vd_files d1 (vr_file ?r) = Some old" using w1 by (simp add: files)
    with old cur True find_version_next [of "rh_versions h"] show ?thesis by (simp add: h1 find_version_append)
  next
    case False
    then have h1: "h1 = h" "snd w1 = d" using 1 by (auto simp: track_untracked_def split: option.splits if_splits)
    show ?thesis
    proof (cases "rh_current h = 0")
      case True
      with False ok show ?thesis by (simp add: h1 find_version_zero)
    next
      case c0: False
      with assms(4) obtain x where x: "find_version (rh_versions h) (rh_current h) = Some x" "vd_files d current \<noteq> None"
        "vd_files d (vr_file x) = vd_files d current" "vr_file x \<noteq> staged" "vr_file x \<noteq> current"
        by (auto simp: in_step_def split: option.splits)
      then have "vr_file x \<noteq> vr_file r" using future [of "vr_version r"] r(1,2) h1 by auto
      with x show ?thesis by (simp add: h1 files)
    qed
  qed
  moreover have "stored_history (load_versions d1) a b = Some h2" by (simp add: d1 stored_put_history)
  ultimately show thesis
    using reject_last [OF a _ h2 r(1) r(3) pos, where c = "vd_files d current" and current = current] that cur v h2(2) by metis
qed

text \<open>
  C37: a commit taken back by a rejection restores the formal file exactly, be it absent, untracked
  or the current version before, and makes the version that was current before current again (a
  formal file without a history has become the first version of one).
\<close>
theorem commit_then_reject:
  assumes "table_ok (load_versions d)" and "snapshots_free st d" and "in_step d staged (history_of (load_versions d) a b) current"
    and "current \<notin> range (snapshot_path st a b)"
    and "commit_staged_version (\<lambda>_. None) st a b p m staged current d = (Inr v, d1)"
  shows "\<exists>d2. reject_current_version (\<lambda>_. None) a b v None current d1 = (Inr True, d2)
    \<and> vd_files d2 current = vd_files d current
    \<and> rh_current (history_of (load_versions d2) a b)
       = (if rh_current (history_of (load_versions d) a b) = 0 \<and> vd_files d current \<noteq> None
          then next_version (rh_versions (history_of (load_versions d) a b)) else rh_current (history_of (load_versions d) a b))"
  using commit_reject_back [OF assms] by metis

subsection \<open>A paid result is never lost\<close>

lemma paid_history_no_fault:
  assumes "fault 0 = None" "fault 1 = None" "fault 2 = None"
  obtains v h d1 where "paid_history_steps fault st a b p m c current d = Inr (v, h, d1)"
proof -
  obtain h1 w1 where 1: "track_untracked st a b current (history_of (load_versions d) a b) ([], d) = (h1, w1)" by (metis surj_pair)
  obtain h2 w2 where 2: "append_snapshot False st a b c p m (h1\<lparr>rh_current := max 0 (rh_current h1)\<rparr>) w1 = (h2, w2)" by (metis surj_pair)
  show thesis using assms 1 2
    by (intro that) (simp add: paid_history_steps_def Let_def try_step_def)
qed

text \<open>What the history of a paid result looks like before anything is selected.\<close>

lemma paid_history_kept:
  assumes "snapshots_free st d" and "current \<notin> range (snapshot_path st a b)" and "vd_files d staged \<noteq> None"
    and "paid_history_steps fault st a b p m c current d = Inr (v, h, d1)"
  obtains r where "r \<in> set (rh_versions h)" "vr_version r = v" "vd_files d1 (vr_file r) = Some c" "vr_file r \<noteq> staged" "vr_file r \<noteq> current"
    and "vd_files d1 current = vd_files d current"
    and "rh_current h = max 0 (if rh_current (history_of (load_versions d) a b) = 0 \<and> vd_files d current \<noteq> None
           then next_version (rh_versions (history_of (load_versions d) a b)) else rh_current (history_of (load_versions d) a b))"
proof -
  let ?h = "history_of (load_versions d) a b"
  obtain h1 w1 h2 w2 where 1: "track_untracked st a b current ?h ([], d) = (h1, w1)"
    and 2: "append_snapshot False st a b c p m (h1\<lparr>rh_current := max 0 (rh_current h1)\<rparr>) w1 = (h2, w2)"
    and e: "v = next_version (rh_versions h1)" "h = h2" "d1 = save_versions (put_history (load_versions d) a b h2) (snd w2)"
    using assms(4) by (rule paid_history_Inr)
  have nb: "not_behind d a b ?h" by (simp add: not_behind_def)
  have f: "not_behind d a b h1" using track_framed [OF assms(1) nb framed_start 1] by simp
  define r where "r = new_record st a b (h1\<lparr>rh_current := max 0 (rh_current h1)\<rparr>) p m"
  have r: "vr_version r = v" "vr_file r = snapshot_path st a b v" by (simp_all add: r_def e)
  have "vd_files d (vr_file r) = None" using assms(1) f by (simp add: snapshots_free_def not_behind_def r e)
  then have "vr_file r \<noteq> staged" using assms(3) by auto
  moreover have cur: "vr_file r \<noteq> current" using assms(2) r by auto
  moreover have d1: "vd_files d1 = (vd_files (snd w1))(vr_file r \<mapsto> c)" and h: "rh_versions h = rh_versions h1 @ [r]"
    "rh_current h = max 0 (rh_current h1)"
    using 2 by (auto simp: e append_snapshot_def Let_def r_def write_file_def save_versions_def with_record_def)
  moreover have "vd_files (snd w1) current = vd_files d current"
    using 1 assms(2) by (auto simp: track_untracked_def append_snapshot_def Let_def write_file_def split: option.splits if_splits)
  moreover have "rh_current h1 = (if rh_current ?h = 0 \<and> vd_files d current \<noteq> None then next_version (rh_versions ?h) else rh_current ?h)"
    using 1 by (auto simp: track_untracked_def append_snapshot_def Let_def split: option.splits if_splits)
  ultimately show thesis using r(1) by (intro that [of r]) simp_all
qed

lemma paid_history_files:
  assumes "snapshots_free st d" and "paid_history_steps fault st a b p m c current d = Inr (v, h, d1)" and "vd_files d q \<noteq> None"
  shows "vd_files d1 q = vd_files d q"
proof -
  let ?h = "history_of (load_versions d) a b"
  obtain h1 w1 h2 w2 where 1: "track_untracked st a b current ?h ([], d) = (h1, w1)"
    and 2: "append_snapshot False st a b c p m (h1\<lparr>rh_current := max 0 (rh_current h1)\<rparr>) w1 = (h2, w2)"
    and d1: "d1 = save_versions (put_history (load_versions d) a b h2) (snd w2)"
    using assms(2) by (rule paid_history_Inr)
  have nb: "not_behind d a b ?h" by (simp add: not_behind_def)
  have "framed d {} w1" "not_behind d a b (h1\<lparr>rh_current := max 0 (rh_current h1)\<rparr>)"
    using track_framed [OF assms(1) nb framed_start 1] by (simp_all add: not_behind_def)
  from append_framed(1) [OF assms(1) this(2,1) 2] have f: "framed d {} w2" .
  have "q \<notin> set (fst w2)"
  proof
    assume "q \<in> set (fst w2)"
    with f have "vd_files d q = None" by (simp add: framed_def)
    with assms(3) show False by simp
  qed
  with f have "vd_files (snd w2) q = vd_files d q" by (simp add: framed_def)
  then show ?thesis by (simp add: d1 save_versions_def)
qed

lemma select_files:
  assumes "select_steps fault t a b h v staged current d = Inl (e, (w, d2))" and "q \<noteq> staged" "q \<noteq> current"
  shows "vd_files d2 q = vd_files d q"
  using assms by (auto simp: select_steps_def try_step_Inl replace_file_def save_versions_def)

lemma select_done:
  assumes "select_steps fault t a b h v staged current d = Inr d2"
  shows "d2 = save_versions (put_history t a b (h\<lparr>rh_current := v\<rparr>)) (replace_file staged current d)"
  using assms by (auto simp: select_steps_def try_step_Inr)

text \<open>
  C38: once the history could be written, the result of a paid call is kept whatever happens to its
  selection: its record is in the history and its snapshot holds the content that was staged. The
  selection is all or nothing: either it succeeds, and the formal file is the result and its version
  current, or the formal file and the current version are what they were (an untracked formal file
  has become the first version).
\<close>
theorem paid_result_kept:
  assumes "snapshots_free st d" and "current \<notin> range (snapshot_path st a b)" and "staged \<noteq> current" and "vd_files d staged = Some c"
    and "a \<in> set RESOURCE_TYPES" and "case expected of None \<Rightarrow> True | Some n \<Rightarrow> 0 \<le> n"
    and "fault 0 = None" "fault 1 = None" "fault 2 = None"
    and "commit_staged_paid_version fault st a b p m staged current select expected d = (res, d')"
  shows "(\<exists>r \<in> set (rh_versions (history_of (load_versions d') a b)).
            vd_files d' (vr_file r) = Some c \<and>
            (if res = Inr \<lparr>pc_version = vr_version r, pc_selected = True\<rparr>
             then vd_files d' current = Some c \<and> rh_current (history_of (load_versions d') a b) = vr_version r
             else vd_files d' current = vd_files d current
               \<and> rh_current (history_of (load_versions d') a b)
                 = max 0 (if rh_current (history_of (load_versions d) a b) = 0 \<and> vd_files d current \<noteq> None
                     then next_version (rh_versions (history_of (load_versions d) a b)) else rh_current (history_of (load_versions d) a b))))"
proof -
  let ?h0 = "history_of (load_versions d) a b"
  obtain v h d1 where steps: "paid_history_steps fault st a b p m c current d = Inr (v, h, d1)"
    by (rule paid_history_no_fault [OF assms(7-9)])
  obtain r where r: "r \<in> set (rh_versions h)" "vr_version r = v" "vd_files d1 (vr_file r) = Some c" "vr_file r \<noteq> staged" "vr_file r \<noteq> current"
    and cur: "vd_files d1 current = vd_files d current"
    and ptr: "rh_current h = max 0 (if rh_current ?h0 = 0 \<and> vd_files d current \<noteq> None then next_version (rh_versions ?h0) else rh_current ?h0)"
    using paid_history_kept [OF assms(1,2) _ steps] assms(4) by (metis option.distinct(1))
  note l = paid_history_extends(3) [OF steps]
  have st1: "vd_files d1 staged = Some c" using paid_history_files [OF assms(1) steps, of staged] assms(4) by simp
  define kept where "kept \<longleftrightarrow> history_of (load_versions d') a b = h \<and> vd_files d' (vr_file r) = Some c
    \<and> vd_files d' current = vd_files d1 current \<and> res \<noteq> Inr \<lparr>pc_version = v, pc_selected = True\<rparr>"
  have keep: ?thesis if kept
    using that r(1,2) cur ptr unfolding kept_def by (intro bexI [of _ r]) simp_all
  from assms(10) show ?thesis
  proof (cases rule: paid_cases)
    case (refused e)
    with assms(4-6) show ?thesis by (auto split: option.splits)
  next
    case (lost c' e created d1')
    with assms(4) steps show ?thesis by simp
  next
    case (unselected c' v' h' d1')
    with assms(4) steps have "d1' = d1" "v' = v" by simp_all
    with unselected(3,4) show ?thesis using r l assms(3)
      by (intro keep) (auto simp: kept_def history_of_put unlink_all_def load_versions_def)
  next
    case (selected c' v' h' d1' d2)
    with assms(4) steps have e: "d1' = d1" "v' = v" "h' = h" by simp_all
    note d2 = select_done [OF selected(3) [unfolded e]]
    show ?thesis using r(1,2) r(3-5) st1 assms(3) selected(4,5) l e
      by (intro bexI [of _ r]) (simp_all add: d2 unlink_all_def replace_file_def save_versions_def history_of_put load_versions_def)
  next
    case (undone c' v' h' d1' e' w d2)
    with assms(4) steps have e: "d1' = d1" "v' = v" "h' = h" by simp_all
    note q = select_files [OF undone(3) [unfolded e] r(4,5)]
    show ?thesis using r(3-5) q assms(3) undone(4,5) e
      by (intro keep) (simp add: kept_def unlink_all_def put_file_def save_versions_def history_of_put load_versions_def)
  qed
qed

subsection \<open>A run of the store\<close>

text \<open>A storyboard that exists without a history, and a new one staged beside it.\<close>

definition demo_stamp :: stamp where
  "demo_stamp = \<lparr>st_file = ''20260101T000000'', st_iso = ''2026-01-01T00:00:00''\<rparr>"

definition demo_store :: "nat vdisk" where
  "demo_store = \<lparr>vd_files = (\<lambda>p. if p = ''board.png'' then Some 1 else if p = ''staged.png'' then Some 2 else None), vd_table = None\<rparr>"

definition demo_committed :: "(py_error + int) \<times> nat vdisk" where
  "demo_committed = commit_staged_version (\<lambda>_. None) demo_stamp ''storyboards'' ''s1'' ''p'' [] ''staged.png'' ''board.png'' demo_store"

definition demo_failed :: "(py_error + ((string \<times> string) \<times> int) list) \<times> nat vdisk" where
  "demo_failed = commit_staged_versions (\<lambda>k. if k = 4 then Some (RuntimeError ''hook'') else None) demo_stamp
     [\<lparr>sc_rtype = ''storyboards'', sc_rid = ''s1'', sc_prompt = ''p'', sc_staged = ''staged.png'', sc_current = ''board.png'', sc_metadata = []\<rparr>]
     demo_store"

definition demo_paid :: "(py_error + paid_version_commit) \<times> nat vdisk" where
  "demo_paid = commit_staged_paid_version (\<lambda>k. if k = 5 then Some (RuntimeError ''hook'') else None) demo_stamp ''storyboards'' ''s1'' ''p'' []
     ''staged.png'' ''board.png'' (\<lambda>_. Inr True) (Some 0) demo_store"

lemma demo_free: "snapshots_free demo_stamp demo_store"
  by (auto simp: snapshots_free_def demo_store_def snapshot_path_def)

lemma demo_apart: "''board.png'' \<notin> range (snapshot_path st a b)"
  by (auto simp: snapshot_path_def)


lemma batch_all_or_nothing_witness:
  "vd_table (snd demo_failed) = vd_table demo_store \<and> vd_files (snd demo_failed) ''board.png'' = vd_files demo_store ''board.png''"
proof (rule batch_all_or_nothing [OF demo_free])
  have "fst demo_failed = Inl (RuntimeError ''hook'')" by code_simp
  then show "commit_staged_versions (\<lambda>k. if k = 4 then Some (RuntimeError ''hook'') else None) demo_stamp
     [\<lparr>sc_rtype = ''storyboards'', sc_rid = ''s1'', sc_prompt = ''p'', sc_staged = ''staged.png'', sc_current = ''board.png'', sc_metadata = []\<rparr>]
     demo_store = (Inl (RuntimeError ''hook''), snd demo_failed)"
    unfolding demo_failed_def by (metis prod.collapse)
qed simp

lemma commit_then_reject_witness:
  "\<exists>d2. reject_current_version (\<lambda>_. None) ''storyboards'' ''s1'' 2 None ''board.png'' (snd demo_committed) = (Inr True, d2)
    \<and> vd_files d2 ''board.png'' = vd_files demo_store ''board.png''
    \<and> rh_current (history_of (load_versions d2) ''storyboards'' ''s1'')
       = (if rh_current (history_of (load_versions demo_store) ''storyboards'' ''s1'') = 0 \<and> vd_files demo_store ''board.png'' \<noteq> None
          then next_version (rh_versions (history_of (load_versions demo_store) ''storyboards'' ''s1''))
          else rh_current (history_of (load_versions demo_store) ''storyboards'' ''s1''))"
proof (rule commit_then_reject [OF _ demo_free _ demo_apart])
  show "table_ok (load_versions demo_store)" by (rule empty_table_ok) (simp add: demo_store_def)
  show "in_step demo_store ''staged.png'' (history_of (load_versions demo_store) ''storyboards'' ''s1'') ''board.png''" by code_simp
  have "fst demo_committed = Inr 2" by code_simp
  then show "commit_staged_version (\<lambda>_. None) demo_stamp ''storyboards'' ''s1'' ''p'' [] ''staged.png'' ''board.png'' demo_store
      = (Inr 2, snd demo_committed)"
    unfolding demo_committed_def by (metis prod.collapse)
qed

lemma paid_result_kept_witness:
  "(\<exists>r \<in> set (rh_versions (history_of (load_versions (snd demo_paid)) ''storyboards'' ''s1'')).
            vd_files (snd demo_paid) (vr_file r) = Some 2 \<and>
            (if fst demo_paid = Inr \<lparr>pc_version = vr_version r, pc_selected = True\<rparr>
             then vd_files (snd demo_paid) ''board.png'' = Some 2 \<and> rh_current (history_of (load_versions (snd demo_paid)) ''storyboards'' ''s1'') = vr_version r
             else vd_files (snd demo_paid) ''board.png'' = vd_files demo_store ''board.png''
               \<and> rh_current (history_of (load_versions (snd demo_paid)) ''storyboards'' ''s1'')
                 = max 0 (if rh_current (history_of (load_versions demo_store) ''storyboards'' ''s1'') = 0 \<and> vd_files demo_store ''board.png'' \<noteq> None
                     then next_version (rh_versions (history_of (load_versions demo_store) ''storyboards'' ''s1''))
                     else rh_current (history_of (load_versions demo_store) ''storyboards'' ''s1''))))"
proof (rule paid_result_kept [OF demo_free demo_apart])
  show "commit_staged_paid_version (\<lambda>k. if k = 5 then Some (RuntimeError ''hook'') else None) demo_stamp ''storyboards'' ''s1'' ''p'' []
     ''staged.png'' ''board.png'' (\<lambda>_. Inr True) (Some 0) demo_store = (fst demo_paid, snd demo_paid)"
    by (simp add: demo_paid_def)
qed (simp_all add: demo_store_def RESOURCE_TYPES_def PATTERNS_def)

end
