(* ===== verification/Jsonpath_Subset.thy ===== *)
theory Jsonpath_Subset
  imports Json_Text
begin

text \<open>
  The gate every JSONPath of a provider definition passes
  (lib/custom_provider/endpoint_definition/jsonpath_subset.py): a recursive descent parser of a
  subset of RFC 9535 that only accepts or refuses. A parser takes the text and a position and gives
  the position after what it read, or the code of the refusal with the number of the character it
  points at. The descent into parentheses and the loop over the segments run on fuel. Characters
  are those of Latin-1, of which no one is a surrogate.
\<close>

subsection \<open>Characters and positions\<close>

datatype jp_code =
    JSONPATH_NOT_A_STRING
  | JSONPATH_SURROUNDING_WHITESPACE
  | JSONPATH_MISSING_ROOT
  | JSONPATH_SYNTAX
  | JSONPATH_RECURSIVE_DESCENT
  | JSONPATH_UNION
  | JSONPATH_SLICE_STEP
  | JSONPATH_REGEX_OPERATOR
  | JSONPATH_FILTER_NON_SINGULAR
  | JSONPATH_FILTER_ROOT_REFERENCE
  | JSONPATH_FUNCTION_EXTENSION

datatype segment_kind = NAME | INDEX | WILDCARD | SLICE | FILTER

type_synonym 'a jp = "(jp_code \<times> nat) + 'a"

abbreviation backslash :: char where "backslash \<equiv> CHR 0x5C"

definition is_quote :: "char \<Rightarrow> bool" where
  "is_quote c \<longleftrightarrow> c = CHR 0x27 \<or> c = CHR 0x22"

definition rfc_blank :: "char \<Rightarrow> bool" where
  "rfc_blank c \<longleftrightarrow> c = CHR '' '' \<or> c = CHR 0x09 \<or> c = CHR 0x0A \<or> c = CHR 0x0D"

definition is_escape :: "char \<Rightarrow> bool" where
  "is_escape c \<longleftrightarrow> c \<in> set ''ntrbf/'' \<or> c = backslash"

definition COMPARISON_OPERATORS :: "string list" where
  "COMPARISON_OPERATORS = [''=='', ''!='', ''<='', ''>='', ''<'', ''>'']"

definition LITERAL_KEYWORDS :: "string list" where
  "LITERAL_KEYWORDS = [''true'', ''false'', ''null'']"

definition is_ascii_letter :: "char \<Rightarrow> bool" where
  "is_ascii_letter c = (let n = (of_char c :: nat) in (65 \<le> n \<and> n \<le> 90) \<or> (97 \<le> n \<and> n \<le> 122))"

definition is_extended :: "char \<Rightarrow> bool" where
  "is_extended c \<longleftrightarrow> (of_char c :: nat) > 127"

definition is_name_start :: "char \<Rightarrow> bool" where
  "is_name_start c \<longleftrightarrow> is_ascii_letter c \<or> c = CHR ''_'' \<or> is_extended c"

definition is_name_char :: "char \<Rightarrow> bool" where
  "is_name_char c \<longleftrightarrow> is_name_start c \<or> is_digit c"

definition int_start :: "char \<Rightarrow> bool" where
  "int_start c \<longleftrightarrow> c = CHR ''-'' \<or> is_digit c"

definition peek :: "string \<Rightarrow> nat \<Rightarrow> char option" where
  "peek s p = (case drop p s of [] \<Rightarrow> None | c # _ \<Rightarrow> Some c)"

definition sees :: "(char \<Rightarrow> bool) \<Rightarrow> string \<Rightarrow> nat \<Rightarrow> bool" where
  "sees P s p = (case peek s p of None \<Rightarrow> False | Some c \<Rightarrow> P c)"

definition starts :: "string \<Rightarrow> nat \<Rightarrow> string \<Rightarrow> bool" where
  "starts s p w \<longleftrightarrow> prefix w (drop p s)"

definition skip_while :: "(char \<Rightarrow> bool) \<Rightarrow> string \<Rightarrow> nat \<Rightarrow> nat" where
  "skip_while P s p = p + length (takeWhile P (drop p s))"

abbreviation skip_whitespace :: "string \<Rightarrow> nat \<Rightarrow> nat" where
  "skip_whitespace \<equiv> skip_while rfc_blank"

definition fail_at :: "jp_code \<Rightarrow> nat \<Rightarrow> 'a jp" where
  "fail_at code p = Inl (code, p + 1)"

subsection \<open>Words\<close>

definition read_shorthand :: "string \<Rightarrow> nat \<Rightarrow> nat jp" where
  "read_shorthand s p = (if sees is_name_start s p then Inr (skip_while is_name_char s p) else fail_at JSONPATH_SYNTAX p)"

definition is_hex :: "char \<Rightarrow> bool" where
  "is_hex c \<longleftrightarrow> is_digit c \<or> c \<in> set ''abcdefABCDEF''"

definition hex_value :: "char \<Rightarrow> nat" where
  "hex_value c = (let n = of_char c in if is_digit c then n - 48 else if n < 97 then n - 55 else n - 87)"

definition hex_number :: "string \<Rightarrow> nat" where
  "hex_number ds = foldl (\<lambda>n c. 16 * n + hex_value c) 0 ds"

definition read_four_hex :: "string \<Rightarrow> nat \<Rightarrow> (nat \<times> nat) jp" where
  "read_four_hex s p =
     (let digits = take 4 (drop p s)
      in if length digits < 4 \<or> \<not> list_all is_hex digits then fail_at JSONPATH_SYNTAX p else Inr (hex_number digits, p + 4))"

definition low_surrogate :: "nat \<Rightarrow> bool" where
  "low_surrogate n \<longleftrightarrow> 0xDC00 \<le> n \<and> n \<le> 0xDFFF"

definition high_surrogate :: "nat \<Rightarrow> bool" where
  "high_surrogate n \<longleftrightarrow> 0xD800 \<le> n \<and> n \<le> 0xDBFF"

definition read_unicode_escape :: "string \<Rightarrow> nat \<Rightarrow> nat jp" where
  "read_unicode_escape s p =
     bind_e (read_four_hex s p) (\<lambda>(code, p1).
       if low_surrogate code then fail_at JSONPATH_SYNTAX p1
       else if high_surrogate code then
         (if \<not> starts s p1 [backslash, CHR ''u''] then fail_at JSONPATH_SYNTAX p1
          else bind_e (read_four_hex s (p1 + 2)) (\<lambda>(low, p2).
                 if low_surrogate low then Inr p2 else fail_at JSONPATH_SYNTAX p2))
       else Inr p1)"

lemma four_hex_pos: "read_four_hex s p = Inr (n, p1) \<Longrightarrow> p1 = p + 4"
  by (auto simp: read_four_hex_def fail_at_def Let_def split: if_splits)

lemma unicode_escape_pos: "read_unicode_escape s p = Inr p1 \<Longrightarrow> p < p1"
  by (auto simp: read_unicode_escape_def bind_e_Inr_iff fail_at_def split: if_splits dest!: four_hex_pos)

lemma peek_less: "peek s p = Some c \<Longrightarrow> p < length s"
  by (auto simp: peek_def split: list.splits intro: ccontr)

function quoted_loop :: "string \<Rightarrow> char \<Rightarrow> nat \<Rightarrow> nat jp" where
  "quoted_loop s q p =
     (case peek s p of
        None \<Rightarrow> Inr p
      | Some c \<Rightarrow>
          if c = q then Inr p
          else if c \<noteq> backslash then
            (if (of_char c :: nat) < 32 then fail_at JSONPATH_SYNTAX p else quoted_loop s q (p + 1))
          else
            (case peek s (p + 1) of
               None \<Rightarrow> fail_at JSONPATH_SYNTAX (p + 2)
             | Some e \<Rightarrow>
                 if e = CHR ''u'' then bind_e (read_unicode_escape s (p + 2)) (quoted_loop s q)
                 else if is_escape e \<or> e = q then quoted_loop s q (p + 2)
                 else fail_at JSONPATH_SYNTAX (p + 2)))"
  by pat_completeness auto
termination
  by (relation "measure (\<lambda>(s, q, p). length s - p)") (auto dest!: peek_less unicode_escape_pos)

text \<open>The position is that of the opening quote.\<close>

definition read_quoted :: "string \<Rightarrow> char \<Rightarrow> nat \<Rightarrow> nat jp" where
  "read_quoted s q p =
     bind_e (quoted_loop s q (p + 1)) (\<lambda>p1. if peek s p1 = None then fail_at JSONPATH_SYNTAX p1 else Inr (p1 + 1))"

definition read_int :: "string \<Rightarrow> nat \<Rightarrow> nat jp" where
  "read_int s p =
     (let p1 = (if peek s p = Some (CHR ''-'') then p + 1 else p)
      in if \<not> sees is_digit s p1 then fail_at JSONPATH_SYNTAX p1
         else
           (let p2 = skip_while is_digit s p1;
                digits = dropWhile (\<lambda>c. c = CHR ''-'') (take (p2 - p) (drop p s))
            in if (peek s p = Some (CHR ''-'') \<and> digits = ''0'') \<or> (1 < length digits \<and> hd digits = CHR ''0'')
               then fail_at JSONPATH_SYNTAX p2 else Inr p2))"

definition read_digits :: "string \<Rightarrow> nat \<Rightarrow> nat jp" where
  "read_digits s p = (if sees is_digit s p then Inr (skip_while is_digit s p) else fail_at JSONPATH_SYNTAX p)"

definition read_number :: "string \<Rightarrow> nat \<Rightarrow> nat jp" where
  "read_number s p =
     (let p1 = (if peek s p = Some (CHR ''-'') then p + 1 else p)
      in if \<not> sees is_digit s p1 then fail_at JSONPATH_SYNTAX p1
         else bind_e (if peek s p1 = Some (CHR ''0'') then Inr (p1 + 1) else read_digits s p1) (\<lambda>p2.
           bind_e (if peek s p2 = Some (CHR ''.'') then read_digits s (p2 + 1) else Inr p2) (\<lambda>p3.
             if sees (\<lambda>c. c = CHR ''e'' \<or> c = CHR ''E'') s p3
             then read_digits s (if sees (\<lambda>c. c = CHR ''+'' \<or> c = CHR ''-'') s (p3 + 1) then p3 + 2 else p3 + 1)
             else Inr p3)))"

definition parse_literal :: "string \<Rightarrow> nat \<Rightarrow> nat jp" where
  "parse_literal s p =
     (case peek s p of
        None \<Rightarrow> fail_at JSONPATH_SYNTAX p
      | Some c \<Rightarrow>
          if is_quote c then read_quoted s c p
          else if int_start c then read_number s p
          else
            (case find (starts s p) LITERAL_KEYWORDS of
               Some kw \<Rightarrow> Inr (p + length kw)
             | None \<Rightarrow>
                 if c = CHR ''$'' then fail_at JSONPATH_FILTER_ROOT_REFERENCE p
                 else if is_name_start c then fail_at JSONPATH_FUNCTION_EXTENSION p
                 else fail_at JSONPATH_SYNTAX p))"

subsection \<open>Filters\<close>

text \<open>One name or index in brackets; the position is behind the opening bracket.\<close>

definition singular_bracket :: "string \<Rightarrow> nat \<Rightarrow> nat jp" where
  "singular_bracket s p =
     (let c = skip_whitespace s p
      in bind_e (case peek s c of
                   None \<Rightarrow> fail_at JSONPATH_FILTER_NON_SINGULAR c
                 | Some q \<Rightarrow> if is_quote q then read_quoted s q c
                             else if int_start q then read_int s c
                             else fail_at JSONPATH_FILTER_NON_SINGULAR c) (\<lambda>d.
           let e = skip_whitespace s d
           in if sees (\<lambda>c. c = CHR '':'' \<or> c = CHR '','') s e then fail_at JSONPATH_FILTER_NON_SINGULAR e
              else if peek s e \<noteq> Some (CHR '']'') then fail_at JSONPATH_SYNTAX e
              else Inr (e + 1)))"

lemma skip_while_le: "p \<le> skip_while P s p"
  by (simp add: skip_while_def)

declare quoted_loop.simps [simp del]

lemma quoted_loop_le: "quoted_loop s q p = Inr p1 \<Longrightarrow> p \<le> p1"
proof (induction s q p rule: quoted_loop.induct)
  case (1 s q p)
  note IH = "1.IH" and eq = "1.prems" [unfolded quoted_loop.simps [of s q p]]
  show ?case
  proof (cases "peek s p")
    case (Some c)
    show ?thesis
    proof (cases "c = q \<or> c \<noteq> backslash")
      case True
      with Some eq IH(1) [OF Some] show ?thesis by (force simp: fail_at_def split: if_splits)
    next
      case False
      then have c: "c \<noteq> q" "\<not> c \<noteq> backslash" by blast+
      show ?thesis
      proof (cases "peek s (p + 1)")
        case None
        with Some c eq show ?thesis by (simp add: fail_at_def)
      next
        case e: (Some e)
        show ?thesis
        proof (cases "e = CHR ''u''")
          case True
          then obtain p2 where "read_unicode_escape s (p + 2) = Inr p2" "quoted_loop s q p2 = Inr p1"
            using Some c e eq by (auto simp: bind_e_Inr_iff)
          with IH(2) [OF Some c e True] show ?thesis by (auto dest: unicode_escape_pos)
        next
          case False
          with Some c e eq IH(3) [OF Some c e False] show ?thesis by (force simp: fail_at_def split: if_splits)
        qed
      qed
    qed
  qed (use eq in simp)
qed

lemma read_quoted_pos: "read_quoted s q p = Inr p1 \<Longrightarrow> p < p1"
  by (auto simp: read_quoted_def bind_e_Inr_iff fail_at_def split: if_splits dest!: quoted_loop_le)

lemma sees_skip: "sees P s p \<Longrightarrow> (\<And>c. P c \<Longrightarrow> Q c) \<Longrightarrow> p < skip_while Q s p"
  by (auto simp: sees_def peek_def skip_while_def split: option.splits list.splits)

lemma read_int_pos: "read_int s p = Inr p1 \<Longrightarrow> p < p1"
  using sees_skip [of is_digit s p is_digit] sees_skip [of is_digit s "p + 1" is_digit]
  by (auto simp: read_int_def Let_def fail_at_def split: if_splits)

lemma singular_bracket_pos: "singular_bracket s p = Inr p1 \<Longrightarrow> p < p1"
  using skip_while_le [of p rfc_blank s]
  by (auto simp: singular_bracket_def Let_def bind_e_Inr_iff fail_at_def split: option.splits if_splits
      dest!: read_quoted_pos read_int_pos intro: le_less_trans less_le_trans [OF _ le_trans [OF skip_while_le]]
      less_SucI)

lemma read_shorthand_pos: "read_shorthand s p = Inr p1 \<Longrightarrow> p < p1"
  using sees_skip [of is_name_start s p is_name_char] by (auto simp: read_shorthand_def fail_at_def is_name_char_def split: if_splits)

text \<open>The segments of a query in a filter; the position is behind the \<open>@\<close> or the segments read so far.\<close>

function singular_loop :: "string \<Rightarrow> nat \<Rightarrow> nat jp" where
  "singular_loop s p =
     (let b = skip_whitespace s p
      in if peek s b = Some (CHR ''.'') then
           (if peek s (b + 1) = Some (CHR ''.'') then fail_at JSONPATH_RECURSIVE_DESCENT b
            else if peek s (b + 1) = Some (CHR ''*'') then fail_at JSONPATH_FILTER_NON_SINGULAR (b + 1)
            else bind_e (read_shorthand s (b + 1)) (singular_loop s))
         else if peek s b = Some (CHR ''['') then bind_e (singular_bracket s (b + 1)) (singular_loop s)
         else Inr p)"
  by pat_completeness auto
termination
proof (relation "measure (\<lambda>(s, p). length s - p)", goal_cases)
  case (2 s p b q)
  with peek_less [of s b] skip_while_le [of p rfc_blank s] read_shorthand_pos [of s "b + 1" q] show ?case by simp
next
  case (3 s p b q)
  with peek_less [of s b] skip_while_le [of p rfc_blank s] singular_bracket_pos [of s "b + 1" q] show ?case by simp
qed simp

declare singular_loop.simps [simp del]

definition parse_operand :: "string \<Rightarrow> nat \<Rightarrow> nat jp" where
  "parse_operand s p = (if peek s p = Some (CHR ''@'') then singular_loop s (p + 1) else parse_literal s p)"

text \<open>The part of a basic expression that is not in parentheses, after a negation or none.\<close>

definition parse_comparison :: "string \<Rightarrow> bool \<Rightarrow> nat \<Rightarrow> nat jp" where
  "parse_comparison s negated p =
     bind_e (parse_operand s p) (\<lambda>p1.
       let p2 = skip_whitespace s p1
       in if starts s p2 ''=~'' then fail_at JSONPATH_REGEX_OPERATOR p2
          else
            (case find (starts s p2) COMPARISON_OPERATORS of
               None \<Rightarrow> if peek s p = Some (CHR ''@'') then Inr p2 else fail_at JSONPATH_SYNTAX p2
             | Some op \<Rightarrow>
                 if negated then fail_at JSONPATH_SYNTAX p2
                 else parse_operand s (skip_whitespace s (p2 + length op))))"

definition then_jp :: "'a jp option \<Rightarrow> ('a \<Rightarrow> 'b jp option) \<Rightarrow> 'b jp option" where
  "then_jp m f = (case m of None \<Rightarrow> None | Some (Inl e) \<Rightarrow> Some (Inl e) | Some (Inr x) \<Rightarrow> f x)"

text \<open>
  \<open>_parse_or\<close> and \<open>_parse_and\<close> have one shape: an expression of the next level, then further ones
  each behind the operator.
\<close>

fun joined_loop :: "string \<Rightarrow> (nat \<Rightarrow> nat jp option) \<Rightarrow> nat \<Rightarrow> string \<Rightarrow> nat \<Rightarrow> nat jp option" where
  "joined_loop op next 0 s p = None"
| "joined_loop op next (Suc n) s p =
     (if starts s p op
      then then_jp (next (p + length op)) (\<lambda>p1. joined_loop op next n s (skip_whitespace s p1))
      else Some (Inr p))"

definition joined :: "string \<Rightarrow> (nat \<Rightarrow> nat jp option) \<Rightarrow> string \<Rightarrow> nat \<Rightarrow> nat jp option" where
  "joined op next s p = then_jp (next p) (\<lambda>p1. joined_loop op next (Suc (length s)) s (skip_whitespace s p1))"

definition parse_and :: "(nat \<Rightarrow> nat jp option) \<Rightarrow> string \<Rightarrow> nat \<Rightarrow> nat jp option" where
  "parse_and basic s p = joined ''&&'' basic s p"

definition parse_or :: "(nat \<Rightarrow> nat jp option) \<Rightarrow> string \<Rightarrow> nat \<Rightarrow> nat jp option" where
  "parse_or basic s p = joined ''||'' (parse_and basic s) s p"

fun parse_basic :: "nat \<Rightarrow> string \<Rightarrow> nat \<Rightarrow> nat jp option" where
  "parse_basic 0 s p = None"
| "parse_basic (Suc n) s p =
     (let p0 = skip_whitespace s p;
          negated = (peek s p0 = Some (CHR ''!''));
          p1 = (if negated then skip_whitespace s (p0 + 1) else p0)
      in if peek s p1 = Some (CHR ''('') then
           then_jp (parse_or (parse_basic n s) s (p1 + 1)) (\<lambda>p2.
             let p3 = skip_whitespace s p2
             in Some (if peek s p3 = Some (CHR '')'') then Inr (p3 + 1) else fail_at JSONPATH_SYNTAX p3))
         else Some (parse_comparison s negated p1))"

definition parse_filter :: "string \<Rightarrow> nat \<Rightarrow> (segment_kind \<times> nat) jp option" where
  "parse_filter s p = then_jp (parse_or (parse_basic (Suc (length s)) s) s p) (\<lambda>p1. Some (Inr (FILTER, skip_whitespace s p1)))"

subsection \<open>Paths\<close>

definition parse_index_or_slice :: "string \<Rightarrow> char \<Rightarrow> nat \<Rightarrow> (segment_kind \<times> nat) jp" where
  "parse_index_or_slice s c p =
     bind_e (if c \<noteq> CHR '':'' then read_int s p else Inr p) (\<lambda>p1.
       let p2 = skip_whitespace s p1
       in if peek s p2 \<noteq> Some (CHR '':'') then Inr (INDEX, p2)
          else
            (let p3 = skip_whitespace s (p2 + 1)
             in bind_e (if sees int_start s p3 then map_sum id (skip_whitespace s) (read_int s p3) else Inr p3) (\<lambda>p4.
                  if peek s p4 = Some (CHR '':'') then
                    (let p5 = skip_whitespace s (p4 + 1)
                     in if sees int_start s p5 then fail_at JSONPATH_SLICE_STEP p5 else Inr (SLICE, p5))
                  else Inr (SLICE, p4))))"

definition parse_dot_segment :: "string \<Rightarrow> nat \<Rightarrow> (segment_kind \<times> nat) jp" where
  "parse_dot_segment s p =
     (if peek s (p + 1) = Some (CHR ''.'') then fail_at JSONPATH_RECURSIVE_DESCENT p
      else if peek s (p + 1) = Some (CHR ''*'') then Inr (WILDCARD, p + 2)
      else map_sum id (Pair NAME) (read_shorthand s (p + 1)))"

definition parse_selector :: "string \<Rightarrow> nat \<Rightarrow> (segment_kind \<times> nat) jp option" where
  "parse_selector s p =
     (case peek s p of
        None \<Rightarrow> Some (fail_at JSONPATH_SYNTAX p)
      | Some c \<Rightarrow>
          if is_quote c then Some (map_sum id (Pair NAME) (read_quoted s c p))
          else if c = CHR ''*'' then Some (Inr (WILDCARD, p + 1))
          else if c = CHR ''?'' then parse_filter s (p + 1)
          else if c = CHR '':'' \<or> int_start c then Some (parse_index_or_slice s c p)
          else Some (fail_at JSONPATH_SYNTAX p))"

definition parse_bracket_segment :: "string \<Rightarrow> nat \<Rightarrow> (segment_kind \<times> nat) jp option" where
  "parse_bracket_segment s p =
     then_jp (parse_selector s (skip_whitespace s (p + 1))) (\<lambda>(k, p1).
       let p2 = skip_whitespace s p1
       in Some (if peek s p2 = Some (CHR '','') then fail_at JSONPATH_UNION p2
                else if peek s p2 \<noteq> Some (CHR '']'') then fail_at JSONPATH_SYNTAX p2
                else Inr (k, p2 + 1)))"

fun parse_segments :: "nat \<Rightarrow> string \<Rightarrow> nat \<Rightarrow> segment_kind list jp option" where
  "parse_segments 0 s p = None"
| "parse_segments (Suc n) s p =
     (case peek s p of
        None \<Rightarrow> Some (Inr [])
      | Some c \<Rightarrow>
          then_jp (if c = CHR ''.'' then Some (parse_dot_segment s p)
                   else if c = CHR ''['' then parse_bracket_segment s p
                   else Some (fail_at JSONPATH_SYNTAX p)) (\<lambda>(k, p1).
            then_jp (parse_segments n s (skip_whitespace s p1)) (\<lambda>ks. Some (Inr (k # ks)))))"

definition parse_path :: "string \<Rightarrow> segment_kind list jp option" where
  "parse_path s =
     (if peek s 0 \<noteq> Some (CHR ''$'') then Some (fail_at JSONPATH_MISSING_ROOT 0)
      else parse_segments (Suc (length s)) s (skip_whitespace s 1))"

definition parse_json_path :: "pyval \<Rightarrow> segment_kind list jp option" where
  "parse_json_path source =
     (case source of
        PStr s \<Rightarrow>
          if s \<noteq> [] \<and> (rfc_blank (hd s) \<or> rfc_blank (last s)) then Some (Inl (JSONPATH_SURROUNDING_WHITESPACE, 1))
          else parse_path s
      | _ \<Rightarrow> Some (Inl (JSONPATH_NOT_A_STRING, 1)))"

definition has_wildcard :: "segment_kind list \<Rightarrow> bool" where
  "has_wildcard ks \<longleftrightarrow> WILDCARD \<in> set ks"

end
