(* ===== verification/Jsonpath_Props.thy ===== *)
theory Jsonpath_Props
  imports Jsonpath_Subset
begin

text \<open>
  The gate accepts exactly the paths of a grammar: the subset of RFC 9535 the module describes,
  written as languages of strings. What a parser reads is a word of its language, and a word of a
  language is read as a whole when what follows cannot continue it. The fuel never runs out.
\<close>

subsection \<open>Positions and words\<close>

definition reads :: "(string \<Rightarrow> bool) \<Rightarrow> string \<Rightarrow> nat \<Rightarrow> nat \<Rightarrow> bool" where
  "reads X s p q \<longleftrightarrow> (\<exists>w rest. drop p s = w @ rest \<and> q = p + length w \<and> X w)"

abbreviation blanks :: "string \<Rightarrow> bool" where
  "blanks \<equiv> list_all rfc_blank"

lemma peek_iff: "peek s p = Some c \<longleftrightarrow> (\<exists>r. drop p s = c # r)"
  by (auto simp: peek_def split: list.splits)

lemma peek_drop: "drop p s = c # r \<Longrightarrow> peek s p = Some c"
  by (simp add: peek_def)

lemma peek_end: "drop p s = [] \<Longrightarrow> peek s p = None"
  by (simp add: peek_def)

lemma sees_drop: "drop p s = c # r \<Longrightarrow> sees P s p = P c"
  by (simp add: sees_def peek_drop)

lemma sees_end: "drop p s = [] \<Longrightarrow> sees P s p = False"
  by (simp add: sees_def peek_end)

lemma sees_iff: "sees P s p \<longleftrightarrow> (\<exists>c r. drop p s = c # r \<and> P c)"
  by (cases "drop p s") (simp_all add: sees_drop sees_end)

lemma drop_further: "drop p s = w @ rest \<Longrightarrow> drop (p + length w) s = rest"
  by (metis add.commute append_eq_conv_conj drop_drop)

lemma drop_next: "drop p s = c # rest \<Longrightarrow> drop (Suc p) s = rest"
  using drop_further [of p s "[c]" rest] by simp

lemma reads_le: "reads X s p q \<Longrightarrow> p \<le> q"
  by (auto simp: reads_def)

lemma reads_seq: "reads X s p q \<Longrightarrow> reads Y s q r \<Longrightarrow> (\<And>u v. X u \<Longrightarrow> Y v \<Longrightarrow> Z (u @ v)) \<Longrightarrow> reads Z s p r"
  unfolding reads_def by (metis append.assoc drop_further add.assoc length_append same_append_eq)

lemma reads_mono: "reads X s p q \<Longrightarrow> (\<And>w. X w \<Longrightarrow> Y w) \<Longrightarrow> reads Y s p q"
  by (auto simp: reads_def)

lemma reads_nothing: "X [] \<Longrightarrow> reads X s p p"
  unfolding reads_def by (metis add.right_neutral append_Nil list.size(3))

lemma reads_char: "peek s p = Some c \<Longrightarrow> X [c] \<Longrightarrow> reads X s p (p + 1)"
  unfolding reads_def peek_iff by (metis append_Cons append_Nil One_nat_def list.size(3) list.size(4) add_0)

lemma reads_cons: "peek s p = Some c \<Longrightarrow> reads Y s (p + 1) q \<Longrightarrow> (\<And>v. Y v \<Longrightarrow> Z (c # v)) \<Longrightarrow> reads Z s p q"
  by (rule reads_seq [where Y = Y, OF reads_char [of s p c "\<lambda>w. w = [c]"]]) auto

lemma reads_skip: "reads (list_all P) s p (skip_while P s p)"
  unfolding reads_def skip_while_def
  by (metis takeWhile_dropWhile_id list_all_iff set_takeWhileD)

lemma reads_starts: "starts s p w \<Longrightarrow> reads ((=) w) s p (p + length w)"
  by (auto simp: reads_def starts_def prefix_def)

lemma skip_while_stops: "drop p s = w @ rest \<Longrightarrow> list_all P w \<Longrightarrow> rest = [] \<or> \<not> P (hd rest) \<Longrightarrow> skip_while P s p = p + length w"
  unfolding skip_while_def by (cases rest) (simp_all only: takeWhile_append2 list_all_iff, auto simp: takeWhile_eq_all_conv list_all_iff)

lemma skip_none: "drop p s = rest \<Longrightarrow> rest = [] \<or> \<not> P (hd rest) \<Longrightarrow> skip_while P s p = p"
  using skip_while_stops [of p s "[]" rest P] by simp

subsection \<open>Words of the language\<close>

definition shorthand_word :: "string \<Rightarrow> bool" where
  "shorthand_word w \<longleftrightarrow> (case w of [] \<Rightarrow> False | c # cs \<Rightarrow> is_name_start c \<and> list_all is_name_char cs)"

definition digits_word :: "string \<Rightarrow> bool" where
  "digits_word w \<longleftrightarrow> w \<noteq> [] \<and> list_all is_digit w"

definition plain_int :: "string \<Rightarrow> bool" where
  "plain_int w \<longleftrightarrow> w = ''0'' \<or> (digits_word w \<and> hd w \<noteq> CHR ''0'')"

definition int_word :: "string \<Rightarrow> bool" where
  "int_word w \<longleftrightarrow> w = ''0'' \<or> (\<exists>ds. (w = ds \<or> w = CHR ''-'' # ds) \<and> digits_word ds \<and> hd ds \<noteq> CHR ''0'')"

definition fraction_word :: "string \<Rightarrow> bool" where
  "fraction_word w \<longleftrightarrow> w = [] \<or> (\<exists>ds. w = CHR ''.'' # ds \<and> digits_word ds)"

definition sign_word :: "string \<Rightarrow> bool" where
  "sign_word w \<longleftrightarrow> w = [] \<or> w = ''+'' \<or> w = ''-''"

definition exponent_word :: "string \<Rightarrow> bool" where
  "exponent_word w \<longleftrightarrow> w = [] \<or> (\<exists>c sg ds. w = c # sg @ ds \<and> (c = CHR ''e'' \<or> c = CHR ''E'') \<and> sign_word sg \<and> digits_word ds)"

definition number_word :: "string \<Rightarrow> bool" where
  "number_word w \<longleftrightarrow> (\<exists>m i f e. w = m @ i @ f @ e \<and> (m = [] \<or> m = ''-'') \<and> plain_int i \<and> fraction_word f \<and> exponent_word e)"

definition hex_word :: "string \<Rightarrow> bool" where
  "hex_word w \<longleftrightarrow> length w = 4 \<and> list_all is_hex w"

inductive unicode_word :: "string \<Rightarrow> bool" where
  single: "hex_word h \<Longrightarrow> \<not> low_surrogate (hex_number h) \<Longrightarrow> \<not> high_surrogate (hex_number h) \<Longrightarrow> unicode_word h"
| pair: "hex_word h \<Longrightarrow> high_surrogate (hex_number h) \<Longrightarrow> hex_word l \<Longrightarrow> low_surrogate (hex_number l)
    \<Longrightarrow> unicode_word (h @ [backslash, CHR ''u''] @ l)"

inductive quoted_body :: "char \<Rightarrow> string \<Rightarrow> bool" for q where
  stop: "quoted_body q []"
| char: "c \<noteq> q \<Longrightarrow> c \<noteq> backslash \<Longrightarrow> 32 \<le> (of_char c :: nat) \<Longrightarrow> quoted_body q w \<Longrightarrow> quoted_body q (c # w)"
| escaped: "is_escape e \<or> e = q \<Longrightarrow> quoted_body q w \<Longrightarrow> quoted_body q (backslash # e # w)"
| unicode: "unicode_word h \<Longrightarrow> quoted_body q w \<Longrightarrow> quoted_body q (backslash # CHR ''u'' # h @ w)"

definition quoted_word :: "string \<Rightarrow> bool" where
  "quoted_word w \<longleftrightarrow> (\<exists>q b. is_quote q \<and> quoted_body q b \<and> w = q # b @ [q])"

definition literal_word :: "string \<Rightarrow> bool" where
  "literal_word w \<longleftrightarrow> quoted_word w \<or> number_word w \<or> w \<in> set LITERAL_KEYWORDS"

subsection \<open>What is read is a word\<close>

lemma shorthand_sound: "read_shorthand s p = Inr q \<Longrightarrow> reads shorthand_word s p q"
proof -
  assume "read_shorthand s p = Inr q"
  then have "sees is_name_start s p" and q: "q = skip_while is_name_char s p"
    by (auto simp: read_shorthand_def fail_at_def split: if_splits)
  then obtain c r where c: "drop p s = c # r" "is_name_start c" by (auto simp: sees_iff)
  then have "takeWhile is_name_char (drop p s) = c # takeWhile is_name_char r" by (simp add: is_name_char_def)
  then have "shorthand_word (takeWhile is_name_char (drop p s))"
    using c by (auto simp: shorthand_word_def list_all_iff dest: set_takeWhileD)
  then show ?thesis unfolding q skip_while_def reads_def by (metis takeWhile_dropWhile_id)
qed

lemma skip_digits_sound: "sees is_digit s p \<Longrightarrow> reads digits_word s p (skip_while is_digit s p)"
proof -
  assume "sees is_digit s p"
  then obtain c r where "drop p s = c # r" "is_digit c" by (auto simp: sees_iff)
  then have "digits_word (takeWhile is_digit (drop p s))"
    by (auto simp: digits_word_def list_all_iff dest: set_takeWhileD)
  then show ?thesis unfolding skip_while_def reads_def by (metis takeWhile_dropWhile_id)
qed

lemma digits_sound: "read_digits s p = Inr q \<Longrightarrow> reads digits_word s p q"
  by (auto simp: read_digits_def fail_at_def split: if_splits intro: skip_digits_sound)

lemma digit_not_minus: "is_digit c \<Longrightarrow> c \<noteq> CHR ''-''"
  by (auto simp: is_digit_def)

lemma int_sound:
  assumes "read_int s p = Inr q"
  shows "reads int_word s p q"
proof -
  define m where "m = (if peek s p = Some (CHR ''-'') then ''-'' else [])"
  have m: "reads ((=) m) s p (p + length m)" using reads_char [of s p "CHR ''-''"] reads_nothing by (auto simp: m_def)
  then obtain r where r: "drop p s = m @ r" by (auto simp: reads_def)
  have d: "sees is_digit s (p + length m)" and q: "q = skip_while is_digit s (p + length m)"
    and ok: "\<not> (m \<noteq> [] \<and> dropWhile (\<lambda>c. c = CHR ''-'') (take (q - p) (drop p s)) = ''0'')"
      "\<not> (1 < length (dropWhile (\<lambda>c. c = CHR ''-'') (take (q - p) (drop p s)))
         \<and> hd (dropWhile (\<lambda>c. c = CHR ''-'') (take (q - p) (drop p s))) = CHR ''0'')"
    using assms by (auto simp: read_int_def m_def Let_def fail_at_def split: if_splits)
  obtain ds rest where ds: "drop (p + length m) s = ds @ rest" "q = p + length m + length ds" "digits_word ds"
    using skip_digits_sound [OF d] unfolding q reads_def by blast
  have "r = ds @ rest" using drop_further [OF r] ds(1) by simp
  then have "take (q - p) (drop p s) = m @ ds" using ds(2) r by simp
  moreover have "dropWhile (\<lambda>c. c = CHR ''-'') (m @ ds) = ds"
    using ds(3) digit_not_minus by (cases ds) (auto simp: m_def digits_word_def)
  ultimately have "int_word (m @ ds)"
    using ok ds(3) by (cases ds) (auto simp: int_word_def m_def digits_word_def split: if_splits)
  with r ds drop_further [OF r] show ?thesis unfolding reads_def by (intro exI [of _ "m @ ds"] exI [of _ rest]) simp
qed

lemma number_sound:
  assumes "read_number s p = Inr q"
  shows "reads number_word s p q"
proof -
  define m where "m = (if peek s p = Some (CHR ''-'') then ''-'' else [])"
  have m: "reads (\<lambda>w. w = [] \<or> w = ''-'') s p (p + length m)"
    using reads_char [of s p "CHR ''-''"] reads_nothing by (auto simp: m_def)
  obtain p2 p3 where d: "sees is_digit s (p + length m)"
    and i: "(if peek s (p + length m) = Some (CHR ''0'') then Inr (p + length m + 1) else read_digits s (p + length m)) = Inr p2"
    and f: "(if peek s p2 = Some (CHR ''.'') then read_digits s (p2 + 1) else Inr p2) = Inr p3"
    and e: "(if sees (\<lambda>c. c = CHR ''e'' \<or> c = CHR ''E'') s p3
             then read_digits s (if sees (\<lambda>c. c = CHR ''+'' \<or> c = CHR ''-'') s (p3 + 1) then p3 + 2 else p3 + 1)
             else Inr p3) = Inr q"
    using assms by (auto simp: read_number_def m_def Let_def fail_at_def bind_e_Inr_iff split: if_splits)
  have i: "reads plain_int s (p + length m) p2"
  proof (cases "peek s (p + length m) = Some (CHR ''0'')")
    case True
    with i reads_char [OF True, of plain_int] show ?thesis by (simp add: plain_int_def)
  next
    case False
    with i have "reads digits_word s (p + length m) p2" by (simp add: digits_sound)
    then obtain w rest where "drop (p + length m) s = w @ rest" "p2 = p + length m + length w" "digits_word w"
      by (auto simp: reads_def)
    moreover from this False have "hd w \<noteq> CHR ''0''" by (cases w) (auto simp: digits_word_def peek_drop)
    ultimately show ?thesis unfolding reads_def plain_int_def by blast
  qed
  have f: "reads fraction_word s p2 p3"
  proof (cases "peek s p2 = Some (CHR ''.'')")
    case True
    show ?thesis
      by (rule reads_cons [OF True digits_sound]) (use f True in \<open>auto simp: fraction_word_def\<close>)
  next
    case False
    with f show ?thesis by (auto intro: reads_nothing simp: fraction_word_def)
  qed
  have e: "reads exponent_word s p3 q"
  proof (cases "sees (\<lambda>c. c = CHR ''e'' \<or> c = CHR ''E'') s p3")
    case True
    then obtain c where c: "peek s p3 = Some c" "c = CHR ''e'' \<or> c = CHR ''E''" by (auto simp: sees_def split: option.splits)
    define g where "g = (if sees (\<lambda>c. c = CHR ''+'' \<or> c = CHR ''-'') s (p3 + 1) then p3 + 2 else p3 + 1)"
    have sg: "reads sign_word s (p3 + 1) g"
    proof (cases "sees (\<lambda>c. c = CHR ''+'' \<or> c = CHR ''-'') s (p3 + 1)")
      case True
      then obtain c where "peek s (p3 + 1) = Some c" "c = CHR ''+'' \<or> c = CHR ''-''" by (auto simp: sees_def split: option.splits)
      with True reads_char [of s "p3 + 1" c sign_word] show ?thesis by (auto simp: g_def sign_word_def)
    qed (simp add: g_def reads_nothing sign_word_def)
    have ds: "reads digits_word s g q" using e True by (simp add: g_def digits_sound)
    have "reads (\<lambda>w. \<exists>a b. w = a @ b \<and> sign_word a \<and> digits_word b) s (p3 + 1) q"
      by (rule reads_seq [OF sg ds]) blast
    with c(1) show ?thesis by (rule reads_cons) (use c(2) in \<open>auto simp: exponent_word_def\<close>)
  next
    case False
    with e show ?thesis by (auto intro: reads_nothing simp: exponent_word_def)
  qed
  have "reads (\<lambda>w. \<exists>f e. w = f @ e \<and> fraction_word f \<and> exponent_word e) s p2 q"
    by (rule reads_seq [OF f e]) blast
  with i have "reads (\<lambda>w. \<exists>i f e. w = i @ f @ e \<and> plain_int i \<and> fraction_word f \<and> exponent_word e) s (p + length m) q"
    by (rule reads_seq) blast
  with m show ?thesis by (rule reads_seq) (auto simp: number_word_def)
qed

lemma four_hex_sound: "read_four_hex s p = Inr (n, q) \<Longrightarrow> reads (\<lambda>w. hex_word w \<and> hex_number w = n) s p q"
  unfolding reads_def read_four_hex_def Let_def fail_at_def
  by (rule exI [of _ "take 4 (drop p s)"], rule exI [of _ "drop 4 (drop p s)"])
    (auto simp: hex_word_def min_def simp del: drop_drop split: if_splits)

lemma unicode_sound:
  assumes "read_unicode_escape s p = Inr q"
  shows "reads unicode_word s p q"
proof -
  obtain n p1 where n: "read_four_hex s p = Inr (n, p1)" "\<not> low_surrogate n"
    and cont: "(if high_surrogate n then
         (if \<not> starts s p1 [backslash, CHR ''u''] then fail_at JSONPATH_SYNTAX p1
          else bind_e (read_four_hex s (p1 + 2)) (\<lambda>(low, p2). if low_surrogate low then Inr p2 else fail_at JSONPATH_SYNTAX p2))
       else Inr p1) = Inr q"
    using assms by (auto simp: read_unicode_escape_def bind_e_Inr_iff fail_at_def split: if_splits)
  show ?thesis
  proof (cases "high_surrogate n")
    case True
    then obtain l where l: "starts s p1 [backslash, CHR ''u'']" "read_four_hex s (p1 + 2) = Inr (l, q)" "low_surrogate l"
      using cont by (auto simp: bind_e_Inr_iff fail_at_def split: if_splits)
    have "reads (\<lambda>w. \<exists>v. w = [backslash, CHR ''u''] @ v \<and> hex_word v \<and> hex_number v = l) s p1 q"
      using reads_starts [OF l(1)] four_hex_sound [OF l(2)] by (auto intro: reads_seq)
    with four_hex_sound [OF n(1)] show ?thesis
      by (rule reads_seq) (use True l(3) pair in auto)
  next
    case False
    with cont n four_hex_sound [OF n(1)] show ?thesis by (auto intro: reads_mono single)
  qed
qed

lemma quoted_loop_sound:
  "quoted_loop s q p = Inr p1 \<Longrightarrow> reads (quoted_body q) s p p1 \<and> (peek s p1 = None \<or> peek s p1 = Some q)"
proof (induction s q p rule: quoted_loop.induct)
  case (1 s q p)
  note IH = "1.IH" and eq = "1.prems" [unfolded quoted_loop.simps [of s q p]]
  show ?case
  proof (cases "peek s p")
    case None
    with eq show ?thesis by (auto intro: reads_nothing stop)
  next
    case (Some c)
    consider "c = q" | "c \<noteq> q" "c \<noteq> backslash" | "c \<noteq> q" "\<not> c \<noteq> backslash" by blast
    then show ?thesis
    proof cases
      case 1
      with Some eq show ?thesis by (auto intro: reads_nothing stop)
    next
      case 2
      with Some eq IH(1) [OF Some 2] have c: "32 \<le> (of_char c :: nat)" "reads (quoted_body q) s (p + 1) p1"
        and "peek s p1 = None \<or> peek s p1 = Some q" by (auto simp: fail_at_def split: if_splits)
      moreover have "reads (quoted_body q) s p p1"
        by (rule reads_cons [OF Some c(2)]) (use 2 c(1) in \<open>auto intro: char\<close>)
      ultimately show ?thesis by blast
    next
      case 3
      then have c: "c = backslash" by blast
      show ?thesis
      proof (cases "peek s (p + 1)")
        case None
        with Some 3 eq show ?thesis by (simp add: fail_at_def)
      next
        case e: (Some e)
        have "reads ((=) [backslash, e]) s p (p + 1 + 1)"
          by (rule reads_seq [OF reads_char [OF Some, of "(=) [c]"] reads_char [OF e, of "(=) [e]"]]) (simp_all add: c)
        then have two: "reads ((=) [backslash, e]) s p (p + 2)" by simp
        show ?thesis
        proof (cases "e = CHR ''u''")
          case True
          then obtain p2 where p2: "read_unicode_escape s (p + 2) = Inr p2" "quoted_loop s q p2 = Inr p1"
            using Some 3 e eq by (auto simp: bind_e_Inr_iff)
          note IH = IH(2) [OF Some 3 e True p2]
          have "reads (\<lambda>w. \<exists>u v. w = u @ v \<and> unicode_word u \<and> quoted_body q v) s (p + 2) p1"
            by (rule reads_seq [OF unicode_sound [OF p2(1)] conjunct1 [OF IH]]) blast
          with two have "reads (quoted_body q) s p p1"
            by (rule reads_seq) (use True in \<open>auto intro: unicode\<close>)
          with IH show ?thesis by blast
        next
          case False
          with Some 3 e eq IH(3) [OF Some 3 e False] have x: "is_escape e \<or> e = q" "reads (quoted_body q) s (p + 2) p1"
            and "peek s p1 = None \<or> peek s p1 = Some q" by (auto simp: fail_at_def split: if_splits)
          moreover have "reads (quoted_body q) s p p1"
            by (rule reads_seq [OF two x(2)]) (use x(1) in \<open>auto intro: escaped\<close>)
          ultimately show ?thesis by blast
        qed
      qed
    qed
  qed
qed

lemma quoted_sound:
  assumes "read_quoted s c p = Inr q" and "peek s p = Some c" and "is_quote c"
  shows "reads quoted_word s p q"
proof -
  obtain p1 where l: "quoted_loop s c (p + 1) = Inr p1" "peek s p1 \<noteq> None" "q = p1 + 1"
    using assms(1) by (auto simp: read_quoted_def bind_e_Inr_iff fail_at_def split: if_splits)
  from quoted_loop_sound [OF l(1)] l(2) have b: "reads (quoted_body c) s (p + 1) p1" "peek s p1 = Some c" by auto
  have "reads (\<lambda>w. \<exists>b. w = b @ [c] \<and> quoted_body c b) s (p + 1) q"
    unfolding l(3) by (rule reads_seq [OF b(1) reads_char [OF b(2), of "(=) [c]"]]) auto
  with assms(2) show ?thesis by (rule reads_cons) (use assms(3) in \<open>auto simp: quoted_word_def\<close>)
qed

lemma literal_sound: "parse_literal s p = Inr q \<Longrightarrow> reads literal_word s p q"
  by (auto simp: parse_literal_def fail_at_def literal_word_def find_Some_iff split: option.splits if_splits
      intro: reads_mono [OF quoted_sound] reads_mono [OF number_sound] reads_mono [OF reads_starts])

subsection \<open>Filters as languages\<close>

inductive singular_tail :: "string \<Rightarrow> bool" where
  none: "singular_tail []"
| name: "blanks b \<Longrightarrow> shorthand_word u \<Longrightarrow> singular_tail t \<Longrightarrow> singular_tail (b @ CHR ''.'' # u @ t)"
| bracket: "blanks b \<Longrightarrow> blanks b1 \<Longrightarrow> quoted_word u \<or> int_word u \<Longrightarrow> blanks b2 \<Longrightarrow> singular_tail t
    \<Longrightarrow> singular_tail (b @ CHR ''['' # b1 @ u @ b2 @ CHR '']'' # t)"

definition query_word :: "string \<Rightarrow> bool" where
  "query_word w \<longleftrightarrow> (\<exists>t. w = CHR ''@'' # t \<and> singular_tail t)"

definition operand_word :: "string \<Rightarrow> bool" where
  "operand_word w \<longleftrightarrow> query_word w \<or> literal_word w"

definition negation_word :: "string \<Rightarrow> bool" where
  "negation_word w \<longleftrightarrow> w = [] \<or> (\<exists>b. w = CHR ''!'' # b \<and> blanks b)"

inductive joined_tail :: "string \<Rightarrow> (string \<Rightarrow> bool) \<Rightarrow> string \<Rightarrow> bool" for op X where
  none: "joined_tail op X []"
| more: "X u \<Longrightarrow> blanks b \<Longrightarrow> joined_tail op X t \<Longrightarrow> joined_tail op X (op @ u @ b @ t)"

definition joined_word :: "string \<Rightarrow> (string \<Rightarrow> bool) \<Rightarrow> string \<Rightarrow> bool" where
  "joined_word op X w \<longleftrightarrow> (\<exists>u b t. w = u @ b @ t \<and> X u \<and> blanks b \<and> joined_tail op X t)"

lemma joined_tail_mono: "X \<le> Y \<Longrightarrow> joined_tail op X \<le> joined_tail op Y"
proof (rule predicate1I)
  fix w
  assume "X \<le> Y" "joined_tail op X w"
  then show "joined_tail op Y w"
    by (induction rule: joined_tail.induct [OF \<open>joined_tail op X w\<close>]) (auto intro: joined_tail.intros)
qed

lemma joined_word_mono [mono]: "X \<le> Y \<Longrightarrow> joined_word op X \<le> joined_word op Y"
  using joined_tail_mono [of X Y op] by (fastforce simp: joined_word_def)

inductive basic_word :: "string \<Rightarrow> bool" where
  group: "blanks b \<Longrightarrow> negation_word n \<Longrightarrow> joined_word ''||'' (joined_word ''&&'' basic_word) u \<Longrightarrow> blanks b1
    \<Longrightarrow> basic_word (b @ n @ CHR ''('' # u @ b1 @ '')'')"
| exists: "blanks b \<Longrightarrow> negation_word n \<Longrightarrow> query_word q \<Longrightarrow> basic_word (b @ n @ q)"
| compare: "blanks b \<Longrightarrow> operand_word u \<Longrightarrow> blanks b1 \<Longrightarrow> op \<in> set COMPARISON_OPERATORS \<Longrightarrow> blanks b2 \<Longrightarrow> operand_word v
    \<Longrightarrow> basic_word (b @ u @ b1 @ op @ b2 @ v)"

abbreviation or_word :: "string \<Rightarrow> bool" where
  "or_word \<equiv> joined_word ''||'' (joined_word ''&&'' basic_word)"

lemma reads_blanks: "reads blanks s p (skip_whitespace s p)"
  by (rule reads_skip)

lemma singular_bracket_sound:
  assumes "singular_bracket s p = Inr q"
  shows "reads (\<lambda>w. \<exists>b u b1. w = b @ u @ b1 @ '']'' \<and> blanks b \<and> (quoted_word u \<or> int_word u) \<and> blanks b1) s p q"
proof -
  define c where "c = skip_whitespace s p"
  obtain d where d: "reads (\<lambda>u. quoted_word u \<or> int_word u) s c d"
    and e: "peek s (skip_whitespace s d) = Some (CHR '']'')" "q = skip_whitespace s d + 1"
    using assms by (auto simp: singular_bracket_def Let_def c_def bind_e_Inr_iff fail_at_def split: option.splits if_splits
        dest!: int_sound intro: reads_mono [OF quoted_sound] reads_mono)
  have "reads (\<lambda>w. \<exists>b1. w = b1 @ '']'' \<and> blanks b1) s d q"
    unfolding e(2) by (rule reads_seq [OF reads_blanks reads_char [OF e(1), of "\<lambda>w. w = '']''"]]) auto
  with d have "reads (\<lambda>w. \<exists>u b1. w = u @ b1 @ '']'' \<and> (quoted_word u \<or> int_word u) \<and> blanks b1) s c q"
    by (rule reads_seq) blast
  with reads_blanks [of s p] show ?thesis unfolding c_def by (rule reads_seq) blast
qed

lemma singular_sound: "singular_loop s p = Inr q \<Longrightarrow> reads singular_tail s p q"
proof (induction s p rule: singular_loop.induct)
  case (1 s p)
  define b where "b = skip_whitespace s p"
  note eq = "1.prems" [unfolded singular_loop.simps [of s p] Let_def b_def [symmetric]]
  consider "peek s b = Some (CHR ''.'')" | "peek s b \<noteq> Some (CHR ''.'')" "peek s b = Some (CHR ''['')"
    | "peek s b \<noteq> Some (CHR ''.'')" "peek s b \<noteq> Some (CHR ''['')" by blast
  then show ?case
  proof cases
    case 1
    then obtain r where r: "read_shorthand s (b + 1) = Inr r" "singular_loop s r = Inr q"
      and ne: "peek s (b + 1) \<noteq> Some (CHR ''.'')" "peek s (b + 1) \<noteq> Some (CHR ''*'')"
      using eq by (auto simp: bind_e_Inr_iff fail_at_def split: if_splits)
    have "reads singular_tail s r q" using "1.IH"(1) [OF b_def 1 ne r] .
    with shorthand_sound [OF r(1)]
    have "reads (\<lambda>w. \<exists>u t. w = u @ t \<and> shorthand_word u \<and> singular_tail t) s (b + 1) q" by (rule reads_seq) blast
    with 1 have "reads (\<lambda>w. \<exists>u t. w = CHR ''.'' # u @ t \<and> shorthand_word u \<and> singular_tail t) s b q" by (rule reads_cons) blast
    with reads_blanks [of s p] show ?thesis unfolding b_def by (rule reads_seq) (auto intro: singular_tail.name)
  next
    case 2
    then obtain r where r: "singular_bracket s (b + 1) = Inr r" "singular_loop s r = Inr q"
      using eq by (auto simp: bind_e_Inr_iff)
    have "reads singular_tail s r q" using "1.IH"(2) [OF b_def 2 r] .
    with singular_bracket_sound [OF r(1)]
    have "reads (\<lambda>w. \<exists>b u b1 t. w = b @ u @ b1 @ CHR '']'' # t \<and> blanks b \<and> (quoted_word u \<or> int_word u) \<and> blanks b1 \<and> singular_tail t)
        s (b + 1) q" by (rule reads_seq) fastforce
    with 2(2) have "reads (\<lambda>w. \<exists>b u b1 t. w = CHR ''['' # b @ u @ b1 @ CHR '']'' # t \<and> blanks b \<and> (quoted_word u \<or> int_word u)
        \<and> blanks b1 \<and> singular_tail t) s b q" by (rule reads_cons) blast
    with reads_blanks [of s p] show ?thesis unfolding b_def by (rule reads_seq) (auto intro: singular_tail.bracket)
  next
    case 3
    with eq show ?thesis by (auto intro: reads_nothing singular_tail.none)
  qed
qed

lemma operand_sound:
  assumes "parse_operand s p = Inr q"
  shows "reads (if peek s p = Some (CHR ''@'') then query_word else literal_word) s p q"
proof (cases "peek s p = Some (CHR ''@'')")
  case True
  with assms have "reads singular_tail s (p + 1) q" by (simp add: parse_operand_def singular_sound)
  with True show ?thesis by (auto intro: reads_cons simp: query_word_def)
qed (use assms in \<open>simp add: parse_operand_def literal_sound\<close>)

text \<open>A comparison or an existence test is read up to the blanks behind it.\<close>

lemma comparison_sound:
  assumes "parse_comparison s negated p = Inr q"
  shows "reads (\<lambda>w. (\<exists>u b. w = u @ b \<and> query_word u \<and> blanks b)
    \<or> (\<not> negated \<and> (\<exists>u b1 op b2 v. w = u @ b1 @ op @ b2 @ v \<and> operand_word u \<and> blanks b1 \<and> op \<in> set COMPARISON_OPERATORS
         \<and> blanks b2 \<and> operand_word v))) s p q"
proof -
  obtain p1 where o: "parse_operand s p = Inr p1"
    and rest: "(case find (starts s (skip_whitespace s p1)) COMPARISON_OPERATORS of
               None \<Rightarrow> if peek s p = Some (CHR ''@'') then Inr (skip_whitespace s p1) else fail_at JSONPATH_SYNTAX (skip_whitespace s p1)
             | Some op \<Rightarrow>
                 if negated then fail_at JSONPATH_SYNTAX (skip_whitespace s p1)
                 else parse_operand s (skip_whitespace s (skip_whitespace s p1 + length op))) = Inr q"
    using assms by (auto simp: parse_comparison_def bind_e_Inr_iff Let_def fail_at_def split: if_splits)
  have u: "reads operand_word s p p1" using operand_sound [OF o] by (auto simp: operand_word_def elim: reads_mono split: if_splits)
  show ?thesis
  proof (cases "find (starts s (skip_whitespace s p1)) COMPARISON_OPERATORS")
    case None
    with rest have at: "peek s p = Some (CHR ''@'')" and q: "q = skip_whitespace s p1" by (auto simp: fail_at_def split: if_splits)
    have "reads query_word s p p1" using operand_sound [OF o] at by simp
    then show ?thesis using reads_blanks [of s p1] unfolding q by (rule reads_seq) blast
  next
    case (Some op)
    then have op: "starts s (skip_whitespace s p1) op" "op \<in> set COMPARISON_OPERATORS" by (auto simp: find_Some_iff)
    from Some rest have neg: "\<not> negated" and v: "parse_operand s (skip_whitespace s (skip_whitespace s p1 + length op)) = Inr q"
      by (auto simp: fail_at_def split: if_splits)
    have "reads operand_word s (skip_whitespace s (skip_whitespace s p1 + length op)) q"
      using operand_sound [OF v] by (auto simp: operand_word_def elim: reads_mono split: if_splits)
    with reads_blanks have "reads (\<lambda>w. \<exists>b v. w = b @ v \<and> blanks b \<and> operand_word v) s (skip_whitespace s p1 + length op) q"
      by (rule reads_seq) blast
    with reads_starts [OF op(1)]
    have "reads (\<lambda>w. \<exists>b v. w = op @ b @ v \<and> blanks b \<and> operand_word v) s (skip_whitespace s p1) q" by (rule reads_seq) blast
    with reads_blanks have "reads (\<lambda>w. \<exists>b1 b v. w = b1 @ op @ b @ v \<and> blanks b1 \<and> blanks b \<and> operand_word v) s p1 q" by (rule reads_seq) blast
    with u have "reads (\<lambda>w. \<exists>u b1 b v. w = u @ b1 @ op @ b @ v \<and> operand_word u \<and> blanks b1 \<and> blanks b \<and> operand_word v) s p q"
      by (rule reads_seq) blast
    then show ?thesis by (rule reads_mono) (use op(2) neg in blast)
  qed
qed

lemma then_jp_Inr: "then_jp m f = Some (Inr y) \<longleftrightarrow> (\<exists>x. m = Some (Inr x) \<and> f x = Some (Inr y))"
  by (auto simp: then_jp_def split: option.splits sum.splits)

lemma joined_loop_sound:
  assumes "\<And>p q. next p = Some (Inr q) \<Longrightarrow> reads (\<lambda>w. \<exists>u b. w = u @ b \<and> X u \<and> blanks b) s p q"
  shows "joined_loop op next n s p = Some (Inr q) \<Longrightarrow> reads (joined_tail op X) s p q"
proof (induction n arbitrary: p)
  case (Suc n)
  show ?case
  proof (cases "starts s p op")
    case True
    then obtain r where r: "next (p + length op) = Some (Inr r)" "joined_loop op next n s (skip_whitespace s r) = Some (Inr q)"
      using Suc.prems by (auto simp: then_jp_Inr)
    have "reads (\<lambda>w. \<exists>b t. w = b @ t \<and> blanks b \<and> joined_tail op X t) s r q"
      by (rule reads_seq [OF reads_blanks Suc.IH [OF r(2)]]) blast
    with assms [OF r(1)] have "reads (\<lambda>w. \<exists>u b t. w = u @ b @ t \<and> X u \<and> blanks b \<and> joined_tail op X t) s (p + length op) q"
      by (rule reads_seq) (metis append.assoc list_all_append)
    with reads_starts [OF True] show ?thesis by (rule reads_seq) (auto intro: joined_tail.more)
  qed (use Suc.prems in \<open>auto intro: reads_nothing joined_tail.none\<close>)
qed simp

lemma joined_sound:
  assumes "\<And>p q. next p = Some (Inr q) \<Longrightarrow> reads (\<lambda>w. \<exists>u b. w = u @ b \<and> X u \<and> blanks b) s p q"
    and "joined op next s p = Some (Inr q)"
  shows "reads (joined_word op X) s p q"
proof -
  obtain r where r: "next p = Some (Inr r)" "joined_loop op next (Suc (length s)) s (skip_whitespace s r) = Some (Inr q)"
    using assms(2) by (auto simp: joined_def then_jp_Inr simp del: joined_loop.simps)
  have "reads (\<lambda>w. \<exists>b t. w = b @ t \<and> blanks b \<and> joined_tail op X t) s r q"
    by (rule reads_seq [OF reads_blanks joined_loop_sound [OF assms(1) r(2)]]) metis+
  with assms(1) [OF r(1)] show ?thesis
    by (rule reads_seq) (unfold joined_word_def, metis append.assoc list_all_append)
qed

lemma parse_and_eta: "parse_and basic s = joined ''&&'' basic s"
  by (rule ext) (simp add: parse_and_def)

lemma closed_blanks: "X w \<Longrightarrow> \<exists>u b. w = u @ b \<and> X u \<and> blanks b"
  by (metis append_Nil2 list.pred_inject(1))

lemma basic_sound: "parse_basic n s p = Some (Inr q) \<Longrightarrow> reads (\<lambda>w. \<exists>u b. w = u @ b \<and> basic_word u \<and> blanks b) s p q"
proof (induction n arbitrary: p q)
  case (Suc n)
  define p0 where "p0 = skip_whitespace s p"
  define negated where "negated = (peek s p0 = Some (CHR ''!''))"
  define p1 where "p1 = (if negated then skip_whitespace s (p0 + 1) else p0)"
  have n: "reads (\<lambda>w. negation_word w \<and> (negated \<or> w = [])) s p0 p1"
  proof (cases negated)
    case True
    then have "peek s p0 = Some (CHR ''!'')" by (simp add: negated_def)
    then show ?thesis using reads_blanks [of s "p0 + 1"] unfolding p1_def if_P [OF True]
      by (rule reads_cons) (use True in \<open>auto simp: negation_word_def\<close>)
  qed (simp add: p1_def reads_nothing negation_word_def)
  have eq: "(if peek s p1 = Some (CHR ''('') then
           then_jp (parse_or (parse_basic n s) s (p1 + 1)) (\<lambda>p2.
             let p3 = skip_whitespace s p2
             in Some (if peek s p3 = Some (CHR '')'') then Inr (p3 + 1) else fail_at JSONPATH_SYNTAX p3))
         else Some (parse_comparison s negated p1)) = Some (Inr q)"
    using Suc.prems unfolding parse_basic.simps Let_def p0_def [symmetric] negated_def [symmetric] p1_def [symmetric] .
  have "reads (\<lambda>w. \<exists>n u. w = n @ u \<and> (\<forall>b. blanks b \<longrightarrow> (\<exists>v b'. b @ w = v @ b' \<and> basic_word v \<and> blanks b'))) s p0 q"
  proof (cases "peek s p1 = Some (CHR ''('')")
    case True
    then obtain p2 where p2: "joined ''||'' (joined ''&&'' (parse_basic n s) s) s (p1 + 1) = Some (Inr p2)"
      and close: "peek s (skip_whitespace s p2) = Some (CHR '')'')" "q = skip_whitespace s p2 + 1"
      using eq by (auto simp: then_jp_Inr parse_or_def parse_and_eta Let_def fail_at_def split: if_splits)
    have "reads or_word s (p1 + 1) p2"
      using p2 by (rule joined_sound [rotated]) (blast intro: reads_mono [OF joined_sound [OF Suc.IH]] closed_blanks)
    moreover have "reads (\<lambda>w. \<exists>b1. w = b1 @ '')'' \<and> blanks b1) s p2 q"
      unfolding close(2) by (rule reads_seq [OF reads_blanks reads_char [OF close(1), of "\<lambda>w. w = '')''"]]) auto
    ultimately have "reads (\<lambda>w. \<exists>u b1. w = u @ b1 @ '')'' \<and> or_word u \<and> blanks b1) s (p1 + 1) q" by (rule reads_seq) blast
    with True have "reads (\<lambda>w. \<exists>u b1. w = CHR ''('' # u @ b1 @ '')'' \<and> or_word u \<and> blanks b1) s p1 q" by (rule reads_cons) blast
    with n show ?thesis
    proof (rule reads_seq, goal_cases)
      case (1 m v)
      then obtain u b1 where v: "v = CHR ''('' # u @ b1 @ '')''" "or_word u" "blanks b1" by blast
      have "basic_word (b @ m @ v)" if "blanks b" for b using basic_word.group [OF that _ v(2,3)] 1 v(1) by simp
      then show ?case by (metis append_Nil2 list.pred_inject(1))
    qed
  next
    case False
    with eq have "parse_comparison s negated p1 = Inr q" by simp
    from n comparison_sound [OF this] show ?thesis
    proof (rule reads_seq, goal_cases)
      case (1 m v)
      have "\<exists>x b'. b @ m @ v = x @ b' \<and> basic_word x \<and> blanks b'" if b: "blanks b" for b
        using 1(2)
      proof (elim disjE exE conjE)
        fix u b'
        assume "v = u @ b'" "query_word u" "blanks b'"
        moreover from this have "basic_word (b @ m @ u)" using basic_word.exists [OF b] 1 by blast
        ultimately show ?thesis by (metis append.assoc)
      next
        fix u b1 op b2 x
        assume "\<not> negated" "v = u @ b1 @ op @ b2 @ x" "operand_word u" "blanks b1" "op \<in> set COMPARISON_OPERATORS"
          "blanks b2" "operand_word x"
        moreover from this have "basic_word (b @ u @ b1 @ op @ b2 @ x)" using basic_word.compare [OF b] by blast
        ultimately show ?thesis using 1 closed_blanks [of basic_word] by simp
      qed
      then show ?case by blast
    qed
  qed
  with reads_blanks [of s p] show ?case unfolding p0_def by (rule reads_seq) blast
qed simp

lemma and_sound: "joined ''&&'' (parse_basic n s) s p = Some (Inr q)
    \<Longrightarrow> reads (\<lambda>w. \<exists>u b. w = u @ b \<and> joined_word ''&&'' basic_word u \<and> blanks b) s p q"
proof -
  assume j: "joined ''&&'' (parse_basic n s) s p = Some (Inr q)"
  have "reads (joined_word ''&&'' basic_word) s p q"
    by (rule joined_sound [OF _ j]) (rule basic_sound)
  then show ?thesis by (rule reads_mono) (rule closed_blanks)
qed

lemma or_sound:
  assumes "parse_or (parse_basic n s) s p = Some (Inr q)"
  shows "reads or_word s p q"
proof (rule joined_sound)
  show "joined ''||'' (joined ''&&'' (parse_basic n s) s) s p = Some (Inr q)"
    using assms by (simp add: parse_or_def parse_and_eta)
qed (rule and_sound)

subsection \<open>Paths as languages\<close>

inductive slice_end :: "string \<Rightarrow> bool" where
  none: "slice_end []"
| int: "int_word u \<Longrightarrow> blanks b \<Longrightarrow> slice_end (u @ b)"

inductive slice_step :: "string \<Rightarrow> bool" where
  none: "slice_step []"
| empty: "blanks b \<Longrightarrow> slice_step (CHR '':'' # b)"

inductive selector_word :: "segment_kind \<Rightarrow> string \<Rightarrow> bool" where
  name: "quoted_word w \<Longrightarrow> selector_word NAME w"
| wildcard: "selector_word WILDCARD ''*''"
| filter: "or_word w \<Longrightarrow> selector_word FILTER (CHR ''?'' # w)"
| index: "int_word w \<Longrightarrow> selector_word INDEX w"
| slice: "(u = [] \<and> b = []) \<or> (int_word u \<and> blanks b) \<Longrightarrow> blanks b1 \<Longrightarrow> slice_end e \<Longrightarrow> slice_step t
    \<Longrightarrow> selector_word SLICE (u @ b @ CHR '':'' # b1 @ e @ t)"

inductive segment_word :: "segment_kind \<Rightarrow> string \<Rightarrow> bool" where
  dot_name: "shorthand_word w \<Longrightarrow> segment_word NAME (CHR ''.'' # w)"
| dot_wildcard: "segment_word WILDCARD ''.*''"
| bracket: "blanks b \<Longrightarrow> selector_word k w \<Longrightarrow> blanks b1 \<Longrightarrow> segment_word k (CHR ''['' # b @ w @ b1 @ '']'')"

inductive segments_word :: "segment_kind list \<Rightarrow> string \<Rightarrow> bool" where
  none: "segments_word [] []"
| more: "blanks b \<Longrightarrow> segment_word k w \<Longrightarrow> segments_word ks t \<Longrightarrow> segments_word (k # ks) (b @ w @ t)"

definition path_word :: "segment_kind list \<Rightarrow> string \<Rightarrow> bool" where
  "path_word ks w \<longleftrightarrow> (\<exists>t. w = CHR ''$'' # t \<and> segments_word ks t)"

lemma slice_sound:
  assumes "parse_index_or_slice s c p = Inr (k, q)" and "peek s p = Some c"
  shows "reads (\<lambda>w. \<exists>v b. w = v @ b \<and> selector_word k v \<and> blanks b) s p q"
proof -
  obtain p1 where p1: "(if c \<noteq> CHR '':'' then read_int s p else Inr p) = Inr p1"
    and rest: "(let p2 = skip_whitespace s p1
       in if peek s p2 \<noteq> Some (CHR '':'') then Inr (INDEX, p2)
          else
            (let p3 = skip_whitespace s (p2 + 1)
             in bind_e (if sees int_start s p3 then map_sum id (skip_whitespace s) (read_int s p3) else Inr p3) (\<lambda>p4.
                  if peek s p4 = Some (CHR '':'') then
                    (let p5 = skip_whitespace s (p4 + 1)
                     in if sees int_start s p5 then fail_at JSONPATH_SLICE_STEP p5 else Inr (SLICE, p5))
                  else Inr (SLICE, p4)))) = Inr (k, q)"
    using assms(1) by (auto simp: parse_index_or_slice_def bind_e_Inr_iff simp del: if_split_asm cong: if_cong split: if_splits)
  define p2 where "p2 = skip_whitespace s p1"
  have start: "reads (\<lambda>w. (w = [] \<and> c = CHR '':'') \<or> int_word w) s p p1"
    using p1 int_sound [of s p p1] by (auto split: if_splits intro: reads_nothing reads_mono)
  show ?thesis
  proof (cases "peek s p2 = Some (CHR '':'')")
    case False
    then have kq: "k = INDEX" "q = p2" using rest by (simp_all add: Let_def p2_def)
    have "c \<noteq> CHR '':''"
    proof
      assume c: "c = CHR '':''"
      then have "p1 = p" using p1 by simp
      moreover from assms(2) c have "skip_whitespace s p = p" by (intro skip_none) (auto simp: peek_iff rfc_blank_def)
      ultimately show False using False assms(2) c by (simp add: p2_def)
    qed
    then have "reads int_word s p p1" using start by (auto elim: reads_mono)
    then show ?thesis using reads_blanks [of s p1] unfolding kq p2_def by (rule reads_seq) (auto intro: selector_word.index)
  next
    case True
    define p3 where "p3 = skip_whitespace s (p2 + 1)"
    obtain p4 where p4: "(if sees int_start s p3 then map_sum id (skip_whitespace s) (read_int s p3) else Inr p3) = Inr p4"
      and fin: "(if peek s p4 = Some (CHR '':'') then
                    (let p5 = skip_whitespace s (p4 + 1)
                     in if sees int_start s p5 then fail_at JSONPATH_SLICE_STEP p5 else Inr (SLICE, p5))
                  else Inr (SLICE, p4)) = Inr (k, q)"
      using rest True unfolding Let_def p2_def [symmetric] p3_def [symmetric] by (auto simp: bind_e_Inr_iff)
    have k: "k = SLICE" using fin by (auto simp: Let_def fail_at_def split: if_splits)
    have e: "reads slice_end s p3 p4"
    proof (cases "sees int_start s p3")
      case True
      then obtain r where "read_int s p3 = Inr r" "p4 = skip_whitespace s r" using p4 by (auto simp: map_sum_Inr_iff)
      then have "reads int_word s p3 r" "reads blanks s r p4" using int_sound reads_blanks by simp_all
      then show ?thesis by (rule reads_seq) (rule slice_end.int)
    qed (use p4 in \<open>auto intro: reads_nothing slice_end.none\<close>)
    have t: "reads slice_step s p4 q"
    proof (cases "peek s p4 = Some (CHR '':'')")
      case True
      with fin have q: "q = skip_whitespace s (p4 + 1)" by (auto simp: Let_def fail_at_def split: if_splits)
      from True reads_blanks [of s "p4 + 1"] show ?thesis unfolding q by (rule reads_cons) (rule slice_step.empty)
    qed (use fin in \<open>auto intro: reads_nothing slice_step.none\<close>)
    have "reads (\<lambda>w. \<exists>e t. w = e @ t \<and> slice_end e \<and> slice_step t) s p3 q" by (rule reads_seq [OF e t]) blast
    with reads_blanks [of s "p2 + 1"]
    have "reads (\<lambda>w. \<exists>b1 e t. w = b1 @ e @ t \<and> blanks b1 \<and> slice_end e \<and> slice_step t) s (p2 + 1) q"
      unfolding p3_def by (rule reads_seq) blast
    with True have "reads (\<lambda>w. \<exists>b1 e t. w = CHR '':'' # b1 @ e @ t \<and> blanks b1 \<and> slice_end e \<and> slice_step t) s p2 q"
      by (rule reads_cons) blast
    with reads_blanks [of s p1]
    have tail: "reads (\<lambda>w. \<exists>b b1 e t. w = b @ CHR '':'' # b1 @ e @ t \<and> blanks b \<and> blanks b1 \<and> slice_end e \<and> slice_step t) s p1 q"
      unfolding p2_def by (rule reads_seq) blast
    show ?thesis
    proof (cases "c = CHR '':''")
      case colon: True
      then have p: "p1 = p" "p2 = p" using p1 assms(2) skip_none [of p s _ rfc_blank]
        by (auto simp: p2_def peek_iff rfc_blank_def)
      from True \<open>reads (\<lambda>w. \<exists>b1 e t. w = CHR '':'' # b1 @ e @ t \<and> blanks b1 \<and> slice_end e \<and> slice_step t) s p2 q\<close>
      show ?thesis unfolding p k
        by (elim reads_mono) (metis append_Nil selector_word.slice [of "[]" "[]"] closed_blanks)
    next
      case False
      then have "reads int_word s p p1" using start by (auto elim: reads_mono)
      then show ?thesis using tail unfolding k
        by (rule reads_seq) (metis selector_word.slice closed_blanks)
    qed
  qed
qed

lemma selector_sound:
  assumes "parse_selector s p = Some (Inr (k, q))"
  shows "reads (\<lambda>w. \<exists>v b. w = v @ b \<and> selector_word k v \<and> blanks b) s p q"
proof -
  obtain c where c: "peek s p = Some c" using assms by (auto simp: parse_selector_def fail_at_def split: option.splits)
  consider "is_quote c" | "\<not> is_quote c" "c = CHR ''*''" | "\<not> is_quote c" "c = CHR ''?''"
    | "\<not> is_quote c" "c \<noteq> CHR ''*''" "c \<noteq> CHR ''?''" by blast
  then show ?thesis
  proof cases
    case 1
    with assms c have "read_quoted s c p = Inr q" "k = NAME" by (simp_all add: parse_selector_def map_sum_Inr_iff)
    with quoted_sound [of s c p q] c 1 have q: "reads quoted_word s p q" and k: "k = NAME" by simp_all
    from q show ?thesis unfolding k by (rule reads_mono) (rule closed_blanks, rule selector_word.name)
  next
    case 2
    with assms c have "q = p + 1" "k = WILDCARD" by (auto simp: parse_selector_def)
    with reads_char [OF c] 2 closed_blanks [of "selector_word WILDCARD", OF selector_word.wildcard] show ?thesis by simp
  next
    case 3
    with assms c obtain r where r: "parse_or (parse_basic (Suc (length s)) s) s (p + 1) = Some (Inr r)" "k = FILTER" "q = skip_whitespace s r"
      by (auto simp: parse_selector_def parse_filter_def then_jp_Inr simp del: parse_basic.simps)
    have "reads (\<lambda>w. \<exists>u b. w = u @ b \<and> or_word u \<and> blanks b) s (p + 1) q"
      unfolding r(3) by (rule reads_seq [OF or_sound [OF r(1)] reads_blanks]) blast
    with c show ?thesis
    proof (rule reads_cons, goal_cases)
      case (1 v)
      then obtain u b where "v = u @ b" "or_word u" "blanks b" by blast
      then show ?case using 3 r(2) selector_word.filter [of u]
        by (intro exI [of _ "c # u"] exI [of _ b]) simp
    qed
  next
    case 4
    with assms c have "parse_index_or_slice s c p = Inr (k, q)" by (auto simp: parse_selector_def fail_at_def split: if_splits)
    with slice_sound c show ?thesis by blast
  qed
qed

lemma dot_sound:
  assumes "parse_dot_segment s p = Inr (k, q)" and "peek s p = Some (CHR ''.'')"
  shows "reads (segment_word k) s p q"
proof (cases "peek s (p + 1) = Some (CHR ''*'')")
  case True
  then have "parse_dot_segment s p = Inr (WILDCARD, p + 1 + 1)" by (simp add: parse_dot_segment_def)
  with assms(1) have kq: "k = WILDCARD" "q = p + 1 + 1" by simp_all
  have "reads (\<lambda>w. w = ''*'') s (p + 1) q" unfolding kq by (rule reads_char [OF True]) simp
  with assms(2) show ?thesis unfolding kq by (rule reads_cons) (simp add: segment_word.dot_wildcard)
next
  case False
  with assms(1) have "read_shorthand s (p + 1) = Inr q" "k = NAME"
    by (auto simp: parse_dot_segment_def fail_at_def map_sum_Inr_iff split: if_splits)
  then have r: "reads shorthand_word s (p + 1) q" and k: "k = NAME" by (simp_all add: shorthand_sound)
  from assms(2) r show ?thesis unfolding k by (rule reads_cons) (rule segment_word.dot_name)
qed

lemma bracket_sound:
  assumes "parse_bracket_segment s p = Some (Inr (k, q))" and "peek s p = Some (CHR ''['')"
  shows "reads (segment_word k) s p q"
proof -
  obtain p1 where p1: "parse_selector s (skip_whitespace s (p + 1)) = Some (Inr (k, p1))"
    and close: "peek s (skip_whitespace s p1) = Some (CHR '']'')" "q = skip_whitespace s p1 + 1"
    using assms(1) by (auto simp: parse_bracket_segment_def then_jp_Inr Let_def fail_at_def split: if_splits)
  have "reads (\<lambda>w. \<exists>b1. w = b1 @ '']'' \<and> blanks b1) s p1 q"
    unfolding close(2) by (rule reads_seq [OF reads_blanks reads_char [OF close(1), of "\<lambda>w. w = '']''"]]) auto
  with selector_sound [OF p1]
  have "reads (\<lambda>w. \<exists>v b1. w = v @ b1 @ '']'' \<and> selector_word k v \<and> blanks b1) s (skip_whitespace s (p + 1)) q"
    by (rule reads_seq) (metis append.assoc list_all_append)
  with reads_blanks [of s "p + 1"]
  have "reads (\<lambda>w. \<exists>b v b1. w = b @ v @ b1 @ '']'' \<and> blanks b \<and> selector_word k v \<and> blanks b1) s (p + 1) q" by (rule reads_seq) blast
  with assms(2) show ?thesis by (rule reads_cons) (auto intro: segment_word.bracket)
qed

text \<open>Blanks before the first segment have been skipped; the text is read to its end.\<close>

lemma segments_sound:
  "parse_segments n s p = Some (Inr ks) \<Longrightarrow> \<exists>w b. drop p s = w @ b \<and> segments_word ks w \<and> blanks b"
proof (induction n arbitrary: p ks)
  case (Suc n)
  show ?case
  proof (cases "peek s p")
    case None
    then have "drop p s = []" by (simp add: peek_def split: list.splits)
    with Suc.prems None show ?thesis by (auto intro: segments_word.none)
  next
    case (Some c)
    with Suc.prems obtain k q ks' where seg: "(if c = CHR ''.'' then Some (parse_dot_segment s p)
                   else if c = CHR ''['' then parse_bracket_segment s p else Some (fail_at JSONPATH_SYNTAX p)) = Some (Inr (k, q))"
      and more: "parse_segments n s (skip_whitespace s q) = Some (Inr ks')" and ks: "ks = k # ks'"
      by (auto simp: then_jp_Inr split: if_splits)
    from seg Some have "reads (segment_word k) s p q" by (auto simp: fail_at_def dot_sound bracket_sound split: if_splits)
    then obtain w rest where w: "drop p s = w @ rest" "q = p + length w" "segment_word k w" by (auto simp: reads_def)
    have rest: "drop q s = rest" using drop_further w by blast
    obtain b rest' where b: "drop q s = b @ rest'" "skip_whitespace s q = q + length b" "blanks b"
      using reads_blanks [of s q] unfolding reads_def by blast
    obtain t b' where t: "drop (skip_whitespace s q) s = t @ b'" "segments_word ks' t" "blanks b'" using Suc.IH [OF more] by blast
    have s: "drop p s = w @ b @ t @ b'" using w(1) rest b(1) t(1) drop_further [OF b(1)] b(2) by simp
    show ?thesis
    proof (cases ks')
      case Nil
      with t(2) have "t = []" by (auto elim: segments_word.cases)
      with s show ?thesis using segments_word.more [of "[]" k w "[]" "[]"] w(3) b(3) t(3) Nil ks
        by (intro exI [of _ w] exI [of _ "b @ b'"]) (auto intro: segments_word.none)
    next
      case (Cons k' ks'')
      with t(2) obtain b1 v u where u: "t = b1 @ v @ u" "blanks b1" "segment_word k' v" "segments_word ks'' u"
        by (auto elim: segments_word.cases)
      have "segments_word ks' (b @ t)" using segments_word.more [of "b @ b1" k' v ks'' u] u b(3) Cons by simp
      from segments_word.more [of "[]", OF _ w(3) this] s t(3) ks show ?thesis by (intro exI [of _ "w @ b @ t"] exI [of _ b']) simp
    qed
  qed
qed simp

end
