(* ===== verification/Jsonpath_Complete.thy ===== *)
theory Jsonpath_Complete
  imports Jsonpath_Props
begin

text \<open>
  The other direction: every path of the grammar is accepted, with the kinds of its segments, and
  the parser always answers.
\<close>

subsection \<open>The parser always answers\<close>

lemma then_jp_None: "then_jp m f = None \<longleftrightarrow> m = None \<or> (\<exists>x. m = Some (Inr x) \<and> f x = None)"
  by (auto simp: then_jp_def split: option.splits sum.splits)

lemma then_jp_total: "m \<noteq> None \<Longrightarrow> (\<And>x. m = Some (Inr x) \<Longrightarrow> f x \<noteq> None) \<Longrightarrow> then_jp m f \<noteq> None"
  by (simp only: then_jp_None) blast

lemma starts_less: "starts s p w \<Longrightarrow> w \<noteq> [] \<Longrightarrow> p < length s"
  unfolding starts_def by (rule ccontr) simp

lemma joined_loop_total:
  assumes "\<And>p'. p \<le> p' \<Longrightarrow> next p' \<noteq> None" and "\<And>p' q. next p' = Some (Inr q) \<Longrightarrow> p' \<le> q" and "op \<noteq> []"
  shows "length s - p' < n \<Longrightarrow> p \<le> p' \<Longrightarrow> joined_loop op next n s p' \<noteq> None"
proof (induction n arbitrary: p')
  case (Suc n)
  show ?case
  proof (cases "starts s p' op")
    case True
    have step: "joined_loop op next n s (skip_whitespace s q) \<noteq> None" if "next (p' + length op) = Some (Inr q)" for q
    proof (rule Suc.IH)
      have "p' < skip_whitespace s q" using assms(2) [OF that] assms(3) skip_while_le [of q rfc_blank s] by (cases op) auto
      then show "length s - skip_whitespace s q < n" "p \<le> skip_whitespace s q"
        using Suc.prems starts_less [OF True assms(3)] by linarith+
    qed
    have "next (p' + length op) \<noteq> None" using assms(1) Suc.prems(2) by simp
    with step True show ?thesis by (auto simp: then_jp_None)
  qed simp
qed simp

lemma joined_total:
  assumes "\<And>p'. p \<le> p' \<Longrightarrow> next p' \<noteq> None" and "\<And>p' q. next p' = Some (Inr q) \<Longrightarrow> p' \<le> q" and "op \<noteq> []"
  shows "joined op next s p \<noteq> None"
proof -
  have "joined_loop op next (Suc (length s)) s (skip_whitespace s q) \<noteq> None" if "next p = Some (Inr q)" for q
  proof (rule joined_loop_total [where p = p, OF assms])
    show "p \<le> skip_whitespace s q" using assms(2) [OF that] skip_while_le [of q rfc_blank s] by simp
  qed auto
  with assms(1) [of p] show ?thesis by (auto simp: joined_def then_jp_None simp del: joined_loop.simps)
qed

lemma basic_le: "parse_basic n s p = Some (Inr q) \<Longrightarrow> p \<le> q"
  using basic_sound reads_le by blast

lemma or_total:
  assumes "\<And>p'. p \<le> p' \<Longrightarrow> parse_basic n s p' \<noteq> None"
  shows "parse_or (parse_basic n s) s p \<noteq> None"
  unfolding parse_or_def parse_and_eta
proof (rule joined_total)
  show "joined ''&&'' (parse_basic n s) s p' \<noteq> None" if "p \<le> p'" for p'
    by (rule joined_total) (use assms that basic_le in auto)
  show "p' \<le> q" if "joined ''&&'' (parse_basic n s) s p' = Some (Inr q)" for p' q
    using and_sound [OF that] by (rule reads_le)
qed simp

lemma basic_total: "length s - p < n \<Longrightarrow> parse_basic n s p \<noteq> None"
proof (induction n arbitrary: p)
  case (Suc n)
  define p0 where "p0 = skip_whitespace s p"
  define p1 where "p1 = (if peek s p0 = Some (CHR ''!'') then skip_whitespace s (p0 + 1) else p0)"
  have le: "p \<le> p1" using skip_while_le [of p rfc_blank s] skip_while_le [of "p0 + 1" rfc_blank s] by (auto simp: p0_def p1_def)
  show ?case
  proof (cases "peek s p1 = Some (CHR ''('')")
    case True
    have "parse_or (parse_basic n s) s (p1 + 1) \<noteq> None"
    proof (rule or_total, rule Suc.IH)
      show "length s - p' < n" if "p1 + 1 \<le> p'" for p' using peek_less [OF True] le that Suc.prems by linarith
    qed
    then have "then_jp (parse_or (parse_basic n s) s (p1 + 1)) (\<lambda>p2.
        let p3 = skip_whitespace s p2
        in Some (if peek s p3 = Some (CHR '')'') then Inr (p3 + 1) else fail_at JSONPATH_SYNTAX p3)) \<noteq> None"
      by (rule then_jp_total) (simp add: Let_def)
    with True show ?thesis unfolding parse_basic.simps Let_def p0_def [symmetric] p1_def [symmetric] by simp
  next
    case False
    then show ?thesis by (auto simp: p0_def p1_def Let_def)
  qed
qed simp

lemma selector_total: "parse_selector s p \<noteq> None"
proof -
  have "parse_or (parse_basic (Suc (length s)) s) s (p + 1) \<noteq> None"
    by (rule or_total, rule basic_total) simp
  then have "parse_filter s (p + 1) \<noteq> None" unfolding parse_filter_def by (rule then_jp_total) simp
  then show ?thesis by (simp add: parse_selector_def split: option.splits)
qed

lemma segments_total: "length s - p < n \<Longrightarrow> parse_segments n s p \<noteq> None"
proof (induction n arbitrary: p)
  case (Suc n)
  show ?case
  proof (cases "peek s p")
    case (Some c)
    define seg where "seg = (if c = CHR ''.'' then Some (parse_dot_segment s p)
                   else if c = CHR ''['' then parse_bracket_segment s p else Some (fail_at JSONPATH_SYNTAX p))"
    have "parse_bracket_segment s p \<noteq> None"
      unfolding parse_bracket_segment_def by (rule then_jp_total [OF selector_total]) (simp add: Let_def split: prod.splits)
    then have "seg \<noteq> None" by (simp add: seg_def)
    moreover have "parse_segments n s (skip_whitespace s q) \<noteq> None" if "seg = Some (Inr (k, q))" for k q
    proof (rule Suc.IH)
      have "reads (segment_word k) s p q"
        using that Some by (auto simp: seg_def fail_at_def dot_sound bracket_sound split: if_splits)
      then have "p < q" by (auto simp: reads_def elim: segment_word.cases)
      then show "length s - skip_whitespace s q < n"
        using skip_while_le [of q rfc_blank s] peek_less [OF Some] Suc.prems by linarith
    qed
    ultimately have "then_jp seg (\<lambda>(k, p1). then_jp (parse_segments n s (skip_whitespace s p1)) (\<lambda>ks. Some (Inr (k # ks)))) \<noteq> None"
    proof (intro then_jp_total, goal_cases)
      case (2 x)
      obtain k q where x: "x = (k, q)" by (metis surj_pair)
      show ?case unfolding x prod.case using 2 x
        by (intro then_jp_total) simp_all
    qed
    with Some show ?thesis by (simp add: seg_def)
  qed simp
qed simp

lemma parse_json_path_total: "parse_json_path source \<noteq> None"
  using segments_total by (auto simp: parse_json_path_def parse_path_def simp del: parse_segments.simps split: pyval.splits)

subsection \<open>Words are read as a whole\<close>

definition stops :: "(char \<Rightarrow> bool) \<Rightarrow> string \<Rightarrow> bool" where
  "stops P rest \<longleftrightarrow> rest = [] \<or> \<not> P (hd rest)"

lemma skip_stops: "drop p s = w @ rest \<Longrightarrow> list_all P w \<Longrightarrow> stops P rest \<Longrightarrow> skip_while P s p = p + length w"
  unfolding stops_def by (rule skip_while_stops)

lemma shorthand_complete:
  "drop p s = w @ rest \<Longrightarrow> shorthand_word w \<Longrightarrow> stops is_name_char rest \<Longrightarrow> read_shorthand s p = Inr (p + length w)"
proof -
  assume a: "drop p s = w @ rest" and w: "shorthand_word w" and stop: "stops is_name_char rest"
  then have "list_all is_name_char w" "sees is_name_start s p"
    by (auto simp: shorthand_word_def is_name_char_def sees_drop split: list.splits)
  with skip_stops [OF a _ stop] show ?thesis by (simp add: read_shorthand_def)
qed

lemma digits_complete:
  "drop p s = w @ rest \<Longrightarrow> digits_word w \<Longrightarrow> stops is_digit rest
     \<Longrightarrow> sees is_digit s p \<and> skip_while is_digit s p = p + length w"
proof -
  assume a: "drop p s = w @ rest" and w: "digits_word w" and stop: "stops is_digit rest"
  then have "list_all is_digit w" "sees is_digit s p" by (cases w; simp add: digits_word_def sees_drop)+
  with skip_stops [OF a _ stop] show ?thesis by simp
qed

lemma int_complete:
  assumes "drop p s = w @ rest" and "int_word w" and "stops is_digit rest"
  shows "read_int s p = Inr (p + length w)"
proof -
  obtain m ds where w: "w = m @ ds" "m = [] \<or> m = ''-''" "digits_word ds" "ds = ''0'' \<and> m = [] \<or> hd ds \<noteq> CHR ''0''"
  proof -
    from assms(2) consider "w = ''0''" | ds where "w = ds \<or> w = ''-'' @ ds" "digits_word ds" "hd ds \<noteq> CHR ''0''"
      by (auto simp: int_word_def)
    then show thesis
    proof cases
      case 1
      then show thesis by (intro that [of "[]" w]) (simp_all add: digits_word_def is_digit_def)
    next
      case (2 ds)
      then show thesis by (metis append_Nil that)
    qed
  qed
  then obtain d r where d: "ds = d # r" "is_digit d" by (cases ds) (auto simp: digits_word_def)
  have p1: "(if peek s p = Some (CHR ''-'') then p + 1 else p) = p + length m" and neg: "peek s p = Some (CHR ''-'') \<longleftrightarrow> m \<noteq> []"
    using assms(1) w(1,2) d digit_not_minus by (auto simp: peek_drop)
  have "drop (p + length m) s = ds @ rest" using assms(1) w(1) by (simp add: drop_further)
  from digits_complete [OF this w(3) assms(3)]
  have ds: "sees is_digit s (p + length m)" "skip_while is_digit s (p + length m) = p + length w" using w(1) by simp_all
  have "dropWhile (\<lambda>c. c = CHR ''-'') (take (length w) (drop p s)) = ds"
    using assms(1) w(1,2) d digit_not_minus by auto
  then show ?thesis using ds w(4) d neg unfolding read_int_def Let_def p1 by auto
qed

lemma number_complete:
  assumes "drop p s = w @ rest" and "number_word w" and "stops (\<lambda>c. is_digit c \<or> c = CHR ''.'' \<or> c = CHR ''e'' \<or> c = CHR ''E'') rest"
  shows "read_number s p = Inr (p + length w)"
proof -
  obtain m i f e where w: "w = m @ i @ f @ e" and m: "m = [] \<or> m = ''-''" and i: "plain_int i" and f: "fraction_word f"
    and e: "exponent_word e" using assms(2) by (auto simp: number_word_def)
  obtain d r where d: "i = d # r" "is_digit d" using i by (cases i) (auto simp: plain_int_def digits_word_def is_digit_def)
  have p1: "(if peek s p = Some (CHR ''-'') then p + 1 else p) = p + length m"
    using assms(1) w m d digit_not_minus by (auto simp: peek_drop)
  have at1: "drop (p + length m) s = i @ f @ e @ rest" using assms(1) w by (simp add: drop_further)
  then have at2: "drop (p + length m + length i) s = f @ e @ rest" by (rule drop_further)
  then have at3: "drop (p + length m + length i + length f) s = e @ rest" by (rule drop_further)
  have stop_e: "stops is_digit (e @ rest)" and nodot: "stops (\<lambda>c. c = CHR ''.'') (e @ rest)"
    using e assms(3) by (cases rest; auto simp: exponent_word_def stops_def is_digit_def)+
  then have stop_f: "stops is_digit (f @ e @ rest)" using f by (auto simp: fraction_word_def stops_def is_digit_def)
  have ri: "(if peek s (p + length m) = Some (CHR ''0'') then Inr (p + length m + 1) else read_digits s (p + length m))
      = Inr (p + length m + length i)"
    using i d at1 digits_complete [OF at1 _ stop_f] by (auto simp: plain_int_def read_digits_def peek_drop)
  have rf: "(if peek s (p + length m + length i) = Some (CHR ''.'') then read_digits s (p + length m + length i + 1)
      else Inr (p + length m + length i)) = Inr (p + length m + length i + length f)"
  proof (cases f)
    case Nil
    then have "peek s (p + length m + length i) \<noteq> Some (CHR ''.'')"
      using at2 nodot by (cases "e @ rest") (auto simp: peek_drop peek_end stops_def)
    with Nil show ?thesis by simp
  next
    case (Cons c ds)
    with f have c: "c = CHR ''.''" "digits_word ds" by (auto simp: fraction_word_def)
    have "drop (p + length m + length i + 1) s = ds @ e @ rest" using at2 Cons by (simp add: drop_next)
    from digits_complete [OF this c(2) stop_e] at2 Cons c(1) show ?thesis by (simp add: read_digits_def peek_drop)
  qed
  have re: "(if sees (\<lambda>c. c = CHR ''e'' \<or> c = CHR ''E'') s q
             then read_digits s (if sees (\<lambda>c. c = CHR ''+'' \<or> c = CHR ''-'') s (q + 1) then q + 2 else q + 1)
             else Inr q) = Inr (q + length e)" if at: "drop q s = e @ rest" for q
  proof (cases e)
    case Nil
    with at assms(3) show ?thesis by (cases rest) (auto simp: sees_drop sees_end stops_def)
  next
    case (Cons c x)
    with e obtain sg ds where x: "x = sg @ ds" "c = CHR ''e'' \<or> c = CHR ''E''" "sign_word sg" "digits_word ds"
      by (auto simp: exponent_word_def)
    have stop: "stops is_digit rest" using assms(3) by (auto simp: stops_def)
    have 1: "drop (q + 1) s = sg @ ds @ rest" using at Cons x(1) by (simp add: drop_next)
    then have 2: "drop (q + 1 + length sg) s = ds @ rest" by (rule drop_further)
    obtain d r where "ds = d # r" "is_digit d" using x(4) by (cases ds) (auto simp: digits_word_def)
    then have "(if sees (\<lambda>c. c = CHR ''+'' \<or> c = CHR ''-'') s (q + 1) then q + 2 else q + 1) = q + 1 + length sg"
      using 1 x(3) by (auto simp: sign_word_def sees_drop is_digit_def)
    moreover have "sees (\<lambda>c. c = CHR ''e'' \<or> c = CHR ''E'') s q" using at Cons x(2) by (auto simp: sees_drop)
    ultimately show ?thesis using digits_complete [OF 2 x(4) stop] Cons x(1) by (simp add: read_digits_def)
  qed
  have "sees is_digit s (p + length m)" using at1 d by (simp add: sees_drop)
  then show ?thesis unfolding read_number_def Let_def p1 by (simp add: ri rf re [OF at3] w)
qed

lemma four_hex_complete:
  "drop p s = w @ rest \<Longrightarrow> hex_word w \<Longrightarrow> read_four_hex s p = Inr (hex_number w, p + 4)"
  by (simp add: hex_word_def read_four_hex_def Let_def)

lemma unicode_complete:
  "unicode_word w \<Longrightarrow> drop p s = w @ rest \<Longrightarrow> read_unicode_escape s p = Inr (p + length w)"
proof (induction rule: unicode_word.induct)
  case (single h)
  then show ?case using four_hex_complete [OF single.prems] by (simp add: read_unicode_escape_def hex_word_def)
next
  case (pair h l)
  have 1: "drop p s = h @ [backslash, CHR ''u''] @ l @ rest" using pair.prems by simp
  then have 2: "drop (p + length h) s = [backslash, CHR ''u''] @ l @ rest" by (rule drop_further)
  then have 3: "drop (p + length h + length [backslash, CHR ''u'']) s = l @ rest" by (rule drop_further)
  have "starts s (p + 4) [backslash, CHR ''u'']" using 2 pair.hyps(1) by (simp add: starts_def hex_word_def)
  moreover have "\<not> low_surrogate (hex_number h)" using pair.hyps(2) by (simp add: low_surrogate_def high_surrogate_def)
  ultimately show ?case using four_hex_complete [OF 1] four_hex_complete [OF 3] pair.hyps
    by (simp add: read_unicode_escape_def hex_word_def)
qed

lemma quoted_loop_complete:
  "quoted_body q b \<Longrightarrow> drop p s = b @ q # rest \<Longrightarrow> is_quote q \<Longrightarrow> quoted_loop s q p = Inr (p + length b)"
proof (induction arbitrary: p rule: quoted_body.induct)
  case stop
  then show ?case by (simp add: quoted_loop.simps [of s q p] peek_drop)
next
  case (char c w)
  have "drop (Suc p) s = w @ q # rest" using char.prems(1) by (simp add: drop_next)
  from char.IH [OF this char.prems(2)] char show ?case by (simp add: quoted_loop.simps [of s q p] peek_drop)
next
  case (escaped e w)
  have 1: "drop (Suc p) s = e # w @ q # rest" using escaped.prems(1) by (simp add: drop_next)
  then have "drop (Suc (Suc p)) s = w @ q # rest" by (rule drop_next)
  from escaped.IH [OF this escaped.prems(2)] 1 escaped(1) escaped.prems show ?case
    by (auto simp: quoted_loop.simps [of s q p] peek_drop is_escape_def is_quote_def)
next
  case (unicode h w)
  have 1: "drop (Suc p) s = CHR ''u'' # h @ w @ q # rest" using unicode.prems(1) by (simp add: drop_next)
  then have 2: "drop (Suc (Suc p)) s = h @ w @ q # rest" by (rule drop_next)
  then have "drop (Suc (Suc p) + length h) s = w @ q # rest" by (rule drop_further)
  from unicode.IH [OF this unicode.prems(2)] unicode_complete [OF unicode.hyps(1) 2] 1 unicode.prems show ?case
    by (auto simp: quoted_loop.simps [of s q p] peek_drop is_quote_def)
qed

lemma quoted_complete:
  assumes "drop p s = w @ rest" and "quoted_word w"
  obtains c where "peek s p = Some c" "is_quote c" "read_quoted s c p = Inr (p + length w)"
proof -
  obtain q b where w: "w = q # b @ [q]" "is_quote q" "quoted_body q b" using assms(2) by (auto simp: quoted_word_def)
  have 1: "drop (Suc p) s = b @ q # rest" using assms(1) w(1) by (simp add: drop_next)
  then have "drop (Suc p + length b) s = q # rest" by (rule drop_further)
  with w(2) have "read_quoted s q p = Inr (p + length w)"
    using quoted_loop_complete [OF w(3) 1 w(2)] w(1) by (simp add: read_quoted_def peek_drop)
  with assms(1) w show thesis by (intro that [of q]) (simp_all add: peek_drop)
qed

text \<open>What may follow an operand, and what may follow an expression of each level.\<close>

definition end_chars :: "string" where
  "end_chars = ''])&|=!<>''"

definition after_operand :: "string \<Rightarrow> bool" where
  "after_operand rest \<longleftrightarrow> (case dropWhile rfc_blank rest of [] \<Rightarrow> True | c # _ \<Rightarrow> c \<in> set end_chars)"

lemma after_operand_hd: "after_operand rest \<Longrightarrow> rest = [] \<or> rfc_blank (hd rest) \<or> hd rest \<in> set end_chars"
  by (cases rest) (auto simp: after_operand_def split: if_splits)

lemma end_not_name: "c \<in> set end_chars \<Longrightarrow> \<not> is_name_char c \<and> \<not> is_digit c \<and> c \<noteq> CHR ''.'' \<and> c \<noteq> CHR ''['' \<and> c \<noteq> CHR ''e'' \<and> c \<noteq> CHR ''E'' \<and> \<not> rfc_blank c"
  unfolding end_chars_def by (auto simp: is_name_char_def is_name_start_def is_digit_def is_ascii_letter_def is_extended_def Let_def rfc_blank_def)

lemma blank_not_name: "rfc_blank c \<Longrightarrow> \<not> is_name_char c \<and> \<not> is_digit c \<and> c \<noteq> CHR ''.'' \<and> c \<noteq> CHR ''['' \<and> c \<noteq> CHR ''e'' \<and> c \<noteq> CHR ''E''"
  by (auto simp: is_name_char_def is_name_start_def is_digit_def is_ascii_letter_def is_extended_def Let_def rfc_blank_def)

lemma after_operand_stops:
  "after_operand rest \<Longrightarrow> stops (\<lambda>c. is_digit c \<or> c = CHR ''.'' \<or> c = CHR ''e'' \<or> c = CHR ''E'') rest"
  using after_operand_hd [of rest] end_not_name [of "hd rest"] blank_not_name [of "hd rest"] by (auto simp: stops_def)

lemma keyword_hd: "w \<in> set LITERAL_KEYWORDS \<Longrightarrow> \<exists>c r. w = c # r \<and> c \<in> {CHR ''t'', CHR ''f'', CHR ''n''}"
  by (auto simp: LITERAL_KEYWORDS_def)

lemma keyword_found: "w \<in> set LITERAL_KEYWORDS \<Longrightarrow> drop p s = w @ rest \<Longrightarrow> find (starts s p) LITERAL_KEYWORDS = Some w"
  unfolding starts_def by (auto simp: LITERAL_KEYWORDS_def)

lemma literal_complete:
  assumes "drop p s = w @ rest" and "literal_word w" and "after_operand rest"
  shows "parse_literal s p = Inr (p + length w)"
proof -
  consider "quoted_word w" | "number_word w" | "w \<in> set LITERAL_KEYWORDS" using assms(2) by (auto simp: literal_word_def)
  then show ?thesis
  proof cases
    case 1
    with assms(1) show ?thesis by (auto elim!: quoted_complete simp: parse_literal_def)
  next
    case 2
    then obtain c r where c: "w = c # r" "int_start c"
    proof -
      obtain m i x where w: "w = m @ i @ x" "m = [] \<or> m = ''-''" "plain_int i" using 2 by (auto simp: number_word_def)
      then obtain d i' where "i = d # i'" "is_digit d" by (cases i) (auto simp: plain_int_def digits_word_def is_digit_def)
      with w(1,2) show thesis by (auto simp: int_start_def intro: that)
    qed
    moreover from c(2) have "\<not> is_quote c" by (auto simp: int_start_def is_quote_def is_digit_def)
    ultimately show ?thesis
      using number_complete [OF assms(1) 2 after_operand_stops [OF assms(3)]] assms(1) by (simp add: parse_literal_def peek_drop)
  next
    case 3
    then obtain c r where c: "w = c # r" "c \<in> {CHR ''t'', CHR ''f'', CHR ''n''}" using keyword_hd by blast
    then have "\<not> is_quote c" "\<not> int_start c" by (auto simp: is_quote_def int_start_def is_digit_def)
    with c(1) keyword_found [OF 3 assms(1)] assms(1) show ?thesis by (simp add: parse_literal_def peek_drop)
  qed
qed

lemma blanks_stop: "list_all rfc_blank b \<Longrightarrow> drop p s = b @ c # r \<Longrightarrow> \<not> rfc_blank c \<Longrightarrow> skip_whitespace s p = p + length b"
  using skip_stops [of p s b "c # r" rfc_blank] by (simp add: stops_def)

lemma skip_still: "drop p s = c # r \<Longrightarrow> \<not> rfc_blank c \<Longrightarrow> skip_whitespace s p = p"
  using blanks_stop [of "[]" p s c r] by simp

lemma name_or_index_complete:
  assumes "drop p s = u @ rest" and "quoted_word u \<or> int_word u" and "stops is_digit rest"
  shows "\<exists>c. peek s p = Some c \<and> \<not> rfc_blank c \<and> (if is_quote c then read_quoted s c p = Inr (p + length u)
    else int_start c \<and> read_int s p = Inr (p + length u))"
proof (cases "quoted_word u")
  case True
  from quoted_complete [OF assms(1) True] obtain c where "peek s p = Some c" "is_quote c" "read_quoted s c p = Inr (p + length u)" .
  then show ?thesis by (auto simp: is_quote_def rfc_blank_def)
next
  case False
  with assms(2) have u: "int_word u" by blast
  then obtain c r where c: "u = c # r" "int_start c"
  proof -
    from u obtain ds where ds: "u = ds \<or> u = CHR ''-'' # ds" "digits_word ds"
      by (auto simp: int_word_def digits_word_def is_digit_def)
    then obtain d ds' where "ds = d # ds'" "is_digit d" by (cases ds) (auto simp: digits_word_def)
    with ds show thesis by (auto simp: int_start_def intro: that)
  qed
  moreover from c(2) have "\<not> is_quote c" "\<not> rfc_blank c" by (auto simp: int_start_def is_quote_def is_digit_def rfc_blank_def)
  ultimately show ?thesis using int_complete [OF assms(1) u assms(3)] assms(1) by (auto simp: peek_drop)
qed

lemma stops_blanks: "blanks b \<Longrightarrow> stops is_digit rest \<Longrightarrow> stops is_digit (b @ rest)"
  by (cases b) (auto simp: stops_def dest: blank_not_name)

lemma singular_bracket_complete:
  assumes "drop p s = b1 @ u @ b2 @ CHR '']'' # rest" and "blanks b1" and "quoted_word u \<or> int_word u" and "blanks b2"
  shows "singular_bracket s p = Inr (p + length b1 + length u + length b2 + 1)"
proof -
  have at1: "drop (p + length b1) s = u @ b2 @ CHR '']'' # rest" using assms(1) by (rule drop_further)
  then have at2: "drop (p + length b1 + length u) s = b2 @ CHR '']'' # rest" by (rule drop_further)
  then have at3: "drop (p + length b1 + length u + length b2) s = CHR '']'' # rest" by (rule drop_further)
  have "stops is_digit (b2 @ CHR '']'' # rest)" using assms(4) by (intro stops_blanks) (simp_all add: stops_def is_digit_def)
  then obtain c where c: "peek s (p + length b1) = Some c" "\<not> rfc_blank c"
    "if is_quote c then read_quoted s c (p + length b1) = Inr (p + length b1 + length u)
     else int_start c \<and> read_int s (p + length b1) = Inr (p + length b1 + length u)"
    using name_or_index_complete [OF at1 assms(3)] by blast
  from c(1) obtain r where "drop (p + length b1) s = c # r" by (auto simp: peek_iff)
  with at1 assms(1) have "drop p s = b1 @ c # r" by simp
  then have s1: "skip_whitespace s p = p + length b1" using blanks_stop [OF assms(2) _ c(2)] by blast
  have s2: "skip_whitespace s (p + length b1 + length u) = p + length b1 + length u + length b2"
    using blanks_stop [OF assms(4) at2] by (simp add: rfc_blank_def)
  show ?thesis unfolding singular_bracket_def Let_def s1 using c(1,3) s2 at3
    by (cases "is_quote c") (simp_all add: peek_drop sees_drop)
qed

lemma singular_tail_hd: "singular_tail t \<Longrightarrow> t = [] \<or> rfc_blank (hd t) \<or> hd t = CHR ''.'' \<or> hd t = CHR ''[''"
  by (induction rule: singular_tail.induct) (auto simp: hd_append list_all_iff split: list.splits)

lemma singular_complete:
  "singular_tail t \<Longrightarrow> drop p s = t @ rest \<Longrightarrow> after_operand rest \<Longrightarrow> singular_loop s p = Inr (p + length t)"
proof (induction arbitrary: p rule: singular_tail.induct)
  case none
  define b where "b = takeWhile rfc_blank rest"
  have r: "rest = b @ dropWhile rfc_blank rest" by (simp add: b_def)
  have skip: "skip_whitespace s p = p + length b" using none.prems(1) by (simp add: skip_while_def b_def)
  have "drop (p + length b) s = dropWhile rfc_blank rest" using none.prems(1) r drop_further [of p s b "dropWhile rfc_blank rest"] by simp
  then have "peek s (p + length b) = (case dropWhile rfc_blank rest of [] \<Rightarrow> None | c # _ \<Rightarrow> Some c)" by (simp add: peek_def)
  with none.prems(2) have "peek s (p + length b) \<noteq> Some (CHR ''.'')" "peek s (p + length b) \<noteq> Some (CHR ''['')"
    unfolding after_operand_def by (cases "dropWhile rfc_blank rest"; auto simp: end_chars_def)+
  with skip show ?case by (simp add: singular_loop.simps [of s p])
next
  case (name b u t)
  have at0: "drop p s = b @ CHR ''.'' # u @ t @ rest" using name.prems(1) by simp
  then have at1: "drop (p + length b) s = CHR ''.'' # u @ t @ rest" by (rule drop_further)
  then have at2: "drop (p + length b + 1) s = u @ t @ rest" by (simp add: drop_next)
  then have at3: "drop (p + length b + 1 + length u) s = t @ rest" by (rule drop_further)
  have skip: "skip_whitespace s p = p + length b" using blanks_stop [OF name.hyps(1) at0] by (simp add: rfc_blank_def)
  have stop: "stops is_name_char (t @ rest)"
  proof (cases t)
    case Nil
    with after_operand_hd [OF name.prems(2)] show ?thesis by (auto simp: stops_def dest: end_not_name blank_not_name)
  next
    case (Cons c t')
    with singular_tail_hd [OF name.hyps(3)] show ?thesis
      by (auto simp: stops_def is_name_char_def is_name_start_def is_digit_def is_ascii_letter_def is_extended_def Let_def rfc_blank_def)
  qed
  obtain c r where u: "u = c # r" "is_name_start c" using name.hyps(2) by (cases u) (auto simp: shorthand_word_def)
  then have "c \<noteq> CHR ''.''" "c \<noteq> CHR ''*''" by (auto simp: is_name_start_def is_ascii_letter_def is_extended_def Let_def)
  then have "singular_loop s p = bind_e (read_shorthand s (p + length b + 1)) (singular_loop s)"
    using at1 at2 u(1) by (simp add: singular_loop.simps [of s p] skip Let_def peek_drop)
  also have "\<dots> = singular_loop s (p + length b + 1 + length u)" using shorthand_complete [OF at2 name.hyps(2) stop] by simp
  also have "\<dots> = Inr (p + length b + 1 + length u + length t)" by (rule name.IH [OF at3 name.prems(2)])
  finally show ?case by simp
next
  case (bracket b b1 u b2 t)
  have at0: "drop p s = b @ CHR ''['' # b1 @ u @ b2 @ CHR '']'' # t @ rest" using bracket.prems(1) by simp
  then have at1: "drop (p + length b) s = CHR ''['' # b1 @ u @ b2 @ CHR '']'' # t @ rest" by (rule drop_further)
  then have at2: "drop (p + length b + 1) s = b1 @ u @ b2 @ CHR '']'' # t @ rest" by (simp add: drop_next)
  then have at3: "drop (p + length b + 1 + length b1 + length u + length b2 + 1) s = t @ rest"
    using drop_further [of "p + length b + 1" s "b1 @ u @ b2 @ '']''" "t @ rest"] by (simp add: ac_simps)
  have skip: "skip_whitespace s p = p + length b" using blanks_stop [OF bracket.hyps(1) at0] by (simp add: rfc_blank_def)
  have "singular_loop s p = bind_e (singular_bracket s (p + length b + 1)) (singular_loop s)"
    using at1 by (simp add: singular_loop.simps [of s p] skip Let_def peek_drop)
  also have "\<dots> = singular_loop s (p + length b + 1 + length b1 + length u + length b2 + 1)"
    using singular_bracket_complete [OF at2 bracket.hyps(2,3,4)] by simp
  also have "\<dots> = Inr (p + length b + 1 + length b1 + length u + length b2 + 1 + length t)"
    by (rule bracket.IH [OF at3 bracket.prems(2)])
  finally show ?case by (simp add: ac_simps)
qed

lemma literal_hd: "literal_word w \<Longrightarrow> \<exists>c r. w = c # r \<and> c \<notin> set ''=!(@'' \<and> \<not> rfc_blank c"
proof -
  assume "literal_word w"
  then consider "quoted_word w" | "number_word w" | "w \<in> set LITERAL_KEYWORDS" by (auto simp: literal_word_def)
  then show ?thesis
  proof cases
    case 1
    then show ?thesis by (auto simp: quoted_word_def is_quote_def rfc_blank_def)
  next
    case 2
    then obtain m i x where w: "w = m @ i @ x" "m = [] \<or> m = ''-''" "plain_int i" by (auto simp: number_word_def)
    then obtain d i' where "i = d # i'" "is_digit d" by (cases i) (auto simp: plain_int_def digits_word_def is_digit_def)
    with w(1,2) show ?thesis by (auto simp: is_digit_def rfc_blank_def)
  next
    case 3
    then show ?thesis using keyword_hd [of w] by (auto simp: rfc_blank_def)
  qed
qed

lemma operand_hd: "operand_word w \<Longrightarrow> \<exists>c r. w = c # r \<and> c \<notin> set ''=!('' \<and> \<not> rfc_blank c"
  using literal_hd [of w] by (auto simp: operand_word_def query_word_def rfc_blank_def)

lemma operand_complete:
  assumes "drop p s = w @ rest" and "operand_word w" and "after_operand rest"
  shows "parse_operand s p = Inr (p + length w)"
proof (cases "query_word w")
  case True
  then obtain t where t: "w = CHR ''@'' # t" "singular_tail t" by (auto simp: query_word_def)
  with assms(1) have "drop (Suc p) s = t @ rest" by (simp add: drop_next)
  from singular_complete [OF t(2) this assms(3)] t(1) assms(1) show ?thesis by (simp add: parse_operand_def peek_drop)
next
  case False
  with assms(2) have l: "literal_word w" by (simp add: operand_word_def)
  with literal_hd [OF l] assms(1) have "peek s p \<noteq> Some (CHR ''@'')" by (auto simp: peek_drop)
  with literal_complete [OF assms(1) l assms(3)] show ?thesis by (simp add: parse_operand_def)
qed

definition follow :: "string set \<Rightarrow> string \<Rightarrow> bool" where
  "follow ops rest \<longleftrightarrow> rest = [] \<or> hd rest \<in> set ''])'' \<or> (\<exists>op \<in> ops. prefix op rest)"

lemma follow_hd: "follow {''&&'', ''||''} rest \<Longrightarrow> rest = [] \<or> hd rest \<in> set ''])&|''"
  by (auto simp: follow_def prefix_def)

lemma follow_after: "follow {''&&'', ''||''} rest \<Longrightarrow> blanks b \<Longrightarrow> after_operand (b @ rest)"
proof -
  assume f: "follow {''&&'', ''||''} rest" and b: "blanks b"
  have d: "dropWhile rfc_blank (b @ rest) = dropWhile rfc_blank rest"
    using b by (simp add: dropWhile_append2 list_all_iff)
  from follow_hd [OF f] show ?thesis unfolding after_operand_def d
    by (cases rest) (auto simp: end_chars_def rfc_blank_def)
qed

lemma follow_stops: "follow {''&&'', ''||''} rest \<Longrightarrow> stops rfc_blank rest"
  using follow_hd [of rest] by (auto simp: stops_def rfc_blank_def)

lemma operator_found:
  assumes "op \<in> set COMPARISON_OPERATORS" and "drop p s = op @ rest" and "stops (\<lambda>c. c = CHR ''='') rest"
  shows "find (starts s p) COMPARISON_OPERATORS = Some op \<and> \<not> starts s p ''=~''"
proof -
  have "op = ''=='' \<or> op = ''!='' \<or> op = ''<='' \<or> op = ''>='' \<or> op = ''<'' \<or> op = ''>''"
    using assms(1) by (simp add: COMPARISON_OPERATORS_def)
  then show ?thesis unfolding starts_def assms(2) COMPARISON_OPERATORS_def using assms(3)
    by (elim disjE) (cases rest; simp add: stops_def)+
qed

lemma operator_hd: "op \<in> set COMPARISON_OPERATORS \<Longrightarrow> \<exists>c r. op = c # r \<and> c \<in> set ''=!<>''"
  by (auto simp: COMPARISON_OPERATORS_def)

lemma compare_complete:
  assumes "drop p s = u @ b1 @ op @ b2 @ v @ rest" and "operand_word u" "blanks b1" "op \<in> set COMPARISON_OPERATORS" "blanks b2" "operand_word v"
    and "after_operand rest"
  shows "parse_comparison s False p = Inr (p + length (u @ b1 @ op @ b2 @ v))"
proof -
  obtain o1 o2 where op: "op = o1 # o2" "o1 \<in> set ''=!<>''" using operator_hd [OF assms(4)] by blast
  obtain c r where v: "v = c # r" "c \<notin> set ''=!(''" "\<not> rfc_blank c" using operand_hd [OF assms(6)] by blast
  have at1: "drop (p + length u) s = b1 @ op @ b2 @ v @ rest" using assms(1) by (rule drop_further)
  then have at2: "drop (p + length u + length b1) s = op @ b2 @ v @ rest" by (rule drop_further)
  then have at3: "drop (p + length u + length b1 + length op) s = b2 @ v @ rest" by (rule drop_further)
  then have at4: "drop (p + length u + length b1 + length op + length b2) s = v @ rest" by (rule drop_further)
  have "after_operand (b1 @ op @ b2 @ v @ rest)"
    using assms(3) op by (auto simp: after_operand_def dropWhile_append2 list_all_iff end_chars_def rfc_blank_def)
  then have u: "parse_operand s p = Inr (p + length u)" by (rule operand_complete [OF assms(1,2)])
  have s1: "skip_whitespace s (p + length u) = p + length u + length b1"
    using op by (intro skip_stops [OF at1 assms(3)]) (auto simp: stops_def rfc_blank_def)
  have s2: "skip_whitespace s (p + length u + length b1 + length op) = p + length u + length b1 + length op + length b2"
    using v by (intro skip_stops [OF at3 assms(5)]) (simp add: stops_def)
  have "stops (\<lambda>c. c = CHR ''='') (b2 @ v @ rest)" using assms(5) v by (cases b2) (auto simp: stops_def rfc_blank_def)
  from operator_found [OF assms(4) at2 this] s1 s2 operand_complete [OF at4 assms(6,7)] u show ?thesis
    by (simp add: parse_comparison_def Let_def ac_simps)
qed

lemma exists_complete:
  assumes "drop p s = q @ b @ rest" and "query_word q" "blanks b" and "follow {''&&'', ''||''} rest"
  shows "parse_comparison s negated p = Inr (p + length (q @ b))"
proof -
  have at1: "drop (p + length q) s = b @ rest" using assms(1) by (rule drop_further)
  then have at2: "drop (p + length q + length b) s = rest" by (rule drop_further)
  have o: "parse_operand s p = Inr (p + length q)"
    by (rule operand_complete [OF assms(1)]) (simp_all add: operand_word_def assms(2) follow_after [OF assms(4,3)])
  have skip: "skip_whitespace s (p + length q) = p + length q + length b"
    by (rule skip_stops [OF at1 assms(3) follow_stops [OF assms(4)]])
  have "find (starts s (p + length q + length b)) COMPARISON_OPERATORS = None \<and> \<not> starts s (p + length q + length b) ''=~''"
    using follow_hd [OF assms(4)] unfolding starts_def at2 by (cases rest) (auto simp: COMPARISON_OPERATORS_def)
  moreover have "peek s p = Some (CHR ''@'')" using assms(1,2) by (auto simp: query_word_def peek_drop)
  ultimately show ?thesis using o skip by (simp add: parse_comparison_def Let_def)
qed

text \<open>
  A parser is complete for a language up to a length: it reads every shorter word as a whole, and
  at most the blanks behind it, when what follows is a legal end.
\<close>

definition complete :: "nat \<Rightarrow> string \<Rightarrow> (nat \<Rightarrow> nat jp option) \<Rightarrow> (string \<Rightarrow> bool) \<Rightarrow> string set \<Rightarrow> bool" where
  "complete N s next X ops \<longleftrightarrow>
     (\<forall>w b rest p. X w \<and> length w < N \<and> drop p s = w @ b @ rest \<and> blanks b \<and> follow ops rest
       \<longrightarrow> (\<exists>q. next p = Some (Inr q) \<and> skip_whitespace s q = p + length w + length b))"

lemma joined_tail_hd: "joined_tail op X t \<Longrightarrow> t = [] \<or> prefix op t"
  by (auto elim: joined_tail.cases)

lemma joined_loop_complete:
  assumes "complete N s next X (insert op ops)" and "\<And>rest. follow ops rest \<Longrightarrow> \<not> prefix op rest" and "op \<noteq> []"
    and "insert op ops \<subseteq> {''&&'', ''||''}"
  shows "joined_tail op X t \<Longrightarrow> length t \<le> N \<Longrightarrow> length t < n \<Longrightarrow> drop p s = t @ b @ rest \<Longrightarrow> blanks b \<Longrightarrow> (t = [] \<longrightarrow> b = [])
    \<Longrightarrow> follow ops rest \<Longrightarrow> joined_loop op next n s p = Some (Inr (p + length t + length b))"
proof (induction arbitrary: n p b rule: joined_tail.induct)
  case none
  then obtain m where "n = Suc m" by (cases n) auto
  moreover have "\<not> starts s p op" using assms(2) [OF none.prems(6)] none.prems(3,5) by (simp add: starts_def)
  ultimately show ?case using none.prems(5) by simp
next
  case (more u c t)
  then obtain m where n: "n = Suc m" by (cases n) auto
  have st: "starts s p op" using more.prems(3) by (simp add: starts_def)
  define b' where "b' = (if t = [] then c @ b else c)"
  define b'' where "b'' = (if t = [] then [] else b)"
  have split: "c @ t @ b @ rest = b' @ t @ b'' @ rest" by (simp add: b'_def b''_def)
  have blank: "blanks b'" "blanks b''" using more.hyps(2) more.prems(4) by (simp_all add: b'_def b''_def)
  have at1: "drop (p + length op) s = u @ b' @ t @ b'' @ rest"
    using drop_further [of p s op "u @ c @ t @ b @ rest"] more.prems(3) split by simp
  have fol: "follow (insert op ops) (t @ b'' @ rest)"
  proof (cases "t = []")
    case True
    with more.prems(6) show ?thesis by (auto simp: b''_def follow_def)
  next
    case False
    with joined_tail_hd [OF more.hyps(3)] show ?thesis by (auto simp: follow_def)
  qed
  have "length u < N" using more.prems(1) assms(3) by (cases op) auto
  then obtain q where q: "next (p + length op) = Some (Inr q)" "skip_whitespace s q = p + length op + length u + length b'"
    using assms(1) more.hyps(1) at1 blank(1) fol unfolding complete_def by blast
  have at2: "drop (p + length op + length u + length b') s = t @ b'' @ rest"
    using drop_further [of "p + length op" s "u @ b'" "t @ b'' @ rest"] at1 by (simp add: ac_simps)
  have "joined_loop op next m s (p + length op + length u + length b')
      = Some (Inr (p + length op + length u + length b' + length t + length b''))"
  proof (rule more.IH [OF _ _ at2 blank(2) _ more.prems(6)])
    show "length t \<le> N" "length t < m" using more.prems(1,2) n assms(3) by (cases op; simp)+
  qed (simp add: b''_def)
  moreover have "length b' + length b'' = length c + length b" by (simp add: b'_def b''_def)
  ultimately show ?case using st q n by (simp add: then_jp_def)
qed

lemma joined_complete:
  assumes "complete N s next X (insert op ops)" and "\<And>rest. follow ops rest \<Longrightarrow> \<not> prefix op rest" and "op \<noteq> []"
    and "insert op ops \<subseteq> {''&&'', ''||''}"
  shows "complete N s (joined op next s) (joined_word op X) ops"
  unfolding complete_def
proof (intro allI impI, elim conjE)
  fix w b rest p
  assume w: "joined_word op X w" "length w < N" and at: "drop p s = w @ b @ rest" and b: "blanks b" and f: "follow ops rest"
  obtain u c t where u: "w = u @ c @ t" "X u" "blanks c" "joined_tail op X t" using w(1) by (auto simp: joined_word_def)
  define b' where "b' = (if t = [] then c @ b else c)"
  define b'' where "b'' = (if t = [] then [] else b)"
  have blank: "blanks b'" "blanks b''" using u(3) b by (simp_all add: b'_def b''_def)
  have at1: "drop p s = u @ b' @ t @ b'' @ rest" using at u(1) by (simp add: b'_def b''_def)
  have fol: "follow (insert op ops) (t @ b'' @ rest)"
    using f joined_tail_hd [OF u(4)] by (cases "t = []") (auto simp: b''_def follow_def)
  have "length u < N" using w(2) u(1) by simp
  then obtain q where q: "next p = Some (Inr q)" "skip_whitespace s q = p + length u + length b'"
    using assms(1) u(2) at1 blank(1) fol unfolding complete_def by blast
  have at2: "drop (p + length u + length b') s = t @ b'' @ rest"
    using drop_further [of p s "u @ b'" "t @ b'' @ rest"] at1 by (simp add: ac_simps)
  have len: "length t < Suc (length s)" using arg_cong [OF at2, of length] by simp
  have e: "p + length u + length b' + length t + length b'' = p + length w + length b" by (simp add: u(1) b'_def b''_def)
  have "joined_loop op next (Suc (length s)) s (p + length u + length b') = Some (Inr (p + length u + length b' + length t + length b''))"
    by (rule joined_loop_complete [OF assms u(4) _ len at2 blank(2) _ f]) (use w(2) u(1) in \<open>auto simp: b''_def\<close>)
  then have "joined op next s p = Some (Inr (p + length w + length b))"
    using q unfolding joined_def e by (simp add: then_jp_def del: joined_loop.simps)
  moreover have "skip_whitespace s (p + length w + length b) = p + length w + length b"
  proof (rule skip_none)
    show "drop (p + length w + length b) s = rest" using drop_further [of p s "w @ b" rest] at by (simp add: ac_simps)
    have "follow {''&&'', ''||''} rest" using f assms(4) by (auto simp: follow_def)
    then show "rest = [] \<or> \<not> rfc_blank (hd rest)" using follow_stops by (simp add: stops_def)
  qed
  ultimately show "\<exists>q. joined op next s p = Some (Inr q) \<and> skip_whitespace s q = p + length w + length b" by blast
qed

lemma or_complete:
  assumes "complete N s basic basic_word {''&&'', ''||''}"
  shows "complete N s (parse_or basic s) or_word {}"
proof -
  have "complete N s (joined ''&&'' basic s) (joined_word ''&&'' basic_word) {''||''}"
    by (rule joined_complete) (use assms in \<open>auto simp: follow_def prefix_def\<close>)
  then have "complete N s (joined ''||'' (joined ''&&'' basic s) s) or_word {}"
    by (rule joined_complete) (auto simp: follow_def prefix_def)
  moreover have "parse_or basic s = joined ''||'' (joined ''&&'' basic s) s" by (rule ext) (simp add: parse_or_def parse_and_eta)
  ultimately show ?thesis by simp
qed

lemma negation_read:
  assumes "drop p s = b @ n @ c # rest" and "blanks b" and "negation_word n" and "c \<noteq> CHR ''!''" and "\<not> rfc_blank c"
  shows "(let p0 = skip_whitespace s p in if peek s p0 = Some (CHR ''!'') then skip_whitespace s (p0 + 1) else p0) = p + length b + length n"
    and "(peek s (skip_whitespace s p) = Some (CHR ''!'')) = (n \<noteq> [])"
proof -
  have at1: "drop (p + length b) s = n @ c # rest" using assms(1) by (rule drop_further)
  have skip: "skip_whitespace s p = p + length b"
    using assms(3,5) by (intro skip_stops [OF assms(1,2)]) (auto simp: negation_word_def stops_def rfc_blank_def)
  show "(peek s (skip_whitespace s p) = Some (CHR ''!'')) = (n \<noteq> [])"
    unfolding skip using assms(3,4) at1 by (auto simp: negation_word_def peek_drop)
  show "(let p0 = skip_whitespace s p in if peek s p0 = Some (CHR ''!'') then skip_whitespace s (p0 + 1) else p0) = p + length b + length n"
  proof (cases n)
    case Nil
    with at1 assms(4) skip show ?thesis by (simp add: peek_drop)
  next
    case (Cons x n')
    with assms(3) have n': "x = CHR ''!''" "blanks n'" by (auto simp: negation_word_def)
    have "drop (p + length b + 1) s = n' @ c # rest" using at1 Cons by (simp add: drop_next)
    from blanks_stop [OF n'(2) this assms(5)] at1 Cons n'(1) skip show ?thesis by (simp add: peek_drop)
  qed
qed

lemma basic_complete: "complete n s (parse_basic n s) basic_word {''&&'', ''||''}"
proof (induction n)
  case 0
  show ?case by (simp add: complete_def)
next
  case (Suc n)
  show ?case unfolding complete_def
  proof (intro allI impI, elim conjE)
    fix w t rest p
    assume w: "basic_word w" "length w < Suc n" and at: "drop p s = w @ t @ rest" and t: "blanks t"
      and f: "follow {''&&'', ''||''} rest"
    have whole: "drop (p + length w + length t) s = rest" using drop_further [of p s "w @ t" rest] at by (simp add: ac_simps)
    have still: "skip_whitespace s (p + length w + length t) = p + length w + length t"
      using follow_stops [OF f] by (intro skip_none [OF whole]) (simp add: stops_def)
    have tail: "skip_whitespace s (p + length w) = p + length w + length t"
      using drop_further [OF at] t follow_stops [OF f] by (rule skip_stops)
    from w(1) show "\<exists>q. parse_basic (Suc n) s p = Some (Inr q) \<and> skip_whitespace s q = p + length w + length t"
    proof cases
      case (group b m u b1)
      define x where "x = p + length b + length m"
      have at0: "drop p s = b @ m @ CHR ''('' # u @ b1 @ CHR '')'' # t @ rest" using at group(1) by simp
      note neg = negation_read [OF at0 group(2,3), simplified rfc_blank_def, simplified]
      have "drop (p + length b) s = m @ CHR ''('' # u @ b1 @ CHR '')'' # t @ rest" using at0 by (rule drop_further)
      then have at1: "drop x s = CHR ''('' # u @ b1 @ CHR '')'' # t @ rest" unfolding x_def by (rule drop_further)
      then have at2: "drop (x + 1) s = u @ b1 @ CHR '')'' # t @ rest" by (simp add: drop_next)
      have "length u < n" using w(2) group(1) by simp
      moreover have "follow {} (CHR '')'' # t @ rest)" by (simp add: follow_def)
      ultimately obtain q where q: "parse_or (parse_basic n s) s (x + 1) = Some (Inr q)"
          "skip_whitespace s q = x + 1 + length u + length b1"
        using or_complete [OF Suc.IH] group(4,5) at2 unfolding complete_def by blast
      have "drop (x + 1 + length u + length b1) s = CHR '')'' # t @ rest"
        using drop_further [of "x + 1" s "u @ b1" "CHR '')'' # t @ rest"] at2 by (simp add: ac_simps)
      then have "peek s (x + 1 + length u + length b1) = Some (CHR '')'')" by (rule peek_drop)
      then have "parse_basic (Suc n) s p = Some (Inr (x + 1 + length u + length b1 + 1))"
        using q at1 neg(1) unfolding parse_basic.simps Let_def x_def [symmetric] by (simp add: then_jp_def peek_drop Let_def x_def)
      moreover have "x + 1 + length u + length b1 + 1 = p + length w" by (simp add: group(1) x_def)
      ultimately show ?thesis using tail by metis
    next
      case (exists b m qw)
      define x where "x = p + length b + length m"
      obtain r where r: "qw = CHR ''@'' # r" using exists(4) by (auto simp: query_word_def)
      have at0: "drop p s = b @ m @ CHR ''@'' # r @ t @ rest" using at exists(1) r by simp
      note neg = negation_read [OF at0 exists(2,3), simplified rfc_blank_def, simplified]
      have "drop (p + length b) s = m @ CHR ''@'' # r @ t @ rest" using at0 by (rule drop_further)
      then have at1: "drop x s = qw @ t @ rest" unfolding x_def r by (simp add: drop_further)
      have "parse_basic (Suc n) s p = Some (parse_comparison s (m \<noteq> []) x)"
        using at1 r neg unfolding parse_basic.simps Let_def by (simp add: peek_drop Let_def x_def)
      also have "\<dots> = Some (Inr (x + length (qw @ t)))" using exists_complete [OF at1 exists(4) t f] by simp
      also have "x + length (qw @ t) = p + length w + length t" by (simp add: exists(1) x_def)
      finally show ?thesis using still by blast
    next
      case (compare b u b1 op b2 v)
      define x where "x = p + length b"
      obtain c r where u: "u = c # r" "c \<notin> set ''=!(''" "\<not> rfc_blank c" using operand_hd [OF compare(3)] by blast
      have at0: "drop p s = b @ [] @ c # r @ b1 @ op @ b2 @ v @ t @ rest" using at compare(1) u(1) by simp
      have "negation_word []" by (simp add: negation_word_def)
      note neg = negation_read [OF at0 compare(2) this _ u(3), simplified]
      have at1: "drop x s = u @ b1 @ op @ b2 @ v @ (t @ rest)" using drop_further [of p s b] at0 u(1) by (simp add: x_def)
      have "parse_basic (Suc n) s p = Some (parse_comparison s False x)"
        using at1 u neg unfolding parse_basic.simps Let_def by (simp add: peek_drop Let_def x_def)
      also have "\<dots> = Some (Inr (x + length (u @ b1 @ op @ b2 @ v)))"
        using compare_complete [OF at1 compare(3-7) follow_after [OF f t]] by simp
      also have "x + length (u @ b1 @ op @ b2 @ v) = p + length w" by (simp add: compare(1) x_def)
      finally show ?thesis using tail by blast
    qed
  qed
qed

subsection \<open>Exactly the paths of the grammar\<close>

lemma int_hd: "int_word w \<Longrightarrow> \<exists>c r. w = c # r \<and> int_start c"
proof -
  assume "int_word w"
  then obtain ds where ds: "w = ds \<or> w = CHR ''-'' # ds" "digits_word ds"
    by (auto simp: int_word_def digits_word_def is_digit_def)
  then obtain d ds' where "ds = d # ds'" "is_digit d" by (cases ds) (auto simp: digits_word_def)
  with ds show ?thesis by (auto simp: int_start_def)
qed

lemma int_start_plain: "int_start c \<Longrightarrow> \<not> is_quote c \<and> \<not> rfc_blank c \<and> c \<notin> set '':*?[].,''"
  by (auto simp: int_start_def is_digit_def is_quote_def rfc_blank_def)

lemma slice_end_complete:
  assumes "drop p s = e @ c # rest" and "slice_end e" and "c \<notin> set ''-'' \<and> \<not> is_digit c \<and> \<not> rfc_blank c"
  shows "(if sees int_start s p then map_sum id (skip_whitespace s) (read_int s p) else Inr p) = Inr (p + length e)"
  using assms(2)
proof cases
  case none
  with assms(1,3) show ?thesis by (simp add: sees_drop int_start_def)
next
  case (int u b)
  have 1: "drop p s = u @ b @ c # rest" using assms(1) int(1) by simp
  have "stops is_digit (b @ c # rest)" using int(3) assms(3) by (intro stops_blanks) (simp_all add: stops_def)
  with int_complete [OF 1 int(2)] have r: "read_int s p = Inr (p + length u)" .
  have "skip_whitespace s (p + length u) = p + length u + length b"
    using drop_further [OF 1] int(3) assms(3) by (intro blanks_stop) auto
  moreover have "sees int_start s p" using int_hd [OF int(2)] 1 by (auto simp: sees_drop)
  ultimately show ?thesis using r int(1) by simp
qed

lemma second_bound:
  assumes "drop p s = b @ e @ c # rest" and "blanks b" and "slice_end e" and "c = CHR '':'' \<or> c = CHR '']''"
  shows "(if sees int_start s (skip_whitespace s p) then map_sum id (skip_whitespace s) (read_int s (skip_whitespace s p))
      else Inr (skip_whitespace s p)) = Inr (p + length b + length e)"
proof -
  have "e = [] \<or> (\<exists>x r. e = x # r \<and> int_start x)" using assms(3) int_hd by (fastforce elim!: slice_end.cases)
  then have "stops rfc_blank (e @ c # rest)" using assms(4) int_start_plain by (auto simp: stops_def rfc_blank_def)
  then have skip: "skip_whitespace s p = p + length b" by (rule skip_stops [OF assms(1,2)])
  have "drop (p + length b) s = e @ c # rest" using assms(1) by (rule drop_further)
  then show ?thesis unfolding skip by (rule slice_end_complete [OF _ assms(3)]) (use assms(4) in \<open>auto simp: is_digit_def rfc_blank_def\<close>)
qed

text \<open>A slice is read up to the closing bracket.\<close>

lemma slice_complete:
  assumes "drop p s = u @ b @ CHR '':'' # b1 @ e @ t @ b2 @ CHR '']'' # rest"
    and "(u = [] \<and> b = []) \<or> (int_word u \<and> blanks b)" "blanks b1" "slice_end e" "slice_step t" "blanks b2"
    and "peek s p = Some c"
  shows "parse_index_or_slice s c p = Inr (SLICE, p + length (u @ b @ CHR '':'' # b1 @ e @ t) + length b2)"
proof -
  define p2 where "p2 = p + length u + length b"
  have start: "\<exists>p1. (if c \<noteq> CHR '':'' then read_int s p else Inr p) = Inr p1 \<and> skip_whitespace s p1 = p2"
  proof (cases "u = [] \<and> b = []")
    case True
    with assms(1) have d: "drop p s = CHR '':'' # b1 @ e @ t @ b2 @ CHR '']'' # rest" by simp
    with assms(7) have "c = CHR '':''" by (simp add: peek_drop)
    moreover have "skip_whitespace s p = p" by (rule skip_still [OF d]) (simp add: rfc_blank_def)
    ultimately show ?thesis using True by (simp add: p2_def)
  next
    case False
    with assms(2) have u: "int_word u" "blanks b" by blast+
    then obtain x r where x: "u = x # r" "int_start x" using int_hd by blast
    with assms(1,7) have c: "c \<noteq> CHR '':''" using int_start_plain [of x] by (auto simp: peek_drop)
    have at1: "drop (p + length u) s = b @ CHR '':'' # b1 @ e @ t @ b2 @ CHR '']'' # rest" using assms(1) by (rule drop_further)
    have "stops is_digit (b @ CHR '':'' # b1 @ e @ t @ b2 @ CHR '']'' # rest)"
      using u(2) by (intro stops_blanks) (simp_all add: stops_def is_digit_def)
    from int_complete [OF assms(1) u(1) this] blanks_stop [OF u(2) at1] c show ?thesis by (simp add: p2_def rfc_blank_def)
  qed
  then obtain p1 where p1: "(if c \<noteq> CHR '':'' then read_int s p else Inr p) = Inr p1" "skip_whitespace s p1 = p2" by blast
  have at2: "drop p2 s = CHR '':'' # b1 @ e @ t @ b2 @ CHR '']'' # rest"
    using drop_further [of p s "u @ b"] assms(1) by (simp add: p2_def ac_simps)
  then have at3: "drop (p2 + 1) s = b1 @ e @ t @ b2 @ CHR '']'' # rest" by (simp add: drop_next)
  have go: "parse_index_or_slice s c p =
      bind_e (if sees int_start s (skip_whitespace s (p2 + 1)) then map_sum id (skip_whitespace s) (read_int s (skip_whitespace s (p2 + 1)))
              else Inr (skip_whitespace s (p2 + 1))) (\<lambda>p4.
         if peek s p4 = Some (CHR '':'') then
           (let p5 = skip_whitespace s (p4 + 1)
            in if sees int_start s p5 then fail_at JSONPATH_SLICE_STEP p5 else Inr (SLICE, p5))
         else Inr (SLICE, p4))"
    using at2 unfolding parse_index_or_slice_def p1(1) bind_e_simps p1(2) Let_def by (simp add: peek_drop)
  have end_q: "p + length (u @ b @ CHR '':'' # b1 @ e @ t) + length b2 = p2 + 1 + length b1 + length e + length t + length b2"
    by (simp add: p2_def)
  show ?thesis
    using assms(5)
  proof cases
    case none
    define e' where "e' = (if e = [] then [] else e @ b2)"
    define b' where "b' = (if e = [] then b1 @ b2 else b1)"
    have "slice_end e'" using assms(4,6) by (cases rule: slice_end.cases) (auto simp: e'_def intro: slice_end.intros slice_end.int)
    moreover have d: "drop (p2 + 1) s = b' @ e' @ CHR '']'' # rest" using at3 none by (simp add: b'_def e'_def)
    moreover have "blanks b'" using assms(3,6) by (simp add: b'_def)
    ultimately have r: "(if sees int_start s (skip_whitespace s (p2 + 1)) then map_sum id (skip_whitespace s) (read_int s (skip_whitespace s (p2 + 1)))
        else Inr (skip_whitespace s (p2 + 1))) = Inr (p2 + 1 + length b' + length e')" by (intro second_bound) auto
    have "drop (p2 + 1 + length b' + length e') s = CHR '']'' # rest" using d drop_further [of "p2 + 1" s "b' @ e'"] by (simp add: ac_simps)
    then have "parse_index_or_slice s c p = Inr (SLICE, p2 + 1 + length b' + length e')" unfolding go r by (simp add: peek_drop)
    also have "p2 + 1 + length b' + length e' = p2 + 1 + length b1 + length e + length t + length b2" using none by (simp add: b'_def e'_def)
    finally show ?thesis unfolding end_q .
  next
    case (empty bt)
    have d: "drop (p2 + 1) s = b1 @ e @ CHR '':'' # bt @ b2 @ CHR '']'' # rest" using at3 empty(1) by simp
    have r: "(if sees int_start s (skip_whitespace s (p2 + 1)) then map_sum id (skip_whitespace s) (read_int s (skip_whitespace s (p2 + 1)))
        else Inr (skip_whitespace s (p2 + 1))) = Inr (p2 + 1 + length b1 + length e)" by (rule second_bound [OF d assms(3,4)]) simp
    define p4 where "p4 = p2 + 1 + length b1 + length e"
    have at4: "drop p4 s = CHR '':'' # bt @ b2 @ CHR '']'' # rest"
      using d drop_further [of "p2 + 1" s "b1 @ e"] by (simp add: p4_def ac_simps)
    then have at5: "drop (p4 + 1) s = (bt @ b2) @ CHR '']'' # rest" by (simp add: drop_next)
    have s5: "skip_whitespace s (p4 + 1) = p4 + 1 + length (bt @ b2)"
      using empty(2) assms(6) by (intro blanks_stop [OF _ at5]) (simp_all add: rfc_blank_def)
    have "drop (p4 + 1 + length (bt @ b2)) s = CHR '']'' # rest" using at5 by (rule drop_further)
    then have "\<not> sees int_start s (p4 + 1 + length (bt @ b2))" by (simp add: sees_drop int_start_def is_digit_def)
    then have "parse_index_or_slice s c p = Inr (SLICE, p4 + 1 + length (bt @ b2))"
      unfolding go r bind_e_simps p4_def [symmetric] Let_def s5 using at4 by (simp add: peek_drop)
    then show ?thesis unfolding end_q using empty(1) by (simp add: p4_def)
  qed
qed

lemma index_complete:
  assumes "drop p s = u @ b @ CHR '']'' # rest" and "int_word u" "blanks b" and "peek s p = Some c"
  shows "parse_index_or_slice s c p = Inr (INDEX, p + length u + length b)"
proof -
  obtain x r where x: "u = x # r" "int_start x" using int_hd assms(2) by blast
  with assms(1,4) have c: "c \<noteq> CHR '':''" using int_start_plain [of x] by (auto simp: peek_drop)
  have at1: "drop (p + length u) s = b @ CHR '']'' # rest" using assms(1) by (rule drop_further)
  then have at2: "drop (p + length u + length b) s = CHR '']'' # rest" by (rule drop_further)
  have "stops is_digit (b @ CHR '']'' # rest)" using assms(3) by (intro stops_blanks) (simp_all add: stops_def is_digit_def)
  from int_complete [OF assms(1,2) this] blanks_stop [OF assms(3) at1] c at2 show ?thesis
    by (simp add: parse_index_or_slice_def Let_def rfc_blank_def peek_drop)
qed

lemma selector_complete:
  assumes "selector_word k w" and "drop p s = w @ b @ CHR '']'' # rest" and "blanks b"
  shows "\<exists>q. parse_selector s p = Some (Inr (k, q)) \<and> skip_whitespace s q = p + length w + length b"
proof -
  have at_end: "drop (p + length w + length b) s = CHR '']'' # rest" using drop_further [of p s "w @ b"] assms(2) by (simp add: ac_simps)
  have still: "skip_whitespace s (p + length w + length b) = p + length w + length b"
    by (rule skip_still [OF at_end]) (simp add: rfc_blank_def)
  have tail: "skip_whitespace s (p + length w) = p + length w + length b"
    using assms(3) drop_further [OF assms(2)] by (rule blanks_stop) (simp add: rfc_blank_def)
  from assms(1) show ?thesis
  proof cases
    case name
    with quoted_complete [OF assms(2)] obtain c where "peek s p = Some c" "is_quote c" "read_quoted s c p = Inr (p + length w)" by blast
    with name(1) tail show ?thesis by (simp add: parse_selector_def)
  next
    case wildcard
    with assms(2) tail show ?thesis by (simp add: parse_selector_def peek_drop is_quote_def)
  next
    case (filter v)
    have at1: "drop (p + 1) s = v @ b @ CHR '']'' # rest" using assms(2) filter(2) by (simp add: drop_next)
    have "length v < Suc (length s)" using arg_cong [OF at1, of length] by simp
    moreover have "follow {} (CHR '']'' # rest)" by (simp add: follow_def)
    ultimately obtain q where "parse_or (parse_basic (Suc (length s)) s) s (p + 1) = Some (Inr q)"
        "skip_whitespace s q = p + 1 + length v + length b"
      using or_complete [OF basic_complete] filter(3) at1 assms(3) unfolding complete_def by blast
    then have "parse_filter s (p + 1) = Some (Inr (FILTER, p + length w + length b))"
      using filter(2) by (simp add: parse_filter_def then_jp_def del: parse_basic.simps)
    then show ?thesis using assms(2) filter(1,2) still by (simp add: parse_selector_def peek_drop is_quote_def)
  next
    case index
    obtain c r where c: "w = c # r" "int_start c" using int_hd index(2) by blast
    with assms(2) have p: "peek s p = Some c" by (simp add: peek_drop)
    from index_complete [OF assms(2) index(2) assms(3) p] still c int_start_plain [of c] p index(1) show ?thesis
      by (auto simp: parse_selector_def)
  next
    case (slice u b0 b1 e t)
    have at: "drop p s = u @ b0 @ CHR '':'' # b1 @ e @ t @ b @ CHR '']'' # rest" using assms(2) slice(2) by simp
    obtain c where c: "peek s p = Some c" "c = CHR '':'' \<or> int_start c"
      using slice(3) at int_hd [of u] by (auto simp: peek_drop)
    from slice_complete [OF at slice(3-6) assms(3) c(1)] have "parse_index_or_slice s c p = Inr (SLICE, p + length w + length b)"
      using slice(2) by simp
    moreover have "\<not> is_quote c" "c \<noteq> CHR ''*''" "c \<noteq> CHR ''?''" using c(2) int_start_plain [of c] by (auto simp: is_quote_def)
    ultimately show ?thesis using c still slice(1) by (simp add: parse_selector_def)
  qed
qed

lemma selector_hd: "selector_word k w \<Longrightarrow> \<exists>c r. w = c # r \<and> \<not> rfc_blank c"
  using int_hd int_start_plain
  by (fastforce elim!: selector_word.cases simp: quoted_word_def is_quote_def rfc_blank_def)

lemma segment_complete:
  assumes "segment_word k w" and "drop p s = w @ rest" and "stops is_name_char rest"
  shows "(if peek s p = Some (CHR ''.'') then Some (parse_dot_segment s p)
          else if peek s p = Some (CHR ''['') then parse_bracket_segment s p else Some (fail_at JSONPATH_SYNTAX p))
    = Some (Inr (k, p + length w))"
  using assms(1)
proof cases
  case (dot_name v)
  then obtain c r where v: "v = c # r" "is_name_start c" by (cases v) (auto simp: shorthand_word_def)
  have at1: "drop (p + 1) s = v @ rest" using assms(2) dot_name(2) by (simp add: drop_next)
  have "c \<noteq> CHR ''.''" "c \<noteq> CHR ''*''" using v(2) by (auto simp: is_name_start_def is_ascii_letter_def is_extended_def Let_def)
  then show ?thesis using shorthand_complete [OF at1 dot_name(3) assms(3)] at1 v(1) assms(2) dot_name(1,2)
    by (simp add: parse_dot_segment_def peek_drop)
next
  case dot_wildcard
  then have "drop (p + 1) s = CHR ''*'' # rest" using assms(2) by (simp add: drop_next)
  with assms(2) dot_wildcard show ?thesis by (simp add: parse_dot_segment_def peek_drop)
next
  case (bracket b v b1)
  obtain c r where c: "v = c # r" "\<not> rfc_blank c" using selector_hd bracket(3) by blast
  have at1: "drop (p + 1) s = b @ v @ b1 @ CHR '']'' # rest" using assms(2) bracket(1) by (simp add: drop_next)
  have skip: "skip_whitespace s (p + 1) = p + 1 + length b" using c at1 by (intro blanks_stop [OF bracket(2)]) auto
  have at2: "drop (p + 1 + length b) s = v @ b1 @ CHR '']'' # rest" using at1 by (rule drop_further)
  obtain q where q: "parse_selector s (p + 1 + length b) = Some (Inr (k, q))" "skip_whitespace s q = p + 1 + length b + length v + length b1"
    using selector_complete [OF bracket(3) at2 bracket(4)] by blast
  have "drop (p + 1 + length b + length v + length b1) s = CHR '']'' # rest"
    using drop_further [of "p + 1 + length b" s "v @ b1"] at2 by (simp add: ac_simps)
  then have "parse_bracket_segment s p = Some (Inr (k, p + length w))"
    unfolding parse_bracket_segment_def skip q(1) by (simp add: then_jp_def q(2) peek_drop bracket(1) Let_def)
  then show ?thesis using assms(2) bracket(1) by (simp add: peek_drop)
qed

lemma segment_hd: "segment_word k w \<Longrightarrow> \<exists>r. w = CHR ''.'' # r \<or> w = CHR ''['' # r"
  by (auto elim: segment_word.cases)

lemma segments_hd: "segments_word ks t \<Longrightarrow> stops is_name_char t"
proof (induction rule: segments_word.induct)
  case (more b k w ks t)
  then show ?case using segment_hd [of k w]
    by (cases b) (auto simp: stops_def is_name_char_def is_name_start_def is_digit_def is_ascii_letter_def is_extended_def Let_def rfc_blank_def)
qed (simp add: stops_def)

lemma segments_complete:
  "segments_word ks t \<Longrightarrow> drop p s = t \<Longrightarrow> length t < n \<Longrightarrow> parse_segments n s (skip_whitespace s p) = Some (Inr ks)"
proof (induction arbitrary: n p rule: segments_word.induct)
  case none
  then show ?case by (cases n) (simp_all add: skip_while_def peek_def)
next
  case (more b k w ks t)
  obtain c r where c: "w = c # r" "c = CHR ''.'' \<or> c = CHR ''[''" using segment_hd [OF more.hyps(2)] by blast
  have at0: "drop p s = b @ w @ t" using more.prems(1) .
  have skip: "skip_whitespace s p = p + length b"
    using c at0 by (intro skip_stops [OF at0 more.hyps(1)]) (auto simp: stops_def rfc_blank_def)
  have at1: "drop (p + length b) s = w @ t" using at0 by (rule drop_further)
  then have at2: "drop (p + length b + length w) s = t" by (rule drop_further)
  obtain m where n: "n = Suc m" using more.prems(2) by (cases n) auto
  have "length t < m" using more.prems(2) n c by simp
  from more.IH [OF at2 this] segment_complete [OF more.hyps(2) at1 segments_hd [OF more.hyps(3)]] show ?case
    unfolding skip n using at1 c by (auto simp: peek_drop then_jp_def)
qed

lemma segments_last: "segments_word ks t \<Longrightarrow> t = [] \<or> \<not> rfc_blank (last t)"
proof (induction rule: segments_word.induct)
  case (more b k w ks t)
  have "w \<noteq> [] \<and> \<not> rfc_blank (last w)" using more.hyps(2)
  proof cases
    case (dot_name v)
    then have "v \<noteq> []" "list_all is_name_char v" by (auto simp: shorthand_word_def is_name_char_def split: list.splits)
    then have "is_name_char (last v)" by (simp add: list_all_iff)
    with \<open>v \<noteq> []\<close> dot_name(2) show ?thesis using blank_not_name [of "last v"] by auto
  qed (auto simp: rfc_blank_def)
  with more.IH show ?case by (cases "t = []") auto
qed simp

text \<open>
  C39: the gate accepts a path exactly when it is a word of the grammar of the subset, and then
  reports the kinds of its segments in order; everything else is refused.
\<close>
theorem json_path_gate_exact: "parse_json_path (PStr s) = Some (Inr ks) \<longleftrightarrow> path_word ks s"
proof
  assume "path_word ks s"
  then obtain t where t: "s = CHR ''$'' # t" "segments_word ks t" by (auto simp: path_word_def)
  have "\<not> rfc_blank (hd s)" "\<not> rfc_blank (last s)" using segments_last [OF t(2)] t(1) by (auto simp: rfc_blank_def)
  moreover have "peek s 0 = Some (CHR ''$'')" using t(1) by (simp add: peek_def)
  moreover have "parse_segments (Suc (length s)) s (skip_whitespace s 1) = Some (Inr ks)"
    by (rule segments_complete [OF t(2)]) (simp_all add: t(1))
  ultimately show "parse_json_path (PStr s) = Some (Inr ks)"
    by (simp add: parse_json_path_def parse_path_def del: parse_segments.simps)
next
  assume "parse_json_path (PStr s) = Some (Inr ks)"
  then have ends: "s = [] \<or> (\<not> rfc_blank (hd s) \<and> \<not> rfc_blank (last s))" and root: "peek s 0 = Some (CHR ''$'')"
    and segs: "parse_segments (Suc (length s)) s (skip_whitespace s 1) = Some (Inr ks)"
    by (auto simp: parse_json_path_def parse_path_def fail_at_def simp del: parse_segments.simps split: if_splits)
  obtain t where t: "s = CHR ''$'' # t" using root by (auto simp: peek_iff)
  obtain b0 r where b0: "drop 1 s = b0 @ r" "skip_whitespace s 1 = 1 + length b0" "blanks b0"
    using reads_blanks [of s 1] unfolding reads_def by blast
  obtain w b where w: "drop (skip_whitespace s 1) s = w @ b" "segments_word ks w" "blanks b" using segments_sound [OF segs] by blast
  have s: "s = CHR ''$'' # b0 @ w @ b" using b0 w(1) drop_further [of 1 s b0 r] t by simp
  have b: "b = []"
  proof (rule ccontr)
    assume "b \<noteq> []"
    then have "last s = last b" "last b \<in> set b" using s by simp_all
    with w(3) ends s show False by (auto simp: list_all_iff)
  qed
  show "path_word ks s"
  proof (cases ks)
    case Nil
    with w(2) have "w = []" by (auto elim: segments_word.cases)
    moreover have "b0 = []"
    proof (rule ccontr)
      assume "b0 \<noteq> []"
      then have "last s = last b0" "last b0 \<in> set b0" using s b \<open>w = []\<close> by simp_all
      with b0(3) ends s show False by (auto simp: list_all_iff)
    qed
    ultimately show ?thesis using s b Nil by (simp add: path_word_def segments_word.none)
  next
    case (Cons k ks')
    with w(2) obtain b1 v u where u: "w = b1 @ v @ u" "blanks b1" "segment_word k v" "segments_word ks' u"
      by (auto elim: segments_word.cases)
    have "segments_word ks (b0 @ w)" using segments_word.more [of "b0 @ b1" k v ks' u] u b0(3) Cons by simp
    with s b show ?thesis by (simp add: path_word_def)
  qed
qed

text \<open>
  C40: the parser always answers, whatever it is given: the fuel of the descent into parentheses
  (one more than the length of the text) and of the loop over the segments never runs out.
\<close>
theorem json_path_gate_answers: "\<exists>answer. parse_json_path source = Some answer"
  using parse_json_path_total by blast

text \<open>A refusal may point two characters past the end: the position moves over an escape that is not there.\<close>

lemma position_past_end:
  "parse_json_path (PStr (''$['' @ [CHR 0x22, backslash])) = Some (Inl (JSONPATH_SYNTAX, length (''$['' @ [CHR 0x22, backslash]) + 2))"
  by code_simp

end
