(* ===== verification/Spec2Isabelle.thy ===== *)
theory Spec2Isabelle
  imports Task_Failure_Props Task_Store_Props Pricing_Props Usage_Props Artifact_Archive Batch_Admission_Props Script_Review_Props Workflow_State_Props
    Grid_Store Storyboard_Plan Retry Matrix_Session Worker_Settlement Version_Store Jsonpath_Complete
begin

text \<open>
  A verification library of mozia-reel, a service that turns a text into a short film: a project is
  planned episode by episode, its script is written in two stages with a review between them, images,
  voices and clips are generated by paid providers, and everything generated is kept with its history.

  \<^bold>\<open>The parts and how they work together.\<close> A request of the agent or of the page is first judged against
  the state of the project (\<open>lib/workflow_state.py\<close>, \<open>lib/workflow_rules.py\<close>, \<open>lib/script_review.py\<close>) and,
  for a batch of clips, admitted as a whole or refused (\<open>lib/batch_admission.py\<close>). What is to be
  generated is a selection of units over the artifact manifest (\<open>lib/generation_result.py\<close>,
  \<open>lib/artifact_manifest.py\<close>); storyboards are ordered into chains and grids
  (\<open>lib/storyboard_sequence.py\<close>, \<open>lib/grid\<close>). Each unit becomes a task of a persistent queue
  (\<open>lib/db/repositories/task_repo.py\<close>), which the worker of the tenant (\<open>lib/worker_supervisor.py\<close>,
  \<open>lib/generation_worker.py\<close>) claims lane by lane within its capacities and runs with retries
  (\<open>lib/retry.py\<close>). A call is priced (\<open>lib/pricing\<close>, \<open>lib/cost_calculator.py\<close>) and booked
  (\<open>lib/db/repositories/usage_repo.py\<close>); its result is recorded in the history of the medium
  (\<open>lib/version_manager.py\<close>) and claimed in the manifest; a failure is stored as a structured reason
  (\<open>lib/task_failure.py\<close>).

  \<^bold>\<open>Theories and code.\<close> Every definition has the name of the function it models, up to suffixes where a
  name is taken; a class is a record, its methods are functions on it.

  \<^item> \<open>Prelude\<close>: ordered dictionaries, \<open>ORDER BY\<close>, string methods, the error monad over \<open>py_error\<close>, and
    the collections of rewrite rules. \<open>Json_Text\<close>, \<open>Json_Roundtrip\<close>: the JSON values the program stores,
    the printer and the parser of the standard library, and their round trip.
  \<^item> \<open>Task_Failure\<close>, \<open>Task_Failure_Props\<close>: \<open>lib/task_failure.py\<close>.
  \<^item> \<open>Task_Model\<close>, \<open>Task_Repo\<close>: the tables and every operation of \<open>TaskRepository\<close>; \<open>Task_Evolution\<close>,
    \<open>Task_Cascade\<close>, \<open>Task_Settle\<close>, \<open>Task_Steps\<close>, \<open>Task_Invariant\<close>, \<open>Task_Cause\<close>: the operations as
    moves of the database, the queue as a transition system and its invariant; \<open>Task_Queue_Props\<close>,
    \<open>Task_Store_Props\<close>: its properties.
  \<^item> \<open>Capacity_Slots\<close>, \<open>Generation_Worker\<close>, \<open>Worker_Settlement\<close>: the tables of the worker, its claim pass,
    and how a task ends, is resumed or is recovered after a restart; one turn of the loop.
  \<^item> \<open>Pricing\<close>, \<open>Pricing_Props\<close>; \<open>Usage_Ledger\<close>, \<open>Usage_Stats\<close>, \<open>Usage_Props\<close>: amounts, the ledger of calls
    and its statistics.
  \<^item> \<open>Artifact_Key\<close>, \<open>Artifact_Key_Props\<close>, \<open>Artifact_Manifest\<close>, \<open>Manifest_Store\<close>, \<open>Manifest_Props\<close>,
    \<open>Artifact_Archive\<close>: the identity of artifacts, the claims with their storage seam, and the archive.
  \<^item> \<open>Generation_Result\<close>, \<open>Generation_Result_Props\<close>, \<open>Batch_Admission\<close>, \<open>Batch_Admission_Props\<close>.
  \<^item> \<open>Script_Skeleton\<close>, \<open>Script_Review\<close>, \<open>Script_Review_Props\<close>, \<open>Workflow_Facts\<close>, \<open>Workflow_State\<close>,
    \<open>Workflow_State_Props\<close>: scripts, the review of the first stage and the production status.
  \<^item> \<open>Aspect_Size\<close>, \<open>Grid_Plan\<close>, \<open>Grid_Store\<close>, \<open>Project_Paths\<close>, \<open>Storyboard_Plan\<close>, \<open>Version_Store\<close>: sizes,
    grids, paths, the order of storyboards, and the histories of the media.
  \<^item> \<open>Retry\<close>, \<open>Tenants\<close>, \<open>Matrix_Session\<close>: retries, tenants with their workers, the session cookie.
  \<^item> \<open>Jsonpath_Subset\<close>, \<open>Jsonpath_Props\<close>, \<open>Jsonpath_Complete\<close>: the gate for the JSONPaths of a provider
    definition (\<open>lib/custom_provider/endpoint_definition/jsonpath_subset.py\<close>) and the grammar it accepts.
  \<^bold>\<open>What is shown.\<close> The queue: an invariant of every reachable database, finished tasks are final and
  their terminal events exact, the two cascades reach exactly the dependents, a claim takes the oldest
  claimable task and has one winner, the lease is exclusive. The worker: a claim pass ends and respects
  the capacities, a job always ends its task, orphans are settled, nothing is claimed without the lease.
  The manifest and its seam: keys round-trip, the in-memory adapter refines an abstract map, the
  transactional operations are all or nothing under any sequence of failures. Histories only grow, a
  failed commit leaves no trace, a paid result is never lost. The review gates the second stage exactly,
  the status of a project never contradicts itself. Amounts, sizes, plans and paths: totals, exact
  ratios, partitions and containment.
  The JSONPath gate accepts exactly the words of its grammar and always answers.
  \<^bold>\<open>Interfaces.\<close> A locale states what one component relies on in another: \<open>keyed_store\<close> for
  dictionaries, \<open>row_store\<close> for the tables of the database, \<open>state_preorder\<close> for what a loop over operations
  preserves, \<open>manifest_store\<close> for the storage seam of the manifest, \<open>slot_ledger\<close> for the worker.
  Each is interpreted on the definitions of the model in the theory of its provider.

  \<^bold>\<open>Bounds and fuel.\<close> The cascades of the queue recurse through the tasks that are still open; their fuel
  is the number of rows, and \<open>Task_Cascade\<close> proves that it never runs out. The JSON parser runs on the
  length of its text. The claim loop runs on one more than the number of tasks and \<open>claim_pass_returns\<close>
  shows that it ends before that. The JSONPath parser descends into parentheses and loops over segments
  with one more than the length of the text, which \<open>json_path_gate_answers\<close> shows to be enough. The remaining loops end by a measure: the text that shrinks in
  \<open>Task_Failure\<close>, the scenes left in \<open>Grid_Plan\<close>, the attempts left in \<open>Retry\<close>.

  \<^bold>\<open>Arguments instead of definitions.\<close> Clocks, random identifiers, hashes, environment variables, the
  answers of providers, the file system below a record of functions and the data of the registries are
  arguments, instantiated in the witnesses. A failure that the code must survive is an argument too.
  Texts are ASCII and numbers decimal where the JSON text of a value matters; amounts are rationals
  where the code computes with floats.

  \<^bold>\<open>Not modelled.\<close> Routers, the agent runtime and the provider back ends are wiring around network
  clients and the framework; prompts and translations are texts; the database engine, locks, threads
  and the event loop are replaced by atomic operations and explicit interleavings; migrations of stored
  projects, uploads, media tools and the export to an editor mostly call libraries. The manifest of the
  development lists each of these parts with its reason.
\<close>

end
